(* ===== verification/Prelude.thy ===== *)
theory Prelude
  imports Main "HOL-Library.List_Lexorder" "HOL-Library.Char_ord"
begin

text \<open>
  Shared vocabulary of the development.

  The program is Python, so this theory fixes how the Python data the components exchange is
  written in HOL: text as \<^typ>\<open>string\<close> (one character per code point, code points below 256), JSON-like values as
  the datatype \<open>pyval\<close>, a \<open>dict\<close> as an association list with a lookup that returns an option, and
  the handful of \<open>str\<close> methods (\<open>startswith\<close>, \<open>strip\<close>, \<open>lower\<close>, \<open>in\<close>, \<open>split\<close>, \<open>join\<close>,
  \<open>replace\<close>) the sources call. It also holds the lemmas on lists, options and association lists
  the component theories share.
\<close>

named_theorems table_defs \<open>constant tables of the program\<close>
named_theorems guard_defs \<open>guards and early returns of the program\<close>

section \<open>Text\<close>

type_synonym str = string

definition startswith :: "str \<Rightarrow> str \<Rightarrow> bool" where
  "startswith s p \<longleftrightarrow> take (length p) s = p"

definition endswith :: "str \<Rightarrow> str \<Rightarrow> bool" where
  "endswith s p \<longleftrightarrow> length p \<le> length s \<and> drop (length s - length p) s = p"

text \<open>Python's \<open>needle in s\<close>.\<close>

fun str_in :: "str \<Rightarrow> str \<Rightarrow> bool" where
  "str_in p [] \<longleftrightarrow> p = []"
| "str_in p (c # cs) \<longleftrightarrow> startswith (c # cs) p \<or> str_in p cs"

definition lower_char :: "char \<Rightarrow> char" where
  "lower_char c =
     (let n = (of_char c :: nat) in
      if (65 \<le> n \<and> n \<le> 90) \<or> (192 \<le> n \<and> n \<le> 222 \<and> n \<noteq> 215) then char_of (n + 32) else c)"

definition lower :: "str \<Rightarrow> str" where
  "lower = map lower_char"

definition is_space :: "char \<Rightarrow> bool" where
  "is_space c \<longleftrightarrow> (of_char c :: nat) \<in> set [9, 10, 11, 12, 13, 28, 29, 30, 31, 32, 133, 160]"

definition strip :: "str \<Rightarrow> str" where
  "strip s = rev (dropWhile is_space (rev (dropWhile is_space s)))"

text \<open>\<open>s.split()\<close>: maximal runs of non-space characters.\<close>

fun split_ws_acc :: "str \<Rightarrow> str \<Rightarrow> str list" where
  "split_ws_acc acc [] = (if acc = [] then [] else [rev acc])"
| "split_ws_acc acc (c # cs) =
     (if is_space c then (if acc = [] then split_ws_acc [] cs else rev acc # split_ws_acc [] cs)
      else split_ws_acc (c # acc) cs)"

definition split_ws :: "str \<Rightarrow> str list" where
  "split_ws = split_ws_acc []"

definition alnum :: "char \<Rightarrow> bool" where
  "alnum c \<longleftrightarrow>
     (let n = (of_char c :: nat) in (48 \<le> n \<and> n \<le> 57) \<or> (65 \<le> n \<and> n \<le> 90) \<or> (97 \<le> n \<and> n \<le> 122))"

text \<open>\<open>\w\<close> on the code points below 256.\<close>

definition word_char :: "char \<Rightarrow> bool" where
  "word_char c \<longleftrightarrow>
     alnum c \<or> c = CHR ''_'' \<or>
     (let n = (of_char c :: nat) in
      n \<in> set [170, 178, 179, 181, 185, 186, 188, 189, 190] \<or> (192 \<le> n \<and> n \<noteq> 215 \<and> n \<noteq> 247))"

text \<open>\<open>s.splitlines()\<close> for the line feed and carriage return conventions.\<close>

fun splitlines_acc :: "str \<Rightarrow> str \<Rightarrow> str list" where
  "splitlines_acc acc [] = (if acc = [] then [] else [rev acc])"
| "splitlines_acc acc (c # cs) =
     (if (of_char c :: nat) = 13 then
        (case cs of [] \<Rightarrow> [rev acc]
         | d # ds \<Rightarrow> if (of_char d :: nat) = 10 then rev acc # splitlines_acc [] ds
                     else rev acc # splitlines_acc [] cs)
      else if (of_char c :: nat) = 10 then rev acc # splitlines_acc [] cs
      else splitlines_acc (c # acc) cs)"

definition splitlines :: "str \<Rightarrow> str list" where
  "splitlines = splitlines_acc []"

fun join :: "str \<Rightarrow> str list \<Rightarrow> str" where
  "join sep [] = []"
| "join sep [x] = x"
| "join sep (x # y # ys) = x @ sep @ join sep (y # ys)"

text \<open>\<open>s.split(sep, 1)\<close> on a one-character separator: the part before the first occurrence and,
  when there is one, the part after it.\<close>

fun split_first :: "char \<Rightarrow> str \<Rightarrow> str \<times> str option" where
  "split_first d [] = ([], None)"
| "split_first d (c # cs) =
     (if c = d then ([], Some cs)
      else (case split_first d cs of (a, r) \<Rightarrow> (c # a, r)))"

text \<open>\<open>s.replace(old, new)\<close> on a one-character \<open>old\<close>.\<close>

definition replace_char :: "char \<Rightarrow> str \<Rightarrow> str \<Rightarrow> str" where
  "replace_char old new s = concat (map (\<lambda>c. if c = old then new else [c]) s)"

lemma startswith_append [simp]: "startswith (p @ s) p"
  by (simp add: startswith_def)

lemma startswith_iff: "startswith s p \<longleftrightarrow> (\<exists>t. s = p @ t)"
  unfolding startswith_def by (metis append_eq_conv_conj append_take_drop_id)

lemma startswith_Nil [simp]: "startswith s []"
  by (simp add: startswith_def)

lemma endswith_append [simp]: "endswith (s @ p) p"
  by (simp add: endswith_def)

lemma split_first_append:
  "d \<notin> set a \<Longrightarrow> split_first d (a @ d # b) = (a, Some b)"
  by (induction a) auto

lemma split_first_absent: "d \<notin> set a \<Longrightarrow> split_first d a = (a, None)"
  by (induction a) auto

lemma split_first_Some:
  "split_first d s = (a, Some b) \<Longrightarrow> s = a @ d # b \<and> d \<notin> set a"
  by (induction s arbitrary: a) (auto split: if_splits prod.splits)

section \<open>Values\<close>

text \<open>
  A JSON-like Python value. A \<open>float\<close> is carried by its shortest \<open>repr\<close> text, which is how Python
  prints it; a \<open>dict\<close> is an association list in insertion order.
\<close>

datatype pyval =
    PNone
  | PBool bool
  | PInt int
  | PFloat str
  | PStr str
  | PList "pyval list"
  | PDict "(str \<times> pyval) list"

type_synonym dict = "(str \<times> pyval) list"

fun truthy :: "pyval \<Rightarrow> bool" where
  "truthy PNone = False"
| "truthy (PBool b) = b"
| "truthy (PInt i) = (i \<noteq> 0)"
| "truthy (PFloat r) = (r \<noteq> ''0.0'' \<and> r \<noteq> ''-0.0'')"
| "truthy (PStr s) = (s \<noteq> [])"
| "truthy (PList xs) = (xs \<noteq> [])"
| "truthy (PDict d) = (d \<noteq> [])"

text \<open>\<open>d.get(k)\<close>, \<open>d.get(k, v)\<close> and \<open>a or b\<close>.\<close>

definition dget :: "dict \<Rightarrow> str \<Rightarrow> pyval" where
  "dget d k = (case map_of d k of Some v \<Rightarrow> v | None \<Rightarrow> PNone)"

definition dget_default :: "dict \<Rightarrow> str \<Rightarrow> pyval \<Rightarrow> pyval" where
  "dget_default d k v = (case map_of d k of Some x \<Rightarrow> x | None \<Rightarrow> v)"

definition py_or :: "pyval \<Rightarrow> pyval \<Rightarrow> pyval" where
  "py_or a b = (if truthy a then a else b)"

text \<open>\<open>d[k] = v\<close> and \<open>d.pop(k, None)\<close> on an association list.\<close>

fun dict_set :: "('k \<times> 'v) list \<Rightarrow> 'k \<Rightarrow> 'v \<Rightarrow> ('k \<times> 'v) list" where
  "dict_set [] k v = [(k, v)]"
| "dict_set ((k', v') # d) k v = (if k' = k then (k, v) # d else (k', v') # dict_set d k v)"

definition dict_pop :: "('k \<times> 'v) list \<Rightarrow> 'k \<Rightarrow> ('k \<times> 'v) list" where
  "dict_pop d k = filter (\<lambda>(k', _). k' \<noteq> k) d"

lemma map_of_dict_set [simp]: "map_of (dict_set d k v) = (map_of d)(k \<mapsto> v)"
  by (induction d k v rule: dict_set.induct) (auto simp: fun_eq_iff)

lemma map_of_dict_pop [simp]: "map_of (dict_pop d k) = (map_of d)(k := None)"
  by (induction d) (auto simp: dict_pop_def fun_eq_iff)

lemma dget_Some [simp]: "map_of d k = Some v \<Longrightarrow> dget d k = v"
  by (simp add: dget_def)

lemma dget_None [simp]: "map_of d k = None \<Longrightarrow> dget d k = PNone"
  by (simp add: dget_def)

section \<open>Printing\<close>

fun dec_digits :: "nat \<Rightarrow> str" where
  "dec_digits n = (if n < 10 then [char_of (48 + n)] else dec_digits (n div 10) @ [char_of (48 + n mod 10)])"

declare dec_digits.simps [simp del]

definition show_int :: "int \<Rightarrow> str" where
  "show_int i = (if i < 0 then CHR ''-'' # dec_digits (nat (- i)) else dec_digits (nat i))"

definition hex_digit :: "nat \<Rightarrow> char" where
  "hex_digit n = (if n < 10 then char_of (48 + n) else char_of (87 + n))"

text \<open>\<open>json.dumps\<close> string escaping; \<open>ascii\<close> is \<open>ensure_ascii\<close>.\<close>

definition json_escape_char :: "bool \<Rightarrow> char \<Rightarrow> str" where
  "json_escape_char ascii c =
     (let n = (of_char c :: nat); bs = char_of (92::nat) in
      if n = 34 then [bs, c]
      else if n = 92 then [bs, c]
      else if n = 10 then [bs, CHR ''n'']
      else if n = 13 then [bs, CHR ''r'']
      else if n = 9 then [bs, CHR ''t'']
      else if n = 8 then [bs, CHR ''b'']
      else if n = 12 then [bs, CHR ''f'']
      else if 32 \<le> n \<and> (n \<le> 126 \<or> \<not> ascii) then [c]
      else bs # ''u00'' @ [hex_digit (n div 16), hex_digit (n mod 16)])"

definition json_string :: "bool \<Rightarrow> str \<Rightarrow> str" where
  "json_string ascii s =
     [char_of (34::nat)] @ concat (map (json_escape_char ascii) s) @ [char_of (34::nat)]"

text \<open>\<open>json.dumps\<close> with item separator \<open>isep\<close>, key separator \<open>ksep\<close>, and the keys sorted when
  \<open>srt\<close>.\<close>

definition sort_items :: "bool \<Rightarrow> (str \<times> 'v) list \<Rightarrow> (str \<times> 'v) list" where
  "sort_items srt d = (if srt then sort_key fst d else d)"

lemma set_sort_items [simp]: "set (sort_items srt d) = set d"
  by (simp add: sort_items_def)

function json_dumps :: "bool \<Rightarrow> bool \<Rightarrow> str \<Rightarrow> str \<Rightarrow> pyval \<Rightarrow> str" where
  "json_dumps ascii srt isep ksep PNone = ''null''"
| "json_dumps ascii srt isep ksep (PBool b) = (if b then ''true'' else ''false'')"
| "json_dumps ascii srt isep ksep (PInt i) = show_int i"
| "json_dumps ascii srt isep ksep (PFloat r) = r"
| "json_dumps ascii srt isep ksep (PStr s) = json_string ascii s"
| "json_dumps ascii srt isep ksep (PList xs) =
     ''['' @ join isep (map (json_dumps ascii srt isep ksep) xs) @ '']''"
| "json_dumps ascii srt isep ksep (PDict d) =
     ''{'' @ join isep (map (\<lambda>(k, v). json_string ascii k @ ksep @ json_dumps ascii srt isep ksep v) (sort_items srt d)) @ ''}''"
  by pat_completeness auto
termination
proof (relation "measure (\<lambda>(ascii, srt, isep, ksep, v). size v)", goal_cases)
  case 1
  then show ?case by simp
next
  case (2 ascii srt isep ksep xs z)
  then show ?case by (simp add: less_Suc_eq_le size_list_estimation')
next
  case (3 ascii srt isep ksep d z k v)
  then have "(k, v) \<in> set d" by simp
  then have "size v \<le> size_list (size_prod (\<lambda>x. 0) size) d"
    by (auto intro: size_list_estimation')
  then show ?case by simp
qed

text \<open>The forms the sources use: sorted and compact (with and without \<open>ensure_ascii\<close>), and the
  default one.\<close>

definition canonical_json :: "pyval \<Rightarrow> str" where
  "canonical_json = json_dumps True True '','' '':''"

definition canonical_json_raw :: "pyval \<Rightarrow> str" where
  "canonical_json_raw = json_dumps False True '','' '':''"

definition plain_json :: "pyval \<Rightarrow> str" where
  "plain_json = json_dumps True False '', '' '': ''"

section \<open>Conversions\<close>

text \<open>\<open>repr\<close> of a string and \<open>str\<close> of a value.\<close>

definition repr_char :: "char \<Rightarrow> char \<Rightarrow> str" where
  "repr_char quote c =
     (let n = (of_char c :: nat); bs = char_of (92::nat) in
      if n = 92 \<or> c = quote then [bs, c]
      else if n = 10 then [bs, CHR ''n'']
      else if n = 13 then [bs, CHR ''r'']
      else if n = 9 then [bs, CHR ''t'']
      else if n < 32 \<or> n = 127 \<or> (128 \<le> n \<and> n \<le> 160) \<or> n = 173
           then bs # ''x'' @ [hex_digit (n div 16), hex_digit (n mod 16)]
      else [c])"

definition repr_str :: "str \<Rightarrow> str" where
  "repr_str s =
     (let sq = char_of (39::nat); dq = char_of (34::nat);
          q = (if sq \<in> set s \<and> dq \<notin> set s then dq else sq)
      in q # concat (map (repr_char q) s) @ [q])"

fun py_repr :: "pyval \<Rightarrow> str" where
  "py_repr PNone = ''None''"
| "py_repr (PBool b) = (if b then ''True'' else ''False'')"
| "py_repr (PInt i) = show_int i"
| "py_repr (PFloat r) = r"
| "py_repr (PStr s) = repr_str s"
| "py_repr (PList xs) = ''['' @ join '', '' (map py_repr xs) @ '']''"
| "py_repr (PDict d) =
     ''{'' @ join '', '' (map (\<lambda>(k, v). repr_str k @ '': '' @ py_repr v) d) @ ''}''"

fun py_str :: "pyval \<Rightarrow> str" where
  "py_str (PStr s) = s"
| "py_str v = py_repr v"

text \<open>\<open>str(v or "")\<close>, the idiom the sources read request fields with.\<close>

definition str_or_empty :: "pyval \<Rightarrow> str" where
  "str_or_empty v = (if truthy v then py_str v else [])"

lemma str_or_empty_PStr [simp]: "str_or_empty (PStr s) = s"
  by (simp add: str_or_empty_def)

lemma str_or_empty_PNone [simp]: "str_or_empty PNone = []"
  by (simp add: str_or_empty_def)

text \<open>The space that \<open>int\<close> and \<open>float\<close> ignore around a number is less than what \<open>strip\<close> removes.\<close>

definition num_space :: "char \<Rightarrow> bool" where
  "num_space c \<longleftrightarrow> (of_char c :: nat) \<in> set [9, 10, 11, 12, 13, 32, 133, 160]"

definition num_strip :: "str \<Rightarrow> str" where
  "num_strip s = rev (dropWhile num_space (rev (dropWhile num_space s)))"

text \<open>\<open>int(text)\<close>: optional surrounding space and sign, then digits with single underscores
  between them; \<open>None\<close> is \<open>ValueError\<close>.\<close>

definition digit_val :: "char \<Rightarrow> int option" where
  "digit_val c = (let n = (of_char c :: nat) in if 48 \<le> n \<and> n \<le> 57 then Some (int (n - 48)) else None)"

fun parse_digits :: "int \<Rightarrow> bool \<Rightarrow> str \<Rightarrow> int option" where
  "parse_digits acc after_digit [] = (if after_digit then Some acc else None)"
| "parse_digits acc after_digit (c # cs) =
     (case digit_val c of
        Some d \<Rightarrow> parse_digits (10 * acc + d) True cs
      | None \<Rightarrow> if c = CHR ''_'' \<and> after_digit then parse_digits acc False cs else None)"

definition py_int :: "str \<Rightarrow> int option" where
  "py_int txt = (case num_strip txt of
       [] \<Rightarrow> None
     | c # cs \<Rightarrow> if c = CHR ''-'' then map_option uminus (parse_digits 0 False cs)
                 else if c = CHR ''+'' then parse_digits 0 False cs
                 else parse_digits 0 False (c # cs))"

text \<open>Printing an integer and reading it back.\<close>

lemma dec_digits_digits: "c \<in> set (dec_digits n) \<Longrightarrow> 48 \<le> (of_char c :: nat) \<and> of_char c \<le> (57 :: nat)"
proof (induction n rule: dec_digits.induct)
  case (1 n)
  show ?case
  proof (cases "n < 10")
    case True
    with 1(2) have "c = char_of (48 + n)" by (simp add: dec_digits.simps)
    with True show ?thesis by simp
  next
    case False
    with 1(2) have "c \<in> set (dec_digits (n div 10)) \<or> c = char_of (48 + n mod 10)"
      by (subst (asm) dec_digits.simps) auto
    moreover have "n mod 10 < 10" by simp
    ultimately show ?thesis using 1(1) False by auto
  qed
qed

lemma digit_val_digit: "k < 10 \<Longrightarrow> digit_val (char_of (48 + k)) = Some (int k)" for k :: nat
  by (simp add: digit_val_def Let_def)

lemma parse_dec_digits:
  "parse_digits acc b (dec_digits n @ ys) = parse_digits (acc * 10 ^ length (dec_digits n) + int n) True ys"
proof (induction n arbitrary: acc b ys rule: dec_digits.induct)
  case (1 n)
  show ?case
  proof (cases "n < 10")
    case True
    then show ?thesis by (simp add: dec_digits.simps digit_val_digit mult.commute)
  next
    case False
    then have eq: "dec_digits n = dec_digits (n div 10) @ [char_of (48 + n mod 10)]"
      by (subst dec_digits.simps) simp
    have split: "int n = 10 * int (n div 10) + int (n mod 10)" by presburger
    have "acc * 10 ^ length (dec_digits n) + int n
        = 10 * (acc * 10 ^ length (dec_digits (n div 10)) + int (n div 10)) + int (n mod 10)"
      by (subst split) (simp add: eq algebra_simps)
    then show ?thesis
      using 1 [OF False, of acc b "char_of (48 + n mod 10) # ys"]
      by (simp only: eq append_assoc append_Cons append_Nil parse_digits.simps) (simp add: digit_val_digit)
  qed
qed

lemma dec_digits_inj: "dec_digits m = dec_digits n \<Longrightarrow> m = n"
  using parse_dec_digits [of 0 False m "[]"] parse_dec_digits [of 0 False n "[]"] by simp

lemma show_int_inj: "show_int i = show_int j \<longleftrightarrow> i = j"
proof
  have minus: "show_int i \<noteq> show_int j" if "i < 0" "\<not> j < 0" for i j
  proof
    assume "show_int i = show_int j"
    with that have "CHR ''-'' \<in> set (dec_digits (nat j))" by (metis list.set_intros(1) show_int_def)
    from dec_digits_digits [OF this] show False by simp
  qed
  assume eq: "show_int i = show_int j"
  then consider "i < 0" "j < 0" | "\<not> i < 0" "\<not> j < 0" using minus by metis
  then show "i = j"
  proof cases
    case 1
    with eq show ?thesis by (auto simp: show_int_def dest: dec_digits_inj)
  next
    case 2
    with eq show ?thesis by (auto simp: show_int_def dest: dec_digits_inj)
  qed
qed simp

text \<open>A finite float in its \<open>repr\<close> form: the integer it truncates to, and whether it is equal to
  that integer. \<open>None\<close> for \<open>inf\<close> and \<open>nan\<close>.\<close>

definition unsigned_float :: "str \<Rightarrow> (int \<times> bool) option" where
  "unsigned_float r =
     (case split_first (CHR ''e'') r of
        (mant, ex) \<Rightarrow>
          (case split_first (CHR ''.'') mant of
             (ip, fp) \<Rightarrow>
               let frac = (case fp of None \<Rightarrow> [] | Some f \<Rightarrow> f) in
               (case ex of
                  None \<Rightarrow> (case parse_digits 0 False ip of
                             None \<Rightarrow> None
                           | Some i \<Rightarrow> Some (i, list_all (\<lambda>c. c = CHR ''0'') frac))
                | Some (s # es) \<Rightarrow>
                    if s = CHR ''+'' then
                      (case (parse_digits 0 False (ip @ frac), parse_digits 0 False es) of
                         (Some m, Some n) \<Rightarrow> Some (m * 10 ^ nat (n - int (length frac)), True)
                       | _ \<Rightarrow> None)
                    else Some (0, False)
                | Some [] \<Rightarrow> None)))"

definition float_trunc :: "str \<Rightarrow> (int \<times> bool) option" where
  "float_trunc r =
     (case r of
        c # cs \<Rightarrow> if c = CHR ''-'' then map_option (\<lambda>(i, e). (- i, e)) (unsigned_float cs)
                  else unsigned_float r
      | [] \<Rightarrow> None)"

text \<open>\<open>int(value)\<close>; \<open>None\<close> is \<open>TypeError\<close>, \<open>ValueError\<close> or \<open>OverflowError\<close>.\<close>

fun py_int_of :: "pyval \<Rightarrow> int option" where
  "py_int_of (PInt i) = Some i"
| "py_int_of (PBool b) = Some (if b then 1 else 0)"
| "py_int_of (PStr s) = py_int s"
| "py_int_of (PFloat r) = map_option fst (float_trunc r)"
| "py_int_of _ = None"

text \<open>\<open>value == n\<close> for an integer \<open>n\<close>: Python's booleans and integral floats compare equal to
  integers.\<close>

fun eq_int :: "pyval \<Rightarrow> int \<Rightarrow> bool" where
  "eq_int (PInt i) n = (i = n)"
| "eq_int (PBool b) n = ((if b then 1 else 0) = n)"
| "eq_int (PFloat r) n = (float_trunc r = Some (n, True))"
| "eq_int _ n = False"

text \<open>A number as an integer over a power of ten, to compare an integer or a float with another. The order of
  floats is the order of their shortest decimal forms.\<close>

definition decimal_of :: "str \<Rightarrow> (int \<times> nat) option" where
  "decimal_of r =
     (let neg = (case r of c # _ \<Rightarrow> c = CHR ''-'' | [] \<Rightarrow> False);
          body = (if neg then tl r else r) in
      case split_first (CHR ''e'') body of
        (mant, ex) \<Rightarrow>
          (case split_first (CHR ''.'') mant of
             (ip, fp) \<Rightarrow>
               let frac = (case fp of None \<Rightarrow> [] | Some f \<Rightarrow> f) in
               (case (parse_digits 0 False (ip @ frac), case ex of None \<Rightarrow> Some 0 | Some t \<Rightarrow> py_int t) of
                  (Some m, Some e) \<Rightarrow>
                    let s = (if neg then - m else m); k = int (length frac) - e in
                    Some (if k \<le> 0 then (s * 10 ^ nat (- k), 0) else (s, nat k))
                | _ \<Rightarrow> None)))"

fun number_of :: "pyval \<Rightarrow> (int \<times> nat) option" where
  "number_of (PInt i) = Some (i, 0)"
| "number_of (PBool b) = Some (if b then 1 else 0, 0)"
| "number_of (PFloat r) = decimal_of r"
| "number_of _ = None"

text \<open>\<open>a > b\<close>; \<open>None\<close> is the \<open>TypeError\<close> of values that do not compare.\<close>

definition num_gt :: "pyval \<Rightarrow> pyval \<Rightarrow> bool option" where
  "num_gt a b =
     (case (number_of a, number_of b) of
        (Some (m, k), Some (n, l)) \<Rightarrow> Some (m * 10 ^ l > n * 10 ^ k)
      | _ \<Rightarrow> None)"

section \<open>Exceptions\<close>

text \<open>What a Python call can raise, beside the exception classes the components define.\<close>

datatype py_exc = TypeError | ValueError | KeyError str | AttributeError | OSError str | RuntimeError str

text \<open>\<open>hmac.compare_digest\<close> on two \<open>str\<close>: it raises \<open>TypeError\<close> unless both are ASCII.\<close>

definition is_ascii :: "str \<Rightarrow> bool" where
  "is_ascii s \<longleftrightarrow> list_all (\<lambda>c. (of_char c :: nat) < 128) s"

definition compare_digest :: "str \<Rightarrow> str \<Rightarrow> py_exc + bool" where
  "compare_digest a b = (if is_ascii a \<and> is_ascii b then Inr (a = b) else Inl TypeError)"

lemma compare_digest_True [simp]: "compare_digest a b = Inr True \<longleftrightarrow> a = b \<and> is_ascii a"
  by (auto simp: compare_digest_def)

section \<open>Sequencing calls that may raise\<close>

text \<open>
  \<open>bindE m f\<close> runs \<open>m\<close> and goes on with its value; \<open>guardE b err k\<close> is \<open>if not b: raise err\<close>
  followed by \<open>k\<close>; \<open>raisingE\<close> is \<open>except ... as exc: raise wrap(exc) from exc\<close>; \<open>as_dict\<close> and
  \<open>getitem\<close> are \<open>isinstance(v, dict)\<close> and \<open>d[k]\<close>.
\<close>

definition bindE :: "'e + 'a \<Rightarrow> ('a \<Rightarrow> 'e + 'b) \<Rightarrow> 'e + 'b" where
  "bindE m f = (case m of Inl e \<Rightarrow> Inl e | Inr x \<Rightarrow> f x)"

definition guardE :: "bool \<Rightarrow> 'e \<Rightarrow> 'e + 'a \<Rightarrow> 'e + 'a" where
  "guardE b err k = (if b then k else Inl err)"

definition raisingE :: "('d \<Rightarrow> 'e) \<Rightarrow> 'd + 'a \<Rightarrow> 'e + 'a" where
  "raisingE wrap m = (case m of Inl e \<Rightarrow> Inl (wrap e) | Inr x \<Rightarrow> Inr x)"

definition optE :: "'e \<Rightarrow> 'a option \<Rightarrow> 'e + 'a" where
  "optE err m = (case m of None \<Rightarrow> Inl err | Some x \<Rightarrow> Inr x)"

definition as_dict :: "'e \<Rightarrow> pyval \<Rightarrow> 'e + dict" where
  "as_dict err v = (case v of PDict d \<Rightarrow> Inr d | _ \<Rightarrow> Inl err)"

definition getitem :: "dict \<Rightarrow> str \<Rightarrow> py_exc + pyval" where
  "getitem d k = optE (KeyError k) (map_of d k)"

fun mapE :: "('a \<Rightarrow> 'e + 'b) \<Rightarrow> 'a list \<Rightarrow> 'e + 'b list" where
  "mapE f [] = Inr []"
| "mapE f (x # xs) = bindE (f x) (\<lambda>y. bindE (mapE f xs) (\<lambda>ys. Inr (y # ys)))"

lemma bindE_simps [simp]:
  "bindE (Inl e) f = Inl e"
  "bindE (Inr x) f = f x"
  by (simp_all add: bindE_def)

lemma guardE_simps [simp]:
  "guardE True err k = k"
  "guardE False err k = Inl err"
  by (simp_all add: guardE_def)

lemma bindE_Inr: "bindE m f = Inr y \<longleftrightarrow> (\<exists>x. m = Inr x \<and> f x = Inr y)"
  by (cases m) simp_all

lemma bindE_Inl: "bindE m f = Inl e \<longleftrightarrow> m = Inl e \<or> (\<exists>x. m = Inr x \<and> f x = Inl e)"
  by (cases m) simp_all

lemma guardE_Inr: "guardE b err k = Inr y \<longleftrightarrow> b \<and> k = Inr y"
  by (simp add: guardE_def)

lemma guardE_Inl: "guardE b err k = Inl e \<longleftrightarrow> (\<not> b \<and> err = e) \<or> (b \<and> k = Inl e)"
  by (simp add: guardE_def)

lemma raisingE_Inr: "raisingE wrap m = Inr y \<longleftrightarrow> m = Inr y"
  by (cases m) (simp_all add: raisingE_def)

lemma raisingE_simps [simp]:
  "raisingE wrap (Inl e) = Inl (wrap e)"
  "raisingE wrap (Inr x) = Inr x"
  by (simp_all add: raisingE_def)

lemma optE_Inr: "optE err m = Inr y \<longleftrightarrow> m = Some y"
  by (cases m) (simp_all add: optE_def)

lemma optE_simps [simp]:
  "optE err None = Inl err"
  "optE err (Some x) = Inr x"
  by (simp_all add: optE_def)

lemma as_dict_Inr: "as_dict err v = Inr d \<longleftrightarrow> v = PDict d"
  by (cases v) (auto simp: as_dict_def)

lemma as_dict_PDict [simp]: "as_dict err (PDict d) = Inr d"
  by (simp add: as_dict_def)

lemma getitem_Inr: "getitem d k = Inr v \<longleftrightarrow> map_of d k = Some v"
  by (simp add: getitem_def optE_Inr)

lemma mapE_Inr: "mapE f xs = Inr ys \<Longrightarrow> list_all2 (\<lambda>x y. f x = Inr y) xs ys"
  by (induction xs arbitrary: ys) (auto simp: bindE_Inr)

lemmas call_Inr = bindE_Inr guardE_Inr raisingE_Inr optE_Inr as_dict_Inr getitem_Inr

section \<open>Lists and options\<close>

lemma map_of_table_all:
  assumes "map_of t k = Some v" and "list_all (\<lambda>(a, b). P a b) t"
  shows "P k v"
  using assms by (auto simp: list_all_iff dest: map_of_SomeD)

lemma last_snoc_filter: "filter P (xs @ [x]) = filter P xs @ (if P x then [x] else [])"
  by simp

end
