(* ===== verification/Pg_Store.thy ===== *)
theory Pg_Store
  imports Prelude "HOL-Library.Word"
begin

text \<open>
  Backend selection and the transaction wrapper, \<^verbatim>\<open>runtime/pg_store.py\<close>. The process environment
  is a map from names to values; the query-string codec of \<open>urllib\<close> and the SHA-256 digest are
  arguments. A transaction runs a body over the database state it protects and over the process's
  pool of connection slots.
\<close>

section \<open>Environment\<close>

type_synonym env = "str \<rightharpoonup> str"

datatype store_error = StoreUnavailable str

definition env_get :: "env \<Rightarrow> str \<Rightarrow> str" where
  "env_get e name = (case e name of None \<Rightarrow> [] | Some v \<Rightarrow> strip v)"

section \<open>The database URL and the backend\<close>

definition UNSUPPORTED_PSYCOPG_QUERY_PARAMS :: "str list" where
  "UNSUPPORTED_PSYCOPG_QUERY_PARAMS = [''connection_limit'', ''pgbouncer'']"

definition DATABASE_URL_ENV_ORDER :: "str list" where
  "DATABASE_URL_ENV_ORDER = [''GENESIS_JOB_DATABASE_URL'', ''DIRECT_URL'', ''DATABASE_URL'']"

text \<open>\<open>urlsplit\<close>/\<open>urlunsplit\<close> as far as the code uses them: the text before the query, the query
  and the fragment.\<close>

definition url_split :: "str \<Rightarrow> str \<times> str \<times> str" where
  "url_split raw =
     (case split_first (CHR ''#'') raw of
        (rest, frag) \<Rightarrow>
          (case split_first (CHR ''?'') rest of
             (base, query) \<Rightarrow>
               (base, (case query of None \<Rightarrow> [] | Some q \<Rightarrow> q), (case frag of None \<Rightarrow> [] | Some f \<Rightarrow> f))))"

definition url_unsplit :: "str \<Rightarrow> str \<Rightarrow> str \<Rightarrow> str" where
  "url_unsplit base query frag =
     base @ (if query = [] then [] else ''?'' @ query) @ (if frag = [] then [] else ''#'' @ frag)"

definition raw_database_url :: "env \<Rightarrow> str" where
  "raw_database_url e =
     (case find (\<lambda>name. env_get e name \<noteq> []) DATABASE_URL_ENV_ORDER of
        None \<Rightarrow> [] | Some name \<Rightarrow> env_get e name)"

definition database_url ::
  "(str \<Rightarrow> (str \<times> str) list) \<Rightarrow> ((str \<times> str) list \<Rightarrow> str) \<Rightarrow> env \<Rightarrow> str" where
  "database_url parse_qsl urlencode e =
     (let raw = raw_database_url e in
      if raw = [] then []
      else case url_split raw of
             (base, query, frag) \<Rightarrow>
               if query = [] then raw
               else url_unsplit base
                      (urlencode (filter (\<lambda>(key, _). lower key \<notin> set UNSUPPORTED_PSYCOPG_QUERY_PARAMS)
                                         (parse_qsl query)))
                      frag)"

datatype backend = Postgres | Sqlite

definition backend_of ::
  "(str \<Rightarrow> (str \<times> str) list) \<Rightarrow> ((str \<times> str) list \<Rightarrow> str) \<Rightarrow> env \<Rightarrow> store_error + backend" where
  "backend_of parse_qsl urlencode e =
     (let declared = lower (env_get e ''GENESIS_STORE_BACKEND'') in
      if declared = ''postgres'' then Inr Postgres
      else if declared = ''sqlite'' then Inr Sqlite
      else if declared \<noteq> [] \<and> declared \<noteq> ''auto''
           then Inl (StoreUnavailable (''GENESIS_STORE_BACKEND_invalid:'' @ declared))
      else Inr (if database_url parse_qsl urlencode e \<noteq> [] then Postgres else Sqlite))"

definition postgres_selected ::
  "(str \<Rightarrow> (str \<times> str) list) \<Rightarrow> ((str \<times> str) list \<Rightarrow> str) \<Rightarrow> env \<Rightarrow> store_error + bool" where
  "postgres_selected parse_qsl urlencode e =
     (case backend_of parse_qsl urlencode e of Inl err \<Rightarrow> Inl err | Inr b \<Rightarrow> Inr (b = Postgres))"

definition require_database_url ::
  "(str \<Rightarrow> (str \<times> str) list) \<Rightarrow> ((str \<times> str) list \<Rightarrow> str) \<Rightarrow> env \<Rightarrow> store_error + str" where
  "require_database_url parse_qsl urlencode e =
     (let url = database_url parse_qsl urlencode e in
      if url = [] then Inl (StoreUnavailable ''GENESIS_JOB_DATABASE_URL_not_configured'') else Inr url)"

section \<open>Limits\<close>

definition DEFAULT_STATEMENT_TIMEOUT_MS :: int where
  "DEFAULT_STATEMENT_TIMEOUT_MS = 15000"

definition DEFAULT_MAX_CONNECTIONS :: int where
  "DEFAULT_MAX_CONNECTIONS = 10"

definition statement_timeout_ms :: "env \<Rightarrow> int" where
  "statement_timeout_ms e =
     (let raw = env_get e ''GENESIS_DB_STATEMENT_TIMEOUT_MS'' in
      if raw = [] then DEFAULT_STATEMENT_TIMEOUT_MS
      else case py_int raw of Some i \<Rightarrow> max 0 i | None \<Rightarrow> DEFAULT_STATEMENT_TIMEOUT_MS)"

definition max_connections :: "env \<Rightarrow> int" where
  "max_connections e =
     (let raw = env_get e ''GENESIS_DB_MAX_CONNECTIONS'' in
      if raw = [] then DEFAULT_MAX_CONNECTIONS
      else case py_int raw of Some i \<Rightarrow> max 1 i | None \<Rightarrow> DEFAULT_MAX_CONNECTIONS)"

section \<open>Transactions\<close>

text \<open>
  The process-wide semaphore: how many slots it was built with and how many are free.
\<close>

record slots =
  sl_size :: int
  sl_free :: int

text \<open>\<open>_slots()\<close>: the semaphore is built on first use and rebuilt when the cap changed.\<close>

definition get_slots :: "env \<Rightarrow> slots option \<Rightarrow> slots" where
  "get_slots e cur =
     (let size = max_connections e in
      case cur of
        None \<Rightarrow> \<lparr>sl_size = size, sl_free = size\<rparr>
      | Some s \<Rightarrow> if sl_size s \<noteq> size then \<lparr>sl_size = size, sl_free = size\<rparr> else s)"

text \<open>
  What the body of the \<open>with\<close> block does to the database: it raises, or returns a value and the
  state its statements produced. Statements of a failed body are undone by \<open>rollback\<close>, unless the
  connection is in autocommit mode, where each one has taken effect already: a raising body
  therefore carries the state it had reached.
\<close>

datatype ('d, 'e, 'a) body_result = Raised 'e 'd | Returned 'a 'd

datatype 'e txn_error = Cap_Reached | Connect_Failed str | Body_Error 'e | Commit_Failed

text \<open>
  \<open>connected\<close> is what \<open>connect\<close> gives (an error text when it raises) and \<open>commit_ok\<close> whether
  \<open>conn.commit()\<close> succeeds. The result is the outcome, the database state and the pool.
\<close>

definition transaction ::
  "bool \<Rightarrow> str option \<Rightarrow> bool \<Rightarrow> ('d \<Rightarrow> ('d, 'e, 'a) body_result) \<Rightarrow> slots \<Rightarrow> 'd
     \<Rightarrow> ('e txn_error + 'a) \<times> 'd \<times> slots" where
  "transaction autocommit connect_error commit_ok body pool db =
     (if sl_free pool \<le> 0 then (Inl Cap_Reached, db, pool)
      else
        let acquired = pool\<lparr>sl_free := sl_free pool - 1\<rparr>;
            release = (\<lambda>p. p\<lparr>sl_free := sl_free p + 1\<rparr>) in
        case connect_error of
          Some err \<Rightarrow> (Inl (Connect_Failed err), db, release acquired)
        | None \<Rightarrow>
            (case body db of
               Raised err db' \<Rightarrow>
                 (Inl (Body_Error err), (if autocommit then db' else db), release acquired)
             | Returned a db' \<Rightarrow>
                 if autocommit then (Inr a, db', release acquired)
                 else if commit_ok then (Inr a, db', release acquired)
                 else (Inl Commit_Failed, db, release acquired)))"

section \<open>Advisory locks\<close>

definition be_bytes :: "str \<Rightarrow> nat" where
  "be_bytes = foldl (\<lambda>a c. 256 * a + of_char c) 0"

definition advisory_key :: "(str \<Rightarrow> str) \<Rightarrow> str \<Rightarrow> int" where
  "advisory_key sha256_digest name =
     (let digest = take 8 (sha256_digest name); value = int (be_bytes digest) in
      if value \<ge> 2 ^ 63 then value - 2 ^ 64 else value)"

section \<open>Boot probe\<close>

definition REQUIRED_TABLES :: "str list" where
  "REQUIRED_TABLES = [''genesis_ap2_nonces'', ''genesis_action_grants'', ''genesis_audit_log'',
     ''genesis_audit_anchors'', ''genesis_audit_chain_heads'']"

text \<open>\<open>tables\<close> is the catalogue the probe reads, or the text of the exception it met. The reason
  is kept structured: the source prints it.\<close>

datatype probe_reason = No_Reason | Missing_Tables "str list" | Probe_Exception str

definition store_is_usable :: "str + str list \<Rightarrow> bool \<times> probe_reason" where
  "store_is_usable tables =
     (case tables of
        Inl exc \<Rightarrow> (False, Probe_Exception exc)
      | Inr present \<Rightarrow>
          let missing = sort (filter (\<lambda>t. t \<notin> set present) REQUIRED_TABLES) in
          if missing \<noteq> [] then (False, Missing_Tables missing) else (True, No_Reason))"

section \<open>Lemmas\<close>

lemma be_bytes_bound_acc:
  "foldl (\<lambda>a c. 256 * a + of_char c) (a::nat) cs < (a + 1) * 256 ^ length cs"
proof (induction cs arbitrary: a)
  case Nil
  then show ?case by simp
next
  case (Cons c cs)
  obtain n :: nat where n: "of_char c = n" "n < 256" using nat_of_char_less_256 by blast
  then have "256 * a + of_char c + 1 \<le> (a + 1) * 256" by (simp add: n(1))
  then have "(256 * a + of_char c + 1) * 256 ^ length cs \<le> (a + 1) * 256 * 256 ^ length cs"
    by (rule mult_le_mono1)
  then have "foldl (\<lambda>a c. 256 * a + of_char c) (256 * a + of_char c) cs < (a + 1) * 256 * 256 ^ length cs"
    by (rule less_le_trans [OF Cons.IH])
  then show ?case by (simp only: foldl_Cons list.size power_Suc mult.assoc add.right_neutral add_Suc_right)
qed

lemma be_bytes_bound: "be_bytes cs < 256 ^ length cs"
  using be_bytes_bound_acc [of 0 cs] by (simp add: be_bytes_def)

lemma be_bytes_8: "be_bytes (take 8 s) < 2 ^ 64"
proof -
  have "be_bytes (take 8 s) < 256 ^ length (take 8 s)" by (rule be_bytes_bound)
  also have "\<dots> \<le> (256::nat) ^ 8" by (intro power_increasing) auto
  finally show ?thesis by simp
qed

lemma signed_take_bit_63:
  fixes v :: int
  assumes "0 \<le> v" and "v < 2 ^ 64"
  shows "signed_take_bit 63 v = (if 2 ^ 63 \<le> v then v - 2 ^ 64 else v)"
proof (cases "2 ^ 63 \<le> v")
  case True
  have "(v + 2 ^ 63) mod 2 ^ 64 = (v + 2 ^ 63 - 2 ^ 64) mod 2 ^ 64"
    by (simp only: minus_mod_self2)
  also have "\<dots> = v + 2 ^ 63 - 2 ^ 64"
    using True assms by (intro mod_pos_pos_trivial) auto
  finally show ?thesis
    using True by (simp add: signed_take_bit_eq_take_bit_shift take_bit_eq_mod)
next
  case False
  with assms have "(v + 2 ^ 63) mod 2 ^ 64 = v + 2 ^ 63"
    by (intro mod_pos_pos_trivial) auto
  with False show ?thesis
    by (simp add: signed_take_bit_eq_take_bit_shift take_bit_eq_mod)
qed

lemma missing_tables_empty:
  "sort (filter (\<lambda>t. t \<notin> set present) REQUIRED_TABLES) = [] \<longleftrightarrow> set REQUIRED_TABLES \<subseteq> set present"
  by (metis (no_types, lifting) filter_empty_conv set_empty set_sort subsetI subset_iff)

section \<open>Properties\<close>

text \<open>
  A transaction is all or nothing and leaks no connection slot: on every path (the cap
  reached, the connect failing, the body raising, the commit failing, success) the pool ends with
  as many free slots as it started with; outside autocommit the database is the body's result on
  success and is untouched on any error; and an exhausted pool runs no body.
\<close>

theorem transaction_atomic:
  "case transaction False connect_error commit_ok body pool db of
     (res, db', pool') \<Rightarrow>
       pool' = pool \<and>
       (case res of
          Inr a \<Rightarrow> 0 < sl_free pool \<and> body db = Returned a db'
        | Inl err \<Rightarrow> db' = db) \<and>
       (sl_free pool \<le> 0 \<longrightarrow> res = Inl Cap_Reached)"
  by (auto simp: transaction_def Let_def split: option.splits body_result.splits if_splits)

theorem transaction_atomic_witness:
  "transaction False None True (\<lambda>d. Returned (d + 1) (d + 2)) \<lparr>sl_size = 10, sl_free = 0\<rparr> (5::int)
     = (Inl (Cap_Reached :: unit txn_error), 5, \<lparr>sl_size = 10, sl_free = 0\<rparr>)"
  using transaction_atomic [where connect_error = None and commit_ok = True
      and body = "\<lambda>d. Returned (d + 1) (d + 2) :: (int, unit, int) body_result"
      and pool = "\<lparr>sl_size = 10, sl_free = 0\<rparr>" and db = 5]
  by (auto split: prod.splits sum.splits)

text \<open>
  The advisory-lock key is the first eight digest bytes read as a two's-complement 64-bit
  integer: it lies in the range Postgres accepts and equals the signed value of the 64-bit word
  the bytes denote.
\<close>

theorem advisory_key_signed:
  "- (2 ^ 63) \<le> advisory_key sha name \<and> advisory_key sha name < 2 ^ 63 \<and>
   advisory_key sha name = sint (word_of_nat (be_bytes (take 8 (sha name))) :: 64 word)"
proof -
  let ?v = "be_bytes (take 8 (sha name))"
  have b: "int ?v < 2 ^ 64" using be_bytes_8 [of "sha name"] by (metis of_nat_less_numeral_power_cancel_iff)
  have "sint (word_of_nat ?v :: 64 word) = signed_take_bit 63 (int ?v)"
    by (simp add: signed_of_nat)
  also have "\<dots> = (if 2 ^ 63 \<le> int ?v then int ?v - 2 ^ 64 else int ?v)"
    using b by (intro signed_take_bit_63) auto
  finally have "sint (word_of_nat ?v :: 64 word) = (if 2 ^ 63 \<le> int ?v then int ?v - 2 ^ 64 else int ?v)" .
  with b show ?thesis by (auto simp: advisory_key_def Let_def)
qed

end
