(* ===== verification/Single_Use.thy ===== *)
theory Single_Use
  imports Prelude
begin

text \<open>
  The contract two stores of the program share: the AP2 nonce store and the store of consumed
  action grants. Both sweep the rows that expired before the current second, then insert a row
  under a unique key, and refuse when the key is there. The locale states what a client may rely
  on and proves once that a key, spent, is refused until its expiry, whatever is spent in between
  and however often the store is unreachable.
\<close>

section \<open>Expiring tables\<close>

text \<open>\<open>DELETE ... WHERE expires_at < now\<close> followed by an \<open>INSERT\<close> under the key \<open>key\<close>, in one
  transaction. \<open>None\<close> is the unique violation, which rolls both statements back.\<close>

definition sweep_insert ::
  "('r \<Rightarrow> 'k) \<Rightarrow> ('r \<Rightarrow> int) \<Rightarrow> int \<Rightarrow> 'r \<Rightarrow> 'r list \<Rightarrow> 'r list option" where
  "sweep_insert key expires now r rows =
     (let kept = filter (\<lambda>x. \<not> expires x < now) rows in
      if key r \<in> key ` set kept then None else Some (kept @ [r]))"

lemma sweep_insert_records:
  "sweep_insert key expires now r rows = Some rows' \<Longrightarrow> r \<in> set rows'"
  by (auto simp: sweep_insert_def Let_def split: if_splits)

lemma sweep_insert_keeps:
  "sweep_insert key expires now r rows = Some rows' \<Longrightarrow> x \<in> set rows \<Longrightarrow> now \<le> expires x \<Longrightarrow>
     x \<in> set rows'"
  by (auto simp: sweep_insert_def Let_def split: if_splits)

lemma sweep_insert_refuses:
  "x \<in> set rows \<Longrightarrow> now \<le> expires x \<Longrightarrow> key r = key x \<Longrightarrow> sweep_insert key expires now r rows = None"
  by (auto simp: sweep_insert_def Let_def image_iff)

lemma sweep_insert_fresh:
  "key r \<notin> key ` set rows \<Longrightarrow> \<exists>rows'. sweep_insert key expires now r rows = Some rows'"
  by (auto simp: sweep_insert_def Let_def)

lemma sweep_insert_distinct:
  "sweep_insert key expires now r rows = Some rows' \<Longrightarrow> distinct (map key rows) \<Longrightarrow>
     distinct (map key rows')"
  by (auto simp: sweep_insert_def Let_def distinct_map_filter split: if_splits)

section \<open>The interface\<close>

text \<open>
  A client works on the store call after call; a call that raises leaves the store as it was.
\<close>

fun client_run :: "('s \<Rightarrow> 'a \<Rightarrow> 'e + 'p \<times> 's) \<Rightarrow> 's \<Rightarrow> 'a list \<Rightarrow> 's" where
  "client_run step s [] = s"
| "client_run step s (a # as) =
     client_run step (case step s a of Inl _ \<Rightarrow> s | Inr (_, s') \<Rightarrow> s') as"

text \<open>
  The interface: \<open>spend c s now k e\<close> spends the key \<open>k\<close> until the second \<open>e\<close> at the time \<open>now\<close>, in the
  environment \<open>c\<close> (which backend is selected, what is reachable); \<open>uses\<close> selects the environments
  that work on the part of the store \<open>holds\<close> speaks of.
\<close>

locale single_use =
  fixes spend :: "'c \<Rightarrow> 's \<Rightarrow> int \<Rightarrow> 'k \<Rightarrow> int \<Rightarrow> 'e + 's"
    and holds :: "'s \<Rightarrow> 'k \<Rightarrow> int \<Rightarrow> bool"
    and uses :: "'c \<Rightarrow> bool"
  assumes records: "uses c \<Longrightarrow> spend c s now k e = Inr s' \<Longrightarrow> holds s' k e"
    and keeps: "uses c \<Longrightarrow> spend c s now k' e' = Inr s' \<Longrightarrow> holds s k e \<Longrightarrow> now \<le> e \<Longrightarrow> holds s' k e"
    and refuses: "uses c \<Longrightarrow> holds s k e \<Longrightarrow> now \<le> e \<Longrightarrow> \<exists>err. spend c s now k e' = Inl err"
begin

text \<open>A client each of whose calls, when it succeeds, spends one key on a clock not past \<open>e\<close>.\<close>

lemma client_run_holds:
  assumes "holds s k e"
    and "\<And>s a p s'. a \<in> set as \<Longrightarrow> step s a = Inr (p, s') \<Longrightarrow>
           \<exists>c now k' e'. uses c \<and> now \<le> e \<and> spend c s now k' e' = Inr s'"
  shows "holds (client_run step s as) k e"
  using assms
proof (induction as arbitrary: s)
  case Nil
  then show ?case by simp
next
  case (Cons a as)
  have "holds (case step s a of Inl _ \<Rightarrow> s | Inr (_, s') \<Rightarrow> s') k e"
    using Cons.prems by (fastforce split: sum.split intro: keeps)
  then show ?case
    unfolding client_run.simps by (rule Cons.IH) (rule Cons.prems(2), simp_all)
qed

lemma spent_once:
  assumes "uses c" and "spend c s now k e = Inr s'"
    and "\<And>s a p s'. a \<in> set as \<Longrightarrow> step s a = Inr (p, s') \<Longrightarrow>
           \<exists>c now k' e'. uses c \<and> now \<le> e \<and> spend c s now k' e' = Inr s'"
    and "uses c2" and "t2 \<le> e"
  shows "\<exists>err. spend c2 (client_run step s' as) t2 k e2 = Inl err"
proof -
  from assms(1,2) have "holds s' k e" by (rule records)
  then have "holds (client_run step s' as) k e" using assms(3) by (rule client_run_holds)
  with assms(4,5) show ?thesis by (blast intro: refuses)
qed

end

end
