(* ===== verification/Request_Auth.thy ===== *)
theory Request_Auth
  imports Pg_Store Single_Use
begin

text \<open>
  Verified AP2 principals and continuation tokens, \<^verbatim>\<open>runtime/request_auth.py\<close>.

  Arguments that stand for code outside the repository: \<open>ed25519\<close> (the \<open>cryptography\<close> package's
  key decoding and signature check, \<open>False\<close> where it raises), \<open>fromiso\<close> (\<open>datetime.fromisoformat\<close>:
  whether the result carries a time zone, and its POSIX second), \<open>hmac256\<close> (HMAC-SHA-256 followed
  by unpadded URL-safe Base64), \<open>b64\<close>/\<open>unb64\<close> (unpadded URL-safe Base64) and \<open>loads\<close> (the JSON
  parser). The registry file is its parsed contents. The nonce store is the two tables the
  backends keep; the environment of a call says which backend is selected and what is reachable.
\<close>

section \<open>Data\<close>

definition AP2_VERSION :: int where
  [table_defs]: "AP2_VERSION = 1"

definition RETRIEVAL_ENVELOPE_AGENT :: str where
  "RETRIEVAL_ENVELOPE_AGENT = ''retrieval.query''"

definition MAX_CLOCK_SKEW_SECONDS :: int where
  [table_defs]: "MAX_CLOCK_SKEW_SECONDS = 300"

definition PRINCIPAL_TOKEN_TTL_SECONDS :: int where
  [table_defs]: "PRINCIPAL_TOKEN_TTL_SECONDS = 600"

definition PRINCIPAL_TOKEN_AUDIENCE :: str where
  "PRINCIPAL_TOKEN_AUDIENCE = ''genesis-gateway''"

datatype auth_exc =
    AuthenticationError str
  | Auth_Store store_error
  | Auth_Python py_exc

record principal =
  principal_id :: str
  tenant_id :: str
  client_id :: str
  scopes :: "str list"
  auth_method :: str
  expires_at :: int

definition has_scope :: "principal \<Rightarrow> str \<Rightarrow> bool" where
  "has_scope p scope \<longleftrightarrow> scope \<in> set (scopes p) \<or> ''*'' \<in> set (scopes p)"

definition nonce_char :: "char \<Rightarrow> bool" where
  "nonce_char c \<longleftrightarrow>
     (let n = (of_char c :: nat) in
      (65 \<le> n \<and> n \<le> 90) \<or> (97 \<le> n \<and> n \<le> 122) \<or> (48 \<le> n \<and> n \<le> 57) \<or> n = 95 \<or> n = 45)"

text \<open>\<open>_NONCE_RE.fullmatch\<close>.\<close>

definition nonce_matches :: "str \<Rightarrow> bool" where
  "nonce_matches s \<longleftrightarrow> list_all nonce_char s \<and> 16 \<le> length s \<and> length s \<le> 128"

section \<open>Registry and timestamps\<close>

definition load_registry :: "dict \<Rightarrow> auth_exc + pyval list" where
  "load_registry data =
     (case dget data ''clients'' of
        PList clients \<Rightarrow>
          if eq_int (dget data ''version'') 1 then Inr clients
          else Inl (AuthenticationError ''trusted_client_registry_invalid'')
      | _ \<Rightarrow> Inl (AuthenticationError ''trusted_client_registry_invalid''))"

definition parse_timestamp :: "(str \<Rightarrow> (bool \<times> int) option) \<Rightarrow> str \<Rightarrow> auth_exc + int" where
  "parse_timestamp fromiso value =
     (case fromiso (replace_char (CHR ''Z'') ''+00:00'' value) of
        None \<Rightarrow> Inl (AuthenticationError ''ap2_timestamp_invalid'')
      | Some (aware, posix) \<Rightarrow>
          if \<not> aware then Inl (AuthenticationError ''ap2_timestamp_invalid'') else Inr posix)"

section \<open>The nonce store\<close>

record nonce_row =
  nr_client :: str
  nr_nonce :: str
  nr_expires :: int

definition nr_key :: "nonce_row \<Rightarrow> str \<times> str" where
  "nr_key r = (nr_client r, nr_nonce r)"

record nonce_store =
  ns_postgres :: "nonce_row list"
  ns_sqlite :: "nonce_row list"

text \<open>What a call finds: the selected backend, whether the Postgres transaction can run, whether
  a SQLite path is configured, whether its directory can be made and the file written.\<close>

record store_env =
  se_explicit_path :: bool
  se_postgres :: "store_error + bool"
  se_pg_up :: bool
  se_path_configured :: bool
  se_dir_ok :: bool
  se_sqlite_up :: bool

definition use_postgres :: "store_env \<Rightarrow> store_error + bool" where
  "use_postgres c = (if se_explicit_path c then Inr False else se_postgres c)"

definition auth_db_path :: "store_env \<Rightarrow> auth_exc + unit" where
  "auth_db_path c =
     (if se_explicit_path c then Inr ()
      else if \<not> se_path_configured c then Inl (AuthenticationError ''GENESIS_AUTH_DB_PATH_not_configured'')
      else Inr ())"

text \<open>\<open>Inl\<close> is \<open>(False, reason)\<close>: every exception is caught and reported.\<close>

definition auth_db_is_usable :: "store_env \<Rightarrow> auth_exc + unit" where
  "auth_db_is_usable c =
     (case use_postgres c of
        Inl err \<Rightarrow> Inl (Auth_Store err)
      | Inr True \<Rightarrow> if se_pg_up c then Inr () else Inl (Auth_Python (OSError ''OperationalError''))
      | Inr False \<Rightarrow>
          (case auth_db_path c of
             Inl err \<Rightarrow> Inl err
           | Inr _ \<Rightarrow>
               if \<not> se_dir_ok c then Inl (Auth_Python (OSError ''mkdir''))
               else if \<not> se_sqlite_up c then Inl (Auth_Python (OSError ''sqlite3.OperationalError''))
               else Inr ()))"

definition consume_nonce_postgres ::
  "store_env \<Rightarrow> nonce_store \<Rightarrow> int \<Rightarrow> str \<Rightarrow> str \<Rightarrow> int \<Rightarrow> auth_exc + nonce_store" where
  "consume_nonce_postgres c st wall client nonce exp =
     (if \<not> se_pg_up c then Inl (AuthenticationError ''ap2_nonce_store_unavailable'')
      else case sweep_insert nr_key nr_expires wall
                  \<lparr>nr_client = client, nr_nonce = nonce, nr_expires = exp\<rparr> (ns_postgres st) of
             None \<Rightarrow> Inl (AuthenticationError ''ap2_replay_detected'')
           | Some rows \<Rightarrow> Inr (st\<lparr>ns_postgres := rows\<rparr>))"

definition consume_nonce ::
  "store_env \<Rightarrow> nonce_store \<Rightarrow> int \<Rightarrow> str \<Rightarrow> str \<Rightarrow> int \<Rightarrow> auth_exc + nonce_store" where
  "consume_nonce c st wall client nonce exp =
     (case use_postgres c of
        Inl err \<Rightarrow> Inl (Auth_Store err)
      | Inr True \<Rightarrow> consume_nonce_postgres c st wall client nonce exp
      | Inr False \<Rightarrow>
          (case auth_db_path c of
             Inl err \<Rightarrow> Inl err
           | Inr _ \<Rightarrow>
               if \<not> se_dir_ok c then Inl (AuthenticationError ''ap2_nonce_store_unavailable'')
               else if \<not> se_sqlite_up c then Inl (AuthenticationError ''ap2_nonce_store_unavailable'')
               else case sweep_insert nr_key nr_expires wall
                           \<lparr>nr_client = client, nr_nonce = nonce, nr_expires = exp\<rparr> (ns_sqlite st) of
                      None \<Rightarrow> Inl (AuthenticationError ''ap2_replay_detected'')
                    | Some rows \<Rightarrow> Inr (st\<lparr>ns_sqlite := rows\<rparr>)))"

section \<open>Envelope verification\<close>

text \<open>\<open>c.get("enabled") is True and hmac.compare_digest(str(c.get("pubkey_b64") or ""), pubkey)\<close>\<close>

definition client_matches :: "str \<Rightarrow> pyval \<Rightarrow> py_exc + bool" where
  "client_matches pubkey c =
     (case c of
        PDict d \<Rightarrow>
          if dget d ''enabled'' = PBool True
          then compare_digest (str_or_empty (dget d ''pubkey_b64'')) pubkey
          else Inr False
      | _ \<Rightarrow> Inl AttributeError)"

fun matching_clients :: "str \<Rightarrow> pyval list \<Rightarrow> py_exc + dict list" where
  "matching_clients pubkey [] = Inr []"
| "matching_clients pubkey (c # cs) =
     (case client_matches pubkey c of
        Inl e \<Rightarrow> Inl e
      | Inr b \<Rightarrow>
          (case matching_clients pubkey cs of
             Inl e \<Rightarrow> Inl e
           | Inr ds \<Rightarrow> Inr (if b then (case c of PDict d \<Rightarrow> d | _ \<Rightarrow> []) # ds else ds)))"

text \<open>Iterating a value with \<open>str(v) for v in value\<close>.\<close>

fun iter_strs :: "pyval \<Rightarrow> py_exc + str list" where
  "iter_strs (PList vs) = Inr (map py_str vs)"
| "iter_strs (PDict kvs) = Inr (map fst kvs)"
| "iter_strs (PStr s) = Inr (map (\<lambda>c. [c]) s)"
| "iter_strs _ = Inl TypeError"

definition capability_scopes :: "dict \<Rightarrow> py_exc + str list" where
  "capability_scopes d = iter_strs (dget_default d ''capabilities'' (PList []))"

definition signed_message :: "dict \<Rightarrow> str \<Rightarrow> str \<Rightarrow> str" where
  "signed_message payload nonce timestamp =
     canonical_json_raw (PDict [(''payload'', PDict payload), (''nonce'', PStr nonce), (''timestamp'', PStr timestamp)])"

definition verify_ap2_envelope ::
  "(str \<Rightarrow> str \<Rightarrow> str \<Rightarrow> bool) \<Rightarrow> (str \<Rightarrow> (bool \<times> int) option) \<Rightarrow> dict \<Rightarrow> store_env \<Rightarrow> nonce_store
     \<Rightarrow> int \<Rightarrow> int \<Rightarrow> dict \<Rightarrow> str option \<Rightarrow> str option \<Rightarrow> str \<Rightarrow> auth_exc + principal \<times> nonce_store" where
  "verify_ap2_envelope ed25519 fromiso registry c st current wall body header_version header_pubkey required_scope =
     guardE (eq_int (dget body ''version'') AP2_VERSION \<and>
             (case header_version of None \<Rightarrow> [] | Some h \<Rightarrow> h) = show_int AP2_VERSION)
       (AuthenticationError ''ap2_version_invalid'')
     (let nonce = str_or_empty (dget body ''nonce'');
          timestamp = str_or_empty (dget body ''timestamp'');
          pubkey_b64 = str_or_empty (dget body ''pubkey'');
          signature_b64 = str_or_empty (dget body ''signature'') in
      bindE (as_dict (AuthenticationError ''ap2_envelope_invalid'') (dget body ''payload'')) (\<lambda>payload.
      guardE (nonce_matches nonce) (AuthenticationError ''ap2_envelope_invalid'')
     (bindE (raisingE Auth_Python
               (compare_digest pubkey_b64 (case header_pubkey of None \<Rightarrow> [] | Some h \<Rightarrow> h))) (\<lambda>same.
      guardE same (AuthenticationError ''ap2_pubkey_header_mismatch'')
     (bindE (parse_timestamp fromiso timestamp) (\<lambda>stamped.
      guardE (\<bar>current - stamped\<bar> \<le> MAX_CLOCK_SKEW_SECONDS) (AuthenticationError ''ap2_envelope_expired'')
     (bindE (load_registry registry) (\<lambda>clients.
      bindE (raisingE Auth_Python (matching_clients pubkey_b64 clients)) (\<lambda>matches.
      guardE (length matches = 1) (AuthenticationError ''ap2_client_untrusted'')
     (let client = hd matches in
      bindE (raisingE Auth_Python (capability_scopes client)) (\<lambda>scs.
      guardE (required_scope \<in> set scs \<or> ''*'' \<in> set scs) (AuthenticationError ''ap2_scope_denied'')
     (guardE (ed25519 pubkey_b64 signature_b64 (signed_message payload nonce timestamp))
       (AuthenticationError ''ap2_signature_invalid'')
     (bindE (raisingE Auth_Python (getitem client ''client_id'')) (\<lambda>cidv.
      let cid = py_str cidv in
      bindE (consume_nonce c st wall cid nonce (stamped + MAX_CLOCK_SKEW_SECONDS)) (\<lambda>st'.
      Inr (\<lparr>principal_id = (let p = dget client ''principal_id'' in
             if truthy p then py_str p else ''client:'' @ cid),
           tenant_id = str_or_empty (dget client ''tenant_id''),
           client_id = cid,
           scopes = remdups scs,
           auth_method = ''ap2'',
           expires_at = stamped + MAX_CLOCK_SKEW_SECONDS\<rparr>, st'))))))))))))))))"

section \<open>Binding the signed payload\<close>

text \<open>\<open>_eq\<close> compares UTF-8 bytes, so it never raises.\<close>

definition eq_text :: "pyval \<Rightarrow> pyval \<Rightarrow> bool" where
  "eq_text left right \<longleftrightarrow> str_or_empty left = str_or_empty right"

definition assert_envelope_binds :: "dict \<Rightarrow> str \<Rightarrow> str \<Rightarrow> dict \<Rightarrow> auth_exc + unit" where
  "assert_envelope_binds body agent task params =
     (case dget body ''payload'' of
        PDict payload \<Rightarrow>
          if \<not> eq_text (dget payload ''agent'') (PStr agent) then Inl (AuthenticationError ''ap2_agent_mismatch'')
          else if \<not> eq_text (dget payload ''task'') (PStr task) then Inl (AuthenticationError ''ap2_task_mismatch'')
          else (case dget payload ''params'' of
                  PDict signed_params \<Rightarrow>
                    if canonical_json_raw (PDict signed_params) \<noteq> canonical_json_raw (PDict params)
                    then Inl (AuthenticationError ''ap2_params_mismatch'') else Inr ()
                | _ \<Rightarrow> Inl (AuthenticationError ''ap2_params_invalid''))
      | _ \<Rightarrow> Inl (AuthenticationError ''ap2_envelope_invalid''))"

section \<open>Continuation tokens\<close>

definition token_key :: "str option \<Rightarrow> env \<Rightarrow> auth_exc + str" where
  "token_key explicit e =
     (let value = (case explicit of Some k \<Rightarrow> k
                   | None \<Rightarrow> (case e ''GENESIS_PRINCIPAL_TOKEN_KEY'' of Some v \<Rightarrow> v | None \<Rightarrow> [])) in
      if length value < 32 then Inl (AuthenticationError ''GENESIS_PRINCIPAL_TOKEN_KEY_not_configured'')
      else Inr value)"

definition token_payload :: "principal \<Rightarrow> int \<Rightarrow> int \<Rightarrow> dict" where
  "token_payload p current ttl =
     [(''v'', PInt 1), (''aud'', PStr PRINCIPAL_TOKEN_AUDIENCE),
      (''sub'', PStr (principal_id p)), (''tenant'', PStr (tenant_id p)),
      (''client'', PStr (client_id p)), (''scopes'', PList (map PStr (sort (scopes p)))),
      (''iat'', PInt current),
      (''exp'', PInt (current + min (max 1 ttl) PRINCIPAL_TOKEN_TTL_SECONDS))]"

definition TOKEN_PREFIX :: str where
  "TOKEN_PREFIX = ''genesis-principal-v1''"

definition issue_principal_token ::
  "(str \<Rightarrow> str \<Rightarrow> str) \<Rightarrow> (str \<Rightarrow> str) \<Rightarrow> str option \<Rightarrow> env \<Rightarrow> int \<Rightarrow> int \<Rightarrow> principal \<Rightarrow> auth_exc + str" where
  "issue_principal_token hmac256 b64 key e current ttl p =
     (let encoded = b64 (canonical_json_raw (PDict (token_payload p current ttl))) in
      case token_key key e of
        Inl err \<Rightarrow> Inl err
      | Inr k \<Rightarrow> Inr (TOKEN_PREFIX @ ''.'' @ encoded @ ''.'' @ hmac256 k encoded))"

text \<open>\<open>token.split(".", 2)\<close> into exactly three parts.\<close>

definition split_token :: "str \<Rightarrow> (str \<times> str \<times> str) option" where
  "split_token token =
     (case split_first (CHR ''.'') token of
        (prefix, Some rest) \<Rightarrow>
          (case split_first (CHR ''.'') rest of
             (encoded, Some supplied) \<Rightarrow> Some (prefix, encoded, supplied)
           | _ \<Rightarrow> None)
      | _ \<Rightarrow> None)"

text \<open>The part under \<open>try\<close>: everything but an \<open>AuthenticationError\<close> becomes
  \<open>principal_token_invalid\<close>.\<close>

definition decode_token ::
  "(str \<Rightarrow> str \<Rightarrow> str) \<Rightarrow> (str \<Rightarrow> str option) \<Rightarrow> (str \<Rightarrow> pyval option) \<Rightarrow> str option \<Rightarrow> env \<Rightarrow> str
     \<Rightarrow> auth_exc + pyval" where
  "decode_token hmac256 unb64 loads key e token =
     (let invalid = AuthenticationError ''principal_token_invalid'' in
      bindE (optE invalid (split_token token)) (\<lambda>(prefix, encoded, supplied).
      guardE (prefix = TOKEN_PREFIX) invalid
     (bindE (token_key key e) (\<lambda>k.
      guardE (is_ascii encoded) invalid
     (bindE (raisingE (\<lambda>_. invalid) (compare_digest (hmac256 k encoded) supplied)) (\<lambda>same.
      guardE same (AuthenticationError ''principal_token_signature_invalid'')
     (optE invalid (Option.bind (unb64 encoded) loads))))))))"

text \<open>\<open>int(payload.get(k, 0))\<close>\<close>

definition int_field :: "dict \<Rightarrow> str \<Rightarrow> py_exc + int" where
  "int_field d k = (case py_int_of (dget_default d k (PInt 0)) of Some i \<Rightarrow> Inr i | None \<Rightarrow> Inl ValueError)"

text \<open>The window check \<open>current > int(exp) or current < int(iat) - 60\<close>, evaluated left to right.\<close>

definition outside_window :: "dict \<Rightarrow> int \<Rightarrow> py_exc + bool" where
  "outside_window d current =
     (case int_field d ''exp'' of
        Inl x \<Rightarrow> Inl x
      | Inr exp \<Rightarrow>
          if current > exp then Inr True
          else (case int_field d ''iat'' of Inl x \<Rightarrow> Inl x | Inr iat \<Rightarrow> Inr (current < iat - 60)))"

definition verify_principal_token ::
  "(str \<Rightarrow> str \<Rightarrow> str) \<Rightarrow> (str \<Rightarrow> str option) \<Rightarrow> (str \<Rightarrow> pyval option) \<Rightarrow> str option \<Rightarrow> env \<Rightarrow> int \<Rightarrow> str
     \<Rightarrow> auth_exc + principal" where
  "verify_principal_token hmac256 unb64 loads key e current token =
     bindE (decode_token hmac256 unb64 loads key e token) (\<lambda>v.
     bindE (as_dict (Auth_Python AttributeError) v) (\<lambda>payload.
     guardE (eq_int (dget payload ''v'') 1 \<and> dget payload ''aud'' = PStr PRINCIPAL_TOKEN_AUDIENCE)
       (AuthenticationError ''principal_token_expired'')
    (bindE (raisingE Auth_Python (outside_window payload current)) (\<lambda>outside.
     guardE (\<not> outside) (AuthenticationError ''principal_token_expired'')
    (guardE (truthy (dget payload ''sub'') \<and> truthy (dget payload ''tenant''))
       (AuthenticationError ''principal_token_identity_missing'')
    (bindE (raisingE Auth_Python (iter_strs (dget_default payload ''scopes'' (PList [])))) (\<lambda>scs.
     bindE (raisingE Auth_Python (getitem payload ''exp'')) (\<lambda>expv.
     bindE (optE (Auth_Python ValueError) (py_int_of expv)) (\<lambda>exp.
     Inr \<lparr>principal_id = py_str (dget payload ''sub''),
          tenant_id = py_str (dget payload ''tenant''),
          client_id = str_or_empty (dget payload ''client''),
          scopes = remdups scs,
          auth_method = ''principal_token'',
          expires_at = exp\<rparr>)))))))))"

section \<open>The legacy principal and ownership\<close>

definition legacy_gateway_principal :: "int \<Rightarrow> principal" where
  "legacy_gateway_principal now =
     \<lparr>principal_id = ''legacy:gateway'', tenant_id = ''legacy'', client_id = ''legacy-gateway'',
      scopes = [''agent.invoke'', ''agent.list'', ''agent.health'', ''job.read'', ''artifact.read''],
      auth_method = ''legacy_gateway'', expires_at = now + 60\<rparr>"

definition owns_resource :: "principal \<Rightarrow> dict option \<Rightarrow> py_exc + bool" where
  "owns_resource p row =
     (case row of
        None \<Rightarrow> Inr False
      | Some r \<Rightarrow>
          if r = [] then Inr False
          else
            let tenant = dget_default r ''tenantId'' (dget r ''tenant_id'');
                owner = dget_default r ''ownerPrincipalId'' (dget r ''owner_principal_id'') in
            if tenant = PNone \<and> owner = PNone then Inr (auth_method p = ''legacy_gateway'')
            else (case compare_digest (str_or_empty tenant) (tenant_id p) of
                    Inl x \<Rightarrow> Inl x
                  | Inr False \<Rightarrow> Inr False
                  | Inr True \<Rightarrow> compare_digest (str_or_empty owner) (principal_id p)))"

section \<open>The nonce store is a single-use store\<close>

definition nonce_held :: "bool \<Rightarrow> nonce_store \<Rightarrow> str \<times> str \<Rightarrow> int \<Rightarrow> bool" where
  "nonce_held pg st k e \<longleftrightarrow>
     \<lparr>nr_client = fst k, nr_nonce = snd k, nr_expires = e\<rparr>
       \<in> set (if pg then ns_postgres st else ns_sqlite st)"

definition spend_nonce ::
  "store_env \<Rightarrow> nonce_store \<Rightarrow> int \<Rightarrow> str \<times> str \<Rightarrow> int \<Rightarrow> auth_exc + nonce_store" where
  "spend_nonce c st wall k e = consume_nonce c st wall (fst k) (snd k) e"

lemma consume_nonce_Inr:
  assumes "consume_nonce c st wall client nonce e = Inr st'" and "use_postgres c = Inr pg"
  shows "sweep_insert nr_key nr_expires wall \<lparr>nr_client = client, nr_nonce = nonce, nr_expires = e\<rparr>
           (if pg then ns_postgres st else ns_sqlite st)
         = Some (if pg then ns_postgres st' else ns_sqlite st')"
  using assms
  by (auto simp: consume_nonce_def consume_nonce_postgres_def split: bool.splits if_splits sum.splits option.splits)

lemma consume_nonce_refused:
  assumes "sweep_insert nr_key nr_expires wall \<lparr>nr_client = client, nr_nonce = nonce, nr_expires = e\<rparr>
             (if pg then ns_postgres st else ns_sqlite st) = None"
    and "use_postgres c = Inr pg"
  shows "\<exists>err. consume_nonce c st wall client nonce e = Inl err"
  using assms
  by (auto simp: consume_nonce_def consume_nonce_postgres_def split: bool.splits if_splits sum.splits option.splits)

interpretation nonces: single_use spend_nonce "nonce_held pg" "\<lambda>c. use_postgres c = Inr pg" for pg
proof
  fix c s now k e s'
  assume "use_postgres c = Inr pg" and "spend_nonce c s now k e = Inr s'"
  then show "nonce_held pg s' k e"
    unfolding nonce_held_def spend_nonce_def by (blast dest: consume_nonce_Inr sweep_insert_records)
next
  fix c s now k' e' s' k e
  assume "use_postgres c = Inr pg" and "spend_nonce c s now k' e' = Inr s'"
    and "nonce_held pg s k e" and "now \<le> e"
  then show "nonce_held pg s' k e"
    unfolding nonce_held_def spend_nonce_def
    by (auto dest!: consume_nonce_Inr intro: sweep_insert_keeps)
next
  fix c s k e now e'
  assume "use_postgres c = Inr pg" and held: "nonce_held pg s k e" and "now \<le> e"
  moreover from held \<open>now \<le> e\<close>
  have "sweep_insert nr_key nr_expires now \<lparr>nr_client = fst k, nr_nonce = snd k, nr_expires = e'\<rparr>
          (if pg then ns_postgres s else ns_sqlite s) = None"
    by (auto simp: nonce_held_def nr_key_def intro!: sweep_insert_refuses)
  ultimately show "\<exists>err. spend_nonce c s now k e' = Inl err"
    unfolding spend_nonce_def by (blast intro: consume_nonce_refused)
qed

section \<open>Accepted envelopes\<close>

definition trusted_entry :: "str \<Rightarrow> pyval \<Rightarrow> bool" where
  "trusted_entry pubkey v \<longleftrightarrow>
     (case v of
        PDict d \<Rightarrow> dget d ''enabled'' = PBool True \<and> str_or_empty (dget d ''pubkey_b64'') = pubkey
      | _ \<Rightarrow> False)"

lemma client_matches_Inr:
  "client_matches pubkey v = Inr b \<Longrightarrow> b = trusted_entry pubkey v \<and> (\<exists>d. v = PDict d)"
  by (auto simp: client_matches_def trusted_entry_def compare_digest_def split: pyval.splits if_splits)

lemma matching_clients_Inr:
  "matching_clients pubkey cs = Inr ds \<Longrightarrow> filter (trusted_entry pubkey) cs = map PDict ds"
proof (induction cs arbitrary: ds)
  case Nil
  then show ?case by simp
next
  case (Cons c cs)
  then obtain b ds' where b: "client_matches pubkey c = Inr b"
    and ds': "matching_clients pubkey cs = Inr ds'"
    by (auto split: sum.splits)
  from client_matches_Inr [OF b] obtain d where "c = PDict d" "b = trusted_entry pubkey c" by blast
  with Cons b ds' show ?case by (auto split: if_splits)
qed

lemma parse_timestamp_unique:
  "parse_timestamp fromiso v = Inr a \<Longrightarrow> parse_timestamp fromiso v = Inr b \<Longrightarrow> a = b"
  by simp

text \<open>What an accepted envelope passed, in the order the guards stand in the source.\<close>

lemma verify_ap2_envelope_InrE:
  assumes "verify_ap2_envelope ed25519 fromiso registry c st current wall body hv hp scope = Inr (p, st')"
  obtains payload stamped clients client scs cidv where
    "dget body ''payload'' = PDict payload"
    "nonce_matches (str_or_empty (dget body ''nonce''))"
    "compare_digest (str_or_empty (dget body ''pubkey'')) (case hp of None \<Rightarrow> [] | Some h \<Rightarrow> h) = Inr True"
    "parse_timestamp fromiso (str_or_empty (dget body ''timestamp'')) = Inr stamped"
    "\<bar>current - stamped\<bar> \<le> MAX_CLOCK_SKEW_SECONDS"
    "load_registry registry = Inr clients"
    "matching_clients (str_or_empty (dget body ''pubkey'')) clients = Inr [client]"
    "capability_scopes client = Inr scs"
    "scope \<in> set scs \<or> ''*'' \<in> set scs"
    "ed25519 (str_or_empty (dget body ''pubkey'')) (str_or_empty (dget body ''signature''))
       (signed_message payload (str_or_empty (dget body ''nonce'')) (str_or_empty (dget body ''timestamp'')))"
    "map_of client ''client_id'' = Some cidv"
    "consume_nonce c st wall (py_str cidv) (str_or_empty (dget body ''nonce'')) (stamped + MAX_CLOCK_SKEW_SECONDS) = Inr st'"
    "p = \<lparr>principal_id = (let q = dget client ''principal_id'' in
            if truthy q then py_str q else ''client:'' @ py_str cidv),
          tenant_id = str_or_empty (dget client ''tenant_id''),
          client_id = py_str cidv, scopes = remdups scs, auth_method = ''ap2'',
          expires_at = stamped + MAX_CLOCK_SKEW_SECONDS\<rparr>"
  using assms
  by (auto simp: verify_ap2_envelope_def Let_def call_Inr length_Suc_conv simp del: compare_digest_True)

text \<open>
  C10. An accepted AP2 envelope carries a payload signed, with its nonce and timestamp, under a key that
  exactly one enabled client of the registry holds; that client has the required scope; the timestamp
  is within the allowed skew of the clock; and the nonce of that client is now recorded, until the
  envelope can no longer be accepted, in the backend the call used. The principal is that client's.
\<close>

theorem verify_ap2_envelope_sound:
  assumes "verify_ap2_envelope ed25519 fromiso registry c st current wall body hv hp scope = Inr (p, st')"
    and "use_postgres c = Inr pg"
  shows "\<exists>payload clients client stamped.
      dget body ''payload'' = PDict payload \<and>
      ed25519 (str_or_empty (dget body ''pubkey'')) (str_or_empty (dget body ''signature''))
        (signed_message payload (str_or_empty (dget body ''nonce'')) (str_or_empty (dget body ''timestamp''))) \<and>
      load_registry registry = Inr clients \<and>
      filter (trusted_entry (str_or_empty (dget body ''pubkey''))) clients = [PDict client] \<and>
      map_option py_str (map_of client ''client_id'') = Some (client_id p) \<and>
      has_scope p scope \<and>
      parse_timestamp fromiso (str_or_empty (dget body ''timestamp'')) = Inr stamped \<and>
      \<bar>current - stamped\<bar> \<le> 300 \<and> expires_at p = stamped + 300 \<and>
      nonce_held pg st' (client_id p, str_or_empty (dget body ''nonce'')) (expires_at p)"
  using assms(1)
proof (rule verify_ap2_envelope_InrE, goal_cases)
  case (1 payload stamped clients client scs cidv)
  from 1(12) have "spend_nonce c st wall (py_str cidv, str_or_empty (dget body ''nonce''))
      (stamped + MAX_CLOCK_SKEW_SECONDS) = Inr st'"
    by (simp add: spend_nonce_def)
  with assms(2) have "nonce_held pg st' (py_str cidv, str_or_empty (dget body ''nonce''))
      (stamped + MAX_CLOCK_SKEW_SECONDS)"
    by (rule nonces.records)
  moreover from 1(7) have "filter (trusted_entry (str_or_empty (dget body ''pubkey''))) clients = [PDict client]"
    by (simp add: matching_clients_Inr)
  ultimately show ?case
    using 1 by (auto simp: MAX_CLOCK_SKEW_SECONDS_def has_scope_def)
qed

text \<open>The verifier as the gateway runs it, call after call on one store.\<close>

record ap2_call =
  ac_env :: store_env
  ac_current :: int
  ac_wall :: int
  ac_body :: dict
  ac_version :: "str option"
  ac_pubkey :: "str option"
  ac_scope :: str

definition verify_call ::
  "(str \<Rightarrow> str \<Rightarrow> str \<Rightarrow> bool) \<Rightarrow> (str \<Rightarrow> (bool \<times> int) option) \<Rightarrow> dict \<Rightarrow> nonce_store \<Rightarrow> ap2_call
     \<Rightarrow> auth_exc + principal \<times> nonce_store" where
  "verify_call ed25519 fromiso registry st a =
     verify_ap2_envelope ed25519 fromiso registry (ac_env a) st (ac_current a) (ac_wall a) (ac_body a)
       (ac_version a) (ac_pubkey a) (ac_scope a)"

abbreviation verify_run ::
  "(str \<Rightarrow> str \<Rightarrow> str \<Rightarrow> bool) \<Rightarrow> (str \<Rightarrow> (bool \<times> int) option) \<Rightarrow> dict \<Rightarrow> nonce_store \<Rightarrow> ap2_call list
     \<Rightarrow> nonce_store" where
  "verify_run ed25519 fromiso registry \<equiv> client_run (verify_call ed25519 fromiso registry)"

lemma verify_call_spends:
  assumes "verify_call ed25519 fromiso registry st a = Inr (p, st')"
  obtains k e where "spend_nonce (ac_env a) st (ac_wall a) k e = Inr st'"
  using assms unfolding verify_call_def
proof (rule verify_ap2_envelope_InrE, goal_cases)
  case (1 payload stamped clients client scs cidv)
  then show ?case by (intro 1(1) [of "(py_str cidv, str_or_empty (dget (ac_body a) ''nonce''))"]) (simp add: spend_nonce_def)
qed

text \<open>
  C1. Replay protection. Once the gateway accepted an envelope, it refuses it in every later call on the same backend,
  whatever header, scope and store outages the later call has and whatever was verified in between, with one exception: the
  replay's expiry check reads a second not past the expiry of the accepted principal although a sweep of the nonces, by the
  replay itself or by a call in between, has read a later one. The two read the clock one after the other, so a replay can
  meet the exception in the envelope's last second; with clocks that never run backwards it can in no other.
\<close>

theorem ap2_replay_refused:
  assumes "verify_call ed25519 fromiso registry st a = Inr (p, st1)"
    and "use_postgres (ac_env a) = Inr pg" and "\<forall>b \<in> set (r # as). use_postgres (ac_env b) = Inr pg"
    and "ac_body r = ac_body a"
  shows "(\<exists>err. verify_call ed25519 fromiso registry (verify_run ed25519 fromiso registry st1 as) r = Inl err) \<or>
         (ac_current r \<le> expires_at p \<and> (\<exists>b \<in> set (r # as). expires_at p < ac_wall b))"
proof (rule disjCI, rule ccontr)
  assume swept: "\<not> (ac_current r \<le> expires_at p \<and> (\<exists>b \<in> set (r # as). expires_at p < ac_wall b))"
    and "\<not> (\<exists>err. verify_call ed25519 fromiso registry (verify_run ed25519 fromiso registry st1 as) r = Inl err)"
  then obtain q st2 where "verify_call ed25519 fromiso registry (verify_run ed25519 fromiso registry st1 as) r = Inr (q, st2)"
    by (metis sumE surj_pair)
  then show False
    unfolding verify_call_def [of ed25519 fromiso registry "verify_run ed25519 fromiso registry st1 as"]
  proof (rule verify_ap2_envelope_InrE, goal_cases)
    case r: (1 payload stamped clients client scs cidv)
    let ?k = "(py_str cidv, str_or_empty (dget (ac_body r) ''nonce''))"
    let ?e = "stamped + MAX_CLOCK_SKEW_SECONDS"
    from assms(1) have spent: "spend_nonce (ac_env a) st (ac_wall a) ?k ?e = Inr st1" and e: "expires_at p = ?e"
      unfolding verify_call_def
      by (rule verify_ap2_envelope_InrE, use r assms(4) in \<open>auto simp: spend_nonce_def\<close>)+
    have live: "\<forall>b \<in> set (r # as). ac_wall b \<le> ?e" using r(5) swept unfolding e by auto
    have "\<exists>err. spend_nonce (ac_env r) (verify_run ed25519 fromiso registry st1 as) (ac_wall r) ?k ?e = Inl err"
    proof (rule nonces.spent_once [OF assms(2) spent])
      fix s b q s'
      assume "b \<in> set as" and "verify_call ed25519 fromiso registry s b = Inr (q, s')"
      with assms(3) live show "\<exists>c now k' e'. use_postgres c = Inr pg \<and> now \<le> ?e \<and> spend_nonce c s now k' e' = Inr s'"
        by (metis verify_call_spends list.set_intros(2))
    qed (use live assms(3) in simp_all)
    with r(12) show ?case by (simp add: spend_nonce_def)
  qed
qed

section \<open>A concrete exchange\<close>

text \<open>One client, one envelope, both backends empty: the input the witnesses below evaluate on.\<close>

definition sample_env :: store_env where
  "sample_env = \<lparr>se_explicit_path = False, se_postgres = Inr True, se_pg_up = True,
     se_path_configured = False, se_dir_ok = False, se_sqlite_up = False\<rparr>"

definition sample_registry :: dict where
  "sample_registry =
     [(''version'', PInt 1),
      (''clients'', PList [PDict [(''client_id'', PStr ''cato''), (''enabled'', PBool True),
         (''pubkey_b64'', PStr ''PK''), (''principal_id'', PStr ''user:1''), (''tenant_id'', PStr ''e4l''),
         (''capabilities'', PList [PStr ''agent.invoke''])]])]"

definition sample_body :: dict where
  "sample_body =
     [(''version'', PInt 1), (''payload'', PDict [(''agent'', PStr ''a'')]), (''nonce'', PStr ''nonce-0123456789''),
      (''timestamp'', PStr ''T''), (''pubkey'', PStr ''PK''), (''signature'', PStr ''good'')]"

definition sample_ed25519 :: "str \<Rightarrow> str \<Rightarrow> str \<Rightarrow> bool" where
  "sample_ed25519 pk sig m \<longleftrightarrow> pk = ''PK'' \<and> sig = ''good''"

definition sample_fromiso :: "str \<Rightarrow> (bool \<times> int) option" where
  "sample_fromiso s = (if s = ''T'' then Some (True, 1000) else None)"

definition sample_store :: nonce_store where
  "sample_store = \<lparr>ns_postgres = [], ns_sqlite = []\<rparr>"

definition sample_call :: "int \<Rightarrow> int \<Rightarrow> ap2_call" where
  "sample_call current wall =
     \<lparr>ac_env = sample_env, ac_current = current, ac_wall = wall, ac_body = sample_body,
      ac_version = Some ''1'', ac_pubkey = Some ''PK'', ac_scope = ''agent.invoke''\<rparr>"

definition sample_principal :: principal where
  "sample_principal =
     \<lparr>principal_id = ''user:1'', tenant_id = ''e4l'', client_id = ''cato'', scopes = [''agent.invoke''],
      auth_method = ''ap2'', expires_at = 1300\<rparr>"

definition sample_row :: nonce_row where
  "sample_row = \<lparr>nr_client = ''cato'', nr_nonce = ''nonce-0123456789'', nr_expires = 1300\<rparr>"

lemma sample_accepted:
  "verify_call sample_ed25519 sample_fromiso sample_registry sample_store (sample_call 1010 1010)
     = Inr (sample_principal, \<lparr>ns_postgres = [sample_row], ns_sqlite = []\<rparr>)"
  by code_simp

lemma sample_use_postgres: "use_postgres sample_env = Inr True"
  by code_simp

theorem verify_ap2_envelope_sound_witness:
  "\<exists>payload clients client stamped.
      dget sample_body ''payload'' = PDict payload \<and>
      sample_ed25519 ''PK'' ''good'' (signed_message payload ''nonce-0123456789'' ''T'') \<and>
      load_registry sample_registry = Inr clients \<and>
      filter (trusted_entry ''PK'') clients = [PDict client] \<and>
      map_option py_str (map_of client ''client_id'') = Some ''cato'' \<and>
      has_scope sample_principal ''agent.invoke'' \<and>
      parse_timestamp sample_fromiso ''T'' = Inr stamped \<and>
      \<bar>1010 - stamped\<bar> \<le> 300 \<and> 1300 = stamped + 300 \<and>
      nonce_held True \<lparr>ns_postgres = [sample_row], ns_sqlite = []\<rparr> (''cato'', ''nonce-0123456789'') 1300"
  using verify_ap2_envelope_sound [of sample_ed25519 sample_fromiso sample_registry sample_env sample_store 1010 1010
      sample_body "Some ''1''" "Some ''PK''" "''agent.invoke''" sample_principal
      "\<lparr>ns_postgres = [sample_row], ns_sqlite = []\<rparr>" True] sample_accepted sample_use_postgres
  by (simp add: verify_call_def sample_call_def sample_body_def sample_principal_def dget_def)

theorem ap2_replay_refused_witness:
  "\<exists>err. verify_call sample_ed25519 sample_fromiso sample_registry
     (verify_run sample_ed25519 sample_fromiso sample_registry
        \<lparr>ns_postgres = [sample_row], ns_sqlite = []\<rparr> [sample_call 1020 1020])
     (sample_call 1300 1300) = Inl err"
  using ap2_replay_refused [OF sample_accepted, where pg = True and r = "sample_call 1300 1300" and as = "[sample_call 1020 1020]"]
  by (simp add: sample_call_def sample_use_postgres sample_principal_def)

text \<open>
  The exception is real: when the expiry check reads the last second of the envelope's life and the sweep the next one,
  the row is swept and the envelope accepted again.
\<close>

lemma ap2_replay_at_the_boundary:
  "verify_call sample_ed25519 sample_fromiso sample_registry
     \<lparr>ns_postgres = [sample_row], ns_sqlite = []\<rparr> (sample_call 1300 1301)
     = Inr (sample_principal, \<lparr>ns_postgres = [sample_row], ns_sqlite = []\<rparr>)"
  by code_simp

section \<open>The boot probe\<close>

lemma auth_db_usable_consume:
  assumes "auth_db_is_usable c = Inr ()"
  shows "consume_nonce c st wall client nonce e = Inl err \<Longrightarrow> err = AuthenticationError ''ap2_replay_detected''"
  using assms
  by (auto simp: auth_db_is_usable_def consume_nonce_def consume_nonce_postgres_def
      split: sum.splits bool.splits if_splits option.splits)

section \<open>Continuation tokens\<close>

lemma split_token_issue:
  "CHR ''.'' \<notin> set p \<Longrightarrow> CHR ''.'' \<notin> set enc \<Longrightarrow> split_token (p @ CHR ''.'' # enc @ CHR ''.'' # sig) = Some (p, enc, sig)"
  by (simp add: split_token_def split_first_append)

lemma split_token_Some:
  "split_token token = Some (p, enc, sig) \<Longrightarrow> token = p @ ''.'' @ enc @ ''.'' @ sig"
  by (auto simp: split_token_def split: prod.splits option.splits dest!: split_first_Some)

lemma token_prefix_no_dot: "CHR ''.'' \<notin> set TOKEN_PREFIX"
  by (simp add: TOKEN_PREFIX_def)

lemma decode_token_Inr:
  assumes "decode_token hmac256 unb64 loads key e token = Inr v"
  obtains k enc where "token_key key e = Inr k"
    and "token = TOKEN_PREFIX @ ''.'' @ enc @ ''.'' @ hmac256 k enc"
    and "Option.bind (unb64 enc) loads = Some v"
  using assms by (auto simp: decode_token_def Let_def call_Inr dest!: split_token_Some)

lemma outside_window_Inr:
  "outside_window d t = Inr False \<longleftrightarrow>
     (\<exists>exp iat. int_field d ''exp'' = Inr exp \<and> t \<le> exp \<and> int_field d ''iat'' = Inr iat \<and> iat - 60 \<le> t)"
  by (auto simp: outside_window_def split: sum.splits)

lemma int_field_present:
  "map_of d k = Some v \<Longrightarrow> int_field d k = Inr i \<longleftrightarrow> py_int_of v = Some i"
  by (auto simp: int_field_def dget_default_def split: option.splits)

text \<open>
  A continuation token is accepted only when it was made with the server's key: its last part is the
  MAC of its middle part under a configured key of at least 32 characters. The principal it yields has
  an identity and a tenant, and the clock is not past the expiry it carries.
\<close>

theorem principal_token_authentic:
  assumes "verify_principal_token hmac256 unb64 loads key e t token = Inr p"
  shows "\<exists>k enc. token_key key e = Inr k \<and> 32 \<le> length k \<and>
     token = TOKEN_PREFIX @ ''.'' @ enc @ ''.'' @ hmac256 k enc \<and>
     t \<le> expires_at p \<and> auth_method p = ''principal_token''"
proof -
  from assms obtain v payload expv where dec: "decode_token hmac256 unb64 loads key e token = Inr v"
    and pl: "map_of payload ''exp'' = Some expv" "py_int_of expv = Some (expires_at p)"
    and w: "outside_window payload t = Inr False" and m: "auth_method p = ''principal_token''"
    by (auto simp: verify_principal_token_def call_Inr)
  from w pl have "t \<le> expires_at p"
    by (auto simp: outside_window_Inr int_field_present)
  moreover obtain k enc where k: "token_key key e = Inr k"
    and "token = TOKEN_PREFIX @ ''.'' @ enc @ ''.'' @ hmac256 k enc"
    using dec by (rule decode_token_Inr)
  moreover from k have "32 \<le> length k" by (auto simp: token_key_def Let_def split: if_splits)
  ultimately show ?thesis using m by blast
qed

lemma token_payload_sorted:
  "sort_key fst (token_payload p t ttl) =
     [(''aud'', PStr PRINCIPAL_TOKEN_AUDIENCE), (''client'', PStr (client_id p)),
      (''exp'', PInt (t + min (max 1 ttl) PRINCIPAL_TOKEN_TTL_SECONDS)), (''iat'', PInt t),
      (''scopes'', PList (map PStr (sort (scopes p)))), (''sub'', PStr (principal_id p)),
      (''tenant'', PStr (tenant_id p)), (''v'', PInt 1)]"
  by (simp add: token_payload_def)

lemma map_py_str_PStr [simp]: "map (py_str \<circ> PStr) xs = xs"
  by (induction xs) auto

text \<open>
  Round trip of the continuation token. A token issued at \<open>now\<close> for a principal with an identity and
  a tenant is accepted from one minute before until its expiry, at most ten minutes later, and yields
  the same identity, tenant, client and scopes. Assumed of the codecs outside the program: unpadded
  URL-safe Base64 is ASCII without a dot and decodes to what was encoded, and the JSON parser reads the
  canonical text of the payload back, with its keys in the order printed.
\<close>

theorem principal_token_roundtrip:
  assumes key: "token_key key e = Inr k"
    and alphabet: "\<And>s. CHR ''.'' \<notin> set (b64 s)" "\<And>s. is_ascii (b64 s)" "\<And>k s. is_ascii (hmac256 k s)"
    and decode: "\<And>s. unb64 (b64 s) = Some s"
    and parse: "loads (canonical_json_raw (PDict (token_payload p now ttl)))
                  = Some (PDict (sort_key fst (token_payload p now ttl)))"
    and ident: "principal_id p \<noteq> []" "tenant_id p \<noteq> []"
    and issued: "issue_principal_token hmac256 b64 key e now ttl p = Inr token"
    and window: "now - 60 \<le> t" "t \<le> now + min (max 1 ttl) 600"
  shows "verify_principal_token hmac256 unb64 loads key e t token =
     Inr (p\<lparr>scopes := remdups (sort (scopes p)), auth_method := ''principal_token'',
           expires_at := now + min (max 1 ttl) 600\<rparr>)"
proof -
  let ?d = "sort_key fst (token_payload p now ttl)"
  from key issued have "token = TOKEN_PREFIX @ ''.'' @ b64 (canonical_json_raw (PDict (token_payload p now ttl)))
      @ ''.'' @ hmac256 k (b64 (canonical_json_raw (PDict (token_payload p now ttl))))"
    by (simp add: issue_principal_token_def Let_def)
  then have dec: "decode_token hmac256 unb64 loads key e token = Inr (PDict ?d)"
    using alphabet by (simp add: decode_token_def Let_def split_token_issue token_prefix_no_dot key
        compare_digest_def decode parse)
  have "outside_window ?d t = Inr False"
    using window by (auto simp: outside_window_Inr int_field_present token_payload_sorted PRINCIPAL_TOKEN_TTL_SECONDS_def)
  then show ?thesis
    using ident by (simp add: verify_principal_token_def dec token_payload_sorted dget_def dget_default_def getitem_def
        PRINCIPAL_TOKEN_TTL_SECONDS_def)
qed

text \<open>A codec of the kind the round trip asks for: eight binary digits per character.\<close>

definition bit_char :: "bool \<Rightarrow> char" where
  "bit_char b = (if b then CHR ''1'' else CHR ''0'')"

definition bits_of_char :: "char \<Rightarrow> str" where
  "bits_of_char c = (case c of Char a b c d e f g h \<Rightarrow> map bit_char [a, b, c, d, e, f, g, h])"

definition sample_b64 :: "str \<Rightarrow> str" where
  "sample_b64 s = concat (map bits_of_char s)"

fun sample_unb64 :: "str \<Rightarrow> str option" where
  "sample_unb64 [] = Some []"
| "sample_unb64 (a # b # c # d # e # f # g # h # s) =
     map_option (\<lambda>t. Char (a = CHR ''1'') (b = CHR ''1'') (c = CHR ''1'') (d = CHR ''1'')
                         (e = CHR ''1'') (f = CHR ''1'') (g = CHR ''1'') (h = CHR ''1'') # t) (sample_unb64 s)"
| "sample_unb64 _ = None"

lemma bit_char_one [simp]: "bit_char b = CHR ''1'' \<longleftrightarrow> b"
  by (simp add: bit_char_def)

lemma bits_of_char_set: "set (bits_of_char c) \<subseteq> {CHR ''0'', CHR ''1''}"
  by (cases c) (simp add: bits_of_char_def bit_char_def)

lemma sample_b64_set: "set (sample_b64 s) \<subseteq> {CHR ''0'', CHR ''1''}"
  using bits_of_char_set by (fastforce simp: sample_b64_def)

lemma sample_unb64_bits: "sample_unb64 (bits_of_char c @ s) = map_option (Cons c) (sample_unb64 s)"
  by (cases c) (simp add: bits_of_char_def)

lemma sample_unb64_b64: "sample_unb64 (sample_b64 s) = Some s"
  by (induction s) (simp_all add: sample_b64_def sample_unb64_bits)

lemma sample_b64_ascii: "is_ascii (sample_b64 s)" "CHR ''.'' \<notin> set (sample_b64 s)"
  using sample_b64_set [of s] by (auto simp: is_ascii_def list_all_iff)

definition sample_mac :: "str \<Rightarrow> str \<Rightarrow> str" where
  "sample_mac k s = sample_b64 k"

definition sample_key :: str where
  "sample_key = ''0123456789abcdef0123456789abcdef''"

definition sample_loads :: "str \<Rightarrow> pyval option" where
  "sample_loads s =
     (if s = canonical_json_raw (PDict (token_payload sample_principal 1000 900))
      then Some (PDict (sort_key fst (token_payload sample_principal 1000 900))) else None)"

definition sample_token :: str where
  "sample_token = TOKEN_PREFIX @ ''.'' @ sample_b64 (canonical_json_raw (PDict (token_payload sample_principal 1000 900)))
     @ ''.'' @ sample_b64 sample_key"

lemma sample_token_key: "token_key (Some sample_key) Map.empty = Inr sample_key"
  by code_simp

lemma sample_issued:
  "issue_principal_token sample_mac sample_b64 (Some sample_key) Map.empty 1000 900 sample_principal = Inr sample_token"
  by (simp add: issue_principal_token_def sample_token_key sample_token_def sample_mac_def Let_def)

theorem principal_token_roundtrip_witness:
  "verify_principal_token sample_mac sample_unb64 sample_loads (Some sample_key) Map.empty 1600 sample_token
     = Inr (sample_principal\<lparr>auth_method := ''principal_token'', expires_at := 1600\<rparr>)"
  using principal_token_roundtrip [OF sample_token_key sample_b64_ascii(2) sample_b64_ascii(1) _ sample_unb64_b64 _ _ _
      sample_issued, of sample_loads 1600] sample_b64_ascii(1)
  by (simp add: sample_mac_def sample_loads_def sample_principal_def)

definition sample_claims :: "str \<Rightarrow> pyval option" where
  "sample_claims s = Some (PDict [(''v'', PInt 1), (''aud'', PStr ''genesis-gateway''), (''sub'', PStr ''user:1''),
     (''tenant'', PStr ''e4l''), (''iat'', PInt 1000), (''exp'', PInt 1600)])"

lemma sample_token_accepted:
  "verify_principal_token (\<lambda>k s. ''M'') Some sample_claims (Some sample_key) Map.empty 1001 ''genesis-principal-v1.X.M''
     = Inr \<lparr>principal_id = ''user:1'', tenant_id = ''e4l'', client_id = [], scopes = [],
            auth_method = ''principal_token'', expires_at = 1600\<rparr>"
  by code_simp

theorem principal_token_authentic_witness:
  "\<exists>k enc. token_key (Some sample_key) Map.empty = Inr k \<and> 32 \<le> length k \<and>
     ''genesis-principal-v1.X.M'' = TOKEN_PREFIX @ ''.'' @ enc @ ''.M'' \<and> (1001 :: int) \<le> 1600"
  using principal_token_authentic [OF sample_token_accepted] by auto

section \<open>Ownership and binding\<close>

text \<open>
  Tenant isolation. Two principals that both own a row are the same identity of the same tenant, or
  the row has neither tenant nor owner and both came in over the legacy gateway key.
\<close>

theorem owns_resource_exclusive:
  assumes "owns_resource p row = Inr True" and "owns_resource q row = Inr True"
  shows "(tenant_id p = tenant_id q \<and> principal_id p = principal_id q) \<or>
     (auth_method p = ''legacy_gateway'' \<and> auth_method q = ''legacy_gateway'')"
  using assms
  by (auto simp: owns_resource_def Let_def split: option.splits if_splits sum.splits bool.splits)

theorem owns_resource_exclusive_witness:
  "(tenant_id sample_principal = ''e4l'' \<and> principal_id sample_principal = ''user:1'')
   \<or> auth_method sample_principal = ''legacy_gateway''"
proof -
  let ?row = "Some [(''tenantId'', PStr ''e4l''), (''ownerPrincipalId'', PStr ''user:1'')]"
  have own: "owns_resource sample_principal ?row = Inr True" by code_simp
  then have "owns_resource (sample_principal\<lparr>auth_method := ''principal_token''\<rparr>) ?row = Inr True" by code_simp
  from owns_resource_exclusive [OF own this] show ?thesis by (auto simp: sample_principal_def)
qed

text \<open>
  One signature, one request: the payload of an envelope binds at most one agent, one task and, up to
  the canonical text, one set of parameters.
\<close>

theorem envelope_binds_one_request:
  assumes "assert_envelope_binds body agent task params = Inr ()"
    and "assert_envelope_binds body agent' task' params' = Inr ()"
  shows "agent = agent' \<and> task = task' \<and> canonical_json_raw (PDict params) = canonical_json_raw (PDict params')"
  using assms
  by (auto simp: assert_envelope_binds_def eq_text_def split: pyval.splits if_splits)

definition sample_bound :: dict where
  "sample_bound = [(''payload'', PDict [(''agent'', PStr ''a''), (''task'', PStr ''t''),
     (''params'', PDict [(''y'', PInt 2), (''x'', PInt 1)])])]"

theorem envelope_binds_one_request_witness:
  "canonical_json_raw (PDict [(''x'', PInt 1), (''y'', PInt 2)]) = canonical_json_raw (PDict [(''y'', PInt 2), (''x'', PInt 1)])"
proof -
  have a: "assert_envelope_binds sample_bound ''a'' ''t'' [(''x'', PInt 1), (''y'', PInt 2)] = Inr ()" by code_simp
  have b: "assert_envelope_binds sample_bound ''a'' ''t'' [(''y'', PInt 2), (''x'', PInt 1)] = Inr ()" by code_simp
  from envelope_binds_one_request [OF a b] show ?thesis by simp
qed

end
