(* ===== verification/Action_Grants.thy ===== *)
theory Action_Grants
  imports Request_Auth
begin

text \<open>
  Server-issued, payload-bound, expiring, single-use action grants, \<^verbatim>\<open>runtime/action_grants.py\<close>.

  \<open>sha256\<close> (the hex digest of the UTF-8 text), \<open>hmac256\<close>, \<open>b64\<close>/\<open>unb64\<close> and \<open>loads\<close> stand for the
  libraries, as in \<^verbatim>\<open>runtime/request_auth.py\<close>; \<open>jti\<close> is the fresh \<open>uuid4().hex\<close>. The spent grants are
  a second instance of the single-use contract.
\<close>

section \<open>Tokens\<close>

datatype grant_exc =
    GrantError str
  | Grant_Store store_error
  | Grant_Python py_exc

definition grant_key :: "str option \<Rightarrow> env \<Rightarrow> grant_exc + str" where
  "grant_key explicit e =
     (let value = (case explicit of Some k \<Rightarrow> k
                   | None \<Rightarrow> (case e ''GENESIS_ACTION_GRANT_KEY'' of Some v \<Rightarrow> v | None \<Rightarrow> [])) in
      guardE (32 \<le> length value) (GrantError ''GENESIS_ACTION_GRANT_KEY_not_configured'') (Inr value))"

definition grant_digest :: "(str \<Rightarrow> str) \<Rightarrow> str \<Rightarrow> dict \<Rightarrow> str" where
  "grant_digest sha256 tool args =
     sha256 (canonical_json (PDict [(''tool'', PStr tool), (''args'', PDict args)]))"

definition grant_payload ::
  "(str \<Rightarrow> str) \<Rightarrow> str \<Rightarrow> int \<Rightarrow> int \<Rightarrow> str \<Rightarrow> str \<Rightarrow> str \<Rightarrow> dict \<Rightarrow> str \<Rightarrow> dict" where
  "grant_payload sha256 jti current ttl who tenant tool args authorization =
     [(''v'', PInt 1), (''aud'', PStr ''genesis-tool-dispatch''), (''jti'', PStr jti),
      (''authorization_id'', PStr authorization), (''sub'', PStr who), (''tenant'', PStr tenant),
      (''tool'', PStr tool), (''args_digest'', PStr (grant_digest sha256 tool args)),
      (''iat'', PInt current), (''exp'', PInt (current + min (max 1 ttl) 300))]"

definition GRANT_PREFIX :: str where
  "GRANT_PREFIX = ''genesis-action-v1''"

definition issue_action_grant ::
  "(str \<Rightarrow> str) \<Rightarrow> (str \<Rightarrow> str \<Rightarrow> str) \<Rightarrow> (str \<Rightarrow> str) \<Rightarrow> str option \<Rightarrow> env \<Rightarrow> str \<Rightarrow> int \<Rightarrow> int
     \<Rightarrow> str \<Rightarrow> str \<Rightarrow> str \<Rightarrow> dict \<Rightarrow> str \<Rightarrow> grant_exc + str" where
  "issue_action_grant sha256 hmac256 b64 key e jti current ttl who tenant tool args authorization =
     (let encoded = b64 (canonical_json (PDict
            (grant_payload sha256 jti current ttl who tenant tool args authorization))) in
      bindE (grant_key key e) (\<lambda>k.
      Inr (GRANT_PREFIX @ ''.'' @ encoded @ ''.'' @ hmac256 k encoded)))"

section \<open>The store of spent grants\<close>

record grant_row =
  gr_jti :: str
  gr_consumed_at :: int
  gr_expires_at :: int

record pg_grant_row = grant_row +
  gr_principal :: str
  gr_tenant :: str
  gr_tool :: str

record grant_store =
  gs_postgres :: "pg_grant_row list"
  gs_sqlite :: "grant_row list"

text \<open>
  \<open>str(Path(""))\<close> is \<open>"."\<close>, so the guard on an unconfigured path never fires: SQLite is then asked
  to open the working directory, which fails and is reported as an unavailable store. The \<open>mkdir\<close>
  stands outside the \<open>try\<close>.
\<close>

definition spend_jti ::
  "store_env \<Rightarrow> grant_store \<Rightarrow> str \<Rightarrow> int \<Rightarrow> int \<Rightarrow> str \<Rightarrow> str \<Rightarrow> str \<Rightarrow> grant_exc + grant_store" where
  "spend_jti c st jti consumed exp who tenant tool =
     bindE (raisingE Grant_Store (use_postgres c)) (\<lambda>pg.
     if pg then
       guardE (se_pg_up c) (GrantError ''grant_store_unavailable'')
      (bindE (optE (GrantError ''grant_already_consumed'')
                (sweep_insert gr_jti gr_expires_at consumed
                   \<lparr>gr_jti = jti, gr_consumed_at = consumed, gr_expires_at = exp,
                    gr_principal = who, gr_tenant = tenant, gr_tool = tool\<rparr> (gs_postgres st))) (\<lambda>rows.
       Inr (st\<lparr>gs_postgres := rows\<rparr>)))
     else
       guardE ((\<not> se_explicit_path c \<and> \<not> se_path_configured c) \<or> se_dir_ok c) (Grant_Python (OSError ''mkdir''))
      (guardE ((se_explicit_path c \<or> se_path_configured c) \<and> se_sqlite_up c) (GrantError ''grant_store_unavailable'')
      (bindE (optE (GrantError ''grant_already_consumed'')
                (sweep_insert gr_jti gr_expires_at consumed
                   \<lparr>gr_jti = jti, gr_consumed_at = consumed, gr_expires_at = exp\<rparr> (gs_sqlite st))) (\<lambda>rows.
       Inr (st\<lparr>gs_sqlite := rows\<rparr>)))))"

section \<open>Consuming a grant\<close>

definition decode_grant ::
  "(str \<Rightarrow> str \<Rightarrow> str) \<Rightarrow> (str \<Rightarrow> str option) \<Rightarrow> (str \<Rightarrow> pyval option) \<Rightarrow> str option \<Rightarrow> env \<Rightarrow> str
     \<Rightarrow> grant_exc + pyval" where
  "decode_grant hmac256 unb64 loads key e token =
     (let invalid = GrantError ''grant_invalid'' in
      bindE (optE invalid (split_token token)) (\<lambda>(prefix, encoded, supplied).
      guardE (prefix = GRANT_PREFIX) invalid
     (bindE (grant_key key e) (\<lambda>k.
      bindE (raisingE (\<lambda>_. invalid) (compare_digest (hmac256 k encoded) supplied)) (\<lambda>same.
      guardE same (GrantError ''grant_signature_invalid'')
     (optE invalid (Option.bind (unb64 encoded) loads)))))))"

text \<open>The loop over \<open>checks\<close>.\<close>

fun run_checks :: "(pyval \<times> str \<times> str) list \<Rightarrow> grant_exc + unit" where
  "run_checks [] = Inr ()"
| "run_checks ((actual, required, err) # cs) =
     bindE (raisingE Grant_Python (compare_digest (str_or_empty actual) required)) (\<lambda>same.
     guardE same (GrantError err) (run_checks cs))"

definition consume_action_grant ::
  "(str \<Rightarrow> str) \<Rightarrow> (str \<Rightarrow> str \<Rightarrow> str) \<Rightarrow> (str \<Rightarrow> str option) \<Rightarrow> (str \<Rightarrow> pyval option) \<Rightarrow> str option \<Rightarrow> env
     \<Rightarrow> store_env \<Rightarrow> grant_store \<Rightarrow> int \<Rightarrow> str \<Rightarrow> str \<Rightarrow> str \<Rightarrow> str \<Rightarrow> dict \<Rightarrow> grant_exc + str \<times> grant_store" where
  "consume_action_grant sha256 hmac256 unb64 loads key e c st current token who tenant tool args =
     bindE (decode_grant hmac256 unb64 loads key e token) (\<lambda>v.
     bindE (as_dict (Grant_Python AttributeError) v) (\<lambda>payload.
     guardE (eq_int (dget payload ''v'') 1 \<and> dget payload ''aud'' = PStr ''genesis-tool-dispatch'')
       (GrantError ''grant_audience_invalid'')
    (bindE (raisingE Grant_Python (outside_window payload current)) (\<lambda>outside.
     guardE (\<not> outside) (GrantError ''grant_expired'')
    (bindE (run_checks
       [(dget payload ''sub'', who, ''grant_principal_mismatch''),
        (dget payload ''tenant'', tenant, ''grant_tenant_mismatch''),
        (dget payload ''tool'', tool, ''grant_tool_mismatch''),
        (dget payload ''args_digest'', grant_digest sha256 tool args, ''grant_args_mismatch'')]) (\<lambda>_.
     bindE (raisingE Grant_Python (getitem payload ''jti'')) (\<lambda>jtiv.
     bindE (raisingE Grant_Python (getitem payload ''exp'')) (\<lambda>expv.
     bindE (optE (Grant_Python ValueError) (py_int_of expv)) (\<lambda>exp.
     bindE (spend_jti c st (py_str jtiv) current exp who tenant tool) (\<lambda>st'.
     Inr (str_or_empty (dget payload ''authorization_id''), st')))))))))))"

section \<open>Spent grants are a single-use store\<close>

text \<open>An attempt's environment: the store's, and the three columns only Postgres keeps.\<close>

type_synonym grant_env = "store_env \<times> str \<times> str \<times> str"

definition spend_grant :: "grant_env \<Rightarrow> grant_store \<Rightarrow> int \<Rightarrow> str \<Rightarrow> int \<Rightarrow> grant_exc + grant_store" where
  "spend_grant ce st now jti exp =
     (case ce of (c, who, tenant, tool) \<Rightarrow> spend_jti c st jti now exp who tenant tool)"

definition grant_held :: "bool \<Rightarrow> grant_store \<Rightarrow> str \<Rightarrow> int \<Rightarrow> bool" where
  "grant_held pg st jti exp \<longleftrightarrow>
     (if pg then \<exists>r \<in> set (gs_postgres st). gr_jti r = jti \<and> gr_expires_at r = exp
      else \<exists>r \<in> set (gs_sqlite st). gr_jti r = jti \<and> gr_expires_at r = exp)"

lemma spend_jti_postgres:
  "use_postgres c = Inr True \<Longrightarrow> spend_jti c st jti now exp p t tool = Inr st' \<Longrightarrow>
     sweep_insert gr_jti gr_expires_at now
       \<lparr>gr_jti = jti, gr_consumed_at = now, gr_expires_at = exp, gr_principal = p, gr_tenant = t, gr_tool = tool\<rparr>
       (gs_postgres st) = Some (gs_postgres st')"
  by (auto simp: spend_jti_def call_Inr)

lemma spend_jti_sqlite:
  "use_postgres c = Inr False \<Longrightarrow> spend_jti c st jti now exp p t tool = Inr st' \<Longrightarrow>
     sweep_insert gr_jti gr_expires_at now \<lparr>gr_jti = jti, gr_consumed_at = now, gr_expires_at = exp\<rparr>
       (gs_sqlite st) = Some (gs_sqlite st')"
  by (auto simp: spend_jti_def call_Inr)

lemmas spend_jti_Inr = spend_jti_postgres spend_jti_sqlite

interpretation grants: single_use spend_grant "grant_held pg" "\<lambda>ce. use_postgres (fst ce) = Inr pg" for pg
proof
  fix ce s now k e s'
  assume "use_postgres (fst ce) = Inr pg" and "spend_grant ce s now k e = Inr s'"
  then show "grant_held pg s' k e"
    by (cases pg; cases ce)
      (force simp: grant_held_def spend_grant_def dest!: spend_jti_Inr sweep_insert_records)+
next
  fix ce s now k' e' s' k e
  assume "use_postgres (fst ce) = Inr pg" and "spend_grant ce s now k' e' = Inr s'"
    and "grant_held pg s k e" and "now \<le> e"
  then show "grant_held pg s' k e"
    by (cases pg; cases ce)
      (auto simp: grant_held_def spend_grant_def dest!: spend_jti_Inr dest: sweep_insert_keeps)
next
  fix ce :: grant_env and s k e now e'
  assume u: "use_postgres (fst ce) = Inr pg" and held: "grant_held pg s k e" and "now \<le> e"
  show "\<exists>err. spend_grant ce s now k e' = Inl err"
  proof (rule ccontr)
    assume "\<not> ?thesis"
    then obtain s' where "spend_grant ce s now k e' = Inr s'" by (metis sumE)
    with u held \<open>now \<le> e\<close> show False
      by (cases pg; cases ce)
        (auto simp: grant_held_def spend_grant_def sweep_insert_refuses dest!: spend_jti_Inr)
  qed
qed

section \<open>Accepted grants\<close>

lemma run_checks_Inr:
  "run_checks cs = Inr u \<longleftrightarrow> (\<forall>(actual, required, err) \<in> set cs. str_or_empty actual = required \<and> is_ascii required)"
  by (induction cs) (auto simp: call_Inr compare_digest_def split: if_splits)

lemma decode_grant_Inr:
  assumes "decode_grant hmac256 unb64 loads key e token = Inr v"
  obtains k enc where "grant_key key e = Inr k"
    and "token = GRANT_PREFIX @ ''.'' @ enc @ ''.'' @ hmac256 k enc"
    and "Option.bind (unb64 enc) loads = Some v"
  using assms by (auto simp: decode_grant_def Let_def call_Inr dest!: split_token_Some)

lemma consume_action_grant_InrE:
  assumes "consume_action_grant sha256 hmac256 unb64 loads key e c st now token who tenant tool args = Inr (a, st')"
  obtains payload jtiv expv exp where
    "decode_grant hmac256 unb64 loads key e token = Inr (PDict payload)"
    "outside_window payload now = Inr False"
    "str_or_empty (dget payload ''sub'') = who" "str_or_empty (dget payload ''tenant'') = tenant"
    "str_or_empty (dget payload ''tool'') = tool"
    "str_or_empty (dget payload ''args_digest'') = grant_digest sha256 tool args"
    "map_of payload ''jti'' = Some jtiv" "map_of payload ''exp'' = Some expv" "py_int_of expv = Some exp"
    "spend_jti c st (py_str jtiv) now exp who tenant tool = Inr st'"
    "a = str_or_empty (dget payload ''authorization_id'')"
  using assms by (auto simp: consume_action_grant_def call_Inr run_checks_Inr)

text \<open>The calls of \<open>consume_action_grant\<close> one gateway makes, one after another.\<close>

record grant_call =
  gc_env :: store_env
  gc_now :: int
  gc_token :: str
  gc_principal :: str
  gc_tenant :: str
  gc_tool :: str
  gc_args :: dict

definition consume_call ::
  "(str \<Rightarrow> str) \<Rightarrow> (str \<Rightarrow> str \<Rightarrow> str) \<Rightarrow> (str \<Rightarrow> str option) \<Rightarrow> (str \<Rightarrow> pyval option) \<Rightarrow> str option \<Rightarrow> env
     \<Rightarrow> grant_store \<Rightarrow> grant_call \<Rightarrow> grant_exc + str \<times> grant_store" where
  "consume_call sha256 hmac256 unb64 loads key e st g =
     consume_action_grant sha256 hmac256 unb64 loads key e (gc_env g) st (gc_now g) (gc_token g)
       (gc_principal g) (gc_tenant g) (gc_tool g) (gc_args g)"

lemma consume_call_spends:
  assumes "consume_call sha256 hmac256 unb64 loads key e st g = Inr (a, st')"
  shows "\<exists>jti exp. spend_grant (gc_env g, gc_principal g, gc_tenant g, gc_tool g) st (gc_now g) jti exp = Inr st'"
  using assms unfolding consume_call_def
  by (elim consume_action_grant_InrE) (auto simp: spend_grant_def)

text \<open>
  C12. A grant is consumed at most once. After a call consumed a token, every later call with that token
  fails, whoever makes it and for whatever tool, whatever grants were consumed in between and however
  often the store was unreachable, provided the calls use one backend and the later call's clock is
  not behind the ones in between.
\<close>

theorem action_grant_single_use:
  assumes "consume_call sha256 hmac256 unb64 loads key e st g = Inr (a, st1)"
    and "use_postgres (gc_env g) = Inr pg"
    and "\<forall>h \<in> set hs. use_postgres (gc_env h) = Inr pg \<and> gc_now h \<le> gc_now r"
    and "use_postgres (gc_env r) = Inr pg" and "gc_token r = gc_token g"
  shows "\<exists>err. consume_call sha256 hmac256 unb64 loads key e
           (client_run (consume_call sha256 hmac256 unb64 loads key e) st1 hs) r = Inl err"
proof (rule ccontr)
  let ?run = "client_run (consume_call sha256 hmac256 unb64 loads key e) st1 hs"
  assume "\<not> ?thesis"
  then obtain b st2 where "consume_call sha256 hmac256 unb64 loads key e ?run r = Inr (b, st2)"
    by (metis sumE surj_pair)
  then show False
    unfolding consume_call_def [of sha256 hmac256 unb64 loads key e ?run]
  proof (rule consume_action_grant_InrE, goal_cases)
    case r: (1 payload jtiv expv exp)
    have live: "gc_now r \<le> exp" using r(2,8,9) by (auto simp: outside_window_Inr int_field_present)
    let ?env = "\<lambda>g. (gc_env g, gc_principal g, gc_tenant g, gc_tool g)"
    from assms(1) have spent: "spend_grant (?env g) st (gc_now g) (py_str jtiv) exp = Inr st1"
      unfolding consume_call_def
    proof (rule consume_action_grant_InrE, goal_cases)
      case (1 payload' jtiv' expv' exp')
      with r(1) assms(5) have "payload' = payload" by simp
      with 1 r show ?case by (simp add: spend_grant_def)
    qed
    have "\<exists>err. spend_grant (?env r) ?run (gc_now r) (py_str jtiv) exp = Inl err"
    proof (rule grants.spent_once [OF _ spent])
      fix s h q s'
      assume h: "h \<in> set hs" "consume_call sha256 hmac256 unb64 loads key e s h = Inr (q, s')"
      from consume_call_spends [OF h(2)] assms(3) h(1) live
      show "\<exists>c now k' e'. use_postgres (fst c) = Inr pg \<and> now \<le> exp \<and> spend_grant c s now k' e' = Inr s'"
        by (metis fst_conv order_trans)
    qed (use assms(2,4) live in simp_all)
    with r(10) show ?case by (simp add: spend_grant_def)
  qed
qed

text \<open>
  A consumed grant authorises exactly what it was issued for: the token carries the server's MAC, the
  identity, tenant and tool in it are the caller's, and the digest in it is the digest of this very
  tool with these very arguments, before the expiry.
\<close>

theorem action_grant_binds:
  assumes "consume_action_grant sha256 hmac256 unb64 loads key e c st now token who tenant tool args = Inr (a, st')"
  shows "\<exists>k enc payload. grant_key key e = Inr k \<and> 32 \<le> length k \<and>
     token = GRANT_PREFIX @ ''.'' @ enc @ ''.'' @ hmac256 k enc \<and>
     Option.bind (unb64 enc) loads = Some (PDict payload) \<and>
     str_or_empty (dget payload ''sub'') = who \<and> str_or_empty (dget payload ''tenant'') = tenant \<and>
     str_or_empty (dget payload ''tool'') = tool \<and>
     str_or_empty (dget payload ''args_digest'') = grant_digest sha256 tool args \<and>
     (\<exists>exp. py_int_of (dget payload ''exp'') = Some exp \<and> now \<le> exp)"
  using assms
proof (rule consume_action_grant_InrE, goal_cases)
  case (1 payload jtiv expv exp)
  from 1(1) obtain k enc where k: "grant_key key e = Inr k"
    and t: "token = GRANT_PREFIX @ ''.'' @ enc @ ''.'' @ hmac256 k enc" "Option.bind (unb64 enc) loads = Some (PDict payload)"
    by (rule decode_grant_Inr)
  from k have "32 \<le> length k" by (auto simp: grant_key_def Let_def guardE_Inr)
  moreover from 1(2,8,9) have "now \<le> exp" by (auto simp: outside_window_Inr int_field_present)
  ultimately show ?case using 1 k t by auto
qed

section \<open>Issued grants are accepted\<close>

lemma grant_prefix_no_dot: "CHR ''.'' \<notin> set GRANT_PREFIX"
  by (simp add: GRANT_PREFIX_def)

lemma grant_payload_sorted:
  "sort_key fst (grant_payload sha256 jti now ttl who tenant tool args auth) =
     [(''args_digest'', PStr (grant_digest sha256 tool args)), (''aud'', PStr ''genesis-tool-dispatch''),
      (''authorization_id'', PStr auth), (''exp'', PInt (now + min (max 1 ttl) 300)), (''iat'', PInt now),
      (''jti'', PStr jti), (''sub'', PStr who), (''tenant'', PStr tenant), (''tool'', PStr tool), (''v'', PInt 1)]"
  by (simp add: grant_payload_def)

text \<open>
  A grant issued for a principal, tool and arguments is accepted for them by a reachable store that has not
  spent its id, from a minute before until its expiry at most five minutes later, and returns the
  authorization it was issued under. The assumptions on Base64 and the JSON parser are those of the
  continuation token; texts compared in constant time are ASCII.
\<close>

theorem action_grant_accepted:
  assumes key: "grant_key key e = Inr k"
    and alphabet: "\<And>s. CHR ''.'' \<notin> set (b64 s)" "\<And>k s. is_ascii (hmac256 k s)" "\<And>s. is_ascii (sha256 s)"
    and decode: "\<And>s. unb64 (b64 s) = Some s"
    and parse: "loads (canonical_json (PDict (grant_payload sha256 jti now ttl who tenant tool args auth)))
                  = Some (PDict (sort_key fst (grant_payload sha256 jti now ttl who tenant tool args auth)))"
    and ascii: "is_ascii who" "is_ascii tenant" "is_ascii tool"
    and issued: "issue_action_grant sha256 hmac256 b64 key e jti now ttl who tenant tool args auth = Inr token"
    and window: "now - 60 \<le> t" "t \<le> now + min (max 1 ttl) 300"
    and store: "use_postgres c = Inr True" "se_pg_up c" "jti \<notin> gr_jti ` set (gs_postgres st)"
  shows "\<exists>st'. consume_action_grant sha256 hmac256 unb64 loads key e c st t token who tenant tool args = Inr (auth, st')"
proof -
  let ?p = "grant_payload sha256 jti now ttl who tenant tool args auth"
  let ?enc = "b64 (canonical_json (PDict ?p))"
  from key issued have "token = GRANT_PREFIX @ CHR ''.'' # ?enc @ CHR ''.'' # hmac256 k ?enc"
    by (simp add: issue_action_grant_def Let_def)
  then have dec: "decode_grant hmac256 unb64 loads key e token = Inr (PDict (sort_key fst ?p))"
    using alphabet
    by (simp add: decode_grant_def Let_def split_token_issue grant_prefix_no_dot key compare_digest_def decode parse)
  have win: "outside_window (sort_key fst ?p) t = Inr False"
    using window by (auto simp: outside_window_Inr int_field_present grant_payload_sorted)
  obtain st' where "spend_jti c st jti t (now + min (max 1 ttl) 300) who tenant tool = Inr st'"
    using store by (fastforce simp: spend_jti_def call_Inr intro: sweep_insert_fresh)
  then show ?thesis
    using ascii alphabet(3) win
    by (simp add: consume_action_grant_def dec grant_payload_sorted dget_def getitem_def compare_digest_def grant_digest_def)
qed

section \<open>A concrete grant\<close>

definition sample_digest :: "str \<Rightarrow> str" where
  "sample_digest s = show_int (int (length s))"

definition sample_grant_payload :: dict where
  "sample_grant_payload =
     grant_payload sample_digest ''j1'' 1000 300 ''user:1'' ''e4l'' ''deploy'' [(''site'', PStr ''x'')] ''auth-1''"

definition sample_grant_loads :: "str \<Rightarrow> pyval option" where
  "sample_grant_loads s = Some (PDict (sort_key fst sample_grant_payload))"

definition sample_grant_call :: "int \<Rightarrow> grant_call" where
  "sample_grant_call now =
     \<lparr>gc_env = sample_env, gc_now = now, gc_token = ''genesis-action-v1.X.M'', gc_principal = ''user:1'',
      gc_tenant = ''e4l'', gc_tool = ''deploy'', gc_args = [(''site'', PStr ''x'')]\<rparr>"

definition sample_spent :: pg_grant_row where
  "sample_spent = \<lparr>gr_jti = ''j1'', gr_consumed_at = 1010, gr_expires_at = 1300, gr_principal = ''user:1'',
     gr_tenant = ''e4l'', gr_tool = ''deploy''\<rparr>"

lemma sample_grant_consumed:
  "consume_call sample_digest (\<lambda>k s. ''M'') Some sample_grant_loads (Some sample_key) Map.empty
     \<lparr>gs_postgres = [], gs_sqlite = []\<rparr> (sample_grant_call 1010)
   = Inr (''auth-1'', \<lparr>gs_postgres = [sample_spent], gs_sqlite = []\<rparr>)"
  by code_simp

theorem action_grant_single_use_witness:
  "\<exists>err. consume_call sample_digest (\<lambda>k s. ''M'') Some sample_grant_loads (Some sample_key) Map.empty
     (client_run (consume_call sample_digest (\<lambda>k s. ''M'') Some sample_grant_loads (Some sample_key) Map.empty)
        \<lparr>gs_postgres = [sample_spent], gs_sqlite = []\<rparr> [sample_grant_call 1015]) (sample_grant_call 1020) = Inl err"
  by (rule action_grant_single_use [OF sample_grant_consumed, where pg = True])
    (simp_all add: sample_grant_call_def sample_use_postgres)

theorem action_grant_binds_witness:
  "\<exists>payload. sample_grant_loads ''X'' = Some (PDict payload) \<and>
     str_or_empty (dget payload ''args_digest'') = grant_digest sample_digest ''deploy'' [(''site'', PStr ''x'')]"
proof -
  from sample_grant_consumed have "consume_action_grant sample_digest (\<lambda>k s. ''M'') Some sample_grant_loads
      (Some sample_key) Map.empty sample_env \<lparr>gs_postgres = [], gs_sqlite = []\<rparr> 1010 ''genesis-action-v1.X.M''
      ''user:1'' ''e4l'' ''deploy'' [(''site'', PStr ''x'')] = Inr (''auth-1'', \<lparr>gs_postgres = [sample_spent], gs_sqlite = []\<rparr>)"
    by (simp add: consume_call_def sample_grant_call_def)
  from action_grant_binds [OF this] show ?thesis
    by (auto simp: sample_grant_loads_def)
qed

lemma sample_grant_key: "grant_key (Some sample_key) Map.empty = Inr sample_key"
  by code_simp

lemma is_ascii_show_int: "is_ascii (show_int (int n))"
  using dec_digits_digits [of _ n] by (fastforce simp: is_ascii_def show_int_def list_all_iff)

lemma sample_pg_up: "se_pg_up sample_env"
  by (simp add: sample_env_def)

lemma sample_names_ascii: "is_ascii ''user:1''" "is_ascii ''e4l''" "is_ascii ''deploy''"
  by (simp_all add: is_ascii_def)

theorem action_grant_accepted_witness:
  "\<exists>st'. consume_action_grant sample_digest sample_mac sample_unb64 sample_grant_loads (Some sample_key) Map.empty
     sample_env \<lparr>gs_postgres = [], gs_sqlite = []\<rparr> 1300
     (GRANT_PREFIX @ ''.'' @ sample_b64 (canonical_json (PDict sample_grant_payload)) @ ''.'' @ sample_b64 sample_key)
     ''user:1'' ''e4l'' ''deploy'' [(''site'', PStr ''x'')] = Inr (''auth-1'', st')"
  by (rule action_grant_accepted [OF sample_grant_key, where ?b64.0 = sample_b64 and jti = "''j1''" and now = 1000 and ttl = 300])
    (simp_all add: sample_b64_ascii sample_unb64_b64 sample_mac_def sample_digest_def is_ascii_show_int
      sample_grant_loads_def sample_grant_payload_def issue_action_grant_def sample_grant_key Let_def
      sample_use_postgres sample_pg_up sample_names_ascii)

end
