(* ===== verification/Job_Store.thy ===== *)
theory Job_Store
  imports Prelude
begin

text \<open>
  The durable job table and its event log, \<^verbatim>\<open>job_store.py\<close>.

  The two tables are lists in insertion order; one call is one transaction, which either commits or
  raises and leaves the tables as they were. A call that reads and then writes is the composition of the two
  statements, which hold no lock in between, so that calls that overlap have a model too. \<open>NOW()\<close> is an argument in microseconds, the fresh id of
  a new row another. The events' own ids, random and read by nobody, are left out.
\<close>

section \<open>Tables\<close>

record job =
  j_id :: str
  j_agentSlug :: str
  j_buyerWalletId :: "str option"
  j_buyerClientId :: "str option"
  j_tenantId :: "str option"
  j_ownerPrincipalId :: "str option"
  j_prompt :: str
  j_params :: dict
  j_status :: str
  j_priceTierCents :: "int option"
  j_idempotencyKey :: "str option"
  j_webhookUrl :: "str option"
  j_webhookSecret :: "str option"
  j_escrowId :: "str option"
  j_outputArtifactUris :: "str list"
  j_resultSummary :: "str option"
  j_errorCode :: "str option"
  j_errorMessage :: "str option"
  j_startedAt :: "int option"
  j_completedAt :: "int option"
  j_lastHeartbeatAt :: "int option"
  j_createdAt :: int
  j_updatedAt :: int

record job_event =
  ev_jobId :: str
  ev_eventType :: str
  ev_fromStatus :: "str option"
  ev_toStatus :: str
  ev_createdAt :: int

record job_db =
  db_jobs :: "job list"
  db_events :: "job_event list"

text \<open>What a call can raise: the unique constraints on \<open>id\<close> and \<open>"idempotencyKey"\<close>, and a statement
  the server rejects.\<close>

datatype job_exc = UniqueViolation | InvalidStatement

definition TERMINAL_JOB_STATUSES :: "str list" where
  [table_defs]: "TERMINAL_JOB_STATUSES = [''DELIVERED'', ''FAILED'', ''SETTLED'', ''REFUNDED'', ''EXPIRED'']"

definition status_change :: "str \<Rightarrow> str option \<Rightarrow> str \<Rightarrow> int \<Rightarrow> job_event" where
  "status_change jid from to now =
     \<lparr>ev_jobId = jid, ev_eventType = ''status_change'', ev_fromStatus = from, ev_toStatus = to, ev_createdAt = now\<rparr>"

definition get_job :: "str \<Rightarrow> job_db \<Rightarrow> job option" where
  "get_job jid db = find (\<lambda>j. j_id j = jid) (db_jobs db)"

section \<open>Creating jobs\<close>

record job_request =
  rq_agent_slug :: str
  rq_prompt :: str
  rq_params :: "dict option"
  rq_buyer_wallet_id :: "str option"
  rq_buyer_client_id :: "str option"
  rq_price_tier_cents :: "int option"
  rq_idempotency_key :: "str option"
  rq_webhook_url :: "str option"
  rq_webhook_secret :: "str option"
  rq_escrow_id :: "str option"
  rq_tenant_id :: "str option"
  rq_owner_principal_id :: "str option"

record create_result =
  cr_id :: str
  cr_status :: str
  cr_created_at :: "int option"
  cr_idempotent_hit :: bool

definition new_job_row :: "str \<Rightarrow> int \<Rightarrow> job_request \<Rightarrow> job" where
  "new_job_row jid now rq =
     \<lparr>j_id = jid, j_agentSlug = rq_agent_slug rq, j_buyerWalletId = rq_buyer_wallet_id rq,
      j_buyerClientId = rq_buyer_client_id rq, j_tenantId = rq_tenant_id rq,
      j_ownerPrincipalId = rq_owner_principal_id rq, j_prompt = rq_prompt rq,
      j_params = (case rq_params rq of None \<Rightarrow> [] | Some p \<Rightarrow> p), j_status = ''QUEUED'',
      j_priceTierCents = rq_price_tier_cents rq, j_idempotencyKey = rq_idempotency_key rq,
      j_webhookUrl = rq_webhook_url rq, j_webhookSecret = rq_webhook_secret rq,
      j_escrowId = rq_escrow_id rq, j_outputArtifactUris = [], j_resultSummary = None,
      j_errorCode = None, j_errorMessage = None, j_startedAt = None, j_completedAt = None,
      j_lastHeartbeatAt = None, j_createdAt = now, j_updatedAt = now\<rparr>"

text \<open>The rows an insert conflicts with; \<open>NULL\<close> keys never do.\<close>

definition key_taken :: "str option \<Rightarrow> job_db \<Rightarrow> bool" where
  "key_taken k db \<longleftrightarrow> k \<noteq> None \<and> k \<in> j_idempotencyKey ` set (db_jobs db)"

definition id_taken :: "str \<Rightarrow> job_db \<Rightarrow> bool" where
  "id_taken jid db \<longleftrightarrow> jid \<in> j_id ` set (db_jobs db)"

definition existing_job :: "str option \<Rightarrow> job_db \<Rightarrow> job option" where
  "existing_job k db =
     (case k of None \<Rightarrow> None
      | Some key \<Rightarrow> if key = [] then None else find (\<lambda>j. j_idempotencyKey j = Some key) (db_jobs db))"

text \<open>The lookup under the idempotency key, and the insertion when it found nothing.\<close>

definition insert_job :: "str \<Rightarrow> int \<Rightarrow> job_request \<Rightarrow> job_db \<Rightarrow> job_exc + create_result \<times> job_db" where
  "insert_job jid now rq db =
     guardE (\<not> id_taken jid db \<and> \<not> key_taken (rq_idempotency_key rq) db) UniqueViolation
     (Inr (\<lparr>cr_id = jid, cr_status = ''QUEUED'', cr_created_at = Some now, cr_idempotent_hit = False\<rparr>,
          \<lparr>db_jobs = db_jobs db @ [new_job_row jid now rq],
           db_events = db_events db @ [status_change jid None ''QUEUED'' now]\<rparr>))"

definition create_job :: "str \<Rightarrow> int \<Rightarrow> job_request \<Rightarrow> job_db \<Rightarrow> job_exc + create_result \<times> job_db" where
  "create_job jid now rq db =
     (case existing_job (rq_idempotency_key rq) db of
        Some j \<Rightarrow> Inr (\<lparr>cr_id = j_id j, cr_status = j_status j, cr_created_at = None, cr_idempotent_hit = True\<rparr>, db)
      | None \<Rightarrow> insert_job jid now rq db)"

definition child_job_row :: "str \<Rightarrow> int \<Rightarrow> str \<Rightarrow> str \<Rightarrow> dict \<Rightarrow> job option \<Rightarrow> job" where
  "child_job_row cid now slug prompt params parent =
     \<lparr>j_id = cid, j_agentSlug = slug, j_buyerWalletId = None, j_buyerClientId = None,
      j_tenantId = Option.bind parent j_tenantId, j_ownerPrincipalId = Option.bind parent j_ownerPrincipalId,
      j_prompt = prompt, j_params = params, j_status = ''RUNNING'', j_priceTierCents = None,
      j_idempotencyKey = None, j_webhookUrl = None, j_webhookSecret = None, j_escrowId = None,
      j_outputArtifactUris = [], j_resultSummary = None, j_errorCode = None, j_errorMessage = None,
      j_startedAt = Some now, j_completedAt = None, j_lastHeartbeatAt = Some now,
      j_createdAt = now, j_updatedAt = now\<rparr>"

text \<open>\<open>ON CONFLICT (id) DO NOTHING\<close> holds for the row; the event is inserted in any case.\<close>

definition insert_child :: "str \<Rightarrow> int \<Rightarrow> str \<Rightarrow> str \<Rightarrow> dict \<Rightarrow> job option \<Rightarrow> job_db \<Rightarrow> job_db" where
  "insert_child cid now slug prompt params parent db =
     \<lparr>db_jobs = (if id_taken cid db then db_jobs db else db_jobs db @ [child_job_row cid now slug prompt params parent]),
      db_events = db_events db @ [status_change cid None ''RUNNING'' now]\<rparr>"

definition create_child_job ::
  "str \<Rightarrow> int \<Rightarrow> str \<Rightarrow> str \<Rightarrow> str \<Rightarrow> dict option \<Rightarrow> job_db \<Rightarrow> str \<times> job_db" where
  "create_child_job cid now slug prompt parent_id params db =
     (let merged = dict_set (case params of None \<Rightarrow> [] | Some p \<Rightarrow> p) ''_parent_job_id'' (PStr parent_id) in
      (cid, insert_child cid now slug prompt merged (get_job parent_id db) db))"

section \<open>Moving jobs\<close>

record status_update =
  su_error_code :: "str option"
  su_error_message :: "str option"
  su_result_summary :: "str option"
  su_output_artifact_uris :: "str list option"

definition plain_update :: status_update where
  "plain_update = \<lparr>su_error_code = None, su_error_message = None, su_result_summary = None,
     su_output_artifact_uris = None\<rparr>"

definition or_else :: "'a option \<Rightarrow> 'a option \<Rightarrow> 'a option" where
  "or_else a b = (case a of None \<Rightarrow> b | Some x \<Rightarrow> Some x)"

text \<open>The \<open>SET\<close> clauses \<open>update_job_status\<close> collects.\<close>

definition set_clauses :: "int \<Rightarrow> str \<Rightarrow> status_update \<Rightarrow> job \<Rightarrow> job" where
  "set_clauses now new su j =
     j\<lparr>j_status := new, j_updatedAt := now,
       j_startedAt := (if new = ''RUNNING'' then or_else (j_startedAt j) (Some now) else j_startedAt j),
       j_completedAt := (if new \<in> set TERMINAL_JOB_STATUSES then Some now else j_completedAt j),
       j_errorCode := or_else (su_error_code su) (j_errorCode j),
       j_errorMessage := or_else (su_error_message su) (j_errorMessage j),
       j_resultSummary := or_else (su_result_summary su) (j_resultSummary j),
       j_outputArtifactUris := (case su_output_artifact_uris su of None \<Rightarrow> j_outputArtifactUris j | Some us \<Rightarrow> us)\<rparr>"

definition update_where :: "(job \<Rightarrow> bool) \<Rightarrow> (job \<Rightarrow> job) \<Rightarrow> job list \<Rightarrow> job list" where
  "update_where P f js = map (\<lambda>j. if P j then f j else j) js"

text \<open>\<open>update_job_status\<close> reads the status in one statement and decides, and writes in the next two; the row is not
  locked in between.\<close>

definition transition_refused :: "str \<Rightarrow> str \<Rightarrow> bool \<Rightarrow> bool" where
  "transition_refused from new allow_terminal_override \<longleftrightarrow>
     from \<in> set TERMINAL_JOB_STATUSES \<and> new \<noteq> from \<and> \<not> allow_terminal_override"

definition read_status :: "str \<Rightarrow> str \<Rightarrow> bool \<Rightarrow> job_db \<Rightarrow> str option" where
  "read_status jid new allow_terminal_override db =
     (case get_job jid db of
        None \<Rightarrow> None
      | Some j \<Rightarrow> if transition_refused (j_status j) new allow_terminal_override then None else Some (j_status j))"

definition write_status :: "str \<Rightarrow> str \<Rightarrow> str \<Rightarrow> status_update \<Rightarrow> int \<Rightarrow> job_db \<Rightarrow> job_db" where
  "write_status jid from new su now db =
     \<lparr>db_jobs = update_where (\<lambda>j. j_id j = jid) (set_clauses now new su) (db_jobs db),
      db_events = db_events db @ [status_change jid (Some from) new now]\<rparr>"

definition update_job_status :: "str \<Rightarrow> str \<Rightarrow> status_update \<Rightarrow> bool \<Rightarrow> int \<Rightarrow> job_db \<Rightarrow> bool \<times> job_db" where
  "update_job_status jid new su allow_terminal_override now db =
     (case read_status jid new allow_terminal_override db of
        None \<Rightarrow> (False, db)
      | Some from \<Rightarrow> (True, write_status jid from new su now db))"

definition heartbeat :: "str \<Rightarrow> int \<Rightarrow> job_db \<Rightarrow> bool \<times> job_db" where
  "heartbeat jid now db =
     (id_taken jid db,
      db\<lparr>db_jobs := update_where (\<lambda>j. j_id j = jid) (\<lambda>j. j\<lparr>j_lastHeartbeatAt := Some now\<rparr>) (db_jobs db)\<rparr>)"

definition claim_row :: "int \<Rightarrow> job \<Rightarrow> job" where
  "claim_row now j =
     j\<lparr>j_status := ''RUNNING'', j_startedAt := or_else (j_startedAt j) (Some now),
       j_lastHeartbeatAt := Some now, j_updatedAt := now\<rparr>"

definition claim_job_by_id :: "str \<Rightarrow> int \<Rightarrow> job_db \<Rightarrow> job option \<times> job_db" where
  "claim_job_by_id jid now db =
     (let P = (\<lambda>j. j_id j = jid \<and> j_status j = ''QUEUED'') in
      case filter P (db_jobs db) of
        [] \<Rightarrow> (None, db)
      | j # _ \<Rightarrow>
          (Some (claim_row now j),
           \<lparr>db_jobs = update_where P (claim_row now) (db_jobs db),
            db_events = db_events db @ [status_change jid (Some ''QUEUED'') ''RUNNING'' now]\<rparr>))"

text \<open>The ids the subquery selects: the oldest queued rows that no other transaction has locked.\<close>

definition claimed_ids :: "(str \<Rightarrow> bool) \<Rightarrow> nat \<Rightarrow> job_db \<Rightarrow> str list" where
  "claimed_ids locked limit db =
     map j_id (take limit (sort_key j_createdAt
       (filter (\<lambda>j. j_status j = ''QUEUED'' \<and> \<not> locked (j_id j)) (db_jobs db))))"

definition claim_queued_jobs :: "(str \<Rightarrow> bool) \<Rightarrow> int \<Rightarrow> int \<Rightarrow> job_db \<Rightarrow> job_exc + job list \<times> job_db" where
  "claim_queued_jobs locked limit now db =
     guardE (0 \<le> limit) InvalidStatement
    (let ids = claimed_ids locked (nat limit) db;
         P = (\<lambda>j. j_id j \<in> set ids);
         rows = map (claim_row now) (filter P (db_jobs db)) in
     Inr (rows,
       \<lparr>db_jobs = update_where P (claim_row now) (db_jobs db),
        db_events = db_events db @ map (\<lambda>r. status_change (j_id r) (Some ''QUEUED'') ''RUNNING'' now) rows\<rparr>))"

definition MINUTE :: int where
  "MINUTE = 60000000"

definition last_sign_of_life :: "job \<Rightarrow> int" where
  "last_sign_of_life j =
     (case or_else (j_lastHeartbeatAt j) (j_startedAt j) of None \<Rightarrow> j_createdAt j | Some t \<Rightarrow> t)"

definition stale :: "int \<Rightarrow> int \<Rightarrow> job \<Rightarrow> bool" where
  "stale minutes now j \<longleftrightarrow> j_status j = ''RUNNING'' \<and> last_sign_of_life j < now - minutes * MINUTE"

definition expire_row :: "int \<Rightarrow> int \<Rightarrow> job \<Rightarrow> job" where
  "expire_row minutes now j =
     j\<lparr>j_status := ''EXPIRED'', j_completedAt := Some now, j_updatedAt := now,
       j_errorCode := Some ''stale_heartbeat'',
       j_errorMessage := Some (''No heartbeat for '' @ show_int minutes @ ''+ minutes'')\<rparr>"

definition expire_stale_running_jobs :: "int \<Rightarrow> int \<Rightarrow> job_db \<Rightarrow> int \<times> job_db" where
  "expire_stale_running_jobs minutes now db =
     (let expired = filter (stale minutes now) (db_jobs db) in
      (int (length expired),
       \<lparr>db_jobs = update_where (stale minutes now) (expire_row minutes now) (db_jobs db),
        db_events = db_events db @ map (\<lambda>j. status_change (j_id j) (Some ''RUNNING'') ''EXPIRED'' now) expired\<rparr>))"

section \<open>The event log\<close>

definition events_of :: "str \<Rightarrow> job_db \<Rightarrow> job_event list" where
  "events_of jid db = filter (\<lambda>ev. ev_jobId ev = jid) (db_events db)"

text \<open>Reading a job's log from its start: each event must leave from the status the previous one
  reached. \<open>None\<close> is a broken log; \<open>Some None\<close> an empty one.\<close>

fun follows :: "str option \<Rightarrow> job_event list \<Rightarrow> str option option" where
  "follows s [] = Some s"
| "follows s (ev # evs) = (if ev_fromStatus ev = s then follows (Some (ev_toStatus ev)) evs else None)"

lemma follows_append:
  "follows s (xs @ ys) = Option.bind (follows s xs) (\<lambda>s'. follows s' ys)"
  by (induction s xs rule: follows.induct) auto

text \<open>A reading that tolerates gaps: the status the last move reached, where the first event is the creation and a later
  one without a predecessor no move; and whether each move leaves from a status that some event before it reached.\<close>

definition last_reached :: "job_event list \<Rightarrow> str option" where
  "last_reached evs =
     (case evs of
        [] \<Rightarrow> None
      | ev # later \<Rightarrow> Some (ev_toStatus (last (ev # filter (\<lambda>ev. ev_fromStatus ev \<noteq> None) later))))"

fun accounted :: "str list \<Rightarrow> job_event list \<Rightarrow> bool" where
  "accounted seen [] \<longleftrightarrow> True"
| "accounted seen (ev # evs) \<longleftrightarrow>
     (case ev_fromStatus ev of None \<Rightarrow> True | Some s \<Rightarrow> s \<in> set seen) \<and> accounted (ev_toStatus ev # seen) evs"

lemma last_reached_snoc:
  "last_reached (evs @ [ev]) =
     (if evs = [] \<or> ev_fromStatus ev \<noteq> None then Some (ev_toStatus ev) else last_reached evs)"
  by (cases evs) (auto simp: last_reached_def)

lemma accounted_snoc:
  "accounted seen (evs @ [ev]) \<longleftrightarrow> accounted seen evs \<and>
     (case ev_fromStatus ev of None \<Rightarrow> True | Some s \<Rightarrow> s \<in> set seen \<union> ev_toStatus ` set evs)"
  by (induction seen evs rule: accounted.induct) (auto split: option.splits)

lemma last_reached_member: "last_reached evs = Some s \<Longrightarrow> s \<in> ev_toStatus ` set evs"
proof (cases evs)
  case (Cons ev later)
  let ?mv = "filter (\<lambda>ev. ev_fromStatus ev \<noteq> None) later"
  have "last (ev # ?mv) \<in> set (ev # ?mv)" by (rule last_in_set) simp
  then show "last_reached evs = Some s \<Longrightarrow> ?thesis" using Cons by (auto simp: last_reached_def)
qed (simp add: last_reached_def)

definition ids_distinct :: "job_db \<Rightarrow> bool" where
  "ids_distinct db \<longleftrightarrow> distinct (map j_id (db_jobs db))"

definition running_started :: "job_db \<Rightarrow> bool" where
  "running_started db \<longleftrightarrow> (\<forall>j \<in> set (db_jobs db). j_status j = ''RUNNING'' \<longrightarrow> j_startedAt j \<noteq> None)"

definition job_inv :: "job_db \<Rightarrow> bool" where
  "job_inv db \<longleftrightarrow> ids_distinct db \<and> running_started db"

text \<open>What a job's log says of its row; without gaps outside the disturbed ids.\<close>

definition log_fits :: "str set \<Rightarrow> job \<Rightarrow> job_event list \<Rightarrow> bool" where
  "log_fits disturbed j evs \<longleftrightarrow>
     last_reached evs = Some (j_status j) \<and> accounted [] evs \<and>
     (j_id j \<in> disturbed \<or> follows None evs = Some (Some (j_status j)))"

definition log_inv :: "str set \<Rightarrow> job_db \<Rightarrow> bool" where
  "log_inv disturbed db \<longleftrightarrow>
     (\<forall>j \<in> set (db_jobs db). log_fits disturbed j (events_of (j_id j) db)) \<and>
     (\<forall>ev \<in> set (db_events db). id_taken (ev_jobId ev) db)"

lemma log_fits_created: "log_fits disturbed j [status_change (j_id j) None (j_status j) now]"
  by (simp add: log_fits_def last_reached_def status_change_def)

lemma log_fits_more: "log_fits disturbed j evs \<Longrightarrow> disturbed \<subseteq> disturbed' \<Longrightarrow> log_fits disturbed' j evs"
  by (auto simp: log_fits_def)

lemma log_fits_created_again:
  "log_fits disturbed j evs \<Longrightarrow> j_id j \<in> disturbed \<Longrightarrow> log_fits disturbed j (evs @ [status_change (j_id j) None to now])"
  by (auto simp: log_fits_def last_reached_snoc accounted_snoc status_change_def) (simp add: last_reached_def)

lemma log_fits_moved:
  assumes "log_fits disturbed j evs" and "old \<in> ev_toStatus ` set evs" and "j_id j' = j_id j"
    and "j_id j \<in> disturbed \<or> j_status j = old"
  shows "log_fits disturbed j' (evs @ [status_change (j_id j) (Some old) (j_status j') now])"
  using assms by (auto simp: log_fits_def last_reached_snoc accounted_snoc status_change_def follows_append)

lemma get_job_Some: "get_job jid db = Some j \<Longrightarrow> j \<in> set (db_jobs db) \<and> j_id j = jid"
  by (auto simp: get_job_def find_Some_iff)

lemma get_job_None: "get_job jid db = None \<longleftrightarrow> \<not> id_taken jid db"
  by (auto simp: get_job_def id_taken_def find_None_iff)

lemma distinct_filter_id:
  "distinct (map j_id js) \<Longrightarrow> j \<in> set js \<Longrightarrow> filter (\<lambda>r. j_id r = j_id j) js = [j]"
proof (induction js)
  case (Cons a js)
  then show ?case
    by (cases "a = j") (auto simp: filter_empty_conv image_iff)
qed simp

lemma same_id: "ids_distinct db \<Longrightarrow> j \<in> set (db_jobs db) \<Longrightarrow> i \<in> set (db_jobs db) \<Longrightarrow> j_id i = j_id j \<Longrightarrow> i = j"
  unfolding ids_distinct_def by (metis distinct_map inj_on_def)

text \<open>\<open>update_where\<close> with a function that keeps ids, and the events appended beside it.\<close>

lemma map_id_update_where [simp]:
  "(\<And>j. j_id (f j) = j_id j) \<Longrightarrow> map j_id (update_where P f js) = map j_id js"
  by (auto simp: update_where_def comp_def)

lemma set_update_where: "set (update_where P f js) = (\<lambda>j. if P j then f j else j) ` set js"
  by (simp add: update_where_def)

lemma update_where_none: "\<forall>j \<in> set js. \<not> P j \<Longrightarrow> update_where P f js = js"
  by (induction js) (auto simp: update_where_def)

lemma id_taken_map_ids: "map j_id (db_jobs db') = map j_id (db_jobs db) \<Longrightarrow> id_taken jid db' = id_taken jid db"
  unfolding id_taken_def by (metis list.set_map)

lemma job_inv_update:
  assumes inv: "job_inv db"
    and jobs: "db_jobs db' = update_where P f (db_jobs db)"
    and ids: "\<And>j. j_id (f j) = j_id j"
    and started: "\<And>j. j \<in> set (db_jobs db) \<Longrightarrow> P j \<Longrightarrow> j_status (f j) = ''RUNNING'' \<Longrightarrow> j_startedAt (f j) \<noteq> None"
  shows "job_inv db'"
proof -
  have "map j_id (db_jobs db') = map j_id (db_jobs db)" using jobs ids by simp
  moreover have "running_started db'"
    using inv started by (auto simp: job_inv_def running_started_def jobs set_update_where)
  ultimately show ?thesis
    using inv by (simp add: job_inv_def ids_distinct_def)
qed

lemma job_inv_insert:
  "job_inv db \<Longrightarrow> \<not> id_taken (j_id j) db \<Longrightarrow> (j_status j = ''RUNNING'' \<longrightarrow> j_startedAt j \<noteq> None) \<Longrightarrow>
     job_inv \<lparr>db_jobs = db_jobs db @ [j], db_events = evs\<rparr>"
  by (auto simp: job_inv_def ids_distinct_def running_started_def id_taken_def)

text \<open>A new row with its first event.\<close>

lemma log_inv_insert:
  assumes inv: "log_inv disturbed db" and fresh: "\<not> id_taken (j_id j) db"
  shows "log_inv disturbed \<lparr>db_jobs = db_jobs db @ [j], db_events = db_events db @ [status_change (j_id j) None (j_status j) now]\<rparr>"
proof -
  have "filter (\<lambda>ev. ev_jobId ev = j_id j) (db_events db) = []"
    using inv fresh by (auto simp: filter_empty_conv log_inv_def)
  moreover have "j_id j \<noteq> j_id i" if "i \<in> set (db_jobs db)" for i
    using fresh that by (metis id_taken_def imageI)
  ultimately show ?thesis
    using inv log_fits_created [of disturbed j now]
    by (auto simp: log_inv_def events_of_def id_taken_def status_change_def)
qed

section \<open>Every operation keeps the invariant\<close>

lemma insert_job_inv: "job_inv db \<Longrightarrow> insert_job jid now rq db = Inr (r, db') \<Longrightarrow> job_inv db'"
  using job_inv_insert [of db "new_job_row jid now rq"]
  by (auto simp: insert_job_def guardE_Inr new_job_row_def)

lemma create_job_inv: "job_inv db \<Longrightarrow> create_job jid now rq db = Inr (r, db') \<Longrightarrow> job_inv db'"
  by (auto simp: create_job_def intro: insert_job_inv split: option.splits)

lemma insert_child_inv: "job_inv db \<Longrightarrow> job_inv (insert_child cid now slug prompt params parent db)"
  using job_inv_insert [of db "child_job_row cid now slug prompt params parent"]
  by (auto simp: insert_child_def child_job_row_def job_inv_def ids_distinct_def running_started_def)

lemma create_child_job_inv: "job_inv db \<Longrightarrow> job_inv (snd (create_child_job cid now slug prompt pid params db))"
  by (simp add: create_child_job_def Let_def insert_child_inv)

lemma set_clauses_simps [simp]:
  "j_id (set_clauses now new su j) = j_id j"
  "j_status (set_clauses now new su j) = new"
  "new = ''RUNNING'' \<Longrightarrow> j_startedAt (set_clauses now new su j) \<noteq> None"
  by (simp_all add: set_clauses_def or_else_def split: option.splits)

lemma claim_row_simps [simp]:
  "j_id (claim_row now j) = j_id j" "j_status (claim_row now j) = ''RUNNING''"
  "j_startedAt (claim_row now j) \<noteq> None" "j_lastHeartbeatAt (claim_row now j) = Some now"
  by (simp_all add: claim_row_def or_else_def split: option.splits)

lemma expire_row_simps [simp]:
  "j_id (expire_row m now j) = j_id j" "j_status (expire_row m now j) = ''EXPIRED''"
  by (simp_all add: expire_row_def)

lemma status_change_simps [simp]:
  "ev_jobId (status_change jid from to now) = jid" "ev_fromStatus (status_change jid from to now) = from"
  "ev_toStatus (status_change jid from to now) = to"
  by (simp_all add: status_change_def)

lemma update_job_status_eq:
  "update_job_status jid new su allow now db =
     (case get_job jid db of
        None \<Rightarrow> (False, db)
      | Some j \<Rightarrow>
          if transition_refused (j_status j) new allow then (False, db)
          else (True, write_status jid (j_status j) new su now db))"
  by (simp add: update_job_status_def read_status_def split: option.splits)

lemma write_status_inv: "job_inv db \<Longrightarrow> job_inv (write_status jid from new su now db)"
  by (rule job_inv_update [where P = "\<lambda>i. j_id i = jid" and f = "set_clauses now new su"]) (auto simp: write_status_def)

lemma update_job_status_inv: "job_inv db \<Longrightarrow> job_inv (snd (update_job_status jid new su ov now db))"
  by (simp add: update_job_status_def write_status_inv split: option.splits)

lemma heartbeat_inv: "job_inv db \<Longrightarrow> job_inv (snd (heartbeat jid now db))"
  by (rule job_inv_update [where P = "\<lambda>j. j_id j = jid" and f = "\<lambda>j. j\<lparr>j_lastHeartbeatAt := Some now\<rparr>"])
    (auto simp: heartbeat_def job_inv_def running_started_def)

lemma filter_status_changes:
  assumes "distinct (map j_id js)" and "j \<in> set js"
  shows "filter (\<lambda>ev. ev_jobId ev = j_id j) (map (\<lambda>r. status_change (j_id r) old new now) (filter P js))
    = (if P j then [status_change (j_id j) old new now] else [])"
proof -
  have "filter (\<lambda>ev. ev_jobId ev = j_id j) (map (\<lambda>r. status_change (j_id r) old new now) (filter P js))
      = map (\<lambda>r. status_change (j_id r) old new now) (filter P (filter (\<lambda>r. j_id r = j_id j) js))"
    by (simp add: filter_map comp_def conj_commute)
  also have "\<dots> = (if P j then [status_change (j_id j) old new now] else [])"
    by (simp add: distinct_filter_id [OF assms])
  finally show ?thesis .
qed

text \<open>A move of the rows \<open>P\<close>, with one event per row whose predecessor is a status the log reached before. The rows whose
  status was another one by then are disturbed.\<close>

lemma log_inv_moves:
  assumes ids: "ids_distinct db" and inv: "log_inv disturbed db" and more: "disturbed \<subseteq> disturbed'"
    and jobs: "db_jobs db' = update_where P f (db_jobs db)"
    and same: "\<And>j. j_id (f j) = j_id j" and new: "\<And>j. j_status (f j) = new"
    and events: "db_events db' = db_events db @ map (\<lambda>r. status_change (j_id r) (Some old) new now) (filter P (db_jobs db))"
    and reached: "\<And>j. j \<in> set (db_jobs db) \<Longrightarrow> P j \<Longrightarrow> old \<in> ev_toStatus ` set (events_of (j_id j) db)"
    and status: "\<And>j. j \<in> set (db_jobs db) \<Longrightarrow> P j \<Longrightarrow> j_id j \<in> disturbed' \<or> j_status j = old"
  shows "log_inv disturbed' db'"
proof -
  have taken: "id_taken i db' = id_taken i db" for i using jobs same by (intro id_taken_map_ids) simp
  have evs: "events_of (j_id j) db' = events_of (j_id j) db @ (if P j then [status_change (j_id j) (Some old) new now] else [])"
    if "j \<in> set (db_jobs db)" for j
    using filter_status_changes [OF ids [unfolded ids_distinct_def] that] by (simp add: events_of_def events)
  have fits: "log_fits disturbed' (if P j then f j else j) (events_of (j_id j) db')" if j: "j \<in> set (db_jobs db)" for j
  proof -
    have fits: "log_fits disturbed' j (events_of (j_id j) db)" using inv j more by (auto simp: log_inv_def intro: log_fits_more)
    show ?thesis
    proof (cases "P j")
      case True
      from log_fits_moved [OF fits reached [OF j True] same status [OF j True], of now] show ?thesis
        by (simp add: evs [OF j] True new)
    qed (use fits in \<open>simp add: evs [OF j]\<close>)
  qed
  have "log_fits disturbed' x (events_of (j_id x) db')" if x: "x \<in> set (db_jobs db')" for x
  proof -
    from x obtain j where "j \<in> set (db_jobs db)" "x = (if P j then f j else j)" by (auto simp: jobs set_update_where)
    with fits [of j] same show ?thesis by (cases "P j") simp_all
  qed
  moreover have "id_taken (ev_jobId ev) db" if "ev \<in> set (db_events db')" for ev
    using that inv by (auto simp: events log_inv_def id_taken_def status_change_def)
  ultimately show ?thesis by (simp add: log_inv_def taken)
qed

text \<open>An operation on the rows that moves none.\<close>

lemma log_inv_still:
  assumes "log_inv disturbed db" and "db_jobs db' = update_where P f (db_jobs db)" and "db_events db' = db_events db"
    and "\<And>j. j_id (f j) = j_id j" and "\<And>j. j_status (f j) = j_status j"
  shows "log_inv disturbed db'"
proof -
  have "id_taken i db' = id_taken i db" for i using assms(2,4) by (intro id_taken_map_ids) simp
  then show ?thesis
    using assms by (auto simp: log_inv_def log_fits_def events_of_def set_update_where)
qed

lemma claimed_ids_queued:
  assumes "ids_distinct db" "j \<in> set (db_jobs db)" "j_id j \<in> set (claimed_ids locked n db)"
  shows "j_status j = ''QUEUED''"
proof -
  from assms(3) obtain i where "i \<in> set (db_jobs db)" "j_status i = ''QUEUED''" "j_id i = j_id j"
    unfolding claimed_ids_def by (auto dest!: in_set_takeD)
  with assms(1,2) show ?thesis by (metis same_id)
qed

lemma claim_job_by_id_jobs:
  "db_jobs (snd (claim_job_by_id jid now db))
     = update_where (\<lambda>j. j_id j = jid \<and> j_status j = ''QUEUED'') (claim_row now) (db_jobs db)"
  by (auto simp: claim_job_by_id_def Let_def filter_empty_conv update_where_none split: list.split)

lemma claim_queued_jobs_Inr:
  "claim_queued_jobs locked limit now db = Inr (rows, db') \<Longrightarrow>
     db_jobs db' = update_where (\<lambda>j. j_id j \<in> set (claimed_ids locked (nat limit) db)) (claim_row now) (db_jobs db) \<and>
     rows = map (claim_row now) (filter (\<lambda>j. j_id j \<in> set (claimed_ids locked (nat limit) db)) (db_jobs db))"
  by (auto simp: claim_queued_jobs_def guardE_Inr Let_def)

lemma expire_jobs:
  "db_jobs (snd (expire_stale_running_jobs minutes now db))
     = update_where (stale minutes now) (expire_row minutes now) (db_jobs db)"
  by (simp add: expire_stale_running_jobs_def Let_def)

lemma claim_queued_jobs_inv:
  "job_inv db \<Longrightarrow> claim_queued_jobs locked limit now db = Inr (rows, db') \<Longrightarrow> job_inv db'"
  using job_inv_update [OF _ conjunct1 [OF claim_queued_jobs_Inr]] by simp

lemma expire_stale_running_jobs_inv: "job_inv db \<Longrightarrow> job_inv (snd (expire_stale_running_jobs minutes now db))"
  by (rule job_inv_update [OF _ expire_jobs]) simp_all

lemma claim_job_by_id_inv: "job_inv db \<Longrightarrow> job_inv (snd (claim_job_by_id jid now db))"
  by (rule job_inv_update [OF _ claim_job_by_id_jobs]) simp_all

section \<open>Runs of the store\<close>

text \<open>
  The calls the gateway, the worker and the delegation tool make, in any order, each alone. With \<open>ov\<close> a call may
  pass \<open>allow_terminal_override\<close>, which only the dispute, refund and release routes do. No caller moves
  a job back to \<open>QUEUED\<close>.
\<close>

inductive job_step :: "bool \<Rightarrow> job_db \<Rightarrow> job_db \<Rightarrow> bool" for ov where
  create: "create_job jid now rq db = Inr (r, db') \<Longrightarrow> job_step ov db db'"
| child: "job_step ov db (snd (create_child_job cid now slug prompt pid params db))"
| update: "new \<noteq> ''QUEUED'' \<Longrightarrow> (allow \<longrightarrow> ov) \<Longrightarrow> job_step ov db (snd (update_job_status jid new su allow now db))"
| beat: "job_step ov db (snd (heartbeat jid now db))"
| claim: "job_step ov db (snd (claim_job_by_id jid now db))"
| claim_batch: "claim_queued_jobs locked limit now db = Inr (rows, db') \<Longrightarrow> job_step ov db db'"
| expire: "job_step ov db (snd (expire_stale_running_jobs minutes now db))"

definition empty_db :: job_db where
  "empty_db = \<lparr>db_jobs = [], db_events = []\<rparr>"

lemma job_step_inv: "job_step ov db db' \<Longrightarrow> job_inv db \<Longrightarrow> job_inv db'"
  by (induction rule: job_step.induct)
    (auto intro: create_job_inv create_child_job_inv update_job_status_inv heartbeat_inv claim_job_by_id_inv
      claim_queued_jobs_inv expire_stale_running_jobs_inv)

lemma job_steps_inv: "(job_step ov)\<^sup>*\<^sup>* db db' \<Longrightarrow> job_inv db \<Longrightarrow> job_inv db'"
  by (induction rule: rtranclp_induct) (auto intro: job_step_inv)

lemma job_inv_empty [simp]: "job_inv empty_db"
  by (simp add: job_inv_def empty_db_def ids_distinct_def running_started_def)

section \<open>Calls that overlap\<close>

text \<open>
  Calls of several processes and threads, statement by statement. \<open>update_job_status\<close> reads and decides, and its write commits
  later or never; in between anything may happen. A creation inserts after a lookup that found nothing at some time before, a child's
  insertion after a lookup of its parent at some time before. The other calls write in one statement, whose condition the server
  checks on the rows as they are then. A job is disturbed once a write met another status than its call had read, or once its id
  was given to a second child.
\<close>

record pending_write =
  pw_job :: str
  pw_from :: str
  pw_new :: str
  pw_update :: status_update

inductive overlapping :: "job_db \<Rightarrow> pending_write list \<Rightarrow> str set \<Rightarrow> bool" where
  start: "overlapping empty_db [] {}"
| reads: "overlapping db ps dis \<Longrightarrow> read_status jid new allow db = Some from \<Longrightarrow>
    overlapping db (ps @ [\<lparr>pw_job = jid, pw_from = from, pw_new = new, pw_update = su\<rparr>]) dis"
| writes: "overlapping db (ps @ w # qs) dis \<Longrightarrow>
    overlapping (write_status (pw_job w) (pw_from w) (pw_new w) (pw_update w) now db) (ps @ qs)
      (if map_option j_status (get_job (pw_job w) db) = Some (pw_from w) then dis else insert (pw_job w) dis)"
| fails: "overlapping db (ps @ w # qs) dis \<Longrightarrow> overlapping db (ps @ qs) dis"
| create: "overlapping db ps dis \<Longrightarrow> insert_job jid now rq db = Inr (r, db') \<Longrightarrow> overlapping db' ps dis"
| child: "overlapping db ps dis \<Longrightarrow>
    overlapping (insert_child cid now slug prompt params parent db) ps (if id_taken cid db then insert cid dis else dis)"
| beat: "overlapping db ps dis \<Longrightarrow> overlapping (snd (heartbeat jid now db)) ps dis"
| claim: "overlapping db ps dis \<Longrightarrow> overlapping (snd (claim_job_by_id jid now db)) ps dis"
| claim_batch: "overlapping db ps dis \<Longrightarrow> claim_queued_jobs locked limit now db = Inr (rows, db') \<Longrightarrow> overlapping db' ps dis"
| expire: "overlapping db ps dis \<Longrightarrow> overlapping (snd (expire_stale_running_jobs minutes now db)) ps dis"

text \<open>Every run of calls one after the other is one of these.\<close>

lemma job_step_overlapping: "job_step ov db db' \<Longrightarrow> overlapping db [] dis \<Longrightarrow> \<exists>dis'. overlapping db' [] dis'"
proof (induction rule: job_step.induct)
  case (create jid now rq db r db')
  then show ?case by (auto simp: create_job_def intro: overlapping.create split: option.splits)
next
  case (child db cid now slug prompt pid params)
  then show ?case unfolding create_child_job_def Let_def snd_conv by (blast intro: overlapping.child)
next
  case (update new allow db jid su now)
  show ?case
  proof (cases "read_status jid new allow db")
    case (Some old)
    have "overlapping db ([] @ \<lparr>pw_job = jid, pw_from = old, pw_new = new, pw_update = su\<rparr> # []) dis"
      using overlapping.reads [OF update.prems Some, of su] by simp
    from overlapping.writes [OF this, of now] show ?thesis by (auto simp: update_job_status_def Some)
  qed (use update.prems in \<open>auto simp: update_job_status_def\<close>)
qed (blast intro: overlapping.intros)+

lemma job_steps_overlapping: "(job_step ov)\<^sup>*\<^sup>* empty_db db \<Longrightarrow> \<exists>dis. overlapping db [] dis"
  by (induction rule: rtranclp_induct) (blast intro: overlapping.start job_step_overlapping)+

text \<open>The events of a job only grow, and a pending write has read a status that its job's log reached.\<close>

definition pending_ok :: "job_db \<Rightarrow> pending_write \<Rightarrow> bool" where
  "pending_ok db w \<longleftrightarrow> id_taken (pw_job w) db \<and> pw_from w \<in> ev_toStatus ` set (events_of (pw_job w) db)"

definition extends :: "job_db \<Rightarrow> job_db \<Rightarrow> bool" where
  "extends db db' \<longleftrightarrow> set (map j_id (db_jobs db)) \<subseteq> set (map j_id (db_jobs db')) \<and> set (db_events db) \<subseteq> set (db_events db')"

lemma pending_ok_extends: "pending_ok db w \<Longrightarrow> extends db db' \<Longrightarrow> pending_ok db' w"
  by (auto simp: pending_ok_def extends_def id_taken_def events_of_def)

lemma extends_update:
  "db_jobs db' = update_where P f (db_jobs db) \<Longrightarrow> (\<And>j. j_id (f j) = j_id j) \<Longrightarrow> set (db_events db) \<subseteq> set (db_events db') \<Longrightarrow> extends db db'"
  by (simp add: extends_def del: set_map)

definition store_inv :: "job_db \<Rightarrow> pending_write list \<Rightarrow> str set \<Rightarrow> bool" where
  "store_inv db ps dis \<longleftrightarrow> job_inv db \<and> log_inv dis db \<and> (\<forall>w \<in> set ps. pending_ok db w)"

lemma store_inv_step:
  "store_inv db ps dis \<Longrightarrow> job_inv db' \<Longrightarrow> log_inv dis' db' \<Longrightarrow> extends db db' \<Longrightarrow> set qs \<subseteq> set ps \<Longrightarrow> store_inv db' qs dis'"
  by (auto simp: store_inv_def intro: pending_ok_extends)

lemma status_reached: "log_inv dis db \<Longrightarrow> j \<in> set (db_jobs db) \<Longrightarrow> j_status j \<in> ev_toStatus ` set (events_of (j_id j) db)"
  by (auto simp: log_inv_def log_fits_def dest: last_reached_member)

lemma read_status_ok:
  assumes "store_inv db ps dis" and "read_status jid new allow db = Some from"
  shows "pending_ok db \<lparr>pw_job = jid, pw_from = from, pw_new = new, pw_update = su\<rparr>"
proof -
  from assms(2) obtain j where "get_job jid db = Some j" "from = j_status j"
    by (auto simp: read_status_def split: option.splits if_splits)
  with assms(1) status_reached [of dis db j] show ?thesis
    by (auto simp: store_inv_def pending_ok_def id_taken_def dest!: get_job_Some)
qed

lemma get_job_the: "ids_distinct db \<Longrightarrow> j \<in> set (db_jobs db) \<Longrightarrow> get_job (j_id j) db = Some j"
proof -
  assume d: "ids_distinct db" and j: "j \<in> set (db_jobs db)"
  then have "get_job (j_id j) db \<noteq> None" by (simp add: get_job_None id_taken_def)
  then show ?thesis using same_id [OF d j] by (auto dest: get_job_Some)
qed

lemma write_status_log:
  assumes inv: "store_inv db ps dis" and ok: "pending_ok db w"
  shows "log_inv (if map_option j_status (get_job (pw_job w) db) = Some (pw_from w) then dis else insert (pw_job w) dis)
           (write_status (pw_job w) (pw_from w) (pw_new w) su now db)"
proof (rule log_inv_moves [where P = "\<lambda>j. j_id j = pw_job w" and f = "set_clauses now (pw_new w) su"
      and old = "pw_from w" and new = "pw_new w" and now = now])
  have ids: "ids_distinct db" using inv by (simp add: store_inv_def job_inv_def)
  show "ids_distinct db" by (rule ids)
  from ok obtain j where j: "j \<in> set (db_jobs db)" "j_id j = pw_job w" by (auto simp: pending_ok_def id_taken_def)
  have "filter (\<lambda>i. j_id i = pw_job w) (db_jobs db) = [j]"
    using distinct_filter_id [OF ids [unfolded ids_distinct_def] j(1)] j(2) by simp
  then show "db_events (write_status (pw_job w) (pw_from w) (pw_new w) su now db) =
      db_events db @ map (\<lambda>r. status_change (j_id r) (Some (pw_from w)) (pw_new w) now) (filter (\<lambda>j. j_id j = pw_job w) (db_jobs db))"
    using j(2) by (simp add: write_status_def)
  fix i assume "i \<in> set (db_jobs db)" "j_id i = pw_job w"
  with get_job_the [OF ids this(1)] ok show "pw_from w \<in> ev_toStatus ` set (events_of (j_id i) db)"
    and "j_id i \<in> (if map_option j_status (get_job (pw_job w) db) = Some (pw_from w) then dis else insert (pw_job w) dis) \<or> j_status i = pw_from w"
    by (auto simp: pending_ok_def)
qed (use inv in \<open>auto simp: write_status_def store_inv_def\<close>)

lemma insert_child_log:
  assumes "job_inv db" and inv: "log_inv dis db"
  shows "log_inv (if id_taken cid db then insert cid dis else dis) (insert_child cid now slug prompt params parent db)"
proof (cases "id_taken cid db")
  case False
  with log_inv_insert [OF inv, of "child_job_row cid now slug prompt params parent" now] show ?thesis
    by (simp add: insert_child_def child_job_row_def)
next
  case True
  have "log_fits (insert cid dis) j (events_of (j_id j) (insert_child cid now slug prompt params parent db))" if j: "j \<in> set (db_jobs db)" for j
  proof -
    have fits: "log_fits (insert cid dis) j (events_of (j_id j) db)" using inv j by (auto simp: log_inv_def intro: log_fits_more)
    show ?thesis
    proof (cases "j_id j = cid")
      case True
      with log_fits_created_again [OF fits, of "''RUNNING''" now] show ?thesis by (simp add: events_of_def insert_child_def)
    qed (use fits in \<open>simp add: events_of_def insert_child_def\<close>)
  qed
  with True inv show ?thesis by (auto simp: log_inv_def insert_child_def id_taken_def)
qed

lemma moves_store_inv:
  assumes inv: "store_inv db ps dis" and "job_inv db'"
    and jobs: "db_jobs db' = update_where P f (db_jobs db)"
    and same: "\<And>j. j_id (f j) = j_id j" and new: "\<And>j. j_status (f j) = new"
    and events: "db_events db' = db_events db @ map (\<lambda>r. status_change (j_id r) (Some old) new now) (filter P (db_jobs db))"
    and old: "\<And>j. j \<in> set (db_jobs db) \<Longrightarrow> P j \<Longrightarrow> j_status j = old"
  shows "store_inv db' ps dis"
proof -
  have log: "log_inv dis db" and ids: "ids_distinct db" using inv by (simp_all add: store_inv_def job_inv_def)
  have "log_inv dis db'"
    by (rule log_inv_moves [OF ids log subset_refl jobs same new events]) (use old status_reached [OF log] in \<open>auto, metis\<close>)
  moreover have "extends db db'" using jobs same by (rule extends_update) (simp add: events)
  ultimately show ?thesis using store_inv_step [OF inv assms(2)] by blast
qed

lemma claim_store_inv:
  assumes inv: "store_inv db ps dis"
  shows "store_inv (snd (claim_job_by_id jid now db)) ps dis"
proof (rule moves_store_inv [OF inv _ claim_job_by_id_jobs, where old = "''QUEUED''" and new = "''RUNNING''" and now = now])
  let ?P = "\<lambda>j. j_id j = jid \<and> j_status j = ''QUEUED''"
  have ids: "ids_distinct db" using inv by (simp add: store_inv_def job_inv_def)
  show "db_events (snd (claim_job_by_id jid now db)) =
      db_events db @ map (\<lambda>r. status_change (j_id r) (Some ''QUEUED'') ''RUNNING'' now) (filter ?P (db_jobs db))"
  proof (cases "filter ?P (db_jobs db)")
    case (Cons j js)
    then have "j \<in> set (filter ?P (db_jobs db))" by simp
    then have j: "j \<in> set (db_jobs db)" "?P j" by auto
    have "filter ?P (db_jobs db) = filter (\<lambda>i. j_status i = ''QUEUED'') (filter (\<lambda>i. j_id i = jid) (db_jobs db))"
      by (simp add: conj_commute)
    also have "\<dots> = [j]" using distinct_filter_id [OF ids [unfolded ids_distinct_def] j(1)] j(2) by simp
    finally show ?thesis using j(2) by (simp add: claim_job_by_id_def Let_def)
  qed (simp add: claim_job_by_id_def)
qed (use inv in \<open>auto simp: store_inv_def intro: claim_job_by_id_inv\<close>)

lemma claim_batch_store_inv:
  assumes inv: "store_inv db ps dis" and run: "claim_queued_jobs locked limit now db = Inr (rows, db')"
  shows "store_inv db' ps dis"
proof (rule moves_store_inv [OF inv _ conjunct1 [OF claim_queued_jobs_Inr [OF run]], where old = "''QUEUED''" and new = "''RUNNING''" and now = now])
  have ids: "ids_distinct db" using inv by (simp add: store_inv_def job_inv_def)
  show "job_inv db'" using inv run by (auto simp: store_inv_def intro: claim_queued_jobs_inv)
  show "j_status j = ''QUEUED''" if "j \<in> set (db_jobs db)" "j_id j \<in> set (claimed_ids locked (nat limit) db)" for j
    using claimed_ids_queued [OF ids that] .
qed (use run in \<open>auto simp: claim_queued_jobs_def guardE_Inr Let_def comp_def\<close>)

lemma expire_store_inv:
  assumes inv: "store_inv db ps dis"
  shows "store_inv (snd (expire_stale_running_jobs minutes now db)) ps dis"
proof (rule moves_store_inv [OF inv _ expire_jobs, where old = "''RUNNING''" and new = "''EXPIRED''" and now = now])
  show "job_inv (snd (expire_stale_running_jobs minutes now db))" using inv by (simp add: store_inv_def expire_stale_running_jobs_inv)
  show "j_status j = ''RUNNING''" if "stale minutes now j" for j using that by (simp add: stale_def)
qed (simp_all add: expire_stale_running_jobs_def Let_def)

lemma overlapping_inv: "overlapping db ps dis \<Longrightarrow> store_inv db ps dis"
proof (induction rule: overlapping.induct)
  case start
  then show ?case by (simp add: store_inv_def log_inv_def) (simp add: empty_db_def)
next
  case (reads db ps dis jid new allow old su)
  then show ?case using read_status_ok [of db ps dis jid new allow old su] by (simp add: store_inv_def)
next
  case (writes db ps w qs dis now)
  have "pending_ok db w" using writes.IH by (simp add: store_inv_def)
  from write_status_log [OF writes.IH this]
  have "log_inv (if map_option j_status (get_job (pw_job w) db) = Some (pw_from w) then dis else insert (pw_job w) dis)
    (write_status (pw_job w) (pw_from w) (pw_new w) (pw_update w) now db)" .
  moreover have "job_inv (write_status (pw_job w) (pw_from w) (pw_new w) (pw_update w) now db)"
    using writes.IH by (simp add: store_inv_def write_status_inv)
  moreover have "extends db (write_status (pw_job w) (pw_from w) (pw_new w) (pw_update w) now db)"
    by (rule extends_update [where P = "\<lambda>j. j_id j = pw_job w" and f = "set_clauses now (pw_new w) (pw_update w)"])
      (auto simp: write_status_def)
  ultimately show ?case by (intro store_inv_step [OF writes.IH]) auto
next
  case (fails db ps w qs dis)
  then show ?case by (simp add: store_inv_def)
next
  case (create db ps dis jid now rq r db')
  have "log_inv dis db'" "extends db db'"
    using create log_inv_insert [of dis db "new_job_row jid now rq" now]
    by (auto simp: store_inv_def insert_job_def guardE_Inr new_job_row_def extends_def)
  moreover have "job_inv db'" using create by (auto simp: store_inv_def intro: insert_job_inv)
  ultimately show ?case by (intro store_inv_step [OF create.IH]) auto
next
  case (child db ps dis cid now slug prompt params parent)
  have "extends db (insert_child cid now slug prompt params parent db)" by (auto simp: extends_def insert_child_def)
  moreover have "job_inv db" "log_inv dis db" using child.IH by (simp_all add: store_inv_def)
  ultimately show ?case
    by (intro store_inv_step [OF child.IH insert_child_inv insert_child_log _ subset_refl])
next
  case (beat db ps dis jid now)
  have still: "log_inv dis (snd (heartbeat jid now db))"
    by (rule log_inv_still [where P = "\<lambda>j. j_id j = jid" and f = "\<lambda>j. j\<lparr>j_lastHeartbeatAt := Some now\<rparr>" and db = db])
      (use beat.IH in \<open>simp_all add: store_inv_def heartbeat_def\<close>)
  have "extends db (snd (heartbeat jid now db))"
    by (rule extends_update [where P = "\<lambda>j. j_id j = jid" and f = "\<lambda>j. j\<lparr>j_lastHeartbeatAt := Some now\<rparr>"]) (simp_all add: heartbeat_def)
  moreover have "job_inv (snd (heartbeat jid now db))" using beat.IH by (simp add: store_inv_def heartbeat_inv)
  ultimately show ?case using still by (intro store_inv_step [OF beat.IH]) simp_all
next
  case (claim db ps dis jid now)
  from claim.IH show ?case by (rule claim_store_inv)
next
  case (claim_batch db ps dis locked limit now rows db')
  from claim_batch.IH claim_batch.hyps(2) show ?case by (rule claim_batch_store_inv)
next
  case (expire db ps dis minutes now)
  from expire.IH show ?case by (rule expire_store_inv)
qed

text \<open>
  C3. The event log accounts for every job, whatever calls overlap. In every state that any interleaving of reads and writes reaches
  from empty tables, ids are unique; a row has the status its log's last move reached; and each move left a status the log had reached
  before. A log without gaps, each event leaving from the status the one before reached, is what a job has unless a write met another
  status than its call had read, or its id was given to a second child.
\<close>

theorem event_log_reconstructs_status:
  assumes "overlapping db ps disturbed" and "j \<in> set (db_jobs db)"
  shows "distinct (map j_id (db_jobs db)) \<and>
         last_reached (events_of (j_id j) db) = Some (j_status j) \<and> accounted [] (events_of (j_id j) db) \<and>
         (j_id j \<in> disturbed \<or> follows None (events_of (j_id j) db) = Some (Some (j_status j)))"
  using overlapping_inv [OF assms(1)] assms(2)
  by (auto simp: store_inv_def job_inv_def ids_distinct_def log_inv_def log_fits_def)

section \<open>What a call may do to a row\<close>

text \<open>Ownership and contents of a row are never rewritten; a status changes to something other than
  \<open>QUEUED\<close>, and out of a terminal status only by an override.\<close>

definition job_moves :: "bool \<Rightarrow> job \<Rightarrow> job \<Rightarrow> bool" where
  "job_moves ov j j' \<longleftrightarrow>
     j_tenantId j' = j_tenantId j \<and> j_ownerPrincipalId j' = j_ownerPrincipalId j \<and>
     j_agentSlug j' = j_agentSlug j \<and> j_prompt j' = j_prompt j \<and> j_params j' = j_params j \<and>
     j_escrowId j' = j_escrowId j \<and> j_webhookUrl j' = j_webhookUrl j \<and>
     (j_status j' \<noteq> j_status j \<longrightarrow>
        j_status j' \<noteq> ''QUEUED'' \<and> (j_status j \<in> set TERMINAL_JOB_STATUSES \<longrightarrow> ov))"

lemma job_moves_refl [simp]: "job_moves ov j j"
  by (simp add: job_moves_def)

lemma get_job_update:
  assumes "db_jobs db' = update_where P f (db_jobs db)" and "\<And>j. j_id (f j) = j_id j"
  shows "get_job jid db' = map_option (\<lambda>j. if P j then f j else j) (get_job jid db)"
proof -
  have "find (\<lambda>j. j_id j = jid) (update_where P f js)
      = map_option (\<lambda>j. if P j then f j else j) (find (\<lambda>j. j_id j = jid) js)" for js
    using assms(2) by (induction js) (auto simp: update_where_def)
  with assms(1) show ?thesis by (simp add: get_job_def)
qed

lemma get_job_append: "get_job jid db = Some j \<Longrightarrow> db_jobs db' = db_jobs db @ js \<Longrightarrow> get_job jid db' = Some j"
proof -
  have "find Q xs = Some y \<Longrightarrow> find Q (xs @ ys) = Some y" for Q and xs ys :: "job list" and y
    by (induction xs) (auto split: if_splits)
  then show "get_job jid db = Some j \<Longrightarrow> db_jobs db' = db_jobs db @ js \<Longrightarrow> ?thesis" by (auto simp: get_job_def)
qed

lemma create_job_jobs: "create_job jid now rq db = Inr (r, db') \<Longrightarrow> \<exists>js. db_jobs db' = db_jobs db @ js"
  by (auto simp: create_job_def insert_job_def guardE_Inr split: option.splits)

lemma create_child_job_jobs:
  "\<exists>js. db_jobs (snd (create_child_job cid now slug prompt pid params db)) = db_jobs db @ js"
  by (simp add: create_child_job_def insert_child_def Let_def)

lemma moves_row_functions:
  "j_status j = ''QUEUED'' \<Longrightarrow> job_moves ov j (claim_row now j)"
  "stale minutes now j \<Longrightarrow> job_moves ov j (expire_row minutes now j)"
  "new \<noteq> ''QUEUED'' \<Longrightarrow> \<not> transition_refused (j_status j) new allow \<Longrightarrow> (allow \<longrightarrow> ov) \<Longrightarrow>
     job_moves ov j (set_clauses now new su j)"
  "job_moves ov j (j\<lparr>j_lastHeartbeatAt := t\<rparr>)"
  by (auto simp: job_moves_def claim_row_def expire_row_def stale_def set_clauses_def transition_refused_def
      TERMINAL_JOB_STATUSES_def)

lemma get_job_moved:
  assumes "get_job jid db = Some j" and "db_jobs db' = update_where P f (db_jobs db)" and "\<And>j. j_id (f j) = j_id j"
    and "P j \<Longrightarrow> job_moves ov j (f j)"
  shows "\<exists>j'. get_job jid db' = Some j' \<and> job_moves ov j j'"
  using assms get_job_update [OF assms(2,3), of jid] by auto

lemma job_step_moves:
  assumes "job_step ov db db'" and "job_inv db" and "get_job jid db = Some j"
  shows "\<exists>j'. get_job jid db' = Some j' \<and> job_moves ov j j'"
  using assms
proof (induction rule: job_step.induct)
  case (create jid' now rq db r db')
  from create_job_jobs [OF create(1)] obtain js where "db_jobs db' = db_jobs db @ js" by blast
  with create.prems show ?case by (auto dest: get_job_append)
next
  case (child db cid now slug prompt pid params)
  obtain js where "db_jobs (snd (create_child_job cid now slug prompt pid params db)) = db_jobs db @ js"
    using create_child_job_jobs by blast
  with child.prems show ?case by (auto dest: get_job_append)
next
  case (update new allow db jid' su now)
  show ?case
  proof (cases "get_job jid' db")
    case (Some i)
    show ?thesis
    proof (cases "transition_refused (j_status i) new allow")
      case False
      have "j_id j = jid' \<Longrightarrow> i = j"
        using Some update.prems get_job_Some same_id by (metis job_inv_def)
      with False update Some show ?thesis
        by (intro get_job_moved [where P = "\<lambda>j. j_id j = jid'" and f = "set_clauses now new su"])
          (auto simp: update_job_status_eq write_status_def intro: moves_row_functions)
    qed (use Some update.prems in \<open>simp add: update_job_status_eq\<close>)
  qed (use update.prems in \<open>simp add: update_job_status_eq\<close>)
next
  case (beat db jid' now)
  then show ?case
    by (intro get_job_moved [where P = "\<lambda>j. j_id j = jid'" and f = "\<lambda>j. j\<lparr>j_lastHeartbeatAt := Some now\<rparr>"])
      (auto simp: heartbeat_def intro: moves_row_functions)
next
  case (claim db jid' now)
  then show ?case
    by (intro get_job_moved [OF _ claim_job_by_id_jobs]) (auto intro: moves_row_functions)
next
  case (claim_batch locked limit now db rows db')
  then show ?case
    by (intro get_job_moved [where P = "\<lambda>j. j_id j \<in> set (claimed_ids locked (nat limit) db)" and f = "claim_row now"])
      (auto simp: job_inv_def dest: claim_queued_jobs_Inr claimed_ids_queued get_job_Some intro!: moves_row_functions)
next
  case (expire db minutes now)
  then show ?case
    by (intro get_job_moved [OF _ expire_jobs]) (auto intro: moves_row_functions)
qed

lemma job_steps_rule:
  assumes "(job_step ov)\<^sup>*\<^sup>* db db'" and "job_inv db" and "get_job jid db = Some j" and "Q j"
    and "\<And>j j'. Q j \<Longrightarrow> job_moves ov j j' \<Longrightarrow> Q j'"
  shows "\<exists>j'. get_job jid db' = Some j' \<and> Q j'"
  using assms
proof (induction rule: rtranclp_induct)
  case (step db1 db2)
  then show ?case by (metis job_step_moves job_steps_inv)
qed auto

text \<open>
  C35. A settled job stays settled. From any state the calls reach, a job in a terminal status keeps that
  status through every further sequence of calls that does not pass the override: neither the worker
  that finishes late, nor the reaper, nor a claim moves it.
\<close>

theorem terminal_status_absorbing:
  assumes "(job_step True)\<^sup>*\<^sup>* empty_db db" and "get_job jid db = Some j"
    and "j_status j \<in> set TERMINAL_JOB_STATUSES" and "(job_step False)\<^sup>*\<^sup>* db db'"
  shows "\<exists>j'. get_job jid db' = Some j' \<and> j_status j' = j_status j"
proof (rule job_steps_rule [OF assms(4) job_steps_inv [OF assms(1) job_inv_empty] assms(2)])
  fix i i'
  assume "j_status i = j_status j" and "job_moves False i i'"
  with assms(3) show "j_status i' = j_status j" by (auto simp: job_moves_def)
qed simp

lemma get_job_taken: "i \<in> set (db_jobs db) \<Longrightarrow> \<exists>j. get_job (j_id i) db = Some j"
  using get_job_None [of "j_id i" db] by (auto simp: id_taken_def)

lemma claim_by_id_leaves_queue:
  assumes "claim_job_by_id jid now db = (Some r, db1)"
  shows "\<exists>j. get_job jid db1 = Some j \<and> j_status j \<noteq> ''QUEUED''"
proof -
  from assms have "filter (\<lambda>j. j_id j = jid \<and> j_status j = ''QUEUED'') (db_jobs db) \<noteq> []"
    by (auto simp: claim_job_by_id_def Let_def split: list.splits)
  then obtain i where "i \<in> set (db_jobs db)" "j_id i = jid" by (auto simp: filter_empty_conv)
  then obtain j where j: "get_job jid db = Some j" using get_job_taken by blast
  have "db_jobs db1 = update_where (\<lambda>j. j_id j = jid \<and> j_status j = ''QUEUED'') (claim_row now) (db_jobs db)"
    using claim_job_by_id_jobs [of jid now db] assms by simp
  from get_job_update [OF this, of jid] j show ?thesis by (auto dest: get_job_Some)
qed

lemma claim_batch_leaves_queue:
  assumes "claim_queued_jobs locked limit now db = Inr (rows, db1)" and "r \<in> set rows"
  shows "\<exists>j. get_job (j_id r) db = Some j \<and> get_job (j_id r) db1 = Some (claim_row now j)"
proof -
  note jobs = claim_queued_jobs_Inr [OF assms(1)]
  with assms(2) obtain i where i: "i \<in> set (db_jobs db)" "j_id r \<in> set (claimed_ids locked (nat limit) db)"
    and "j_id i = j_id r" by auto
  then obtain j where j: "get_job (j_id r) db = Some j" using get_job_taken [OF i(1)] by auto
  with get_job_update [OF conjunct1 [OF jobs], of "j_id r"] i(2) show ?thesis
    by (auto dest: get_job_Some)
qed

lemma not_queued_not_claimed:
  assumes inv: "job_inv db" and j: "get_job jid db = Some j" "j_status j \<noteq> ''QUEUED''"
  shows "fst (claim_job_by_id jid now db) = None"
    and "claim_queued_jobs locked limit now db = Inr (rows, db') \<Longrightarrow> jid \<notin> j_id ` set rows"
proof -
  have only: "i = j" if "i \<in> set (db_jobs db)" "j_id i = jid" for i
    using inv get_job_Some [OF j(1)] that by (auto simp: job_inv_def intro: same_id)
  then have "filter (\<lambda>j. j_id j = jid \<and> j_status j = ''QUEUED'') (db_jobs db) = []"
    using j(2) by (auto simp: filter_empty_conv)
  then show "fst (claim_job_by_id jid now db) = None" by (simp add: claim_job_by_id_def)
  show "jid \<notin> j_id ` set rows" if "claim_queued_jobs locked limit now db = Inr (rows, db')"
    using claim_queued_jobs_Inr [OF that] only j(2) inv by (auto simp: job_inv_def dest: claimed_ids_queued)
qed

text \<open>
  A job is handed out at most once. After a claim, by id or from the queue, returned a row, no later
  claim of either kind returns it again, whatever calls come in between.
\<close>

theorem claimed_at_most_once:
  assumes "(job_step True)\<^sup>*\<^sup>* empty_db db"
    and "claim_job_by_id jid now db = (Some r, db1) \<or>
         (claim_queued_jobs locked limit now db = Inr (rows, db1) \<and> r \<in> set rows \<and> j_id r = jid)"
    and "(job_step True)\<^sup>*\<^sup>* db1 db2"
  shows "fst (claim_job_by_id jid now2 db2) = None \<and>
         (claim_queued_jobs locked2 limit2 now2 db2 = Inr (rows2, db3) \<longrightarrow> jid \<notin> j_id ` set rows2)"
proof -
  have inv: "job_inv db" using job_steps_inv [OF assms(1)] by simp
  have step: "job_step True db db1"
    using assms(2) by (metis job_step.claim job_step.claim_batch snd_conv)
  then have inv1: "job_inv db1" using inv by (rule job_step_inv)
  obtain j1 where j1: "get_job jid db1 = Some j1" "j_status j1 \<noteq> ''QUEUED''"
    using assms(2)
  proof
    assume "claim_job_by_id jid now db = (Some r, db1)"
    with claim_by_id_leaves_queue that show ?thesis by blast
  next
    assume "claim_queued_jobs locked limit now db = Inr (rows, db1) \<and> r \<in> set rows \<and> j_id r = jid"
    with claim_batch_leaves_queue [of locked limit now db rows db1 r] that show ?thesis by auto
  qed
  have "\<exists>j2. get_job jid db2 = Some j2 \<and> j_status j2 \<noteq> ''QUEUED''"
    by (rule job_steps_rule [OF assms(3) inv1 j1(1)]) (use j1(2) in \<open>auto simp: job_moves_def\<close>)
  then obtain j2 where "get_job jid db2 = Some j2" "j_status j2 \<noteq> ''QUEUED''" by blast
  from not_queued_not_claimed [OF job_steps_inv [OF assms(3) inv1] this] show ?thesis by blast
qed

text \<open>
  Delegation keeps the tenant. A child job created under an existing parent carries the parent's tenant
  and owner, and no later call changes them.
\<close>

theorem child_ownership_inherited:
  assumes "(job_step True)\<^sup>*\<^sup>* empty_db db" and "get_job pid db = Some parent" and "\<not> id_taken cid db"
    and "(job_step True)\<^sup>*\<^sup>* (snd (create_child_job cid now slug prompt pid params db)) db'"
  shows "\<exists>c. get_job cid db' = Some c \<and> j_tenantId c = j_tenantId parent \<and>
             j_ownerPrincipalId c = j_ownerPrincipalId parent \<and>
             map_of (j_params c) ''_parent_job_id'' = Some (PStr pid)"
proof -
  let ?db = "snd (create_child_job cid now slug prompt pid params db)"
  let ?c = "child_job_row cid now slug prompt
      (dict_set (case params of None \<Rightarrow> [] | Some p \<Rightarrow> p) ''_parent_job_id'' (PStr pid)) (Some parent)"
  have inv: "job_inv ?db"
    using job_steps_inv [OF assms(1)] by (simp add: create_child_job_inv)
  have none: "get_job cid db = None" using assms(3) by (simp add: get_job_None)
  have "find Q xs = None \<Longrightarrow> find Q (xs @ ys) = find Q ys" for Q and xs ys :: "job list"
    by (induction xs) (auto split: if_splits)
  with none have "get_job cid ?db = Some ?c"
    using assms(2,3) by (simp add: create_child_job_def insert_child_def Let_def get_job_def child_job_row_def)
  from assms(4) inv this show ?thesis
    by (rule job_steps_rule) (simp_all add: job_moves_def child_job_row_def)
qed

text \<open>
  The reaper spares the living. A row a batch claim returned is still \<open>RUNNING\<close> after a reaper pass that runs
  no later than the grace period after the claim, although no heartbeat of its own came yet.
\<close>

theorem claimed_job_has_grace:
  assumes "claim_queued_jobs locked limit now db = Inr (rows, db1)" and "r \<in> set rows"
    and "now' \<le> now + minutes * MINUTE"
  shows "\<exists>j. get_job (j_id r) (snd (expire_stale_running_jobs minutes now' db1)) = Some j \<and> j_status j = ''RUNNING''"
proof -
  obtain i where "get_job (j_id r) db1 = Some (claim_row now i)"
    using claim_batch_leaves_queue [OF assms(1,2)] by blast
  moreover have "\<not> stale minutes now' (claim_row now i)"
    using assms(3) by (simp add: stale_def last_sign_of_life_def or_else_def)
  ultimately show ?thesis
    by (simp add: get_job_update [OF expire_jobs])
qed

text \<open>
  Submitting twice under one idempotency key creates one job: the second call changes nothing and answers
  with the id of the first, with the status it has reached by then.
\<close>

theorem create_job_idempotent:
  assumes "create_job jid now rq db = Inr (r, db1)"
    and "rq_idempotency_key rq = Some key" and "key \<noteq> []" and "rq_idempotency_key rq2 = Some key"
  shows "\<exists>r2. create_job jid2 now2 rq2 db1 = Inr (r2, db1) \<and> cr_id r2 = cr_id r \<and> cr_status r2 = cr_status r \<and>
              cr_idempotent_hit r2"
proof -
  have none: "find Q xs = None \<Longrightarrow> find Q (xs @ ys) = find Q ys" for Q and xs ys :: "job list"
    by (induction xs) (auto split: if_splits)
  show ?thesis
    using assms
    by (auto simp: create_job_def insert_job_def existing_job_def guardE_Inr none new_job_row_def split: option.splits)
qed

section \<open>What the log does not promise\<close>

text \<open>A race the guard on terminal statuses does not close: the worker reads \<open>RUNNING\<close>, the reaper expires
  the job, the worker writes. The row ends \<open>DELIVERED\<close>, out of a terminal status, without an override.\<close>

definition sample_request :: job_request where
  "sample_request = \<lparr>rq_agent_slug = ''a'', rq_prompt = ''p'', rq_params = None, rq_buyer_wallet_id = None,
     rq_buyer_client_id = None, rq_price_tier_cents = None, rq_idempotency_key = Some ''k'', rq_webhook_url = None,
     rq_webhook_secret = None, rq_escrow_id = None, rq_tenant_id = Some ''e4l'', rq_owner_principal_id = Some ''user:1''\<rparr>"

definition queued_db :: job_db where
  "queued_db = snd (projr (create_job ''j'' 0 sample_request empty_db))"

definition race_db :: job_db where
  "race_db = snd (claim_job_by_id ''j'' 10 queued_db)"

definition expired_db :: job_db where
  "expired_db = snd (expire_stale_running_jobs 5 400000000 race_db)"

lemma terminal_guard_race:
  "map_option j_status (get_job ''j'' race_db) = Some ''RUNNING''"
  "map_option j_status (get_job ''j'' (snd (expire_stale_running_jobs 5 400000000 race_db))) = Some ''EXPIRED''"
  "map_option j_status (get_job ''j'' (write_status ''j'' ''RUNNING'' ''DELIVERED'' plain_update 400000001
     (snd (expire_stale_running_jobs 5 400000000 race_db)))) = Some ''DELIVERED''"
  by code_simp+

text \<open>Creating the same child twice leaves one row, but a second \<open>RUNNING\<close> event without a predecessor, after
  which the log no longer reads.\<close>

lemma create_child_job_not_idempotent:
  "let db = snd (create_child_job ''c'' 1 ''a'' ''p'' ''j'' None race_db);
       db' = snd (create_child_job ''c'' 2 ''a'' ''p'' ''j'' None db)
   in db_jobs db' = db_jobs db \<and> follows None (events_of ''c'' db) = Some (Some ''RUNNING'') \<and>
      follows None (events_of ''c'' db') = None"
  by code_simp

section \<open>A concrete run\<close>

lemma sample_created:
  "create_job ''j'' 0 sample_request empty_db
     = Inr (\<lparr>cr_id = ''j'', cr_status = ''QUEUED'', cr_created_at = Some 0, cr_idempotent_hit = False\<rparr>, queued_db)"
  by code_simp

lemma queued_db_reached: "(job_step ov)\<^sup>*\<^sup>* empty_db queued_db"
  by (rule r_into_rtranclp) (rule job_step.create [OF sample_created])

lemma race_db_reached: "(job_step ov)\<^sup>*\<^sup>* empty_db race_db"
  using queued_db_reached job_step.claim unfolding race_db_def by (rule rtranclp.rtrancl_into_rtrancl)

lemma expired_db_reached: "(job_step ov)\<^sup>*\<^sup>* empty_db expired_db"
  using race_db_reached job_step.expire unfolding expired_db_def by (rule rtranclp.rtrancl_into_rtrancl)

definition expired_job :: job where
  "expired_job = the (get_job ''j'' expired_db)"

lemma expired_job_row: "get_job ''j'' expired_db = Some expired_job" "j_status expired_job \<in> set TERMINAL_JOB_STATUSES"
  by code_simp+

text \<open>The worker reads \<open>RUNNING\<close>, the reaper expires the job, the worker writes: the state the race leads to.\<close>

definition late_write :: pending_write where
  "late_write = \<lparr>pw_job = ''j'', pw_from = ''RUNNING'', pw_new = ''DELIVERED'', pw_update = plain_update\<rparr>"

definition raced_db :: job_db where
  "raced_db = write_status ''j'' ''RUNNING'' ''DELIVERED'' plain_update 400000001 expired_db"

lemma raced_db_reached: "overlapping raced_db [] {''j''}" and expired_overlapping: "overlapping expired_db [late_write] {}"
proof -
  have "insert_job ''j'' 0 sample_request empty_db = Inr (\<lparr>cr_id = ''j'', cr_status = ''QUEUED'', cr_created_at = Some 0, cr_idempotent_hit = False\<rparr>, queued_db)"
    by code_simp
  from overlapping.claim [OF overlapping.create [OF overlapping.start this]] have "overlapping race_db [] {}" by (simp add: race_db_def)
  moreover have "read_status ''j'' ''DELIVERED'' False race_db = Some ''RUNNING''" by code_simp
  ultimately have "overlapping race_db ([] @ [late_write]) {}" unfolding late_write_def by (rule overlapping.reads)
  from overlapping.expire [OF this, of 5 400000000] show expired: "overlapping expired_db [late_write] {}" by (simp add: expired_db_def)
  have "map_option j_status (get_job ''j'' expired_db) = Some ''EXPIRED''" by code_simp
  with overlapping.writes [of expired_db "[]" late_write "[]" "{}" 400000001] expired show "overlapping raced_db [] {''j''}"
    by (simp add: late_write_def raced_db_def)
qed

theorem event_log_reconstructs_status_witness:
  "last_reached (events_of ''j'' raced_db) = Some ''DELIVERED'' \<and> accounted [] (events_of ''j'' raced_db) \<and>
   follows None (events_of ''j'' expired_db) = Some (Some ''EXPIRED'')"
proof -
  have "expired_job \<in> set (db_jobs expired_db)" "j_id expired_job = ''j''" "j_status expired_job = ''EXPIRED''"
    using expired_job_row(1) by (auto dest: get_job_Some) code_simp
  with event_log_reconstructs_status [OF expired_overlapping, of expired_job]
  have "follows None (events_of ''j'' expired_db) = Some (Some ''EXPIRED'')" by simp
  moreover have "list_all (\<lambda>j. j_id j = ''j'' \<and> j_status j = ''DELIVERED'') (db_jobs raced_db)" "db_jobs raced_db \<noteq> []" by code_simp+
  then obtain j where "j \<in> set (db_jobs raced_db)" "j_id j = ''j''" "j_status j = ''DELIVERED''"
    by (cases "db_jobs raced_db") auto
  ultimately show ?thesis using event_log_reconstructs_status [OF raced_db_reached, of j] by simp
qed

theorem terminal_status_absorbing_witness:
  "\<exists>j'. get_job ''j'' (snd (update_job_status ''j'' ''DELIVERED'' plain_update False 1 expired_db)) = Some j' \<and>
        j_status j' = j_status expired_job"
  by (rule terminal_status_absorbing [OF expired_db_reached expired_job_row])
    (rule r_into_rtranclp, rule job_step.update, simp_all)

definition claimed_job :: job where
  "claimed_job = the (fst (claim_job_by_id ''j'' 10 queued_db))"

lemma sample_claimed: "claim_job_by_id ''j'' 10 queued_db = (Some claimed_job, race_db)"
  by code_simp

theorem claimed_at_most_once_witness: "fst (claim_job_by_id ''j'' 11 race_db) = None"
  using claimed_at_most_once [OF queued_db_reached disjI1 [OF sample_claimed] rtranclp.rtrancl_refl, of 11 "\<lambda>_. False" 1 "[]" race_db]
  by simp

theorem child_ownership_inherited_witness:
  "\<exists>c. get_job ''c'' (snd (create_child_job ''c'' 20 ''b'' ''q'' ''j'' None expired_db)) = Some c \<and>
       j_tenantId c = j_tenantId expired_job \<and> j_ownerPrincipalId c = j_ownerPrincipalId expired_job \<and>
       map_of (j_params c) ''_parent_job_id'' = Some (PStr ''j'')"
  by (rule child_ownership_inherited [OF expired_db_reached expired_job_row(1) _ rtranclp.rtrancl_refl]) code_simp

lemma sample_batch_claimed: "claim_queued_jobs (\<lambda>_. False) 3 10 queued_db = Inr ([claimed_job], race_db)"
  by code_simp

theorem claimed_job_has_grace_witness:
  "\<exists>j. get_job (j_id claimed_job) (snd (expire_stale_running_jobs 5 300000010 race_db)) = Some j \<and> j_status j = ''RUNNING''"
  by (rule claimed_job_has_grace [OF sample_batch_claimed]) (simp_all add: MINUTE_def)

theorem create_job_idempotent_witness:
  "\<exists>r2. create_job ''j2'' 5 sample_request queued_db = Inr (r2, queued_db) \<and> cr_id r2 = ''j'' \<and>
        cr_status r2 = ''QUEUED'' \<and> cr_idempotent_hit r2"
  using create_job_idempotent [OF sample_created, of "''k''" sample_request "''j2''" 5]
  by (simp add: sample_request_def)

end
