(* ===== verification/Envelope.thy ===== *)
theory Envelope
  imports Prelude
begin

text \<open>
  The truthful-failure envelope of the money-domain tools, \<^verbatim>\<open>tools/_envelope.py\<close>.

  \<open>rid\<close> is the fresh request id and \<open>observed\<close> the formatted clock; \<open>sha256\<close> the hex digest of the UTF-8
  text. A \<open>ValueError\<close> is \<open>Inl ValueError\<close>.
\<close>

section \<open>Tables\<close>

definition CONTRACT_VERSION :: str where
  "CONTRACT_VERSION = ''1.0.0''"

definition RETRYABLE_BY_CODE :: "(str \<times> bool) list" where
  [table_defs]: "RETRYABLE_BY_CODE =
     [(''not_implemented'', False), (''provider_unconfigured'', False), (''upstream_timeout'', True),
      (''validation_failed'', False), (''duplicate_request'', True), (''authorization_missing'', False),
      (''policy_denied'', False)]"

definition ERROR_CODES :: "str list" where
  "ERROR_CODES = map fst RETRYABLE_BY_CODE"

definition BANNED_RESPONSE_KEYS :: "str list" where
  [table_defs]: "BANNED_RESPONSE_KEYS = [''stub'', ''scaffold'', ''note'']"

definition MODES :: "str list" where
  [table_defs]: "MODES = [''READ_ONLY'', ''PROPOSE_ONLY'', ''APPROVAL_REQUIRED'']"

section \<open>Helpers\<close>

definition sha256_hex :: "(str \<Rightarrow> str) \<Rightarrow> pyval \<Rightarrow> str" where
  "sha256_hex sha256 obj = sha256 (case obj of PStr s \<Rightarrow> s | _ \<Rightarrow> canonical_json obj)"

fun strip_banned :: "pyval \<Rightarrow> pyval" where
  "strip_banned (PDict d) =
     PDict (filter (\<lambda>(k, _). k \<notin> set BANNED_RESPONSE_KEYS) (map (\<lambda>(k, v). (k, strip_banned v)) d))"
| "strip_banned (PList vs) = PList (map strip_banned vs)"
| "strip_banned v = v"

definition strip_dict :: "dict \<Rightarrow> dict" where
  "strip_dict d = filter (\<lambda>(k, _). k \<notin> set BANNED_RESPONSE_KEYS) (map (\<lambda>(k, v). (k, strip_banned v)) d)"

definition opt_val :: "('a \<Rightarrow> pyval) \<Rightarrow> 'a option \<Rightarrow> pyval" where
  "opt_val f x = (case x of None \<Rightarrow> PNone | Some y \<Rightarrow> f y)"

definition dict_or_empty :: "dict option \<Rightarrow> dict" where
  "dict_or_empty d = (case d of None \<Rightarrow> [] | Some x \<Rightarrow> x)"

section \<open>Failures\<close>

definition failure :: "str \<Rightarrow> str \<Rightarrow> str \<Rightarrow> str \<Rightarrow> dict option \<Rightarrow> int option \<Rightarrow> py_exc + dict" where
  "failure rid tool code message detail retry_after_ms =
     bindE (optE ValueError (map_of RETRYABLE_BY_CODE code)) (\<lambda>retryable.
     let hint = (if retryable then retry_after_ms else None) in
     Inr (strip_dict
       [(''ok'', PBool False), (''tool'', PStr tool), (''contract_version'', PStr CONTRACT_VERSION),
        (''request_id'', PStr rid),
        (''error'', PDict
           [(''code'', PStr code), (''retryable'', PBool retryable), (''message'', PStr message),
            (''detail'', PDict (dict_or_empty detail)), (''retry_after_ms'', opt_val PInt hint)])]))"

definition not_implemented :: "str \<Rightarrow> str \<Rightarrow> str \<Rightarrow> dict option \<Rightarrow> py_exc + dict" where
  "not_implemented rid tool message detail = failure rid tool ''not_implemented'' message detail None"

definition provider_unconfigured :: "str \<Rightarrow> str \<Rightarrow> str list \<Rightarrow> str \<Rightarrow> dict option \<Rightarrow> py_exc + dict" where
  "provider_unconfigured rid tool missing_keys message detail =
     (let merged = dict_set (dict_or_empty detail) ''missing_keys'' (PList (map PStr (sort missing_keys))) in
      failure rid tool ''provider_unconfigured'' message (Some merged) None)"

definition validation_failed :: "str \<Rightarrow> str \<Rightarrow> pyval list \<Rightarrow> str \<Rightarrow> py_exc + dict" where
  "validation_failed rid tool violations message =
     failure rid tool ''validation_failed'' message (Some [(''violations'', PList violations)]) None"

text \<open>\<open>exception_type\<close> is the exception's class name; its text is not an argument.\<close>

definition from_exception ::
  "str \<Rightarrow> str \<Rightarrow> str \<Rightarrow> str \<Rightarrow> str option \<Rightarrow> dict option \<Rightarrow> int option \<Rightarrow> py_exc + dict" where
  "from_exception rid tool exception_type code message detail retry_after_ms =
     (let merged = dict_set (dict_or_empty detail) ''exception_type'' (PStr exception_type);
          text = (case message of Some m \<Rightarrow> if m = [] then tool @ '' failed with an unhandled internal error.'' else m
                  | None \<Rightarrow> tool @ '' failed with an unhandled internal error.'') in
      failure rid tool code text (Some merged) retry_after_ms)"

section \<open>Successes\<close>

definition success ::
  "str \<Rightarrow> str \<Rightarrow> str \<Rightarrow> pyval \<Rightarrow> pyval \<Rightarrow> str option \<Rightarrow> bool \<Rightarrow> py_exc + dict" where
  "success rid tool mode result evidence idempotency_key duplicate =
     guardE (mode \<in> set MODES) ValueError
    (bindE (as_dict ValueError evidence) (\<lambda>ev.
     guardE (ev \<noteq> []) ValueError
    (bindE (as_dict ValueError result) (\<lambda>res.
     guardE (\<not> (mode = ''APPROVAL_REQUIRED'' \<and> dget ev ''readback_matches'' \<noteq> PBool True)) ValueError
    (Inr (strip_dict
       [(''ok'', PBool True), (''tool'', PStr tool), (''contract_version'', PStr CONTRACT_VERSION),
        (''request_id'', PStr rid), (''mode'', PStr mode), (''idempotency_key'', opt_val PStr idempotency_key),
        (''duplicate'', PBool duplicate), (''result'', PDict res), (''evidence'', PDict ev)]))))))"

definition read_evidence ::
  "str \<Rightarrow> str \<Rightarrow> str \<Rightarrow> int \<Rightarrow> str \<Rightarrow> str option \<Rightarrow> bool option \<Rightarrow> dict" where
  "read_evidence observed source query_fingerprint row_count checksum as_of unverified =
     (let caller = (source = ''caller_supplied'');
          u = (if caller then True else case unverified of None \<Rightarrow> caller | Some b \<Rightarrow> b) in
      [(''source'', PStr source), (''unverified'', PBool u), (''query_fingerprint'', PStr query_fingerprint),
       (''row_count'', PInt row_count), (''checksum'', PStr checksum),
       (''as_of'', PStr (case as_of of None \<Rightarrow> observed | Some t \<Rightarrow> if t = [] then observed else t)),
       (''observed_at'', PStr observed)])"

section \<open>The prohibited-call refusal\<close>

definition PROHIBITION_MESSAGE :: str where
  "PROHIBITION_MESSAGE = ''This operation is permanently prohibited. Automation may prepare; a human pays; automation records.''"

definition prohibited_refusal :: "str \<Rightarrow> str \<Rightarrow> str \<Rightarrow> str option \<Rightarrow> py_exc + dict" where
  "prohibited_refusal rid tool grp agent_slug =
     failure rid tool ''policy_denied'' PROHIBITION_MESSAGE
       (Some [(''risk_class'', PStr ''prohibited''), (''agent_slug'', opt_val PStr agent_slug),
              (''prohibition_group'', PStr grp),
              (''remediation'', PStr ''Escalate to a named human approver. This decision is not overridable by configuration.'')])
       None"

section \<open>No banned key reaches a caller\<close>

fun banned_free :: "pyval \<Rightarrow> bool" where
  "banned_free (PDict d) \<longleftrightarrow>
     list_all (\<lambda>b. b) (map (\<lambda>(k, v). k \<notin> set BANNED_RESPONSE_KEYS \<and> banned_free v) d)"
| "banned_free (PList vs) \<longleftrightarrow> list_all (\<lambda>b. b) (map banned_free vs)"
| "banned_free v \<longleftrightarrow> True"

lemma strip_banned_free: "banned_free (strip_banned v)"
  by (induction v rule: strip_banned.induct) (auto simp: list_all_iff)

lemma strip_banned_PDict: "strip_banned (PDict d) = PDict (strip_dict d)"
  by (simp add: strip_dict_def)

lemma strip_dict_free: "banned_free (PDict (strip_dict d))"
  using strip_banned_free [of "PDict d"] by (simp only: strip_banned_PDict)

lemma banned_free_strip: "banned_free v \<Longrightarrow> strip_banned v = v"
proof (induction v rule: banned_free.induct)
  case (1 d)
  then have "map (\<lambda>(k, v). (k, strip_banned v)) d = d"
    by (intro map_idI) (auto simp: list_all_iff)
  moreover have "filter (\<lambda>(k, _). k \<notin> set BANNED_RESPONSE_KEYS) d = d"
    using 1(2) by (auto simp: list_all_iff filter_id_conv)
  ultimately show ?case by simp
qed (auto simp: list_all_iff map_idI)

lemma map_of_strip_dict:
  "k \<notin> set BANNED_RESPONSE_KEYS \<Longrightarrow> map_of (strip_dict d) k = map_option strip_banned (map_of d k)"
  by (induction d) (auto simp: strip_dict_def)

lemma failure_Inr:
  "failure rid tool code message detail hint = Inr env \<longleftrightarrow>
     (\<exists>retryable. map_of RETRYABLE_BY_CODE code = Some retryable \<and>
        env = strip_dict
          [(''ok'', PBool False), (''tool'', PStr tool), (''contract_version'', PStr CONTRACT_VERSION),
           (''request_id'', PStr rid),
           (''error'', PDict
              [(''code'', PStr code), (''retryable'', PBool retryable), (''message'', PStr message),
               (''detail'', PDict (dict_or_empty detail)),
               (''retry_after_ms'', opt_val PInt (if retryable then hint else None))])])"
  by (auto simp: failure_def call_Inr Let_def)

text \<open>The shape an envelope promises: \<open>ok\<close> decides which of \<open>result\<close> and \<open>error\<close> is there, nothing banned
  at any depth, and \<open>retryable\<close> is the table's answer for the code.\<close>

definition truthful :: "dict \<Rightarrow> bool" where
  "truthful env \<longleftrightarrow>
     banned_free (PDict env) \<and>
     (case map_of env ''ok'' of
        Some (PBool True) \<Rightarrow> map_of env ''error'' = None \<and> map_of env ''result'' \<noteq> None \<and> map_of env ''evidence'' \<noteq> None
      | Some (PBool False) \<Rightarrow>
          map_of env ''result'' = None \<and>
          (case map_of env ''error'' of
             Some (PDict err) \<Rightarrow>
               (case map_of err ''code'' of
                  Some (PStr code) \<Rightarrow>
                    map_of err ''retryable'' = map_option PBool (map_of RETRYABLE_BY_CODE code) \<and>
                    (map_of err ''retryable'' = Some (PBool False) \<longrightarrow> map_of err ''retry_after_ms'' = Some PNone)
                | _ \<Rightarrow> False)
           | _ \<Rightarrow> False)
      | _ \<Rightarrow> False)"

text \<open>
  Every failure envelope is truthful: \<open>ok\<close> is false, an \<open>error\<close> and no \<open>result\<close> is there, no banned key at
  any depth, the retry flag is the table's for the code, and no retry hint goes with a code that is not
  retryable.
\<close>

theorem failure_truthful:
  assumes "failure rid tool code message detail hint = Inr env"
  shows "truthful env"
  using assms strip_dict_free
  by (auto simp: failure_Inr truthful_def map_of_strip_dict BANNED_RESPONSE_KEYS_def strip_banned_PDict
      opt_val_def simp del: strip_banned.simps(1) banned_free.simps(1))

text \<open>
  Every success envelope is truthful, comes from a known mode and a non-empty evidence object, and, for a
  tool that writes, only after a readback that matched.
\<close>

theorem success_truthful:
  assumes "success rid tool mode result evidence key dup = Inr env"
  shows "truthful env \<and> mode \<in> set MODES \<and>
     (\<exists>ev. evidence = PDict ev \<and> ev \<noteq> [] \<and>
        (mode = ''APPROVAL_REQUIRED'' \<longrightarrow> dget ev ''readback_matches'' = PBool True))"
  using assms strip_dict_free
  by (auto simp: success_def call_Inr truthful_def map_of_strip_dict BANNED_RESPONSE_KEYS_def strip_banned_PDict
      simp del: strip_banned.simps(1) banned_free.simps(1))

text \<open>The evidence check precedes the stripping, so evidence made of banned keys alone passes it and reaches
  the caller empty.\<close>

lemma success_with_empty_evidence:
  "map_option (\<lambda>env. (dget env ''ok'', dget env ''evidence''))
     (case success ''r'' ''t'' ''READ_ONLY'' (PDict []) (PDict [(''note'', PStr ''x'')]) None False of Inl _ \<Rightarrow> None | Inr e \<Rightarrow> Some e)
   = Some (PBool True, PDict [])"
  by code_simp

theorem failure_truthful_witness:
  "truthful (projr (prohibited_refusal ''r'' ''pay'' ''A'' None))"
  by (rule failure_truthful [of "''r''" "''pay''" "''policy_denied''" PROHIBITION_MESSAGE _ None])
    (auto simp: prohibited_refusal_def failure_def RETRYABLE_BY_CODE_def Let_def)

theorem success_truthful_witness:
  "truthful (projr (success ''r'' ''t'' ''APPROVAL_REQUIRED'' (PDict [(''note'', PStr ''x'')])
     (PDict [(''readback_matches'', PBool True)]) None False))"
proof -
  let ?s = "success ''r'' ''t'' ''APPROVAL_REQUIRED'' (PDict [(''note'', PStr ''x'')])
     (PDict [(''readback_matches'', PBool True)]) None False"
  have "?s = Inr (projr ?s)" by code_simp
  from success_truthful [OF this] show ?thesis by blast
qed

end
