(* ===== verification/Escrow.thy ===== *)
theory Escrow
  imports Envelope Pg_Store
begin

text \<open>
  Escrow containment, \<^verbatim>\<open>escrow_guard.py\<close>, and the client it contains, \<^verbatim>\<open>escrow_client.py\<close>.

  A call of the payments API is its request and the outcome the network gives: a response with
  its status, text and parsed body (\<open>None\<close> when it is not JSON, which raises), or an exception with its
  class name and message. A client function returns its result and the requests it sent.
\<close>

section \<open>The guard\<close>

definition PROFILE_ENV_VAR :: str where
  "PROFILE_ENV_VAR = ''GENESIS_DEPLOYMENT_PROFILE''"

definition PROFILE_CATO :: str where
  "PROFILE_CATO = ''cato''"

definition PROFILE_MARKETPLACE :: str where
  "PROFILE_MARKETPLACE = ''swarmsync-marketplace''"

definition deployment_profile :: "env \<Rightarrow> str" where
  "deployment_profile e = lower (strip (case e PROFILE_ENV_VAR of None \<Rightarrow> [] | Some v \<Rightarrow> v))"

definition escrow_permitted :: "env \<Rightarrow> bool" where
  "escrow_permitted e \<longleftrightarrow> deployment_profile e = PROFILE_MARKETPLACE"

definition is_cato_facing :: "env \<Rightarrow> bool" where
  "is_cato_facing e \<longleftrightarrow> deployment_profile e = PROFILE_CATO"

text \<open>\<open>importable\<close> is \<open>escrow_client_importable()\<close>: what \<open>importlib\<close> finds on the path.\<close>

definition assert_escrow_containment :: "env \<Rightarrow> bool \<Rightarrow> py_exc + unit" where
  "assert_escrow_containment e importable =
     guardE (\<not> (is_cato_facing e \<and> importable))
       (RuntimeError ''escrow_client is importable in a Cato-facing build.'') (Inr ())"

definition escrow_blocked :: "str \<Rightarrow> str \<Rightarrow> dict" where
  "escrow_blocked rid operation =
     (let envelope =
        (case prohibited_refusal rid (''escrow_client.'' @ operation) ''A'' None of
           Inr env \<Rightarrow> env
         | Inl _ \<Rightarrow> [(''ok'', PBool False), (''tool'', PStr (''escrow_client.'' @ operation)),
                    (''error'', PDict [(''code'', PStr ''policy_denied''), (''retryable'', PBool False)])])
      in dict_set envelope ''escrow_blocked'' (PBool True))"

section \<open>The client\<close>

datatype http_outcome =
    Http_Response int str "pyval option"
  | Http_Raise str str

record http_request =
  hr_url :: str
  hr_json :: pyval
  hr_headers :: "(str \<times> str) list"

record escrow_config =
  ec_api_url :: str
  ec_internal_secret :: str

text \<open>\<open>amount_cents / 100.0\<close> as Python prints it, for amounts below \<open>2^53\<close> cents.\<close>

definition cents_float :: "int \<Rightarrow> str" where
  "cents_float c =
     (let n = \<bar>c\<bar>; d = n mod 100 in
      (if c < 0 then ''-'' else []) @ show_int (n div 100) @ ''.'' @
      (if d mod 10 = 0 then show_int (d div 10)
       else if d < 10 then ''0'' @ show_int d else show_int d))"

definition escrow_failed :: "str \<Rightarrow> int \<Rightarrow> str \<Rightarrow> dict" where
  "escrow_failed error status body =
     [(''ok'', PBool False), (''error'', PStr error), (''status'', PInt status), (''body'', PStr (take 500 body))]"

definition escrow_raised :: "str \<Rightarrow> str \<Rightarrow> dict" where
  "escrow_raised exc_type message =
     [(''ok'', PBool False), (''error'', PStr ''exception''), (''type'', PStr exc_type), (''message'', PStr message)]"

text \<open>What the three calls share: no request without the secret; a status other than 200 or 201 and an
  exception are failures.\<close>

definition escrow_post ::
  "escrow_config \<Rightarrow> str \<Rightarrow> dict \<Rightarrow> str \<Rightarrow> (pyval \<Rightarrow> dict) \<Rightarrow> http_outcome \<Rightarrow> dict \<times> http_request list" where
  "escrow_post cfg path payload failed ok_result outcome =
     (if ec_internal_secret cfg = []
      then ([(''ok'', PBool False), (''error'', PStr ''internal_secret_not_configured'')], [])
      else
        ((case outcome of
            Http_Response status text parsed \<Rightarrow>
              if status \<noteq> 200 \<and> status \<noteq> 201 then escrow_failed failed status text
              else (case parsed of
                      None \<Rightarrow> escrow_raised ''JSONDecodeError'' text
                    | Some v \<Rightarrow> ok_result v)
          | Http_Raise t m \<Rightarrow> escrow_raised t m),
         [\<lparr>hr_url = ec_api_url cfg @ path, hr_json = PDict payload,
           hr_headers = [(''x-internal-secret'', ec_internal_secret cfg)]\<rparr>]))"

definition escrow_id_of :: "pyval \<Rightarrow> pyval" where
  "escrow_id_of v = (case v of PDict d \<Rightarrow> py_or (dget d ''escrowId'') (dget d ''id'') | _ \<Rightarrow> PNone)"

definition initiate_escrow ::
  "escrow_config \<Rightarrow> str \<Rightarrow> str \<Rightarrow> int \<Rightarrow> str option \<Rightarrow> dict option \<Rightarrow> http_outcome \<Rightarrow> dict \<times> http_request list" where
  "initiate_escrow cfg source destination amount_cents memo metadata outcome =
     escrow_post cfg ''/payments/ap2/initiate''
       [(''sourceWalletId'', PStr source), (''destinationWalletId'', PStr destination),
        (''amount'', PFloat (cents_float amount_cents)), (''purpose'', PStr ''AGENT_HIRE''),
        (''memo'', PStr (case memo of None \<Rightarrow> [] | Some m \<Rightarrow> m)), (''metadata'', PDict (dict_or_empty metadata))]
       ''initiate_failed''
       (\<lambda>v. case v of
              PDict d \<Rightarrow> [(''ok'', PBool True), (''escrow_id'', escrow_id_of v), (''raw'', v)]
            | _ \<Rightarrow> escrow_raised ''AttributeError'' [])
       outcome"

definition complete_escrow ::
  "escrow_config \<Rightarrow> str \<Rightarrow> str \<Rightarrow> str option \<Rightarrow> http_outcome \<Rightarrow> dict \<times> http_request list" where
  "complete_escrow cfg escrow_id status failure_reason outcome =
     escrow_post cfg ''/payments/ap2/complete''
       ([(''escrowId'', PStr escrow_id), (''status'', PStr status)] @
        (case failure_reason of None \<Rightarrow> [] | Some r \<Rightarrow> if r = [] then [] else [(''failureReason'', PStr r)]))
       ''complete_failed'' (\<lambda>v. [(''ok'', PBool True), (''raw'', v)]) outcome"

definition release_escrow :: "escrow_config \<Rightarrow> str \<Rightarrow> str \<Rightarrow> http_outcome \<Rightarrow> dict \<times> http_request list" where
  "release_escrow cfg escrow_id reason outcome =
     escrow_post cfg ''/payments/ap2/release''
       [(''escrowId'', PStr escrow_id), (''reason'', PStr reason)]
       ''release_failed'' (\<lambda>v. [(''ok'', PBool True), (''raw'', v)]) outcome"

section \<open>Containment\<close>

lemma escrow_blocked_not_ok: "dget (escrow_blocked rid op) ''ok'' = PBool False"
  by (simp add: escrow_blocked_def prohibited_refusal_def failure_def RETRYABLE_BY_CODE_def Let_def dget_def
      map_of_strip_dict BANNED_RESPONSE_KEYS_def)

lemma escrow_permitted_not_cato: "escrow_permitted e \<Longrightarrow> \<not> is_cato_facing e"
  by (simp add: escrow_permitted_def is_cato_facing_def PROFILE_MARKETPLACE_def PROFILE_CATO_def)

lemma escrow_default_blocked: "e PROFILE_ENV_VAR = None \<Longrightarrow> \<not> escrow_permitted e"
  by (simp add: escrow_permitted_def deployment_profile_def strip_def lower_def PROFILE_MARKETPLACE_def)

lemma escrow_post_ok:
  "escrow_post cfg path payload failed ok_result outcome = (r, reqs) \<Longrightarrow> length reqs \<le> 1 \<and> (reqs = [] \<longrightarrow> dget r ''ok'' = PBool False)"
  by (auto simp: escrow_post_def dget_def split: if_splits)

end
