(* ===== verification/Worker.thy ===== *)
theory Worker
  imports Job_Store Escrow
begin

text \<open>
  The job worker, \<^verbatim>\<open>worker.py\<close>, and the Trigger.dev dispatch, \<^verbatim>\<open>trigger_dispatch.py\<close>.

  What the worker calls and this theory does not model is the input of a run: what the agent runtime
  returned or raised and what it did to the job tables meanwhile, the outcome of the artifact upload,
  the answers of the network, the heartbeats the background loop wrote. The job tables are those of
  \<^verbatim>\<open>job_store.py\<close>, and reachable; the requests sent and the sessions back-filled are the effects of a run.
\<close>

section \<open>Inputs and effects of a run\<close>

datatype agent_outcome = Agent_Returned dict | Agent_Raised str str

datatype upload_outcome = No_Artifact_Dir | Upload_Returned dict | Upload_Raised

record job_run =
  jr_beats :: "int list"
  jr_exec :: "job_db \<Rightarrow> agent_outcome \<times> job_db"
  jr_upload :: upload_outcome
  jr_now :: int
  jr_escrow :: http_outcome
  jr_callback :: "nat \<Rightarrow> http_outcome"

record worker_state =
  ws_enabled :: bool
  ws_last_tick_at :: "int option"
  ws_last_claimed_job_id :: "str option"
  ws_currently_running_job_id :: "str option"
  ws_processed_count :: int
  ws_failed_count :: int

datatype effect =
    Escrow_Request http_request
  | Callback_Post http_request
  | Session_Finished str "str list"

record worker_config =
  wc_env :: env
  wc_escrow :: escrow_config
  wc_concurrency :: int
  wc_callback_max_attempts :: nat

section \<open>Callbacks\<close>

definition is_2xx :: "http_outcome \<Rightarrow> bool" where
  "is_2xx r = (case r of Http_Response status _ _ \<Rightarrow> 200 \<le> status \<and> status < 300 | Http_Raise _ _ \<Rightarrow> False)"

text \<open>The retry loop: whether an attempt succeeded, how many were made, and the sleeps in between.\<close>

fun callback_loop :: "(nat \<Rightarrow> http_outcome) \<Rightarrow> nat \<Rightarrow> nat \<Rightarrow> int \<Rightarrow> bool \<times> nat \<times> int list" where
  "callback_loop resp attempt 0 backoff = (False, 0, [])"
| "callback_loop resp attempt (Suc n) backoff =
     (if is_2xx (resp attempt) then (True, 1, [])
      else case callback_loop resp (Suc attempt) n (if n = 0 then backoff else 2 * backoff) of
             (ok, posts, sleeps) \<Rightarrow> (ok, Suc posts, if n = 0 then sleeps else backoff # sleeps))"

definition opt_str :: "str option \<Rightarrow> pyval" where
  "opt_str = opt_val PStr"

definition callback_request ::
  "env \<Rightarrow> str \<Rightarrow> str \<Rightarrow> str \<Rightarrow> str option \<Rightarrow> str option \<Rightarrow> str option \<Rightarrow> http_request" where
  "callback_request e url job_id status output err external_escrow_id =
     (let secret = (case e ''INTERNAL_SECRET'' of None \<Rightarrow> [] | Some s \<Rightarrow> s) in
      \<lparr>hr_url = url,
       hr_json = PDict [(''job_id'', PStr job_id), (''status'', PStr status), (''output'', opt_str output),
         (''error'', opt_str err), (''external_escrow_id'', opt_str external_escrow_id)],
       hr_headers = (''Content-Type'', ''application/json'') #
         (if secret = [] then [] else [(''X-Internal-Secret'', secret)])\<rparr>)"

definition fire_callback :: "nat \<Rightarrow> http_request \<Rightarrow> (nat \<Rightarrow> http_outcome) \<Rightarrow> bool \<times> http_request list" where
  "fire_callback max_attempts request resp =
     (case callback_loop resp 1 max_attempts 1 of (ok, posts, _) \<Rightarrow> (ok, replicate posts request))"

section \<open>Processing a job\<close>

text \<open>An option that holds a non-empty text.\<close>

definition nonempty :: "str option \<Rightarrow> str option" where
  "nonempty s = (case s of None \<Rightarrow> None | Some t \<Rightarrow> if t = [] then None else Some t)"

definition own_escrow :: "job \<Rightarrow> str option" where
  "own_escrow j = (if nonempty (j_webhookUrl j) \<noteq> None then None else nonempty (j_escrowId j))"

definition settle_escrow :: "worker_config \<Rightarrow> job \<Rightarrow> http_outcome \<Rightarrow> effect list" where
  "settle_escrow cfg j outcome =
     (case own_escrow j of
        None \<Rightarrow> []
      | Some eid \<Rightarrow>
          if \<not> escrow_permitted (wc_env cfg) then []
          else map Escrow_Request (snd (complete_escrow (wc_escrow cfg) eid ''SETTLED'' None outcome)))"

definition refund_escrow :: "worker_config \<Rightarrow> job \<Rightarrow> str \<Rightarrow> http_outcome \<Rightarrow> effect list" where
  "refund_escrow cfg j reason outcome =
     (case own_escrow j of
        None \<Rightarrow> []
      | Some eid \<Rightarrow>
          if \<not> escrow_permitted (wc_env cfg) then []
          else map Escrow_Request (snd (release_escrow (wc_escrow cfg) eid reason outcome)))"

definition uploaded_uri :: "dict \<Rightarrow> str" where
  "uploaded_uri f = str_or_empty (py_or (dget f ''signed_url'') (dget f ''uri''))"

definition dget_or :: "dict \<Rightarrow> str \<Rightarrow> pyval \<Rightarrow> pyval" where
  "dget_or d k v = (case map_of d k of Some x \<Rightarrow> x | None \<Rightarrow> v)"

definition is_dict :: "pyval \<Rightarrow> bool" where
  "is_dict v = (case v of PDict _ \<Rightarrow> True | _ \<Rightarrow> False)"

definition dict_of :: "pyval \<Rightarrow> dict" where
  "dict_of v = (case v of PDict d \<Rightarrow> d | _ \<Rightarrow> [])"

text \<open>The uris of the files that uploaded, and whether the upload raised nothing.\<close>

definition artifact_uris :: "upload_outcome \<Rightarrow> bool \<times> str list" where
  "artifact_uris up =
     (case up of
        No_Artifact_Dir \<Rightarrow> (True, [])
      | Upload_Raised \<Rightarrow> (False, [])
      | Upload_Returned r \<Rightarrow>
          if \<not> truthy (dget r ''ok'') then (True, [])
          else (case dget_or r ''files'' (PList []) of
                  PList fs \<Rightarrow>
                    if list_all is_dict fs
                    then (True, map uploaded_uri (filter (\<lambda>d. truthy (dget d ''ok'')) (map dict_of fs)))
                    else (False, [])
                | v \<Rightarrow> (v = PStr [] \<or> v = PDict [], [])))"

definition py_type_name :: "pyval \<Rightarrow> str" where
  "py_type_name v =
     (case v of PNone \<Rightarrow> ''NoneType'' | PBool _ \<Rightarrow> ''bool'' | PInt _ \<Rightarrow> ''int'' | PFloat _ \<Rightarrow> ''float''
      | PStr _ \<Rightarrow> ''str'' | PList _ \<Rightarrow> ''list'' | PDict _ \<Rightarrow> ''dict'')"

text \<open>\<open>(result.get("trace") or {}).get("session_id")\<close>; \<open>Inl\<close> is the \<open>AttributeError\<close> with its message.\<close>

definition session_id_of :: "dict \<Rightarrow> (str \<times> str) + pyval" where
  "session_id_of result =
     (case py_or (dget result ''trace'') (PDict []) of
        PDict d \<Rightarrow> Inr (dget d ''session_id'')
      | v \<Rightarrow> Inl (''AttributeError'', repr_str (py_type_name v) @ '' object has no attribute '' @ repr_str ''get''))"

definition response_text :: "dict \<Rightarrow> str" where
  "response_text result = py_str (dget_or result ''response'' (PStr []))"

definition result_summary :: "dict \<Rightarrow> str" where
  "result_summary result =
     take 4000 (plain_json (PDict [(''response'', PStr (take 1800 (response_text result))),
                                   (''trace'', dget_or result ''trace'' (PDict []))]))"

definition opt_text :: "pyval \<Rightarrow> str option" where
  "opt_text v = (case v of PNone \<Rightarrow> None | _ \<Rightarrow> Some (py_str v))"

definition delivered_update :: "dict \<Rightarrow> str list \<Rightarrow> status_update" where
  "delivered_update result uris =
     \<lparr>su_error_code = None, su_error_message = None, su_result_summary = Some (result_summary result),
      su_output_artifact_uris = (if uris = [] then None else Some uris)\<rparr>"

definition failed_update :: "str option \<Rightarrow> str \<Rightarrow> status_update" where
  "failed_update code message =
     \<lparr>su_error_code = code, su_error_message = Some (take 4000 message), su_result_summary = None,
      su_output_artifact_uris = None\<rparr>"

text \<open>How the body of the \<open>try\<close> ends: the final status, what the row gets, the output and error of the
  callback, and the effects before it.\<close>

record job_end =
  je_status :: str
  je_update :: status_update
  je_output :: "str option"
  je_error :: "str option"
  je_effects :: "effect list"

definition job_delivered :: "worker_config \<Rightarrow> job \<Rightarrow> job_run \<Rightarrow> dict \<Rightarrow> pyval \<Rightarrow> job_end" where
  "job_delivered cfg j run result sid =
     (case artifact_uris (jr_upload run) of
        (uploaded, uris) \<Rightarrow>
          \<lparr>je_status = (if uploaded then ''DELIVERED'' else ''DELIVERED_WITH_ARTIFACT_WARNING''),
           je_update = delivered_update result uris,
           je_output = Some (response_text result), je_error = None,
           je_effects = (if uris \<noteq> [] \<and> truthy sid then [Session_Finished (py_str sid) uris] else []) @
             settle_escrow cfg j (jr_escrow run)\<rparr>)"

definition job_failed :: "worker_config \<Rightarrow> job \<Rightarrow> job_run \<Rightarrow> dict \<Rightarrow> job_end" where
  "job_failed cfg j run result =
     (let err = py_str (dget_or result ''error'' (PStr ''agent_failure'')) in
      \<lparr>je_status = ''FAILED'',
       je_update = failed_update (opt_text (dget_or result ''error'' (PStr ''unknown'')))
         (py_str (dget_or result ''message'' (PStr []))),
       je_output = None, je_error = Some err,
       je_effects = refund_escrow cfg j err (jr_escrow run)\<rparr>)"

definition job_raised :: "worker_config \<Rightarrow> job \<Rightarrow> job_run \<Rightarrow> str \<Rightarrow> str \<Rightarrow> job_end" where
  "job_raised cfg j run t m =
     \<lparr>je_status = ''FAILED'', je_update = failed_update (Some t) m,
      je_output = None, je_error = Some (''runtime_exception:'' @ t @ '': '' @ m),
      je_effects = refund_escrow cfg j (''runtime_exception:'' @ t) (jr_escrow run)\<rparr>"

definition job_ends :: "worker_config \<Rightarrow> job \<Rightarrow> job_run \<Rightarrow> agent_outcome \<Rightarrow> job_end" where
  "job_ends cfg j run outcome =
     (case outcome of
        Agent_Raised t m \<Rightarrow> job_raised cfg j run t m
      | Agent_Returned result \<Rightarrow>
          if \<not> truthy (dget result ''ok'') then job_failed cfg j run result
          else (case session_id_of result of
                  Inl (t, m) \<Rightarrow> job_raised cfg j run t m
                | Inr sid \<Rightarrow> job_delivered cfg j run result sid))"

text \<open>The marketplace callback, fired last and only with a webhook.\<close>

definition job_callback :: "worker_config \<Rightarrow> job \<Rightarrow> job_run \<Rightarrow> job_end \<Rightarrow> effect list" where
  "job_callback cfg j run d =
     (case nonempty (j_webhookUrl j) of
        None \<Rightarrow> []
      | Some url \<Rightarrow>
          map Callback_Post (snd (fire_callback (wc_callback_max_attempts cfg)
            (callback_request (wc_env cfg) url (j_id j) (je_status d) (je_output d) (je_error d) (j_escrowId j))
            (jr_callback run))))"

definition count_end :: "job \<Rightarrow> job_end \<Rightarrow> worker_state \<Rightarrow> worker_state" where
  "count_end j d ws =
     (if je_status d = ''FAILED'' then ws\<lparr>ws_failed_count := ws_failed_count ws + 1, ws_currently_running_job_id := None\<rparr>
      else ws\<lparr>ws_processed_count := ws_processed_count ws + 1, ws_last_claimed_job_id := Some (j_id j),
              ws_currently_running_job_id := None\<rparr>)"

definition process_job ::
  "worker_config \<Rightarrow> job \<Rightarrow> job_run \<Rightarrow> job_db \<Rightarrow> worker_state \<Rightarrow> job_db \<times> worker_state \<times> effect list" where
  "process_job cfg j run db ws =
     (let db1 = fold (\<lambda>t db. snd (heartbeat (j_id j) t db)) (jr_beats run) db in
      case jr_exec run db1 of
        (outcome, db2) \<Rightarrow>
          let d = job_ends cfg j run outcome;
              db3 = snd (update_job_status (j_id j) (je_status d) (je_update d) False (jr_now run) db2) in
          (db3, count_end j d ws, je_effects d @ job_callback cfg j run d))"

section \<open>Ticks\<close>

record tick_result =
  tr_expired :: int
  tr_claimed :: int
  tr_processed :: int
  tr_job_ids :: "str list"

fun process_all ::
  "worker_config \<Rightarrow> (str \<Rightarrow> job_run) \<Rightarrow> job list \<Rightarrow> job_db \<Rightarrow> worker_state \<Rightarrow> job_db \<times> worker_state \<times> effect list" where
  "process_all cfg runs [] db ws = (db, ws, [])"
| "process_all cfg runs (j # js) db ws =
     (case process_job cfg j (runs (j_id j)) db ws of
        (db1, ws1, es1) \<Rightarrow>
          (case process_all cfg runs js db1 ws1 of (db2, ws2, es2) \<Rightarrow> (db2, ws2, es1 @ es2)))"

definition run_tick ::
  "worker_config \<Rightarrow> (str \<Rightarrow> job_run) \<Rightarrow> (str \<Rightarrow> bool) \<Rightarrow> int option \<Rightarrow> bool \<Rightarrow> int \<Rightarrow> job_db \<Rightarrow> worker_state
     \<Rightarrow> job_exc + tick_result \<times> job_db \<times> worker_state \<times> effect list" where
  "run_tick cfg runs locked limit expire_stale now db ws =
     (let slots = max 0 (case limit of Some l \<Rightarrow> l | None \<Rightarrow> wc_concurrency cfg);
          expired_db = (if expire_stale then expire_stale_running_jobs 5 now db else (0, db));
          expired = fst expired_db; db1 = snd expired_db;
          idle = \<lparr>tr_expired = expired, tr_claimed = 0, tr_processed = 0, tr_job_ids = []\<rparr> in
      if slots \<le> 0 then Inr (idle, db1, ws, [])
      else bindE (claim_queued_jobs locked slots now db1) (\<lambda>(jobs, db2).
        if jobs = [] then Inr (idle, db2, ws, [])
        else (case process_all cfg runs jobs db2 ws of
                (db3, ws3, es) \<Rightarrow>
                  Inr (\<lparr>tr_expired = expired, tr_claimed = int (length jobs), tr_processed = int (length jobs),
                        tr_job_ids = map j_id jobs\<rparr>, db3, ws3, es))))"

record execute_result =
  er_ok :: bool
  er_expired :: int
  er_effects :: "effect list"

definition execute_job_by_id ::
  "worker_config \<Rightarrow> (str \<Rightarrow> job_run) \<Rightarrow> str \<Rightarrow> int \<Rightarrow> job_db \<Rightarrow> worker_state \<Rightarrow> execute_result \<times> job_db \<times> worker_state" where
  "execute_job_by_id cfg runs job_id now db ws =
     (case expire_stale_running_jobs 5 now db of
        (expired, db1) \<Rightarrow>
          (case claim_job_by_id job_id now db1 of
             (None, db2) \<Rightarrow> (\<lparr>er_ok = False, er_expired = expired, er_effects = []\<rparr>, db2, ws)
           | (Some j, db2) \<Rightarrow>
               (case process_job cfg j (runs (j_id j)) db2 ws of
                  (db3, ws3, es) \<Rightarrow> (\<lparr>er_ok = True, er_expired = expired, er_effects = es\<rparr>, db3, ws3))))"

section \<open>Trigger.dev\<close>

definition dispatch_genesis_job :: "env \<Rightarrow> str \<Rightarrow> str \<Rightarrow> http_outcome \<Rightarrow> bool \<times> http_request list" where
  "dispatch_genesis_job e api_url job_id outcome =
     (let secret = env_get e ''TRIGGER_SECRET_KEY'' in
      if secret = [] then (False, [])
      else (is_2xx outcome,
        [\<lparr>hr_url = api_url @ ''/api/v1/tasks/genesis-job-process/trigger'',
          hr_json = PDict [(''payload'', PDict [(''jobId'', PStr job_id)])],
          hr_headers = [(''Authorization'', ''Bearer '' @ secret), (''Content-Type'', ''application/json'')]\<rparr>]))"

section \<open>Callbacks are bounded\<close>

lemma callback_loop_spec:
  "callback_loop resp a n b = (ok, posts, sleeps) \<Longrightarrow>
     (ok \<longleftrightarrow> (\<exists>i < n. is_2xx (resp (a + i)))) \<and> posts \<le> n \<and>
     (\<forall>i. Suc i < posts \<longrightarrow> \<not> is_2xx (resp (a + i))) \<and> (\<not> ok \<longrightarrow> posts = n) \<and>
     (ok \<longrightarrow> 0 < posts \<and> is_2xx (resp (a + (posts - 1))))"
proof (induction n arbitrary: a b ok posts sleeps)
  case 0
  then show ?case by simp
next
  case (Suc n)
  show ?case
  proof (cases "is_2xx (resp a)")
    case True
    with Suc.prems show ?thesis by (auto intro: exI [of _ 0])
  next
    case False
    obtain ok' posts' sleeps' where
      rest: "callback_loop resp (Suc a) n (if n = 0 then b else 2 * b) = (ok', posts', sleeps')"
      by (metis prod_cases3)
    with Suc.prems False have eq: "ok = ok'" "posts = Suc posts'" by (auto split: if_splits)
    have shift: "(\<exists>i < Suc n. is_2xx (resp (a + i))) \<longleftrightarrow> (\<exists>i < n. is_2xx (resp (Suc a + i)))"
      using False by (simp add: Ex_less_Suc2)
    have later: "\<And>i. Suc i < posts' \<Longrightarrow> \<not> is_2xx (resp (Suc a + i))" using Suc.IH [OF rest] by blast
    have "\<not> is_2xx (resp (a + i))" if "Suc i < Suc posts'" for i
      using that False later [of "i - 1"] by (cases i) simp_all
    moreover have "ok' \<Longrightarrow> 0 < posts' \<and> is_2xx (resp (a + posts'))"
      using Suc.IH [OF rest] by (cases posts') auto
    ultimately show ?thesis
      unfolding eq shift using Suc.IH [OF rest] by (metis Suc_le_mono Suc_diff_1 diff_Suc_1 zero_less_Suc)
  qed
qed

text \<open>
  The marketplace callback is bounded and honest: at most the configured number of identical requests is
  sent, none after a success; it reports success exactly when one of the allowed attempts was answered
  with a 2xx, and gives up only after all of them.
\<close>

theorem fire_callback_bounded:
  assumes "fire_callback n rq resp = (ok, reqs)"
  shows "set reqs \<subseteq> {rq} \<and> length reqs \<le> n \<and> (ok \<longleftrightarrow> (\<exists>i \<in> {1..n}. is_2xx (resp i))) \<and>
     (ok \<longrightarrow> is_2xx (resp (length reqs))) \<and> (\<not> ok \<longrightarrow> length reqs = n) \<and>
     (\<forall>i. 1 \<le> i \<and> i < length reqs \<longrightarrow> \<not> is_2xx (resp i))"
proof -
  obtain posts sleeps where loop: "callback_loop resp 1 n 1 = (ok, posts, sleeps)"
    and reqs: "reqs = replicate posts rq"
    using assms by (auto simp: fire_callback_def split: prod.splits)
  note spec = callback_loop_spec [OF loop]
  from spec have early: "\<And>k. Suc k < posts \<Longrightarrow> \<not> is_2xx (resp (1 + k))"
    and good: "ok \<Longrightarrow> 0 < posts \<and> is_2xx (resp (1 + (posts - 1)))" by blast+
  from spec have iff: "ok \<longleftrightarrow> (\<exists>i < n. is_2xx (resp (1 + i)))" and le: "posts \<le> n"
    and all: "\<not> ok \<Longrightarrow> posts = n" by blast+
  have len: "length reqs = posts" by (simp add: reqs)
  show ?thesis
  proof (intro conjI allI impI)
    show "set reqs \<subseteq> {rq}" by (simp add: reqs set_replicate_conv_if)
    show "length reqs \<le> n" using le len by simp
    show "ok \<longleftrightarrow> (\<exists>i \<in> {1..n}. is_2xx (resp i))"
      unfolding iff image_Suc_lessThan [symmetric] by (simp add: image_iff Bex_def) blast
    show "is_2xx (resp (length reqs))" if ok using good [OF that] len by (cases posts) simp_all
    show "length reqs = n" if "\<not> ok" using all [OF that] len by simp
    show "\<not> is_2xx (resp i)" if "1 \<le> i \<and> i < length reqs" for i
      using that early [of "i - 1"] len by (cases i) simp_all
  qed
qed

section \<open>Money\<close>

fun is_escrow :: "effect \<Rightarrow> bool" where
  "is_escrow (Escrow_Request r) = True"
| "is_escrow _ = False"

text \<open>The escrow a request names.\<close>

fun escrow_named :: "effect \<Rightarrow> str option" where
  "escrow_named (Escrow_Request r) =
     (case hr_json r of PDict d \<Rightarrow> (case dget d ''escrowId'' of PStr i \<Rightarrow> Some i | _ \<Rightarrow> None) | _ \<Rightarrow> None)"
| "escrow_named _ = None"

text \<open>The one request a job may cause, under the marketplace profile, for the escrow it has without a webhook.\<close>

definition own_request :: "worker_config \<Rightarrow> job \<Rightarrow> effect list \<Rightarrow> bool" where
  "own_request cfg j es \<longleftrightarrow>
     filter is_escrow es = [] \<or>
     (escrow_permitted (wc_env cfg) \<and>
      (\<exists>e. filter is_escrow es = [e] \<and> escrow_named e = own_escrow j \<and> own_escrow j \<noteq> None))"

lemma settle_escrow_own: "own_request cfg j (settle_escrow cfg j out)"
  by (auto simp: own_request_def settle_escrow_def complete_escrow_def escrow_post_def dget_def split: option.splits)

lemma refund_escrow_own: "own_request cfg j (refund_escrow cfg j why out)"
  by (auto simp: own_request_def refund_escrow_def release_escrow_def escrow_post_def dget_def split: option.splits)

lemma no_escrow_in_callback: "filter is_escrow (job_callback cfg j run d) = []"
  by (auto simp: job_callback_def filter_empty_conv split: option.splits)

lemma own_request_append: "filter is_escrow es = [] \<Longrightarrow> own_request cfg j (es @ fs) = own_request cfg j fs"
  "filter is_escrow fs = [] \<Longrightarrow> own_request cfg j (es @ fs) = own_request cfg j es"
  by (simp_all add: own_request_def)

lemma job_ends_own: "own_request cfg j (je_effects (job_ends cfg j run out))"
  using settle_escrow_own refund_escrow_own
  by (auto simp: job_ends_def job_raised_def job_failed_def job_delivered_def Let_def own_request_append
      split: agent_outcome.split sum.split prod.split)

lemma process_job_own:
  assumes "process_job cfg j run db ws = (db', ws', es)"
  shows "own_request cfg j es"
proof -
  obtain out where "es = je_effects (job_ends cfg j run out) @ job_callback cfg j run (job_ends cfg j run out)"
    using assms by (auto simp: process_job_def Let_def split: prod.splits)
  with job_ends_own show ?thesis by (simp add: own_request_append(2) no_escrow_in_callback)
qed

lemma escrow_named_is_escrow: "escrow_named e = Some i \<Longrightarrow> is_escrow e"
  by (cases e) simp_all

lemma own_request_counts:
  assumes "own_request cfg j es"
  shows "length (filter (\<lambda>e. escrow_named e = Some i) es) \<le> (if own_escrow j = Some i then 1 else 0)"
proof -
  have "filter (\<lambda>e. escrow_named e = Some i) es = filter (\<lambda>e. escrow_named e = Some i) (filter is_escrow es)"
    by (auto simp: escrow_named_is_escrow intro: filter_cong)
  then show ?thesis using assms by (auto simp: own_request_def simp del: filter_filter)
qed

lemma own_request_each:
  "own_request cfg j es \<Longrightarrow> e \<in> set es \<Longrightarrow> is_escrow e \<Longrightarrow> escrow_permitted (wc_env cfg) \<and> escrow_named e = own_escrow j \<and> own_escrow j \<noteq> None"
proof -
  assume own: "own_request cfg j es" and e: "e \<in> set es" "is_escrow e"
  then have "e \<in> set (filter is_escrow es)" by simp
  with own show ?thesis unfolding own_request_def by (metis empty_iff list.set(1) set_ConsD)
qed

lemma process_all_own:
  "process_all cfg runs js db ws = (db', ws', es) \<Longrightarrow>
     (\<forall>e \<in> set es. is_escrow e \<longrightarrow> escrow_permitted (wc_env cfg) \<and> escrow_named e \<in> own_escrow ` set js - {None}) \<and>
     length (filter (\<lambda>e. escrow_named e = Some i) es) \<le> length (filter (\<lambda>j. own_escrow j = Some i) js)"
proof (induction js arbitrary: db ws db' ws' es)
  case (Cons j js)
  obtain db1 ws1 es1 where one: "process_job cfg j (runs (j_id j)) db ws = (db1, ws1, es1)" by (metis prod_cases3)
  obtain db2 ws2 es2 where rest: "process_all cfg runs js db1 ws1 = (db2, ws2, es2)" by (metis prod_cases3)
  from Cons.prems one rest have "es = es1 @ es2" by simp
  with own_request_counts [OF process_job_own [OF one], of i] own_request_each [OF process_job_own [OF one]] Cons.IH [OF rest]
  show ?case by (auto split: if_splits)
qed simp

text \<open>The rows a tick claims: the oldest queued ones after the expiry of the stale ones.\<close>

definition tick_rows :: "worker_config \<Rightarrow> (str \<Rightarrow> bool) \<Rightarrow> int option \<Rightarrow> bool \<Rightarrow> int \<Rightarrow> job_db \<Rightarrow> job list" where
  "tick_rows cfg locked limit expire_stale now db =
     (let db1 = (if expire_stale then snd (expire_stale_running_jobs 5 now db) else db);
          slots = nat (case limit of Some l \<Rightarrow> l | None \<Rightarrow> wc_concurrency cfg) in
      map (claim_row now) (filter (\<lambda>j. j_id j \<in> set (claimed_ids locked slots db1)) (db_jobs db1)))"

lemma tick_rows_none:
  "(case limit of Some l \<Rightarrow> l | None \<Rightarrow> wc_concurrency cfg) \<le> 0 \<Longrightarrow> tick_rows cfg locked limit expire_stale now db = []"
  by (simp add: tick_rows_def claimed_ids_def)

text \<open>
  C22. Escrow containment. A worker tick sends no escrow request at all unless the operator opted into the marketplace profile,
  whatever the agents returned or raised. Each request names the escrow of a row the tick claimed that has an escrow and no
  webhook, the marketplace settling the others itself; and an escrow is named at most once for each such row.
\<close>

theorem worker_escrow_contained:
  assumes "run_tick cfg runs locked limit stale_check now db ws = Inr (res, db', ws', es)"
  shows "(\<forall>e \<in> set es. is_escrow e \<longrightarrow> escrow_permitted (wc_env cfg) \<and>
            (\<exists>j \<in> set (tick_rows cfg locked limit stale_check now db). \<exists>i.
               nonempty (j_webhookUrl j) = None \<and> nonempty (j_escrowId j) = Some i \<and> escrow_named e = Some i)) \<and>
     (\<forall>i. length (filter (\<lambda>e. escrow_named e = Some i) es) \<le>
            length (filter (\<lambda>j. nonempty (j_webhookUrl j) = None \<and> nonempty (j_escrowId j) = Some i)
              (tick_rows cfg locked limit stale_check now db))) \<and>
     tr_job_ids res = map j_id (tick_rows cfg locked limit stale_check now db)"
proof -
  let ?rows = "tick_rows cfg locked limit stale_check now db"
  have own: "(own_escrow j = Some i) = (nonempty (j_webhookUrl j) = None \<and> nonempty (j_escrowId j) = Some i)" for j i
    by (auto simp: own_escrow_def)
  consider "es = []" "tr_job_ids res = []" "?rows = []"
    | db2 where "process_all cfg runs ?rows db2 ws = (db', ws', es)" "tr_job_ids res = map j_id ?rows"
  proof (cases "(case limit of Some l \<Rightarrow> l | None \<Rightarrow> wc_concurrency cfg) \<le> 0")
    case True
    then show ?thesis using assms that(1) tick_rows_none [OF True] by (auto simp: run_tick_def Let_def)
  next
    case False
    let ?slots = "case limit of Some l \<Rightarrow> l | None \<Rightarrow> wc_concurrency cfg"
    define db1 where "db1 = (if stale_check then snd (expire_stale_running_jobs 5 now db) else db)"
    from assms False obtain jobs db2 where claim: "claim_queued_jobs locked ?slots now db1 = Inr (jobs, db2)"
      and run: "jobs = [] \<and> es = [] \<and> tr_job_ids res = [] \<or>
        process_all cfg runs jobs db2 ws = (db', ws', es) \<and> tr_job_ids res = map j_id jobs"
      by (auto simp: run_tick_def Let_def call_Inr db1_def max_def split: if_splits prod.splits)
    have "jobs = ?rows" using claim_queued_jobs_Inr [OF claim] by (simp add: tick_rows_def db1_def Let_def)
    then show ?thesis using run that by auto
  qed
  then show ?thesis
  proof cases
    case (2 db2)
    note all = process_all_own [OF 2(1)]
    have "\<exists>j \<in> set ?rows. \<exists>i. nonempty (j_webhookUrl j) = None \<and> nonempty (j_escrowId j) = Some i \<and> escrow_named e = Some i"
      if "e \<in> set es" "is_escrow e" for e
    proof -
      from that conjunct1 [OF all] have "escrow_named e \<in> own_escrow ` set ?rows - {None}" by blast
      then obtain j where "j \<in> set ?rows" "escrow_named e = own_escrow j" "own_escrow j \<noteq> None" by (elim DiffE imageE) auto
      then show ?thesis using own by (metis not_None_eq)
    qed
    then show ?thesis using all 2(2) by (simp add: own)
  qed simp
qed

section \<open>The final status\<close>

lemma job_ends_status:
  "je_status (job_ends cfg j run out) \<in> {''DELIVERED'', ''DELIVERED_WITH_ARTIFACT_WARNING'', ''FAILED''}"
  by (auto simp: job_ends_def job_raised_def job_failed_def job_delivered_def Let_def
      split: agent_outcome.split sum.split prod.split)

lemma get_job_after_update:
  assumes "get_job jid db = Some j"
  shows "get_job jid (snd (update_job_status jid new su ov now db)) =
     Some (if transition_refused (j_status j) new ov then j else set_clauses now new su j)"
  using assms get_job_update [of "write_status jid (j_status j) new su now db" "\<lambda>j. j_id j = jid" "set_clauses now new su" db jid]
    get_job_Some [OF assms]
  by (simp add: update_job_status_eq write_status_def)

text \<open>
  C40. A run always ends. Whatever the agent returned or raised, the job row is afterwards in the status the
  outcome stands for: \<open>DELIVERED\<close> (with a warning when the upload raised) exactly when the agent returned a
  true \<open>ok\<close> and a readable trace, \<open>FAILED\<close> otherwise; unless the row had reached another terminal status
  meanwhile, which it keeps. The counters record one more job, and no job is marked as running.
\<close>

theorem process_job_ends:
  assumes "process_job cfg j run db ws = (db', ws', es)"
    and "jr_exec run (fold (\<lambda>t db. snd (heartbeat (j_id j) t db)) (jr_beats run) db) = (out, db2)"
    and "get_job (j_id j) db2 = Some row"
  shows "\<exists>row'. get_job (j_id j) db' = Some row' \<and>
     (j_status row' = je_status (job_ends cfg j run out) \<or>
        (j_status row \<in> set TERMINAL_JOB_STATUSES \<and> row' = row)) \<and>
     (je_status (job_ends cfg j run out) \<noteq> ''FAILED'' \<longleftrightarrow>
        (\<exists>result sid. out = Agent_Returned result \<and> truthy (dget result ''ok'') \<and> session_id_of result = Inr sid)) \<and>
     ws_processed_count ws' + ws_failed_count ws' = ws_processed_count ws + ws_failed_count ws + 1 \<and>
     ws_currently_running_job_id ws' = None"
proof -
  let ?d = "job_ends cfg j run out"
  have db': "db' = snd (update_job_status (j_id j) (je_status ?d) (je_update ?d) False (jr_now run) db2)"
    and ws': "ws' = count_end j ?d ws"
    using assms(1,2) by (auto simp: process_job_def Let_def)
  have "je_status ?d \<noteq> ''FAILED'' \<longleftrightarrow>
      (\<exists>result sid. out = Agent_Returned result \<and> truthy (dget result ''ok'') \<and> session_id_of result = Inr sid)"
    by (auto simp: job_ends_def job_raised_def job_failed_def job_delivered_def Let_def
        split: agent_outcome.split sum.split prod.split)
  moreover have "\<exists>row'. get_job (j_id j) db' = Some row' \<and>
      (j_status row' = je_status ?d \<or> (j_status row \<in> set TERMINAL_JOB_STATUSES \<and> row' = row))"
    using get_job_after_update [OF assms(3)] by (auto simp: db' transition_refused_def)
  moreover have "ws_processed_count ws' + ws_failed_count ws' = ws_processed_count ws + ws_failed_count ws + 1 \<and>
      ws_currently_running_job_id ws' = None"
    by (simp add: ws' count_end_def)
  ultimately show ?thesis by blast
qed

section \<open>A concrete run\<close>

definition sample_config :: "str \<Rightarrow> worker_config" where
  "sample_config profile =
     \<lparr>wc_env = [PROFILE_ENV_VAR \<mapsto> profile], wc_escrow = \<lparr>ec_api_url = ''u'', ec_internal_secret = ''s''\<rparr>,
      wc_concurrency = 3, wc_callback_max_attempts = 3\<rparr>"

definition sample_run :: "(job_db \<Rightarrow> job_db) \<Rightarrow> job_run" where
  "sample_run f =
     \<lparr>jr_beats = [11], jr_exec = (\<lambda>db. (Agent_Returned [(''ok'', PBool True), (''response'', PStr ''done'')], f db)),
      jr_upload = No_Artifact_Dir, jr_now = 500000000, jr_escrow = Http_Response 200 [] (Some (PDict [])),
      jr_callback = (\<lambda>i. if i = 2 then Http_Response 204 [] None else Http_Response 500 [] None)\<rparr>"

definition idle_worker :: worker_state where
  "idle_worker = \<lparr>ws_enabled = True, ws_last_tick_at = None, ws_last_claimed_job_id = None,
     ws_currently_running_job_id = None, ws_processed_count = 0, ws_failed_count = 0\<rparr>"

definition escrowed_job :: job where
  "escrowed_job = claimed_job\<lparr>j_escrowId := Some ''esc''\<rparr>"

definition settle_request :: http_request where
  "settle_request = \<lparr>hr_url = ''u/payments/ap2/complete'',
     hr_json = PDict [(''escrowId'', PStr ''esc''), (''status'', PStr ''SETTLED'')],
     hr_headers = [(''x-internal-secret'', ''s'')]\<rparr>"

text \<open>The worker ignores what \<open>update_job_status\<close> returned: a job the reaper expired while the agent ran keeps
  the status \<open>EXPIRED\<close>, and its escrow is settled all the same.\<close>

lemma worker_settles_expired_job:
  "case process_job (sample_config ''swarmsync-marketplace'') escrowed_job (sample_run (\<lambda>_. expired_db)) race_db idle_worker of
     (db, ws, es) \<Rightarrow> map_option j_status (get_job ''j'' db) = Some ''EXPIRED'' \<and> es = [Escrow_Request settle_request]"
  by code_simp

theorem fire_callback_bounded_witness:
  "(\<exists>i \<in> {1..3}. is_2xx (jr_callback (sample_run id) i)) \<and> \<not> is_2xx (jr_callback (sample_run id) 1)"
proof -
  let ?rq = "settle_request"
  have "fire_callback 3 ?rq (jr_callback (sample_run id)) = (True, [?rq, ?rq])" by code_simp
  from fire_callback_bounded [OF this] show ?thesis by simp
qed

text \<open>A queued job with an escrow and no webhook: under the marketplace profile its tick sends the one request that settles it.\<close>

definition escrowed_db :: job_db where
  "escrowed_db = snd (projr (create_job ''j'' 0 (sample_request\<lparr>rq_escrow_id := Some ''esc''\<rparr>) empty_db))"

definition escrowed_tick :: "job_exc + tick_result \<times> job_db \<times> worker_state \<times> effect list" where
  "escrowed_tick = run_tick (sample_config ''swarmsync-marketplace'') (\<lambda>_. sample_run id) (\<lambda>_. False) None True 10 escrowed_db idle_worker"

theorem worker_escrow_contained_witness:
  "\<exists>res db ws. escrowed_tick = Inr (res, db, ws, [Escrow_Request settle_request]) \<and> tr_job_ids res = [''j''] \<and>
     escrow_permitted (wc_env (sample_config ''swarmsync-marketplace'')) \<and>
     length (filter (\<lambda>e. escrow_named e = Some ''esc'') [Escrow_Request settle_request]) = 1 \<and>
     1 \<le> length (filter (\<lambda>j. nonempty (j_webhookUrl j) = None \<and> nonempty (j_escrowId j) = Some ''esc'')
        (tick_rows (sample_config ''swarmsync-marketplace'') (\<lambda>_. False) None True 10 escrowed_db))"
proof -
  have "case escrowed_tick of Inl _ \<Rightarrow> False | Inr (res, db, ws, es) \<Rightarrow> es = [Escrow_Request settle_request] \<and> tr_job_ids res = [''j'']"
    by code_simp
  then obtain res db ws where tick: "escrowed_tick = Inr (res, db, ws, [Escrow_Request settle_request])" "tr_job_ids res = [''j'']"
    by (auto split: sum.splits prod.splits)
  note all = worker_escrow_contained [OF tick(1) [unfolded escrowed_tick_def]]
  have one: "length (filter (\<lambda>e. escrow_named e = Some ''esc'') [Escrow_Request settle_request]) = 1" by code_simp
  from all have "escrow_permitted (wc_env (sample_config ''swarmsync-marketplace''))" by simp
  moreover from all have "length (filter (\<lambda>e. escrow_named e = Some ''esc'') [Escrow_Request settle_request]) \<le>
      length (filter (\<lambda>j. nonempty (j_webhookUrl j) = None \<and> nonempty (j_escrowId j) = Some ''esc'')
        (tick_rows (sample_config ''swarmsync-marketplace'') (\<lambda>_. False) None True 10 escrowed_db))" by blast
  ultimately show ?thesis using tick one by auto
qed

definition delivered_db :: job_db where
  "delivered_db = fst (process_job (sample_config ''cato'') claimed_job (sample_run id) race_db idle_worker)"

definition running_job :: job where
  "running_job = the (get_job ''j'' (snd (heartbeat ''j'' 11 race_db)))"

theorem process_job_ends_witness:
  "\<exists>row'. get_job ''j'' delivered_db = Some row' \<and> j_status row' = ''DELIVERED''"
proof -
  let ?cfg = "sample_config ''cato''" let ?run = "sample_run id"
  let ?out = "Agent_Returned [(''ok'', PBool True), (''response'', PStr ''done'')]"
  have p: "process_job ?cfg claimed_job ?run race_db idle_worker =
      (delivered_db, idle_worker\<lparr>ws_processed_count := 1, ws_last_claimed_job_id := Some ''j''\<rparr>, [])"
    by code_simp
  have e: "jr_exec ?run (fold (\<lambda>t db. snd (heartbeat (j_id claimed_job) t db)) (jr_beats ?run) race_db)
      = (?out, snd (heartbeat ''j'' 11 race_db))"
    by code_simp
  have g: "get_job (j_id claimed_job) (snd (heartbeat ''j'' 11 race_db)) = Some running_job" by code_simp
  have "j_id claimed_job = ''j''" "je_status (job_ends ?cfg claimed_job ?run ?out) = ''DELIVERED''"
    "j_status running_job \<notin> set TERMINAL_JOB_STATUSES" by code_simp+
  with process_job_ends [OF p e g] show ?thesis by auto
qed

end
