(* ===== verification/Hash_Chain.thy ===== *)
theory Hash_Chain
  imports Prelude
begin

text \<open>
  What a linked log with recomputable row hashes promises, independent of where the rows are kept. A
  row carries the hash of its predecessor and its own hash, which is \<open>H\<close> of a payload text. The only
  thing the argument needs of the payload is that, among the rows of one log, it determines the
  predecessor's hash.
\<close>

locale hash_chain =
  fixes H :: "str \<Rightarrow> str"
    and payload :: "'r \<Rightarrow> str"
    and prev :: "'r \<Rightarrow> str"
    and hash :: "'r \<Rightarrow> str"
    and well :: "'r \<Rightarrow> bool"
    and member :: "'r \<Rightarrow> bool"
  assumes payload_prev:
    "member r \<Longrightarrow> member r' \<Longrightarrow> well r \<Longrightarrow> payload r = payload r' \<Longrightarrow> prev r = prev r'"
begin

fun linked :: "str \<Rightarrow> 'r list \<Rightarrow> bool" where
  "linked p [] \<longleftrightarrow> True"
| "linked p (r # rs) \<longleftrightarrow> prev r = p \<and> hash r = H (payload r) \<and> linked (hash r) rs"

definition last_hash :: "str \<Rightarrow> 'r list \<Rightarrow> str" where
  "last_hash p rs = (if rs = [] then p else hash (last rs))"

lemma last_hash_simps [simp]:
  "last_hash p [] = p" "last_hash p (rs @ [r]) = hash r"
  by (simp_all add: last_hash_def)

lemma last_hash_Cons: "last_hash p (r # rs) = last_hash (hash r) rs"
  by (simp add: last_hash_def)

lemma linked_snoc:
  "linked p (rs @ [r]) \<longleftrightarrow> linked p rs \<and> prev r = last_hash p rs \<and> hash r = H (payload r)"
  by (induction rs arbitrary: p) (auto simp: last_hash_Cons)

lemma linked_take: "linked p (xs @ ys) \<Longrightarrow> linked p xs"
  by (induction xs arbitrary: p) auto

text \<open>Two logs of one length that end in one hash have the same payloads throughout, unless two of their
  payloads collide under \<open>H\<close>.\<close>

lemma same_end_same_payloads:
  assumes "linked p xs" and "linked p ys" and "length xs = length ys"
    and "last_hash p xs = last_hash p ys"
    and "\<forall>r \<in> set xs. member r \<and> well r" and "\<forall>r \<in> set ys. member r"
    and "\<forall>r \<in> set xs. \<forall>r' \<in> set ys. H (payload r) = H (payload r') \<longrightarrow> payload r = payload r'"
  shows "map payload xs = map payload ys"
  using assms
proof (induction xs arbitrary: ys rule: rev_induct)
  case Nil
  then show ?case by simp
next
  case (snoc a xs)
  then obtain b zs where ys: "ys = zs @ [b]"
    by (cases ys rule: rev_cases) auto
  have a: "linked p xs" "prev a = last_hash p xs" "hash a = H (payload a)"
    and b: "linked p zs" "prev b = last_hash p zs" "hash b = H (payload b)"
    using snoc.prems(1,2) by (simp_all add: ys linked_snoc)
  from snoc.prems(4) a(3) b(3) have "H (payload a) = H (payload b)" by (simp add: ys)
  with snoc.prems(7) have same: "payload a = payload b" by (simp add: ys)
  with snoc.prems(5,6) have "prev a = prev b" by (intro payload_prev) (auto simp: ys)
  with a b snoc.prems have "map payload xs = map payload zs" by (intro snoc.IH) (auto simp: ys)
  with same show ?case by (simp add: ys)
qed

end

end
