(* ===== verification/Audit_Log.thy ===== *)
theory Audit_Log
  imports Pg_Store Hash_Chain
begin

text \<open>
  The append-only, hash-chained audit log, \<^verbatim>\<open>audit.py\<close>, and its production entry points,
  \<^verbatim>\<open>runtime/genesis_audit.py\<close>.

  \<open>sha256\<close> is the hex digest of the UTF-8 text; \<open>parse_qsl\<close> and \<open>urlencode\<close> are \<open>urllib\<close>'s query-string
  codec. A timestamp is carried by the \<open>repr\<close> of its float, which is what the hash payload formats. The
  tables of the two backends have the same columns and are written by the same sequence of statements in
  one transaction, so one state serves both; the id of a new row comes from the table's sequence.
\<close>

section \<open>Redaction\<close>

definition SENSITIVE_KEYS :: "str list" where
  [table_defs]: "SENSITIVE_KEYS =
     [''api_key'', ''token'', ''password'', ''secret'', ''key'', ''authorization'',
      ''bearer'', ''credential'', ''passwd'', ''passphrase'']"

definition REDACTED :: str where
  "REDACTED = ''[REDACTED]''"

definition sensitive :: "str \<Rightarrow> bool" where
  "sensitive key \<longleftrightarrow> list_ex (\<lambda>s. str_in s (lower key)) SENSITIVE_KEYS"

definition token_char :: "char \<Rightarrow> bool" where
  "token_char c \<longleftrightarrow> alnum c \<or> c \<in> set ''._~+/-''"

definition sk_char :: "char \<Rightarrow> bool" where
  "sk_char c \<longleftrightarrow> alnum c \<or> c \<in> set ''_-''"

text \<open>A match of \<open>(?i)bearer\s+[A-Za-z0-9._~+/-]{8,}\<close> at the start of the text, as the text after it.\<close>

definition match_bearer :: "str \<Rightarrow> str option" where
  "match_bearer s =
     (let r = drop 6 s; ws = takeWhile is_space r; r2 = dropWhile is_space r; tok = takeWhile token_char r2 in
      if lower (take 6 s) = ''bearer'' \<and> ws \<noteq> [] \<and> 8 \<le> length tok then Some (drop (length tok) r2) else None)"

lemma match_bearer_shorter: "match_bearer s = Some r \<Longrightarrow> length r < length s"
proof -
  assume m: "match_bearer s = Some r"
  then have "r = drop (length (takeWhile token_char (dropWhile is_space (drop 6 s)))) (dropWhile is_space (drop 6 s))"
    and "8 \<le> length (takeWhile token_char (dropWhile is_space (drop 6 s)))"
    by (auto simp: match_bearer_def Let_def split: if_splits)
  moreover have "length (dropWhile is_space (drop 6 s)) \<le> length s"
    using length_dropWhile_le [of is_space "drop 6 s"] by simp
  moreover have "length (takeWhile token_char (dropWhile is_space (drop 6 s))) \<le> length (dropWhile is_space (drop 6 s))"
    by (rule length_takeWhile_le)
  ultimately show ?thesis by simp
qed

function sub_bearer :: "str \<Rightarrow> str" where
  "sub_bearer [] = []"
| "sub_bearer (c # cs) =
     (case match_bearer (c # cs) of
        Some rest \<Rightarrow> ''Bearer '' @ REDACTED @ sub_bearer rest
      | None \<Rightarrow> c # sub_bearer cs)"
  by pat_completeness auto
termination
  by (relation "measure length") (auto dest: match_bearer_shorter)

text \<open>A match of \<open>sk-(?:ant-)?[A-Za-z0-9_-]{8,}\<close>: the optional group is within the class, so eight class
  characters after \<open>sk-\<close> decide. \<open>w\<close> says whether the character before is a word character.\<close>

definition match_sk :: "str \<Rightarrow> str option" where
  "match_sk s =
     (let r = drop 3 s; tok = takeWhile sk_char r in
      if take 3 s = ''sk-'' \<and> 8 \<le> length tok then Some (drop (length tok) r) else None)"

lemma match_sk_shorter: "match_sk s = Some r \<Longrightarrow> length r < length s"
proof -
  assume "match_sk s = Some r"
  then have "r = drop (length (takeWhile sk_char (drop 3 s))) (drop 3 s)"
    and "8 \<le> length (takeWhile sk_char (drop 3 s))"
    by (auto simp: match_sk_def Let_def split: if_splits)
  moreover have "length (takeWhile sk_char (drop 3 s)) \<le> length (drop 3 s)" by (rule length_takeWhile_le)
  ultimately show ?thesis by simp
qed

function sub_sk :: "bool \<Rightarrow> str \<Rightarrow> str" where
  "sub_sk w [] = []"
| "sub_sk w (c # cs) =
     (case if w then None else match_sk (c # cs) of
        Some rest \<Rightarrow> REDACTED @ sub_sk False rest
      | None \<Rightarrow> c # sub_sk (word_char c) cs)"
  by pat_completeness auto
termination
  by (relation "measure (\<lambda>(w, s). length s)") (auto dest: match_sk_shorter split: if_splits)

definition clean_url ::
  "(str \<Rightarrow> (str \<times> str) list) \<Rightarrow> ((str \<times> str) list \<Rightarrow> str) \<Rightarrow> str \<Rightarrow> str" where
  "clean_url parse_qsl urlencode value =
     (case url_split value of
        (base, query, frag) \<Rightarrow>
          url_unsplit base
            (urlencode (map (\<lambda>(key, item). (key, if sensitive key then REDACTED else item)) (parse_qsl query)))
            frag)"

definition sanitize_text ::
  "(str \<Rightarrow> (str \<times> str) list) \<Rightarrow> ((str \<times> str) list \<Rightarrow> str) \<Rightarrow> str \<Rightarrow> str" where
  "sanitize_text parse_qsl urlencode s =
     (let value = (if startswith s ''http://'' \<or> startswith s ''https://'' then clean_url parse_qsl urlencode s else s);
          low = strip (lower value) in
      if startswith low ''bearer '' \<or> startswith low ''sk-'' \<or> startswith low ''sk-ant-'' then REDACTED
      else sub_sk False (sub_bearer value))"

fun sanitize ::
  "(str \<Rightarrow> (str \<times> str) list) \<Rightarrow> ((str \<times> str) list \<Rightarrow> str) \<Rightarrow> str \<Rightarrow> pyval \<Rightarrow> pyval" where
  "sanitize pq ue parent_key (PDict d) =
     (if sensitive parent_key then PStr REDACTED else PDict (map (\<lambda>(k, v). (k, sanitize pq ue k v)) d))"
| "sanitize pq ue parent_key (PList vs) =
     (if sensitive parent_key then PStr REDACTED else PList (map (sanitize pq ue parent_key) vs))"
| "sanitize pq ue parent_key (PStr s) =
     (if sensitive parent_key then PStr REDACTED else PStr (sanitize_text pq ue s))"
| "sanitize pq ue parent_key v = (if sensitive parent_key then PStr REDACTED else v)"

definition sanitize_inputs ::
  "(str \<Rightarrow> (str \<times> str) list) \<Rightarrow> ((str \<times> str) list \<Rightarrow> str) \<Rightarrow> pyval \<Rightarrow> pyval" where
  "sanitize_inputs pq ue v = (case v of PDict d \<Rightarrow> sanitize pq ue [] v | _ \<Rightarrow> PDict [])"

section \<open>Rows\<close>

record audit_row =
  ar_id :: int
  ar_session_id :: str
  ar_action_type :: str
  ar_tool_name :: str
  ar_inputs_json :: str
  ar_outputs_json :: str
  ar_cost_cents :: int
  ar_error :: str
  ar_timestamp :: str
  ar_prev_hash :: str
  ar_row_hash :: str
  ar_inputs_digest :: "str option"
  ar_outputs_digest :: "str option"
  ar_schema_version :: int

record chain_head =
  ch_session_id :: str
  ch_last_row_id :: int
  ch_last_row_hash :: str
  ch_row_count :: int

record audit_db =
  adb_rows :: "audit_row list"
  adb_heads :: "chain_head list"
  adb_next_id :: int

definition audit_digest :: "(str \<Rightarrow> str) \<Rightarrow> str \<Rightarrow> str" where
  "audit_digest sha256 text = (if text = [] then [] else sha256 text)"

definition hash_payload :: "int \<Rightarrow> str \<Rightarrow> str \<Rightarrow> str \<Rightarrow> int \<Rightarrow> str \<Rightarrow> str \<Rightarrow> str \<Rightarrow> str \<Rightarrow> str" where
  "hash_payload row_id session_id action_type tool_name cost_cents timestamp prev_hash ins outs =
     join '':'' [show_int row_id, session_id, action_type, tool_name, show_int cost_cents, timestamp, prev_hash, ins, outs]"

definition row_hash ::
  "(str \<Rightarrow> str) \<Rightarrow> int \<Rightarrow> str \<Rightarrow> str \<Rightarrow> str \<Rightarrow> int \<Rightarrow> str \<Rightarrow> str \<Rightarrow> str \<Rightarrow> str \<Rightarrow> str" where
  "row_hash sha256 row_id session_id action_type tool_name cost_cents timestamp prev_hash inputs_digest outputs_digest =
     sha256 (hash_payload row_id session_id action_type tool_name cost_cents timestamp prev_hash inputs_digest outputs_digest)"

definition row_hash_v1 ::
  "(str \<Rightarrow> str) \<Rightarrow> int \<Rightarrow> str \<Rightarrow> str \<Rightarrow> str \<Rightarrow> int \<Rightarrow> str \<Rightarrow> str \<Rightarrow> str \<Rightarrow> str \<Rightarrow> str" where
  "row_hash_v1 sha256 row_id session_id action_type tool_name cost_cents timestamp prev_hash inputs_json outputs_json =
     sha256 (hash_payload row_id session_id action_type tool_name cost_cents timestamp prev_hash inputs_json outputs_json)"

section \<open>Opening the log\<close>

text \<open>\<open>AuditLog.__init__\<close>: the backend, from an explicit path, the environment and \<open>postgres_selected()\<close>.\<close>

datatype audit_backend = Audit_Postgres | Audit_Sqlite str

definition audit_init :: "str option \<Rightarrow> store_error + bool \<Rightarrow> env \<Rightarrow> (py_exc + store_error) + audit_backend" where
  "audit_init db_path selected e =
     (let configured = env_get e ''GENESIS_AUDIT_DB_PATH'' in
      case db_path of
        Some p \<Rightarrow> Inr (Audit_Sqlite p)
      | None \<Rightarrow>
          bindE (raisingE Inr selected) (\<lambda>pg.
          if pg then Inr Audit_Postgres
          else guardE (configured \<noteq> []) (Inl (RuntimeError ''GENESIS_AUDIT_DB_PATH or db_path is required''))
            (Inr (Audit_Sqlite configured))))"

text \<open>\<open>get_audit_log\<close>: an explicit path opens its own log; otherwise one instance per process.\<close>

definition get_audit_log ::
  "str option \<Rightarrow> store_error + bool \<Rightarrow> env \<Rightarrow> audit_backend option
     \<Rightarrow> (py_exc + store_error) + audit_backend \<times> audit_backend option" where
  "get_audit_log db_path selected e inst =
     (case db_path of
        Some p \<Rightarrow> Inr (Audit_Sqlite p, inst)
      | None \<Rightarrow>
          bindE (raisingE Inr selected) (\<lambda>pg.
          let configured = env_get e ''GENESIS_AUDIT_DB_PATH'' in
          guardE (pg \<or> configured \<noteq> []) (Inl (RuntimeError ''GENESIS_AUDIT_DB_PATH is not configured''))
         (case inst of
            Some b \<Rightarrow> Inr (b, inst)
          | None \<Rightarrow>
              bindE (if pg then audit_init None selected e else audit_init (Some configured) selected e) (\<lambda>b.
              Inr (b, Some b)))))"

section \<open>Appending\<close>

text \<open>\<open>SELECT ... WHERE session_id = ? ORDER BY id\<close>\<close>

definition session_rows :: "str \<Rightarrow> audit_db \<Rightarrow> audit_row list" where
  "session_rows s db = sort_key ar_id (filter (\<lambda>r. ar_session_id r = s) (adb_rows db))"

definition last_row_hash :: "str \<Rightarrow> audit_db \<Rightarrow> str" where
  "last_row_hash s db = (case rev (session_rows s db) of [] \<Rightarrow> [] | r # _ \<Rightarrow> ar_row_hash r)"

definition chain_head_of :: "str \<Rightarrow> audit_db \<Rightarrow> chain_head option" where
  "chain_head_of s db = find (\<lambda>h. ch_session_id h = s) (adb_heads db)"

text \<open>\<open>INSERT ... ON CONFLICT (session_id) DO UPDATE\<close>\<close>

fun upsert_head :: "str \<Rightarrow> int \<Rightarrow> str \<Rightarrow> chain_head list \<Rightarrow> chain_head list" where
  "upsert_head s i h [] = [\<lparr>ch_session_id = s, ch_last_row_id = i, ch_last_row_hash = h, ch_row_count = 1\<rparr>]"
| "upsert_head s i h (c # cs) =
     (if ch_session_id c = s
      then c\<lparr>ch_last_row_id := i, ch_last_row_hash := h, ch_row_count := ch_row_count c + 1\<rparr> # cs
      else c # upsert_head s i h cs)"

text \<open>The transaction both backends run under the session's lock: read the previous hash, insert, hash,
  update, move the head.\<close>

definition append_row ::
  "(str \<Rightarrow> str) \<Rightarrow> str \<Rightarrow> str \<Rightarrow> str \<Rightarrow> str \<Rightarrow> str \<Rightarrow> int \<Rightarrow> str \<Rightarrow> str \<Rightarrow> str \<Rightarrow> str \<Rightarrow> audit_db \<Rightarrow> int \<times> audit_db" where
  "append_row sha256 session_id action_type tool_name inputs_json outputs_json cost_cents error ts
      inputs_digest outputs_digest db =
     (let prev = last_row_hash session_id db;
          row_id = adb_next_id db;
          rh = row_hash sha256 row_id session_id action_type tool_name cost_cents ts prev inputs_digest outputs_digest;
          row = \<lparr>ar_id = row_id, ar_session_id = session_id, ar_action_type = action_type, ar_tool_name = tool_name,
                 ar_inputs_json = inputs_json, ar_outputs_json = outputs_json, ar_cost_cents = cost_cents,
                 ar_error = error, ar_timestamp = ts, ar_prev_hash = prev, ar_row_hash = rh,
                 ar_inputs_digest = Some inputs_digest, ar_outputs_digest = Some outputs_digest, ar_schema_version = 2\<rparr> in
      (row_id, \<lparr>adb_rows = adb_rows db @ [row], adb_heads = upsert_head session_id row_id rh (adb_heads db),
                adb_next_id = row_id + 1\<rparr>))"

definition audit_log ::
  "(str \<Rightarrow> str) \<Rightarrow> (str \<Rightarrow> (str \<times> str) list) \<Rightarrow> ((str \<times> str) list \<Rightarrow> str) \<Rightarrow> str \<Rightarrow> str \<Rightarrow> str \<Rightarrow> str \<Rightarrow> pyval \<Rightarrow> pyval
     \<Rightarrow> int \<Rightarrow> str \<Rightarrow> audit_db \<Rightarrow> int \<times> audit_db" where
  "audit_log sha256 pq ue ts session_id action_type tool_name inputs outputs cost_cents error db =
     (let inputs_json = plain_json (sanitize_inputs pq ue inputs);
          outputs_json = (case sanitize pq ue [] outputs of PStr s \<Rightarrow> s | v \<Rightarrow> plain_json v) in
      append_row sha256 session_id action_type tool_name inputs_json outputs_json cost_cents error ts
        (audit_digest sha256 inputs_json) (audit_digest sha256 outputs_json) db)"

definition log_spec_commitment ::
  "(str \<Rightarrow> str) \<Rightarrow> (str \<Rightarrow> (str \<times> str) list) \<Rightarrow> ((str \<times> str) list \<Rightarrow> str) \<Rightarrow> str \<Rightarrow> str \<Rightarrow> str \<Rightarrow> str \<Rightarrow> audit_db
     \<Rightarrow> int \<times> audit_db" where
  "log_spec_commitment sha256 pq ue ts session_id spec_hash request_id db =
     audit_log sha256 pq ue ts session_id ''spec_commitment'' ''conduit.spec_commitment''
       (PDict [(''spec_hash'', PStr spec_hash), (''request_id'', PStr request_id)])
       (PDict [(''committed'', PBool True)]) 0 [] db"

definition append_tool_event ::
  "(str \<Rightarrow> str) \<Rightarrow> (str \<Rightarrow> (str \<times> str) list) \<Rightarrow> ((str \<times> str) list \<Rightarrow> str) \<Rightarrow> str \<Rightarrow> str \<Rightarrow> str \<Rightarrow> dict \<Rightarrow> dict \<Rightarrow> audit_db
     \<Rightarrow> int \<times> audit_db" where
  "append_tool_event sha256 pq ue ts session_id tool_name inputs outputs db =
     audit_log sha256 pq ue ts session_id ''tool_call'' tool_name (PDict inputs) (PDict outputs) 0
       (if truthy (dget outputs ''ok'') then []
        else py_str (case map_of outputs ''error'' of Some e \<Rightarrow> e | None \<Rightarrow> PStr ''tool_failed'')) db"

definition append_tool_intent ::
  "(str \<Rightarrow> str) \<Rightarrow> (str \<Rightarrow> (str \<times> str) list) \<Rightarrow> ((str \<times> str) list \<Rightarrow> str) \<Rightarrow> str \<Rightarrow> str \<Rightarrow> str \<Rightarrow> dict \<Rightarrow> audit_db
     \<Rightarrow> int \<times> audit_db" where
  "append_tool_intent sha256 pq ue ts session_id tool_name inputs db =
     audit_log sha256 pq ue ts session_id ''tool_intent'' tool_name (PDict inputs)
       (PDict [(''ok'', PBool False), (''status'', PStr ''authorized_pending_execution'')]) 0 [] db"

section \<open>Reading\<close>

record session_stats =
  st_action_count :: int
  st_total_cost_cents :: int
  st_errors :: int
  st_tools_used :: "str list"

text \<open>\<open>session_summary\<close> without the first and last timestamp, which are the extrema of a float column.\<close>

definition session_summary :: "str \<Rightarrow> audit_db \<Rightarrow> session_stats" where
  "session_summary s db =
     (let rows = session_rows s db in
      \<lparr>st_action_count = int (length rows), st_total_cost_cents = sum_list (map ar_cost_cents rows),
       st_errors = int (length (filter (\<lambda>r. ar_error r \<noteq> []) rows)),
       st_tools_used = sort (remdups (filter (\<lambda>t. t \<noteq> []) (map ar_tool_name rows)))\<rparr>)"

definition row_dict :: "audit_row \<Rightarrow> dict" where
  "row_dict r =
     [(''id'', PInt (ar_id r)), (''session_id'', PStr (ar_session_id r)), (''action_type'', PStr (ar_action_type r)),
      (''tool_name'', PStr (ar_tool_name r)), (''inputs_json'', PStr (ar_inputs_json r)),
      (''outputs_json'', PStr (ar_outputs_json r)), (''cost_cents'', PInt (ar_cost_cents r)),
      (''error'', PStr (ar_error r)), (''timestamp'', PFloat (ar_timestamp r)),
      (''prev_hash'', PStr (ar_prev_hash r)), (''row_hash'', PStr (ar_row_hash r))]"

definition get_session_rows :: "str \<Rightarrow> audit_db \<Rightarrow> dict list" where
  "get_session_rows s db = map row_dict (session_rows s db)"

text \<open>\<open>csv.writer\<close> with its default dialect.\<close>

definition csv_field :: "str \<Rightarrow> str" where
  "csv_field s =
     (let q = char_of (34::nat) in
      if list_ex (\<lambda>c. c = q \<or> c = CHR '','' \<or> (of_char c :: nat) = 10 \<or> (of_char c :: nat) = 13) s
      then q # concat (map (\<lambda>c. if c = q then [q, q] else [c]) s) @ [q] else s)"

definition csv_line :: "str list \<Rightarrow> str" where
  "csv_line cells = join '','' (map csv_field cells) @ [char_of (13::nat), char_of (10::nat)]"

definition export_session :: "str \<Rightarrow> str \<Rightarrow> audit_db \<Rightarrow> str" where
  "export_session s fmt db =
     (let rows = get_session_rows s db in
      if fmt = ''csv'' then
        csv_line [''id'', ''session_id'', ''action_type'', ''tool_name'', ''inputs_json'', ''outputs_json'',
                  ''cost_cents'', ''error'', ''timestamp'', ''prev_hash'', ''row_hash''] @
        concat (map (\<lambda>r. csv_line (map (\<lambda>(_, v). py_str v) r)) rows)
      else join [char_of (10::nat)] (map (\<lambda>r. plain_json (PDict r)) rows))"

section \<open>Verifying\<close>

text \<open>The text a row's hash must be the digest of: digests for a v2 row, the raw JSON for a v1 row. A
  missing digest is formatted as \<open>None\<close>.\<close>

definition opt_fmt :: "str option \<Rightarrow> str" where
  "opt_fmt x = (case x of None \<Rightarrow> ''None'' | Some s \<Rightarrow> s)"

definition row_payload :: "audit_row \<Rightarrow> str" where
  "row_payload r =
     (case ar_inputs_digest r of
        None \<Rightarrow> hash_payload (ar_id r) (ar_session_id r) (ar_action_type r) (ar_tool_name r) (ar_cost_cents r)
                  (ar_timestamp r) (ar_prev_hash r) (ar_inputs_json r) (ar_outputs_json r)
      | Some d \<Rightarrow> hash_payload (ar_id r) (ar_session_id r) (ar_action_type r) (ar_tool_name r) (ar_cost_cents r)
                  (ar_timestamp r) (ar_prev_hash r) d (opt_fmt (ar_outputs_digest r)))"

text \<open>Check 3, completeness against the head; a chain without one is a legacy chain.\<close>

definition head_ok :: "chain_head option \<Rightarrow> audit_row list \<Rightarrow> bool" where
  "head_ok head rows =
     (case head of
        None \<Rightarrow> True
      | Some h \<Rightarrow>
          if int (length rows) \<noteq> ch_row_count h then False
          else rows = [] \<or>
               (ar_row_hash (last rows) = ch_last_row_hash h \<and> ar_id (last rows) = ch_last_row_id h))"

text \<open>Checks 1 and 2, the loop over the rows with the flag it carries.\<close>

fun verify_rows :: "(str \<Rightarrow> str) \<Rightarrow> bool \<Rightarrow> str \<Rightarrow> audit_row list \<Rightarrow> bool" where
  "verify_rows sha256 ok expected_prev [] = ok"
| "verify_rows sha256 ok expected_prev (r # rs) =
     (let ok1 = (if ar_prev_hash r \<noteq> expected_prev then False else ok);
          ok2 = (if sha256 (row_payload r) \<noteq> ar_row_hash r then False else ok1) in
      verify_rows sha256 ok2 (ar_row_hash r) rs)"

definition verify_chain :: "(str \<Rightarrow> str) \<Rightarrow> str \<Rightarrow> audit_db \<Rightarrow> bool" where
  "verify_chain sha256 s db =
     (let rows = session_rows s db in
      verify_rows sha256 (head_ok (chain_head_of s db) rows) [] rows)"

section \<open>The payload determines its fields\<close>

abbreviation colon_free :: "str \<Rightarrow> bool" where
  "colon_free s \<equiv> CHR '':'' \<notin> set s"

definition colons :: "str \<Rightarrow> nat" where
  "colons s = length (filter (\<lambda>c. c = CHR '':'') s)"

lemma colons_zero: "colons s = 0 \<longleftrightarrow> colon_free s"
  by (auto simp: colons_def filter_empty_conv)

lemma colons_append [simp]: "colons (a @ b) = colons a + colons b"
  by (simp add: colons_def)

lemma colons_Cons [simp]: "colons (c # s) = (if c = CHR '':'' then 1 else 0) + colons s"
  by (simp add: colons_def)

lemma colons_join: "zs \<noteq> [] \<Longrightarrow> colons (join '':'' zs) + 1 = length zs + sum_list (map colons zs)"
  by (induction "'':''" zs rule: join.induct) (simp_all add: colons_def)

lemma join_colon_free_inj:
  "length xs = length ys \<Longrightarrow> \<forall>x \<in> set xs. colon_free x \<Longrightarrow> \<forall>y \<in> set ys. colon_free y \<Longrightarrow>
     join '':'' xs = join '':'' ys \<Longrightarrow> xs = ys"
proof (induction xs ys rule: list_induct2)
  case (Cons x xs y ys)
  show ?case
  proof (cases xs)
    case Nil
    with Cons show ?thesis by simp
  next
    case (Cons x' xs')
    with \<open>length xs = length ys\<close> obtain y' ys' where ys: "ys = y' # ys'" by (cases ys) auto
    have "split_first (CHR '':'') (x @ CHR '':'' # join '':'' xs) = split_first (CHR '':'') (y @ CHR '':'' # join '':'' ys)"
      using Cons.prems(3) by (simp add: Cons ys)
    then have "x = y" "join '':'' xs = join '':'' ys"
      using Cons.prems(1,2) by (simp_all add: split_first_append)
    with Cons.IH Cons.prems show ?thesis by simp
  qed
qed simp

lemma join_fields_inj:
  assumes "length xs = length ys" and "\<forall>x \<in> set xs. colon_free x" and eq: "join '':'' xs = join '':'' ys"
  shows "xs = ys"
proof (cases "xs = []")
  case False
  with assms(1) have ys: "ys \<noteq> []" by auto
  from assms(2) have "sum_list (map colons xs) = 0" by (simp add: colons_zero)
  with colons_join [OF False] colons_join [OF ys] eq assms(1) have "sum_list (map colons ys) = 0" by simp
  then have "\<forall>y \<in> set ys. colon_free y" by (simp add: colons_zero)
  with assms show ?thesis by (blast intro: join_colon_free_inj)
qed (use assms(1) in simp)

lemma digit_colon_free: "colon_free (dec_digits n)"
  using dec_digits_digits [of "CHR '':''" n] by auto

lemma show_int_colon_free: "colon_free (show_int i)"
  by (simp add: show_int_def digit_colon_free)

text \<open>What a row binds beside its id and session, in the order of the payload.\<close>

definition row_fields :: "audit_row \<Rightarrow> str list" where
  "row_fields r =
     [ar_action_type r, ar_tool_name r, show_int (ar_cost_cents r), ar_timestamp r, ar_prev_hash r] @
     (case ar_inputs_digest r of
        None \<Rightarrow> [ar_inputs_json r, ar_outputs_json r]
      | Some d \<Rightarrow> [d, opt_fmt (ar_outputs_digest r)])"

definition plain_row :: "audit_row \<Rightarrow> bool" where
  "plain_row r \<longleftrightarrow> list_all colon_free (row_fields r)"

lemma row_payload_fields:
  "row_payload r = show_int (ar_id r) @ CHR '':'' # ar_session_id r @ CHR '':'' # join '':'' (row_fields r)"
  by (simp add: row_payload_def hash_payload_def row_fields_def split: option.split)

lemma length_row_fields [simp]: "length (row_fields r) = 7"
  by (simp add: row_fields_def split: option.split)

lemma row_payload_inj:
  assumes "row_payload r = row_payload r'" and "ar_session_id r = ar_session_id r'" and "plain_row r"
  shows "ar_id r = ar_id r' \<and> row_fields r = row_fields r'"
proof -
  have "split_first (CHR '':'') (row_payload r) = split_first (CHR '':'') (row_payload r')" using assms(1) by simp
  then have "show_int (ar_id r) = show_int (ar_id r')" and "join '':'' (row_fields r) = join '':'' (row_fields r')"
    using assms(2) by (simp_all add: row_payload_fields split_first_append show_int_colon_free)
  moreover from this(2) assms(3) have "row_fields r = row_fields r'"
    by (intro join_fields_inj) (auto simp: plain_row_def list_all_iff)
  ultimately show ?thesis by (simp add: show_int_inj)
qed

lemma row_fields_prev: "row_fields r = row_fields r' \<Longrightarrow> ar_prev_hash r = ar_prev_hash r'"
  by (simp add: row_fields_def split: option.splits)

text \<open>The rows of one session are a hash chain.\<close>

interpretation chain: hash_chain sha256 row_payload ar_prev_hash ar_row_hash plain_row "\<lambda>r. ar_session_id r = s"
  for sha256 s
  by unfold_locales (metis row_payload_inj row_fields_prev)

lemma verify_rows_linked: "verify_rows sha256 ok p rs \<longleftrightarrow> ok \<and> chain.linked sha256 p rs"
  by (induction sha256 ok p rs rule: verify_rows.induct) (auto simp: Let_def)

lemma verify_chain_iff:
  "verify_chain sha256 s db \<longleftrightarrow>
     head_ok (chain_head_of s db) (session_rows s db) \<and> chain.linked sha256 [] (session_rows s db)"
  by (simp add: verify_chain_def verify_rows_linked Let_def)

section \<open>Reachable logs\<close>

definition empty_audit :: audit_db where
  "empty_audit = \<lparr>adb_rows = [], adb_heads = [], adb_next_id = 1\<rparr>"

inductive audit_reachable ::
  "(str \<Rightarrow> str) \<Rightarrow> (str \<Rightarrow> (str \<times> str) list) \<Rightarrow> ((str \<times> str) list \<Rightarrow> str) \<Rightarrow> audit_db \<Rightarrow> bool" for sha256 pq ue where
  start: "audit_reachable sha256 pq ue empty_audit"
| append: "audit_reachable sha256 pq ue db \<Longrightarrow>
     audit_reachable sha256 pq ue (snd (audit_log sha256 pq ue ts session action tool inputs outputs cost err db))"

text \<open>The head of a session, as its rows determine it.\<close>

definition head_of_rows :: "str \<Rightarrow> audit_row list \<Rightarrow> chain_head option" where
  "head_of_rows s rows =
     (if rows = [] then None
      else Some \<lparr>ch_session_id = s, ch_last_row_id = ar_id (last rows), ch_last_row_hash = ar_row_hash (last rows),
                ch_row_count = int (length rows)\<rparr>)"

definition audit_inv :: "(str \<Rightarrow> str) \<Rightarrow> audit_db \<Rightarrow> bool" where
  "audit_inv sha256 db \<longleftrightarrow>
     sorted (map ar_id (adb_rows db)) \<and> (\<forall>r \<in> set (adb_rows db). ar_id r < adb_next_id db) \<and>
     (\<forall>s. chain_head_of s db = head_of_rows s (session_rows s db) \<and> chain.linked sha256 [] (session_rows s db))"

lemma session_rows_sorted:
  "sorted (map ar_id (adb_rows db)) \<Longrightarrow> session_rows s db = filter (\<lambda>r. ar_session_id r = s) (adb_rows db)"
  by (simp add: session_rows_def sorted_filter sort_key_id_if_sorted)

lemma last_row_hash_eq: "last_row_hash s db = chain.last_hash [] (session_rows s db)"
  by (cases "session_rows s db" rule: rev_cases) (simp_all add: last_row_hash_def)

lemma find_upsert_head:
  "find (\<lambda>h. ch_session_id h = t) (upsert_head s i h hs) =
     (if t = s then Some (case find (\<lambda>h. ch_session_id h = s) hs of
          None \<Rightarrow> \<lparr>ch_session_id = s, ch_last_row_id = i, ch_last_row_hash = h, ch_row_count = 1\<rparr>
        | Some c \<Rightarrow> c\<lparr>ch_last_row_id := i, ch_last_row_hash := h, ch_row_count := ch_row_count c + 1\<rparr>)
      else find (\<lambda>h. ch_session_id h = t) hs)"
  by (induction s i h hs rule: upsert_head.induct) auto

lemma append_row_shape:
  assumes "append_row sha256 session action tool ij oj cost err ts idg odg db = (i, db')"
  obtains row where "adb_rows db' = adb_rows db @ [row]" "adb_next_id db' = adb_next_id db + 1"
    "adb_heads db' = upsert_head session (ar_id row) (ar_row_hash row) (adb_heads db)"
    "ar_id row = adb_next_id db" "ar_session_id row = session" "ar_prev_hash row = last_row_hash session db"
    "ar_row_hash row = sha256 (row_payload row)"
    "row_fields row = [action, tool, show_int cost, ts, last_row_hash session db, idg, odg]"
  using assms by (auto simp: append_row_def Let_def row_payload_def row_hash_def row_fields_def opt_fmt_def)

lemma append_row_inv:
  assumes inv: "audit_inv sha256 db" and app: "append_row sha256 session action tool ij oj cost err ts idg odg db = (i, db')"
  shows "audit_inv sha256 db'"
  using app
proof (rule append_row_shape)
  fix row
  assume row: "adb_rows db' = adb_rows db @ [row]" "adb_next_id db' = adb_next_id db + 1"
    "adb_heads db' = upsert_head session (ar_id row) (ar_row_hash row) (adb_heads db)"
    "ar_id row = adb_next_id db" "ar_session_id row = session" "ar_prev_hash row = last_row_hash session db"
    "ar_row_hash row = sha256 (row_payload row)"
  have below: "\<forall>r \<in> set (adb_rows db). ar_id r < adb_next_id db" and sorted: "sorted (map ar_id (adb_rows db))"
    using inv by (auto simp: audit_inv_def)
  then have sorted': "sorted (map ar_id (adb_rows db'))"
    using row(1,4) by (auto simp: sorted_append)
  have rows: "session_rows s db' = session_rows s db @ (if s = session then [row] else [])" for s
    using row(1,5) by (auto simp: session_rows_sorted [OF sorted] session_rows_sorted [OF sorted'])
  have "chain.linked sha256 [] (session_rows s db')" for s
    using inv row(6,7) by (simp add: rows audit_inv_def chain.linked_snoc last_row_hash_eq)
  moreover have "chain_head_of s db' = head_of_rows s (session_rows s db')" for s
  proof -
    have "chain_head_of s db = head_of_rows s (session_rows s db)" using inv by (simp add: audit_inv_def)
    then show ?thesis
      by (auto simp: chain_head_of_def row(3) find_upsert_head rows head_of_rows_def)
  qed
  ultimately show ?thesis using sorted' below row(1,2,4) by (auto simp: audit_inv_def)
qed

lemma audit_reachable_inv: "audit_reachable sha256 pq ue db \<Longrightarrow> audit_inv sha256 db"
proof (induction rule: audit_reachable.induct)
  case start
  then show ?case
    by (simp add: audit_inv_def empty_audit_def session_rows_def chain_head_of_def head_of_rows_def)
next
  case (append db ts session action tool inputs outputs cost err)
  then show ?case
    unfolding audit_log_def Let_def by (metis append_row_inv prod.collapse)
qed

lemma head_of_rows_ok: "head_ok (head_of_rows s rows) rows"
  by (simp add: head_ok_def head_of_rows_def)

text \<open>
  C37. The log verifies what it writes: after any sequence of appends of any texts, interleaved over any sessions,
  every session's chain verifies.
\<close>

theorem audit_log_verifies:
  assumes "audit_reachable sha256 pq ue db"
  shows "verify_chain sha256 s db"
  using audit_reachable_inv [OF assms] by (simp add: verify_chain_iff audit_inv_def head_of_rows_ok)

text \<open>
  Deletion is detected. Remove rows from a log the program wrote, from the end of a session, from its
  middle or all of them: the session's chain no longer verifies.
\<close>

theorem audit_deletion_detected:
  assumes "audit_reachable sha256 pq ue db"
    and "r \<in> set (adb_rows db)" and "\<not> keep r"
  shows "\<not> verify_chain sha256 (ar_session_id r) (db\<lparr>adb_rows := filter keep (adb_rows db)\<rparr>)"
proof -
  let ?s = "ar_session_id r" let ?db = "db\<lparr>adb_rows := filter keep (adb_rows db)\<rparr>"
  have inv: "audit_inv sha256 db" using assms(1) by (rule audit_reachable_inv)
  have "length (filter keep (filter (\<lambda>x. ar_session_id x = ?s) (adb_rows db)))
      < length (filter (\<lambda>x. ar_session_id x = ?s) (adb_rows db))"
    using assms(2,3) by (intro length_filter_less) auto
  then have "length (session_rows ?s ?db) < length (session_rows ?s db)"
    by (simp add: session_rows_def conj_commute)
  moreover have nonempty: "session_rows ?s db \<noteq> []"
  proof -
    have "r \<in> set (session_rows ?s db)" using assms(2) by (simp add: session_rows_def)
    then show ?thesis by auto
  qed
  then have "chain_head_of ?s ?db = head_of_rows ?s (session_rows ?s db)"
    using inv by (simp add: audit_inv_def chain_head_of_def)
  ultimately show ?thesis
    using nonempty by (auto simp: verify_chain_iff head_ok_def head_of_rows_def)
qed

text \<open>
  The payload joins its fields with colons and escapes none. The fields the program computes itself are free of them;
  of the texts a caller passes, a row is readable back from its payload when the action, the tool and the timestamp are.
\<close>

definition texts_colon_free :: "audit_row \<Rightarrow> bool" where
  "texts_colon_free r \<longleftrightarrow> colon_free (ar_action_type r) \<and> colon_free (ar_tool_name r) \<and> colon_free (ar_timestamp r)"

lemma texts_colon_free_fields:
  "texts_colon_free r \<longleftrightarrow> list_all colon_free [row_fields r ! 0, row_fields r ! 1, row_fields r ! 3]"
  by (simp add: texts_colon_free_def row_fields_def)

lemma audit_reachable_plain:
  assumes "audit_reachable sha256 pq ue db" and hex: "\<And>x. colon_free (sha256 x)" and "r \<in> set (adb_rows db)" and "texts_colon_free r"
  shows "plain_row r"
  using assms(1,3)
proof (induction rule: audit_reachable.induct)
  case start
  then show ?case by (simp add: empty_audit_def)
next
  case (append db ts session action tool inputs outputs cost err)
  have inv: "audit_inv sha256 db" using append.hyps(1) by (rule audit_reachable_inv)
  have last: "colon_free (last_row_hash session db)"
  proof (cases "session_rows session db" rule: rev_cases)
    case (snoc rs l)
    with inv have "ar_row_hash l = sha256 (row_payload l)"
      by (metis audit_inv_def chain.linked_snoc)
    with snoc hex show ?thesis by (simp add: last_row_hash_def)
  qed (simp add: last_row_hash_def)
  obtain i db' where app: "audit_log sha256 pq ue ts session action tool inputs outputs cost err db = (i, db')"
    by fastforce
  then show ?case unfolding audit_log_def Let_def
  proof (rule append_row_shape)
    fix row
    assume rows: "adb_rows db' = adb_rows db @ [row]"
      and fields: "row_fields row = [action, tool, show_int cost, ts, last_row_hash session db,
        audit_digest sha256 (plain_json (sanitize_inputs pq ue inputs)),
        audit_digest sha256 (case sanitize pq ue [] outputs of PStr s \<Rightarrow> s | v \<Rightarrow> plain_json v)]"
    show ?thesis
    proof (cases "r = row")
      case True
      with assms(4) have "list_all colon_free [action, tool, ts]" by (simp add: texts_colon_free_fields fields)
      with last hex True show ?thesis by (simp add: plain_row_def fields show_int_colon_free audit_digest_def)
    next
      case False
      have "r \<in> set (adb_rows db')" using append.prems by (simp add: app)
      with False rows show ?thesis using append.IH by simp
    qed
  qed
qed

text \<open>
  C18. Tampering is detected, up to hash collisions and colons in texts. Take a log the program wrote and any altered table
  with the same heads, its rows edited, swapped, forged or relinked at will. If a session that has rows still verifies, and
  its rows were written with actions, tools and timestamps without colons, then each of its rows still has the id, action,
  tool, cost, timestamp, predecessor and digests it was written with, unless the alteration found two payloads with one
  digest. Digests are hexadecimal.
\<close>

theorem audit_tampering_detected:
  assumes reach: "audit_reachable sha256 pq ue db" and hex: "\<And>x. colon_free (sha256 x)"
    and heads: "adb_heads db' = adb_heads db" and rows: "session_rows s db \<noteq> []"
    and verifies: "verify_chain sha256 s db'"
    and texts: "\<forall>r \<in> set (session_rows s db). texts_colon_free r"
    and no_collision: "\<forall>r \<in> set (session_rows s db). \<forall>r' \<in> set (session_rows s db').
      sha256 (row_payload r) = sha256 (row_payload r') \<longrightarrow> row_payload r = row_payload r'"
  shows "map ar_id (session_rows s db') = map ar_id (session_rows s db) \<and>
     map row_fields (session_rows s db') = map row_fields (session_rows s db)"
proof -
  have inv: "audit_inv sha256 db" using reach by (rule audit_reachable_inv)
  have "chain_head_of s db' = head_of_rows s (session_rows s db)"
    using inv heads by (simp add: audit_inv_def chain_head_of_def)
  with verifies rows have len: "length (session_rows s db) = length (session_rows s db')"
    and last: "chain.last_hash [] (session_rows s db) = chain.last_hash [] (session_rows s db')"
    by (auto simp: verify_chain_iff head_ok_def head_of_rows_def chain.last_hash_def split: if_splits)
  have mem: "\<forall>r \<in> set (session_rows s d). ar_session_id r = s" for d by (auto simp: session_rows_def)
  have plain: "\<forall>r \<in> set (session_rows s db). plain_row r"
    using audit_reachable_plain [OF reach hex] texts by (auto simp: session_rows_def)
  have same: "map row_payload (session_rows s db) = map row_payload (session_rows s db')"
    using inv verifies len last mem plain no_collision
    by (intro chain.same_end_same_payloads [where s = s and ?sha256.0 = sha256 and p = "[]"])
      (auto simp: audit_inv_def verify_chain_iff)
  have "ar_id (session_rows s db' ! i) = ar_id (session_rows s db ! i) \<and>
      row_fields (session_rows s db' ! i) = row_fields (session_rows s db ! i)"
    if i: "i < length (session_rows s db)" for i
  proof -
    have "row_payload (session_rows s db ! i) = row_payload (session_rows s db' ! i)"
      using same i len by (metis nth_map)
    moreover have "session_rows s db ! i \<in> set (session_rows s db)" "session_rows s db' ! i \<in> set (session_rows s db')"
      using i len by auto
    ultimately show ?thesis using mem plain row_payload_inj by metis
  qed
  with len show ?thesis by (simp add: list_eq_iff_nth_eq)
qed

text \<open>
  Redaction keeps the chain. Overwriting the raw inputs and outputs of rows that carry digests changes
  nothing about which sessions verify.
\<close>

theorem audit_redaction_keeps_chain:
  assumes "\<forall>r \<in> set (adb_rows db). ar_inputs_digest r \<noteq> None"
  shows "verify_chain sha256 s (db\<lparr>adb_rows := map (\<lambda>r. r\<lparr>ar_inputs_json := f r, ar_outputs_json := g r\<rparr>) (adb_rows db)\<rparr>)
     = verify_chain sha256 s db"
proof -
  let ?red = "\<lambda>r. r\<lparr>ar_inputs_json := f r, ar_outputs_json := g r\<rparr>"
  let ?db = "db\<lparr>adb_rows := map ?red (adb_rows db)\<rparr>"
  have insort: "insort_key ar_id (?red x) (map ?red xs) = map ?red (insort_key ar_id x xs)" for x xs
    by (induction xs) auto
  have "sort_key ar_id (map ?red xs) = map ?red (sort_key ar_id xs)" for xs
    by (induction xs) (simp_all add: insort)
  then have rows: "session_rows s ?db = map ?red (session_rows s db)"
    by (simp add: session_rows_def filter_map comp_def)
  have heads: "head_ok h (map ?red rs) = head_ok h rs" for h rs
    by (cases "rs = []"; cases h) (simp_all add: head_ok_def last_map)
  have links: "verify_rows sha256 ok p (map ?red rs) = verify_rows sha256 ok p rs"
    if "\<forall>r \<in> set rs. ar_inputs_digest r \<noteq> None" for ok p rs
    using that by (induction sha256 ok p rs rule: verify_rows.induct) (auto simp: Let_def row_payload_def)
  have "\<forall>r \<in> set (session_rows s db). ar_inputs_digest r \<noteq> None" using assms by (simp add: session_rows_def)
  then show ?thesis by (simp add: verify_chain_def rows heads links chain_head_of_def Let_def)
qed

text \<open>The error text of a row is in neither formula: rewriting it goes unnoticed.\<close>

lemma audit_error_not_bound:
  "row_payload (r\<lparr>ar_error := e\<rparr>) = row_payload r"
  by (simp add: row_payload_def split: option.split)

section \<open>What redaction guarantees\<close>

text \<open>Every value under a sensitive key, at any depth.\<close>

fun secrets_redacted :: "pyval \<Rightarrow> bool" where
  "secrets_redacted (PDict d) \<longleftrightarrow>
     list_all (\<lambda>b. b) (map (\<lambda>(k, v). (sensitive k \<longrightarrow> v = PStr REDACTED) \<and> secrets_redacted v) d)"
| "secrets_redacted (PList vs) \<longleftrightarrow> list_all (\<lambda>b. b) (map secrets_redacted vs)"
| "secrets_redacted v \<longleftrightarrow> True"

lemma sanitize_sensitive: "sensitive k \<Longrightarrow> sanitize pq ue k v = PStr REDACTED"
  by (cases v) auto

text \<open>
  Nothing written to the log carries a value under a credential-like key: whatever the inputs or outputs
  of a tool are, at every depth the value of a key that contains one of the sensitive words is the
  redaction mark.
\<close>

theorem sanitize_redacts: "secrets_redacted (sanitize pq ue k v)"
  by (induction pq ue k v rule: sanitize.induct) (auto simp: list_all_iff sanitize_sensitive)

section \<open>A concrete log\<close>

text \<open>Two rows of one session and one of another, under a digest that only counts; enough for the chain.\<close>

definition count_digest :: "str \<Rightarrow> str" where
  "count_digest s = show_int (int (length s))"

definition log_sample :: "str \<Rightarrow> str \<Rightarrow> audit_db \<Rightarrow> audit_db" where
  "log_sample session tool db =
     snd (audit_log count_digest (\<lambda>_. []) (\<lambda>_. []) ''1.5'' session ''tool_call'' tool
       (PDict []) PNone 1 [] db)"

definition sample_audit :: audit_db where
  "sample_audit = log_sample ''s1'' ''grep'' (log_sample ''s2'' ''ls'' (log_sample ''s1'' ''cat'' empty_audit))"

lemma sample_audit_reachable: "audit_reachable count_digest (\<lambda>_. []) (\<lambda>_. []) sample_audit"
  unfolding sample_audit_def log_sample_def
  by (intro audit_reachable.append audit_reachable.start)

lemma count_digest_hex: "colon_free (count_digest x)"
  by (simp add: count_digest_def show_int_colon_free)

theorem audit_log_verifies_witness: "verify_chain count_digest ''s1'' sample_audit"
  using sample_audit_reachable by (rule audit_log_verifies)

definition first_row :: audit_row where
  "first_row = hd (adb_rows sample_audit)"

lemma first_row_facts:
  "first_row \<in> set (adb_rows sample_audit)" "ar_session_id first_row = ''s1''" "\<not> 1 < ar_id first_row"
  by code_simp+

theorem audit_deletion_detected_witness:
  "\<not> verify_chain count_digest ''s1'' (sample_audit\<lparr>adb_rows := filter (\<lambda>r. 1 < ar_id r) (adb_rows sample_audit)\<rparr>)"
  using audit_deletion_detected [OF sample_audit_reachable first_row_facts(1), of "\<lambda>r. 1 < ar_id r"] first_row_facts
  by simp

text \<open>The rows of \<open>s1\<close> are the first and the third; reversing the table does not reorder them.\<close>

definition third_row :: audit_row where
  "third_row = last (adb_rows sample_audit)"

lemma sample_session_rows:
  "session_rows ''s1'' sample_audit = [first_row, third_row]"
  "session_rows ''s1'' (sample_audit\<lparr>adb_rows := rev (adb_rows sample_audit)\<rparr>) = [first_row, third_row]"
  by code_simp+

lemma sample_texts: "list_all texts_colon_free [first_row, third_row]"
  by code_simp

lemma sample_payload_lengths: "length (row_payload first_row) = 29" "length (row_payload third_row) = 32"
  by code_simp+

theorem audit_tampering_detected_witness:
  "map row_fields (session_rows ''s1'' (sample_audit\<lparr>adb_rows := rev (adb_rows sample_audit)\<rparr>))
     = map row_fields (session_rows ''s1'' sample_audit)"
proof -
  let ?db = "sample_audit\<lparr>adb_rows := rev (adb_rows sample_audit)\<rparr>"
  have "verify_chain count_digest ''s1'' sample_audit"
    using audit_reachable_inv [OF sample_audit_reachable] by (simp add: verify_chain_iff audit_inv_def head_of_rows_ok)
  then have "verify_chain count_digest ''s1'' ?db"
    by (simp add: verify_chain_def sample_session_rows chain_head_of_def)
  with audit_tampering_detected [OF sample_audit_reachable count_digest_hex, of ?db "''s1''"]
  show ?thesis using sample_texts by (simp add: sample_session_rows count_digest_def show_int_inj sample_payload_lengths)
qed

theorem audit_redaction_keeps_chain_witness:
  "verify_chain count_digest ''s1''
     (sample_audit\<lparr>adb_rows := map (\<lambda>r. r\<lparr>ar_inputs_json := ''x'', ar_outputs_json := ''y''\<rparr>) (adb_rows sample_audit)\<rparr>)
   = verify_chain count_digest ''s1'' sample_audit"
proof (rule audit_redaction_keeps_chain)
  show "\<forall>r \<in> set (adb_rows sample_audit). ar_inputs_digest r \<noteq> None" by code_simp
qed

end
