(* ===== verification/Tool_Policy.thy ===== *)
theory Tool_Policy
  imports Prelude
begin

text \<open>
  The tool security boundary, \<^verbatim>\<open>runtime/tool_policy.py\<close>: risk classes, the per-slug grants,
  the permanently prohibited tools, the boot assertion over the frozen manifest and the live
  registry, and the policy decision the dispatcher asks for. The tables are the module's own.
  SHA-256 is an argument (\<open>sha256\<close>) of the definitions that hash.
\<close>

section \<open>Risk classes\<close>

datatype risk =
    Read_Only | Filesystem_Write | Network | Browser | Shell | Subagent
  | Deployment | Payment | Admin | Prohibited

fun risk_str :: "risk \<Rightarrow> str" where
  "risk_str Read_Only = ''read_only''"
| "risk_str Filesystem_Write = ''filesystem_write''"
| "risk_str Network = ''network''"
| "risk_str Browser = ''browser''"
| "risk_str Shell = ''shell''"
| "risk_str Subagent = ''subagent''"
| "risk_str Deployment = ''deployment''"
| "risk_str Payment = ''payment''"
| "risk_str Admin = ''admin''"
| "risk_str Prohibited = ''prohibited''"

lemma risk_str_inj: "risk_str a = risk_str b \<Longrightarrow> a = b"
  by (cases a; cases b) simp_all

text \<open>\<open>sorted(...)\<close> over risk classes compares their names.\<close>

instantiation risk :: linorder
begin

definition less_eq_risk :: "risk \<Rightarrow> risk \<Rightarrow> bool" where
  "less_eq_risk a b \<longleftrightarrow> risk_str a \<le> risk_str b"

definition less_risk :: "risk \<Rightarrow> risk \<Rightarrow> bool" where
  "less_risk a b \<longleftrightarrow> risk_str a < risk_str b"

instance
  by standard (auto simp: less_eq_risk_def less_risk_def dest: risk_str_inj)

end

section \<open>Tables\<close>

definition SLUG_ALLOWED_RISKS :: "(str \<times> risk list) list" where
  [table_defs]: "SLUG_ALLOWED_RISKS = [
    (''genesis-ai-vision'', [Read_Only, Filesystem_Write, Network, Browser]),
    (''genesis-analyst'', [Read_Only, Filesystem_Write, Network, Browser]),
    (''genesis-billing'', [Read_Only, Filesystem_Write, Network, Browser]),
    (''genesis-builder'', [Read_Only, Filesystem_Write, Shell, Browser, Deployment, Network]),
    (''genesis-commerce'', [Read_Only, Filesystem_Write, Network, Browser]),
    (''genesis-content'', [Read_Only, Filesystem_Write, Network, Browser]),
    (''genesis-data-pipeline'', [Read_Only, Filesystem_Write, Shell, Browser]),
    (''genesis-deploy'', [Read_Only, Filesystem_Write, Shell, Deployment, Network, Browser]),
    (''genesis-domain'', [Read_Only, Browser]),
    (''genesis-e4l-ap'', [Read_Only, Filesystem_Write, Network]),
    (''genesis-e4l-ar'', [Read_Only, Filesystem_Write, Network]),
    (''genesis-e4l-cash'', [Read_Only, Filesystem_Write, Network]),
    (''genesis-e4l-close'', [Read_Only, Filesystem_Write, Network]),
    (''genesis-e4l-cogs-cm'', [Read_Only, Filesystem_Write, Network]),
    (''genesis-e4l-commissions'', [Read_Only, Filesystem_Write, Network]),
    (''genesis-e4l-controller'', [Read_Only, Filesystem_Write, Network]),
    (''genesis-e4l-fs-integrity'', [Read_Only, Filesystem_Write, Network]),
    (''genesis-e4l-intercompany'', [Read_Only, Filesystem_Write, Network]),
    (''genesis-e4l-journals'', [Read_Only, Filesystem_Write, Network]),
    (''genesis-e4l-revenue'', [Read_Only, Filesystem_Write, Network]),
    (''genesis-e4l-shopify'', [Read_Only, Filesystem_Write, Network]),
    (''genesis-e4l-stripe'', [Read_Only, Filesystem_Write, Network]),
    (''genesis-e4l-treasury'', [Read_Only, Filesystem_Write, Network]),
    (''genesis-email'', [Read_Only, Filesystem_Write, Network, Browser]),
    (''genesis-finance'', [Read_Only, Filesystem_Write, Network]),
    (''genesis-hr'', [Read_Only, Filesystem_Write, Network, Browser]),
    (''genesis-legal'', [Read_Only, Filesystem_Write, Network, Browser]),
    (''genesis-maintenance'', [Read_Only, Browser]),
    (''genesis-marketing'', [Read_Only, Filesystem_Write, Network, Browser]),
    (''genesis-meta'', [Read_Only, Filesystem_Write, Subagent, Browser]),
    (''genesis-onboarding'', [Read_Only, Browser]),
    (''genesis-pricing'', [Read_Only, Browser]),
    (''genesis-qa'', [Read_Only, Filesystem_Write, Shell, Browser, Network]),
    (''genesis-research'', [Read_Only, Filesystem_Write, Network, Browser]),
    (''genesis-security'', [Read_Only, Filesystem_Write, Shell, Network, Browser]),
    (''genesis-seo'', [Read_Only, Filesystem_Write, Network, Browser]),
    (''genesis-support'', [Read_Only, Filesystem_Write, Network, Browser]),
    (''genesis-workflow-automator'', [Read_Only, Filesystem_Write, Network, Browser])]"

definition DEFAULT_ALLOWED_RISKS :: "risk list" where
  [table_defs]: "DEFAULT_ALLOWED_RISKS = [Read_Only]"

definition HUMAN_ONLY_TOOLS :: "str list" where
  [table_defs]: "HUMAN_ONLY_TOOLS = [''send_email'']"

definition PROHIBITION_GROUPS :: "(str \<times> str) list" where
  [table_defs]: "PROHIBITION_GROUPS = [
    (''finance_run_payroll_batch'', ''A''),
    (''finance_process_vendor_invoice'', ''A''),
    (''finance_run_finance_close'', ''A''),
    (''billing_run_dunning_batch'', ''A''),
    (''billing_run_billing_cycle'', ''A''),
    (''commerce_register_domain'', ''A''),
    (''commerce_activate_payment_gateway'', ''A''),
    (''commerce_ship_fulfillment_batch'', ''A''),
    (''commerce_launch_commerce_stack'', ''A''),
    (''pricing_purchase_dataset'', ''A''),
    (''pricing_run_pricing_cycle'', ''A''),
    (''domain_create_intent_mandate'', ''A''),
    (''domain_register'', ''A''),
    (''domain_select_and_register'', ''A''),
    (''escrow_client.initiate_escrow'', ''A''),
    (''escrow_client.complete_escrow'', ''A''),
    (''escrow_client.release_escrow'', ''A''),
    (''escrow_client.calculate_split'', ''B''),
    (''pricing_generate_pricing_report'', ''C''),
    (''workflow_webhook_trigger'', ''A'')]"

definition SLUG_SCOPED_ONLY :: "str list" where
  [table_defs]: "SLUG_SCOPED_ONLY = [''workflow_webhook_trigger'']"

definition PROHIBITED_TOOLS :: "str list" where
  "PROHIBITED_TOOLS = filter (\<lambda>name. name \<notin> set SLUG_SCOPED_ONLY) (map fst PROHIBITION_GROUPS)"

definition PROHIBITED_TOOLS_BY_SLUG :: "(str \<times> str list) list" where
  [table_defs]: "PROHIBITED_TOOLS_BY_SLUG = [
    (''genesis-finance'', [''workflow_webhook_trigger'']),
    (''genesis-billing'', [''workflow_webhook_trigger'']),
    (''genesis-commerce'', [''workflow_webhook_trigger'']),
    (''genesis-pricing'', [''workflow_webhook_trigger''])]"

definition PROHIBITION_MANIFEST_NAMES :: "str list" where
  "PROHIBITION_MANIFEST_NAMES = sort (map fst PROHIBITION_GROUPS)"

definition TOOL_RISK_BY_NAME :: "(str \<times> risk) list" where
  [table_defs]: "TOOL_RISK_BY_NAME = [
    (''file_write'', Filesystem_Write),
    (''code_format'', Read_Only),
    (''genesis_call'', Subagent),
    (''conduit'', Browser),
    (''workspace_shell'', Shell),
    (''web_search'', Network),
    (''web_fetch'', Network),
    (''xero_scoped_invoke'', Network),
    (''financeos_invoice_proof'', Network),
    (''financeos_verify_api'', Network),
    (''financeos_get_invoice_proof'', Network),
    (''financeos_get_verify_api'', Network),
    (''finance_sync_bank_fees'', Payment),
    (''finance_import_x402_transactions'', Payment),
    (''finance_generate_finance_report'', Read_Only),
    (''finance_get_budget_metrics'', Read_Only),
    (''finance_get_audit_log'', Read_Only),
    (''finance_get_alerts'', Read_Only),
    (''billing_import_ar_ledger'', Payment),
    (''billing_deploy_plan_change'', Payment),
    (''billing_generate_revops_report'', Read_Only),
    (''billing_get_budget_metrics'', Read_Only),
    (''billing_get_audit_log'', Read_Only),
    (''billing_get_alerts'', Read_Only),
    (''commerce_configure_tax_engine'', Payment),
    (''commerce_get_budget_metrics'', Read_Only),
    (''commerce_get_audit_log'', Read_Only),
    (''commerce_get_alerts'', Read_Only),
    (''pricing_run_elasticity_experiment'', Payment),
    (''pricing_deploy_pricing_update'', Payment),
    (''pricing_get_budget_metrics'', Read_Only),
    (''pricing_get_audit_log'', Read_Only),
    (''pricing_get_alerts'', Read_Only),
    (''domain_check_availability'', Read_Only),
    (''domain_get_cost_summary'', Read_Only),
    (''domain_generate_candidates'', Read_Only),
    (''domain_configure_dns'', Deployment),
    (''workflow_zapier_export'', Filesystem_Write),
    (''workflow_n8n_export'', Filesystem_Write),
    (''workflow_make_export'', Filesystem_Write),
    (''workflow_webhook_trigger'', Network),
    (''data_s3_signed_url'', Payment),
    (''data_bigquery_query'', Read_Only),
    (''data_dbt_compile'', Filesystem_Write),
    (''data_pipeline_design'', Filesystem_Write),
    (''data_quality_check'', Read_Only),
    (''data_get_editor_context'', Read_Only),
    (''data_get_gcp_connection'', Read_Only),
    (''data_list_resource_templates'', Read_Only),
    (''data_read_resource'', Read_Only),
    (''github_tool'', Deployment),
    (''run_code'', Shell),
    (''send_email'', Network),
    (''screenshot_url'', Network),
    (''vision_analyze'', Network),
    (''vision_ocr'', Network),
    (''vision_compare'', Network),
    (''hr_bamboohr_query'', Network),
    (''hr_greenhouse_query'', Network),
    (''hr_lever_query'', Network),
    (''hr_template_generate'', Filesystem_Write)]"

section \<open>The manifest\<close>

definition prohibition_manifest_digest :: "(str \<Rightarrow> str) \<Rightarrow> str" where
  "prohibition_manifest_digest sha256 = sha256 (canonical_json (PList (map PStr PROHIBITION_MANIFEST_NAMES)))"

text \<open>The manifest file is its text, or \<open>None\<close> when reading it raises \<open>OSError\<close>. The first line
  that is neither blank nor a comment gives the digest.\<close>

fun first_manifest_line :: "str list \<Rightarrow> str option" where
  "first_manifest_line [] = None"
| "first_manifest_line (raw # ls) =
     (let line = strip raw in
      if line \<noteq> [] \<and> \<not> startswith line ''#'' then Some (lower (hd (split_ws line)))
      else first_manifest_line ls)"

definition read_manifest_digest :: "str option \<Rightarrow> str option" where
  "read_manifest_digest manifest =
     (case manifest of None \<Rightarrow> None | Some txt \<Rightarrow> first_manifest_line (splitlines txt))"

section \<open>Decisions\<close>

definition slug_prohibited :: "str \<Rightarrow> str list" where
  "slug_prohibited slug = (case map_of PROHIBITED_TOOLS_BY_SLUG slug of Some ts \<Rightarrow> ts | None \<Rightarrow> [])"

definition is_prohibited :: "str \<Rightarrow> str option \<Rightarrow> bool" where
  "is_prohibited tool_name agent_slug =
     (if tool_name \<in> set PROHIBITED_TOOLS then True
      else case agent_slug of
             None \<Rightarrow> False
           | Some slug \<Rightarrow> slug \<noteq> [] \<and> tool_name \<in> set (slug_prohibited slug))"

definition prohibition_group :: "str \<Rightarrow> str" where
  "prohibition_group tool_name = (case map_of PROHIBITION_GROUPS tool_name of Some g \<Rightarrow> g | None \<Rightarrow> ''A'')"

definition allowed_risks_of :: "str \<Rightarrow> risk list" where
  "allowed_risks_of slug =
     (case map_of SLUG_ALLOWED_RISKS slug of Some rs \<Rightarrow> rs | None \<Rightarrow> DEFAULT_ALLOWED_RISKS)"

definition get_tool_risk_by_name :: "str \<Rightarrow> risk" where
  "get_tool_risk_by_name tool_name =
     (if tool_name \<in> set PROHIBITED_TOOLS then Prohibited
      else case map_of TOOL_RISK_BY_NAME tool_name of Some r \<Rightarrow> r | None \<Rightarrow> Admin)"

definition is_tool_allowed :: "str \<Rightarrow> str \<Rightarrow> bool" where
  "is_tool_allowed agent_slug tool_name =
     (if tool_name \<in> set HUMAN_ONLY_TOOLS then False
      else get_tool_risk_by_name tool_name \<in> set (allowed_risks_of agent_slug))"

record policy_result =
  pol_ok :: bool
  pol_tool_name :: str
  pol_agent_slug :: str
  pol_risk_class :: risk
  pol_allowed_risks :: "risk list"
  pol_prohibition_group :: "str option"
  pol_error :: "str option"

definition check_tool_policy :: "str \<Rightarrow> str \<Rightarrow> policy_result" where
  "check_tool_policy agent_slug tool_name =
     (if is_prohibited tool_name (Some agent_slug) then
        \<lparr>pol_ok = False, pol_tool_name = tool_name, pol_agent_slug = agent_slug,
         pol_risk_class = Prohibited, pol_allowed_risks = sort (allowed_risks_of agent_slug),
         pol_prohibition_group = Some (prohibition_group tool_name),
         pol_error = Some ''tool_policy_denied''\<rparr>
      else if tool_name \<in> set HUMAN_ONLY_TOOLS then
        \<lparr>pol_ok = False, pol_tool_name = tool_name, pol_agent_slug = agent_slug,
         pol_risk_class = get_tool_risk_by_name tool_name,
         pol_allowed_risks = sort (allowed_risks_of agent_slug),
         pol_prohibition_group = None, pol_error = Some ''human_action_required''\<rparr>
      else
        let risk = get_tool_risk_by_name tool_name;
            allowed = allowed_risks_of agent_slug;
            okay = risk \<in> set allowed in
        \<lparr>pol_ok = okay, pol_tool_name = tool_name, pol_agent_slug = agent_slug,
         pol_risk_class = risk, pol_allowed_risks = sort allowed,
         pol_prohibition_group = None,
         pol_error = (if okay then None else Some ''tool_policy_denied'')\<rparr>)"

section \<open>The boot assertion\<close>

datatype boot_error =
    Manifest_Missing
  | Manifest_Mismatch str str
  | Prohibited_Registered "str list"
  | Slug_Grants_Prohibited str
  | Default_Grants_Prohibited
  | Payment_Granted "str list"
  | Default_Grants_Payment

definition payment_holders :: "str list" where
  "payment_holders = sort (map fst (filter (\<lambda>(slug, allowed). Payment \<in> set allowed) SLUG_ALLOWED_RISKS))"

definition assert_prohibitions_intact ::
  "(str \<Rightarrow> str) \<Rightarrow> str option \<Rightarrow> str list \<Rightarrow> boot_error + unit" where
  "assert_prohibitions_intact sha256 manifest registry =
     (let expected = prohibition_manifest_digest sha256 in
      case read_manifest_digest manifest of
        None \<Rightarrow> Inl Manifest_Missing
      | Some on_disk \<Rightarrow>
          if on_disk \<noteq> expected then Inl (Manifest_Mismatch expected on_disk)
          else
            let present = sort (filter (\<lambda>t. t \<in> set registry) PROHIBITED_TOOLS) in
            if present \<noteq> [] then Inl (Prohibited_Registered present)
            else case find (\<lambda>(slug, allowed). Prohibited \<in> set allowed) SLUG_ALLOWED_RISKS of
                   Some (slug, _) \<Rightarrow> Inl (Slug_Grants_Prohibited slug)
                 | None \<Rightarrow>
                     if Prohibited \<in> set DEFAULT_ALLOWED_RISKS then Inl Default_Grants_Prohibited
                     else if payment_holders \<noteq> [] then Inl (Payment_Granted payment_holders)
                     else if Payment \<in> set DEFAULT_ALLOWED_RISKS then Inl Default_Grants_Payment
                     else Inr ())"

section \<open>Facts about the tables\<close>

text \<open>What the tables grant and classify, each read off by evaluation.\<close>

lemma grants_bounded:
  "list_all (\<lambda>(slug, rs). list_all (\<lambda>r. r \<notin> set [Payment, Admin, Prohibited]) rs) SLUG_ALLOWED_RISKS"
  unfolding SLUG_ALLOWED_RISKS_def by simp

lemma allowed_risks_bounded: "r \<in> set (allowed_risks_of slug) \<Longrightarrow> r \<notin> {Payment, Admin, Prohibited}"
  using grants_bounded
  by (auto simp: allowed_risks_of_def DEFAULT_ALLOWED_RISKS_def list_all_iff
           split: option.splits dest!: map_of_SomeD)

lemma no_risk_entry_prohibited: "list_all (\<lambda>(t, r). r \<noteq> Prohibited) TOOL_RISK_BY_NAME"
  unfolding TOOL_RISK_BY_NAME_def by simp

lemma slug_scoped_registered:
  "t \<in> set (slug_prohibited slug) \<Longrightarrow> t = ''workflow_webhook_trigger''"
  by (auto simp: slug_prohibited_def PROHIBITED_TOOLS_BY_SLUG_def split: if_splits option.splits)

lemma payment_holders_Nil: "payment_holders = []"
proof -
  have "filter (\<lambda>(slug, allowed). Payment \<in> set allowed) SLUG_ALLOWED_RISKS = []"
    using grants_bounded by (auto simp: filter_empty_conv list_all_iff)
  then show ?thesis by (simp add: payment_holders_def)
qed

lemma find_prohibited_None:
  "find (\<lambda>(slug, allowed). Prohibited \<in> set allowed) SLUG_ALLOWED_RISKS = None"
  using grants_bounded by (auto simp: find_None_iff list_all_iff)

lemma check_tool_policy_okD:
  "pol_ok (check_tool_policy slug tool) \<Longrightarrow>
     pol_risk_class (check_tool_policy slug tool) = get_tool_risk_by_name tool \<and>
     get_tool_risk_by_name tool \<in> set (allowed_risks_of slug) \<and>
     \<not> is_prohibited tool (Some slug) \<and> tool \<notin> set HUMAN_ONLY_TOOLS"
  by (auto simp: check_tool_policy_def Let_def split: if_splits)

section \<open>Properties\<close>

lemma map_of_class: "distinct (map fst xs) \<Longrightarrow> (\<exists>v. map_of xs k = Some v \<and> P v) \<longleftrightarrow> k \<in> set (map fst (filter (\<lambda>(_, v). P v) xs))"
  by (force simp: map_of_eq_Some_iff)

lemma distinct_tables: "distinct (map fst TOOL_RISK_BY_NAME)" "distinct (map fst SLUG_ALLOWED_RISKS)"
  by code_simp+

definition tools_of :: "risk \<Rightarrow> str list" where
  "tools_of r = map fst (filter (\<lambda>(_, x). x = r) TOOL_RISK_BY_NAME)"

definition slugs_with :: "risk \<Rightarrow> str list" where
  "slugs_with r = map fst (filter (\<lambda>(_, rs). r \<in> set rs) SLUG_ALLOWED_RISKS)"

lemma tools_of_risk:
  assumes "r \<notin> {Admin, Prohibited}"
  shows "get_tool_risk_by_name tool = r \<longleftrightarrow> tool \<in> set (tools_of r)"
proof -
  have "list_all (\<lambda>t. map_of TOOL_RISK_BY_NAME t = None) PROHIBITED_TOOLS" by code_simp
  then have "tool \<notin> set PROHIBITED_TOOLS" if "map_of TOOL_RISK_BY_NAME tool = Some r" using that by (auto simp: list_all_iff)
  then have "get_tool_risk_by_name tool = r \<longleftrightarrow> (\<exists>x. map_of TOOL_RISK_BY_NAME tool = Some x \<and> x = r)"
    using assms by (auto simp: get_tool_risk_by_name_def split: option.splits)
  then show ?thesis using map_of_class [OF distinct_tables(1), of tool "\<lambda>x. x = r"] by (simp add: tools_of_def)
qed

lemma slugs_with_risk: "r \<noteq> Read_Only \<Longrightarrow> r \<in> set (allowed_risks_of slug) \<longleftrightarrow> slug \<in> set (slugs_with r)"
  using map_of_class [OF distinct_tables(2), of slug "\<lambda>rs. r \<in> set rs"]
  by (auto simp: allowed_risks_of_def DEFAULT_ALLOWED_RISKS_def slugs_with_def split: option.splits)

lemma read_only_granted: "Read_Only \<in> set (allowed_risks_of slug)"
proof -
  have "list_all (\<lambda>(_, rs). Read_Only \<in> set rs) SLUG_ALLOWED_RISKS" by code_simp
  then show ?thesis by (auto simp: allowed_risks_of_def DEFAULT_ALLOWED_RISKS_def list_all_iff split: option.splits dest!: map_of_SomeD)
qed

text \<open>What the boundary is meant to grant, written down apart from the tables: the tools by what they do, and the agents by their desk.\<close>

definition reading_tools :: "str list" where
  "reading_tools =
     [''code_format'', ''finance_generate_finance_report'', ''finance_get_budget_metrics'', ''finance_get_audit_log'',
      ''finance_get_alerts'', ''billing_generate_revops_report'', ''billing_get_budget_metrics'', ''billing_get_audit_log'',
      ''billing_get_alerts'', ''commerce_get_budget_metrics'', ''commerce_get_audit_log'', ''commerce_get_alerts'',
      ''pricing_get_budget_metrics'', ''pricing_get_audit_log'', ''pricing_get_alerts'', ''domain_check_availability'',
      ''domain_get_cost_summary'', ''domain_generate_candidates'', ''data_bigquery_query'', ''data_quality_check'',
      ''data_get_editor_context'', ''data_get_gcp_connection'', ''data_list_resource_templates'', ''data_read_resource'']"

definition writing_tools :: "str list" where
  "writing_tools =
     [''file_write'', ''workflow_zapier_export'', ''workflow_n8n_export'', ''workflow_make_export'', ''data_dbt_compile'',
      ''data_pipeline_design'', ''hr_template_generate'']"

definition network_tools :: "str list" where
  "network_tools =
     [''web_search'', ''web_fetch'', ''xero_scoped_invoke'', ''financeos_invoice_proof'', ''financeos_verify_api'',
      ''financeos_get_invoice_proof'', ''financeos_get_verify_api'', ''screenshot_url'', ''vision_analyze'', ''vision_ocr'',
      ''vision_compare'', ''hr_bamboohr_query'', ''hr_greenhouse_query'', ''hr_lever_query'']"

definition bookkeeping_agents :: "str list" where
  "bookkeeping_agents =
     [''genesis-finance'', ''genesis-e4l-ap'', ''genesis-e4l-ar'', ''genesis-e4l-cash'', ''genesis-e4l-close'', ''genesis-e4l-cogs-cm'',
      ''genesis-e4l-commissions'', ''genesis-e4l-controller'', ''genesis-e4l-fs-integrity'', ''genesis-e4l-intercompany'',
      ''genesis-e4l-journals'', ''genesis-e4l-revenue'', ''genesis-e4l-shopify'', ''genesis-e4l-stripe'', ''genesis-e4l-treasury'']"

definition desk_agents :: "str list" where
  "desk_agents =
     [''genesis-ai-vision'', ''genesis-analyst'', ''genesis-billing'', ''genesis-commerce'', ''genesis-content'', ''genesis-email'',
      ''genesis-hr'', ''genesis-legal'', ''genesis-marketing'', ''genesis-research'', ''genesis-seo'', ''genesis-support'',
      ''genesis-workflow-automator'']"

definition engineering_agents :: "str list" where
  "engineering_agents = [''genesis-builder'', ''genesis-deploy'', ''genesis-qa'', ''genesis-security'']"

lemma tools_by_class:
  "tools_of Read_Only = reading_tools" "tools_of Filesystem_Write = writing_tools"
  "set (tools_of Network) = set (''send_email'' # ''workflow_webhook_trigger'' # network_tools)"
  "tools_of Browser = [''conduit'']" "tools_of Shell = [''workspace_shell'', ''run_code'']" "tools_of Subagent = [''genesis_call'']"
  "tools_of Deployment = [''domain_configure_dns'', ''github_tool'']"
  by code_simp+

lemma slugs_by_grant:
  "set (slugs_with Filesystem_Write) = set (bookkeeping_agents @ desk_agents @ engineering_agents @ [''genesis-data-pipeline'', ''genesis-meta''])"
  "set (slugs_with Network) = set (bookkeeping_agents @ desk_agents @ engineering_agents)"
  "set (slugs_with Browser) = set (desk_agents @ engineering_agents @
     [''genesis-data-pipeline'', ''genesis-meta'', ''genesis-domain'', ''genesis-maintenance'', ''genesis-onboarding'', ''genesis-pricing''])"
  "set (slugs_with Shell) = set (engineering_agents @ [''genesis-data-pipeline''])"
  "set (slugs_with Subagent) = {''genesis-meta''}" "set (slugs_with Deployment) = {''genesis-builder'', ''genesis-deploy''}"
  by code_simp+

lemma webhook_trigger_prohibited:
  "is_prohibited tool (Some slug) \<longleftrightarrow> tool \<in> set PROHIBITED_TOOLS \<or>
     tool = ''workflow_webhook_trigger'' \<and> slug \<in> {''genesis-finance'', ''genesis-billing'', ''genesis-commerce'', ''genesis-pricing''}"
  by (auto simp: is_prohibited_def slug_prohibited_def PROHIBITED_TOOLS_BY_SLUG_def split: if_splits)

lemma check_tool_policy_ok_iff:
  "pol_ok (check_tool_policy slug tool) \<longleftrightarrow>
     get_tool_risk_by_name tool \<in> set (allowed_risks_of slug) \<and> \<not> is_prohibited tool (Some slug) \<and> tool \<notin> set HUMAN_ONLY_TOOLS"
  by (auto simp: check_tool_policy_def Let_def)


text \<open>
  Fail closed, for every slug whatever: a tool whose risk class is payment, admin or
  prohibited is never allowed, a name the risk table does not know resolves to admin and is
  denied, and a human-only tool is denied. An unknown slug is granted read-only tools alone.
\<close>

theorem policy_fail_closed:
  "(get_tool_risk_by_name tool \<in> {Payment, Admin, Prohibited} \<longrightarrow>
       \<not> pol_ok (check_tool_policy slug tool)) \<and>
   (map_of TOOL_RISK_BY_NAME tool = None \<longrightarrow> \<not> pol_ok (check_tool_policy slug tool)) \<and>
   (tool \<in> set HUMAN_ONLY_TOOLS \<longrightarrow> \<not> pol_ok (check_tool_policy slug tool)) \<and>
   (map_of SLUG_ALLOWED_RISKS slug = None \<and> pol_ok (check_tool_policy slug tool) \<longrightarrow>
       get_tool_risk_by_name tool = Read_Only)"
proof (intro conjI impI)
  assume "get_tool_risk_by_name tool \<in> {Payment, Admin, Prohibited}"
  then show "\<not> pol_ok (check_tool_policy slug tool)"
    by (metis check_tool_policy_okD allowed_risks_bounded)
next
  assume "map_of TOOL_RISK_BY_NAME tool = None"
  then have "get_tool_risk_by_name tool \<in> {Admin, Prohibited}"
    by (simp add: get_tool_risk_by_name_def)
  then show "\<not> pol_ok (check_tool_policy slug tool)"
    using check_tool_policy_okD [of slug tool] allowed_risks_bounded [of _ slug] by auto
next
  assume "tool \<in> set HUMAN_ONLY_TOOLS"
  then show "\<not> pol_ok (check_tool_policy slug tool)"
    using check_tool_policy_okD by blast
next
  assume "map_of SLUG_ALLOWED_RISKS slug = None \<and> pol_ok (check_tool_policy slug tool)"
  then show "get_tool_risk_by_name tool = Read_Only"
    using check_tool_policy_okD [of slug tool]
    by (auto simp: allowed_risks_of_def DEFAULT_ALLOWED_RISKS_def)
qed

theorem policy_fail_closed_witness:
  "\<not> pol_ok (check_tool_policy ''genesis-finance'' ''finance_sync_bank_fees'') \<and>
   \<not> pol_ok (check_tool_policy ''genesis-builder'' ''no_such_tool'') \<and>
   \<not> pol_ok (check_tool_policy ''genesis-email'' ''send_email'') \<and>
   pol_ok (check_tool_policy ''nobody'' ''code_format'') \<and>
   get_tool_risk_by_name ''code_format'' = Read_Only"
proof -
  have 1: "get_tool_risk_by_name ''finance_sync_bank_fees'' = Payment" by code_simp
  have 2: "map_of TOOL_RISK_BY_NAME ''no_such_tool'' = None" by code_simp
  have 3: "''send_email'' \<in> set HUMAN_ONLY_TOOLS" by code_simp
  have 4: "map_of SLUG_ALLOWED_RISKS ''nobody'' = None" by code_simp
  have 5: "pol_ok (check_tool_policy ''nobody'' ''code_format'')" by code_simp
  show ?thesis
    using 1 2 3 4 5 policy_fail_closed [of "''finance_sync_bank_fees''" "''genesis-finance''"]
      policy_fail_closed [of "''no_such_tool''" "''genesis-builder''"]
      policy_fail_closed [of "''send_email''" "''genesis-email''"]
      policy_fail_closed [of "''code_format''" "''nobody''"] by simp
qed

text \<open>
  The boot assertion, exactly: it passes if and only if the manifest on disk carries the
  digest of the prohibition list and no prohibited tool is registered. The remaining checks (no
  slug holds the prohibited or the payment class) hold of the tables as they stand.
\<close>

theorem assert_prohibitions_intact_iff:
  "assert_prohibitions_intact sha256 manifest registry = Inr () \<longleftrightarrow>
     read_manifest_digest manifest = Some (prohibition_manifest_digest sha256) \<and>
     set PROHIBITED_TOOLS \<inter> set registry = {}"
proof -
  have "sort (filter (\<lambda>t. t \<in> set registry) PROHIBITED_TOOLS) = [] \<longleftrightarrow>
        set PROHIBITED_TOOLS \<inter> set registry = {}"
    by (metis disjoint_iff filter_empty_conv set_empty set_sort)
  then show ?thesis
    by (auto simp: assert_prohibitions_intact_def Let_def find_prohibited_None
          payment_holders_Nil DEFAULT_ALLOWED_RISKS_def split: option.splits)
qed

end
