(* ===== verification/Accounting.thy ===== *)
theory Accounting
  imports Prelude
begin

text \<open>
  The accounting package: the table of specialists (\<^verbatim>\<open>accounting/specialists.py\<close>), the Xero scope gate
  (\<^verbatim>\<open>accounting/xero_scope.py\<close>) and the specialist router (\<^verbatim>\<open>accounting/router.py\<close>).

  The two YAML files the code loads, the scope map and the routing matrix, are arguments: \<open>None\<close> is a
  file that is missing, \<open>Some v\<close> the value the YAML parser returns. The texts of the \<open>ValueError\<close>s are
  left out.
\<close>

section \<open>Specialists\<close>

definition CONTRACT_TO_SLUG :: "(str \<times> str) list" where [table_defs]:
  "CONTRACT_TO_SLUG =
     [(''e4l-revenue'', ''genesis-e4l-revenue''),
      (''e4l-shopify-ecommerce'', ''genesis-e4l-shopify''),
      (''e4l-stripe-merchant'', ''genesis-e4l-stripe''),
      (''e4l-cash-bank'', ''genesis-e4l-cash''),
      (''e4l-ap'', ''genesis-e4l-ap''),
      (''e4l-ar'', ''genesis-e4l-ar''),
      (''e4l-cogs-cm'', ''genesis-e4l-cogs-cm''),
      (''e4l-affiliate-commission'', ''genesis-e4l-commissions''),
      (''e4l-intercompany'', ''genesis-e4l-intercompany''),
      (''e4l-month-end-close'', ''genesis-e4l-close''),
      (''e4l-journal-propose'', ''genesis-e4l-journals''),
      (''e4l-fs-integrity'', ''genesis-e4l-fs-integrity''),
      (''e4l-controller-review'', ''genesis-e4l-controller''),
      (''e4l-treasury'', ''genesis-e4l-treasury'')]"

definition SLUG_TO_CONTRACT :: "(str \<times> str) list" where [table_defs]:
  "SLUG_TO_CONTRACT = map (\<lambda>(k, v). (v, k)) CONTRACT_TO_SLUG"

definition SPECIALIST_SLUGS :: "str list" where [table_defs]:
  "SPECIALIST_SLUGS = map snd CONTRACT_TO_SLUG"

definition MONEY_STUB_SLUGS :: "str list" where [table_defs]:
  "MONEY_STUB_SLUGS = [''genesis-finance'', ''genesis-billing'', ''genesis-commerce'', ''genesis-pricing'']"

definition ONE_HAT_SLUG :: str where [table_defs]:
  "ONE_HAT_SLUG = ''genesis-e4l-accounting''"

definition ENTITY_KEYS :: "str list" where [table_defs]:
  "ENTITY_KEYS = [''energy4life'', ''ibe'', ''xpo'', ''massey'', ''nesllc'', ''nespty'']"

definition is_e4l_specialist :: "str \<Rightarrow> bool" where
  "is_e4l_specialist slug \<longleftrightarrow> strip slug \<in> set SPECIALIST_SLUGS"

section \<open>Loading contracts\<close>

text \<open>\<open>_read_yaml\<close> on what the file system and the parser give: a missing file raises, an empty one too.\<close>

definition read_yaml :: "pyval option \<Rightarrow> py_exc + pyval" where
  "read_yaml file =
     (case file of None \<Rightarrow> Inl (OSError ''accounting yaml missing'')
      | Some v \<Rightarrow> guardE (v \<noteq> PNone) ValueError (Inr v))"

text \<open>\<open>s.replace(".yaml", "")\<close>.\<close>

fun drop_yaml :: "str \<Rightarrow> str" where
  "drop_yaml s = (case s of [] \<Rightarrow> []
     | c # cs \<Rightarrow> if startswith s ''.yaml'' then drop_yaml (drop 5 s) else c # drop_yaml cs)"

definition load_contract :: "(str \<Rightarrow> pyval option) \<Rightarrow> str \<Rightarrow> py_exc + dict" where
  "load_contract files contract_id =
     (let key0 = drop_yaml (strip contract_id);
          key = (if startswith key0 ''genesis-e4l-''
                 then (case map_of SLUG_TO_CONTRACT key0 of Some c \<Rightarrow> c | None \<Rightarrow> []) else key0) in
      bindE (optE ValueError (map_of CONTRACT_TO_SLUG key)) (\<lambda>expected_slug.
      bindE (read_yaml (files key)) (\<lambda>v.
      bindE (as_dict ValueError v) (\<lambda>data.
      guardE (dget data ''id'' = PStr key) ValueError (
      guardE (dget data ''bundle'' = PStr expected_slug) ValueError (
      Inr data))))))"

definition load_contract_for_slug :: "(str \<Rightarrow> pyval option) \<Rightarrow> str \<Rightarrow> py_exc + dict" where
  "load_contract_for_slug files slug =
     guardE (is_e4l_specialist slug) ValueError (
     bindE (optE (KeyError slug) (map_of SLUG_TO_CONTRACT slug)) (load_contract files))"

section \<open>The Xero scope gate\<close>

definition OPERATION_SCOPE_FAMILY :: "(str \<times> str) list" where [table_defs]:
  "OPERATION_SCOPE_FAMILY =
     [(''create_draft_bill'', ''accounting.contacts''),
      (''create_draft_invoice'', ''accounting.invoices''),
      (''create_draft_manual_journal'', ''accounting.manualjournals''),
      (''create_bank_transaction'', ''accounting.banktransactions''),
      (''attach_file_to_bill'', ''accounting.attachments''),
      (''attach_file_to_invoice'', ''accounting.attachments''),
      (''get_trial_balance'', ''accounting.reports.trialbalance.read''),
      (''get_balance_sheet'', ''accounting.reports.balancesheet.read''),
      (''get_profit_and_loss'', ''accounting.reports.profitandloss.read''),
      (''list_open_payables'', ''accounting.contacts.read''),
      (''list_open_receivables'', ''accounting.contacts.read''),
      (''get_chart_of_accounts'', ''accounting.settings.read''),
      (''get_bank_summary'', ''accounting.reports.banksummary.read'')]"

definition OPERATION_PRIMARY_AGENTS :: "(str \<times> str list) list" where [table_defs]:
  "OPERATION_PRIMARY_AGENTS =
     [(''create_draft_bill'', [''genesis-e4l-ap'']),
      (''create_draft_invoice'', [''genesis-e4l-ar'', ''genesis-e4l-revenue'', ''genesis-e4l-shopify'']),
      (''create_draft_manual_journal'', [''genesis-e4l-journals'', ''genesis-e4l-intercompany'', ''genesis-e4l-close'']),
      (''create_bank_transaction'', [''genesis-e4l-cash'', ''genesis-e4l-treasury'', ''genesis-e4l-stripe'']),
      (''attach_file_to_bill'', [''genesis-e4l-ap'']),
      (''attach_file_to_invoice'', [''genesis-e4l-ar''])]"

definition E4L_PREFIX :: str where [table_defs]:
  "E4L_PREFIX = ''genesis-e4l-''"

definition scope_entry_ok :: "str \<times> pyval \<Rightarrow> bool" where
  "scope_entry_ok e =
     (case e of (key, entry) \<Rightarrow>
        key \<notin> set [''primary_write'', ''read'', ''cato_remediation'', ''policy_note''] \<and>
        (case entry of PDict _ \<Rightarrow> True | _ \<Rightarrow> False))"

definition validate_scope_map_structure :: "dict \<Rightarrow> py_exc + unit" where
  "validate_scope_map_structure data =
     bindE (as_dict ValueError (py_or (dget data ''scopes'') (PDict []))) (\<lambda>scopes.
     guardE (list_all scope_entry_ok scopes) ValueError (Inr ()))"

definition load_scope_map :: "pyval option \<Rightarrow> py_exc + dict" where
  "load_scope_map file =
     (case file of
        None \<Rightarrow> Inr [(''_meta'', PDict []), (''scopes'', PDict []), (''specialist_overrides'', PDict [])]
      | Some v \<Rightarrow>
          bindE (as_dict AttributeError (py_or v (PDict []))) (\<lambda>data.
          bindE (validate_scope_map_structure data) (\<lambda>_. Inr data)))"

text \<open>\<open>(d.get(k) or {})\<close>, whose next attribute access raises unless it is a mapping, and \<open>list(v)\<close>.\<close>

definition sub_dict :: "dict \<Rightarrow> str \<Rightarrow> py_exc + dict" where
  "sub_dict d k = as_dict AttributeError (py_or (dget d k) (PDict []))"

fun py_list :: "pyval \<Rightarrow> py_exc + pyval list" where
  "py_list (PList xs) = Inr xs"
| "py_list (PStr s) = Inr (map (\<lambda>c. PStr [c]) s)"
| "py_list (PDict d) = Inr (map (\<lambda>(k, _). PStr k) d)"
| "py_list _ = Inl TypeError"

definition expand_read :: "pyval option \<Rightarrow> dict \<Rightarrow> py_exc + pyval list" where
  "expand_read file entry =
     (let raw = py_or (dget entry ''read'') (PList []) in
      if raw = PStr ''all_specialists''
      then bindE (load_scope_map file) (\<lambda>data.
           bindE (sub_dict data ''_meta'') (\<lambda>meta.
           py_list (py_or (dget meta ''specialists'') (PList []))))
      else py_list raw)"

definition scope_entry :: "pyval option \<Rightarrow> str \<Rightarrow> py_exc + dict" where
  "scope_entry file scope_key =
     bindE (load_scope_map file) (\<lambda>data.
     bindE (sub_dict data ''scopes'') (\<lambda>scopes.
     sub_dict scopes scope_key))"

definition primary_write :: "pyval option \<Rightarrow> str \<Rightarrow> py_exc + pyval list" where
  "primary_write file scope_key =
     bindE (scope_entry file scope_key) (\<lambda>entry. py_list (py_or (dget entry ''primary_write'') (PList [])))"

definition writes_forbidden :: "pyval option \<Rightarrow> str \<Rightarrow> py_exc + bool" where
  "writes_forbidden file agent_slug =
     bindE (load_scope_map file) (\<lambda>data.
     bindE (sub_dict data ''specialist_overrides'') (\<lambda>overrides.
     bindE (sub_dict overrides agent_slug) (\<lambda>ov.
     Inr (truthy (dget ov ''writes_forbidden'')))))"

definition operation_allowed :: "pyval option \<Rightarrow> str \<Rightarrow> str \<Rightarrow> py_exc + bool \<times> str" where
  "operation_allowed file agent_slug operation =
     (if \<not> startswith agent_slug E4L_PREFIX then Inr (False, ''not_e4l_specialist'')
      else bindE (writes_forbidden file agent_slug) (\<lambda>forbidden.
        if forbidden then
          (let fam = (case map_of OPERATION_SCOPE_FAMILY operation of Some f \<Rightarrow> f | None \<Rightarrow> []) in
           if endswith fam ''.read'' \<or> startswith operation ''get_'' \<or> startswith operation ''list_''
           then Inr (True, ''read_only'') else Inr (False, ''write_forbidden''))
        else
          (case map_of OPERATION_PRIMARY_AGENTS operation of
             Some primary \<Rightarrow>
               if agent_slug \<in> set primary then Inr (True, ''primary_write'')
               else Inr (False, ''operation_denied:'' @ operation)
           | None \<Rightarrow>
               (case map_of OPERATION_SCOPE_FAMILY operation of
                  None \<Rightarrow> Inr (False, ''unknown_operation'')
                | Some fam \<Rightarrow>
                    if endswith fam ''.read'' then
                      bindE (scope_entry file fam) (\<lambda>entry.
                      bindE (expand_read file entry) (\<lambda>readers. Inr (PStr agent_slug \<in> set readers, ''read_scope'')))
                    else bindE (primary_write file fam) (\<lambda>ws. Inr (PStr agent_slug \<in> set ws, ''primary_write''))))))"

definition add_missing :: "str list \<Rightarrow> str \<Rightarrow> str list" where
  "add_missing out name = (if name \<in> set out then out else out @ [name])"

definition augment_tools_advertised :: "str \<Rightarrow> str list \<Rightarrow> str list" where
  "augment_tools_advertised agent_slug tools =
     (if \<not> startswith agent_slug E4L_PREFIX then tools
      else foldl add_missing (add_missing tools ''xero_scoped_invoke'')
             [''financeos_invoice_proof'', ''financeos_verify_api'', ''financeos_get_invoice_proof'',
              ''financeos_get_verify_api''])"

section \<open>The specialist router\<close>

definition FORBIDDEN_SLUGS :: "str list" where [table_defs]:
  "FORBIDDEN_SLUGS = MONEY_STUB_SLUGS @ [''a2x'', ''a2x-specialist'', ONE_HAT_SLUG] @ ENTITY_KEYS"

record route_decision =
  rd_agents :: "pyval list"
  rd_then_fanout :: "pyval list"
  rd_entities :: "pyval list"
  rd_scenario_id :: "str option"
  rd_escalate_to :: pyval
  rd_announce :: pyval
  rd_note :: pyval
  rd_write :: pyval
  rd_forbidden :: "pyval list"
  rd_answer_constraint :: pyval
  rd_ben_only_examples :: "pyval list"
  rd_do_not_invoke :: "pyval list"
  rd_matrix_route :: dict

definition norm_text :: "str \<Rightarrow> str" where
  "norm_text text = join '' '' (split_ws (lower text))"

text \<open>\<open>_norm\<close> on an entry of the matrix, which raises unless it is text or false.\<close>

definition norm_value :: "pyval \<Rightarrow> py_exc + str" where
  "norm_value v =
     (if truthy v then (case v of PStr s \<Rightarrow> Inr (norm_text s) | _ \<Rightarrow> Inl AttributeError) else Inr [])"

definition load_routing_matrix :: "pyval option \<Rightarrow> py_exc + dict" where
  "load_routing_matrix file =
     bindE (read_yaml file) (\<lambda>v.
     bindE (as_dict ValueError v) (\<lambda>data.
     bindE (as_dict AttributeError (case map_of data ''dispatch_contract'' of Some d \<Rightarrow> d | None \<Rightarrow> PDict [])) (\<lambda>dc.
     guardE (dget dc ''pattern'' = PStr ''one_agent_one_job'') ValueError (
     guardE (\<not> str_in ONE_HAT_SLUG (py_str (py_or (dget data ''dispatch_contract'') (PDict [])))) ValueError (
     Inr data)))))"

definition common_words :: "str \<Rightarrow> str \<Rightarrow> nat" where
  "common_words a b = length (filter (\<lambda>w. w \<in> set (split_ws b)) (remdups (split_ws a)))"

text \<open>The loop over the examples of a route; \<open>None\<close> is the early return on an exact match.\<close>

fun score_examples :: "str \<Rightarrow> pyval list \<Rightarrow> int \<Rightarrow> py_exc + int option" where
  "score_examples prompt_n [] score = Inr (Some score)"
| "score_examples prompt_n (x # xs) score =
     bindE (norm_value x) (\<lambda>ex.
     if prompt_n = ex then Inr None
     else score_examples prompt_n xs
            (score + (if ex \<noteq> [] \<and> str_in ex prompt_n then 400 else 0) + int (common_words ex prompt_n) * 3))"

definition ROUTE_HINTS :: "(str \<times> str list) list" where [table_defs]:
  "ROUTE_HINTS =
     [(''S1'', [''stripe cash'', ''cash not match'', ''not match xero'', ''stripe'']),
      (''S2'', [''close july'', ''all e4l entities'', ''close for all'']),
      (''S3'', [''trusting the p&l'', ''trust the p&l'', ''preventing us from trusting'']),
      (''S4'', [''contribution margin'']),
      (''S5'', [''intercompany'', ''don'' @ [CHR 39] @ ''t agree'', ''do not agree'']),
      (''S6'', [''shopify/a2x/stripe'', ''reconcile shopify'', ''a2x'', ''shopify'']),
      (''S7'', [''financeos complete'', ''complete itself today'', ''can financeos'']),
      (''S8'', [''requires ben'', ''what specifically requires'']),
      (''S9'', [''material accounting anomaly'', ''anomalies across all'', ''all xero organization'']),
      (''S10'', [''journal entries'', ''do not post'', ''don'' @ [CHR 39] @ ''t post them'', ''finish close''])]"

definition score_hints :: "str \<Rightarrow> str \<Rightarrow> int" where
  "score_hints rid prompt_n =
     sum_list (map (\<lambda>hint. if str_in hint prompt_n then (if length hint > 12 then 80 else 35) else 0)
       (case map_of ROUTE_HINTS rid of Some hs \<Rightarrow> hs | None \<Rightarrow> []))"

definition score_adjustments :: "str \<Rightarrow> str \<Rightarrow> int" where
  "score_adjustments rid prompt_n =
     (if rid = ''S10'' \<and> str_in ''journal'' prompt_n then 60 else 0)
     - (if rid = ''S2'' \<and> str_in ''journal'' prompt_n then 40 else 0)
     + (if rid = ''S6'' \<and> (str_in ''shopify'' prompt_n \<or> str_in ''a2x'' prompt_n) then 50 else 0)
     - (if rid = ''S1'' \<and> str_in ''shopify'' prompt_n then 30 else 0)
     + (if rid = ''S1'' \<and> str_in ''stripe'' prompt_n \<and> str_in ''cash'' prompt_n then 40 else 0)"

definition hint_score :: "str \<Rightarrow> dict \<Rightarrow> py_exc + int" where
  "hint_score prompt_n route =
     (let rid = str_or_empty (dget route ''id'') in
      bindE (py_list (py_or (dget route ''examples'') (PList []))) (\<lambda>examples.
      bindE (score_examples prompt_n examples 0) (\<lambda>r.
      case r of
        None \<Rightarrow> Inr 10000
      | Some score \<Rightarrow> Inr (score + score_hints rid prompt_n + score_adjustments rid prompt_n))))"

definition ENTITY_TOKENS :: "(str \<times> str list) list" where [table_defs]:
  "ENTITY_TOKENS =
     [(''nesllc'', [''stripe'', ''shopify'', ''portal'']),
      (''massey'', [''kraken'', ''interactive brokers'', ''interactive broker'']),
      (''xpo'', [''hsbc'', ''uk vat'', ''vat'']),
      (''nespty'', [''aud'', ''gst'', ''june year'']),
      (''ibe'', [''donation'', ''ibe'']),
      (''energy4life'', [''intangible'', ''gem ip''])]"

definition entities_for :: "dict \<Rightarrow> str \<Rightarrow> py_exc + pyval list" where
  "entities_for route prompt_n =
     bindE (py_list (py_or (dget route ''entities_default'') (PList []))) (\<lambda>defaults.
     if defaults \<noteq> [] then Inr defaults
     else Inr (map (\<lambda>(e, _). PStr e) (filter (\<lambda>(_, tokens). list_ex (\<lambda>t. str_in t prompt_n) tokens) ENTITY_TOKENS)))"

fun hashable :: "pyval \<Rightarrow> bool" where
  "hashable (PList _) = False"
| "hashable (PDict _) = False"
| "hashable _ = True"

definition assert_agents :: "pyval list \<Rightarrow> py_exc + unit" where
  "assert_agents agents =
     guardE (agents \<noteq> []) ValueError (
     guardE (list_all hashable agents) TypeError (
     guardE (list_all (\<lambda>a. a \<in> PStr ` set SPECIALIST_SLUGS) agents) ValueError (
     guardE (\<not> list_ex (\<lambda>a. a \<in> PStr ` set FORBIDDEN_SLUGS) agents) ValueError (
     Inr ()))))"

text \<open>The loop that keeps the first route of the highest score.\<close>

fun best_route :: "str \<Rightarrow> pyval list \<Rightarrow> dict option \<Rightarrow> int \<Rightarrow> py_exc + dict option" where
  "best_route prompt_n [] best best_score = Inr best"
| "best_route prompt_n (r # rs) best best_score =
     bindE (as_dict AttributeError r) (\<lambda>route.
     bindE (hint_score prompt_n route) (\<lambda>score.
     if score > best_score then best_route prompt_n rs (Some route) score
     else best_route prompt_n rs best best_score))"

definition list_field :: "dict \<Rightarrow> str \<Rightarrow> py_exc + pyval list" where
  "list_field d k = py_list (py_or (dget d k) (PList []))"

definition decide :: "dict \<Rightarrow> str \<Rightarrow> py_exc + route_decision" where
  "decide best prompt_n =
     bindE (list_field best ''agents'') (\<lambda>agents.
     bindE (list_field best ''then_fanout'') (\<lambda>fanout.
     bindE (assert_agents agents) (\<lambda>_.
     bindE (if fanout \<noteq> [] then assert_agents fanout else Inr ()) (\<lambda>_.
     let escalate = dget best ''escalate_to'' in
     bindE (if truthy escalate then assert_agents [escalate] else Inr ()) (\<lambda>_.
     bindE (entities_for best prompt_n) (\<lambda>found.
     let entities = (if found = [] \<and> list_ex (\<lambda>a. a \<in> PStr ` set [''genesis-e4l-close'', ''genesis-e4l-intercompany'', ''genesis-e4l-fs-integrity'']) agents
                     then map PStr ENTITY_KEYS else found);
         sid = str_or_empty (dget best ''id'') in
     bindE (list_field best ''forbidden'') (\<lambda>forbidden.
     bindE (list_field best ''ben_only_examples'') (\<lambda>examples.
     bindE (list_field best ''do_not_invoke'') (\<lambda>do_not_invoke.
     Inr \<lparr>rd_agents = agents, rd_then_fanout = fanout, rd_entities = entities,
          rd_scenario_id = (if sid = [] then None else Some sid), rd_escalate_to = escalate,
          rd_announce = dget best ''announce'', rd_note = dget best ''note'', rd_write = dget best ''write'',
          rd_forbidden = forbidden, rd_answer_constraint = dget best ''answer_constraint'',
          rd_ben_only_examples = examples, rd_do_not_invoke = do_not_invoke, rd_matrix_route = best\<rparr>)))))))))"

definition route_question :: "pyval option \<Rightarrow> str \<Rightarrow> py_exc + route_decision" where
  "route_question file prompt =
     bindE (load_routing_matrix file) (\<lambda>matrix.
     let prompt_n = norm_text prompt in
     bindE (py_list (py_or (dget matrix ''intent_routes'') (PList []))) (\<lambda>routes.
     guardE (routes \<noteq> []) ValueError (
     bindE (best_route prompt_n routes None (- 1)) (\<lambda>best.
     bindE (optE ValueError best) (\<lambda>b.
     decide b prompt_n)))))"

section \<open>The scope gate admits writes from their owners only\<close>

lemma primary_agents_are_specialists:
  assumes "map_of OPERATION_PRIMARY_AGENTS op = Some primary" and "slug \<in> set primary"
  shows "startswith slug E4L_PREFIX"
proof -
  have "list_all (\<lambda>(op, agents). list_all (\<lambda>a. startswith a E4L_PREFIX) agents) OPERATION_PRIMARY_AGENTS"
    by code_simp
  then have "list_all (\<lambda>a. startswith a E4L_PREFIX) primary"
    by (rule map_of_table_all [OF assms(1)])
  then show ?thesis using assms(2) by (simp add: list_all_iff)
qed

lemma primary_operations_are_writes:
  assumes "map_of OPERATION_PRIMARY_AGENTS op = Some primary"
  shows "\<not> startswith op ''get_'' \<and> \<not> startswith op ''list_'' \<and>
         (\<exists>fam. map_of OPERATION_SCOPE_FAMILY op = Some fam \<and> \<not> endswith fam ''.read'')"
  by (rule map_of_table_all [OF assms]) (simp add: table_defs startswith_def endswith_def)

text \<open>The operations of \<open>OPERATION_PRIMARY_AGENTS\<close>, the drafts, bank transactions and attachments that write to
  Xero, are allowed to a caller exactly when it is one of the operation's owners and the scope map does not
  forbid it to write: whatever the rest of the scope map says, no other caller gets one.\<close>

theorem xero_write_owned:
  assumes "map_of OPERATION_PRIMARY_AGENTS op = Some primary"
  shows "(\<exists>reason. operation_allowed file slug op = Inr (True, reason)) \<longleftrightarrow>
         slug \<in> set primary \<and> writes_forbidden file slug = Inr False"
proof -
  obtain fam where fam: "map_of OPERATION_SCOPE_FAMILY op = Some fam" "\<not> endswith fam ''.read''"
    and verbs: "\<not> startswith op ''get_''" "\<not> startswith op ''list_''"
    using primary_operations_are_writes [OF assms] by blast
  show ?thesis
  proof (cases "startswith slug E4L_PREFIX")
    case True
    then show ?thesis
      by (cases "writes_forbidden file slug") (simp_all add: operation_allowed_def Let_def assms fam verbs)
  next
    case False
    then show ?thesis
      using primary_agents_are_specialists [OF assms, of slug] by (auto simp: operation_allowed_def)
  qed
qed

definition sample_scope_map :: pyval where
  "sample_scope_map =
     PDict [(''_meta'', PDict [(''specialists'', PList [PStr ''genesis-e4l-ap'', PStr ''genesis-e4l-ar''])]),
            (''scopes'', PDict [(''accounting.contacts.read'', PDict [(''read'', PStr ''all_specialists'')])]),
            (''specialist_overrides'', PDict [(''genesis-e4l-controller'', PDict [(''writes_forbidden'', PBool True)])])]"

theorem xero_write_owned_witness:
  "map_of OPERATION_PRIMARY_AGENTS ''create_draft_bill'' = Some [''genesis-e4l-ap''] \<and>
   (\<exists>reason. operation_allowed (Some sample_scope_map) ''genesis-e4l-ap'' ''create_draft_bill'' = Inr (True, reason)) \<and>
   \<not> (\<exists>reason. operation_allowed (Some sample_scope_map) ''genesis-e4l-ar'' ''create_draft_bill'' = Inr (True, reason))"
proof -
  have owner: "map_of OPERATION_PRIMARY_AGENTS ''create_draft_bill'' = Some [''genesis-e4l-ap'']"
    and free: "writes_forbidden (Some sample_scope_map) ''genesis-e4l-ap'' = Inr False"
    by code_simp+
  show ?thesis
    using owner free xero_write_owned [OF owner, of "Some sample_scope_map" "''genesis-e4l-ap''"]
      xero_write_owned [OF owner, of "Some sample_scope_map" "''genesis-e4l-ar''"] by simp
qed

section \<open>The router picks specialists\<close>

definition route_score :: "str \<Rightarrow> pyval \<Rightarrow> py_exc + int" where
  "route_score prompt_n r = bindE (as_dict AttributeError r) (hint_score prompt_n)"

text \<open>What the loop over the routes computes: the first of those with the highest score.\<close>

definition first_best :: "str \<Rightarrow> pyval list \<Rightarrow> int \<Rightarrow> dict \<Rightarrow> bool" where
  "first_best prompt_n routes floor d \<longleftrightarrow>
     (\<exists>before after m. routes = before @ PDict d # after \<and> route_score prompt_n (PDict d) = Inr m \<and> floor < m \<and>
        (\<forall>r \<in> set before. \<exists>s. route_score prompt_n r = Inr s \<and> s < m) \<and>
        (\<forall>r \<in> set after. \<exists>s. route_score prompt_n r = Inr s \<and> s \<le> m))"

lemma best_route_first:
  "best_route prompt_n rs best floor = Inr (Some d) \<Longrightarrow>
   first_best prompt_n rs floor d \<or>
   best = Some d \<and> (\<forall>r \<in> set rs. \<exists>s. route_score prompt_n r = Inr s \<and> s \<le> floor)"
proof (induction prompt_n rs best floor rule: best_route.induct)
  case (1 prompt_n best floor)
  then show ?case by simp
next
  case (2 prompt_n r rs best floor)
  then obtain route score where r: "r = PDict route" and score: "hint_score prompt_n route = Inr score"
    by (auto simp: call_Inr)
  have here: "route_score prompt_n (PDict route) = Inr score"
    using score by (simp add: route_score_def)
  show ?case
  proof (cases "score > floor")
    case True
    then have "first_best prompt_n rs score d \<or>
      route = d \<and> (\<forall>r \<in> set rs. \<exists>s. route_score prompt_n r = Inr s \<and> s \<le> score)"
      using 2 r score by simp
    then show ?thesis
    proof
      assume "first_best prompt_n rs score d"
      then obtain before after m where *: "rs = before @ PDict d # after" "route_score prompt_n (PDict d) = Inr m"
        "score < m" "\<forall>r \<in> set before. \<exists>s. route_score prompt_n r = Inr s \<and> s < m"
        "\<forall>r \<in> set after. \<exists>s. route_score prompt_n r = Inr s \<and> s \<le> m"
        unfolding first_best_def by blast
      have "r # rs = (r # before) @ PDict d # after" "floor < m"
        "\<forall>x \<in> set (r # before). \<exists>s. route_score prompt_n x = Inr s \<and> s < m"
        using * True r here by auto
      then show ?thesis using * unfolding first_best_def by blast
    next
      assume *: "route = d \<and> (\<forall>r \<in> set rs. \<exists>s. route_score prompt_n r = Inr s \<and> s \<le> score)"
      then have "r # rs = [] @ PDict d # rs" using r by simp
      then show ?thesis using * True here unfolding first_best_def by force
    qed
  next
    case False
    then have "first_best prompt_n rs floor d \<or>
      best = Some d \<and> (\<forall>r \<in> set rs. \<exists>s. route_score prompt_n r = Inr s \<and> s \<le> floor)"
      using 2 r score by simp
    then show ?thesis
    proof
      assume "first_best prompt_n rs floor d"
      then obtain before after m where *: "rs = before @ PDict d # after" "route_score prompt_n (PDict d) = Inr m"
        "floor < m" "\<forall>r \<in> set before. \<exists>s. route_score prompt_n r = Inr s \<and> s < m"
        "\<forall>r \<in> set after. \<exists>s. route_score prompt_n r = Inr s \<and> s \<le> m"
        unfolding first_best_def by blast
      have "r # rs = (r # before) @ PDict d # after"
        "\<forall>x \<in> set (r # before). \<exists>s. route_score prompt_n x = Inr s \<and> s < m"
        using * False r here by auto
      then show ?thesis using * unfolding first_best_def by blast
    next
      assume "best = Some d \<and> (\<forall>r \<in> set rs. \<exists>s. route_score prompt_n r = Inr s \<and> s \<le> floor)"
      then show ?thesis using False r here by auto
    qed
  qed
qed

lemma assert_agents_Inr:
  "assert_agents agents = Inr u \<Longrightarrow>
   agents \<noteq> [] \<and> set agents \<subseteq> PStr ` (set SPECIALIST_SLUGS - set FORBIDDEN_SLUGS)"
  unfolding assert_agents_def guardE_Inr list_all_iff list_ex_iff by blast

lemma decide_agents:
  assumes "decide best prompt_n = Inr d"
  shows "rd_matrix_route d = best" and "rd_agents d \<noteq> []"
    and "set (rd_agents d) \<union> set (rd_then_fanout d) \<subseteq> PStr ` (set SPECIALIST_SLUGS - set FORBIDDEN_SLUGS)"
proof -
  obtain agents fanout where "assert_agents agents = Inr ()"
    and "(if fanout \<noteq> [] then assert_agents fanout else Inr ()) = Inr ()"
    and "rd_matrix_route d = best \<and> rd_agents d = agents \<and> rd_then_fanout d = fanout"
    using assms unfolding decide_def Let_def call_Inr by (elim exE conjE) (drule Inr_inject [of _ d], hypsubst, simp)
  then have agents: "assert_agents (rd_agents d) = Inr ()" and route: "rd_matrix_route d = best"
    and fanout: "(if rd_then_fanout d \<noteq> [] then assert_agents (rd_then_fanout d) else Inr ()) = Inr ()"
    by blast+
  have "set (rd_then_fanout d) \<subseteq> PStr ` (set SPECIALIST_SLUGS - set FORBIDDEN_SLUGS)"
    using fanout assert_agents_Inr [of "rd_then_fanout d"] by (cases "rd_then_fanout d") simp_all
  then show "rd_matrix_route d = best" and "rd_agents d \<noteq> []"
    and "set (rd_agents d) \<union> set (rd_then_fanout d) \<subseteq> PStr ` (set SPECIALIST_SLUGS - set FORBIDDEN_SLUGS)"
    using route assert_agents_Inr [OF agents] by blast+
qed

text \<open>A question that is routed goes to at least one agent, and every agent it names, to run first or to fan out
  to, is an accounting specialist and none is a money stub, the rejected single-hat slug, A2X or a company key. The route taken is the
  first one of the highest score among the routes of the matrix.\<close>

theorem route_question_sound:
  assumes "route_question file prompt = Inr d"
  shows "rd_agents d \<noteq> [] \<and>
         set (rd_agents d) \<union> set (rd_then_fanout d) \<subseteq> PStr ` (set SPECIALIST_SLUGS - set FORBIDDEN_SLUGS) \<and>
         (\<exists>matrix routes. load_routing_matrix file = Inr matrix \<and> dget matrix ''intent_routes'' = PList routes \<and>
            first_best (norm_text prompt) routes (- 1) (rd_matrix_route d))"
proof -
  obtain matrix routes best where m: "load_routing_matrix file = Inr matrix"
    and r: "py_list (py_or (dget matrix ''intent_routes'') (PList [])) = Inr routes" and ne: "routes \<noteq> []"
    and b: "best_route (norm_text prompt) routes None (- 1) = Inr (Some best)"
    and d: "decide best (norm_text prompt) = Inr d"
    using assms by (auto simp: route_question_def Let_def call_Inr)
  have first: "first_best (norm_text prompt) routes (- 1) best"
    using best_route_first [OF b] by simp
  then have "PDict best \<in> set routes" by (auto simp: first_best_def)
  then have "dget matrix ''intent_routes'' = PList routes"
    using r by (cases "dget matrix ''intent_routes''") (auto simp: py_or_def split: if_splits)
  then show ?thesis using m first decide_agents [OF d] by blast
qed

definition sample_matrix :: pyval where
  "sample_matrix =
     PDict [(''dispatch_contract'', PDict [(''pattern'', PStr ''one_agent_one_job'')]),
            (''intent_routes'', PList
               [PDict [(''id'', PStr ''S1''), (''agents'', PList [PStr ''genesis-e4l-stripe''])],
                PDict [(''id'', PStr ''S5''), (''agents'', PList [PStr ''genesis-e4l-intercompany''])]])]"

theorem route_question_sound_witness:
  "\<exists>d. route_question (Some sample_matrix) ''Why does intercompany not agree?'' = Inr d \<and>
       rd_agents d = [PStr ''genesis-e4l-intercompany''] \<and> rd_entities d = map PStr ENTITY_KEYS \<and>
       set (rd_agents d) \<subseteq> PStr ` (set SPECIALIST_SLUGS - set FORBIDDEN_SLUGS)"
proof -
  define r where "r = route_question (Some sample_matrix) ''Why does intercompany not agree?''"
  have "case r of Inl _ \<Rightarrow> False | Inr d \<Rightarrow> rd_agents d = [PStr ''genesis-e4l-intercompany''] \<and> rd_entities d = map PStr ENTITY_KEYS"
    unfolding r_def by code_simp
  then obtain d where d: "route_question (Some sample_matrix) ''Why does intercompany not agree?'' = Inr d"
    and "rd_agents d = [PStr ''genesis-e4l-intercompany'']" "rd_entities d = map PStr ENTITY_KEYS"
    unfolding r_def by (auto split: sum.splits)
  then show ?thesis using route_question_sound [OF d] by blast
qed

end
