(* ===== verification/Agent_Runtime.thy ===== *)
theory Agent_Runtime
  imports Tool_Policy Envelope Request_Auth Accounting
begin

text \<open>
  The agent loop and its tool dispatcher, \<^verbatim>\<open>agent_runtime.py\<close>.

  What the loop calls and this theory does not model is a record of operations on a world of any type:
  which tools are registered and what running one does, the two audit appends (\<open>None\<close> when they raise),
  the consumption of the action grant, the ledger of delegated spending, the language model, the JSON parser, the
  clock, the workspace status and the proof pipeline. Left out: timestamps, log lines and the tracing spans.

  Besides its result a run leaves a trace of what it did, in order; the properties speak of it.
\<close>

section \<open>Limits and success criteria\<close>

definition MAX_TURNS :: nat where
  "MAX_TURNS = 10"

definition MAX_LLM_CALLS :: nat where
  "MAX_LLM_CALLS = 10"

definition MAX_TOKENS_PER_JOB :: int where
  "MAX_TOKENS_PER_JOB = 50000"

definition MAX_FILES_WRITTEN :: int where
  "MAX_FILES_WRITTEN = 20"

definition DEFAULT_MAX_OUTPUT_BYTES :: int where
  "DEFAULT_MAX_OUTPUT_BYTES = 4 * 1024 * 1024"

text \<open>\<open>s[:n]\<close>.\<close>

definition cut :: "int \<Rightarrow> str \<Rightarrow> str" where
  "cut n s = (if int (length s) \<le> n then s else take (nat n) s)"

lemma cut_take: "0 \<le> n \<Longrightarrow> cut n s = take (nat n) s"
  by (simp add: cut_def)

definition criterion_failed :: "pyval \<Rightarrow> str \<Rightarrow> pyval" where
  "criterion_failed ct reason = PDict [(''type'', ct), (''reason'', PStr reason)]"

definition config_of :: "dict \<Rightarrow> py_exc + dict" where
  "config_of c = as_dict AttributeError (py_or (dget c ''config'') (PDict []))"

text \<open>The loop over the keys, inside the \<open>try\<close>: a key that cannot be hashed ends it.\<close>

fun missing_keys :: "pyval \<Rightarrow> pyval list \<Rightarrow> dict \<Rightarrow> pyval list" where
  "missing_keys ct [] obj = []"
| "missing_keys ct (k # ks) obj =
     (if \<not> hashable k then [criterion_failed ct ''response not parseable as JSON'']
      else if (case k of PStr t \<Rightarrow> map_of obj t \<noteq> None | _ \<Rightarrow> False) then missing_keys ct ks obj
      else criterion_failed ct (''missing key: '' @ py_str k) # missing_keys ct ks obj)"

definition check_keys :: "(str \<Rightarrow> pyval option) \<Rightarrow> pyval \<Rightarrow> pyval \<Rightarrow> dict \<Rightarrow> pyval list" where
  "check_keys loads ct keys result =
     (let unparsed = [criterion_failed ct ''response not parseable as JSON''] in
      case py_or (dget result ''response'') (PStr ''{}'') of
        PStr s \<Rightarrow>
          (case loads s of
             Some (PDict obj) \<Rightarrow> (case py_list keys of Inr ks \<Rightarrow> missing_keys ct ks obj | Inl _ \<Rightarrow> unparsed)
           | Some _ \<Rightarrow> [criterion_failed ct ''response not a JSON object'']
           | None \<Rightarrow> unparsed)
      | _ \<Rightarrow> unparsed)"

definition successful_calls :: "dict \<Rightarrow> int" where
  "successful_calls result =
     (case py_or (dget result ''trace'') (PDict []) of
        PDict t \<Rightarrow>
          (case dget t ''tool_calls'' of
             PList calls \<Rightarrow> int (length (filter (\<lambda>c. case c of PDict d \<Rightarrow> dget d ''ok'' = PBool True | _ \<Rightarrow> False) calls))
           | _ \<Rightarrow> 0)
      | _ \<Rightarrow> 0)"

text \<open>One criterion of the loop: the failures it adds, or what it raises.\<close>

definition check_criterion :: "(str \<Rightarrow> pyval option) \<Rightarrow> dict \<Rightarrow> dict \<Rightarrow> py_exc + pyval list" where
  "check_criterion loads c result =
     (let ct = dget c ''type'' in
      if ct = PStr ''non_empty'' then
        Inr (if truthy (dget result ''response'') then [] else [criterion_failed ct ''response is empty''])
      else if ct = PStr ''contains_keys'' then
        bindE (config_of c) (\<lambda>config. Inr (check_keys loads ct (dget_default config ''keys'' (PList [])) result))
      else if ct = PStr ''max_latency_s'' then
        bindE (config_of c) (\<lambda>config.
        let max_s = dget_default config ''seconds'' (PInt 300);
            elapsed = py_or (dget_default result ''elapsed_s'' (PInt 0)) (PInt 0) in
        bindE (optE TypeError (num_gt elapsed max_s)) (\<lambda>late.
        Inr (if late then [criterion_failed ct (''elapsed '' @ py_str elapsed @ ''s > '' @ py_str max_s @ ''s'')] else [])))
      else if ct = PStr ''min_successful_tool_calls'' then
        bindE (config_of c) (\<lambda>config.
        bindE (optE ValueError (py_int_of (dget_default config ''count'' (PInt 1)))) (\<lambda>minimum.
        let successful = successful_calls result in
        Inr (if successful < minimum
             then [criterion_failed ct (''successful tool calls '' @ show_int successful @ '' < '' @ show_int minimum)]
             else [])))
      else Inr [])"

fun check_criteria :: "(str \<Rightarrow> pyval option) \<Rightarrow> dict list \<Rightarrow> dict \<Rightarrow> py_exc + pyval list" where
  "check_criteria loads [] result = Inr []"
| "check_criteria loads (c # cs) result =
     bindE (check_criterion loads c result) (\<lambda>f.
     bindE (check_criteria loads cs result) (\<lambda>fs. Inr (f @ fs)))"

definition effective_criteria :: "dict list option \<Rightarrow> bool \<Rightarrow> dict list" where
  "effective_criteria criteria require_tool_evidence =
     (let cs = (case criteria of None \<Rightarrow> [[(''type'', PStr ''non_empty'')]]
                | Some l \<Rightarrow> if l = [] then [[(''type'', PStr ''non_empty'')]] else l) in
      if require_tool_evidence \<and> \<not> list_ex (\<lambda>c. dget c ''type'' = PStr ''min_successful_tool_calls'') cs
      then cs @ [[(''type'', PStr ''min_successful_tool_calls''), (''config'', PDict [(''count'', PInt 1)])]]
      else cs)"

definition check_success_criteria ::
  "(str \<Rightarrow> pyval option) \<Rightarrow> dict list option \<Rightarrow> dict \<Rightarrow> bool \<Rightarrow> py_exc + bool \<times> pyval list" where
  "check_success_criteria loads criteria result require_tool_evidence =
     bindE (check_criteria loads (effective_criteria criteria require_tool_evidence) result) (\<lambda>failed.
     Inr (failed = [], failed))"

section \<open>Deployment context and delegation budget\<close>

record deployment_context =
  dc_grant :: str
  dc_principal_id :: str
  dc_tenant_id :: str

definition deployment_side_effect_authorized :: "dict \<Rightarrow> deployment_context \<times> dict" where
  "deployment_side_effect_authorized params =
     (\<lparr>dc_grant = str_or_empty (dget params ''_action_grant''),
       dc_principal_id = str_or_empty (dget params ''_request_principal_id''),
       dc_tenant_id = str_or_empty (dget params ''_request_tenant_id'')\<rparr>,
      dict_pop (dict_pop (dict_pop (dict_pop params ''_action_grant'') ''_request_principal_id'') ''_request_tenant_id'')
        ''_deployment_approval_token'')"

text \<open>The ledger of what delegated children spent, by delegating job: tokens and cents.\<close>

record delegation_ledger =
  dl_tokens :: "(str \<times> int) list"
  dl_cents :: "(str \<times> int) list"

definition spent :: "(str \<times> int) list \<Rightarrow> str \<Rightarrow> int" where
  "spent l job_id = (case map_of l job_id of Some n \<Rightarrow> n | None \<Rightarrow> 0)"

definition remaining_delegation_budget :: "delegation_ledger \<Rightarrow> str \<Rightarrow> int \<Rightarrow> int \<Rightarrow> int \<Rightarrow> int \<times> int" where
  "remaining_delegation_budget l job_id token_budget total_tokens cost_budget_cents =
     (max 0 (token_budget - total_tokens - spent (dl_tokens l) job_id),
      max 0 (cost_budget_cents - spent (dl_cents l) job_id))"

definition record_delegated_spend :: "str option \<Rightarrow> int \<Rightarrow> int \<Rightarrow> delegation_ledger \<Rightarrow> delegation_ledger" where
  "record_delegated_spend parent tokens cents l =
     (case parent of
        None \<Rightarrow> l
      | Some p \<Rightarrow>
          if p = [] then l
          else l\<lparr>dl_tokens := (if tokens = 0 then dl_tokens l else dict_set (dl_tokens l) p (spent (dl_tokens l) p + max 0 tokens)),
                 dl_cents := (if cents = 0 then dl_cents l else dict_set (dl_cents l) p (spent (dl_cents l) p + max 0 cents))\<rparr>)"

section \<open>The state of a run\<close>

text \<open>An answer of the model gateway in the chat-completions format the loop reads, or the exception of the call.\<close>

record tool_call =
  tc_id :: str
  tc_name :: str
  tc_arguments :: str

record llm_message =
  lm_tool_calls :: "tool_call list"
  lm_content :: pyval

record llm_response =
  lr_usage :: pyval
  lr_choices :: "llm_message list"
  lr_swarmsync :: pyval

datatype llm_outcome = Llm_Answer llm_response | Llm_Raised str str

datatype chat = System_Msg str | User_Msg str | Assistant_Msg llm_message | Tool_Msg str str

datatype tool_outcome = Tool_Returned pyval | Tool_Raised str str

datatype proof_outcome = Browser_Unused | Proof_Returned dict | Proof_Raised

record tool_ctx =
  cx_parent_job_id :: str
  cx_session_id :: str
  cx_agent_slug :: str
  cx_allowed_xero_operations :: pyval
  cx_scope_map_version :: pyval
  cx_execution_realm :: pyval
  cx_delegation_chain :: "str list"
  cx_delegation_depth :: int
  cx_remaining_token_budget :: int
  cx_remaining_cost_budget_cents :: int

text \<open>What the loop calls. \<open>op_run\<close> is the evaluation of \<open>await tool(**args, **ctx)\<close>, the \<open>TypeError\<close> of arguments that
  do not unpack included.\<close>

record 'w runtime_ops =
  op_registered :: "str \<Rightarrow> bool"
  op_run :: "'w \<Rightarrow> str \<Rightarrow> pyval \<Rightarrow> tool_ctx \<Rightarrow> tool_outcome \<times> 'w"
  op_intent :: "'w \<Rightarrow> str \<Rightarrow> str \<Rightarrow> pyval \<Rightarrow> 'w option"
  op_event :: "'w \<Rightarrow> str \<Rightarrow> str \<Rightarrow> pyval \<Rightarrow> pyval \<Rightarrow> 'w option"
  op_grant :: "'w \<Rightarrow> deployment_context \<Rightarrow> str \<Rightarrow> pyval \<Rightarrow> bool \<times> 'w"
  op_ledger :: "'w \<Rightarrow> delegation_ledger"
  op_late :: "'w \<Rightarrow> bool"
  op_elapsed :: "'w \<Rightarrow> pyval"
  op_llm :: "'w \<Rightarrow> chat list \<Rightarrow> str list \<Rightarrow> int \<Rightarrow> llm_outcome \<times> 'w"
  op_loads :: "str \<Rightarrow> pyval option"
  op_finalizing :: "'w \<Rightarrow> 'w"
  op_proof :: "'w \<Rightarrow> proof_outcome \<times> 'w"

text \<open>What a run did.\<close>

datatype trace_entry =
    Emitted str str
  | Granted str bool
  | Intended str
  | Executed str
  | Logged str

text \<open>The bundle and the arguments of \<open>_run_loop\<close>; \<open>rp_advertised\<close> is the bundle's list, before the accounting tools are added.\<close>

record run_params =
  rp_slug :: str
  rp_job_id :: str
  rp_session_id :: str
  rp_workspace :: str
  rp_system_prompt :: str
  rp_task :: str
  rp_tools :: "str list"
  rp_params :: dict
  rp_success_criteria :: "dict list option"
  rp_delegation_chain :: "str list"
  rp_delegation_depth :: int
  rp_delegated_allowed_risks :: "risk list option"
  rp_token_budget :: int
  rp_conduit_budget_cents :: int

definition rp_advertised :: "run_params \<Rightarrow> str list" where
  "rp_advertised rp = augment_tools_advertised (rp_slug rp) (rp_tools rp)"

text \<open>The local variables of the loop; \<open>ls_authorized\<close> is \<open>deployment_authorized\<close>, \<open>None\<close> while it is unbound.\<close>

record 'w loop_state =
  ls_world :: 'w
  ls_turn :: nat
  ls_llm_calls :: nat
  ls_total_tokens :: int
  ls_files_written :: int
  ls_authorized :: "bool option"
  ls_messages :: "chat list"
  ls_records :: "dict list"
  ls_subagents :: "dict list"
  ls_swarmsync :: "dict option"
  ls_trace :: "trace_entry list"

datatype runtime_exc = UnboundLocalError str | Runtime_Python py_exc

definition traced :: "trace_entry \<Rightarrow> 'w loop_state \<Rightarrow> 'w loop_state" where
  "traced t s = s\<lparr>ls_trace := ls_trace s @ [t]\<rparr>"

section \<open>Dispatching one tool call\<close>

definition refusal :: "str \<Rightarrow> str \<Rightarrow> dict" where
  "refusal err tool = [(''ok'', PBool False), (''error'', PStr err), (''tool'', PStr tool)]"

definition tool_context :: "'w runtime_ops \<Rightarrow> run_params \<Rightarrow> 'w loop_state \<Rightarrow> tool_ctx" where
  "tool_context ops rp s =
     (let rest = remaining_delegation_budget (op_ledger ops (ls_world s)) (rp_job_id rp) (rp_token_budget rp)
            (ls_total_tokens s) (rp_conduit_budget_cents rp) in
      \<lparr>cx_parent_job_id = rp_job_id rp, cx_session_id = rp_session_id rp, cx_agent_slug = rp_slug rp,
       cx_allowed_xero_operations = dget (rp_params rp) ''allowed_xero_operations'',
       cx_scope_map_version = dget (rp_params rp) ''scope_map_version'',
       cx_execution_realm = dget (rp_params rp) ''execution_realm'',
       cx_delegation_chain = rp_delegation_chain rp @ [rp_slug rp], cx_delegation_depth = rp_delegation_depth rp,
       cx_remaining_token_budget = fst rest, cx_remaining_cost_budget_cents = snd rest\<rparr>)"

definition result_ok :: "pyval \<Rightarrow> bool" where
  "result_ok v = (case v of PDict d \<Rightarrow> truthy (dget d ''ok'') | _ \<Rightarrow> False)"

text \<open>The innermost block: run the tool, count a successful file write.\<close>

definition run_tool ::
  "'w runtime_ops \<Rightarrow> run_params \<Rightarrow> str \<Rightarrow> pyval \<Rightarrow> 'w loop_state \<Rightarrow> pyval \<times> 'w loop_state" where
  "run_tool ops rp fn_name args s =
     (let s1 = traced (Executed fn_name) (traced (Emitted ''tool.called'' fn_name) s) in
      case op_run ops (ls_world s1) fn_name args (tool_context ops rp s1) of
        (Tool_Returned v, w) \<Rightarrow>
          (v, s1\<lparr>ls_world := w,
                ls_files_written := ls_files_written s1 + (if fn_name = ''file_write'' \<and> result_ok v then 1 else 0)\<rparr>)
      | (Tool_Raised t m, w) \<Rightarrow>
          (PDict [(''ok'', PBool False), (''error'', PStr ''tool_exception''), (''type'', PStr t), (''message'', PStr m)],
           s1\<lparr>ls_world := w\<rparr>))"

text \<open>The last \<open>else\<close> of the dispatcher: the audit intent of a tool that is not read-only, then the tool. The
  result says whether the tool was executed.\<close>

definition audit_and_run ::
  "'w runtime_ops \<Rightarrow> run_params \<Rightarrow> risk \<Rightarrow> str \<Rightarrow> pyval \<Rightarrow> 'w loop_state \<Rightarrow> (pyval \<times> bool) \<times> 'w loop_state" where
  "audit_and_run ops rp risk fn_name args s =
     (if risk = Read_Only then (case run_tool ops rp fn_name args s of (v, s') \<Rightarrow> ((v, True), s'))
      else (case op_intent ops (ls_world s) (rp_session_id rp) fn_name args of
              None \<Rightarrow> ((PDict (refusal ''audit_preflight_failed'' fn_name), False), s)
            | Some w \<Rightarrow>
                (case run_tool ops rp fn_name args (traced (Intended fn_name) (s\<lparr>ls_world := w\<rparr>)) of
                   (v, s') \<Rightarrow> ((v, True), s'))))"

text \<open>The first chain of conditions under the policy check. It binds \<open>deployment_authorized\<close> in its last
  branch only; the results of the two others are overwritten by the second chain.\<close>

definition policy_chain ::
  "'w runtime_ops \<Rightarrow> run_params \<Rightarrow> policy_result \<Rightarrow> str \<Rightarrow> pyval \<Rightarrow> 'w loop_state \<Rightarrow> 'w loop_state" where
  "policy_chain ops rp policy fn_name args s =
     (if \<not> pol_ok policy then traced (Emitted ''tool.blocked'' fn_name) s
      else if (case rp_delegated_allowed_risks rp of None \<Rightarrow> False | Some rs \<Rightarrow> pol_risk_class policy \<notin> set rs) then s
      else if pol_risk_class policy = Deployment then
        (case op_grant ops (ls_world s) (fst (deployment_side_effect_authorized (rp_params rp))) fn_name args of
           (b, w) \<Rightarrow> traced (Granted fn_name b) (s\<lparr>ls_world := w, ls_authorized := Some b\<rparr>))
      else s)"

text \<open>The second chain, which starts afresh with \<open>if\<close>.\<close>

definition execute_chain ::
  "'w runtime_ops \<Rightarrow> run_params \<Rightarrow> policy_result \<Rightarrow> str \<Rightarrow> pyval \<Rightarrow> 'w loop_state
     \<Rightarrow> (runtime_exc + pyval \<times> bool) \<times> 'w loop_state" where
  "execute_chain ops rp policy fn_name args s =
     (if pol_risk_class policy = Deployment \<and> ls_authorized s = None
      then (Inl (UnboundLocalError ''deployment_authorized''), s)
      else if pol_risk_class policy = Deployment \<and> ls_authorized s = Some False then
        (Inr (PDict (refusal ''deployment_approval_required'' fn_name @ [(''risk_class'', PStr (risk_str Deployment))]), False),
         traced (Emitted ''tool.blocked'' fn_name) s)
      else if fn_name = ''file_write'' \<and> ls_files_written s \<ge> MAX_FILES_WRITTEN then
        (Inr (PDict [(''ok'', PBool False), (''error'', PStr ''file_write_limit_exceeded''),
                     (''files_written'', PInt (ls_files_written s)), (''limit'', PInt MAX_FILES_WRITTEN)], False), s)
      else (case audit_and_run ops rp (pol_risk_class policy) fn_name args s of (r, s') \<Rightarrow> (Inr r, s')))"

definition dispatch_call ::
  "'w runtime_ops \<Rightarrow> str \<Rightarrow> run_params \<Rightarrow> str \<Rightarrow> pyval \<Rightarrow> 'w loop_state
     \<Rightarrow> (runtime_exc + pyval \<times> bool) \<times> 'w loop_state" where
  "dispatch_call ops rid rp fn_name args s =
     (if is_prohibited fn_name (Some (rp_slug rp)) then
        (case prohibited_refusal rid fn_name (prohibition_group fn_name) (Some (rp_slug rp)) of
           Inl e \<Rightarrow> Inl (Runtime_Python e)
         | Inr env \<Rightarrow> Inr (PDict env, False),
         traced (Emitted ''tool.prohibited'' fn_name) s)
      else if \<not> op_registered ops fn_name \<or> fn_name \<notin> set (rp_advertised rp) then
        (Inr (PDict (refusal ''tool_not_allowed'' fn_name), False), s)
      else
        let policy = check_tool_policy (rp_slug rp) fn_name in
        execute_chain ops rp policy fn_name args (policy_chain ops rp policy fn_name args s))"

text \<open>After the dispatch: an executed call is appended to the audit chain, and a failed append replaces the result.\<close>

definition audit_result ::
  "'w runtime_ops \<Rightarrow> run_params \<Rightarrow> str \<Rightarrow> pyval \<Rightarrow> pyval \<times> bool \<Rightarrow> 'w loop_state \<Rightarrow> pyval \<times> 'w loop_state" where
  "audit_result ops rp fn_name args r s =
     (if \<not> snd r then (fst r, s)
      else (case op_event ops (ls_world s) (rp_session_id rp) fn_name args
                   (case fst r of PDict d \<Rightarrow> PDict d | _ \<Rightarrow> PDict [(''ok'', PBool False)]) of
              None \<Rightarrow> (PDict (refusal ''audit_append_failed'' fn_name), s)
            | Some w \<Rightarrow> (fst r, traced (Logged fn_name) (s\<lparr>ls_world := w\<rparr>))))"

section \<open>The record of a call\<close>

definition call_record :: "run_params \<Rightarrow> nat \<Rightarrow> tool_call \<Rightarrow> dict \<Rightarrow> pyval \<Rightarrow> dict" where
  "call_record rp turn tc args v =
     [(''turn'', PInt (int turn)), (''tool_name'', PStr (tc_name tc)), (''tool_call_id'', PStr (tc_id tc)),
      (''arguments'', PDict (filter (\<lambda>(k, _). \<not> startswith k ''_'') args)),
      (''ok'', PBool (result_ok v)),
      (''result_summary'', PStr (cut 300 (case v of PDict _ \<Rightarrow> plain_json v | _ \<Rightarrow> py_str v))),
      (''parent_job_id'', PStr (rp_job_id rp)), (''parent_agent_slug'', PStr (rp_slug rp))]"

text \<open>The linkage fields of a delegation.\<close>

definition child_fields :: "dict \<Rightarrow> dict" where
  "child_fields d =
     (let summary = py_or (dget d ''child_response_summary'') (PStr []);
          summary' = (case dget d ''result'' of
                        PDict r \<Rightarrow> if truthy summary then summary
                                   else PStr (cut 300 (py_str (dget_default r ''response'' (PStr []))))
                      | _ \<Rightarrow> summary) in
      [(''target_agent_slug'', py_or (dget d ''target_agent_slug'') (dget_default d ''agent'' (PStr []))),
       (''child_job_id'', dget d ''child_job_id''), (''child_session_id'', dget d ''child_session_id''),
       (''child_ok'', dget_default d ''child_ok'' (PBool (truthy (dget d ''ok'')))),
       (''child_response_summary'', summary')])"

definition subagent_record :: "run_params \<Rightarrow> dict \<Rightarrow> dict \<Rightarrow> dict" where
  "subagent_record rp args d =
     [(''parent_job_id'', PStr (rp_job_id rp)), (''parent_session_id'', PStr (rp_session_id rp)),
      (''parent_agent_slug'', PStr (rp_slug rp)), (''child_job_id'', dget d ''child_job_id''),
      (''child_session_id'', dget d ''child_session_id''),
      (''child_agent_slug'', dget (child_fields d) ''target_agent_slug''),
      (''task'', dget_default args ''task'' (PStr [])),
      (''status'', PStr (if truthy (dget (child_fields d) ''child_ok'') then ''ok'' else ''failed'')),
      (''child_ok'', dget (child_fields d) ''child_ok''), (''child_trace_uri'', PNone), (''artifact_uris'', PList [])]"

definition record_call :: "run_params \<Rightarrow> tool_call \<Rightarrow> dict \<Rightarrow> pyval \<Rightarrow> 'w loop_state \<Rightarrow> 'w loop_state" where
  "record_call rp tc args v s =
     (let base = call_record rp (ls_turn s) tc args v;
          s1 = s\<lparr>ls_messages := ls_messages s @ [Tool_Msg (tc_id tc) (cut DEFAULT_MAX_OUTPUT_BYTES (plain_json v))]\<rparr>;
          plain = s1\<lparr>ls_records := ls_records s @ [base]\<rparr> in
      if tc_name tc = ''genesis_call'' then
        (case v of
           PDict d \<Rightarrow>
             traced (Emitted ''subagent.returned'' (tc_name tc))
               (s1\<lparr>ls_records := ls_records s @ [base @ child_fields d],
                   ls_subagents := ls_subagents s @ [subagent_record rp args d]\<rparr>)
         | _ \<Rightarrow> plain)
      else plain)"

definition parse_args :: "'w runtime_ops \<Rightarrow> str \<Rightarrow> pyval" where
  "parse_args ops raw = (case op_loads ops raw of Some v \<Rightarrow> v | None \<Rightarrow> PDict [])"

text \<open>One iteration of \<open>for tc in tool_calls\<close>. Arguments that parse to something other than an object reach
  \<open>args.items()\<close>, which raises.\<close>

definition call_step ::
  "'w runtime_ops \<Rightarrow> str \<Rightarrow> run_params \<Rightarrow> tool_call \<Rightarrow> 'w loop_state \<Rightarrow> runtime_exc option \<times> 'w loop_state" where
  "call_step ops rid rp tc s =
     (let args = parse_args ops (tc_arguments tc) in
      case dispatch_call ops rid rp (tc_name tc) args s of
        (Inl e, s1) \<Rightarrow> (Some e, s1)
      | (Inr r, s1) \<Rightarrow>
          (case audit_result ops rp (tc_name tc) args r s1 of
             (v, s2) \<Rightarrow>
               (case args of
                  PDict a \<Rightarrow> (None, record_call rp tc a v s2)
                | _ \<Rightarrow> (Some (Runtime_Python AttributeError), s2))))"

fun run_calls ::
  "'w runtime_ops \<Rightarrow> str \<Rightarrow> run_params \<Rightarrow> tool_call list \<Rightarrow> 'w loop_state \<Rightarrow> runtime_exc option \<times> 'w loop_state" where
  "run_calls ops rid rp [] s = (None, s)"
| "run_calls ops rid rp (tc # tcs) s =
     (case call_step ops rid rp tc s of
        (Some e, s') \<Rightarrow> (Some e, s')
      | (None, s') \<Rightarrow> run_calls ops rid rp tcs s')"

section \<open>The final answer\<close>

definition resource_usage :: "'w loop_state \<Rightarrow> pyval" where
  "resource_usage s =
     PDict [(''llm_calls'', PInt (int (ls_llm_calls s))), (''total_tokens'', PInt (ls_total_tokens s)),
            (''files_written'', PInt (ls_files_written s))]"

definition base_result :: "'w runtime_ops \<Rightarrow> run_params \<Rightarrow> pyval \<Rightarrow> 'w loop_state \<Rightarrow> dict" where
  "base_result ops rp content s =
     [(''ok'', PBool True), (''slug'', PStr (rp_slug rp)), (''response'', content), (''turns'', PInt (int (ls_turn s))),
      (''elapsed_s'', op_elapsed ops (ls_world s)), (''job_id'', PStr (rp_job_id rp)),
      (''resource_usage'', resource_usage s),
      (''trace'', PDict [(''job_id'', PStr (rp_job_id rp)), (''session_id'', PStr (rp_session_id rp)),
         (''agent_slug'', PStr (rp_slug rp)), (''workspace_path'', PStr (rp_workspace rp)),
         (''artifact_count'', PInt (ls_files_written s)), (''tool_calls'', PList (map PDict (ls_records s))),
         (''subagents'', PList (map PDict (ls_subagents s))), (''status'', PStr ''ok'')])]"

text \<open>The routing metadata of the last answer that carried it. \<open>"/" in routed\<close> and \<open>routed.split\<close> raise on
  values that are not text.\<close>

definition provider_of :: "pyval \<Rightarrow> py_exc + pyval" where
  "provider_of routed =
     (case routed of
        PStr t \<Rightarrow> Inr (PStr (fst (split_first (CHR ''/'') t)))
      | PList l \<Rightarrow> if PStr ''/'' \<in> set l then Inl AttributeError else Inr routed
      | PDict d \<Rightarrow> if map_of d ''/'' \<noteq> None then Inl AttributeError else Inr routed
      | _ \<Rightarrow> Inl TypeError)"

definition routing_fields :: "dict option \<Rightarrow> py_exc + dict" where
  "routing_fields swarmsync =
     (case swarmsync of
        None \<Rightarrow> Inr []
      | Some d \<Rightarrow>
          if d = [] then Inr []
          else let routed = py_or (dget d ''routed_model'') (PStr []) in
               bindE (provider_of routed) (\<lambda>provider.
               Inr [(''swarmsync'', PDict d),
                    (''routing'', PDict [(''model'', routed), (''provider'', provider), (''tier'', dget d ''tier''),
                       (''routing_reason'', dget d ''routing_reason''), (''estimated_cost'', dget d ''estimated_cost''),
                       (''latency_ms'', dget d ''latency_ms'')])]))"

definition set_trace_status :: "str \<Rightarrow> dict \<Rightarrow> dict" where
  "set_trace_status status result =
     (case dget result ''trace'' of
        PDict t \<Rightarrow> dict_set result ''trace'' (PDict (dict_set t ''status'' (PStr status)))
      | _ \<Rightarrow> result)"

definition apply_verdict :: "bool \<times> pyval list \<Rightarrow> dict \<Rightarrow> dict" where
  "apply_verdict verdict result =
     (let result1 = dict_set result ''success_criteria_eval''
            (PDict [(''ok'', PBool (fst verdict)), (''failed'', PList (snd verdict))]) in
      if fst verdict then set_trace_status ''ok'' result1
      else set_trace_status ''failed''
             (dict_set (dict_set result1 ''ok'' (PBool False)) ''error'' (PStr ''success_criteria_failed'')))"

definition proof_fields :: "proof_outcome \<Rightarrow> dict" where
  "proof_fields p =
     (case p of
        Browser_Unused \<Rightarrow> []
      | Proof_Returned d \<Rightarrow>
          [(''proof'', PDict (if truthy (dget d ''ok'')
              then [(''proof_id'', dget d ''proof_id''), (''vcap_wrapper_jwt'', dget d ''vcap_wrapper_jwt''),
                    (''proof_bundle_signed_url'', dget d ''signed_url''), (''input_hash'', dget d ''input_hash''),
                    (''output_hash'', dget d ''output_hash'')]
              else [(''ok'', PBool False), (''error'', dget d ''error'')]))]
      | Proof_Raised \<Rightarrow> [(''proof'', PDict [(''ok'', PBool False), (''error'', PStr ''proof_pipeline_exception'')])])"

definition final_answer ::
  "'w runtime_ops \<Rightarrow> run_params \<Rightarrow> pyval \<Rightarrow> 'w loop_state \<Rightarrow> (runtime_exc + dict) \<times> 'w loop_state" where
  "final_answer ops rp content s =
     (case bindE (routing_fields (ls_swarmsync s)) (\<lambda>routing.
           let result = base_result ops rp content s @ routing in
           bindE (check_success_criteria (op_loads ops) (rp_success_criteria rp) result (rp_advertised rp \<noteq> []))
             (\<lambda>verdict. Inr (apply_verdict verdict result, fst verdict))) of
        Inl e \<Rightarrow> (Inl (Runtime_Python e), s)
      | Inr (result, ok) \<Rightarrow>
          let s1 = traced (Emitted (if ok then ''job.completed'' else ''job.failed'') (rp_job_id rp)) s in
          (case op_proof ops (op_finalizing ops (ls_world s1)) of
             (p, w) \<Rightarrow> (Inr (result @ proof_fields p), s1\<lparr>ls_world := w\<rparr>)))"

section \<open>Turns\<close>

definition stop :: "dict \<Rightarrow> 'w loop_state \<Rightarrow> (runtime_exc + dict) option \<times> 'w loop_state" where
  "stop result s = (Some (Inr result), s)"

definition failed_with :: "str \<Rightarrow> dict \<Rightarrow> dict" where
  "failed_with err d = (''ok'', PBool False) # (''error'', PStr err) # d"

text \<open>\<open>total_tokens += int(usage.get("total_tokens", 0) or 0)\<close>, skipped when it raises.\<close>

definition usage_tokens :: "llm_response \<Rightarrow> int" where
  "usage_tokens r =
     (case py_or (lr_usage r) (PDict []) of
        PDict u \<Rightarrow> (case py_int_of (py_or (dget_default u ''total_tokens'' (PInt 0)) (PInt 0)) of Some n \<Rightarrow> n | None \<Rightarrow> 0)
      | _ \<Rightarrow> 0)"

definition model_tools :: "'w runtime_ops \<Rightarrow> run_params \<Rightarrow> str list" where
  "model_tools ops rp =
     filter (op_registered ops) (filter (\<lambda>t. pol_ok (check_tool_policy (rp_slug rp) t)) (rp_advertised rp))"

text \<open>The loop's state once an answer has arrived.\<close>

definition after_answer :: "llm_response \<Rightarrow> 'w loop_state \<Rightarrow> 'w loop_state" where
  "after_answer r s =
     s\<lparr>ls_llm_calls := ls_llm_calls s + 1,
       ls_swarmsync := (case lr_swarmsync r of PDict d \<Rightarrow> Some d | _ \<Rightarrow> ls_swarmsync s),
       ls_total_tokens := ls_total_tokens s + usage_tokens r\<rparr>"

text \<open>What is done with an answer: return, or run its tool calls and go on.\<close>

definition handle_answer ::
  "'w runtime_ops \<Rightarrow> str \<Rightarrow> run_params \<Rightarrow> llm_response \<Rightarrow> 'w loop_state
     \<Rightarrow> (runtime_exc + dict) option \<times> 'w loop_state" where
  "handle_answer ops rid rp r s =
     (if ls_total_tokens s > MAX_TOKENS_PER_JOB then
        stop (failed_with ''token_budget_exceeded'' [(''slug'', PStr (rp_slug rp)),
                (''total_tokens'', PInt (ls_total_tokens s)), (''limit'', PInt MAX_TOKENS_PER_JOB)]) s
      else (case lr_choices r of
              [] \<Rightarrow> stop (failed_with ''no_choices_in_llm_response'' []) s
            | msg # _ \<Rightarrow>
                if lm_tool_calls msg = []
                then (case final_answer ops rp (lm_content msg) s of (res, s') \<Rightarrow> (Some res, s'))
                else (case run_calls ops rid rp (lm_tool_calls msg) (s\<lparr>ls_messages := ls_messages s @ [Assistant_Msg msg]\<rparr>) of
                        (Some e, s') \<Rightarrow> (Some (Inl e), s')
                      | (None, s') \<Rightarrow> (None, s'))))"

text \<open>The body of the \<open>while\<close>; \<open>None\<close> goes on to the next turn.\<close>

definition turn_step ::
  "'w runtime_ops \<Rightarrow> str \<Rightarrow> run_params \<Rightarrow> 'w loop_state \<Rightarrow> (runtime_exc + dict) option \<times> 'w loop_state" where
  "turn_step ops rid rp s0 =
     (let s = s0\<lparr>ls_turn := ls_turn s0 + 1\<rparr> in
      if op_late ops (ls_world s) then
        stop (failed_with ''timeout'' [(''slug'', PStr (rp_slug rp)), (''turns_completed'', PInt (int (ls_turn s) - 1))]) s
      else if ls_llm_calls s \<ge> MAX_LLM_CALLS then
        stop (failed_with ''llm_call_limit_exceeded'' [(''slug'', PStr (rp_slug rp)),
                (''llm_calls'', PInt (int (ls_llm_calls s))), (''limit'', PInt (int MAX_LLM_CALLS))]) s
      else (case op_llm ops (ls_world s) (ls_messages s) (model_tools ops rp) (rp_token_budget rp) of
              (Llm_Raised t m, w) \<Rightarrow>
                stop (failed_with ''llm_call_failed'' [(''type'', PStr t), (''message'', PStr m)]) (s\<lparr>ls_world := w\<rparr>)
            | (Llm_Answer r, w) \<Rightarrow> handle_answer ops rid rp r (after_answer r (s\<lparr>ls_world := w\<rparr>))))"

text \<open>The \<open>while\<close> loop, by the number of turns that are left.\<close>

fun run_turns ::
  "'w runtime_ops \<Rightarrow> str \<Rightarrow> run_params \<Rightarrow> nat \<Rightarrow> 'w loop_state \<Rightarrow> (runtime_exc + dict) \<times> 'w loop_state" where
  "run_turns ops rid rp 0 s =
     (Inr (failed_with ''max_turns_reached'' [(''slug'', PStr (rp_slug rp)), (''turns'', PInt (int (ls_turn s))),
             (''resource_usage'', resource_usage s)]), s)"
| "run_turns ops rid rp (Suc n) s =
     (case turn_step ops rid rp s of
        (Some r, s') \<Rightarrow> (r, s')
      | (None, s') \<Rightarrow> run_turns ops rid rp n s')"

definition user_prompt :: "run_params \<Rightarrow> str" where
  "user_prompt rp =
     (let safe_params = snd (deployment_side_effect_authorized (rp_params rp)) in
      rp_task rp @ (if safe_params = [] then [] else [CHR 10, CHR 10] @ ''Additional params: '' @ plain_json (PDict safe_params)))"

definition initial_state :: "run_params \<Rightarrow> 'w \<Rightarrow> 'w loop_state" where
  "initial_state rp w =
     \<lparr>ls_world = w, ls_turn = 0, ls_llm_calls = 0, ls_total_tokens = 0, ls_files_written = 0, ls_authorized = None,
      ls_messages = [System_Msg (rp_system_prompt rp), User_Msg (user_prompt rp)],
      ls_records = [], ls_subagents = [], ls_swarmsync = None,
      ls_trace = [Emitted ''agent.started'' (rp_slug rp)]\<rparr>"

definition run_loop ::
  "'w runtime_ops \<Rightarrow> str \<Rightarrow> run_params \<Rightarrow> 'w \<Rightarrow> (runtime_exc + dict) \<times> 'w loop_state" where
  "run_loop ops rid rp w = run_turns ops rid rp MAX_TURNS (initial_state rp w)"

end
