(* ===== verification/Runtime_Safety.thy ===== *)
theory Runtime_Safety
  imports Agent_Runtime
begin

text \<open>
  What the agent loop guarantees of the runs it makes. The interface \<open>loop_invariant\<close> says what a property of the loop's
  state must survive (one tool call, an emitted event, the loop's own bookkeeping) to hold at the end of every run; it is
  interpreted by the invariant on the trace of actions and by the invariant on the records of calls.
\<close>

section \<open>Invariants of the loop\<close>

locale loop_invariant =
  fixes ops :: "'w runtime_ops" and rid :: str and rp :: run_params and I :: "'w loop_state \<Rightarrow> bool"
  assumes call_keeps: "call_step ops rid rp tc s = (r, s') \<Longrightarrow> I s \<Longrightarrow> I s'"
    and emit_keeps: "I s \<Longrightarrow> I (traced (Emitted e x) s)"
    and bookkeeping_keeps:
      "ls_trace s' = ls_trace s \<Longrightarrow> ls_records s' = ls_records s \<Longrightarrow> ls_authorized s' = ls_authorized s \<Longrightarrow>
       ls_files_written s' = ls_files_written s \<Longrightarrow> I s \<Longrightarrow> I s'"
begin

lemma run_calls_keeps: "run_calls ops rid rp tcs s = (r, s') \<Longrightarrow> I s \<Longrightarrow> I s'"
proof (induction tcs arbitrary: s)
  case (Cons tc tcs)
  obtain r1 s1 where step: "call_step ops rid rp tc s = (r1, s1)" by fastforce
  then have "I s1" using Cons.prems(2) by (rule call_keeps)
  then show ?case using Cons step by (auto split: option.splits)
qed simp

lemma final_answer_keeps:
  assumes "final_answer ops rp content s = (r, s')" and "I s"
  shows "I s'"
proof -
  have emitted: "I (traced (Emitted e x) s)" for e x using assms(2) by (rule emit_keeps)
  have "I (traced (Emitted e x) s\<lparr>ls_world := w\<rparr>)" for e x w
    by (rule bookkeeping_keeps [OF _ _ _ _ emitted]) simp_all
  then show ?thesis
    using assms by (auto simp: final_answer_def Let_def split: sum.splits prod.splits)
qed

lemma handle_answer_keeps:
  assumes "handle_answer ops rid rp a s = (r, s')" and "I s"
  shows "I s'"
proof -
  have "I (s\<lparr>ls_messages := m\<rparr>)" for m by (rule bookkeeping_keeps [OF _ _ _ _ assms(2)]) simp_all
  then show ?thesis
    using assms by (auto simp: handle_answer_def stop_def split: if_splits list.splits prod.splits option.splits
        dest: final_answer_keeps run_calls_keeps)
qed

lemma turn_step_keeps:
  assumes "turn_step ops rid rp s = (r, s')" and "I s"
  shows "I s'"
proof -
  have start: "I (s\<lparr>ls_turn := n\<rparr>)" "I (s\<lparr>ls_turn := n, ls_world := w\<rparr>)" for n w
    by (rule bookkeeping_keeps [OF _ _ _ _ assms(2)], simp_all)+
  have "I (after_answer a (s\<lparr>ls_turn := n, ls_world := w\<rparr>))" for a n w
    by (rule bookkeeping_keeps [OF _ _ _ _ assms(2)]) (simp_all add: after_answer_def)
  then show ?thesis
    using assms(1) start handle_answer_keeps
    by (auto simp: turn_step_def stop_def Let_def split: if_splits prod.splits llm_outcome.splits)
qed

lemma run_turns_keeps: "run_turns ops rid rp n s = (r, s') \<Longrightarrow> I s \<Longrightarrow> I s'"
proof (induction n arbitrary: s)
  case (Suc n)
  obtain r1 s1 where step: "turn_step ops rid rp s = (r1, s1)" by fastforce
  then have "I s1" using Suc.prems(2) by (rule turn_step_keeps)
  then show ?case using Suc step by (auto split: option.splits)
qed simp

lemma run_loop_keeps: "I (initial_state rp w) \<Longrightarrow> I (snd (run_loop ops rid rp w))"
  unfolding run_loop_def by (rule run_turns_keeps [OF surjective_pairing])

end

section \<open>The trace of a run\<close>

definition permitted :: "'w runtime_ops \<Rightarrow> run_params \<Rightarrow> str \<Rightarrow> bool" where
  "permitted ops rp t \<longleftrightarrow>
     \<not> is_prohibited t (Some (rp_slug rp)) \<and> op_registered ops t \<and> t \<in> set (rp_advertised rp)"

text \<open>The steps that end in the execution of a tool, by its risk class.\<close>

definition call_sequence :: "str \<Rightarrow> trace_entry list" where
  "call_sequence t =
     (if get_tool_risk_by_name t = Deployment then [Granted t True] else []) @
     (if get_tool_risk_by_name t = Read_Only then [] else [Intended t]) @
     [Emitted ''tool.called'' t, Executed t]"

fun is_execution :: "trace_entry \<Rightarrow> bool" where
  "is_execution (Executed _) = True"
| "is_execution _ = False"

inductive run_trace :: "'w runtime_ops \<Rightarrow> run_params \<Rightarrow> trace_entry list \<Rightarrow> bool" for ops rp where
  start: "run_trace ops rp []"
| note_step: "run_trace ops rp tr \<Longrightarrow> \<not> is_execution e \<Longrightarrow> run_trace ops rp (tr @ [e])"
| call: "run_trace ops rp tr \<Longrightarrow> permitted ops rp t \<Longrightarrow> run_trace ops rp (tr @ call_sequence t)"

lemma run_trace_notes: "run_trace ops rp tr \<Longrightarrow> list_all (\<lambda>e. \<not> is_execution e) es \<Longrightarrow> run_trace ops rp (tr @ es)"
proof (induction es rule: rev_induct)
  case (snoc e es)
  then have "run_trace ops rp ((tr @ es) @ [e])" by (intro run_trace.note_step) simp_all
  then show ?case by simp
qed simp

lemma call_sequence_split:
  "tr @ call_sequence t = pre @ Executed u # post \<Longrightarrow>
   (\<exists>post'. tr = pre @ Executed u # post') \<or> u = t \<and> post = [] \<and> pre @ [Executed u] = tr @ call_sequence t"
proof -
  assume eq: "tr @ call_sequence t = pre @ Executed u # post"
  obtain q where q: "call_sequence t = q @ [Executed t]" and nq: "list_all (\<lambda>e. \<not> is_execution e) q"
    by (auto simp: call_sequence_def)
  show ?thesis
  proof (cases post rule: rev_cases)
    case Nil
    then show ?thesis using eq q by simp
  next
    case (snoc post' e)
    then have eq': "tr @ q = pre @ Executed u # post'" using eq q by simp
    then have "Executed u \<notin> set q" using nq by (auto simp: list_all_iff)
    then show ?thesis using eq' by (auto simp: append_eq_append_conv2 append_eq_Cons_conv Cons_eq_append_conv)
  qed
qed

text \<open>Every execution in such a trace is of a permitted tool and ends the steps its class requires.\<close>

lemma run_trace_execution:
  "run_trace ops rp tr \<Longrightarrow> tr = pre @ Executed t # post \<Longrightarrow>
   permitted ops rp t \<and> (\<exists>before. pre @ [Executed t] = before @ call_sequence t)"
proof (induction arbitrary: post rule: run_trace.induct)
  case (note_step tr e)
  then show ?case by (cases post rule: rev_cases) auto
next
  case (call tr u)
  from call_sequence_split [OF call.prems] show ?case
  proof
    assume "\<exists>post'. tr = pre @ Executed t # post'"
    then show ?thesis using call.IH by blast
  next
    assume "t = u \<and> post = [] \<and> pre @ [Executed t] = tr @ call_sequence u"
    then show ?thesis using call.hyps(2) by blast
  qed
qed simp

section \<open>One call keeps the trace lawful\<close>

text \<open>A grant that was consumed is proof that deployments are open to the run: the variable that remembers it can be
  stale, but never for a tool of that class.\<close>

definition deployment_open :: "run_params \<Rightarrow> bool" where
  "deployment_open rp \<longleftrightarrow> Deployment \<in> set (allowed_risks_of (rp_slug rp)) \<and>
     (case rp_delegated_allowed_risks rp of None \<Rightarrow> True | Some rs \<Rightarrow> Deployment \<in> set rs)"

definition trace_inv :: "'w runtime_ops \<Rightarrow> run_params \<Rightarrow> 'w loop_state \<Rightarrow> bool" where
  "trace_inv ops rp s \<longleftrightarrow>
     run_trace ops rp (ls_trace s) \<and> (ls_authorized s \<noteq> None \<longrightarrow> deployment_open rp) \<and>
     0 \<le> ls_files_written s \<and> ls_files_written s \<le> MAX_FILES_WRITTEN"

lemma traced_simps [simp]:
  "ls_trace (traced e s) = ls_trace s @ [e]"
  "ls_world (traced e s) = ls_world s" "ls_authorized (traced e s) = ls_authorized s"
  "ls_files_written (traced e s) = ls_files_written s" "ls_records (traced e s) = ls_records s"
  "ls_turn (traced e s) = ls_turn s" "ls_llm_calls (traced e s) = ls_llm_calls s"
  "ls_total_tokens (traced e s) = ls_total_tokens s"
  by (simp_all add: traced_def)

lemma policy_risk:
  "\<not> is_prohibited t (Some slug) \<Longrightarrow> pol_risk_class (check_tool_policy slug t) = get_tool_risk_by_name t"
  by (simp add: check_tool_policy_def Let_def)

lemma human_only_not_deployment: "t \<in> set HUMAN_ONLY_TOOLS \<Longrightarrow> get_tool_risk_by_name t \<noteq> Deployment"
proof -
  have "list_all (\<lambda>t. get_tool_risk_by_name t \<noteq> Deployment) HUMAN_ONLY_TOOLS" by code_simp
  then show "t \<in> set HUMAN_ONLY_TOOLS \<Longrightarrow> get_tool_risk_by_name t \<noteq> Deployment" by (simp add: list_all_iff)
qed

lemma deployment_policy_ok:
  assumes "\<not> is_prohibited t (Some slug)" and "get_tool_risk_by_name t = Deployment"
  shows "pol_ok (check_tool_policy slug t) \<longleftrightarrow> Deployment \<in> set (allowed_risks_of slug)"
  using assms human_only_not_deployment [of t] by (auto simp: check_tool_policy_def Let_def)

lemma run_tool_effect:
  assumes "run_tool ops rp t args s = (v, s')"
  shows "ls_trace s' = ls_trace s @ [Emitted ''tool.called'' t, Executed t]"
    and "ls_authorized s' = ls_authorized s" and "ls_records s' = ls_records s"
    and "ls_files_written s' \<in> {ls_files_written s, ls_files_written s + (if t = ''file_write'' then 1 else 0)}"
  using assms by (auto simp: run_tool_def Let_def split: prod.splits tool_outcome.splits if_splits)

lemma audit_and_run_effect:
  assumes "audit_and_run ops rp risk t args s = (r, s')"
  shows "ls_authorized s' = ls_authorized s \<and> ls_records s' = ls_records s \<and>
         (ls_files_written s' = ls_files_written s \<or> t = ''file_write'' \<and> ls_files_written s' = ls_files_written s + 1) \<and>
         (if snd r then ls_trace s' = ls_trace s @ (if risk = Read_Only then [] else [Intended t]) @ [Emitted ''tool.called'' t, Executed t]
          else ls_trace s' = ls_trace s \<and> \<not> result_ok (fst r))"
  using assms
  by (auto simp: audit_and_run_def refusal_def result_ok_def dget_def split: prod.splits option.splits if_splits dest: run_tool_effect)

text \<open>What the two chains of the dispatcher do on a tool that passed the first checks.\<close>

definition chains :: "'w runtime_ops \<Rightarrow> run_params \<Rightarrow> str \<Rightarrow> pyval \<Rightarrow> 'w loop_state
     \<Rightarrow> (runtime_exc + pyval \<times> bool) \<times> 'w loop_state" where
  "chains ops rp t args s =
     (let policy = check_tool_policy (rp_slug rp) t in
      execute_chain ops rp policy t args (policy_chain ops rp policy t args s))"

lemma policy_chain_other:
  assumes "\<not> is_prohibited t (Some (rp_slug rp))" and "get_tool_risk_by_name t \<noteq> Deployment"
  shows "\<exists>msgs. list_all (\<lambda>e. \<not> is_execution e) msgs \<and>
         policy_chain ops rp (check_tool_policy (rp_slug rp) t) t args s = s\<lparr>ls_trace := ls_trace s @ msgs\<rparr>"
proof -
  define msgs where "msgs = (if pol_ok (check_tool_policy (rp_slug rp) t) then [] else [Emitted ''tool.blocked'' t])"
  have "policy_chain ops rp (check_tool_policy (rp_slug rp) t) t args s = s\<lparr>ls_trace := ls_trace s @ msgs\<rparr>"
    using assms by (simp add: policy_chain_def policy_risk msgs_def traced_def)
  moreover have "list_all (\<lambda>e. \<not> is_execution e) msgs" by (simp add: msgs_def)
  ultimately show ?thesis by blast
qed

lemma policy_chain_deployment:
  assumes "\<not> is_prohibited t (Some (rp_slug rp))" and "get_tool_risk_by_name t = Deployment"
    and "s' = policy_chain ops rp (check_tool_policy (rp_slug rp) t) t args s"
  shows "ls_records s' = ls_records s \<and> ls_files_written s' = ls_files_written s \<and>
         (if deployment_open rp then \<exists>b. ls_authorized s' = Some b \<and> ls_trace s' = ls_trace s @ [Granted t b]
          else ls_authorized s' = ls_authorized s \<and>
               (\<exists>msgs. list_all (\<lambda>e. \<not> is_execution e) msgs \<and> ls_trace s' = ls_trace s @ msgs))"
  using assms(3) deployment_policy_ok [OF assms(1,2)] assms(1,2)
  by (auto simp: policy_chain_def deployment_open_def policy_risk split: option.splits prod.splits)

text \<open>The effect of a dispatch. It either leaves only notes in the trace, or the steps of an execution after notes.\<close>

definition dispatch_effect :: "'w runtime_ops \<Rightarrow> run_params \<Rightarrow> str \<Rightarrow> 'w loop_state \<Rightarrow> 'w loop_state \<Rightarrow> bool \<Rightarrow> bool" where
  "dispatch_effect ops rp t s s' executed \<longleftrightarrow>
     ls_records s' = ls_records s \<and>
     (ls_authorized s' \<noteq> None \<longrightarrow> ls_authorized s = ls_authorized s' \<or> deployment_open rp) \<and>
     (ls_files_written s' = ls_files_written s \<or>
      ls_files_written s < MAX_FILES_WRITTEN \<and> ls_files_written s' = ls_files_written s + 1) \<and>
     (\<exists>msgs. list_all (\<lambda>e. \<not> is_execution e) msgs \<and>
        ls_trace s' = ls_trace s @ msgs @ (if executed then call_sequence t else []) \<and>
        (executed \<longrightarrow> permitted ops rp t))"

lemma execute_chain_effect:
  assumes run: "execute_chain ops rp policy t args s = (r, s')"
    and risk: "pol_risk_class policy = get_tool_risk_by_name t"
  shows "case r of
           Inl _ \<Rightarrow> s' = s
         | Inr (v, executed) \<Rightarrow>
             ls_records s' = ls_records s \<and> ls_authorized s' = ls_authorized s \<and>
             (ls_files_written s' = ls_files_written s \<or>
              ls_files_written s < MAX_FILES_WRITTEN \<and> ls_files_written s' = ls_files_written s + 1) \<and>
             (if executed
              then (get_tool_risk_by_name t = Deployment \<longrightarrow> ls_authorized s = Some True) \<and>
                   ls_trace s' = ls_trace s @ (if get_tool_risk_by_name t = Read_Only then [] else [Intended t]) @
                     [Emitted ''tool.called'' t, Executed t]
              else \<not> result_ok v \<and> (\<exists>msgs. list_all (\<lambda>e. \<not> is_execution e) msgs \<and> ls_trace s' = ls_trace s @ msgs))"
proof -
  let ?risk = "get_tool_risk_by_name t"
  obtain v1 e1 s1 where a: "audit_and_run ops rp ?risk t args s = ((v1, e1), s1)" by (metis surj_pair)
  have msgs: "list_all (\<lambda>e. \<not> is_execution e) [Emitted ''tool.blocked'' t]" "list_all (\<lambda>e. \<not> is_execution e) []"
    by simp_all
  consider "?risk = Deployment" "ls_authorized s = None" | "?risk = Deployment" "ls_authorized s = Some False"
    | "?risk = Deployment \<longrightarrow> ls_authorized s = Some True" "t = ''file_write''" "ls_files_written s \<ge> MAX_FILES_WRITTEN"
    | "?risk = Deployment \<longrightarrow> ls_authorized s = Some True" "t = ''file_write'' \<longrightarrow> ls_files_written s < MAX_FILES_WRITTEN"
    by (cases "ls_authorized s") force+
  then show ?thesis
  proof cases
    case 2
    then show ?thesis using run msgs(1) by (auto simp: execute_chain_def risk refusal_def result_ok_def dget_def)
  next
    case 3
    then show ?thesis using run msgs(2) by (auto simp: execute_chain_def risk result_ok_def dget_def)
  next
    case 4
    then have "r = Inr (v1, e1)" "s' = s1" using run a by (auto simp: execute_chain_def risk)
    then show ?thesis using audit_and_run_effect [OF a] 4 msgs(2) by (auto split: if_splits)
  qed (use run in \<open>auto simp: execute_chain_def risk\<close>)
qed

definition was_executed :: "runtime_exc + pyval \<times> bool \<Rightarrow> bool" where
  "was_executed r = (case r of Inl _ \<Rightarrow> False | Inr x \<Rightarrow> snd x)"

definition refused_truthfully :: "runtime_exc + pyval \<times> bool \<Rightarrow> bool" where
  "refused_truthfully r = (case r of Inl _ \<Rightarrow> True | Inr (v, executed) \<Rightarrow> executed \<or> \<not> result_ok v)"

lemma chains_other_effect:
  assumes t: "permitted ops rp t" "get_tool_risk_by_name t \<noteq> Deployment"
    and run: "chains ops rp t args s = (r, s')"
  shows "dispatch_effect ops rp t s s' (was_executed r) \<and> refused_truthfully r"
proof -
  have np: "\<not> is_prohibited t (Some (rp_slug rp))" using t(1) by (simp add: permitted_def)
  obtain msgs where msgs: "list_all (\<lambda>e. \<not> is_execution e) msgs" and
    ex: "execute_chain ops rp (check_tool_policy (rp_slug rp) t) t args (s\<lparr>ls_trace := ls_trace s @ msgs\<rparr>) = (r, s')"
    using policy_chain_other [OF np t(2), of ops args s] run by (auto simp: chains_def Let_def)
  have seq: "call_sequence t = (if get_tool_risk_by_name t = Read_Only then [] else [Intended t]) @ [Emitted ''tool.called'' t, Executed t]"
    using t(2) by (simp add: call_sequence_def)
  show ?thesis
  proof (cases r)
    case (Inl e)
    then show ?thesis
      using execute_chain_effect [OF ex policy_risk [OF np]] msgs
      by (auto simp: dispatch_effect_def was_executed_def refused_truthfully_def)
  next
    case (Inr x)
    obtain v executed where x: "x = (v, executed)" by fastforce
    note effect = execute_chain_effect [OF ex policy_risk [OF np], unfolded Inr x, simplified]
    show ?thesis
    proof (cases executed)
      case True
      then show ?thesis using effect msgs t(1) seq Inr x
        by (auto simp: dispatch_effect_def was_executed_def refused_truthfully_def)
    next
      case False
      then obtain msgs' where "list_all (\<lambda>e. \<not> is_execution e) (msgs @ msgs')" "ls_trace s' = ls_trace s @ msgs @ msgs'"
        using effect msgs by auto
      then show ?thesis using effect False Inr x
        by (auto simp: dispatch_effect_def was_executed_def refused_truthfully_def)
    qed
  qed
qed

lemma chains_deployment_effect:
  assumes t: "permitted ops rp t" "get_tool_risk_by_name t = Deployment"
    and inv: "ls_authorized s \<noteq> None \<longrightarrow> deployment_open rp"
    and run: "chains ops rp t args s = (r, s')"
  shows "dispatch_effect ops rp t s s' (was_executed r) \<and> refused_truthfully r"
proof -
  have np: "\<not> is_prohibited t (Some (rp_slug rp))" using t(1) by (simp add: permitted_def)
  define s1 where "s1 = policy_chain ops rp (check_tool_policy (rp_slug rp) t) t args s"
  have ex: "execute_chain ops rp (check_tool_policy (rp_slug rp) t) t args s1 = (r, s')"
    using run by (simp add: chains_def s1_def Let_def)
  note first = policy_chain_deployment [OF np t(2) s1_def]
  show ?thesis
  proof (cases "deployment_open rp")
    case False
    then have "r = Inl (UnboundLocalError ''deployment_authorized'')" "s' = s1"
      using ex first inv by (auto simp: execute_chain_def policy_risk [OF np] t(2))
    then show ?thesis using first False by (auto simp: dispatch_effect_def was_executed_def refused_truthfully_def)
  next
    case True
    then obtain b where b: "ls_authorized s1 = Some b" "ls_trace s1 = ls_trace s @ [Granted t b]"
      and same: "ls_records s1 = ls_records s" "ls_files_written s1 = ls_files_written s" using first by auto
    then obtain v executed where r: "r = Inr (v, executed)"
      using ex by (auto simp: execute_chain_def policy_risk [OF np] t(2) split: if_splits prod.splits)
    note effect = execute_chain_effect [OF ex policy_risk [OF np], unfolded r, simplified]
    show ?thesis
    proof (cases executed)
      case True
      then have "ls_trace s' = ls_trace s @ [] @ call_sequence t"
        using effect b t(2) by (simp add: call_sequence_def)
      then show ?thesis using effect True r same \<open>deployment_open rp\<close> t(1)
        unfolding dispatch_effect_def was_executed_def refused_truthfully_def by force
    next
      case False
      then obtain msgs' where "list_all (\<lambda>e. \<not> is_execution e) (Granted t b # msgs')" "ls_trace s' = ls_trace s @ Granted t b # msgs'"
        using effect b by auto
      then show ?thesis using effect False r same \<open>deployment_open rp\<close>
        unfolding dispatch_effect_def was_executed_def refused_truthfully_def by force
    qed
  qed
qed

lemma prohibited_refusal_not_ok: "prohibited_refusal rid t g slug = Inr env \<Longrightarrow> \<not> result_ok (PDict env)"
  by (auto simp: prohibited_refusal_def failure_def result_ok_def dget_def Let_def call_Inr strip_dict_def
      BANNED_RESPONSE_KEYS_def)

lemma dispatch_call_effect:
  assumes inv: "ls_authorized s \<noteq> None \<longrightarrow> deployment_open rp"
    and run: "dispatch_call ops rid rp t args s = (r, s')"
  shows "dispatch_effect ops rp t s s' (was_executed r) \<and> refused_truthfully r"
proof -
  consider "is_prohibited t (Some (rp_slug rp))"
    | "\<not> is_prohibited t (Some (rp_slug rp))" "\<not> op_registered ops t \<or> t \<notin> set (rp_advertised rp)" | "permitted ops rp t"
    by (auto simp: permitted_def)
  then show ?thesis
  proof cases
    case 1
    have "list_all (\<lambda>e. \<not> is_execution e) [Emitted ''tool.prohibited'' t]" by simp
    moreover have "s' = traced (Emitted ''tool.prohibited'' t) s" "\<not> was_executed r" "refused_truthfully r"
      using 1 run prohibited_refusal_not_ok
      by (auto simp: dispatch_call_def was_executed_def refused_truthfully_def split: sum.splits)
    ultimately show ?thesis unfolding dispatch_effect_def by force
  next
    case 2
    have "list_all (\<lambda>e. \<not> is_execution e) []" by simp
    moreover have "s' = s" "\<not> was_executed r" "refused_truthfully r"
      using 2 run by (auto simp: dispatch_call_def was_executed_def refused_truthfully_def refusal_def result_ok_def dget_def)
    ultimately show ?thesis unfolding dispatch_effect_def by force
  next
    case 3
    then have "chains ops rp t args s = (r, s')"
      using run by (auto simp: dispatch_call_def permitted_def chains_def Let_def)
    then show ?thesis
      using 3 inv chains_other_effect [of ops rp t args s r s'] chains_deployment_effect [of ops rp t s args r s']
      by (cases "get_tool_risk_by_name t = Deployment") simp_all
  qed
qed

lemma audit_result_effect:
  assumes "audit_result ops rp t args r s = (v, s')"
  shows "ls_records s' = ls_records s \<and> ls_authorized s' = ls_authorized s \<and> ls_files_written s' = ls_files_written s \<and>
         (\<exists>after. list_all (\<lambda>e. \<not> is_execution e) after \<and> ls_trace s' = ls_trace s @ after) \<and>
         (result_ok v \<longrightarrow> result_ok (fst r) \<and> (snd r \<longrightarrow> Logged t \<in> set (ls_trace s')))"
proof -
  have "ls_trace s' = ls_trace s \<or> ls_trace s' = ls_trace s @ [Logged t]"
    using assms by (auto simp: audit_result_def split: if_splits option.splits)
  then have "\<exists>after. list_all (\<lambda>e. \<not> is_execution e) after \<and> ls_trace s' = ls_trace s @ after" by force
  then show ?thesis
    using assms by (auto simp: audit_result_def refusal_def result_ok_def dget_def split: if_splits option.splits)
qed

lemma record_call_simps [simp]:
  "ls_authorized (record_call rp tc a v s) = ls_authorized s"
  "ls_files_written (record_call rp tc a v s) = ls_files_written s"
  "ls_records (record_call rp tc a v s) = ls_records s @ [call_record rp (ls_turn s) tc a v @
     (case v of PDict d \<Rightarrow> if tc_name tc = ''genesis_call'' then child_fields d else [] | _ \<Rightarrow> [])]"
  by (cases v; simp add: record_call_def Let_def)+

lemma record_call_trace:
  "\<exists>after. list_all (\<lambda>e. \<not> is_execution e) after \<and> ls_trace (record_call rp tc a v s) = ls_trace s @ after"
proof -
  have "ls_trace (record_call rp tc a v s) = ls_trace s \<or>
        ls_trace (record_call rp tc a v s) = ls_trace s @ [Emitted ''subagent.returned'' (tc_name tc)]"
    by (cases v) (simp_all add: record_call_def Let_def)
  then show ?thesis by force
qed

lemma call_record_fields:
  "dget (call_record rp n tc a v @ d) ''tool_name'' = PStr (tc_name tc)"
  "dget (call_record rp n tc a v @ d) ''ok'' = PBool (result_ok v)"
  by (simp_all add: call_record_def dget_def)

text \<open>Everything a call does to the parts of the state the invariants read.\<close>

definition call_effect :: "'w runtime_ops \<Rightarrow> run_params \<Rightarrow> str \<Rightarrow> bool \<Rightarrow> 'w loop_state \<Rightarrow> 'w loop_state \<Rightarrow> bool" where
  "call_effect ops rp t executed s s' \<longleftrightarrow>
     (ls_authorized s' \<noteq> None \<longrightarrow> deployment_open rp) \<and>
     (ls_files_written s' = ls_files_written s \<or>
      ls_files_written s < MAX_FILES_WRITTEN \<and> ls_files_written s' = ls_files_written s + 1) \<and>
     (executed \<longrightarrow> permitted ops rp t) \<and>
     (\<exists>before after. list_all (\<lambda>e. \<not> is_execution e) before \<and> list_all (\<lambda>e. \<not> is_execution e) after \<and>
        ls_trace s' = ls_trace s @ before @ (if executed then call_sequence t else []) @ after) \<and>
     (ls_records s' = ls_records s \<or>
      (\<exists>rec. ls_records s' = ls_records s @ [rec] \<and> dget rec ''tool_name'' = PStr t \<and>
         (dget rec ''ok'' = PBool True \<longrightarrow> executed \<and> Logged t \<in> set (ls_trace s'))))"

lemma call_step_effect:
  assumes inv: "ls_authorized s \<noteq> None \<longrightarrow> deployment_open rp"
    and step: "call_step ops rid rp tc s = (e, s')"
  shows "\<exists>executed. call_effect ops rp (tc_name tc) executed s s'"
proof -
  let ?t = "tc_name tc" and ?args = "parse_args ops (tc_arguments tc)" and ?quiet = "list_all (\<lambda>e. \<not> is_execution e)"
  obtain r s1 where d: "dispatch_call ops rid rp ?t ?args s = (r, s1)" by fastforce
  note effect = dispatch_call_effect [OF inv d, unfolded dispatch_effect_def]
  then obtain before where before: "?quiet before"
    "ls_trace s1 = ls_trace s @ before @ (if was_executed r then call_sequence ?t else [])" by blast
  show ?thesis
  proof (cases r)
    case (Inl x)
    then have "s' = s1" "\<not> was_executed r" using step d by (simp_all add: call_step_def was_executed_def Let_def)
    moreover have "?quiet []" by simp
    ultimately have "call_effect ops rp ?t False s s'"
      using effect before inv unfolding call_effect_def by force
    then show ?thesis ..
  next
    case (Inr x)
    obtain v s2 where a: "audit_result ops rp ?t ?args x s1 = (v, s2)" by fastforce
    have ex: "was_executed r = snd x" "result_ok (fst x) \<longrightarrow> snd x"
      using effect Inr by (auto simp: was_executed_def refused_truthfully_def)
    note logged = audit_result_effect [OF a]
    obtain s3 where s3: "s' = s2 \<or> s' = s3" and rec: "\<exists>args. s3 = record_call rp tc args v s2"
      using step d a Inr by (auto simp: call_step_def Let_def split: pyval.splits)
    obtain after where after: "?quiet after" "ls_trace s' = ls_trace s1 @ after"
    proof -
      obtain x where x: "?quiet x" "ls_trace s2 = ls_trace s1 @ x" using logged by blast
      obtain y where y: "?quiet y" "ls_trace s3 = ls_trace s2 @ y" using rec record_call_trace by blast
      have "?quiet (x @ y)" using x y by simp
      then show ?thesis using s3 x y that by (metis append_assoc)
    qed
    have records: "ls_records s' = ls_records s \<or>
      (\<exists>rec. ls_records s' = ls_records s @ [rec] \<and> dget rec ''tool_name'' = PStr ?t \<and>
         (dget rec ''ok'' = PBool True \<longrightarrow> was_executed r \<and> Logged ?t \<in> set (ls_trace s')))"
    proof (cases "s' = s2")
      case True
      then show ?thesis using logged effect by simp
    next
      case False
      then obtain args where s': "s' = record_call rp tc args v s2" using s3 rec by blast
      obtain y where "ls_trace s' = ls_trace s2 @ y" unfolding s' using record_call_trace by blast
      then have "result_ok v \<longrightarrow> was_executed r \<and> Logged ?t \<in> set (ls_trace s')" using logged ex by auto
      then show ?thesis using logged effect by (simp add: s' call_record_fields)
    qed
    have same: "ls_authorized s' = ls_authorized s1" "ls_files_written s' = ls_files_written s1"
      using s3 rec logged by auto
    have trace: "ls_trace s' = ls_trace s @ before @ (if was_executed r then call_sequence ?t else []) @ after"
      using before(2) after(2) by simp
    have "ls_authorized s' \<noteq> None \<longrightarrow> deployment_open rp" "was_executed r \<longrightarrow> permitted ops rp ?t"
      "ls_files_written s' = ls_files_written s \<or>
       ls_files_written s < MAX_FILES_WRITTEN \<and> ls_files_written s' = ls_files_written s + 1"
      using effect inv unfolding same by metis+
    then have "call_effect ops rp ?t (was_executed r) s s'"
      unfolding call_effect_def using before(1) after(1) trace records by blast
    then show ?thesis ..
  qed
qed


section \<open>Every run is lawful\<close>

lemma trace_inv_call:
  assumes "call_step ops rid rp tc s = (e, s')" and "trace_inv ops rp s"
  shows "trace_inv ops rp s'"
proof -
  obtain executed where c: "call_effect ops rp (tc_name tc) executed s s'"
    using call_step_effect [OF _ assms(1)] assms(2) by (auto simp: trace_inv_def)
  then obtain before after where seg: "list_all (\<lambda>e. \<not> is_execution e) before" "list_all (\<lambda>e. \<not> is_execution e) after"
    "ls_trace s' = ls_trace s @ before @ (if executed then call_sequence (tc_name tc) else []) @ after"
    and perm: "executed \<longrightarrow> permitted ops rp (tc_name tc)"
    unfolding call_effect_def by blast
  have "run_trace ops rp (ls_trace s @ before)"
    using assms(2) seg(1) by (simp add: trace_inv_def run_trace_notes)
  then have "run_trace ops rp ((ls_trace s @ before) @ (if executed then call_sequence (tc_name tc) else []))"
    using perm by (cases executed) (simp_all add: run_trace.call del: append_assoc)
  then have "run_trace ops rp (((ls_trace s @ before) @ (if executed then call_sequence (tc_name tc) else [])) @ after)"
    using seg(2) by (rule run_trace_notes)
  then have "run_trace ops rp (ls_trace s')" using seg(3) by simp
  then show ?thesis using c assms(2) unfolding trace_inv_def call_effect_def by auto
qed

interpretation lawful: loop_invariant ops rid rp "trace_inv ops rp" for ops rid rp
proof unfold_locales
  show "call_step ops rid rp tc s = (r, s') \<Longrightarrow> trace_inv ops rp s \<Longrightarrow> trace_inv ops rp s'" for tc s r s'
    by (rule trace_inv_call)
  show "trace_inv ops rp s \<Longrightarrow> trace_inv ops rp (traced (Emitted e x) s)" for s e x
    by (simp add: trace_inv_def run_trace.note_step)
qed (simp add: trace_inv_def)

lemma trace_inv_initial: "trace_inv ops rp (initial_state rp w)"
  using run_trace.note_step [OF run_trace.start, of "Emitted ''agent.started'' (rp_slug rp)"]
  by (simp add: trace_inv_def initial_state_def MAX_FILES_WRITTEN_def)

definition evidence_inv :: "'w runtime_ops \<Rightarrow> run_params \<Rightarrow> 'w loop_state \<Rightarrow> bool" where
  "evidence_inv ops rp s \<longleftrightarrow>
     (ls_authorized s \<noteq> None \<longrightarrow> deployment_open rp) \<and>
     (\<forall>rec \<in> set (ls_records s). dget rec ''ok'' = PBool True \<longrightarrow>
        (\<exists>t. dget rec ''tool_name'' = PStr t \<and> Executed t \<in> set (ls_trace s) \<and> Logged t \<in> set (ls_trace s)))"

lemma evidence_inv_call:
  assumes "call_step ops rid rp tc s = (e, s')" and "evidence_inv ops rp s"
  shows "evidence_inv ops rp s'"
proof -
  obtain executed where c: "call_effect ops rp (tc_name tc) executed s s'"
    using call_step_effect [OF _ assms(1)] assms(2) by (auto simp: evidence_inv_def)
  then have grows: "set (ls_trace s) \<subseteq> set (ls_trace s')" and here: "executed \<longrightarrow> Executed (tc_name tc) \<in> set (ls_trace s')"
    by (auto simp: call_effect_def call_sequence_def)
  have records: "ls_records s' = ls_records s \<or>
      (\<exists>rec. ls_records s' = ls_records s @ [rec] \<and> dget rec ''tool_name'' = PStr (tc_name tc) \<and>
         (dget rec ''ok'' = PBool True \<longrightarrow> executed \<and> Logged (tc_name tc) \<in> set (ls_trace s')))"
    and auth: "ls_authorized s' \<noteq> None \<longrightarrow> deployment_open rp"
    using c unfolding call_effect_def by blast+
  have new: "rec \<in> set (ls_records s) \<or> dget rec ''tool_name'' = PStr (tc_name tc) \<and>
        (dget rec ''ok'' = PBool True \<longrightarrow> executed \<and> Logged (tc_name tc) \<in> set (ls_trace s'))"
    if "rec \<in> set (ls_records s')" for rec
    using records that by auto
  have "\<exists>t. dget rec ''tool_name'' = PStr t \<and> Executed t \<in> set (ls_trace s') \<and> Logged t \<in> set (ls_trace s')"
    if "rec \<in> set (ls_records s')" "dget rec ''ok'' = PBool True" for rec
    using new [OF that(1)] that(2) here grows assms(2) unfolding evidence_inv_def by blast
  then show ?thesis using auth unfolding evidence_inv_def by blast
qed

interpretation evident: loop_invariant ops rid rp "evidence_inv ops rp" for ops rid rp
proof unfold_locales
  show "call_step ops rid rp tc s = (r, s') \<Longrightarrow> evidence_inv ops rp s \<Longrightarrow> evidence_inv ops rp s'" for tc s r s'
    by (rule evidence_inv_call)
  show "evidence_inv ops rp s \<Longrightarrow> evidence_inv ops rp (traced (Emitted e x) s)" for s e x
    by (auto simp: evidence_inv_def)
qed (simp add: evidence_inv_def)

text \<open>C2. In every run of the agent loop, whatever the model answers and whatever the tools do, a tool that is executed is
  registered, advertised by the bundle and not prohibited, and its execution ends the steps its risk class asks for, in this order and
  with nothing between them: for a deployment tool the consumption of an action grant for that very call, for every tool that is not
  read-only the audit intent, then the \<open>tool.called\<close> event.\<close>

theorem run_loop_lawful:
  assumes "ls_trace (snd (run_loop ops rid rp w)) = pre @ Executed t # post"
  shows "\<not> is_prohibited t (Some (rp_slug rp)) \<and> op_registered ops t \<and> t \<in> set (rp_advertised rp) \<and>
         (\<exists>before. pre @ [Executed t] = before @
            (if get_tool_risk_by_name t = Deployment then [Granted t True] else []) @
            (if get_tool_risk_by_name t = Read_Only then [] else [Intended t]) @
            [Emitted ''tool.called'' t, Executed t])"
proof -
  have "trace_inv ops rp (snd (run_loop ops rid rp w))"
    by (rule lawful.run_loop_keeps [OF trace_inv_initial])
  then have "run_trace ops rp (ls_trace (snd (run_loop ops rid rp w)))" by (simp add: trace_inv_def)
  from run_trace_execution [OF this assms] show ?thesis
    by (simp add: permitted_def call_sequence_def)
qed

section \<open>Bounds\<close>

definition counts :: "'w loop_state \<Rightarrow> nat \<times> nat \<times> int" where
  "counts s = (ls_turn s, ls_llm_calls s, ls_total_tokens s)"

lemma counts_traced [simp]: "counts (traced e s) = counts s"
  by (simp add: counts_def)

lemma counts_update [simp]:
  "counts (s\<lparr>ls_world := w\<rparr>) = counts s" "counts (s\<lparr>ls_world := w, ls_files_written := f\<rparr>) = counts s"
  "counts (s\<lparr>ls_world := w, ls_authorized := a\<rparr>) = counts s" "counts (s\<lparr>ls_messages := m\<rparr>) = counts s"
  by (simp_all add: counts_def)

lemma run_tool_counts: "run_tool ops rp t args s = (v, s') \<Longrightarrow> counts s' = counts s"
  by (auto simp: run_tool_def Let_def split: prod.splits tool_outcome.splits)

lemma audit_and_run_counts: "audit_and_run ops rp risk t args s = (r, s') \<Longrightarrow> counts s' = counts s"
  by (auto simp: audit_and_run_def split: if_splits prod.splits option.splits dest: run_tool_counts)

lemma policy_chain_counts [simp]: "counts (policy_chain ops rp policy t args s) = counts s"
  by (auto simp: policy_chain_def split: prod.splits)

lemma execute_chain_counts: "execute_chain ops rp policy t args s = (r, s') \<Longrightarrow> counts s' = counts s"
  by (auto simp: execute_chain_def split: if_splits prod.splits dest: audit_and_run_counts)

lemma dispatch_call_counts: "dispatch_call ops rid rp t args s = (r, s') \<Longrightarrow> counts s' = counts s"
  by (auto simp: dispatch_call_def Let_def split: if_splits dest: execute_chain_counts)

lemma audit_result_counts: "audit_result ops rp t args r s = (v, s') \<Longrightarrow> counts s' = counts s"
  by (auto simp: audit_result_def split: if_splits option.splits)

lemma record_call_counts [simp]: "counts (record_call rp tc a v s) = counts s"
  by (cases v) (simp_all add: record_call_def Let_def counts_def)

lemma call_step_counts:
  assumes "call_step ops rid rp tc s = (e, s')"
  shows "counts s' = counts s"
proof -
  obtain r s1 where d: "dispatch_call ops rid rp (tc_name tc) (parse_args ops (tc_arguments tc)) s = (r, s1)" by fastforce
  show ?thesis
    using assms dispatch_call_counts [OF d]
    by (cases r) (auto simp: call_step_def Let_def d split: prod.splits pyval.splits dest!: audit_result_counts)
qed

lemma run_calls_counts: "run_calls ops rid rp tcs s = (e, s') \<Longrightarrow> counts s' = counts s"
  by (induction tcs arbitrary: s) (auto split: prod.splits option.splits dest: call_step_counts)

lemma final_answer_counts:
  "final_answer ops rp content s = (r, s') \<Longrightarrow> counts s' = counts s"
  by (auto simp: final_answer_def Let_def split: sum.splits prod.splits)

lemma handle_answer_counts: "handle_answer ops rid rp a s = (r, s') \<Longrightarrow> counts s' = counts s"
  by (auto simp: handle_answer_def stop_def split: if_splits list.splits prod.splits option.splits
      dest: final_answer_counts run_calls_counts)

lemma turn_step_counts:
  assumes "turn_step ops rid rp s = (r, s')"
  shows "ls_turn s' = ls_turn s + 1 \<and> ls_llm_calls s' \<le> ls_llm_calls s + 1"
  using assms
  by (auto simp: turn_step_def stop_def Let_def after_answer_def counts_def split: if_splits prod.splits llm_outcome.splits
      dest!: handle_answer_counts)

lemma run_turns_counts:
  "run_turns ops rid rp n s = (r, s') \<Longrightarrow> ls_turn s' \<le> ls_turn s + n \<and> ls_llm_calls s' \<le> ls_llm_calls s + n"
proof (induction n arbitrary: s)
  case (Suc n)
  obtain r1 s1 where step: "turn_step ops rid rp s = (r1, s1)" by fastforce
  show ?case
    using Suc.prems Suc.IH [of s1] turn_step_counts [OF step] by (cases r1) (auto simp: step)
qed simp

text \<open>C19. Every run ends, and it ends within the limits: at most ten turns, at most ten calls of the language model and at most twenty
  successful file writes, whatever the model and the tools answer.\<close>

theorem run_loop_bounded:
  "ls_turn (snd (run_loop ops rid rp w)) \<le> MAX_TURNS \<and> ls_llm_calls (snd (run_loop ops rid rp w)) \<le> MAX_LLM_CALLS \<and>
   0 \<le> ls_files_written (snd (run_loop ops rid rp w)) \<and> ls_files_written (snd (run_loop ops rid rp w)) \<le> MAX_FILES_WRITTEN"
proof -
  have "trace_inv ops rp (snd (run_loop ops rid rp w))"
    by (rule lawful.run_loop_keeps [OF trace_inv_initial])
  moreover have "ls_turn (snd (run_loop ops rid rp w)) \<le> 0 + MAX_TURNS \<and> ls_llm_calls (snd (run_loop ops rid rp w)) \<le> 0 + MAX_TURNS"
    using run_turns_counts [OF surjective_pairing, of ops rid rp MAX_TURNS "initial_state rp w"]
    by (simp add: run_loop_def initial_state_def)
  ultimately show ?thesis by (simp add: trace_inv_def MAX_TURNS_def MAX_LLM_CALLS_def)
qed

section \<open>A successful run has evidence\<close>

lemma dget_append: "map_of d k = Some v \<Longrightarrow> dget (d @ d') k = v"
  by (simp add: dget_def map_add_def split: option.splits)

lemma map_of_set_trace_status: "k \<noteq> ''trace'' \<Longrightarrow> map_of (set_trace_status st result) k = map_of result k"
  by (simp add: set_trace_status_def split: pyval.splits)

lemma apply_verdict_failed: "\<not> fst verdict \<Longrightarrow> map_of (apply_verdict verdict result) ''ok'' = Some (PBool False)"
  by (simp add: apply_verdict_def Let_def map_of_set_trace_status)

lemma check_criteria_member:
  "check_criteria loads cs result = Inr [] \<Longrightarrow> c \<in> set cs \<Longrightarrow> check_criterion loads c result = Inr []"
  by (induction cs) (auto simp: bindE_Inr)

lemma final_answer_ok:
  assumes "final_answer ops rp content s = (Inr result, s')" and "dget result ''ok'' = PBool True"
  obtains routing where "check_criteria (op_loads ops) (effective_criteria (rp_success_criteria rp) (rp_advertised rp \<noteq> []))
      (base_result ops rp content s @ routing) = Inr []"
    and "ls_records s' = ls_records s" and "counts s' = counts s"
proof -
  obtain routing ok failed rest where verdict:
      "check_success_criteria (op_loads ops) (rp_success_criteria rp) (base_result ops rp content s @ routing) (rp_advertised rp \<noteq> [])
         = Inr (ok, failed)"
    and res: "result = apply_verdict (ok, failed) (base_result ops rp content s @ routing) @ rest"
    and rec: "ls_records s' = ls_records s"
    using assms(1) by (auto simp: final_answer_def Let_def bindE_def split: sum.splits prod.splits)
  have "ok"
  proof (rule ccontr)
    assume "\<not> ok"
    then have "dget result ''ok'' = PBool False" unfolding res by (intro dget_append apply_verdict_failed) simp
    then show False using assms(2) by simp
  qed
  then have "check_criteria (op_loads ops) (effective_criteria (rp_success_criteria rp) (rp_advertised rp \<noteq> []))
      (base_result ops rp content s @ routing) = Inr []"
    using verdict by (auto simp: check_success_criteria_def bindE_Inr)
  then show ?thesis using that rec final_answer_counts [OF assms(1)] by blast
qed

lemma failed_with_not_ok: "dget (failed_with err d) ''ok'' = PBool False"
  by (simp add: failed_with_def dget_def)

lemma handle_answer_ok:
  assumes "handle_answer ops rid rp a s = (Some (Inr result), s')" and "dget result ''ok'' = PBool True"
  shows "\<exists>content. final_answer ops rp content s = (Inr result, s') \<and> ls_total_tokens s \<le> MAX_TOKENS_PER_JOB"
  using assms
  by (auto simp: handle_answer_def stop_def failed_with_not_ok split: if_splits list.splits prod.splits option.splits)

lemma turn_step_ok:
  assumes "turn_step ops rid rp s = (Some (Inr result), s')" and "dget result ''ok'' = PBool True"
  shows "\<exists>content s1. final_answer ops rp content s1 = (Inr result, s') \<and> ls_total_tokens s1 \<le> MAX_TOKENS_PER_JOB"
  using assms handle_answer_ok
  by (fastforce simp: turn_step_def stop_def Let_def failed_with_not_ok split: if_splits prod.splits llm_outcome.splits)

lemma run_turns_ok:
  "run_turns ops rid rp n s = (Inr result, s') \<Longrightarrow> dget result ''ok'' = PBool True \<Longrightarrow>
   \<exists>content s1. final_answer ops rp content s1 = (Inr result, s') \<and> ls_total_tokens s1 \<le> MAX_TOKENS_PER_JOB"
proof (induction n arbitrary: s)
  case 0
  then show ?case by (auto simp: failed_with_not_ok)
next
  case (Suc n)
  then show ?case using turn_step_ok by (auto split: prod.splits option.splits)
qed

lemma successful_calls_record:
  assumes "successful_calls (base_result ops rp content s @ routing) \<ge> 1"
  shows "\<exists>rec \<in> set (ls_records s). dget rec ''ok'' = PBool True"
proof -
  define good where "good = filter (\<lambda>c. case c of PDict d \<Rightarrow> dget d ''ok'' = PBool True | _ \<Rightarrow> False) (map PDict (ls_records s))"
  have "dget (base_result ops rp content s @ routing) ''trace'' = dget (base_result ops rp content s) ''trace''"
    by (rule dget_append) (simp add: base_result_def)
  then have "successful_calls (base_result ops rp content s @ routing) = int (length good)"
    by (simp add: successful_calls_def base_result_def dget_def py_or_def good_def)
  then obtain c where "c \<in> set good" using assms by (cases good) auto
  then show ?thesis by (auto simp: good_def)
qed

lemma evidence_criterion:
  assumes "check_criterion loads [(''type'', PStr ''min_successful_tool_calls''), (''config'', PDict [(''count'', PInt 1)])] result = Inr []"
  shows "successful_calls result \<ge> 1"
  using assms by (simp add: check_criterion_def config_of_def dget_def dget_default_def py_or_def Let_def split: if_splits)

text \<open>C39. A run that reports success stayed within the token budget, and when the agent advertises tools and its bundle has no
  tool-call criterion of its own, it did something: some tool was executed, its result was a success, and that execution is in the
  audit log. Refused, failed and unaudited calls do not count.\<close>

theorem run_success_evident:
  assumes "fst (run_loop ops rid rp w) = Inr result" and "dget result ''ok'' = PBool True"
    and "rp_advertised rp \<noteq> []"
    and "\<not> list_ex (\<lambda>c. dget c ''type'' = PStr ''min_successful_tool_calls'')
           (case rp_success_criteria rp of None \<Rightarrow> [] | Some cs \<Rightarrow> cs)"
  shows "ls_total_tokens (snd (run_loop ops rid rp w)) \<le> MAX_TOKENS_PER_JOB \<and>
         (\<exists>t. Executed t \<in> set (ls_trace (snd (run_loop ops rid rp w))) \<and>
              Logged t \<in> set (ls_trace (snd (run_loop ops rid rp w))) \<and>
              (\<exists>rec \<in> set (ls_records (snd (run_loop ops rid rp w))).
                 dget rec ''tool_name'' = PStr t \<and> dget rec ''ok'' = PBool True))"
proof -
  let ?s = "snd (run_loop ops rid rp w)"
  let ?c = "[(''type'', PStr ''min_successful_tool_calls''), (''config'', PDict [(''count'', PInt 1)])]"
  have "run_turns ops rid rp MAX_TURNS (initial_state rp w) = (Inr result, ?s)"
    using assms(1) by (metis run_loop_def prod.collapse)
  then obtain content s1 where final: "final_answer ops rp content s1 = (Inr result, ?s)"
    and tokens: "ls_total_tokens s1 \<le> MAX_TOKENS_PER_JOB" using run_turns_ok assms(2) by blast
  obtain routing where criteria: "check_criteria (op_loads ops) (effective_criteria (rp_success_criteria rp) True)
      (base_result ops rp content s1 @ routing) = Inr []" and same: "ls_records ?s = ls_records s1" "counts ?s = counts s1"
    using final_answer_ok [OF final assms(2)] assms(3) by auto
  have "?c \<in> set (effective_criteria (rp_success_criteria rp) True)"
    using assms(4) by (auto simp: effective_criteria_def Let_def dget_def split: option.splits)
  then obtain rec where rec: "rec \<in> set (ls_records ?s)" "dget rec ''ok'' = PBool True"
    using evidence_criterion [OF check_criteria_member [OF criteria]] successful_calls_record same(1) by metis
  have "evidence_inv ops rp ?s"
    by (rule evident.run_loop_keeps) (simp add: evidence_inv_def initial_state_def)
  then obtain t where "dget rec ''tool_name'' = PStr t" "Executed t \<in> set (ls_trace ?s)" "Logged t \<in> set (ls_trace ?s)"
    using rec unfolding evidence_inv_def by blast
  moreover have "ls_total_tokens ?s \<le> MAX_TOKENS_PER_JOB" using tokens same(2) by (simp add: counts_def)
  ultimately show ?thesis using rec by blast
qed

section \<open>What the policy decision changes\<close>

text \<open>The dispatcher does not enforce the per-agent policy decision nor the risk ceiling of a delegation: a registered,
  advertised tool that is not globally or slug-wise prohibited, of any class but deployment, is executed whatever
  \<open>check_tool_policy\<close> answered and whatever risks the delegating parent allowed, as soon as its audit intent can be
  recorded. The two refusals the first chain of conditions builds are overwritten by the second.\<close>

theorem dispatch_ignores_denial:
  assumes "\<not> is_prohibited t (Some (rp_slug rp))" and "op_registered ops t" and "t \<in> set (rp_advertised rp)"
    and "get_tool_risk_by_name t \<noteq> Deployment"
    and "get_tool_risk_by_name t = Read_Only \<or> op_intent ops (ls_world s) (rp_session_id rp) t args \<noteq> None"
    and "t = ''file_write'' \<longrightarrow> ls_files_written s < MAX_FILES_WRITTEN"
  shows "\<exists>v s'. dispatch_call ops rid rp t args s = (Inr (v, True), s')"
proof -
  define s1 where "s1 = policy_chain ops rp (check_tool_policy (rp_slug rp) t) t args s"
  have same: "ls_world s1 = ls_world s" "ls_files_written s1 = ls_files_written s"
    using policy_chain_other [OF assms(1,4), of ops args s] by (auto simp: s1_def)
  have "dispatch_call ops rid rp t args s = execute_chain ops rp (check_tool_policy (rp_slug rp) t) t args s1"
    using assms(1-3) by (simp add: dispatch_call_def s1_def Let_def)
  also have "\<dots> = (case audit_and_run ops rp (get_tool_risk_by_name t) t args s1 of (r, s') \<Rightarrow> (Inr r, s'))"
    using assms(4,6) by (auto simp: execute_chain_def policy_risk [OF assms(1)] same)
  also have "\<exists>v s'. \<dots> = (Inr (v, True), s')"
    using assms(5) same by (cases "get_tool_risk_by_name t = Read_Only") (auto simp: audit_and_run_def split: prod.splits)
  finally show ?thesis .
qed

text \<open>A run in which the model calls one tool and then answers.\<close>

definition sample_runtime :: "str \<Rightarrow> nat runtime_ops" where
  "sample_runtime t =
     \<lparr>op_registered = (\<lambda>_. True), op_run = (\<lambda>w _ _ _. (Tool_Returned (PDict [(''ok'', PBool True)]), w)),
      op_intent = (\<lambda>w _ _ _. Some w), op_event = (\<lambda>w _ _ _ _. Some w), op_grant = (\<lambda>w _ _ _. (True, w)),
      op_ledger = (\<lambda>_. \<lparr>dl_tokens = [], dl_cents = []\<rparr>), op_late = (\<lambda>_. False), op_elapsed = (\<lambda>_. PInt 1),
      op_llm = (\<lambda>w _ _ _. (Llm_Answer \<lparr>lr_usage = PDict [(''total_tokens'', PInt 100)],
         lr_choices = [if w = 0 then \<lparr>lm_tool_calls = [\<lparr>tc_id = ''c1'', tc_name = t, tc_arguments = ''{}''\<rparr>], lm_content = PNone\<rparr>
                       else \<lparr>lm_tool_calls = [], lm_content = PStr ''done''\<rparr>], lr_swarmsync = PNone\<rparr>, w + 1)),
      op_loads = (\<lambda>_. Some (PDict [])), op_finalizing = (\<lambda>w. w), op_proof = (\<lambda>w. (Browser_Unused, w))\<rparr>"

definition sample_params :: "str \<Rightarrow> str list \<Rightarrow> run_params" where
  "sample_params slug tools =
     \<lparr>rp_slug = slug, rp_job_id = ''job-1'', rp_session_id = ''s1'', rp_workspace = ''/tmp/jobs/job-1'',
      rp_system_prompt = ''You are an agent.'', rp_task = ''do it'', rp_tools = tools, rp_params = [],
      rp_success_criteria = None, rp_delegation_chain = [], rp_delegation_depth = 0, rp_delegated_allowed_risks = None,
      rp_token_budget = 4000, rp_conduit_budget_cents = 0\<rparr>"

definition deploy_trace :: "trace_entry list" where
  "deploy_trace = ls_trace (snd (run_loop (sample_runtime ''github_tool'') ''r1'' (sample_params ''genesis-deploy'' [''github_tool'']) 0))"

lemma deploy_trace_eq:
  "deploy_trace =
     [Emitted ''agent.started'' ''genesis-deploy'', Granted ''github_tool'' True, Intended ''github_tool'', Emitted ''tool.called'' ''github_tool''] @
     Executed ''github_tool'' # [Logged ''github_tool'', Emitted ''job.completed'' ''job-1'']"
  unfolding deploy_trace_def by code_simp

theorem run_loop_lawful_witness:
  "deploy_trace = take 4 deploy_trace @ Executed ''github_tool'' # drop 5 deploy_trace \<and>
   get_tool_risk_by_name ''github_tool'' = Deployment \<and>
   (\<exists>before. take 4 deploy_trace @ [Executed ''github_tool''] =
      before @ [Granted ''github_tool'' True, Intended ''github_tool'', Emitted ''tool.called'' ''github_tool'', Executed ''github_tool''])"
proof -
  have risk: "get_tool_risk_by_name ''github_tool'' = Deployment" by code_simp
  have split: "deploy_trace = take 4 deploy_trace @ Executed ''github_tool'' # drop 5 deploy_trace"
    by (simp add: deploy_trace_eq)
  from run_loop_lawful [OF split [unfolded deploy_trace_def]] show ?thesis
    using risk split unfolding deploy_trace_def by simp
qed

theorem run_success_evident_witness:
  "\<exists>result. fst (run_loop (sample_runtime ''web_search'') ''r1'' (sample_params ''genesis-research'' [''web_search'']) 0) = Inr result \<and>
     dget result ''ok'' = PBool True \<and>
     (\<exists>t. Executed t \<in> set (ls_trace (snd (run_loop (sample_runtime ''web_search'') ''r1'' (sample_params ''genesis-research'' [''web_search'']) 0))))"
proof -
  let ?run = "run_loop (sample_runtime ''web_search'') ''r1'' (sample_params ''genesis-research'' [''web_search'']) (0 :: nat)"
  have "case fst ?run of Inl _ \<Rightarrow> False | Inr result \<Rightarrow> dget result ''ok'' = PBool True" by code_simp
  then obtain result where r: "fst ?run = Inr result" "dget result ''ok'' = PBool True" by (auto split: sum.splits)
  have "rp_advertised (sample_params ''genesis-research'' [''web_search'']) \<noteq> []"
    "\<not> list_ex (\<lambda>c. dget c ''type'' = PStr ''min_successful_tool_calls'')
       (case rp_success_criteria (sample_params ''genesis-research'' [''web_search'']) of None \<Rightarrow> [] | Some cs \<Rightarrow> cs)"
    by code_simp+
  from run_success_evident [OF r this] show ?thesis using r by blast
qed

theorem dispatch_ignores_denial_witness:
  "\<not> pol_ok (check_tool_policy ''genesis-billing'' ''send_email'') \<and>
   (\<exists>v s'. dispatch_call (sample_runtime ''send_email'') ''r1'' (sample_params ''genesis-billing'' [''send_email'']) ''send_email'' (PDict [])
      (initial_state (sample_params ''genesis-billing'' [''send_email'']) 0) = (Inr (v, True), s'))"
proof -
  let ?rp = "sample_params ''genesis-billing'' [''send_email'']" and ?ops = "sample_runtime ''send_email''"
  have denied: "\<not> pol_ok (check_tool_policy ''genesis-billing'' ''send_email'')" by code_simp
  have "\<not> is_prohibited ''send_email'' (Some (rp_slug ?rp))" "op_registered ?ops ''send_email''"
    "''send_email'' \<in> set (rp_advertised ?rp)" "get_tool_risk_by_name ''send_email'' \<noteq> Deployment"
    "get_tool_risk_by_name ''send_email'' = Read_Only \<or>
     op_intent ?ops (ls_world (initial_state ?rp (0 :: nat))) (rp_session_id ?rp) ''send_email'' (PDict []) \<noteq> None"
    "''send_email'' = ''file_write'' \<longrightarrow> ls_files_written (initial_state ?rp (0 :: nat)) < MAX_FILES_WRITTEN"
    by code_simp+
  from dispatch_ignores_denial [OF this, of "''r1''"] show ?thesis using denied by blast
qed

end
