(* ===== verification/Bundles.thy ===== *)
theory Bundles
  imports Prelude
begin

text \<open>
  Finding what an agent is and what it can call: the loader of skill bundles (\<^verbatim>\<open>bundle_loader.py\<close>) and the
  registry of tools (\<^verbatim>\<open>tools/__init__.py\<close>).

  The bundle directory is an argument: \<open>None\<close> for a stem with no file, \<open>Some None\<close> for a file whose
  reading or parsing raises, \<open>Some (Some v)\<close> for one that parses. A registered function is a value of any type with
  equality as its identity.
\<close>

section \<open>Skill bundles\<close>

definition BUNDLE_SLUG_ALIASES :: "(str \<times> str) list" where [table_defs]:
  "BUNDLE_SLUG_ALIASES =
     [(''genesis_meta_agent'', ''genesis-meta''),
      (''genesis_meta_x402'', ''genesis-meta''),
      (''legal_agent'', ''genesis-legal''),
      (''genesis_legal_x402'', ''genesis-legal''),
      (''onboarding_agent'', ''genesis-onboarding''),
      (''genesis_hr_x402'', ''genesis-hr''),
      (''genesis-data-pipeline-agent'', ''genesis-data-pipeline''),
      (''genesis-data-pipeline'', ''genesis-data-pipeline''),
      (''genesis-ai-vision-api'', ''genesis-ai-vision''),
      (''genesis-workflow-automator'', ''genesis-workflow-automator''),
      (''genesis_domain'', ''genesis-domain''),
      (''genesis_maintenance'', ''genesis-maintenance''),
      (''genesis_pricing'', ''genesis-pricing'')]"

definition hyphenated :: "str \<Rightarrow> str" where
  "hyphenated = replace_char (CHR ''_'') ''-''"

definition resolve_bundle_slug :: "str \<Rightarrow> str" where
  "resolve_bundle_slug slug =
     (let key = strip slug in
      if key = [] then key
      else (case map_of BUNDLE_SLUG_ALIASES key of
              Some s \<Rightarrow> s
            | None \<Rightarrow> if endswith key ''_x402'' then hyphenated (take (length key - 5) key) else hyphenated key))"

fun add_candidates :: "str list \<Rightarrow> str list \<Rightarrow> str list" where
  "add_candidates acc [] = acc"
| "add_candidates acc (c # cs) = add_candidates (if c \<noteq> [] \<and> c \<notin> set acc then acc @ [c] else acc) cs"

definition candidates :: "str \<Rightarrow> str list" where
  "candidates slug =
     (let resolved = resolve_bundle_slug slug in
      add_candidates [] [resolved, slug, hyphenated slug, hyphenated resolved])"

type_synonym bundle_dir = "str \<Rightarrow> pyval option option"

fun first_bundle :: "bundle_dir \<Rightarrow> str list \<Rightarrow> pyval option" where
  "first_bundle dir [] = None"
| "first_bundle dir (c # cs) = (case dir c of Some r \<Rightarrow> r | None \<Rightarrow> first_bundle dir cs)"

definition load_bundle :: "bundle_dir \<Rightarrow> str \<Rightarrow> pyval option" where
  "load_bundle dir slug = first_bundle dir (candidates slug)"

lemma set_add_candidates: "set (add_candidates acc cs) = set acc \<union> (set cs - {[]})"
  by (induction acc cs rule: add_candidates.induct) auto

lemma distinct_add_candidates: "distinct acc \<Longrightarrow> distinct (add_candidates acc cs)"
  by (induction acc cs rule: add_candidates.induct) auto

lemma hyphenated_idem [simp]: "hyphenated (hyphenated s) = hyphenated s"
  by (induction s) (auto simp: hyphenated_def replace_char_def)

lemma hyphenated_no_underscore: "CHR ''_'' \<notin> set (hyphenated s)"
  by (auto simp: hyphenated_def replace_char_def)

lemma hyphenated_id: "CHR ''_'' \<notin> set s \<Longrightarrow> hyphenated s = s"
  by (induction s) (auto simp: hyphenated_def replace_char_def)

lemma resolved_no_underscore: "CHR ''_'' \<notin> set (resolve_bundle_slug slug)"
proof -
  have "list_all (\<lambda>(k, v). CHR ''_'' \<notin> set v) BUNDLE_SLUG_ALIASES" by code_simp
  then have "map_of BUNDLE_SLUG_ALIASES k = Some v \<Longrightarrow> CHR ''_'' \<notin> set v" for k v
    by (rule map_of_table_all [of _ _ _ "\<lambda>k v. CHR ''_'' \<notin> set v", rotated])
  then show ?thesis
    by (auto simp: resolve_bundle_slug_def Let_def hyphenated_no_underscore split: option.splits)
qed

lemma resolve_canonical: "hyphenated (resolve_bundle_slug slug) = resolve_bundle_slug slug"
  by (simp add: hyphenated_id resolved_no_underscore)

lemma add_candidates_head: "\<exists>rest. add_candidates (x # acc) cs = x # rest"
  by (induction cs arbitrary: acc) simp_all

text \<open>A canonical bundle file, one whose stem the slug resolves to, is the one that is loaded: a file under another spelling
  of the slug cannot shadow it.\<close>

lemma load_bundle_canonical:
  assumes "dir (resolve_bundle_slug slug) = Some r" and "resolve_bundle_slug slug \<noteq> []"
  shows "load_bundle dir slug = r"
proof -
  have "add_candidates [] (resolve_bundle_slug slug # cs) = add_candidates [resolve_bundle_slug slug] cs" for cs
    using assms(2) by simp
  then obtain rest where "candidates slug = resolve_bundle_slug slug # rest"
    unfolding candidates_def Let_def using add_candidates_head by metis
  then show ?thesis by (simp add: load_bundle_def assms(1))
qed

lemma first_bundle_Some: "first_bundle dir cs = Some v \<Longrightarrow> \<exists>c \<in> set cs. dir c = Some (Some v)"
  by (induction cs) (auto split: option.splits)

lemma load_bundle_Some:
  assumes "load_bundle dir slug = Some v"
  shows "\<exists>c \<in> {resolve_bundle_slug slug, slug, hyphenated slug}. dir c = Some (Some v)"
  using first_bundle_Some [OF assms [unfolded load_bundle_def]]
  unfolding candidates_def Let_def set_add_candidates resolve_canonical by auto

section \<open>The registry of tools\<close>

record 'f registry =
  rg_tools :: "(str \<times> 'f) list"
  rg_schemas :: "(str \<times> pyval) list"

definition register_tool :: "str \<Rightarrow> 'f \<Rightarrow> pyval \<Rightarrow> 'f registry \<Rightarrow> py_exc + 'f registry" where
  "register_tool name fn schema r =
     (case map_of (rg_tools r) name of
        Some g \<Rightarrow>
          if g = fn \<and> map_of (rg_schemas r) name = Some schema then Inr r
          else Inl (RuntimeError (''duplicate tool registration: '' @ name))
      | None \<Rightarrow> Inr (r\<lparr>rg_tools := dict_set (rg_tools r) name fn, rg_schemas := dict_set (rg_schemas r) name schema\<rparr>))"

definition get_tool :: "'f registry \<Rightarrow> str \<Rightarrow> 'f option" where
  "get_tool r name = map_of (rg_tools r) name"

definition tool_schemas_for :: "'f registry \<Rightarrow> str list \<Rightarrow> pyval list" where
  "tool_schemas_for r allowed = List.map_filter (map_of (rg_schemas r)) allowed"

text \<open>The modules' \<open>register()\<close> calls, in order; the first that raises ends the discovery.\<close>

fun register_default_tools :: "(str \<times> 'f \<times> pyval) list \<Rightarrow> 'f registry \<Rightarrow> py_exc + 'f registry" where
  "register_default_tools [] r = Inr r"
| "register_default_tools ((name, fn, schema) # ms) r =
     bindE (register_tool name fn schema r) (register_default_tools ms)"

definition registry_ok :: "'f registry \<Rightarrow> bool" where
  "registry_ok r \<longleftrightarrow> map fst (rg_tools r) = map fst (rg_schemas r)"

lemma map_fst_dict_set:
  "map fst (dict_set d k v) = (if k \<in> fst ` set d then map fst d else map fst d @ [k])"
  by (induction d k v rule: dict_set.induct) auto

lemma register_tool_ok:
  assumes "registry_ok r" and "register_tool name fn schema r = Inr r'"
  shows "registry_ok r'"
proof -
  have "fst ` set (rg_tools r) = fst ` set (rg_schemas r)"
    using assms(1) by (metis registry_ok_def list.set_map)
  then show ?thesis
    using assms by (auto simp: register_tool_def registry_ok_def map_fst_dict_set split: option.splits if_splits)
qed

lemma register_tool_keeps:
  "register_tool name fn schema r = Inr r' \<Longrightarrow> get_tool r n = Some g \<Longrightarrow> get_tool r' n = Some g"
  by (auto simp: register_tool_def get_tool_def split: option.splits if_splits)

lemma register_tool_binds:
  "register_tool name fn schema r = Inr r' \<Longrightarrow> get_tool r' name = Some fn"
  by (auto simp: register_tool_def get_tool_def split: option.splits if_splits)

text \<open>No module can shadow a tool that is registered.\<close>

lemma register_default_tools_keeps:
  "register_default_tools ms r = Inr r' \<Longrightarrow> get_tool r n = Some g \<Longrightarrow> get_tool r' n = Some g"
  by (induction ms r rule: register_default_tools.induct) (auto simp: bindE_Inr dest: register_tool_keeps)

lemma register_default_tools_ok:
  "register_default_tools ms r = Inr r' \<Longrightarrow> registry_ok r \<Longrightarrow> registry_ok r'"
  by (induction ms r rule: register_default_tools.induct) (auto simp: bindE_Inr dest: register_tool_ok)

end
