(* ===== verification/Anchors.thy ===== *)
theory Anchors
  imports Audit_Log
begin

text \<open>
  The daily Merkle anchors of the audit log, \<^verbatim>\<open>anchor_logger.py\<close>.

  \<open>sha256\<close> is the hex digest of a text; \<open>day_start\<close> is \<open>datetime.strptime(date, "%Y-%m-%d")\<close> in UTC seconds, \<open>None\<close>
  when it raises \<open>ValueError\<close>; \<open>loads\<close> is the JSON parser. The logger reads up to three stores: the audit tables in Postgres
  (\<open>None\<close> while they cannot be read), the audit database file at each path, and the anchors, as rows of a table or as the lines
  of the JSONL file. Log lines and the command line are left out.
\<close>

section \<open>The Merkle tree\<close>

text \<open>One level: adjacent hashes are paired, the odd one out with itself.\<close>

fun next_level :: "(str \<Rightarrow> str) \<Rightarrow> str list \<Rightarrow> str list" where
  "next_level sha256 [] = []"
| "next_level sha256 [left] = [sha256 (left @ left)]"
| "next_level sha256 (left # right # rest) = sha256 (left @ right) # next_level sha256 rest"

lemma length_next_level [termination_simp]: "length (next_level sha256 xs) = (length xs + 1) div 2"
  by (induction xs rule: next_level.induct) auto

text \<open>All levels, leaves first.\<close>

function merkle_levels :: "(str \<Rightarrow> str) \<Rightarrow> str list \<Rightarrow> str list list" where
  "merkle_levels sha256 current =
     (if length current \<le> 1 then [current] else current # merkle_levels sha256 (next_level sha256 current))"
  by pat_completeness auto
termination
  by (relation "measure (\<lambda>(sha256, current). length current)") (auto simp: length_next_level)

declare merkle_levels.simps [simp del]

record merkle_tree =
  mt_root :: str
  mt_leaves :: "str list"
  mt_tree :: "str list list"

definition build_merkle_tree :: "(str \<Rightarrow> str) \<Rightarrow> str list \<Rightarrow> merkle_tree" where
  "build_merkle_tree sha256 leaf_hashes =
     (if leaf_hashes = [] then \<lparr>mt_root = sha256 ''empty'', mt_leaves = [], mt_tree = []\<rparr>
      else let levels = merkle_levels sha256 leaf_hashes in
           \<lparr>mt_root = hd (last levels), mt_leaves = leaf_hashes, mt_tree = levels\<rparr>)"

section \<open>Stores\<close>

datatype audit_file = Audit_Missing | Audit_Unreadable | Audit_File audit_db

record anchor_row =
  an_date :: str
  an_session_count :: int
  an_action_count :: int
  an_leaf_hashes :: "str list"
  an_merkle_root :: str
  an_computed_at :: str

text \<open>\<open>an_lines\<close> is \<open>None\<close> while the JSONL file does not exist.\<close>

record anchor_world =
  aw_pg_audit :: "audit_db option"
  aw_files :: "str \<Rightarrow> audit_file"
  aw_anchors :: "anchor_row list option"
  aw_lines :: "str list option"

record anchor_logger =
  al_pg :: bool
  al_db_path :: "str option"
  al_anchor_store :: "str option"

datatype anchor_exc = AnchorError | Anchor_Python py_exc | Anchor_Store store_error

definition anchor_init :: "str option \<Rightarrow> str option \<Rightarrow> store_error + bool \<Rightarrow> env \<Rightarrow> anchor_exc + anchor_logger" where
  "anchor_init db_path anchor_store_path selected e =
     bindE (if db_path = None \<and> anchor_store_path = None then raisingE Anchor_Store selected else Inr False) (\<lambda>pg.
     let configured_db = env_get e ''GENESIS_AUDIT_DB_PATH'';
         configured_anchor = env_get e ''GENESIS_ANCHOR_STORE_PATH'' in
     guardE (pg \<or> db_path \<noteq> None \<or> configured_db \<noteq> [])
       (Anchor_Python (RuntimeError ''GENESIS_AUDIT_DB_PATH or db_path is required'')) (
     guardE (pg \<or> anchor_store_path \<noteq> None \<or> configured_anchor \<noteq> [])
       (Anchor_Python (RuntimeError ''GENESIS_ANCHOR_STORE_PATH or anchor_store_path is required'')) (
     Inr \<lparr>al_pg = pg,
          al_db_path = (case db_path of Some p \<Rightarrow> Some p | None \<Rightarrow> if configured_db = [] then None else Some configured_db),
          al_anchor_store = (case anchor_store_path of Some p \<Rightarrow> Some p
             | None \<Rightarrow> if configured_anchor = [] then None else Some configured_anchor)\<rparr>)))"

section \<open>The rows of a day\<close>

text \<open>\<open>timestamp >= start AND timestamp < start + 86400\<close>, on timestamps carried by their text.\<close>

definition on_day :: "int \<Rightarrow> audit_row \<Rightarrow> bool" where
  "on_day start r =
     (case decimal_of (ar_timestamp r) of
        None \<Rightarrow> False
      | Some (m, k) \<Rightarrow> start * 10 ^ k \<le> m \<and> m < (start + 86400) * 10 ^ k)"

definition date_rows :: "int \<Rightarrow> audit_db \<Rightarrow> audit_row list" where
  "date_rows start db = sort_key ar_id (filter (on_day start) (adb_rows db))"

definition parse_date :: "(str \<Rightarrow> int option) \<Rightarrow> str \<Rightarrow> anchor_exc + int" where
  "parse_date day_start date = optE (Anchor_Python ValueError) (day_start date)"

text \<open>\<open>_query_date_rows_postgres\<close>; a store that cannot be read raises.\<close>

definition query_date_rows_postgres :: "(str \<Rightarrow> int option) \<Rightarrow> str \<Rightarrow> anchor_world \<Rightarrow> anchor_exc + audit_row list" where
  "query_date_rows_postgres day_start date w =
     bindE (parse_date day_start date) (\<lambda>start.
     bindE (optE (Anchor_Store (StoreUnavailable ''audit'')) (aw_pg_audit w)) (\<lambda>db.
     Inr (date_rows start db)))"

definition open_db :: "anchor_logger \<Rightarrow> anchor_world \<Rightarrow> audit_db option" where
  "open_db al w =
     (case al_db_path al of
        None \<Rightarrow> None
      | Some p \<Rightarrow> (case aw_files w p of Audit_File db \<Rightarrow> Some db | _ \<Rightarrow> None))"

definition query_date_rows :: "(str \<Rightarrow> int option) \<Rightarrow> audit_db \<Rightarrow> str \<Rightarrow> anchor_exc + audit_row list" where
  "query_date_rows day_start db date = bindE (parse_date day_start date) (\<lambda>start. Inr (date_rows start db))"

section \<open>Computing and recording an anchor\<close>

definition anchor_of_rows :: "(str \<Rightarrow> str) \<Rightarrow> str \<Rightarrow> str \<Rightarrow> audit_row list \<Rightarrow> anchor_row" where
  "anchor_of_rows sha256 date computed_at rows =
     (let leaf_hashes = map ar_row_hash rows in
      \<lparr>an_date = date, an_session_count = int (length (remdups (map ar_session_id rows))),
       an_action_count = int (length rows), an_leaf_hashes = leaf_hashes,
       an_merkle_root = mt_root (build_merkle_tree sha256 leaf_hashes), an_computed_at = computed_at\<rparr>)"

text \<open>Every failure to read becomes \<open>AnchorError\<close>, except the \<open>ValueError\<close> of a bad date.\<close>

definition compute_daily_anchor ::
  "(str \<Rightarrow> str) \<Rightarrow> (str \<Rightarrow> int option) \<Rightarrow> anchor_logger \<Rightarrow> str option \<Rightarrow> str \<Rightarrow> str \<Rightarrow> anchor_world \<Rightarrow> anchor_exc + anchor_row" where
  "compute_daily_anchor sha256 day_start al date_arg today computed_at w =
     (let date = (case date_arg of Some d \<Rightarrow> d | None \<Rightarrow> today) in
      bindE (parse_date day_start date) (\<lambda>_.
      if al_pg al then
        (case query_date_rows_postgres day_start date w of
           Inl (Anchor_Python ValueError) \<Rightarrow> Inl (Anchor_Python ValueError)
         | Inl _ \<Rightarrow> Inl AnchorError
         | Inr rows \<Rightarrow> Inr (anchor_of_rows sha256 date computed_at rows))
      else
        bindE (optE AnchorError (open_db al w)) (\<lambda>db.
        bindE (query_date_rows day_start db date) (\<lambda>rows.
        Inr (anchor_of_rows sha256 date computed_at rows)))))"

definition anchor_dict :: "anchor_row \<Rightarrow> dict" where
  "anchor_dict a =
     [(''date'', PStr (an_date a)), (''session_count'', PInt (an_session_count a)), (''action_count'', PInt (an_action_count a)),
      (''leaf_hashes'', PList (map PStr (an_leaf_hashes a))), (''merkle_root'', PStr (an_merkle_root a)),
      (''computed_at'', PStr (an_computed_at a))]"

definition record_anchor :: "anchor_logger \<Rightarrow> anchor_row \<Rightarrow> anchor_world \<Rightarrow> anchor_exc + anchor_world" where
  "record_anchor al a w =
     (if al_pg al then
        bindE (optE (Anchor_Store (StoreUnavailable ''anchors'')) (aw_anchors w)) (\<lambda>rows.
        Inr (w\<lparr>aw_anchors := Some (rows @ [a])\<rparr>))
      else Inr (w\<lparr>aw_lines := Some ((case aw_lines w of None \<Rightarrow> [] | Some ls \<Rightarrow> ls) @ [plain_json (PDict (anchor_dict a))])\<rparr>))"

section \<open>Reading anchors back\<close>

text \<open>The loop over the lines: blank and malformed ones are skipped, and \<open>record.get\<close> raises on a line that is
  not an object.\<close>

fun find_anchor_line :: "(str \<Rightarrow> pyval option) \<Rightarrow> str \<Rightarrow> str list \<Rightarrow> anchor_exc + dict option" where
  "find_anchor_line loads date [] = Inr None"
| "find_anchor_line loads date (line # ls) =
     (let l = strip line in
      if l = [] then find_anchor_line loads date ls
      else case loads l of
             None \<Rightarrow> find_anchor_line loads date ls
           | Some v \<Rightarrow>
               bindE (as_dict (Anchor_Python AttributeError) v) (\<lambda>rec.
               if dget rec ''date'' = PStr date then Inr (Some rec) else find_anchor_line loads date ls))"

definition get_anchor :: "(str \<Rightarrow> pyval option) \<Rightarrow> anchor_logger \<Rightarrow> str \<Rightarrow> anchor_world \<Rightarrow> anchor_exc + dict option" where
  "get_anchor loads al date w =
     (if al_pg al then
        Inr (case aw_anchors w of
               None \<Rightarrow> None
             | Some rows \<Rightarrow> map_option anchor_dict (find (\<lambda>a. an_date a = date) rows))
      else (case aw_lines w of None \<Rightarrow> Inr None | Some ls \<Rightarrow> find_anchor_line loads date ls))"

fun parsed_lines :: "(str \<Rightarrow> pyval option) \<Rightarrow> str list \<Rightarrow> pyval list" where
  "parsed_lines loads [] = []"
| "parsed_lines loads (line # ls) =
     (let l = strip line in
      if l = [] then parsed_lines loads ls
      else case loads l of None \<Rightarrow> parsed_lines loads ls | Some v \<Rightarrow> v # parsed_lines loads ls)"

text \<open>\<open>records[-limit:]\<close>, reversed. A limit of zero slices from the start, and a negative one drops that many.\<close>

definition tail_slice :: "int \<Rightarrow> 'a list \<Rightarrow> 'a list" where
  "tail_slice limit xs =
     (if limit > 0 then drop (length xs - nat limit) xs else drop (nat (- limit)) xs)"

definition list_anchors :: "(str \<Rightarrow> pyval option) \<Rightarrow> anchor_logger \<Rightarrow> int \<Rightarrow> anchor_world \<Rightarrow> pyval list" where
  "list_anchors loads al limit w =
     (if al_pg al then
        (case aw_anchors w of
           None \<Rightarrow> []
         | Some rows \<Rightarrow> if limit < 0 then [] else take (nat limit) (rev (map (\<lambda>a. PDict (anchor_dict a)) rows)))
      else (case aw_lines w of None \<Rightarrow> [] | Some ls \<Rightarrow> rev (tail_slice limit (parsed_lines loads ls))))"

section \<open>Verifying an anchor\<close>

definition sessions_on :: "(str \<Rightarrow> int option) \<Rightarrow> anchor_logger \<Rightarrow> str \<Rightarrow> anchor_world \<Rightarrow> anchor_exc + str list" where
  "sessions_on day_start al date w =
     bindE (if al_pg al then query_date_rows_postgres day_start date w
            else (case open_db al w of None \<Rightarrow> Inr [] | Some db \<Rightarrow> query_date_rows day_start db date)) (\<lambda>rows.
     Inr (rev (remdups (rev (map ar_session_id rows)))))"

text \<open>\<open>AuditLog(self._db_path)\<close> and \<open>connect\<close>: a missing file is created empty.\<close>

definition connect_log :: "store_error + bool \<Rightarrow> env \<Rightarrow> anchor_logger \<Rightarrow> anchor_world \<Rightarrow> audit_db option" where
  "connect_log selected e al w =
     (case audit_init (al_db_path al) selected e of
        Inl _ \<Rightarrow> None
      | Inr Audit_Postgres \<Rightarrow> aw_pg_audit w
      | Inr (Audit_Sqlite p) \<Rightarrow>
          (case aw_files w p of Audit_Missing \<Rightarrow> Some empty_audit | Audit_Unreadable \<Rightarrow> None | Audit_File db \<Rightarrow> Some db))"

definition broken_sessions ::
  "(str \<Rightarrow> str) \<Rightarrow> (str \<Rightarrow> int option) \<Rightarrow> store_error + bool \<Rightarrow> env \<Rightarrow> anchor_logger \<Rightarrow> str \<Rightarrow> anchor_world \<Rightarrow> anchor_exc + str list" where
  "broken_sessions sha256 day_start selected e al date w =
     bindE (sessions_on day_start al date w) (\<lambda>sessions.
     Inr (case connect_log selected e al w of
            None \<Rightarrow> sessions
          | Some log \<Rightarrow> filter (\<lambda>s. \<not> verify_chain sha256 s log) sessions))"

record anchor_verdict =
  av_date :: str
  av_anchored :: bool
  av_stored_root :: pyval
  av_recomputed_root :: str
  av_rows_intact :: bool
  av_broken_sessions :: "str list"
  av_match :: bool
  av_tampered :: bool

definition verify_anchor ::
  "(str \<Rightarrow> str) \<Rightarrow> (str \<Rightarrow> pyval option) \<Rightarrow> (str \<Rightarrow> int option) \<Rightarrow> store_error + bool \<Rightarrow> env \<Rightarrow> anchor_logger \<Rightarrow> str \<Rightarrow> str
     \<Rightarrow> anchor_world \<Rightarrow> anchor_exc + anchor_verdict" where
  "verify_anchor sha256 loads day_start selected e al date now w =
     bindE (get_anchor loads al date w) (\<lambda>stored.
     bindE (case stored of
              None \<Rightarrow> Inr (PStr [])
            | Some rec \<Rightarrow> if rec = [] then Inr (PStr []) else raisingE Anchor_Python (getitem rec ''merkle_root'')) (\<lambda>stored_root.
     bindE (compute_daily_anchor sha256 day_start al (Some date) date now w) (\<lambda>live.
     let anchored = (case stored of None \<Rightarrow> False | Some rec \<Rightarrow> rec \<noteq> []) in
     bindE (broken_sessions sha256 day_start selected e al date w) (\<lambda>broken.
     let match = (anchored \<and> stored_root = PStr (an_merkle_root live) \<and> broken = []) in
     Inr \<lparr>av_date = date, av_anchored = anchored, av_stored_root = stored_root, av_recomputed_root = an_merkle_root live,
          av_rows_intact = (broken = []), av_broken_sessions = broken, av_match = match,
          av_tampered = (anchored \<and> \<not> match)\<rparr>))))"

section \<open>What a root says about its leaves\<close>

text \<open>The texts a level hashes, and those of the whole tree.\<close>

fun level_inputs :: "str list \<Rightarrow> str list" where
  "level_inputs [] = []"
| "level_inputs [left] = [left @ left]"
| "level_inputs (left # right # rest) = (left @ right) # level_inputs rest"

definition tree_inputs :: "(str \<Rightarrow> str) \<Rightarrow> str list \<Rightarrow> str set" where
  "tree_inputs sha256 xs = (\<Union>l \<in> set (merkle_levels sha256 xs). set (level_inputs l))"

definition merkle_root :: "(str \<Rightarrow> str) \<Rightarrow> str list \<Rightarrow> str" where
  "merkle_root sha256 xs = mt_root (build_merkle_tree sha256 xs)"

lemma next_level_inputs: "next_level sha256 xs = map sha256 (level_inputs xs)"
  by (induction xs rule: level_inputs.induct) auto

lemma merkle_levels_Suc:
  "2 \<le> length xs \<Longrightarrow> merkle_levels sha256 xs = xs # merkle_levels sha256 (next_level sha256 xs)"
  by (subst merkle_levels.simps) simp

lemma merkle_levels_single: "merkle_levels sha256 [x] = [[x]]"
  by (subst merkle_levels.simps) simp

lemma merkle_levels_not_Nil: "merkle_levels sha256 xs \<noteq> []"
  by (subst merkle_levels.simps) simp

lemma merkle_root_single: "merkle_root sha256 [x] = x"
  by (simp add: merkle_root_def build_merkle_tree_def merkle_levels_single)

lemma merkle_root_step:
  assumes "2 \<le> length xs"
  shows "merkle_root sha256 xs = merkle_root sha256 (next_level sha256 xs)"
proof -
  have "next_level sha256 xs \<noteq> []" "xs \<noteq> []" using assms length_next_level [of sha256 xs] by auto
  then show ?thesis
    using merkle_levels_Suc [OF assms, of sha256]
    by (simp add: merkle_root_def build_merkle_tree_def Let_def merkle_levels_not_Nil)
qed

lemma tree_inputs_step:
  "2 \<le> length xs \<Longrightarrow> tree_inputs sha256 xs = set (level_inputs xs) \<union> tree_inputs sha256 (next_level sha256 xs)"
  by (simp add: tree_inputs_def merkle_levels_Suc)

text \<open>The depth of the tree: each level is half as long as the one below it.\<close>

lemma merkle_depth: "xs \<noteq> [] \<Longrightarrow> length xs \<le> 2 ^ (length (merkle_levels sha256 xs) - 1)"
proof (induction sha256 xs rule: merkle_levels.induct)
  case (1 sha256 xs)
  show ?case
  proof (cases "length xs \<le> 1")
    case True
    moreover have "(1::nat) \<le> 2 ^ (length (merkle_levels sha256 xs) - 1)" by simp
    ultimately show ?thesis by linarith
  next
    case False
    then have two: "2 \<le> length xs" by simp
    define levels where "levels = merkle_levels sha256 (next_level sha256 xs)"
    have "next_level sha256 xs \<noteq> []" using two length_next_level [of sha256 xs] by auto
    then have "(length xs + 1) div 2 \<le> 2 ^ (length levels - 1)"
      using 1 False by (simp add: length_next_level levels_def)
    then have "length xs \<le> 2 * 2 ^ (length levels - 1)" by linarith
    moreover have "levels \<noteq> []" by (simp add: levels_def merkle_levels_not_Nil)
    ultimately have "length xs \<le> 2 ^ length levels" by (cases levels) simp_all
    then show ?thesis using two by (simp add: merkle_levels_Suc levels_def)
  qed
qed

lemma level_inputs_inj:
  assumes "\<forall>x \<in> set xs. length x = n" and "\<forall>y \<in> set ys. length y = n" and "length xs = length ys"
    and "level_inputs xs = level_inputs ys"
  shows "xs = ys"
  using assms
proof (induction xs arbitrary: ys rule: level_inputs.induct)
  case (2 x)
  then obtain y where "ys = [y]" by (cases ys) auto
  then show ?case using 2 by simp
next
  case (3 left right rest)
  obtain l r ys' where ys: "ys = l # r # ys'" using "3.prems"(3) by (cases ys; cases "tl ys") auto
  then show ?case using "3.IH" [of ys'] "3.prems" by simp
qed simp

lemma merkle_root_inj:
  assumes "\<And>x. length (sha256 x) = n"
    and "\<forall>x \<in> set xs. length x = n" and "\<forall>y \<in> set ys. length y = n"
    and "length xs = length ys" and "xs \<noteq> []"
    and "inj_on sha256 (tree_inputs sha256 xs \<union> tree_inputs sha256 ys)"
    and "merkle_root sha256 xs = merkle_root sha256 ys"
  shows "xs = ys"
  using assms
proof (induction sha256 xs arbitrary: ys rule: merkle_levels.induct)
  case (1 sha256 xs)
  show ?case
  proof (cases "length xs \<le> 1")
    case True
    then obtain x y where "xs = [x]" "ys = [y]"
      using "1.prems"(4,5) by (cases xs; cases ys) auto
    then show ?thesis using "1.prems"(7) by (simp add: merkle_root_single)
  next
    case False
    then have two: "2 \<le> length xs" "2 \<le> length ys" using "1.prems"(4) by simp_all
    have ne: "next_level sha256 xs \<noteq> []" using two length_next_level [of sha256 xs] by auto
    have inj: "inj_on sha256 (tree_inputs sha256 (next_level sha256 xs) \<union> tree_inputs sha256 (next_level sha256 ys))"
      using "1.prems"(6) by (rule inj_on_subset) (auto simp: tree_inputs_step two)
    have hashes: "\<forall>x \<in> set (next_level sha256 zs). length x = n" for zs
      using "1.prems"(1) by (auto simp: next_level_inputs)
    have "next_level sha256 xs = next_level sha256 ys"
      by (rule "1.IH" [OF False "1.prems"(1) hashes hashes _ ne inj])
         (use "1.prems"(4,7) two in \<open>simp_all add: length_next_level merkle_root_step\<close>)
    moreover have "inj_on sha256 (set (level_inputs xs) \<union> set (level_inputs ys))"
      using "1.prems"(6) by (rule inj_on_subset) (auto simp: tree_inputs_step two)
    ultimately have "level_inputs xs = level_inputs ys"
      unfolding next_level_inputs using map_inj_on by blast
    then show ?thesis by (rule level_inputs_inj [OF "1.prems"(2-4)])
  qed
qed

text \<open>The number of leaves has to be compared too: a list of odd length and the list with its last hash repeated have one root.\<close>

lemma next_level_odd: "odd (length xs) \<Longrightarrow> next_level sha256 (xs @ [last xs]) = next_level sha256 xs"
proof (induction sha256 xs rule: next_level.induct)
  case (3 sha256 left right rest)
  then have "rest \<noteq> []" by (cases rest) simp_all
  then show ?case using 3 by simp
qed simp_all

lemma merkle_root_repeats_last:
  assumes "odd (length xs)" and "2 \<le> length xs"
  shows "merkle_root sha256 (xs @ [last xs]) = merkle_root sha256 xs"
  using assms by (simp add: merkle_root_step next_level_odd)

section \<open>A matching anchor vouches for its day\<close>

text \<open>The rows the logger reads for a date.\<close>

definition logger_rows :: "(str \<Rightarrow> int option) \<Rightarrow> anchor_logger \<Rightarrow> str \<Rightarrow> anchor_world \<Rightarrow> anchor_exc + audit_row list" where
  "logger_rows day_start al date w =
     (if al_pg al then query_date_rows_postgres day_start date w
      else bindE (optE AnchorError (open_db al w)) (\<lambda>db. query_date_rows day_start db date))"

lemma compute_daily_anchor_rows:
  assumes "compute_daily_anchor sha256 day_start al (Some date) today now w = Inr a"
    and "logger_rows day_start al date w = Inr rows"
  shows "a = anchor_of_rows sha256 date now rows"
  using assms
  by (auto simp: compute_daily_anchor_def logger_rows_def Let_def call_Inr split: sum.splits anchor_exc.splits py_exc.splits if_splits)

lemma sessions_on_rows:
  assumes "logger_rows day_start al date w = Inr rows" and "sessions_on day_start al date w = Inr ss"
  shows "set ss = ar_session_id ` set rows"
  using assms by (auto simp: logger_rows_def sessions_on_def call_Inr split: if_splits option.splits)

text \<open>The store the rows come from. Its chains are the ones that are verified when the logger has a file, or reads Postgres and no path
  is configured.\<close>

definition anchored_store :: "anchor_logger \<Rightarrow> anchor_world \<Rightarrow> audit_db option" where
  "anchored_store al w = (if al_pg al then aw_pg_audit w else open_db al w)"

definition verifies_own_store :: "store_error + bool \<Rightarrow> anchor_logger \<Rightarrow> bool" where
  "verifies_own_store selected al \<longleftrightarrow> al_pg al \<longrightarrow> al_db_path al = None \<and> selected = Inr True"

lemma logger_rows_store:
  "anchored_store al w = Some db \<Longrightarrow> day_start date = Some start \<Longrightarrow> logger_rows day_start al date w = Inr (date_rows start db)"
  by (simp add: anchored_store_def logger_rows_def query_date_rows_postgres_def query_date_rows_def parse_date_def optE_def bindE_def
      split: if_splits)

lemma connect_own_store:
  "anchored_store al w = Some db \<Longrightarrow> verifies_own_store selected al \<Longrightarrow> connect_log selected e al w = Some db"
  by (auto simp: anchored_store_def verifies_own_store_def connect_log_def open_db_def audit_init_def raisingE_def bindE_def Let_def
      split: if_splits option.splits audit_file.splits)

text \<open>The verdict, exactly.\<close>

lemma verify_anchor_verdict:
  assumes "verify_anchor sha256 loads day_start selected e al date now w = Inr v" and "get_anchor loads al date w = Inr (Some (anchor_dict a))"
    and "anchored_store al w = Some db" and "day_start date = Some start" and "verifies_own_store selected al"
  shows "av_match v \<longleftrightarrow> an_merkle_root a = merkle_root sha256 (map ar_row_hash (date_rows start db)) \<and>
     (\<forall>r \<in> set (date_rows start db). verify_chain sha256 (ar_session_id r) db)"
proof -
  note rows = logger_rows_store [where day_start = day_start and date = date, OF assms(3,4)]
  obtain live broken where live: "compute_daily_anchor sha256 day_start al (Some date) date now w = Inr live"
    and broken: "broken_sessions sha256 day_start selected e al date w = Inr broken"
    and v: "av_match v \<longleftrightarrow> PStr (an_merkle_root a) = PStr (an_merkle_root live) \<and> broken = []"
    using assms(1) by (auto simp: verify_anchor_def assms(2) call_Inr Let_def anchor_dict_def getitem_def)
  obtain ss where "sessions_on day_start al date w = Inr ss" and "broken = filter (\<lambda>s. \<not> verify_chain sha256 s db) ss"
    using broken by (auto simp: broken_sessions_def call_Inr connect_own_store [OF assms(3,5)])
  then have "broken = [] \<longleftrightarrow> (\<forall>r \<in> set (date_rows start db). verify_chain sha256 (ar_session_id r) db)"
    using sessions_on_rows [OF rows] by (auto simp: filter_empty_conv)
  moreover have "an_merkle_root live = merkle_root sha256 (map ar_row_hash (date_rows start db))"
    using compute_daily_anchor_rows [OF live rows] by (simp add: anchor_of_rows_def Let_def merkle_root_def)
  ultimately show ?thesis using v by simp
qed

text \<open>In a chain that verifies every row has the hash of its contents.\<close>

lemma linked_row_hash: "chain.linked sha256 p rs \<Longrightarrow> r \<in> set rs \<Longrightarrow> ar_row_hash r = sha256 (row_payload r)"
  by (induction rs arbitrary: p) auto

lemma session_row: "r \<in> set (adb_rows db) \<Longrightarrow> r \<in> set (session_rows (ar_session_id r) db)"
  by (simp add: session_rows_def)

lemma date_rows_rows: "r \<in> set (date_rows start db) \<Longrightarrow> r \<in> set (adb_rows db)"
  by (simp add: date_rows_def)

lemma verified_row_hash:
  "verify_chain sha256 (ar_session_id r) db \<Longrightarrow> r \<in> set (date_rows start db) \<Longrightarrow> ar_row_hash r = sha256 (row_payload r)"
  using linked_row_hash session_row date_rows_rows by (metis verify_chain_iff)

lemma reachable_row_hash:
  "audit_reachable sha256 pq ue db \<Longrightarrow> r \<in> set (date_rows start db) \<Longrightarrow> ar_row_hash r = sha256 (row_payload r)"
  using linked_row_hash session_row date_rows_rows audit_reachable_inv by (metis audit_inv_def)

text \<open>A payload of texts without colons, the session among them, is the payload of no other contents.\<close>

definition row_contents :: "audit_row \<Rightarrow> int \<times> str \<times> str list" where
  "row_contents r = (ar_id r, ar_session_id r, row_fields r)"

lemma row_payload_contents:
  assumes "row_payload r = row_payload r'" and "plain_row r" and "colon_free (ar_session_id r)"
  shows "row_contents r = row_contents r'"
proof -
  have parts: "row_payload q = join '':'' (show_int (ar_id q) # ar_session_id q # row_fields q)" for q
    by (simp add: row_payload_fields) (simp add: row_fields_def split: option.split)
  have "show_int (ar_id r) # ar_session_id r # row_fields r = show_int (ar_id r') # ar_session_id r' # row_fields r'"
    using assms by (intro join_fields_inj) (auto simp: parts plain_row_def list_all_iff show_int_colon_free)
  then show ?thesis by (auto simp: row_contents_def dest: show_int_inj [THEN iffD1])
qed

text \<open>C36. The verdict on an anchored day, where the chains verified are those of the store that was anchored. It is a match exactly when
  the day's row hashes now have the Merkle root they had and every session with a row on the day verifies. And a match with as many rows as
  then means that nothing was rewritten: each row of the day has the id, the session, the action, tool, cost, timestamp, predecessor and
  digests it had when the anchor was computed over the log the program had written, unless two of the texts hashed for the rows and the two
  trees share a digest. Digests have 64 characters, and no digest and no session, action,
  tool or timestamp of the anchored rows has a colon.\<close>

theorem anchor_match_vouches:
  assumes reach: "audit_reachable sha256 pq ue db0" and store0: "anchored_store al w0 = Some db0" and store1: "anchored_store al w1 = Some db1"
    and start: "day_start date = Some start" and own: "verifies_own_store selected al"
    and anchor: "compute_daily_anchor sha256 day_start al (Some date) today now0 w0 = Inr a"
    and stored: "get_anchor loads al date w1 = Inr (Some (anchor_dict a))"
    and verdict: "verify_anchor sha256 loads day_start selected e al date now1 w1 = Inr v"
    and digests: "\<forall>x. length (sha256 x) = 64 \<and> colon_free (sha256 x)"
    and texts: "\<forall>r \<in> set (date_rows start db0). texts_colon_free r \<and> colon_free (ar_session_id r)"
    and inj: "inj_on sha256 (tree_inputs sha256 (map ar_row_hash (date_rows start db1)) \<union> tree_inputs sha256 (map ar_row_hash (date_rows start db0))
      \<union> row_payload ` (set (date_rows start db1) \<union> set (date_rows start db0)))"
  shows "(av_match v \<longleftrightarrow>
       merkle_root sha256 (map ar_row_hash (date_rows start db1)) = merkle_root sha256 (map ar_row_hash (date_rows start db0)) \<and>
       (\<forall>r \<in> set (date_rows start db1). verify_chain sha256 (ar_session_id r) db1)) \<and>
     (av_match v \<and> length (date_rows start db1) = length (date_rows start db0) \<longrightarrow>
       map row_contents (date_rows start db1) = map row_contents (date_rows start db0))"
proof (intro conjI impI)
  let ?rows0 = "date_rows start db0" and ?rows1 = "date_rows start db1"
  have root: "an_merkle_root a = merkle_root sha256 (map ar_row_hash ?rows0)"
    using compute_daily_anchor_rows [OF anchor logger_rows_store [where day_start = day_start and date = date, OF store0 start]] by (simp add: anchor_of_rows_def Let_def merkle_root_def)
  show iff: "av_match v \<longleftrightarrow> merkle_root sha256 (map ar_row_hash ?rows1) = merkle_root sha256 (map ar_row_hash ?rows0) \<and>
      (\<forall>r \<in> set ?rows1. verify_chain sha256 (ar_session_id r) db1)"
    using verify_anchor_verdict [OF verdict stored store1 start own] root by auto
  assume match: "av_match v \<and> length ?rows1 = length ?rows0"
  have hash1: "ar_row_hash r = sha256 (row_payload r)" if "r \<in> set ?rows1" for r
    using iff match verified_row_hash that by blast
  note hash0 = reachable_row_hash [OF reach]
  have "map ar_row_hash ?rows1 = map ar_row_hash ?rows0"
  proof (cases "?rows1 = []")
    case False
    then show ?thesis
      using iff match hash0 hash1 digests inj_on_subset [OF inj] by (intro merkle_root_inj [of sha256 64]) auto
  qed (use match in simp)
  moreover have "row_contents r1 = row_contents r0"
    if rows: "r1 \<in> set ?rows1" "r0 \<in> set ?rows0" and same: "ar_row_hash r1 = ar_row_hash r0" for r1 r0
  proof -
    have "row_payload r0 = row_payload r1"
      using inj_onD [OF inj, of "row_payload r0" "row_payload r1"] hash0 [OF rows(2)] hash1 [OF rows(1)] same rows by simp
    moreover have "plain_row r0"
      using digests texts rows(2) by (intro audit_reachable_plain [OF reach]) (auto dest: date_rows_rows)
    ultimately show ?thesis using texts rows(2) row_payload_contents [of r0 r1] by simp
  qed
  ultimately show "map row_contents ?rows1 = map row_contents ?rows0"
    using match by (auto simp: list_eq_iff_nth_eq)
qed

text \<open>The anchor store is append-only and the first anchor of a date is the one that counts: once \<open>get_anchor\<close> finds an
  anchor, recording any others, for that date too, does not change what it finds.\<close>

theorem first_anchor_stands:
  assumes "get_anchor loads al date w = Inr (Some found)" and "record_anchor al a w = Inr w'"
  shows "get_anchor loads al date w' = Inr (Some found)"
proof -
  have keep: "find_anchor_line loads date (ls @ ls') = Inr (Some found)" if "find_anchor_line loads date ls = Inr (Some found)" for ls ls'
    using that by (induction ls) (auto simp: Let_def call_Inr split: if_splits option.splits)
  have "find P xs = Some y \<Longrightarrow> find P (xs @ ys) = Some y" for P :: "anchor_row \<Rightarrow> bool" and xs ys y
    by (induction xs) auto
  then show ?thesis
    using assms keep by (auto simp: get_anchor_def record_anchor_def call_Inr split: if_splits option.splits)
qed

section \<open>A day of two rows\<close>

definition shift_digest :: "str \<Rightarrow> str" where
  "shift_digest s = map (\<lambda>c. if c = CHR '':'' then CHR ''.'' else c) (take 64 (CHR ''x'' # s @ replicate 64 (CHR ''0'')))"

definition sample_day :: audit_db where
  "sample_day =
     (let add = (\<lambda>tool db. snd (audit_log shift_digest (\<lambda>_. []) (\<lambda>_. []) ''1.5'' ''s1'' ''tool_call'' tool (PDict []) PNone 1 [] db))
      in add ''ls'' (add ''cat'' empty_audit))"

definition sample_anchor :: anchor_row where
  "sample_anchor = anchor_of_rows shift_digest ''1970-01-01'' ''then'' (date_rows 0 sample_day)"

definition sample_logger :: anchor_logger where
  "sample_logger = \<lparr>al_pg = False, al_db_path = Some ''/a.db'', al_anchor_store = Some ''/a.jsonl''\<rparr>"

definition sample_anchor_world :: anchor_world where
  "sample_anchor_world =
     \<lparr>aw_pg_audit = None, aw_files = (\<lambda>_. Audit_File sample_day), aw_anchors = None, aw_lines = Some [''anchor'']\<rparr>"

definition sample_anchor_loads :: "str \<Rightarrow> pyval option" where
  "sample_anchor_loads _ = Some (PDict (anchor_dict sample_anchor))"

lemma length_shift_digest [simp]: "length (shift_digest x) = 64"
  by (simp add: shift_digest_def)

lemma colon_free_shift_digest [simp]: "colon_free (shift_digest x)"
  by (auto simp: shift_digest_def split: if_splits)

lemma sample_day_reachable: "audit_reachable shift_digest (\<lambda>_. []) (\<lambda>_. []) sample_day"
  by (simp add: sample_day_def Let_def audit_reachable.intros)

text \<open>The same day, the tool of its rows edited.\<close>

definition forged_day :: audit_db where
  "forged_day = sample_day\<lparr>adb_rows := map (\<lambda>r. r\<lparr>ar_tool_name := ''rm''\<rparr>) (adb_rows sample_day)\<rparr>"

definition forged_world :: anchor_world where
  "forged_world = sample_anchor_world\<lparr>aw_files := \<lambda>_. Audit_File forged_day\<rparr>"

lemma sample_day_row_contents: "map row_contents (date_rows 0 forged_day) \<noteq> map row_contents (date_rows 0 sample_day)"
  by code_simp

theorem anchor_match_vouches_witness:
  "\<exists>v v'. verify_anchor shift_digest sample_anchor_loads (\<lambda>_. Some 0) (Inr False) Map.empty sample_logger ''1970-01-01'' ''now'' sample_anchor_world = Inr v \<and>
       verify_anchor shift_digest sample_anchor_loads (\<lambda>_. Some 0) (Inr False) Map.empty sample_logger ''1970-01-01'' ''now'' forged_world = Inr v' \<and>
       av_match v \<and> \<not> av_match v'"
proof -
  have own: "verifies_own_store (Inr False) sample_logger" by (simp add: verifies_own_store_def sample_logger_def)
  have stores: "anchored_store sample_logger sample_anchor_world = Some sample_day" "anchored_store sample_logger forged_world = Some forged_day"
    by (simp_all add: anchored_store_def open_db_def sample_logger_def sample_anchor_world_def forged_world_def)
  have anchor: "compute_daily_anchor shift_digest (\<lambda>_. Some 0) sample_logger (Some ''1970-01-01'') ''1970-01-01'' ''then'' sample_anchor_world = Inr sample_anchor"
    by code_simp
  have stored: "get_anchor sample_anchor_loads sample_logger ''1970-01-01'' sample_anchor_world = Inr (Some (anchor_dict sample_anchor))"
    "get_anchor sample_anchor_loads sample_logger ''1970-01-01'' forged_world = Inr (Some (anchor_dict sample_anchor))"
    by code_simp+
  have "case verify_anchor shift_digest sample_anchor_loads (\<lambda>_. Some 0) (Inr False) Map.empty sample_logger ''1970-01-01'' ''now'' sample_anchor_world of Inl _ \<Rightarrow> False | Inr v \<Rightarrow> True"
    "case verify_anchor shift_digest sample_anchor_loads (\<lambda>_. Some 0) (Inr False) Map.empty sample_logger ''1970-01-01'' ''now'' forged_world of Inl _ \<Rightarrow> False | Inr v \<Rightarrow> True" by code_simp+
  then obtain v v' where
    v: "verify_anchor shift_digest sample_anchor_loads (\<lambda>_. Some 0) (Inr False) Map.empty sample_logger ''1970-01-01'' ''now'' sample_anchor_world = Inr v"
    and v': "verify_anchor shift_digest sample_anchor_loads (\<lambda>_. Some 0) (Inr False) Map.empty sample_logger ''1970-01-01'' ''now'' forged_world = Inr v'"
    by (auto split: sum.splits)
  have "list_all (\<lambda>r. texts_colon_free r \<and> colon_free (ar_session_id r)) (date_rows 0 sample_day)" by code_simp
  then have texts: "\<forall>r \<in> set (date_rows 0 sample_day). texts_colon_free r \<and> colon_free (ar_session_id r)" by (simp add: list_all_iff)
  have "distinct (map shift_digest (remdups (concat (map level_inputs (merkle_levels shift_digest (map ar_row_hash (date_rows 0 sample_day)))) @
      concat (map level_inputs (merkle_levels shift_digest (map ar_row_hash (date_rows 0 sample_day)))) @
      map row_payload (date_rows 0 sample_day @ date_rows 0 sample_day))))"
    "distinct (map shift_digest (remdups (concat (map level_inputs (merkle_levels shift_digest (map ar_row_hash (date_rows 0 forged_day)))) @
      concat (map level_inputs (merkle_levels shift_digest (map ar_row_hash (date_rows 0 sample_day)))) @
      map row_payload (date_rows 0 forged_day @ date_rows 0 sample_day))))" by code_simp+
  then have inj: "inj_on shift_digest (tree_inputs shift_digest (map ar_row_hash (date_rows 0 sample_day)) \<union> tree_inputs shift_digest (map ar_row_hash (date_rows 0 sample_day))
      \<union> row_payload ` (set (date_rows 0 sample_day) \<union> set (date_rows 0 sample_day)))"
    "inj_on shift_digest (tree_inputs shift_digest (map ar_row_hash (date_rows 0 forged_day)) \<union> tree_inputs shift_digest (map ar_row_hash (date_rows 0 sample_day))
      \<union> row_payload ` (set (date_rows 0 forged_day) \<union> set (date_rows 0 sample_day)))"
    by (simp_all add: tree_inputs_def distinct_map image_Un Un_assoc)
  have digests: "\<forall>x. length (shift_digest x) = 64 \<and> colon_free (shift_digest x)" by simp
  have chain: "\<forall>r \<in> set (date_rows 0 sample_day). verify_chain shift_digest (ar_session_id r) sample_day"
    using audit_reachable_inv [OF sample_day_reachable] by (simp add: verify_chain_iff audit_inv_def head_of_rows_ok)
  have len: "length (date_rows 0 forged_day) = length (date_rows 0 sample_day)" by code_simp
  note kept = anchor_match_vouches [OF sample_day_reachable stores(1) stores(1) _ own anchor stored(1) v digests texts inj(1)]
  note forged = anchor_match_vouches [OF sample_day_reachable stores(1) stores(2) _ own anchor stored(2) v' digests texts inj(2)]
  have "av_match v" using kept chain by simp
  moreover have "\<not> av_match v'" using forged len sample_day_row_contents by blast
  ultimately show ?thesis using v v' by blast
qed

theorem first_anchor_stands_witness:
  "get_anchor sample_anchor_loads sample_logger ''1970-01-01'' sample_anchor_world = Inr (Some (anchor_dict sample_anchor)) \<and>
   (\<exists>w'. record_anchor sample_logger (sample_anchor\<lparr>an_merkle_root := ''forged''\<rparr>) sample_anchor_world = Inr w' \<and>
     get_anchor sample_anchor_loads sample_logger ''1970-01-01'' w' = Inr (Some (anchor_dict sample_anchor)))"
proof -
  have found: "get_anchor sample_anchor_loads sample_logger ''1970-01-01'' sample_anchor_world = Inr (Some (anchor_dict sample_anchor))"
    by code_simp
  obtain w' where "record_anchor sample_logger (sample_anchor\<lparr>an_merkle_root := ''forged''\<rparr>) sample_anchor_world = Inr w'"
    by (simp add: record_anchor_def sample_logger_def)
  then show ?thesis using found first_anchor_stands [OF found] by blast
qed

section \<open>Postgres anchors re-verified against another store\<close>

text \<open>With Postgres selected and \<open>GENESIS_AUDIT_DB_PATH\<close> set as well, the rows are read from Postgres but their chains are verified in the
  file of that path: here every row in Postgres has a wrong hash for its contents, the file does not exist, and the anchor is
  reported to match.\<close>

definition split_world :: anchor_world where
  "split_world =
     \<lparr>aw_pg_audit = Some forged_day, aw_files = (\<lambda>_. Audit_Missing), aw_anchors = Some [sample_anchor], aw_lines = None\<rparr>"

lemma anchor_checks_other_store:
  "anchor_init None None (Inr True) [''GENESIS_AUDIT_DB_PATH'' \<mapsto> ''/a.db''] =
     Inr \<lparr>al_pg = True, al_db_path = Some ''/a.db'', al_anchor_store = None\<rparr>"
  "\<not> verify_chain shift_digest ''s1'' forged_day"
  "case verify_anchor shift_digest (\<lambda>_. None) (\<lambda>_. Some 0) (Inr True) [''GENESIS_AUDIT_DB_PATH'' \<mapsto> ''/a.db'']
      \<lparr>al_pg = True, al_db_path = Some ''/a.db'', al_anchor_store = None\<rparr> ''1970-01-01'' ''now'' split_world of
    Inl _ \<Rightarrow> False | Inr v \<Rightarrow> av_match v"
  by code_simp+

end
