(* ===== verification/Migrations.thy ===== *)
theory Migrations
  imports Pg_Store
begin

text \<open>
  The SQL migration runner, \<^verbatim>\<open>migrations/runner.py\<close>.

  \<open>sha256\<close> is the hex digest of bytes, \<open>decode\<close> is UTF-8 decoding (\<open>None\<close> when it raises), \<open>execute\<close> what the server does with the
  body of a migration on a schema of any type. The directory is the list of its files; a run takes one description of the
  environment per migration: whether the lock is still held, the connection works and the commit succeeds. The
  regular expressions are written out as scanners.
\<close>

section \<open>Files and checksums\<close>

record migration =
  mg_filename :: str
  mg_checksum :: str
  mg_sql :: str
  mg_equivalents :: "str list"

datatype mig_exc =
    MigrationError str
  | ChecksumMismatch "str list"
  | OutOfOrderMigration "str list"
  | MissingMigrationFile "str list"
  | Decode_Error
  | Sql_Error
  | Mig_Store str

definition checksum_bytes :: "(str \<Rightarrow> str) \<Rightarrow> str \<Rightarrow> str" where
  "checksum_bytes sha256 raw = sha256 raw"

fun crlf_to_lf :: "str \<Rightarrow> str" where
  "crlf_to_lf (a # b # cs) =
     (if a = CHR 13 \<and> b = CHR 10 then CHR 10 # crlf_to_lf cs else a # crlf_to_lf (b # cs))"
| "crlf_to_lf cs = cs"

definition lf_to_crlf :: "str \<Rightarrow> str" where
  "lf_to_crlf = replace_char (CHR 10) [CHR 13, CHR 10]"

definition equivalent_checksums :: "(str \<Rightarrow> str) \<Rightarrow> str \<Rightarrow> str list" where
  "equivalent_checksums sha256 raw =
     (let lf = crlf_to_lf raw; crlf = lf_to_crlf lf in
      [checksum_bytes sha256 raw, checksum_bytes sha256 lf, checksum_bytes sha256 crlf])"

section \<open>Transaction control in the files\<close>

definition rstrip :: "str \<Rightarrow> str" where
  "rstrip s = rev (dropWhile is_space (rev s))"

text \<open>\<open>(?:\s*--[^\n]*\n)*\<close>: the leading comment lines, and the rest.\<close>

function leading_comments :: "str \<Rightarrow> str \<times> str" where
  "leading_comments s =
     (let ws = takeWhile is_space s; r = dropWhile is_space s;
          line = takeWhile (\<lambda>c. c \<noteq> CHR 10) r; r2 = dropWhile (\<lambda>c. c \<noteq> CHR 10) r in
      if startswith r ''--'' \<and> r2 \<noteq> [] then
        (case leading_comments (tl r2) of (p, q) \<Rightarrow> (ws @ line @ [hd r2] @ p, q))
      else ([], s))"
  by pat_completeness auto
termination
proof (relation "measure length", goal_cases)
  case (2 s ws r line r2)
  have "length r2 \<le> length s"
    using 2(2,4) length_dropWhile_le [of is_space s] length_dropWhile_le [of "\<lambda>c. c \<noteq> CHR 10" r] by simp
  then show ?case using 2(5) by (cases r2) auto
qed simp

declare leading_comments.simps [simp del]

text \<open>\<open>START\s+TRANSACTION\<close> at the start of a text, as the text after it.\<close>

definition start_transaction :: "str \<Rightarrow> str option" where
  "start_transaction s =
     (let ws = takeWhile is_space (drop 5 s); r = dropWhile is_space (drop 5 s) in
      if lower (take 5 s) = ''start'' \<and> ws \<noteq> [] \<and> lower (take 11 r) = ''transaction'' then Some (drop 11 r) else None)"

definition after_semicolon :: "str \<Rightarrow> str option" where
  "after_semicolon s =
     (case dropWhile is_space s of c # r \<Rightarrow> if c = CHR '';'' then Some r else None | [] \<Rightarrow> None)"

text \<open>\<open>_LEADING_BEGIN\<close>: the text before the keyword and the text after the semicolon.\<close>

definition leading_begin :: "str \<Rightarrow> (str \<times> str) option" where
  "leading_begin s =
     (case leading_comments s of (p, q) \<Rightarrow>
        let ws = takeWhile is_space q; r = dropWhile is_space q;
            rest = (if lower (take 5 r) = ''begin'' then Some (drop 5 r) else start_transaction r) in
        map_option (\<lambda>t. (p @ ws, t)) (Option.bind rest after_semicolon))"

text \<open>\<open>_TRAILING_COMMIT\<close>: the text before the keyword.\<close>

definition trailing_commit :: "str \<Rightarrow> str option" where
  "trailing_commit s =
     (let r = rstrip s in
      if r = [] \<or> last r \<noteq> CHR '';'' then None
      else let t = rstrip (butlast r) in
           if endswith (lower t) ''commit'' then Some (take (length t - 6) t)
           else if endswith (lower t) ''end'' then Some (take (length t - 3) t) else None)"

fun after_first :: "str \<Rightarrow> str \<Rightarrow> str option" where
  "after_first pat [] = (if pat = [] then Some [] else None)"
| "after_first pat (c # cs) = (if startswith (c # cs) pat then Some (drop (length pat) (c # cs)) else after_first pat cs)"

lemma after_first_shorter: "after_first pat s = Some r \<Longrightarrow> length r \<le> length s"
  by (induction s) (auto split: if_splits)

lemma after_first_tail: "after_first pat (drop (Suc 0) cs) = Some r \<Longrightarrow> length r < Suc (length cs)"
  using after_first_shorter [of pat "drop (Suc 0) cs" r] by simp

text \<open>\<open>_BLOCK_COMMENT.sub("")\<close>\<close>

function drop_block_comments :: "str \<Rightarrow> str" where
  "drop_block_comments [] = []"
| "drop_block_comments (c # cs) =
     (case (if startswith (c # cs) ''/*'' then after_first ''*/'' (drop 2 (c # cs)) else None) of
        Some r \<Rightarrow> drop_block_comments r
      | None \<Rightarrow> c # drop_block_comments cs)"
  by pat_completeness auto
termination
  by (relation "measure length") (auto dest: after_first_tail split: if_splits)

definition ident_start :: "char \<Rightarrow> bool" where
  "ident_start c \<longleftrightarrow> alnum c \<and> \<not> (48 \<le> (of_char c :: nat) \<and> (of_char c :: nat) \<le> 57) \<or> c = CHR ''_''"

text \<open>The opening delimiter of a dollar quote: its tag and the text after it.\<close>

definition dollar_open :: "str \<Rightarrow> (str \<times> str) option" where
  "dollar_open s =
     (case s of
        c # r \<Rightarrow>
          if c \<noteq> CHR ''$'' then None
          else let tag = (case r of d # _ \<Rightarrow> if ident_start d then takeWhile (\<lambda>x. alnum x \<or> x = CHR ''_'') r else [] | [] \<Rightarrow> []);
                   r2 = drop (length tag) r in
               (case r2 of d # r3 \<Rightarrow> if d = CHR ''$'' then Some (tag, r3) else None | [] \<Rightarrow> None)
      | [] \<Rightarrow> None)"

text \<open>The first closing delimiter: the tag between dollar signs, or two dollar signs.\<close>

fun dollar_close :: "str \<Rightarrow> str \<Rightarrow> str option" where
  "dollar_close tag [] = None"
| "dollar_close tag (c # cs) =
     (let s = c # cs; full = CHR ''$'' # tag @ ''$'' in
      if startswith s full then Some (drop (length full) s)
      else if startswith s ''$$'' then Some (drop 2 s)
      else dollar_close tag cs)"

lemma dollar_close_shorter: "dollar_close tag s = Some r \<Longrightarrow> length r < length s"
  by (induction s) (auto simp: Let_def less_SucI split: if_splits)

lemma dollar_open_shorter: "dollar_open s = Some (tag, r) \<Longrightarrow> length r < length s"
proof (cases s)
  case (Cons c cs)
  assume "dollar_open s = Some (tag, r)"
  then have "drop (length tag) cs = CHR ''$'' # r"
    using Cons by (auto simp: dollar_open_def Let_def split: list.splits if_splits)
  then have "length (drop (length tag) cs) = Suc (length r)" by simp
  then show ?thesis using Cons by simp
qed (simp add: dollar_open_def)

text \<open>\<open>_DOLLAR_QUOTED.sub("")\<close>\<close>

function drop_dollar_quoted :: "str \<Rightarrow> str" where
  "drop_dollar_quoted [] = []"
| "drop_dollar_quoted (c # cs) =
     (case Option.bind (dollar_open (c # cs)) (\<lambda>(tag, r). dollar_close tag r) of
        Some r \<Rightarrow> drop_dollar_quoted r
      | None \<Rightarrow> c # drop_dollar_quoted cs)"
  by pat_completeness auto
termination
proof (relation "measure length", goal_cases)
  case (3 c cs r)
  then obtain tag q where "dollar_open (c # cs) = Some (tag, q)" "dollar_close tag q = Some r"
    by (auto simp: bind_eq_Some_conv)
  then show ?case using dollar_open_shorter dollar_close_shorter by fastforce
qed auto

text \<open>\<open>_LINE_COMMENT.sub("")\<close>; the first argument says that a comment is being skipped.\<close>

fun drop_line_comments :: "bool \<Rightarrow> str \<Rightarrow> str" where
  "drop_line_comments inside [] = []"
| "drop_line_comments inside (c # cs) =
     (if c = CHR 10 then c # drop_line_comments False cs
      else if inside \<or> startswith (c # cs) ''--'' then drop_line_comments True cs
      else c # drop_line_comments False cs)"

definition without_comments :: "str \<Rightarrow> str" where
  "without_comments sql = drop_line_comments False (drop_dollar_quoted (drop_block_comments sql))"

definition word_or_dot :: "char \<Rightarrow> bool" where
  "word_or_dot c \<longleftrightarrow> word_char c \<or> c = CHR ''.''"

definition not_before_word :: "str \<Rightarrow> bool" where
  "not_before_word s = (case s of c # _ \<Rightarrow> \<not> word_or_dot c | [] \<Rightarrow> True)"

definition control_at :: "str \<Rightarrow> bool" where
  "control_at s \<longleftrightarrow>
     list_ex (\<lambda>k. lower (take (length k) s) = k \<and> not_before_word (drop (length k) s)) [''begin'', ''commit'', ''rollback'', ''savepoint''] \<or>
     (case start_transaction s of Some r \<Rightarrow> not_before_word r | None \<Rightarrow> False)"

text \<open>\<open>_INNER_TXN_CONTROL.search\<close>; the first argument is the character before the text, if any.\<close>

fun txn_control :: "char option \<Rightarrow> str \<Rightarrow> bool" where
  "txn_control prev [] = False"
| "txn_control prev (c # cs) =
     ((case prev of Some p \<Rightarrow> \<not> word_or_dot p | None \<Rightarrow> True) \<and> control_at (c # cs) \<or> txn_control (Some c) cs)"

definition strip_outer_transaction :: "str \<Rightarrow> mig_exc + str" where
  "strip_outer_transaction sql =
     (let body = strip sql in
      bindE (case leading_begin body of
               None \<Rightarrow> Inr body
             | Some (p, rest) \<Rightarrow>
                 bindE (optE (MigrationError ''migration opens a transaction it never commits'') (trailing_commit (strip (p @ rest))))
                   (\<lambda>b. Inr (strip b))) (\<lambda>body'.
      guardE (\<not> txn_control None (without_comments body')) (MigrationError ''migration contains transaction control'')
        (Inr body')))"

section \<open>Discovery and reconciliation\<close>

type_synonym sql_dir = "(str \<times> str) list"

definition sql_files :: "sql_dir \<Rightarrow> sql_dir" where
  "sql_files dir = sort_key fst (filter (\<lambda>(name, _). endswith name ''.sql'') dir)"

definition read_migration :: "(str \<Rightarrow> str) \<Rightarrow> (str \<Rightarrow> str option) \<Rightarrow> str \<times> str \<Rightarrow> mig_exc + migration" where
  "read_migration sha256 decode f =
     bindE (optE Decode_Error (decode (snd f))) (\<lambda>sql.
     Inr \<lparr>mg_filename = fst f, mg_checksum = checksum_bytes sha256 (snd f), mg_sql = sql,
          mg_equivalents = equivalent_checksums sha256 (snd f)\<rparr>)"

definition discover :: "(str \<Rightarrow> str) \<Rightarrow> (str \<Rightarrow> str option) \<Rightarrow> sql_dir \<Rightarrow> mig_exc + migration list" where
  "discover sha256 decode dir = mapE (read_migration sha256 decode) (sql_files dir)"

text \<open>A row of \<open>genesis_schema_migrations\<close>, whose primary key is the file name.\<close>

record ledger_row =
  lr_filename :: str
  lr_checksum :: str
  lr_duration_ms :: int

definition applied_names :: "ledger_row list \<Rightarrow> str list" where
  "applied_names applied = map lr_filename applied"

definition on_disk :: "migration list \<Rightarrow> str \<Rightarrow> migration option" where
  "on_disk ms name = find (\<lambda>m. mg_filename m = name) ms"

definition drifted :: "migration list \<Rightarrow> ledger_row list \<Rightarrow> str list" where
  "drifted ms applied =
     map lr_filename (filter (\<lambda>r. case on_disk ms (lr_filename r) of None \<Rightarrow> False | Some m \<Rightarrow> lr_checksum r \<notin> set (mg_equivalents m)) applied)"

definition reconcile :: "migration list \<Rightarrow> ledger_row list \<Rightarrow> mig_exc + migration list" where
  "reconcile ms applied =
     (let names = applied_names applied;
          vanished = filter (\<lambda>n. on_disk ms n = None) names;
          pending = filter (\<lambda>m. mg_filename m \<notin> set names) ms;
          late = (if names = [] then [] else filter (\<lambda>n. n < Max (set names)) (map mg_filename pending)) in
      guardE (drifted ms applied = []) (ChecksumMismatch (sort (drifted ms applied))) (
      guardE (vanished = []) (MissingMigrationFile (sort vanished)) (
      guardE (late = []) (OutOfOrderMigration late) (
      Inr pending))))"

section \<open>Applying\<close>

record 'd mig_db =
  md_schema :: 'd
  md_ledger :: "ledger_row list"

text \<open>What the environment does around one migration.\<close>

record step_env =
  se_lock_held :: bool
  se_connect_error :: "str option"
  se_commit_ok :: bool
  se_duration_ms :: int

definition execute_body :: "(str \<Rightarrow> 'd \<Rightarrow> 'd option) \<Rightarrow> str \<Rightarrow> 'd \<Rightarrow> 'd option" where
  "execute_body execute body d = (if body = [] then Some d else execute body d)"

text \<open>The statements of one transaction: the body, then the ledger row.\<close>

definition apply_statements ::
  "(str \<Rightarrow> 'd \<Rightarrow> 'd option) \<Rightarrow> migration \<Rightarrow> str \<Rightarrow> int \<Rightarrow> 'd mig_db \<Rightarrow> ('d mig_db, mig_exc, int) body_result" where
  "apply_statements execute m body ms db =
     (case execute_body execute body (md_schema db) of
        None \<Rightarrow> Raised Sql_Error db
      | Some d \<Rightarrow>
          let db1 = db\<lparr>md_schema := d\<rparr> in
          if mg_filename m \<in> set (applied_names (md_ledger db)) then Raised Sql_Error db1
          else Returned ms (db1\<lparr>md_ledger := md_ledger db @ [\<lparr>lr_filename = mg_filename m, lr_checksum = mg_checksum m, lr_duration_ms = ms\<rparr>]\<rparr>))"

fun txn_exc :: "mig_exc txn_error \<Rightarrow> mig_exc" where
  "txn_exc Cap_Reached = Mig_Store ''connection cap reached''"
| "txn_exc (Connect_Failed e) = Mig_Store e"
| "txn_exc (Body_Error e) = e"
| "txn_exc Commit_Failed = Mig_Store ''commit failed''"

definition apply_one ::
  "(str \<Rightarrow> 'd \<Rightarrow> 'd option) \<Rightarrow> step_env \<Rightarrow> migration \<Rightarrow> slots \<Rightarrow> 'd mig_db \<Rightarrow> (mig_exc + int) \<times> 'd mig_db \<times> slots" where
  "apply_one execute se m pool db =
     (case strip_outer_transaction (mg_sql m) of
        Inl e \<Rightarrow> (Inl e, db, pool)
      | Inr body \<Rightarrow>
          (case transaction False (se_connect_error se) (se_commit_ok se) (apply_statements execute m body (se_duration_ms se)) pool db of
             (r, db', pool') \<Rightarrow> (raisingE txn_exc r, db', pool')))"

record run_result =
  rr_applied :: "str list"
  rr_pending :: "str list"
  rr_already_applied :: "str list"
  rr_durations_ms :: "(str \<times> int) list"

fun apply_pending ::
  "(str \<Rightarrow> 'd \<Rightarrow> 'd option) \<Rightarrow> (nat \<Rightarrow> step_env) \<Rightarrow> nat \<Rightarrow> migration list \<Rightarrow> run_result \<Rightarrow> slots \<Rightarrow> 'd mig_db
     \<Rightarrow> (mig_exc + run_result) \<times> 'd mig_db \<times> slots" where
  "apply_pending execute envs i [] res pool db = (Inr res, db, pool)"
| "apply_pending execute envs i (m # ms) res pool db =
     (if \<not> se_lock_held (envs i) then (Inl (MigrationError ''lost the migration advisory lock''), db, pool)
      else case apply_one execute (envs i) m pool db of
             (Inl e, db', pool') \<Rightarrow> (Inl e, db', pool')
           | (Inr ms_taken, db', pool') \<Rightarrow>
               apply_pending execute envs (i + 1) ms
                 (res\<lparr>rr_durations_ms := dict_set (rr_durations_ms res) (mg_filename m) ms_taken,
                      rr_applied := rr_applied res @ [mg_filename m]\<rparr>) pool' db')"

text \<open>\<open>with pg_store.transaction() as cur: _ensure_ledger(cur); applied = _read_ledger(cur)\<close>\<close>

definition read_ledger :: "str option \<Rightarrow> bool \<Rightarrow> slots \<Rightarrow> 'd mig_db \<Rightarrow> mig_exc + ledger_row list" where
  "read_ledger connect_error commit_ok pool db =
     raisingE txn_exc (fst (transaction False connect_error commit_ok (\<lambda>d. Returned (sort_key lr_filename (md_ledger d)) d) pool db))"

definition status ::
  "(str \<Rightarrow> str) \<Rightarrow> (str \<Rightarrow> str option) \<Rightarrow> sql_dir \<Rightarrow> str option \<Rightarrow> bool \<Rightarrow> slots \<Rightarrow> 'd mig_db \<Rightarrow> mig_exc + run_result" where
  "status sha256 decode dir connect_error commit_ok pool db =
     bindE (discover sha256 decode dir) (\<lambda>ms.
     bindE (read_ledger connect_error commit_ok pool db) (\<lambda>applied.
     bindE (reconcile ms applied) (\<lambda>pending.
     Inr \<lparr>rr_applied = [], rr_pending = map mg_filename pending, rr_already_applied = sort (applied_names applied),
          rr_durations_ms = map (\<lambda>r. (lr_filename r, lr_duration_ms r)) applied\<rparr>)))"

text \<open>\<open>migrate\<close>: the lock connection, the check and the loop.\<close>

definition migrate ::
  "(str \<Rightarrow> str) \<Rightarrow> (str \<Rightarrow> str option) \<Rightarrow> (str \<Rightarrow> 'd \<Rightarrow> 'd option) \<Rightarrow> sql_dir \<Rightarrow> str option \<Rightarrow> str option \<Rightarrow> bool \<Rightarrow> (nat \<Rightarrow> step_env)
     \<Rightarrow> slots \<Rightarrow> 'd mig_db \<Rightarrow> (mig_exc + run_result) \<times> 'd mig_db \<times> slots" where
  "migrate sha256 decode execute dir lock_error connect_error commit_ok envs pool db =
     (case lock_error of
        Some e \<Rightarrow> (Inl (Mig_Store e), db, pool)
      | None \<Rightarrow>
          (case bindE (discover sha256 decode dir) (\<lambda>ms.
                bindE (read_ledger connect_error commit_ok pool db) (\<lambda>applied.
                bindE (reconcile ms applied) (\<lambda>pending. Inr (applied, pending)))) of
             Inl e \<Rightarrow> (Inl e, db, pool)
           | Inr (applied, pending) \<Rightarrow>
               apply_pending execute envs 0 pending
                 \<lparr>rr_applied = [], rr_pending = [], rr_already_applied = sort (applied_names applied), rr_durations_ms = []\<rparr> pool db))"

text \<open>\<open>main\<close>: the exit code.\<close>

definition EXIT_OK :: int where
  "EXIT_OK = 0"

definition EXIT_ERROR :: int where
  "EXIT_ERROR = 1"

definition EXIT_PENDING :: int where
  "EXIT_PENDING = 2"

definition check_exit :: "bool \<Rightarrow> mig_exc + run_result \<Rightarrow> int" where
  "check_exit status_flag r =
     (case r of
        Inl _ \<Rightarrow> EXIT_ERROR
      | Inr res \<Rightarrow> if status_flag then EXIT_OK else if rr_pending res \<noteq> [] then EXIT_PENDING else EXIT_OK)"

definition migrate_exit :: "mig_exc + run_result \<Rightarrow> int" where
  "migrate_exit r = (case r of Inl _ \<Rightarrow> EXIT_ERROR | Inr _ \<Rightarrow> EXIT_OK)"

section \<open>What reconciliation accepts\<close>

lemma on_disk_Some: "on_disk ms n = Some m \<Longrightarrow> m \<in> set ms \<and> mg_filename m = n"
  by (auto simp: on_disk_def find_Some_iff)

lemma on_disk_None: "on_disk ms n = None \<longleftrightarrow> n \<notin> mg_filename ` set ms"
  by (auto simp: on_disk_def find_None_iff)

lemma on_disk_distinct:
  assumes "distinct (map mg_filename ms)" and "m \<in> set ms"
  shows "on_disk ms (mg_filename m) = Some m"
proof (cases "on_disk ms (mg_filename m)")
  case None
  then show ?thesis using assms(2) by (auto simp: on_disk_None)
next
  case (Some m')
  then have "m' \<in> set ms" "mg_filename m' = mg_filename m" using on_disk_Some by blast+
  then show ?thesis using Some assms by (auto simp: distinct_map inj_on_def)
qed

text \<open>The check before a run accepts a ledger exactly when every applied migration is still on disk under a checksum its file can have
  with either line ending, and no file that is not applied sorts before an applied one; what is pending is then every file the
  ledger does not name.\<close>

theorem reconcile_iff:
  assumes "distinct (map mg_filename ms)"
  shows "reconcile ms applied = Inr pending \<longleftrightarrow>
         pending = filter (\<lambda>m. mg_filename m \<notin> lr_filename ` set applied) ms \<and>
         (\<forall>r \<in> set applied. \<exists>m \<in> set ms. mg_filename m = lr_filename r \<and> lr_checksum r \<in> set (mg_equivalents m)) \<and>
         (\<forall>m \<in> set pending. \<forall>r \<in> set applied. lr_filename r \<le> mg_filename m)"
proof -
  define names where "names = map lr_filename applied"
  let ?pending = "filter (\<lambda>m. mg_filename m \<notin> set names) ms"
  have disk: "drifted ms applied = [] \<and> filter (\<lambda>n. on_disk ms n = None) names = [] \<longleftrightarrow>
      (\<forall>r \<in> set applied. \<exists>m \<in> set ms. mg_filename m = lr_filename r \<and> lr_checksum r \<in> set (mg_equivalents m))"
  proof -
    have eq: "(case on_disk ms (lr_filename r) of None \<Rightarrow> False | Some m \<Rightarrow> lr_checksum r \<in> set (mg_equivalents m)) \<longleftrightarrow>
        (\<exists>m \<in> set ms. mg_filename m = lr_filename r \<and> lr_checksum r \<in> set (mg_equivalents m))" for r
    proof (cases "on_disk ms (lr_filename r)")
      case None
      then have "\<forall>m \<in> set ms. mg_filename m \<noteq> lr_filename r" unfolding on_disk_None by (metis imageI)
      then show ?thesis using None by auto
    next
      case (Some m)
      have "m' = m" if "m' \<in> set ms" "mg_filename m' = lr_filename r" for m'
        using on_disk_distinct [OF assms that(1)] Some that(2) by simp
      then show ?thesis using Some on_disk_Some [OF Some] by auto
    qed
    then have "(\<forall>r \<in> set applied. \<exists>m \<in> set ms. mg_filename m = lr_filename r \<and> lr_checksum r \<in> set (mg_equivalents m)) \<longleftrightarrow>
        (\<forall>r \<in> set applied. case on_disk ms (lr_filename r) of None \<Rightarrow> False | Some m \<Rightarrow> lr_checksum r \<in> set (mg_equivalents m))"
      by (intro ball_cong refl) (rule eq [symmetric])
    also have "\<dots> \<longleftrightarrow> drifted ms applied = [] \<and> filter (\<lambda>n. on_disk ms n = None) names = []"
      by (auto simp: drifted_def filter_empty_conv names_def split: option.splits)
    finally show ?thesis by simp
  qed
  have order: "(if names = [] then [] else filter (\<lambda>n. n < Max (set names)) (map mg_filename ?pending)) = [] \<longleftrightarrow>
      (\<forall>m \<in> set ?pending. \<forall>r \<in> set applied. lr_filename r \<le> mg_filename m)"
    by (cases "names = []") (auto simp: filter_empty_conv names_def not_less)
  show ?thesis
    using disk order unfolding reconcile_def applied_names_def names_def [symmetric] Let_def guardE_Inr
    by (auto simp: names_def)
qed

section \<open>A run applies a prefix of the files\<close>

text \<open>The schema a fresh database gets from a list of migrations.\<close>

fun replay :: "(str \<Rightarrow> 'd \<Rightarrow> 'd option) \<Rightarrow> migration list \<Rightarrow> 'd \<Rightarrow> 'd option" where
  "replay execute [] d = Some d"
| "replay execute (m # ms) d =
     (case strip_outer_transaction (mg_sql m) of
        Inl _ \<Rightarrow> None
      | Inr body \<Rightarrow> Option.bind (execute_body execute body d) (replay execute ms))"

text \<open>The abstract state of a database: how many of the files it has.\<close>

definition applied_upto :: "(str \<Rightarrow> 'd \<Rightarrow> 'd option) \<Rightarrow> 'd \<Rightarrow> migration list \<Rightarrow> nat \<Rightarrow> 'd mig_db \<Rightarrow> bool" where
  "applied_upto execute d0 ms k db \<longleftrightarrow>
     k \<le> length ms \<and>
     map (\<lambda>r. (lr_filename r, lr_checksum r)) (md_ledger db) = map (\<lambda>m. (mg_filename m, mg_checksum m)) (take k ms) \<and>
     replay execute (take k ms) d0 = Some (md_schema db)"

lemma replay_append: "replay execute (xs @ ys) d = Option.bind (replay execute xs d) (replay execute ys)"
proof (induction xs arbitrary: d)
  case (Cons m xs)
  then have "replay execute (xs @ ys) = (\<lambda>d. Option.bind (replay execute xs d) (replay execute ys))" by (simp add: fun_eq_iff)
  then show ?case by (simp split: sum.splits)
qed simp

lemma transaction_pool: "snd (snd (transaction auto err ok body pool db)) = pool"
  by (auto simp: transaction_def Let_def split: option.splits body_result.splits)

lemma ledger_names:
  assumes "applied_upto execute d0 ms k db"
  shows "map lr_filename (md_ledger db) = map mg_filename (take k ms)"
proof -
  have "map fst (map (\<lambda>r. (lr_filename r, lr_checksum r)) (md_ledger db)) = map fst (map (\<lambda>m. (mg_filename m, mg_checksum m)) (take k ms))"
    using assms by (simp add: applied_upto_def)
  then show ?thesis by (simp add: comp_def)
qed

text \<open>One migration: its body and its ledger row, or nothing.\<close>

lemma apply_one_step:
  assumes "applied_upto execute d0 ms k db" and "k < length ms" and "distinct (map mg_filename ms)"
    and "apply_one execute se (ms ! k) pool db = (r, db', pool')"
  shows "pool' = pool \<and> (case r of Inl _ \<Rightarrow> db' = db | Inr _ \<Rightarrow> applied_upto execute d0 ms (k + 1) db')"
proof (cases "strip_outer_transaction (mg_sql (ms ! k))")
  case (Inl e)
  then show ?thesis using assms(4) by (auto simp: apply_one_def)
next
  case (Inr body)
  let ?t = "transaction False (se_connect_error se) (se_commit_ok se) (apply_statements execute (ms ! k) body (se_duration_ms se)) pool db"
  have t: "r = raisingE txn_exc (fst ?t)" "db' = fst (snd ?t)" "pool' = pool"
    using assms(4) transaction_pool [of False "se_connect_error se" "se_commit_ok se" "apply_statements execute (ms ! k) body (se_duration_ms se)" pool db]
    by (auto simp: apply_one_def Inr split: prod.splits)
  have take: "take (k + 1) ms = take k ms @ [ms ! k]" using assms(2) by (simp add: take_Suc_conv_app_nth)
  have "applied_upto execute d0 ms (k + 1) db'" if ok: "fst ?t = Inr n" for n
  proof -
    obtain d where d: "execute_body execute body (md_schema db) = Some d"
      and db': "db' = db\<lparr>md_schema := d, md_ledger := md_ledger db @
        [\<lparr>lr_filename = mg_filename (ms ! k), lr_checksum = mg_checksum (ms ! k), lr_duration_ms = se_duration_ms se\<rparr>]\<rparr>"
      using ok t(2) by (auto simp: transaction_def apply_statements_def Let_def split: if_splits option.splits body_result.splits)
    have "replay execute (take (k + 1) ms) d0 = Some d"
      unfolding take replay_append using assms(1) by (simp add: applied_upto_def Inr d)
    then show ?thesis
      using assms(1,2) unfolding applied_upto_def take db' by simp
  qed
  moreover have "db' = db" if "fst ?t = Inl x" for x
    using that t(2) by (auto simp: transaction_def Let_def split: if_splits option.splits body_result.splits)
  ultimately show ?thesis using t by (cases "fst ?t") auto
qed

lemma apply_pending_prefix:
  assumes "applied_upto execute d0 ms k db" and "distinct (map mg_filename ms)"
    and "apply_pending execute envs i (drop k ms) res pool db = (r, db', pool')"
  shows "\<exists>k' \<ge> k. applied_upto execute d0 ms k' db' \<and> (\<forall>x. r = Inr x \<longrightarrow> k' = length ms)"
  using assms
proof (induction "drop k ms" arbitrary: k i res pool db)
  case Nil
  then have "k = length ms" by (simp add: applied_upto_def)
  then show ?case using Nil by auto
next
  case (Cons m rest)
  then have k: "k < length ms" and m: "m = ms ! k" and rest: "rest = drop (Suc k) ms"
    by (metis drop_eq_Nil linorder_not_le list.distinct(1), metis Cons_nth_drop_Suc drop_eq_Nil linorder_not_le list.distinct(1) list.inject,
        metis drop_Suc drop_tl list.sel(3))
  obtain r1 db1 pool1 where one: "apply_one execute (envs i) (ms ! k) pool db = (r1, db1, pool1)" by (metis surj_pair)
  note step = apply_one_step [OF Cons.prems(1) k Cons.prems(2) one]
  have run: "apply_pending execute envs i (m # rest) res pool db = (r, db', pool')" using Cons.prems(3) Cons.hyps(2) by simp
  show ?case
  proof (cases "se_lock_held (envs i)")
    case False
    then show ?thesis using run Cons.prems(1) by auto
  next
    case True
    show ?thesis
    proof (cases r1)
      case (Inl e)
      then show ?thesis using run True one step m Cons.prems(1) by auto
    next
      case (Inr n)
      then have up: "applied_upto execute d0 ms (k + 1) db1" using step by simp
      have "\<exists>res'. apply_pending execute envs (i + 1) (drop (k + 1) ms) res' pool1 db1 = (r, db', pool')"
        using run True one Inr m rest by auto
      then obtain res' where "apply_pending execute envs (i + 1) (drop (k + 1) ms) res' pool1 db1 = (r, db', pool')" ..
      then have "\<exists>k' \<ge> k + 1. applied_upto execute d0 ms k' db' \<and> (\<forall>x. r = Inr x \<longrightarrow> k' = length ms)"
        by (intro Cons.hyps(1) [OF _ up Cons.prems(2)]) (simp_all add: rest)
      then show ?thesis by (metis add_leD1)
    qed
  qed
qed

lemma pending_is_rest:
  assumes "distinct (map f ms)"
  shows "filter (\<lambda>m. f m \<notin> f ` set (take k ms)) ms = drop k ms"
proof -
  have "distinct (map f (take k ms @ drop k ms))" using assms by simp
  then have disj: "f ` set (take k ms) \<inter> f ` set (drop k ms) = {}" unfolding map_append distinct_append by simp
  then have "filter (\<lambda>m. f m \<notin> f ` set (take k ms)) (take k ms) = []" "filter (\<lambda>m. f m \<notin> f ` set (take k ms)) (drop k ms) = drop k ms"
    by (auto simp: filter_empty_conv filter_id_conv)
  then have "filter (\<lambda>m. f m \<notin> f ` set (take k ms)) (take k ms @ drop k ms) = drop k ms" unfolding filter_append by simp
  then show ?thesis unfolding append_take_drop_id .
qed

lemma reconcile_upto:
  assumes "applied_upto execute d0 ms k db" and "sorted (map mg_filename ms)" and "distinct (map mg_filename ms)"
    and "\<forall>m \<in> set ms. mg_checksum m \<in> set (mg_equivalents m)"
  shows "reconcile ms (sort_key lr_filename (md_ledger db)) = Inr (drop k ms)"
proof -
  have names: "lr_filename ` set (md_ledger db) = mg_filename ` set (take k ms)"
    using ledger_names [OF assms(1)] by (metis list.set_map)
  have "\<exists>m \<in> set ms. mg_filename m = lr_filename r \<and> lr_checksum r \<in> set (mg_equivalents m)" if "r \<in> set (md_ledger db)" for r
  proof -
    have "(lr_filename r, lr_checksum r) \<in> set (map (\<lambda>r. (lr_filename r, lr_checksum r)) (md_ledger db))" using that by simp
    then obtain m where "m \<in> set (take k ms)" "mg_filename m = lr_filename r" "mg_checksum m = lr_checksum r"
      using assms(1) unfolding applied_upto_def by auto
    then show ?thesis using assms(4) in_set_takeD by metis
  qed
  moreover have "lr_filename r \<le> mg_filename m" if "m \<in> set (drop k ms)" "r \<in> set (md_ledger db)" for m r
  proof -
    have "sorted (map mg_filename (take k ms @ drop k ms))" using assms(2) by simp
    then have "\<forall>x \<in> mg_filename ` set (take k ms). \<forall>y \<in> mg_filename ` set (drop k ms). x \<le> y"
      unfolding map_append sorted_append by simp
    then show ?thesis using that names by blast
  qed
  ultimately show ?thesis
    unfolding reconcile_iff [OF assms(3)] using pending_is_rest [OF assms(3), of k] by (simp add: names)
qed

lemma discover_shape:
  assumes "discover sha256 decode dir = Inr ms" and "distinct (map fst dir)"
  shows "sorted (map mg_filename ms) \<and> distinct (map mg_filename ms) \<and> (\<forall>m \<in> set ms. mg_checksum m \<in> set (mg_equivalents m))"
proof -
  have all: "list_all2 (\<lambda>f m. read_migration sha256 decode f = Inr m) (sql_files dir) ms"
    using assms(1) mapE_Inr by (simp add: discover_def)
  then have "map fst (sql_files dir) = map mg_filename ms"
    by (rule list_all2_induct) (auto simp: read_migration_def call_Inr)
  moreover have "sorted (map fst (sql_files dir))" by (simp add: sql_files_def)
  moreover have "distinct (map fst (sql_files dir))"
    using assms(2) by (simp add: sql_files_def distinct_map inj_on_filter_key_eq) (auto simp: inj_on_def)
  moreover have "\<forall>m \<in> set ms. mg_checksum m \<in> set (mg_equivalents m)"
    using all by (induction rule: list_all2_induct) (auto simp: read_migration_def call_Inr equivalent_checksums_def Let_def)
  ultimately show ?thesis by simp
qed

text \<open>C17. The runner refines its abstract specification, a counter of how many of the files a database has. A database that is
  what a fresh one becomes by the first \<open>k\<close> files in lexical order, ledger and schema both, is after any run, successful or
  interrupted at any point, what a fresh one becomes by the first \<open>k' \<ge> k\<close>; a run that returns has applied all of them.\<close>

theorem migrate_refines_prefix:
  assumes "discover sha256 decode dir = Inr ms" and "distinct (map fst dir)"
    and "applied_upto execute d0 ms k db"
    and "migrate sha256 decode execute dir lock_error connect_error commit_ok envs pool db = (r, db', pool')"
  shows "\<exists>k' \<ge> k. applied_upto execute d0 ms k' db' \<and> (\<forall>res. r = Inr res \<longrightarrow> k' = length ms)"
proof -
  note shape = discover_shape [OF assms(1,2)]
  have rec: "reconcile ms (sort_key lr_filename (md_ledger db)) = Inr (drop k ms)"
    using reconcile_upto [OF assms(3)] shape by blast
  show ?thesis
  proof (cases "lock_error = None \<and> (\<exists>a. read_ledger connect_error commit_ok pool db = Inr a)")
    case True
    then obtain applied where a: "read_ledger connect_error commit_ok pool db = Inr applied" by blast
    then have "applied = sort_key lr_filename (md_ledger db)"
      by (auto simp: read_ledger_def raisingE_Inr transaction_def Let_def split: if_splits option.splits)
    then have "\<exists>res. apply_pending execute envs 0 (drop k ms) res pool db = (r, db', pool')"
      using assms(4) True rec by (auto simp: migrate_def assms(1) a)
    then show ?thesis using apply_pending_prefix [OF assms(3)] shape by blast
  next
    case False
    then have "db' = db" "\<exists>e. r = Inl e"
      using assms(4) by (auto simp: migrate_def assms(1) bindE_def split: option.splits sum.splits)
    then show ?thesis using assms(3) by auto
  qed
qed

text \<open>A second run on a current schema changes nothing: it applies no migration and leaves the database as it was.\<close>

theorem migrate_idempotent:
  assumes "discover sha256 decode dir = Inr ms" and "distinct (map fst dir)"
    and "applied_upto execute d0 ms k db"
    and "migrate sha256 decode execute dir lock_error connect_error commit_ok envs pool db = (Inr res, db', pool')"
    and "migrate sha256 decode execute dir lock_error2 connect_error2 commit_ok2 envs2 pool2 db' = (r2, db2, pool3)"
  shows "db2 = db' \<and> (\<forall>res2. r2 = Inr res2 \<longrightarrow> rr_applied res2 = [])"
proof -
  note shape = discover_shape [OF assms(1,2)]
  have "applied_upto execute d0 ms (length ms) db'"
    using migrate_refines_prefix [OF assms(1-4)] by blast
  then have rec: "reconcile ms (sort_key lr_filename (md_ledger db')) = Inr []"
    using reconcile_upto [of execute d0 ms "length ms" db'] shape by simp
  have "read_ledger connect_error2 commit_ok2 pool2 db' = Inr a \<Longrightarrow> a = sort_key lr_filename (md_ledger db')" for a
    by (auto simp: read_ledger_def raisingE_Inr transaction_def Let_def split: if_splits option.splits)
  then show ?thesis
    using assms(5) rec by (auto simp: migrate_def assms(1) bindE_def split: option.splits sum.splits)
qed

section \<open>Two migrations\<close>

definition sample_dir :: sql_dir where
  "sample_dir =
     [(''2.sql'', ''B''), (''1.sql'', ''--x'' @ [CHR 10] @ ''BEGIN; A; COMMIT;''), (''x.md'', ''t'')]"

definition sample_execute :: "str \<Rightarrow> str list \<Rightarrow> str list option" where
  "sample_execute body d = Some (d @ [body])"

definition sample_step :: "nat \<Rightarrow> step_env" where
  "sample_step i = \<lparr>se_lock_held = True, se_connect_error = None, se_commit_ok = True, se_duration_ms = 5\<rparr>"

definition sample_slots :: slots where
  "sample_slots = \<lparr>sl_size = 2, sl_free = 2\<rparr>"

definition fresh_db :: "str list mig_db" where
  "fresh_db = \<lparr>md_schema = [], md_ledger = []\<rparr>"

definition sample_migrate :: "str list mig_db \<Rightarrow> (mig_exc + run_result) \<times> str list mig_db \<times> slots" where
  "sample_migrate db = migrate (\<lambda>s. ''h'' @ s) Some sample_execute sample_dir None None True sample_step sample_slots db"

definition migrated_db :: "str list mig_db" where
  "migrated_db = fst (snd (sample_migrate fresh_db))"

lemma strip_outer_transaction_samples:
  "strip_outer_transaction ''BEGIN; A; COMMIT;'' = Inr ''A;''"
  "strip_outer_transaction ''begin; A;'' = Inl (MigrationError ''migration opens a transaction it never commits'')"
  "strip_outer_transaction ''A; COMMIT; B'' = Inl (MigrationError ''migration contains transaction control'')"
  "strip_outer_transaction ''F $x$BEGIN$x$'' = Inr ''F $x$BEGIN$x$''"
  by code_simp+

lemma sample_dir_distinct: "distinct (map fst sample_dir)"
  by code_simp

definition sample_migrations :: "migration list" where
  "sample_migrations = (case discover (\<lambda>s. ''h'' @ s) Some sample_dir of Inr ms \<Rightarrow> ms | Inl _ \<Rightarrow> [])"

lemma sample_discover: "discover (\<lambda>s. ''h'' @ s) Some sample_dir = Inr sample_migrations"
  by code_simp

lemma fresh_db_upto: "applied_upto sample_execute [] ms 0 fresh_db"
  by (simp add: applied_upto_def fresh_db_def)

lemma sample_migrate_Inr: "\<exists>res. fst (sample_migrate fresh_db) = Inr res"
proof -
  have "case fst (sample_migrate fresh_db) of Inl _ \<Rightarrow> False | Inr _ \<Rightarrow> True" by code_simp
  then show ?thesis by (auto split: sum.splits)
qed

theorem reconcile_iff_witness:
  "distinct (map mg_filename sample_migrations) \<and> reconcile sample_migrations [] = Inr sample_migrations"
proof -
  have "distinct (map mg_filename sample_migrations)" by code_simp
  then show ?thesis by (simp add: reconcile_iff)
qed

theorem migrate_refines_prefix_witness:
  "\<exists>k'. applied_upto sample_execute [] sample_migrations k' migrated_db \<and> k' = length sample_migrations"
proof -
  obtain res where "fst (sample_migrate fresh_db) = Inr res" using sample_migrate_Inr ..
  then have "migrate (\<lambda>s. ''h'' @ s) Some sample_execute sample_dir None None True sample_step sample_slots fresh_db =
      (Inr res, migrated_db, snd (snd (sample_migrate fresh_db)))"
    by (metis migrated_db_def sample_migrate_def prod.collapse)
  from migrate_refines_prefix [OF sample_discover sample_dir_distinct fresh_db_upto this] show ?thesis by blast
qed

theorem migrate_idempotent_witness:
  "fst (snd (sample_migrate migrated_db)) = migrated_db \<and> md_schema migrated_db \<noteq> []"
proof -
  obtain res where "fst (sample_migrate fresh_db) = Inr res" using sample_migrate_Inr ..
  then have first: "migrate (\<lambda>s. ''h'' @ s) Some sample_execute sample_dir None None True sample_step sample_slots fresh_db =
      (Inr res, migrated_db, snd (snd (sample_migrate fresh_db)))"
    by (metis migrated_db_def sample_migrate_def prod.collapse)
  have second: "migrate (\<lambda>s. ''h'' @ s) Some sample_execute sample_dir None None True sample_step sample_slots migrated_db =
      (fst (sample_migrate migrated_db), fst (snd (sample_migrate migrated_db)), snd (snd (sample_migrate migrated_db)))"
    by (simp add: sample_migrate_def)
  have "md_schema migrated_db \<noteq> []" by code_simp
  then show ?thesis
    using migrate_idempotent [OF sample_discover sample_dir_distinct fresh_db_upto first second] by simp
qed

end
