(* ===== verification/Durable_Store.thy ===== *)
theory Durable_Store
  imports Prelude
begin

text \<open>
  The durable store of sessions, events, job relationships and artifacts, \<^verbatim>\<open>durable_store.py\<close>.

  Every write is put on the queue of a single background thread; a step of that thread takes the oldest write and runs it as one
  transaction, with the server's clock and a fresh row id as inputs, or fails with an exception. Reads run at once. JSON columns hold the values
  themselves. The executor takes work until it is shut down with the process; a write submitted after that raises inside
  \<open>_submit_write\<close> and is lost. The connection and the log lines are left out.
\<close>

section \<open>Tables and writes\<close>

record session_row =
  se_id :: str
  se_job_id :: str
  se_parent_job_id :: "str option"
  se_parent_session_id :: "str option"
  se_agent_slug :: str
  se_status :: str
  se_workspace_root :: "str option"
  se_artifact_uris :: "str list"
  se_trace :: "pyval option"
  se_error :: "str option"
  se_started_at :: int
  se_finished_at :: "int option"

record event_row =
  ev_id :: str
  ev_job_id :: str
  ev_session_id :: "str option"
  ev_type :: str
  ev_payload :: dict
  ev_created_at :: int

record relationship_row =
  re_id :: str
  re_parent_job_id :: str
  re_child_job_id :: str
  re_parent_session_id :: "str option"
  re_child_session_id :: "str option"
  re_parent_agent_slug :: "str option"
  re_child_agent_slug :: "str option"
  re_status :: str
  re_created_at :: int

record artifact_row =
  af_id :: str
  af_job_id :: str
  af_path :: str
  af_filename :: str
  af_details :: dict
  af_created_at :: int

record durable_tables =
  dt_sessions :: "session_row list"
  dt_events :: "event_row list"
  dt_relationships :: "relationship_row list"
  dt_artifacts :: "artifact_row list"

datatype durable_write =
    Session_Create str str str "str option" "str option" "str option" str
  | Session_Finish str str "pyval option" "str list option" "str option"
  | Event_Insert str str dict "str option"
  | Relationship_Create str str "str option" "str option" "str option" "str option" str
  | Relationship_Update str str
  | Artifact_Record str str str dict

definition finish_row :: "int \<Rightarrow> str \<Rightarrow> pyval option \<Rightarrow> str list option \<Rightarrow> str option \<Rightarrow> session_row \<Rightarrow> session_row" where
  "finish_row now status trace uris err r =
     r\<lparr>se_status := status, se_finished_at := Some now,
       se_trace := (case trace of None \<Rightarrow> se_trace r | Some t \<Rightarrow> Some t),
       se_artifact_uris := (case uris of None \<Rightarrow> se_artifact_uris r | Some u \<Rightarrow> u),
       se_error := (case err of None \<Rightarrow> se_error r | Some e \<Rightarrow> Some e)\<rparr>"

text \<open>What each \<open>_do\<close> closure does to the tables.\<close>

fun run_write :: "int \<Rightarrow> str \<Rightarrow> durable_write \<Rightarrow> durable_tables \<Rightarrow> durable_tables" where
  "run_write now gid (Session_Create sid job slug pjob psid root status) t =
     (if sid \<in> se_id ` set (dt_sessions t) then t
      else t\<lparr>dt_sessions := dt_sessions t @
        [\<lparr>se_id = sid, se_job_id = job, se_parent_job_id = pjob, se_parent_session_id = psid, se_agent_slug = slug,
          se_status = status, se_workspace_root = root, se_artifact_uris = [], se_trace = None, se_error = None,
          se_started_at = now, se_finished_at = None\<rparr>]\<rparr>)"
| "run_write now gid (Session_Finish sid status trace uris err) t =
     t\<lparr>dt_sessions := map (\<lambda>r. if se_id r = sid then finish_row now status trace uris err r else r) (dt_sessions t)\<rparr>"
| "run_write now gid (Event_Insert job typ payload sid) t =
     t\<lparr>dt_events := dt_events t @
        [\<lparr>ev_id = gid, ev_job_id = job, ev_session_id = sid, ev_type = typ, ev_payload = payload, ev_created_at = now\<rparr>]\<rparr>"
| "run_write now gid (Relationship_Create pjob cjob psid csid pslug cslug status) t =
     t\<lparr>dt_relationships := dt_relationships t @
        [\<lparr>re_id = gid, re_parent_job_id = pjob, re_child_job_id = cjob, re_parent_session_id = psid, re_child_session_id = csid,
          re_parent_agent_slug = pslug, re_child_agent_slug = cslug, re_status = status, re_created_at = now\<rparr>]\<rparr>"
| "run_write now gid (Relationship_Update cjob status) t =
     t\<lparr>dt_relationships := map (\<lambda>r. if re_child_job_id r = cjob then r\<lparr>re_status := status\<rparr> else r) (dt_relationships t)\<rparr>"
| "run_write now gid (Artifact_Record job path filename details) t =
     t\<lparr>dt_artifacts := dt_artifacts t @
        [\<lparr>af_id = gid, af_job_id = job, af_path = path, af_filename = filename, af_details = details, af_created_at = now\<rparr>]\<rparr>"

section \<open>The queue\<close>

record durable_state =
  du_url_set :: bool
  du_tables_missing :: bool
  du_executor_up :: bool
  du_queue :: "durable_write list"
  du_tables :: durable_tables

definition enabled :: "durable_state \<Rightarrow> bool" where
  "enabled s \<longleftrightarrow> du_url_set s \<and> \<not> du_tables_missing s"

definition note_missing :: "str \<Rightarrow> str \<Rightarrow> durable_state \<Rightarrow> durable_state" where
  "note_missing type_name msg s =
     (if str_in ''does not exist'' (lower msg) \<or> str_in ''undefinedtable'' (lower type_name)
      then s\<lparr>du_tables_missing := True\<rparr> else s)"

text \<open>\<open>_WRITE_EXECUTOR.submit\<close>: \<open>None\<close> when it raises.\<close>

definition executor_submit :: "durable_write \<Rightarrow> durable_state \<Rightarrow> durable_state option" where
  "executor_submit wr s = (if du_executor_up s then Some (s\<lparr>du_queue := du_queue s @ [wr]\<rparr>) else None)"

definition submit_write :: "durable_write \<Rightarrow> durable_state \<Rightarrow> durable_state" where
  "submit_write wr s =
     (if \<not> enabled s then s
      else case executor_submit wr s of Some s' \<Rightarrow> s' | None \<Rightarrow> s)"

definition takes_writes :: "durable_state \<Rightarrow> bool" where
  "takes_writes s \<longleftrightarrow> enabled s \<and> du_executor_up s"

lemma submit_write_eq: "submit_write wr s = (if takes_writes s then s\<lparr>du_queue := du_queue s @ [wr]\<rparr> else s)"
  by (simp add: submit_write_def executor_submit_def takes_writes_def)

text \<open>The outcome of running a write: it commits, or raises.\<close>

datatype write_outcome = Committed int str | Write_Raised str str

definition worker_step :: "write_outcome \<Rightarrow> durable_state \<Rightarrow> durable_state" where
  "worker_step outcome s =
     (case du_queue s of
        [] \<Rightarrow> s
      | wr # q \<Rightarrow>
          (case outcome of
             Committed now gid \<Rightarrow> s\<lparr>du_queue := q, du_tables := run_write now gid wr (du_tables s)\<rparr>
           | Write_Raised type_name msg \<Rightarrow> note_missing type_name msg (s\<lparr>du_queue := q\<rparr>)))"

section \<open>The calls\<close>

definition session_create ::
  "str \<Rightarrow> str \<Rightarrow> str \<Rightarrow> str option \<Rightarrow> str option \<Rightarrow> str option \<Rightarrow> str \<Rightarrow> durable_state \<Rightarrow> str \<times> durable_state" where
  "session_create sid job slug pjob psid root status s =
     (sid, submit_write (Session_Create sid job slug pjob psid root status) s)"

definition session_finish ::
  "str \<Rightarrow> str \<Rightarrow> pyval option \<Rightarrow> str list option \<Rightarrow> str option \<Rightarrow> durable_state \<Rightarrow> durable_state" where
  "session_finish sid status trace uris err = submit_write (Session_Finish sid status trace uris err)"

definition event_insert :: "str \<Rightarrow> str \<Rightarrow> dict option \<Rightarrow> str option \<Rightarrow> durable_state \<Rightarrow> durable_state" where
  "event_insert job typ payload sid =
     submit_write (Event_Insert job typ (case payload of None \<Rightarrow> [] | Some p \<Rightarrow> p) sid)"

definition relationship_create ::
  "str \<Rightarrow> str \<Rightarrow> str option \<Rightarrow> str option \<Rightarrow> str option \<Rightarrow> str option \<Rightarrow> str \<Rightarrow> durable_state \<Rightarrow> durable_state" where
  "relationship_create pjob cjob psid csid pslug cslug status =
     submit_write (Relationship_Create pjob cjob psid csid pslug cslug status)"

definition relationship_update :: "str \<Rightarrow> str \<Rightarrow> durable_state \<Rightarrow> durable_state" where
  "relationship_update cjob status = submit_write (Relationship_Update cjob status)"

definition artifact_record :: "str \<Rightarrow> str \<Rightarrow> str \<Rightarrow> dict \<Rightarrow> durable_state \<Rightarrow> durable_state" where
  "artifact_record job path filename details = submit_write (Artifact_Record job path filename details)"

text \<open>A read returns its default while the store is disabled and when the query raises, and then it may find the tables missing.\<close>

definition read_table :: "'a \<Rightarrow> (durable_tables \<Rightarrow> 'a) \<Rightarrow> (str \<times> str) option \<Rightarrow> durable_state \<Rightarrow> 'a \<times> durable_state" where
  "read_table dflt query err s =
     (if \<not> enabled s then (dflt, s)
      else case err of
             Some (type_name, msg) \<Rightarrow> (dflt, note_missing type_name msg s)
           | None \<Rightarrow> (query (du_tables s), s))"

definition session_get :: "str \<Rightarrow> (str \<times> str) option \<Rightarrow> durable_state \<Rightarrow> session_row option \<times> durable_state" where
  "session_get sid = read_table None (\<lambda>t. find (\<lambda>r. se_id r = sid) (dt_sessions t))"

definition sessions_by_job :: "str \<Rightarrow> (str \<times> str) option \<Rightarrow> durable_state \<Rightarrow> session_row list \<times> durable_state" where
  "sessions_by_job job =
     read_table [] (\<lambda>t. sort_key se_started_at (filter (\<lambda>r. se_job_id r = job) (dt_sessions t)))"

definition event_dict :: "(int \<Rightarrow> str) \<Rightarrow> event_row \<Rightarrow> dict" where
  "event_dict isoformat r =
     foldl (\<lambda>d (k, v). dict_set d k v)
       [(''event_type'', PStr (ev_type r)), (''job_id'', PStr (ev_job_id r)), (''ts'', PStr (isoformat (ev_created_at r))),
        (''session_id'', case ev_session_id r of None \<Rightarrow> PNone | Some i \<Rightarrow> PStr i)]
       (ev_payload r)"

definition events_get :: "(int \<Rightarrow> str) \<Rightarrow> str \<Rightarrow> (str \<times> str) option \<Rightarrow> durable_state \<Rightarrow> dict list \<times> durable_state" where
  "events_get isoformat job =
     read_table [] (\<lambda>t. map (event_dict isoformat)
       (sort_key ev_created_at (sort_key ev_id (filter (\<lambda>r. ev_job_id r = job) (dt_events t)))))"

definition relationships_by_parent :: "str \<Rightarrow> (str \<times> str) option \<Rightarrow> durable_state \<Rightarrow> relationship_row list \<times> durable_state" where
  "relationships_by_parent job =
     read_table [] (\<lambda>t. sort_key re_created_at (filter (\<lambda>r. re_parent_job_id r = job) (dt_relationships t)))"

definition artifacts_by_job :: "str \<Rightarrow> (str \<times> str) option \<Rightarrow> durable_state \<Rightarrow> artifact_row list \<times> durable_state" where
  "artifacts_by_job job =
     read_table [] (\<lambda>t. sort_key af_created_at (filter (\<lambda>r. af_job_id r = job) (dt_artifacts t)))"

section \<open>Writing behind is writing in order\<close>

text \<open>The abstract specification: the accepted writes are run one after the other, each with an outcome.\<close>

definition replay_write :: "durable_write \<times> write_outcome \<Rightarrow> durable_tables \<Rightarrow> durable_tables" where
  "replay_write e t = (case snd e of Committed now gid \<Rightarrow> run_write now gid (fst e) t | Write_Raised _ _ \<Rightarrow> t)"

definition replay_log :: "durable_tables \<Rightarrow> (durable_write \<times> write_outcome) list \<Rightarrow> durable_tables" where
  "replay_log t es = foldl (\<lambda>t e. replay_write e t) t es"

datatype durable_step = Submit durable_write | Work write_outcome | Read_Failed str str | Shut_Down

fun step_state :: "durable_step \<Rightarrow> durable_state \<Rightarrow> durable_state" where
  "step_state (Submit wr) s = submit_write wr s"
| "step_state (Work out) s = worker_step out s"
| "step_state (Read_Failed type_name msg) s = (if enabled s then note_missing type_name msg s else s)"
| "step_state Shut_Down s = s\<lparr>du_executor_up := False\<rparr>"

inductive durable_run :: "durable_state \<Rightarrow> durable_step list \<Rightarrow> durable_state \<Rightarrow> bool" for s0 where
  start: "durable_run s0 [] s0"
| step: "durable_run s0 steps s \<Longrightarrow> durable_run s0 (steps @ [st]) (step_state st s)"

text \<open>The writes a run accepted, in the order of their calls, and the outcomes of the steps in which the worker found a
  write to run, in the order of these steps.\<close>

fun accepted :: "durable_state \<Rightarrow> durable_step list \<Rightarrow> durable_write list" where
  "accepted s [] = []"
| "accepted s (st # sts) =
     (case st of Submit wr \<Rightarrow> if takes_writes s then [wr] else [] | _ \<Rightarrow> []) @ accepted (step_state st s) sts"

fun worked :: "durable_state \<Rightarrow> durable_step list \<Rightarrow> write_outcome list" where
  "worked s [] = []"
| "worked s (st # sts) =
     (case st of Work out \<Rightarrow> if du_queue s = [] then [] else [out] | _ \<Rightarrow> []) @ worked (step_state st s) sts"

inductive_simps durable_run_Nil: "durable_run s0 [] s"

lemma durable_run_foldl: "durable_run s0 steps s \<Longrightarrow> s = foldl (\<lambda>s st. step_state st s) s0 steps"
  by (induction rule: durable_run.induct) simp_all

lemma accepted_append:
  "accepted s (xs @ ys) = accepted s xs @ accepted (foldl (\<lambda>s st. step_state st s) s xs) ys"
  by (induction xs arbitrary: s) (auto split: durable_step.splits)

lemma worked_append:
  "worked s (xs @ ys) = worked s xs @ worked (foldl (\<lambda>s st. step_state st s) s xs) ys"
  by (induction xs arbitrary: s) (auto split: durable_step.splits)

lemma replay_log_snoc [simp]: "replay_log t (es @ [e]) = replay_write e (replay_log t es)"
  by (simp add: replay_log_def)

text \<open>The concrete state after \<open>ws\<close> were accepted and the first of them run with the outcomes \<open>os\<close>.\<close>

definition implements :: "durable_tables \<Rightarrow> durable_write list \<Rightarrow> write_outcome list \<Rightarrow> durable_state \<Rightarrow> bool" where
  "implements t0 ws os s \<longleftrightarrow>
     length os \<le> length ws \<and> du_queue s = drop (length os) ws \<and> du_tables s = replay_log t0 (zip ws os)"

lemma note_missing_simps [simp]:
  "du_queue (note_missing n m s) = du_queue s" "du_tables (note_missing n m s) = du_tables s"
  by (simp_all add: note_missing_def)

lemma submit_implements: "implements t0 ws os s \<Longrightarrow> takes_writes s \<Longrightarrow> implements t0 (ws @ [wr]) os (submit_write wr s)"
  by (simp add: implements_def submit_write_eq zip_append1)

lemma worker_step_implements:
  assumes inv: "implements t0 ws os s" and queue: "du_queue s = wr # q"
  shows "implements t0 ws (os @ [out]) (worker_step out s)"
proof -
  have "drop (length os) ws = wr # q" and "length os \<le> length ws" using inv queue by (simp_all add: implements_def)
  then obtain us where "ws = us @ wr # q" and "length us = length os"
    by (metis append_take_drop_id length_take min_absorb2)
  then show ?thesis
    using inv queue by (cases out) (simp_all add: implements_def worker_step_def replay_write_def zip_append1)
qed

text \<open>C21. Write-behind refines writing in order. Whatever the interleaving of calls, background steps, failures, reads and the shutdown,
  the tables are what running the first of the accepted writes in the order of their calls gives, each once and with the outcome of
  the worker's step that took it, as many as the worker took steps with work to do; the queue holds exactly the others. No accepted
  write overtakes another, is run twice, or leaves the queue without having been run.\<close>

theorem durable_writes_in_order:
  assumes "durable_run s0 steps s" and "du_queue s0 = []"
  shows "length (worked s0 steps) \<le> length (accepted s0 steps) \<and>
         du_tables s = replay_log (du_tables s0) (zip (accepted s0 steps) (worked s0 steps)) \<and>
         du_queue s = drop (length (worked s0 steps)) (accepted s0 steps)"
proof -
  have "implements (du_tables s0) (accepted s0 steps) (worked s0 steps) s"
    using assms(1)
  proof (induction rule: durable_run.induct)
    case start
    then show ?case using assms(2) by (simp add: implements_def replay_log_def)
  next
    case (step steps s st)
    have acc: "accepted s0 (steps @ [st]) =
          accepted s0 steps @ (case st of Submit wr \<Rightarrow> if takes_writes s then [wr] else [] | _ \<Rightarrow> [])"
      and out: "worked s0 (steps @ [st]) =
          worked s0 steps @ (case st of Work out \<Rightarrow> if du_queue s = [] then [] else [out] | _ \<Rightarrow> [])"
      using durable_run_foldl [OF step.hyps, symmetric] by (simp_all add: accepted_append worked_append)
    show ?case
    proof (cases st)
      case (Submit wr)
      then show ?thesis
        unfolding acc out using step.IH submit_implements [OF step.IH] by (simp add: submit_write_eq)
    next
      case (Work outcome)
      then show ?thesis
        unfolding acc out using step.IH worker_step_implements [OF step.IH]
        by (cases "du_queue s") (simp_all add: worker_step_def)
    qed (unfold acc out, use step.IH in \<open>simp_all add: implements_def\<close>)
  qed
  then show ?thesis by (simp add: implements_def)
qed

definition empty_durable :: durable_state where
  "empty_durable =
     \<lparr>du_url_set = True, du_tables_missing = False, du_executor_up = True, du_queue = [],
      du_tables = \<lparr>dt_sessions = [], dt_events = [], dt_relationships = [], dt_artifacts = []\<rparr>\<rparr>"

text \<open>Three writes are accepted and two run, the second of which fails; the write after the shutdown is lost.\<close>

definition sample_steps :: "durable_step list" where
  "sample_steps =
     [Submit (Session_Create ''s1'' ''j1'' ''genesis-meta'' None None None ''ACTIVE''),
      Submit (Session_Finish ''s1'' ''COMPLETED'' None None None),
      Work (Committed 5 ''r1''), Submit (Event_Insert ''j1'' ''job.completed'' [] None), Work (Write_Raised ''OperationalError'' ''lost''),
      Shut_Down, Submit (Event_Insert ''j1'' ''late'' [] None)]"

definition sample_durable :: durable_state where
  "sample_durable = foldl (\<lambda>s st. step_state st s) empty_durable sample_steps"

lemma durable_run_exists: "durable_run s0 steps (foldl (\<lambda>s st. step_state st s) s0 steps)"
  by (induction steps rule: rev_induct) (auto intro: durable_run.intros)

theorem durable_writes_in_order_witness:
  "map se_status (dt_sessions (du_tables sample_durable)) = [''ACTIVE''] \<and>
   du_queue sample_durable = [Event_Insert ''j1'' ''job.completed'' [] None]"
proof -
  have "du_queue empty_durable = []" by (simp add: empty_durable_def)
  note run = durable_writes_in_order [OF durable_run_exists this, of sample_steps, folded sample_durable_def]
  have "map se_status (dt_sessions (replay_log (du_tables empty_durable) (zip (accepted empty_durable sample_steps) (worked empty_durable sample_steps)))) = [''ACTIVE'']"
    "drop (length (worked empty_durable sample_steps)) (accepted empty_durable sample_steps) = [Event_Insert ''j1'' ''job.completed'' [] None]"
    by code_simp+
  with run show ?thesis by simp
qed

end
