(* ===== verification/Delegation.thy ===== *)
theory Delegation
  imports Agent_Runtime Bundles Worker Durable_Store
begin

text \<open>
  Delegation from one agent to another, \<^verbatim>\<open>tools/genesis_call_tool.py\<close>.

  The bundle directory, the two fresh ids and the run of the child agent (\<open>AgentRuntime.execute_agent\<close>) are arguments; the child acts on
  the same job tables, durable store and spending ledger as its parent. \<open>db_start\<close> and \<open>db_finish\<close> say whether the job tables can be
  reached when the child is recorded and finalised. The heartbeat coroutine, which only refreshes \<open>lastHeartbeatAt\<close> of the child, runs inside
  the child's run.
\<close>

section \<open>Limits and requests\<close>

definition MAX_DELEGATION_DEPTH :: int where
  "MAX_DELEGATION_DEPTH = 3"

definition DELEGATION_TARGETS :: "(str \<times> str list) list" where [table_defs]:
  "DELEGATION_TARGETS =
     [(''genesis-meta'',
       [''genesis-research'', ''genesis-finance'', ''genesis-pricing'', ''genesis-legal'', ''genesis-analyst'', ''genesis-content'',
        ''genesis-marketing'', ''genesis-seo'', ''genesis-support''])]"

record delegation_call =
  dg_has_runtime :: bool
  dg_agent :: str
  dg_task :: str
  dg_params :: "dict option"
  dg_parent_job_id :: "str option"
  dg_session_id :: "str option"
  dg_parent_slug :: "str option"
  dg_chain :: "str list"
  dg_depth :: int
  dg_remaining_tokens :: "int option"
  dg_remaining_cents :: "int option"

text \<open>The arguments of \<open>execute_agent\<close>.\<close>

record child_request =
  cr_slug :: str
  cr_task :: str
  cr_params :: dict
  cr_job_id :: str
  cr_session_id :: str
  cr_parent_job_id :: "str option"
  cr_parent_session_id :: "str option"
  cr_chain :: "str list"
  cr_depth :: int
  cr_allowed_risks :: "risk list"
  cr_token_budget :: "int option"
  cr_cost_budget_cents :: "int option"

definition slug_or_empty :: "str option \<Rightarrow> str" where
  "slug_or_empty x = (case x of None \<Rightarrow> [] | Some s \<Rightarrow> s)"

definition targets_of :: "str \<Rightarrow> str list" where
  "targets_of slug = (case map_of DELEGATION_TARGETS slug of Some ts \<Rightarrow> ts | None \<Rightarrow> [])"

definition delegation_refused :: "str \<Rightarrow> str \<Rightarrow> dict" where
  "delegation_refused err agent = [(''ok'', PBool False), (''error'', PStr err), (''target_agent_slug'', PStr agent)]"

text \<open>The checks before a child is started: an exception, a refusal, or the request for the child.\<close>

definition delegation_request :: "bundle_dir \<Rightarrow> str \<Rightarrow> str \<Rightarrow> delegation_call \<Rightarrow> py_exc + dict + child_request" where
  "delegation_request dir cjob csid c =
     (let refuse = (\<lambda>err. Inr (Inl (delegation_refused err (dg_agent c)))) in
      if \<not> dg_has_runtime c then refuse ''no_runtime_in_context''
      else case load_bundle dir (dg_agent c) of
             None \<Rightarrow> refuse ''delegation_target_not_allowed''
           | Some b \<Rightarrow>
               bindE (as_dict TypeError b) (\<lambda>bundle.
               bindE (getitem bundle ''slug'') (\<lambda>slug.
               case slug of
                 PStr canonical_target \<Rightarrow>
                   if canonical_target \<notin> set (targets_of (slug_or_empty (dg_parent_slug c))) then refuse ''delegation_target_not_allowed''
                   else if dg_depth c \<ge> MAX_DELEGATION_DEPTH then refuse ''delegation_depth_exceeded''
                   else if canonical_target \<in> set (dg_chain c) \<or> dg_parent_slug c = Some canonical_target
                   then refuse ''delegation_cycle_detected''
                   else Inr (Inr
                     \<lparr>cr_slug = canonical_target, cr_task = dg_task c, cr_params = (case dg_params c of None \<Rightarrow> [] | Some p \<Rightarrow> p),
                      cr_job_id = cjob, cr_session_id = csid, cr_parent_job_id = dg_parent_job_id c,
                      cr_parent_session_id = dg_session_id c, cr_chain = dg_chain c @ [slug_or_empty (dg_parent_slug c)],
                      cr_depth = dg_depth c + 1, cr_allowed_risks = allowed_risks_of (slug_or_empty (dg_parent_slug c)),
                      cr_token_budget = dg_remaining_tokens c, cr_cost_budget_cents = dg_remaining_cents c\<rparr>)
               | PList _ \<Rightarrow> Inl TypeError
               | PDict _ \<Rightarrow> Inl TypeError
               | _ \<Rightarrow> refuse ''delegation_target_not_allowed'')))"

section \<open>Running the child\<close>

record delegation_world =
  gw_jobs :: job_db
  gw_durable :: durable_state
  gw_ledger :: delegation_ledger

datatype child_outcome = Child_Returned dict | Child_Raised str str

definition persist_child_start :: "bool \<Rightarrow> int \<Rightarrow> delegation_call \<Rightarrow> str \<Rightarrow> str \<Rightarrow> delegation_world \<Rightarrow> delegation_world" where
  "persist_child_start db_up now c cjob csid w =
     (case dg_parent_job_id c of
        None \<Rightarrow> w
      | Some pjob \<Rightarrow>
          if pjob = [] then w
          else w\<lparr>gw_jobs := (if db_up then snd (create_child_job cjob now (dg_agent c) (dg_task c) pjob
                                (Some (case dg_params c of None \<Rightarrow> [] | Some p \<Rightarrow> p)) (gw_jobs w)) else gw_jobs w),
                 gw_durable := relationship_create pjob cjob (dg_session_id c) (Some csid) (dg_parent_slug c) (Some (dg_agent c))
                                 ''DISPATCHED'' (gw_durable w)\<rparr>)"

definition persist_child_finish :: "bool \<Rightarrow> int \<Rightarrow> str \<Rightarrow> bool \<Rightarrow> delegation_world \<Rightarrow> delegation_world" where
  "persist_child_finish db_up now cjob child_ok w =
     w\<lparr>gw_jobs := (if db_up then snd (update_job_status cjob (if child_ok then ''DELIVERED'' else ''FAILED'') plain_update False now (gw_jobs w))
                   else gw_jobs w),
       gw_durable := relationship_update cjob (if child_ok then ''COMPLETED'' else ''FAILED'') (gw_durable w)\<rparr>"

text \<open>\<open>int(usage.get("total_tokens", 0) or 0)\<close>; a value that does not convert skips the charge.\<close>

definition child_tokens :: "dict \<Rightarrow> int option" where
  "child_tokens result =
     (case py_or (dget result ''resource_usage'') (PDict []) of
        PDict u \<Rightarrow> py_int_of (py_or (dget_default u ''total_tokens'' (PInt 0)) (PInt 0))
      | _ \<Rightarrow> None)"

definition charge_parent :: "delegation_call \<Rightarrow> dict \<Rightarrow> delegation_world \<Rightarrow> delegation_world" where
  "charge_parent c result w =
     (case child_tokens result of
        None \<Rightarrow> w
      | Some n \<Rightarrow> w\<lparr>gw_ledger := record_delegated_spend (dg_parent_job_id c) n 0 (gw_ledger w)\<rparr>)"

definition opt_pstr :: "str option \<Rightarrow> pyval" where
  "opt_pstr x = (case x of None \<Rightarrow> PNone | Some s \<Rightarrow> PStr s)"

definition child_failed :: "delegation_call \<Rightarrow> child_request \<Rightarrow> str \<Rightarrow> str \<Rightarrow> dict" where
  "child_failed c cr type_name msg =
     [(''ok'', PBool False), (''target_agent_slug'', PStr (dg_agent c)), (''child_job_id'', PStr (cr_job_id cr)),
      (''child_session_id'', PStr (cr_session_id cr)), (''parent_session_id'', opt_pstr (dg_session_id c)),
      (''error'', PStr type_name), (''message'', PStr msg), (''agent'', PStr (dg_agent c))]"

text \<open>The part of the \<open>try\<close> after the child has returned; the result of the child may lack the shape it reads, and then the handler runs.\<close>

definition after_child :: "bool \<Rightarrow> int \<Rightarrow> delegation_call \<Rightarrow> child_request \<Rightarrow> dict \<Rightarrow> delegation_world \<Rightarrow> dict \<times> delegation_world" where
  "after_child db_up now c cr result w =
     (let child_ok = truthy (dget result ''ok'');
          w1 = persist_child_finish db_up now (cr_job_id cr) child_ok (charge_parent c result w) in
      case session_id_of result of
        Inr sid \<Rightarrow>
          ([(''ok'', PBool True), (''target_agent_slug'', PStr (dg_agent c)), (''child_job_id'', PStr (cr_job_id cr)),
            (''child_session_id'', py_or sid (PStr (cr_session_id cr))),
            (''parent_session_id'', opt_pstr (dg_session_id c)), (''child_ok'', PBool child_ok),
            (''child_response_summary'', PStr (cut 500 (py_str (dget_default result ''response'' (PStr []))))),
            (''child_trace'', dget_default result ''trace'' (PDict [])), (''agent'', PStr (dg_agent c)), (''result'', PDict result)], w1)
      | Inl (type_name, msg) \<Rightarrow>
          (child_failed c cr type_name msg, persist_child_finish db_up now (cr_job_id cr) False w1))"

definition genesis_call ::
  "bundle_dir \<Rightarrow> (child_request \<Rightarrow> delegation_world \<Rightarrow> child_outcome \<times> delegation_world) \<Rightarrow> str \<Rightarrow> str \<Rightarrow> bool \<Rightarrow> bool \<Rightarrow> int \<Rightarrow> int
     \<Rightarrow> delegation_call \<Rightarrow> delegation_world \<Rightarrow> (py_exc + dict) \<times> delegation_world" where
  "genesis_call dir execute_agent cjob csid db_start db_finish now1 now2 c w =
     (case delegation_request dir cjob csid c of
        Inl e \<Rightarrow> (Inl e, w)
      | Inr (Inl refused) \<Rightarrow> (Inr refused, w)
      | Inr (Inr cr) \<Rightarrow>
          (case execute_agent cr (persist_child_start db_start now1 c cjob csid w) of
             (Child_Returned result, w2) \<Rightarrow> (case after_child db_finish now2 c cr result w2 of (d, w3) \<Rightarrow> (Inr d, w3))
           | (Child_Raised type_name msg, w2) \<Rightarrow>
               (Inr (child_failed c cr type_name msg), persist_child_finish db_finish now2 cjob False w2)))"

section \<open>Who may delegate to whom\<close>

lemma delegation_request_cases:
  assumes "delegation_request dir cjob csid c = Inr (Inr cr)"
  obtains bd where "load_bundle dir (dg_agent c) = Some (PDict bd)" and "getitem bd ''slug'' = Inr (PStr (cr_slug cr))"
    and "cr_slug cr \<in> set (targets_of (slug_or_empty (dg_parent_slug c)))" and "dg_depth c < MAX_DELEGATION_DEPTH"
    and "cr_slug cr \<notin> set (dg_chain c)" and "dg_parent_slug c \<noteq> Some (cr_slug cr)"
    and "cr_chain cr = dg_chain c @ [slug_or_empty (dg_parent_slug c)]" and "cr_depth cr = dg_depth c + 1"
    and "cr_allowed_risks cr = allowed_risks_of (slug_or_empty (dg_parent_slug c))"
    and "cr_token_budget cr = dg_remaining_tokens c" and "cr_cost_budget_cents cr = dg_remaining_cents c"
proof -
  obtain b where load: "load_bundle dir (dg_agent c) = Some b"
    using assms by (auto simp: delegation_request_def Let_def split: if_splits option.splits)
  obtain bd slug where b: "b = PDict bd" and slug: "getitem bd ''slug'' = Inr slug"
    using assms load
    by (cases b; cases "getitem (dict_of b) ''slug''") (auto simp: delegation_request_def Let_def as_dict_def bindE_def dict_of_def split: if_splits)
  obtain t where t: "slug = PStr t"
    using assms load b slug by (cases slug) (auto simp: delegation_request_def Let_def as_dict_def bindE_def split: if_splits)
  have guards: "t \<in> set (targets_of (slug_or_empty (dg_parent_slug c)))" "dg_depth c < MAX_DELEGATION_DEPTH"
    "t \<notin> set (dg_chain c)" "dg_parent_slug c \<noteq> Some t"
    using assms load b slug t by (simp_all add: delegation_request_def Let_def as_dict_def bindE_def split: if_splits)
  then have "cr = \<lparr>cr_slug = t, cr_task = dg_task c, cr_params = (case dg_params c of None \<Rightarrow> [] | Some p \<Rightarrow> p),
      cr_job_id = cjob, cr_session_id = csid, cr_parent_job_id = dg_parent_job_id c,
      cr_parent_session_id = dg_session_id c, cr_chain = dg_chain c @ [slug_or_empty (dg_parent_slug c)],
      cr_depth = dg_depth c + 1, cr_allowed_risks = allowed_risks_of (slug_or_empty (dg_parent_slug c)),
      cr_token_budget = dg_remaining_tokens c, cr_cost_budget_cents = dg_remaining_cents c\<rparr>"
    using assms load b slug t by (simp add: delegation_request_def Let_def as_dict_def bindE_def split: if_splits)
  then show thesis using load b slug t guards by (intro that) simp_all
qed

lemma targets_do_not_delegate: "t \<in> set (targets_of slug) \<Longrightarrow> targets_of t = []"
proof -
  have all: "list_all (\<lambda>(_, ts). list_all (\<lambda>t. targets_of t = []) ts) DELEGATION_TARGETS" by code_simp
  assume "t \<in> set (targets_of slug)"
  then obtain ts where "(slug, ts) \<in> set DELEGATION_TARGETS" and "t \<in> set ts"
    by (cases "map_of DELEGATION_TARGETS slug") (auto simp: targets_of_def dest: map_of_SomeD)
  with all show "targets_of t = []" by (auto simp: list_all_iff)
qed

text \<open>C34. An agent delegates only to the targets listed for it, below the depth limit and outside its own chain; the child runs one level
  deeper, with the parent appended to its chain, the parent's risk classes as its ceiling and what is left of the parent's budgets. No
  child can delegate further: every request it makes is refused, so a tree of delegations is one level high.\<close>

theorem delegation_confined:
  assumes "delegation_request dir cjob csid c = Inr (Inr cr)"
  shows "cr_slug cr \<in> set (targets_of (slug_or_empty (dg_parent_slug c))) \<and> cr_slug cr \<notin> set (cr_chain cr) \<and>
         cr_depth cr = dg_depth c + 1 \<and> cr_depth cr \<le> MAX_DELEGATION_DEPTH \<and>
         cr_allowed_risks cr = allowed_risks_of (slug_or_empty (dg_parent_slug c)) \<and>
         cr_token_budget cr = dg_remaining_tokens c \<and> cr_cost_budget_cents cr = dg_remaining_cents c \<and>
         (\<forall>dir' cjob' csid' c' cr'. dg_parent_slug c' = Some (cr_slug cr) \<longrightarrow> delegation_request dir' cjob' csid' c' \<noteq> Inr (Inr cr'))"
proof -
  have "targets_of [] = []" by code_simp
  then have other: "t \<in> set (targets_of (slug_or_empty (dg_parent_slug c))) \<Longrightarrow> dg_parent_slug c \<noteq> Some t \<Longrightarrow>
      t \<noteq> slug_or_empty (dg_parent_slug c)" for t
    by (auto simp: slug_or_empty_def split: option.splits)
  have leaf: "delegation_request dir' cjob' csid' c' \<noteq> Inr (Inr cr')"
    if "t \<in> set (targets_of s)" "dg_parent_slug c' = Some t" for dir' cjob' csid' c' cr' s t
    using targets_do_not_delegate [OF that(1)] that(2) by (auto simp: slug_or_empty_def elim!: delegation_request_cases)
  show ?thesis
    by (rule delegation_request_cases [OF assms]) (use other leaf in auto)
qed

section \<open>What a delegation leaves behind\<close>

text \<open>A refused delegation changes nothing.\<close>

lemma refused_delegation_inert:
  assumes "delegation_request dir cjob csid c = Inr (Inl refused)"
  shows "genesis_call dir execute_agent cjob csid db1 db2 now1 now2 c w = (Inr refused, w)"
  by (simp add: genesis_call_def assms)

lemma persist_child_finish_ledger [simp]: "gw_ledger (persist_child_finish db now cjob ok w) = gw_ledger w"
  by (simp add: persist_child_finish_def)

lemma after_child_ledger: "gw_ledger (snd (after_child db now c cr result w)) = gw_ledger (charge_parent c result w)"
  by (simp add: after_child_def Let_def split: sum.splits prod.splits)

text \<open>The tokens a child reports are taken from what is left for its next sibling, never below zero; the cents are not: the
  cost ceiling a parent hands out is the same after any number of children.\<close>

theorem delegation_charges_tokens_only:
  assumes "delegation_request dir cjob csid c = Inr (Inr cr)" and "dg_parent_job_id c = Some p" and "p \<noteq> []"
    and "execute_agent cr (persist_child_start db1 now1 c cjob csid w) = (Child_Returned result, w2)"
    and "gw_ledger w2 = gw_ledger w" and "child_tokens result = Some used"
    and "genesis_call dir execute_agent cjob csid db1 db2 now1 now2 c w = (r, w')"
  shows "remaining_delegation_budget (gw_ledger w') p token_budget total_tokens cents =
         (max 0 (token_budget - total_tokens - spent (dl_tokens (gw_ledger w)) p - max 0 used),
          snd (remaining_delegation_budget (gw_ledger w) p token_budget total_tokens cents))"
proof -
  have "w' = snd (after_child db2 now2 c cr result w2)"
    using assms(7) by (auto simp: genesis_call_def assms(1,4) split: prod.splits)
  then have "gw_ledger w' = record_delegated_spend (Some p) used 0 (gw_ledger w)"
    using assms(2,5,6) by (simp add: after_child_ledger charge_parent_def)
  then show ?thesis
    using assms(3) by (auto simp: remaining_delegation_budget_def record_delegated_spend_def spent_def)
qed

definition sample_bundles :: bundle_dir where
  "sample_bundles stem = (if stem = ''genesis-research'' then Some (Some (PDict [(''slug'', PStr ''genesis-research'')])) else None)"

definition sample_delegation :: delegation_call where
  "sample_delegation =
     \<lparr>dg_has_runtime = True, dg_agent = ''genesis_research'', dg_task = ''find'', dg_params = None, dg_parent_job_id = Some ''j1'',
      dg_session_id = Some ''s1'', dg_parent_slug = Some ''genesis-meta'', dg_chain = [''genesis-meta''], dg_depth = 0,
      dg_remaining_tokens = Some 900, dg_remaining_cents = Some 50\<rparr>"

definition sample_child :: "child_request \<Rightarrow> delegation_world \<Rightarrow> child_outcome \<times> delegation_world" where
  "sample_child cr w =
     (Child_Returned [(''ok'', PBool True), (''response'', PStr ''found''),
        (''resource_usage'', PDict [(''total_tokens'', PInt 300)]), (''trace'', PDict [])], w)"

definition sample_world :: delegation_world where
  "sample_world = \<lparr>gw_jobs = \<lparr>db_jobs = [], db_events = []\<rparr>, gw_durable = empty_durable, gw_ledger = \<lparr>dl_tokens = [], dl_cents = []\<rparr>\<rparr>"

lemma sample_delegation_request:
  obtains cr where "delegation_request sample_bundles ''child-1'' ''cs1'' sample_delegation = Inr (Inr cr)" and "cr_slug cr = ''genesis-research''"
proof -
  have "case delegation_request sample_bundles ''child-1'' ''cs1'' sample_delegation of
      Inr (Inr cr) \<Rightarrow> cr_slug cr = ''genesis-research'' | _ \<Rightarrow> False" by code_simp
  then show ?thesis using that by (auto split: sum.splits)
qed

theorem delegation_confined_witness:
  "\<exists>cr. delegation_request sample_bundles ''child-1'' ''cs1'' sample_delegation = Inr (Inr cr) \<and>
        cr_slug cr = ''genesis-research'' \<and> cr_depth cr = 1 \<and> cr_token_budget cr = Some 900"
proof -
  obtain cr where cr: "delegation_request sample_bundles ''child-1'' ''cs1'' sample_delegation = Inr (Inr cr)" "cr_slug cr = ''genesis-research''"
    by (rule sample_delegation_request)
  show ?thesis using delegation_confined [OF cr(1)] cr by (auto simp: sample_delegation_def)
qed

theorem delegation_charges_tokens_only_witness:
  "remaining_delegation_budget
     (gw_ledger (snd (genesis_call sample_bundles sample_child ''child-1'' ''cs1'' True True 1 2 sample_delegation sample_world)))
     ''j1'' 1000 100 50 = (600, 50)"
proof -
  obtain cr where cr: "delegation_request sample_bundles ''child-1'' ''cs1'' sample_delegation = Inr (Inr cr)"
    by (rule sample_delegation_request)
  define w1 where "w1 = persist_child_start True 1 sample_delegation ''child-1'' ''cs1'' sample_world"
  obtain result where run: "sample_child cr w1 = (Child_Returned result, w1)" and used: "child_tokens result = Some 300"
    by (simp add: sample_child_def child_tokens_def dget_def dget_default_def py_or_def)
  have same: "gw_ledger w1 = gw_ledger sample_world"
    by (simp add: w1_def persist_child_start_def sample_delegation_def)
  have p: "dg_parent_job_id sample_delegation = Some ''j1''" "''j1'' \<noteq> []" by (simp_all add: sample_delegation_def)
  show ?thesis
    using delegation_charges_tokens_only
      [where execute_agent = sample_child, OF cr p run [unfolded w1_def] same [unfolded w1_def] used, of True 2 "fst (genesis_call sample_bundles sample_child ''child-1'' ''cs1'' True True 1 2 sample_delegation sample_world)"
        "snd (genesis_call sample_bundles sample_child ''child-1'' ''cs1'' True True 1 2 sample_delegation sample_world)" 1000 100 50]
    by (simp add: sample_world_def spent_def remaining_delegation_budget_def)
qed

end
