(* ===== verification/Gateway.thy ===== *)
theory Gateway
  imports Request_Auth Worker Audit_Log
begin

text \<open>
  The authenticated job routes of the HTTP gateway, \<^verbatim>\<open>main.py\<close>: the dependencies that authenticate a caller, the boot assertions, and the
  routes that submit, read, dispute and close a job.

  A route is a function of the request's headers and body and of the state it touches; a dependency FastAPI resolves before the handler is
  called first. Cryptography, URL parsing, the JSON parser and the clock are arguments, collected in \<open>auth_ops\<close>. The body of a
  submission is read at the types of its columns: what the database driver makes of a value of another JSON type is not modelled, and
  such a submission yields \<open>Ill_Typed\<close>.
\<close>

section \<open>Requests\<close>

datatype gw_exc =
    HTTPException int pyval
  | Gw_Python py_exc
  | Gw_Store store_error
  | Gw_Auth str
  | Ill_Typed

record headers =
  hd_ap2_version :: "str option"
  hd_ap2_pubkey :: "str option"
  hd_api_key :: "str option"
  hd_gateway_secret :: "str option"
  hd_principal_token :: "str option"
  hd_internal_secret :: "str option"

record auth_ops =
  ao_ed25519 :: "str \<Rightarrow> str \<Rightarrow> str \<Rightarrow> bool"
  ao_hmac256 :: "str \<Rightarrow> str \<Rightarrow> str"
  ao_b64 :: "str \<Rightarrow> str"
  ao_unb64 :: "str \<Rightarrow> str option"
  ao_loads :: "str \<Rightarrow> pyval option"
  ao_fromiso :: "str \<Rightarrow> (bool \<times> int) option"
  ao_registry :: dict
  ao_env :: env
  ao_store :: store_env

definition http :: "int \<Rightarrow> str \<Rightarrow> gw_exc" where
  "http status detail = HTTPException status (PStr detail)"

definition opt_header :: "str option \<Rightarrow> str" where
  "opt_header h = (case h of None \<Rightarrow> [] | Some s \<Rightarrow> s)"

text \<open>\<open>except AuthenticationError as exc: raise HTTPException(401)\<close>; other exceptions are not caught.\<close>

fun as_401 :: "auth_exc \<Rightarrow> gw_exc" where
  "as_401 (AuthenticationError msg) = http 401 msg"
| "as_401 (Auth_Store err) = Gw_Store err"
| "as_401 (Auth_Python err) = Gw_Python err"

section \<open>Authentication\<close>

definition verify_gateway_key :: "env \<Rightarrow> headers \<Rightarrow> gw_exc + unit" where
  "verify_gateway_key e h =
     (case e ''GATEWAY_API_KEY'' of
        None \<Rightarrow> Inl (http 503 ''Gateway authentication is not configured'')
      | Some expected \<Rightarrow>
          if expected = [] then Inl (http 503 ''Gateway authentication is not configured'')
          else bindE (raisingE Gw_Python (compare_digest (opt_header (hd_api_key h)) expected)) (\<lambda>same.
               if same then Inr ()
               else let secret = opt_header (e ''AGENT_GATEWAY_SECRET'') in
                    if secret = [] then Inl (http 401 ''Invalid or missing X-Agent-Api-Key'')
                    else bindE (raisingE Gw_Python (compare_digest (opt_header (hd_gateway_secret h)) secret)) (\<lambda>same2.
                         guardE same2 (http 401 ''Invalid or missing X-Agent-Api-Key'') (Inr ()))))"

text \<open>Python's \<open>==\<close>: dictionaries compare without regard to order, numbers by value. Two floats are compared by their shortest decimal
  forms.\<close>

definition num_eq :: "pyval \<Rightarrow> pyval \<Rightarrow> bool" where
  "num_eq a b =
     (case (number_of a, number_of b) of
        (Some (m, k), Some (n, l)) \<Rightarrow> m * 10 ^ l = n * 10 ^ k
      | _ \<Rightarrow> False)"

function py_eq :: "pyval \<Rightarrow> pyval \<Rightarrow> bool" where
  "py_eq (PStr s) b \<longleftrightarrow> b = PStr s"
| "py_eq PNone b \<longleftrightarrow> b = PNone"
| "py_eq (PList xs) b \<longleftrightarrow>
     (case b of PList ys \<Rightarrow> length xs = length ys \<and> list_all (\<lambda>(x, y). py_eq x y) (zip xs ys) | _ \<Rightarrow> False)"
| "py_eq (PDict d) b \<longleftrightarrow>
     (case b of
        PDict e \<Rightarrow> length d = length e \<and>
          list_all (\<lambda>(k, v). case map_of e k of Some w \<Rightarrow> py_eq v w | None \<Rightarrow> False) d
      | _ \<Rightarrow> False)"
| "py_eq (PInt i) b \<longleftrightarrow> num_eq (PInt i) b"
| "py_eq (PBool t) b \<longleftrightarrow> num_eq (PBool t) b"
| "py_eq (PFloat r) b \<longleftrightarrow> num_eq (PFloat r) b"
  by pat_completeness auto
termination
proof (relation "measure (\<lambda>(a, b). size a)", goal_cases)
  case 1
  then show ?case by simp
next
  case (2 xs b ys z x y)
  then have "x \<in> set xs" by (auto dest: set_zip_leftD)
  then show ?case by (simp add: less_Suc_eq_le size_list_estimation')
next
  case (3 d b e z k v w)
  then have "(k, v) \<in> set d" by simp
  then have "size v \<le> size_list (size_prod (\<lambda>x. 0) size) d"
    by (auto intro: size_list_estimation')
  then show ?case by simp
qed

definition assert_envelope_binds_request :: "dict \<Rightarrow> str \<Rightarrow> auth_exc + unit" where
  "assert_envelope_binds_request body route_slug =
     bindE (as_dict (AuthenticationError ''ap2_envelope_invalid'') (py_or (dget body ''payload'') (PDict []))) (\<lambda>payload.
     guardE (eq_text (dget payload ''agent'') (PStr route_slug)) (AuthenticationError ''ap2_agent_mismatch'')
    (guardE (eq_text (dget payload ''task'') (dget body ''prompt'')) (AuthenticationError ''ap2_task_mismatch'')
    (bindE (as_dict (AuthenticationError ''ap2_params_invalid'') (py_or (dget body ''task'') (PDict []))) (\<lambda>runtime_task.
     bindE (as_dict (AuthenticationError ''ap2_params_invalid'') (py_or (dget payload ''params'') (PDict []))) (\<lambda>signed_params.
     let unsigned_runtime = (if map_of signed_params ''description'' = None then dict_pop runtime_task ''description'' else runtime_task) in
     guardE (py_eq (PDict unsigned_runtime) (PDict signed_params)) (AuthenticationError ''ap2_params_mismatch'') (Inr ()))))))"

definition verify_agent_principal ::
  "auth_ops \<Rightarrow> int \<Rightarrow> int \<Rightarrow> headers \<Rightarrow> str \<Rightarrow> dict \<Rightarrow> nonce_store \<Rightarrow> (gw_exc + principal) \<times> nonce_store" where
  "verify_agent_principal ao current wall h slug body st =
     (if opt_header (hd_ap2_version h) \<noteq> [] \<or> opt_header (hd_ap2_pubkey h) \<noteq> [] then
        (case verify_ap2_envelope (ao_ed25519 ao) (ao_fromiso ao) (ao_registry ao) (ao_store ao) st current wall body
                (hd_ap2_version h) (hd_ap2_pubkey h) ''agent.invoke'' of
           Inl err \<Rightarrow> (Inl (as_401 err), st)
         | Inr (p, st') \<Rightarrow>
             (case assert_envelope_binds_request body slug of
                Inl err \<Rightarrow> (Inl (as_401 err), st')
              | Inr _ \<Rightarrow> (Inr p, st')))
      else (bindE (verify_gateway_key (ao_env ao) h) (\<lambda>_. Inr (legacy_gateway_principal current)), st))"

definition verify_continuation_principal :: "auth_ops \<Rightarrow> int \<Rightarrow> headers \<Rightarrow> gw_exc + principal" where
  "verify_continuation_principal ao current h =
     (if opt_header (hd_principal_token h) \<noteq> [] then
        raisingE as_401 (verify_principal_token (ao_hmac256 ao) (ao_unb64 ao) (ao_loads ao) None (ao_env ao) current
                           (opt_header (hd_principal_token h)))
      else bindE (verify_gateway_key (ao_env ao) h) (\<lambda>_. Inr (legacy_gateway_principal current)))"

definition require_admin :: "auth_ops \<Rightarrow> int \<Rightarrow> headers \<Rightarrow> gw_exc + unit" where
  "require_admin ao current h =
     bindE (verify_continuation_principal ao current h) (\<lambda>p.
     guardE (has_scope p ''admin'') (http 403 ''admin access required'') (Inr ()))"

definition require_internal_secret :: "env \<Rightarrow> headers \<Rightarrow> gw_exc + unit" where
  "require_internal_secret e h =
     (let expected = opt_header (e ''INTERNAL_SECRET'') in
      guardE (expected \<noteq> []) (http 503 ''INTERNAL_SECRET not configured on this service'')
     (guardE (hd_internal_secret h = Some expected) (http 401 ''Invalid or missing X-Internal-Secret'') (Inr ())))"

section \<open>Boot\<close>

definition assert_gateway_key_configured :: "env \<Rightarrow> py_exc + unit" where
  "assert_gateway_key_configured e =
     guardE (opt_header (e ''GATEWAY_API_KEY'') \<noteq> []) (RuntimeError ''GATEWAY_API_KEY is not set'') (Inr ())"

definition REQUIRED_AUTH_ENV :: "(str \<times> nat) list" where
  "REQUIRED_AUTH_ENV = [(''GENESIS_AUTH_DB_PATH'', 1), (''GENESIS_PRINCIPAL_TOKEN_KEY'', 32), (''GENESIS_ACTION_GRANT_KEY'', 32)]"

definition SQLITE_ONLY_AUTH_ENV :: "str list" where
  "SQLITE_ONLY_AUTH_ENV = [''GENESIS_AUTH_DB_PATH'']"

definition missing_auth_env :: "bool \<Rightarrow> env \<Rightarrow> str list" where
  "missing_auth_env on_postgres e =
     map fst (filter (\<lambda>(name, minimum). \<not> (on_postgres \<and> name \<in> set SQLITE_ONLY_AUTH_ENV) \<and> length (strip (opt_header (e name))) < minimum)
                REQUIRED_AUTH_ENV)"

text \<open>\<open>tables\<close> is what the probe of the Postgres catalogue reads.\<close>

definition assert_auth_material_configured :: "auth_ops \<Rightarrow> str + str list \<Rightarrow> gw_exc + unit" where
  "assert_auth_material_configured ao tables =
     bindE (raisingE Gw_Store (se_postgres (ao_store ao))) (\<lambda>on_postgres.
     guardE (missing_auth_env on_postgres (ao_env ao) = [])
       (Gw_Python (RuntimeError ''Refusing to start: signed-identity configuration is incomplete''))
    (if on_postgres then
       guardE (fst (store_is_usable tables)) (Gw_Python (RuntimeError ''Refusing to start: the Postgres state store is not usable'')) (Inr ())
     else guardE (\<not> isl (auth_db_is_usable (ao_store ao)))
       (Gw_Python (RuntimeError ''Refusing to start: the AP2 nonce store cannot be opened for writing'')) (Inr ())))"

section \<open>Who may read a job\<close>

definition opt_val_str :: "str option \<Rightarrow> pyval" where
  "opt_val_str v = (case v of None \<Rightarrow> PNone | Some s \<Rightarrow> PStr s)"

definition opt_val_int :: "int option \<Rightarrow> pyval" where
  "opt_val_int v = (case v of None \<Rightarrow> PNone | Some i \<Rightarrow> PInt i)"

text \<open>A row as \<open>dict_row\<close> returns it, its timestamps in ISO form.\<close>

definition job_dict :: "(int \<Rightarrow> str) \<Rightarrow> job \<Rightarrow> dict" where
  "job_dict isoformat j =
     (let time = (\<lambda>t. case t of None \<Rightarrow> PNone | Some i \<Rightarrow> PStr (isoformat i)) in
      [(''id'', PStr (j_id j)), (''agentSlug'', PStr (j_agentSlug j)), (''buyerWalletId'', opt_val_str (j_buyerWalletId j)),
       (''buyerClientId'', opt_val_str (j_buyerClientId j)), (''tenantId'', opt_val_str (j_tenantId j)),
       (''ownerPrincipalId'', opt_val_str (j_ownerPrincipalId j)), (''prompt'', PStr (j_prompt j)), (''params'', PDict (j_params j)),
       (''status'', PStr (j_status j)), (''priceTierCents'', opt_val_int (j_priceTierCents j)),
       (''idempotencyKey'', opt_val_str (j_idempotencyKey j)), (''webhookUrl'', opt_val_str (j_webhookUrl j)),
       (''webhookSecret'', opt_val_str (j_webhookSecret j)), (''escrowId'', opt_val_str (j_escrowId j)),
       (''outputArtifactUris'', PList (map PStr (j_outputArtifactUris j))), (''resultSummary'', opt_val_str (j_resultSummary j)),
       (''errorCode'', opt_val_str (j_errorCode j)), (''errorMessage'', opt_val_str (j_errorMessage j)),
       (''startedAt'', time (j_startedAt j)), (''completedAt'', time (j_completedAt j)), (''lastHeartbeatAt'', time (j_lastHeartbeatAt j)),
       (''createdAt'', PStr (isoformat (j_createdAt j))), (''updatedAt'', PStr (isoformat (j_updatedAt j)))])"

definition require_owned_job :: "(int \<Rightarrow> str) \<Rightarrow> principal \<Rightarrow> job option \<Rightarrow> str \<Rightarrow> gw_exc + job" where
  "require_owned_job isoformat p row scope =
     bindE (optE (http 404 ''job not found'') row) (\<lambda>j.
     guardE (has_scope p scope) (http 403 ''principal scope denied'')
    (bindE (raisingE Gw_Python (owns_resource p (Some (job_dict isoformat j)))) (\<lambda>own.
     guardE own (http 403 ''resource owner mismatch'') (Inr j))))"

definition authorize_job_read :: "(int \<Rightarrow> str) \<Rightarrow> bool \<Rightarrow> principal \<Rightarrow> str \<Rightarrow> str \<Rightarrow> job_db \<Rightarrow> gw_exc + unit" where
  "authorize_job_read isoformat store_ok p job_id scope db =
     (if auth_method p = ''legacy_gateway'' then Inr ()
      else guardE store_ok (http 503 ''job_store unavailable'')
          (bindE (require_owned_job isoformat p (get_job job_id db) scope) (\<lambda>_. Inr ())))"

definition get_job_status :: "auth_ops \<Rightarrow> (int \<Rightarrow> str) \<Rightarrow> bool \<Rightarrow> int \<Rightarrow> headers \<Rightarrow> str \<Rightarrow> job_db \<Rightarrow> gw_exc + dict" where
  "get_job_status ao isoformat store_ok now h job_id db =
     bindE (verify_continuation_principal ao now h) (\<lambda>p.
     guardE store_ok (http 503 ''job_store unavailable'')
    (bindE (require_owned_job isoformat p (get_job job_id db) ''job.read'') (\<lambda>j.
     Inr (job_dict isoformat j))))"

section \<open>Submitting a job\<close>

definition SSRF_BLOCKED_PREFIXES :: "str list" where
  "SSRF_BLOCKED_PREFIXES =
     [''localhost'', ''127.'', ''0.'', ''10.'', ''192.168.'', ''172.16.'', ''172.17.'', ''172.18.'', ''172.19.'', ''172.20.'', ''172.21.'',
      ''172.22.'', ''172.23.'', ''172.24.'', ''172.25.'', ''172.26.'', ''172.27.'', ''172.28.'', ''172.29.'', ''172.30.'', ''172.31.'',
      ''::1'', ''fe80:'']"

definition rstrip_dots :: "str \<Rightarrow> str" where
  "rstrip_dots s = rev (dropWhile (\<lambda>c. c = CHR ''.'') (rev s))"

text \<open>\<open>hostname\<close> is \<open>urlparse(url).hostname\<close>.\<close>

definition assert_not_ssrf :: "(str \<Rightarrow> str option) \<Rightarrow> str \<Rightarrow> gw_exc + unit" where
  "assert_not_ssrf hostname url =
     (let host = lower (opt_header (hostname url)) in
      guardE (\<not> list_ex (\<lambda>blocked. host = rstrip_dots blocked \<or> startswith host blocked) SSRF_BLOCKED_PREFIXES)
        (http 400 (''Blocked: URL host '' @ repr_str host @ '' resolves to a private/loopback address'')) (Inr ()))"

text \<open>The fields of a submission at their types.\<close>

fun str_field :: "pyval \<Rightarrow> str option option" where
  "str_field PNone = Some None"
| "str_field (PStr s) = Some (Some s)"
| "str_field _ = None"

fun int_opt_field :: "pyval \<Rightarrow> int option option" where
  "int_opt_field PNone = Some None"
| "int_opt_field (PInt i) = Some (Some i)"
| "int_opt_field _ = None"

definition text_field :: "pyval \<Rightarrow> str option" where
  "text_field v = (case v of PStr s \<Rightarrow> Some s | _ \<Rightarrow> None)"

definition dict_field :: "pyval \<Rightarrow> dict option" where
  "dict_field v = (case v of PDict d \<Rightarrow> Some d | _ \<Rightarrow> None)"

definition submitted_request :: "principal \<Rightarrow> str \<Rightarrow> dict \<Rightarrow> job_request option" where
  "submitted_request p slug body =
     Option.bind (text_field (dget_default body ''prompt'' (PStr []))) (\<lambda>prompt.
     Option.bind (dict_field (dget_default body ''params'' (PDict []))) (\<lambda>params.
     Option.bind (str_field (dget body ''idempotency_key'')) (\<lambda>key.
     Option.bind (str_field (py_or (dget body ''webhook_url'') (dget body ''callback_url''))) (\<lambda>webhook.
     Option.bind (int_opt_field (dget body ''price_tier_cents'')) (\<lambda>price.
     Option.bind (str_field (dget body ''escrow_id'')) (\<lambda>escrow.
     Option.bind (str_field (dget body ''client_id'')) (\<lambda>client.
     Some \<lparr>rq_agent_slug = slug, rq_prompt = prompt, rq_params = Some params, rq_buyer_wallet_id = None, rq_buyer_client_id = client,
           rq_price_tier_cents = price, rq_idempotency_key = key, rq_webhook_url = webhook, rq_webhook_secret = None,
           rq_escrow_id = escrow, rq_tenant_id = Some (tenant_id p), rq_owner_principal_id = Some (principal_id p)\<rparr>)))))))"

definition submit_payload :: "create_result \<Rightarrow> str option \<Rightarrow> dict" where
  "submit_payload r escrow =
     [(''job_id'', PStr (cr_id r)), (''status'', PStr (cr_status r)), (''poll_url'', PStr (''/agents/jobs/'' @ cr_id r)),
      (''idempotent_hit'', PBool (cr_idempotent_hit r))]
     @ (case escrow of None \<Rightarrow> [] | Some e \<Rightarrow> if e = [] then [] else [(''external_escrow_id'', PStr e)])"

fun uncaught :: "auth_exc \<Rightarrow> gw_exc" where
  "uncaught (AuthenticationError msg) = Gw_Auth msg"
| "uncaught (Auth_Store err) = Gw_Store err"
| "uncaught (Auth_Python err) = Gw_Python err"

text \<open>What \<open>submit_job\<close> does for an authenticated principal: the answer, the tables, and whether the job is dispatched.\<close>

definition submit_for ::
  "auth_ops \<Rightarrow> (str \<Rightarrow> str option) \<Rightarrow> bool \<Rightarrow> str \<Rightarrow> int \<Rightarrow> int \<Rightarrow> principal \<Rightarrow> str \<Rightarrow> dict \<Rightarrow> job_db \<Rightarrow> (gw_exc + dict) \<times> job_db \<times> bool" where
  "submit_for ao hostname store_ok jid stamp now p slug body db =
     (if \<not> store_ok then (Inl (http 503 ''job_store unavailable''), db, False)
      else case submitted_request p slug body of
        None \<Rightarrow> (Inl Ill_Typed, db, False)
      | Some rq \<Rightarrow>
          (case (case rq_webhook_url rq of None \<Rightarrow> Inr () | Some url \<Rightarrow> if url = [] then Inr () else assert_not_ssrf hostname url) of
             Inl err \<Rightarrow> (Inl err, db, False)
           | Inr _ \<Rightarrow>
               (case create_job jid stamp rq db of
                  Inl err \<Rightarrow> (Inl (http 500 ''job_create_failed''), db, False)
                | Inr (r, db') \<Rightarrow>
                    let payload = submit_payload r (rq_escrow_id rq) in
                    if auth_method p = ''ap2'' then
                      (case issue_principal_token (ao_hmac256 ao) (ao_b64 ao) None (ao_env ao) now PRINCIPAL_TOKEN_TTL_SECONDS p of
                         Inl err \<Rightarrow> (Inl (uncaught err), db', False)
                       | Inr token \<Rightarrow> (Inr (payload @ [(''principal_token'', PStr token)]), db', \<not> cr_idempotent_hit r))
                    else (Inr payload, db', \<not> cr_idempotent_hit r))))"

definition submit_job ::
  "auth_ops \<Rightarrow> (str \<Rightarrow> str option) \<Rightarrow> bool \<Rightarrow> str \<Rightarrow> int \<Rightarrow> int \<Rightarrow> int \<Rightarrow> headers \<Rightarrow> str \<Rightarrow> dict \<Rightarrow> nonce_store \<Rightarrow> job_db
     \<Rightarrow> (gw_exc + dict) \<times> nonce_store \<times> job_db \<times> bool" where
  "submit_job ao hostname store_ok jid stamp now wall h slug body st db =
     (case verify_agent_principal ao now wall h slug body st of
        (Inl err, st') \<Rightarrow> (Inl err, st', db, False)
      | (Inr p, st') \<Rightarrow> (case submit_for ao hostname store_ok jid stamp now p slug body db of (r, db', d) \<Rightarrow> (r, st', db', d)))"

section \<open>Resolved context\<close>

definition context_item ::
  "(str \<Rightarrow> (str \<times> str) list) \<Rightarrow> ((str \<times> str) list \<Rightarrow> str) \<Rightarrow> principal \<Rightarrow> pyval \<Rightarrow> gw_exc + pyval" where
  "context_item pq ue p item =
     bindE (as_dict (http 422 ''resolved_context_invalid'') item) (\<lambda>d.
     guardE (py_str (py_or (dget d ''tenant_id'') (PStr (tenant_id p))) = tenant_id p) (http 403 ''resolved_context_tenant_mismatch'')
    (let citation = take 512 (str_or_empty (dget d ''citation''));
         content_hash = take 128 (str_or_empty (py_or (dget d ''content_sha256'') (dget d ''hash'')));
         content = take 4000 (py_str (sanitize pq ue [] (PStr (str_or_empty (dget d ''content''))))) in
     guardE (citation \<noteq> [] \<and> content_hash \<noteq> [] \<and> content \<noteq> []) (http 422 ''resolved_context_evidence_required'')
    (Inr (PDict [(''citation'', PStr citation), (''content_sha256'', PStr content_hash), (''content'', PStr content)]))))"

definition raw_context :: "dict \<Rightarrow> gw_exc + pyval list" where
  "raw_context params =
     (case dget_default params ''resolved_context'' (PList []) of
        PNone \<Rightarrow> Inr []
      | PList items \<Rightarrow> if length items > 8 then Inl (http 422 ''resolved_context_invalid'') else Inr items
      | _ \<Rightarrow> Inl (http 422 ''resolved_context_invalid''))"

definition scoped_runtime_params ::
  "(str \<Rightarrow> (str \<times> str) list) \<Rightarrow> ((str \<times> str) list \<Rightarrow> str) \<Rightarrow> pyval \<Rightarrow> principal \<Rightarrow> gw_exc + dict" where
  "scoped_runtime_params pq ue task p =
     (let params = (case task of PDict d \<Rightarrow> d | _ \<Rightarrow> []) in
      bindE (raw_context params) (\<lambda>items.
      bindE (mapE (context_item pq ue p) items) (\<lambda>clean.
      Inr (dict_pop (dict_set params ''resolved_context'' (PList clean)) ''description''))))"

section \<open>Disputes\<close>

text \<open>The entries of \<open>genesis_job_events\<close> that carry a payload and no statuses are kept apart from the status changes.\<close>

record job_note =
  nt_job_id :: str
  nt_event_type :: str
  nt_payload :: pyval
  nt_created_at :: int

record dispute_db =
  dd_jobs :: job_db
  dd_notes :: "job_note list"

text \<open>\<open>update_ok\<close> and \<open>note_ok\<close> say whether the two transactions, whose exceptions are logged and dropped, commit.\<close>

definition close_job :: "str \<Rightarrow> str \<Rightarrow> str \<Rightarrow> pyval \<Rightarrow> bool \<Rightarrow> bool \<Rightarrow> int \<Rightarrow> dispute_db \<Rightarrow> dispute_db" where
  "close_job job_id new typ payload update_ok note_ok now db =
     \<lparr>dd_jobs = (if update_ok then snd (update_job_status job_id new plain_update True now (dd_jobs db)) else dd_jobs db),
      dd_notes = dd_notes db @
        (if note_ok then [\<lparr>nt_job_id = job_id, nt_event_type = typ, nt_payload = payload, nt_created_at = now\<rparr>] else [])\<rparr>"

definition file_dispute ::
  "env \<Rightarrow> bool \<Rightarrow> bool \<Rightarrow> bool \<Rightarrow> int \<Rightarrow> headers \<Rightarrow> str \<Rightarrow> dict \<Rightarrow> dispute_db \<Rightarrow> (gw_exc + dict) \<times> dispute_db" where
  "file_dispute e store_ok update_ok note_ok now h job_id body db =
     (case verify_gateway_key e h of
        Inl err \<Rightarrow> (Inl err, db)
      | Inr _ \<Rightarrow>
          (case dget_default body ''reason'' (PStr []) of
             PStr r \<Rightarrow>
               if strip r = [] then (Inl (http 400 ''reason required''), db)
               else if \<not> store_ok then (Inl (http 503 ''job_store_unavailable''), db)
               else (case get_job job_id (dd_jobs db) of
                       None \<Rightarrow> (Inl (http 404 ''job not found''), db)
                     | Some j \<Rightarrow>
                         (Inr [(''ok'', PBool True), (''job_id'', PStr job_id), (''status'', PStr ''DISPUTED'')],
                          close_job job_id ''DISPUTED'' ''dispute_filed''
                            (PDict [(''reason'', PStr (strip r)), (''evidence'', dget_default body ''evidence'' (PDict []))])
                            update_ok note_ok now db))
           | _ \<Rightarrow> (Inl (Gw_Python AttributeError), db)))"

text \<open>The two dependencies of the admin routes.\<close>

definition admin_gate :: "auth_ops \<Rightarrow> int \<Rightarrow> headers \<Rightarrow> gw_exc + unit" where
  "admin_gate ao now h = bindE (verify_gateway_key (ao_env ao) h) (\<lambda>_. require_admin ao now h)"

definition admin_refund ::
  "auth_ops \<Rightarrow> escrow_config \<Rightarrow> http_outcome \<Rightarrow> bool \<Rightarrow> bool \<Rightarrow> bool \<Rightarrow> int \<Rightarrow> int \<Rightarrow> headers \<Rightarrow> str \<Rightarrow> dispute_db
     \<Rightarrow> (gw_exc + dict) \<times> dispute_db \<times> http_request list" where
  "admin_refund ao ec outcome store_ok update_ok note_ok now stamp h job_id db =
     (case admin_gate ao now h of
        Inl err \<Rightarrow> (Inl err, db, [])
      | Inr _ \<Rightarrow>
          if \<not> store_ok then (Inl (http 503 ''job_store_unavailable''), db, [])
          else (case get_job job_id (dd_jobs db) of
                  None \<Rightarrow> (Inl (http 404 ''job not found''), db, [])
                | Some j \<Rightarrow>
                    let (released, sent) =
                      (case nonempty (j_escrowId j) of
                         Some eid \<Rightarrow>
                           if escrow_permitted (ao_env ao)
                           then (case release_escrow ec eid ''admin_refund'' outcome of (r, reqs) \<Rightarrow> (PDict r, reqs))
                           else (PNone, [])
                       | None \<Rightarrow> (PNone, [])) in
                    (Inr [(''ok'', PBool True), (''job_id'', PStr job_id), (''status'', PStr ''REFUNDED''), (''escrow'', released)],
                     close_job job_id ''REFUNDED'' ''admin_refund'' (PDict [(''escrow'', released)]) update_ok note_ok stamp db, sent)))"

definition admin_resolve ::
  "auth_ops \<Rightarrow> bool \<Rightarrow> bool \<Rightarrow> bool \<Rightarrow> int \<Rightarrow> int \<Rightarrow> headers \<Rightarrow> str \<Rightarrow> dispute_db \<Rightarrow> (gw_exc + dict) \<times> dispute_db" where
  "admin_resolve ao store_ok update_ok note_ok now stamp h job_id db =
     (case admin_gate ao now h of
        Inl err \<Rightarrow> (Inl err, db)
      | Inr _ \<Rightarrow>
          if \<not> store_ok then (Inl (http 503 ''job_store_unavailable''), db)
          else (case get_job job_id (dd_jobs db) of
                  None \<Rightarrow> (Inl (http 404 ''job not found''), db)
                | Some j \<Rightarrow>
                    (Inr [(''ok'', PBool True), (''job_id'', PStr job_id), (''status'', PStr ''RESOLVED'')],
                     close_job job_id ''SETTLED'' ''admin_resolve'' (PDict [(''resolved_by'', PStr ''admin'')]) update_ok note_ok stamp db)))"

section \<open>Worker routes\<close>

definition tick_limit :: "dict option \<Rightarrow> gw_exc + int" where
  "tick_limit body =
     (case body of
        None \<Rightarrow> Inr 3
      | Some b \<Rightarrow>
          if dget b ''limit'' = PNone then Inr 3
          else (case py_int_of (dget b ''limit'') of
                  Some i \<Rightarrow> Inr (max 0 (min 10 i))
                | None \<Rightarrow> Inl (http 400 ''limit must be an integer 0-10'')))"

definition genesis_worker_execute_job ::
  "env \<Rightarrow> bool \<Rightarrow> worker_config \<Rightarrow> (str \<Rightarrow> job_run) \<Rightarrow> headers \<Rightarrow> str \<Rightarrow> int \<Rightarrow> job_db \<Rightarrow> worker_state
     \<Rightarrow> (gw_exc + execute_result) \<times> job_db \<times> worker_state" where
  "genesis_worker_execute_job e store_ok cfg runs h job_id now db ws =
     (case bindE (require_internal_secret e h) (\<lambda>_. guardE store_ok (http 503 ''job_store unavailable'') (Inr ())) of
        Inl err \<Rightarrow> (Inl err, db, ws)
      | Inr _ \<Rightarrow>
          (case execute_job_by_id cfg runs job_id now db ws of
             (r, db', ws') \<Rightarrow> (if er_ok r then Inr r
                else Inl (HTTPException 409 (PDict [(''ok'', PBool False), (''job_id'', PStr job_id), (''error'', PStr ''not_queued_or_missing''),
                                                    (''expired'', PInt (er_expired r))])), db', ws')))"

section \<open>Only the owner reads a job\<close>

lemma owns_job_dict:
  "owns_resource p (Some (job_dict isoformat j)) =
     (if j_tenantId j = None \<and> j_ownerPrincipalId j = None then Inr (auth_method p = ''legacy_gateway'')
      else case compare_digest (opt_header (j_tenantId j)) (tenant_id p) of
             Inl x \<Rightarrow> Inl x
           | Inr False \<Rightarrow> Inr False
           | Inr True \<Rightarrow> compare_digest (opt_header (j_ownerPrincipalId j)) (principal_id p))"
  by (cases "j_tenantId j"; cases "j_ownerPrincipalId j")
    (auto simp: owns_resource_def job_dict_def Let_def dget_default_def opt_val_str_def opt_header_def split: sum.split bool.split)

definition owned_by :: "principal \<Rightarrow> job \<Rightarrow> bool" where
  "owned_by p j \<longleftrightarrow>
     (if j_tenantId j = None \<and> j_ownerPrincipalId j = None then auth_method p = ''legacy_gateway''
      else opt_header (j_tenantId j) = tenant_id p \<and> opt_header (j_ownerPrincipalId j) = principal_id p)"

lemma owns_job_True:
  "owns_resource p (Some (job_dict isoformat j)) = Inr True \<Longrightarrow> owned_by p j"
  by (auto simp: owns_job_dict owned_by_def split: if_splits sum.splits bool.splits)

lemma require_owned_job_Inr:
  "require_owned_job isoformat p row scope = Inr j \<longleftrightarrow>
     row = Some j \<and> has_scope p scope \<and> owns_resource p (Some (job_dict isoformat j)) = Inr True"
  by (auto simp: require_owned_job_def call_Inr)

text \<open>C16. A job's row is returned only to a caller that authenticated, holds \<open>job.read\<close> and owns the row: it is the tenant and principal
  the row names, or the row names neither and the caller holds the gateway key.\<close>

theorem job_read_owner_only:
  assumes "get_job_status ao isoformat store_ok now h job_id db = Inr d"
  shows "\<exists>p j. verify_continuation_principal ao now h = Inr p \<and> get_job job_id db = Some j \<and> d = job_dict isoformat j \<and>
           has_scope p ''job.read'' \<and> owned_by p j"
proof -
  obtain p j where "verify_continuation_principal ao now h = Inr p"
    and "require_owned_job isoformat p (get_job job_id db) ''job.read'' = Inr j" and "d = job_dict isoformat j"
    using assms by (auto simp: get_job_status_def call_Inr)
  then show ?thesis using owns_job_True by (auto simp: require_owned_job_Inr)
qed

section \<open>The owner can read the job it submitted\<close>

lemma submit_for_fresh:
  assumes "submit_for ao hostname store_ok jid stamp now p slug body db = (Inr resp, db', True)"
  obtains rq where "submitted_request p slug body = Some rq" and "db' = \<lparr>db_jobs = db_jobs db @ [new_job_row jid stamp rq],
      db_events = db_events db @ [status_change jid None ''QUEUED'' stamp]\<rparr>" and "\<not> id_taken jid db"
    and "create_job jid stamp rq db = Inr (\<lparr>cr_id = jid, cr_status = ''QUEUED'', cr_created_at = Some stamp, cr_idempotent_hit = False\<rparr>, db')"
    and "auth_method p = ''ap2'' \<Longrightarrow> \<exists>token. map_of resp ''principal_token'' = Some (PStr token) \<and>
        issue_principal_token (ao_hmac256 ao) (ao_b64 ao) None (ao_env ao) now PRINCIPAL_TOKEN_TTL_SECONDS p = Inr token"
proof -
  obtain rq where rq: "submitted_request p slug body = Some rq"
    using assms by (auto simp: submit_for_def split: if_splits option.splits)
  obtain r where r: "create_job jid stamp rq db = Inr (r, db')" "\<not> cr_idempotent_hit r"
    and resp: "auth_method p = ''ap2'' \<Longrightarrow> \<exists>token. resp = submit_payload r (rq_escrow_id rq) @ [(''principal_token'', PStr token)] \<and>
        issue_principal_token (ao_hmac256 ao) (ao_b64 ao) None (ao_env ao) now PRINCIPAL_TOKEN_TTL_SECONDS p = Inr token"
    using assms rq by (auto simp: submit_for_def Let_def split: if_splits sum.splits prod.splits)
  from r have made: "db' = \<lparr>db_jobs = db_jobs db @ [new_job_row jid stamp rq],
      db_events = db_events db @ [status_change jid None ''QUEUED'' stamp]\<rparr>" "\<not> id_taken jid db"
    "r = \<lparr>cr_id = jid, cr_status = ''QUEUED'', cr_created_at = Some stamp, cr_idempotent_hit = False\<rparr>"
    by (auto simp: create_job_def insert_job_def guardE_Inr split: option.splits)
  have "map_of (submit_payload r escrow @ [(''principal_token'', PStr token)]) ''principal_token'' = Some (PStr token)" for escrow token
    by (auto simp: submit_payload_def split: option.splits)
  with resp have "auth_method p = ''ap2'' \<Longrightarrow> \<exists>token. map_of resp ''principal_token'' = Some (PStr token) \<and>
        issue_principal_token (ao_hmac256 ao) (ao_b64 ao) None (ao_env ao) now PRINCIPAL_TOKEN_TTL_SECONDS p = Inr token" by blast
  with that rq made r show thesis by blast
qed

lemma get_job_created:
  assumes "\<not> id_taken jid db" and "db_jobs db' = db_jobs db @ [j]" and "j_id j = jid"
  shows "get_job jid db' = Some j"
proof -
  have "find Q xs = None \<Longrightarrow> find Q (xs @ ys) = find Q ys" for Q and xs ys :: "job list"
    by (induction xs) (auto split: if_splits)
  moreover have "find (\<lambda>j. j_id j = jid) (db_jobs db) = None" using assms(1) get_job_None by (metis get_job_def)
  ultimately show ?thesis using assms(2,3) by (simp add: get_job_def)
qed

lemma submitted_request_owner:
  assumes "submitted_request p slug body = Some rq"
  shows "rq_tenant_id rq = Some (tenant_id p)" and "rq_owner_principal_id rq = Some (principal_id p)"
  using assms by (auto simp: submitted_request_def Option.bind_eq_Some_conv)

text \<open>The headers of a poll: the continuation token and nothing else.\<close>

definition token_only :: "str \<Rightarrow> headers" where
  "token_only token =
     \<lparr>hd_ap2_version = None, hd_ap2_pubkey = None, hd_api_key = None, hd_gateway_secret = None, hd_principal_token = Some token,
      hd_internal_secret = None\<rparr>"

lemma issued_token_nonempty: "issue_principal_token mac b64 key e now ttl p = Inr token \<Longrightarrow> token \<noteq> []"
  by (auto simp: issue_principal_token_def Let_def TOKEN_PREFIX_def split: sum.splits)

lemma has_scope_sorted [simp]: "has_scope (p\<lparr>scopes := remdups (sort (scopes p)), auth_method := a, expires_at := x\<rparr>) s = has_scope p s"
  by (simp add: has_scope_def)

text \<open>C15. A job an AP2 caller submits can be polled with the token the answer carries: for ten minutes, whatever the worker, the
  reaper, claims and further submissions do to the tables, the status route returns the job's current row. Assumed of the codecs is what
  the round trip of the token asks; the caller holds \<open>job.read\<close> and has an ASCII identity.\<close>

theorem submitted_job_readable:
  assumes reached: "(job_step True)\<^sup>*\<^sup>* empty_db db"
    and who: "verify_agent_principal ao now wall h slug body st = (Inr p, st')" "auth_method p = ''ap2''" "has_scope p ''job.read''"
      "principal_id p \<noteq> []" "tenant_id p \<noteq> []" "is_ascii (principal_id p)" "is_ascii (tenant_id p)"
    and submitted: "submit_job ao hostname True jid stamp now wall h slug body st db = (Inr resp, st', db', True)"
    and codec: "\<And>s. CHR ''.'' \<notin> set (ao_b64 ao s)" "\<And>s. is_ascii (ao_b64 ao s)" "\<And>k s. is_ascii (ao_hmac256 ao k s)"
      "\<And>s. ao_unb64 ao (ao_b64 ao s) = Some s"
      "ao_loads ao (canonical_json_raw (PDict (token_payload p now PRINCIPAL_TOKEN_TTL_SECONDS)))
         = Some (PDict (sort_key fst (token_payload p now PRINCIPAL_TOKEN_TTL_SECONDS)))"
    and later: "(job_step True)\<^sup>*\<^sup>* db' db2" "now - 60 \<le> t" "t \<le> now + 600"
  shows "\<exists>token j. map_of resp ''principal_token'' = Some (PStr token) \<and> get_job jid db2 = Some j \<and>
           get_job_status ao isoformat True t (token_only token) jid db2 = Inr (job_dict isoformat j)"
proof -
  have sub: "submit_for ao hostname True jid stamp now p slug body db = (Inr resp, db', True)"
    using submitted who(1) by (auto simp: submit_job_def split: prod.splits)
  obtain rq token where rq: "submitted_request p slug body = Some rq"
    and made: "db' = \<lparr>db_jobs = db_jobs db @ [new_job_row jid stamp rq], db_events = db_events db @ [status_change jid None ''QUEUED'' stamp]\<rparr>"
      "\<not> id_taken jid db"
    and step: "create_job jid stamp rq db = Inr (\<lparr>cr_id = jid, cr_status = ''QUEUED'', cr_created_at = Some stamp, cr_idempotent_hit = False\<rparr>, db')"
    and token: "map_of resp ''principal_token'' = Some (PStr token)"
    and issued: "issue_principal_token (ao_hmac256 ao) (ao_b64 ao) None (ao_env ao) now PRINCIPAL_TOKEN_TTL_SECONDS p = Inr token"
    by (rule submit_for_fresh [OF sub]) (use who(2) in blast)
  have "get_job jid db' = Some (new_job_row jid stamp rq)"
    using made by (intro get_job_created [OF made(2)]) (simp_all add: new_job_row_def)
  moreover have "job_inv db'" using job_steps_inv [OF reached job_inv_empty] step by (rule create_job_inv)
  ultimately obtain j where j: "get_job jid db2 = Some j" "j_tenantId j = Some (tenant_id p)" "j_ownerPrincipalId j = Some (principal_id p)"
    using job_steps_rule [OF later(1), of jid "new_job_row jid stamp rq" "\<lambda>j. j_tenantId j = Some (tenant_id p) \<and> j_ownerPrincipalId j = Some (principal_id p)"]
      submitted_request_owner [OF rq] by (auto simp: new_job_row_def job_moves_def)
  obtain k where k: "token_key None (ao_env ao) = Inr k"
    using issued by (auto simp: issue_principal_token_def Let_def split: sum.splits)
  let ?q = "p\<lparr>scopes := remdups (sort (scopes p)), auth_method := ''principal_token'', expires_at := now + 600\<rparr>"
  have "verify_principal_token (ao_hmac256 ao) (ao_unb64 ao) (ao_loads ao) None (ao_env ao) t token = Inr ?q"
    using principal_token_roundtrip [where ?b64.0 = "ao_b64 ao" and ?hmac256.0 = "ao_hmac256 ao" and ?unb64.0 = "ao_unb64 ao" and loads = "ao_loads ao",
        OF k codec(1-5) who(4,5) issued later(2)] later(3)
    by (simp add: PRINCIPAL_TOKEN_TTL_SECONDS_def)
  then have "verify_continuation_principal ao t (token_only token) = Inr ?q"
    using issued_token_nonempty [OF issued] by (simp add: verify_continuation_principal_def token_only_def opt_header_def)
  moreover have "require_owned_job isoformat ?q (get_job jid db2) ''job.read'' = Inr j"
    using j who(3,6,7) by (simp add: require_owned_job_Inr owns_job_dict opt_header_def compare_digest_def)
  ultimately have "get_job_status ao isoformat True t (token_only token) jid db2 = Inr (job_dict isoformat j)"
    by (simp add: get_job_status_def)
  with token j(1) show ?thesis by blast
qed

section \<open>What the signature of a submission covers\<close>

lemma dget_dict_set_other: "k \<noteq> k' \<Longrightarrow> dget (dict_set d k' v) k = dget d k"
  by (simp add: dget_def)

lemma verify_agent_principal_params:
  "verify_agent_principal ao now wall h slug (dict_set body ''params'' v) st = verify_agent_principal ao now wall h slug body st"
proof -
  have "verify_ap2_envelope ed fi reg c st cur wl (dict_set body ''params'' v) hv hp sc = verify_ap2_envelope ed fi reg c st cur wl body hv hp sc"
    for ed fi reg c cur wl hv hp sc
    by (simp only: verify_ap2_envelope_def) (simp add: dget_dict_set_other)
  moreover have "assert_envelope_binds_request (dict_set body ''params'' v) slug = assert_envelope_binds_request body slug"
    by (simp only: assert_envelope_binds_request_def) (simp add: dget_dict_set_other)
  ultimately show ?thesis by (simp only: verify_agent_principal_def)
qed

text \<open>The signature of an asynchronous submission does not cover the parameters the job runs with. The binding compares the signed
  parameters with \<open>task\<close>, while the route reads \<open>params\<close>: whatever is put there, the caller is authenticated in the same way and the
  job is created with it.\<close>

theorem submission_params_unsigned:
  assumes "submitted_request p slug body = Some rq"
  shows "verify_agent_principal ao now wall h slug (dict_set body ''params'' (PDict d)) st = verify_agent_principal ao now wall h slug body st \<and>
         submitted_request p slug (dict_set body ''params'' (PDict d)) = Some (rq\<lparr>rq_params := Some d\<rparr>)"
proof -
  have "dget_default (dict_set body ''params'' (PDict d)) ''prompt'' v = dget_default body ''prompt'' v"
    "dget_default (dict_set body ''params'' (PDict d)) ''params'' v = PDict d" for v
    by (simp_all add: dget_default_def)
  then have "submitted_request p slug (dict_set body ''params'' (PDict d)) = Some (rq\<lparr>rq_params := Some d\<rparr>)"
    using assms by (auto simp: submitted_request_def dget_dict_set_other Option.bind_eq_Some_conv dict_field_def)
  with verify_agent_principal_params show ?thesis by blast
qed

text \<open>The prompt is covered: a submission that is accepted over AP2 runs the prompt its payload signs, for the agent it signs.\<close>

lemma submission_prompt_signed:
  assumes "verify_agent_principal ao now wall h slug body st = (Inr p, st')" and "auth_method p = ''ap2''"
    and "submitted_request p slug body = Some rq"
  shows "\<exists>payload. py_or (dget body ''payload'') (PDict []) = PDict payload \<and>
           str_or_empty (dget payload ''agent'') = rq_agent_slug rq \<and> str_or_empty (dget payload ''task'') = rq_prompt rq"
proof -
  have "assert_envelope_binds_request body slug = Inr ()"
    using assms(1,2)
    by (auto simp: verify_agent_principal_def legacy_gateway_principal_def bindE_Inr split: if_splits sum.splits prod.splits)
  then obtain payload where pl: "py_or (dget body ''payload'') (PDict []) = PDict payload"
    "str_or_empty (dget payload ''agent'') = slug" "str_or_empty (dget payload ''task'') = str_or_empty (dget body ''prompt'')"
    by (auto simp: assert_envelope_binds_request_def call_Inr eq_text_def)
  have "rq_agent_slug rq = slug" using assms(3) by (auto simp: submitted_request_def Option.bind_eq_Some_conv)
  moreover have "text_field (dget_default body ''prompt'' (PStr [])) = Some (rq_prompt rq)"
    using assms(3) by (auto simp: submitted_request_def Option.bind_eq_Some_conv)
  then have "rq_prompt rq = str_or_empty (dget body ''prompt'')"
    by (cases "map_of body ''prompt''") (auto simp: text_field_def dget_default_def split: pyval.splits)
  ultimately show ?thesis using pl by auto
qed

section \<open>Administration\<close>

lemma legacy_not_admin [simp]: "\<not> has_scope (legacy_gateway_principal now) ''admin''"
  by (simp add: has_scope_def legacy_gateway_principal_def)

lemma admin_gate_Inr:
  assumes "admin_gate ao now h = Inr ()"
  shows "verify_gateway_key (ao_env ao) h = Inr () \<and>
         (\<exists>p. verify_principal_token (ao_hmac256 ao) (ao_unb64 ao) (ao_loads ao) None (ao_env ao) now (opt_header (hd_principal_token h)) = Inr p \<and>
              has_scope p ''admin'')"
  using assms
  by (auto simp: admin_gate_def require_admin_def verify_continuation_principal_def call_Inr split: if_splits)

lemma close_job_step:
  assumes "new \<noteq> ''QUEUED''"
  shows "dd_jobs (close_job job_id new typ payload up nt now db) = dd_jobs db \<or>
         job_step True (dd_jobs db) (dd_jobs (close_job job_id new typ payload up nt now db))"
  using job_step.update [OF assms, of True True] by (simp add: close_job_def)

text \<open>An admin refund changes tables or sends a request only for a caller that holds the gateway key and a verified token with
  the \<open>admin\<close> scope. It sends at most one request, none outside the marketplace profile, and what it does to the job table is one
  status update.\<close>

theorem admin_refund_gated:
  assumes "admin_refund ao ec outcome store_ok up nt now stamp h job_id db = (r, db', sent)" and "(db', sent) \<noteq> (db, [])"
  shows "verify_gateway_key (ao_env ao) h = Inr () \<and>
         (\<exists>p. verify_principal_token (ao_hmac256 ao) (ao_unb64 ao) (ao_loads ao) None (ao_env ao) now (opt_header (hd_principal_token h)) = Inr p \<and>
              has_scope p ''admin'') \<and>
         length sent \<le> 1 \<and> (sent \<noteq> [] \<longrightarrow> escrow_permitted (ao_env ao)) \<and>
         (dd_jobs db' = dd_jobs db \<or> job_step True (dd_jobs db) (dd_jobs db'))"
proof -
  have gate: "admin_gate ao now h = Inr ()"
    using assms by (auto simp: admin_refund_def split: sum.splits)
  obtain released where db': "db' = close_job job_id ''REFUNDED'' ''admin_refund'' (PDict [(''escrow'', released)]) up nt stamp db"
    and sent: "sent = [] \<or> (escrow_permitted (ao_env ao) \<and> (\<exists>eid. sent = snd (release_escrow ec eid ''admin_refund'' outcome)))"
    using assms gate
    by (auto simp: admin_refund_def Let_def split: if_splits option.splits prod.splits) (metis snd_conv)+
  have "length (snd (release_escrow ec eid why outcome)) \<le> 1" for eid why
    using escrow_post_ok [of ec "''/payments/ap2/release''"] by (metis prod.collapse release_escrow_def)
  with sent have "length sent \<le> 1" "sent \<noteq> [] \<longrightarrow> escrow_permitted (ao_env ao)" by auto
  with admin_gate_Inr [OF gate] close_job_step [of "''REFUNDED''"] show ?thesis by (simp add: db')
qed

section \<open>What the boot assertions give\<close>

lemma length_strip: "length (strip s) \<le> length s"
  by (metis strip_def length_rev length_dropWhile_le order_trans)

text \<open>Once the boot assertion has passed, a submission never creates a job whose token cannot be issued: the error that would leave
  the job behind without an answer does not occur.\<close>

theorem booted_submission_answered:
  assumes "assert_auth_material_configured ao tables = Inr ()"
    and "submit_for ao hostname store_ok jid stamp now p slug body db = (r, db', d)" and "db' \<noteq> db"
  shows "\<exists>resp. r = Inr resp"
proof -
  obtain on_pg where "missing_auth_env on_pg (ao_env ao) = []"
    using assms(1) by (auto simp: assert_auth_material_configured_def call_Inr)
  then have "\<not> length (strip (opt_header (ao_env ao ''GENESIS_PRINCIPAL_TOKEN_KEY''))) < 32"
    by (auto simp: missing_auth_env_def REQUIRED_AUTH_ENV_def SQLITE_ONLY_AUTH_ENV_def split: if_splits)
  then have "32 \<le> length (opt_header (ao_env ao ''GENESIS_PRINCIPAL_TOKEN_KEY''))"
    using length_strip [of "opt_header (ao_env ao ''GENESIS_PRINCIPAL_TOKEN_KEY'')"] by linarith
  then have "\<exists>token. issue_principal_token (ao_hmac256 ao) (ao_b64 ao) None (ao_env ao) now PRINCIPAL_TOKEN_TTL_SECONDS p = Inr token"
    by (auto simp: issue_principal_token_def token_key_def opt_header_def Let_def split: option.splits)
  with assms(2,3) show ?thesis
    by (auto simp: submit_for_def Let_def split: if_splits option.splits sum.splits prod.splits)
qed

section \<open>Resolved context is bounded\<close>

lemma context_item_Inr:
  assumes "context_item pq ue p item = Inr v"
  shows "\<exists>c hs t. v = PDict [(''citation'', PStr c), (''content_sha256'', PStr hs), (''content'', PStr t)] \<and>
           length c \<le> 512 \<and> length hs \<le> 128 \<and> length t \<le> 4000 \<and> c \<noteq> [] \<and> hs \<noteq> [] \<and> t \<noteq> []"
  using assms by (auto simp: context_item_def call_Inr Let_def)

lemma scoped_params_bounded:
  assumes "scoped_runtime_params pq ue task p = Inr d"
  shows "map_of d ''description'' = None \<and> (\<exists>clean. map_of d ''resolved_context'' = Some (PList clean) \<and> length clean \<le> 8)"
proof -
  obtain params raw clean where raw: "raw_context params = Inr raw" "mapE (context_item pq ue p) raw = Inr clean"
    and d: "d = dict_pop (dict_set params ''resolved_context'' (PList clean)) ''description''"
    using assms unfolding scoped_runtime_params_def Let_def bindE_Inr by blast
  moreover have "length raw \<le> 8" using raw(1) by (auto simp: raw_context_def split: pyval.splits if_splits)
  moreover have "length clean = length raw" using list_all2_lengthD [OF mapE_Inr [OF raw(2)]] by simp
  ultimately show ?thesis by simp
qed

section \<open>A concrete exchange\<close>

definition gw_env :: env where
  "gw_env = [''GENESIS_PRINCIPAL_TOKEN_KEY'' \<mapsto> sample_key, ''GENESIS_ACTION_GRANT_KEY'' \<mapsto> sample_key, ''GATEWAY_API_KEY'' \<mapsto> ''k'']"

definition gw_registry :: dict where
  "gw_registry =
     [(''version'', PInt 1),
      (''clients'', PList [PDict [(''client_id'', PStr ''cato''), (''enabled'', PBool True), (''pubkey_b64'', PStr ''PK''),
         (''principal_id'', PStr ''u''), (''tenant_id'', PStr ''t''), (''capabilities'', PList [PStr ''agent.invoke'', PStr ''job.read''])]])]"

definition gw_principal :: principal where
  "gw_principal =
     \<lparr>principal_id = ''u'', tenant_id = ''t'', client_id = ''cato'', scopes = [''agent.invoke'', ''job.read''], auth_method = ''ap2'', expires_at = 1300\<rparr>"

definition gw_loads :: "str \<Rightarrow> pyval option" where
  "gw_loads s =
     (if s = canonical_json_raw (PDict (token_payload gw_principal 1010 PRINCIPAL_TOKEN_TTL_SECONDS))
      then Some (PDict (sort_key fst (token_payload gw_principal 1010 PRINCIPAL_TOKEN_TTL_SECONDS))) else None)"

definition gw_ops :: auth_ops where
  "gw_ops =
     \<lparr>ao_ed25519 = sample_ed25519, ao_hmac256 = sample_mac, ao_b64 = sample_b64, ao_unb64 = sample_unb64, ao_loads = gw_loads,
      ao_fromiso = sample_fromiso, ao_registry = gw_registry, ao_env = gw_env, ao_store = sample_env\<rparr>"

definition gw_body :: dict where
  "gw_body =
     [(''version'', PInt 1), (''payload'', PDict [(''agent'', PStr ''a''), (''task'', PStr ''go'')]), (''nonce'', PStr ''nonce-0123456789''),
      (''timestamp'', PStr ''T''), (''pubkey'', PStr ''PK''), (''signature'', PStr ''good''), (''prompt'', PStr ''go'')]"

definition gw_headers :: headers where
  "gw_headers =
     \<lparr>hd_ap2_version = Some ''1'', hd_ap2_pubkey = Some ''PK'', hd_api_key = None, hd_gateway_secret = None, hd_principal_token = None,
      hd_internal_secret = None\<rparr>"

definition gw_request :: job_request where
  "gw_request =
     \<lparr>rq_agent_slug = ''a'', rq_prompt = ''go'', rq_params = Some [], rq_buyer_wallet_id = None, rq_buyer_client_id = None,
      rq_price_tier_cents = None, rq_idempotency_key = None, rq_webhook_url = None, rq_webhook_secret = None, rq_escrow_id = None,
      rq_tenant_id = Some ''t'', rq_owner_principal_id = Some ''u''\<rparr>"

definition gw_db :: job_db where
  "gw_db = snd (projr (create_job ''j'' 5 gw_request empty_db))"

definition gw_token :: str where
  "gw_token = projr (issue_principal_token sample_mac sample_b64 None gw_env 1010 PRINCIPAL_TOKEN_TTL_SECONDS gw_principal)"

lemma gw_authenticated:
  "verify_agent_principal gw_ops 1010 1010 gw_headers ''a'' gw_body sample_store = (Inr gw_principal, \<lparr>ns_postgres = [sample_row], ns_sqlite = []\<rparr>)"
  by code_simp

lemma gw_submitted: "submitted_request gw_principal ''a'' gw_body = Some gw_request"
  by code_simp

lemma gw_created:
  "create_job ''j'' 5 gw_request empty_db =
     Inr (\<lparr>cr_id = ''j'', cr_status = ''QUEUED'', cr_created_at = Some 5, cr_idempotent_hit = False\<rparr>, gw_db)"
  by code_simp

lemma gw_issued: "issue_principal_token sample_mac sample_b64 None gw_env 1010 PRINCIPAL_TOKEN_TTL_SECONDS gw_principal = Inr gw_token"
proof -
  have "token_key None gw_env = Inr sample_key" by code_simp
  then show ?thesis by (simp add: gw_token_def issue_principal_token_def Let_def)
qed

definition gw_response :: dict where
  "gw_response =
     submit_payload \<lparr>cr_id = ''j'', cr_status = ''QUEUED'', cr_created_at = Some 5, cr_idempotent_hit = False\<rparr> None @ [(''principal_token'', PStr gw_token)]"

lemma gw_fields:
  "rq_webhook_url gw_request = None" "rq_escrow_id gw_request = None" "auth_method gw_principal = ''ap2''"
  "ao_hmac256 gw_ops = sample_mac" "ao_b64 gw_ops = sample_b64" "ao_unb64 gw_ops = sample_unb64" "ao_loads gw_ops = gw_loads" "ao_env gw_ops = gw_env"
  by (simp_all add: gw_request_def gw_principal_def gw_ops_def)

lemma gw_submit_for:
  "submit_for gw_ops (\<lambda>_. None) True ''j'' 5 1010 gw_principal ''a'' gw_body empty_db = (Inr gw_response, gw_db, True)"
  by (simp add: submit_for_def gw_submitted gw_created gw_response_def gw_fields gw_issued Let_def)

theorem submitted_job_readable_witness:
  "\<exists>token j. map_of gw_response ''principal_token'' = Some (PStr token) \<and> get_job ''j'' (snd (claim_job_by_id ''j'' 9 gw_db)) = Some j \<and>
     get_job_status gw_ops (\<lambda>_. []) True 1600 (token_only token) ''j'' (snd (claim_job_by_id ''j'' 9 gw_db)) = Inr (job_dict (\<lambda>_. []) j)"
proof (rule submitted_job_readable [OF rtranclp.rtrancl_refl gw_authenticated gw_fields(3)])
  show "has_scope gw_principal ''job.read''" by code_simp
  show "principal_id gw_principal \<noteq> []" by code_simp
  show "tenant_id gw_principal \<noteq> []" by code_simp
  show "is_ascii (principal_id gw_principal)" by code_simp
  show "is_ascii (tenant_id gw_principal)" by code_simp
  show "submit_job gw_ops (\<lambda>_. None) True ''j'' 5 1010 1010 gw_headers ''a'' gw_body sample_store empty_db
      = (Inr gw_response, \<lparr>ns_postgres = [sample_row], ns_sqlite = []\<rparr>, gw_db, True)"
    by (simp add: submit_job_def gw_authenticated gw_submit_for)
  show "(job_step True)\<^sup>*\<^sup>* gw_db (snd (claim_job_by_id ''j'' 9 gw_db))" by (rule r_into_rtranclp) (rule job_step.claim)
qed (simp_all add: gw_fields gw_loads_def sample_mac_def sample_b64_ascii sample_unb64_b64)

definition unowned_db :: job_db where
  "unowned_db = snd (projr (create_job ''j'' 5 (gw_request\<lparr>rq_tenant_id := None, rq_owner_principal_id := None\<rparr>) empty_db))"

definition key_headers :: headers where
  "key_headers = (token_only [])\<lparr>hd_api_key := Some ''k'', hd_principal_token := None\<rparr>"

theorem job_read_owner_only_witness:
  "\<exists>p j. verify_continuation_principal gw_ops 7 key_headers = Inr p \<and> get_job ''j'' unowned_db = Some j \<and> owned_by p j"
proof -
  have "case get_job_status gw_ops (\<lambda>_. []) True 7 key_headers ''j'' unowned_db of Inr _ \<Rightarrow> True | Inl _ \<Rightarrow> False" by code_simp
  then obtain d where "get_job_status gw_ops (\<lambda>_. []) True 7 key_headers ''j'' unowned_db = Inr d" by (auto split: sum.splits)
  from job_read_owner_only [OF this] show ?thesis by blast
qed

theorem submission_params_unsigned_witness:
  "verify_agent_principal gw_ops 1010 1010 gw_headers ''a'' (dict_set gw_body ''params'' (PDict [(''x'', PInt 1)])) sample_store
     = (Inr gw_principal, \<lparr>ns_postgres = [sample_row], ns_sqlite = []\<rparr>) \<and>
   submitted_request gw_principal ''a'' (dict_set gw_body ''params'' (PDict [(''x'', PInt 1)])) = Some (gw_request\<lparr>rq_params := Some [(''x'', PInt 1)]\<rparr>)"
  using submission_params_unsigned [OF gw_submitted] gw_authenticated by simp

definition admin_claims :: "str \<Rightarrow> pyval option" where
  "admin_claims s = Some (PDict [(''v'', PInt 1), (''aud'', PStr ''genesis-gateway''), (''sub'', PStr ''u''), (''tenant'', PStr ''t''),
     (''scopes'', PList [PStr ''admin'']), (''iat'', PInt 1000), (''exp'', PInt 1600)])"

definition admin_ops :: auth_ops where
  "admin_ops = gw_ops\<lparr>ao_hmac256 := (\<lambda>k s. ''M''), ao_unb64 := Some, ao_loads := admin_claims\<rparr>"

definition admin_headers :: headers where
  "admin_headers = (token_only ''genesis-principal-v1.X.M'')\<lparr>hd_api_key := Some ''k''\<rparr>"

definition refund_result :: "(gw_exc + dict) \<times> dispute_db \<times> http_request list" where
  "refund_result =
     admin_refund admin_ops \<lparr>ec_api_url = [], ec_internal_secret = []\<rparr> (Http_Raise [] []) True True True 1001 6 admin_headers ''j''
       \<lparr>dd_jobs = gw_db, dd_notes = []\<rparr>"

theorem admin_refund_gated_witness:
  "\<exists>p. verify_principal_token (\<lambda>k s. ''M'') Some admin_claims None gw_env 1001 ''genesis-principal-v1.X.M'' = Inr p \<and> has_scope p ''admin''"
proof -
  obtain r db' sent where res: "refund_result = (r, db', sent)" by (cases refund_result)
  have "length (dd_notes (fst (snd refund_result))) = 1" by code_simp
  then have "(db', sent) \<noteq> (\<lparr>dd_jobs = gw_db, dd_notes = []\<rparr>, [])" by (auto simp: res)
  from admin_refund_gated [OF res [unfolded refund_result_def] this] show ?thesis
    by (simp add: admin_ops_def gw_fields admin_headers_def token_only_def opt_header_def)
qed

theorem booted_submission_answered_witness:
  "\<exists>resp. fst (submit_for gw_ops (\<lambda>_. None) True ''j'' 5 1010 gw_principal ''a'' gw_body empty_db) = Inr resp"
proof -
  have boot: "assert_auth_material_configured gw_ops (Inr REQUIRED_TABLES) = Inr ()" by code_simp
  have one: "length (db_jobs gw_db) = 1" by code_simp
  have "gw_db \<noteq> empty_db"
  proof
    assume "gw_db = empty_db"
    then have "length (db_jobs gw_db) = length (db_jobs empty_db)" by (rule arg_cong)
    with one show False by (simp add: empty_db_def)
  qed
  from booted_submission_answered [OF boot gw_submit_for this] show ?thesis by (simp add: gw_submit_for)
qed

end
