(* ===== verification/Retrieval.thy ===== *)
theory Retrieval
  imports Complex_Main Gateway
begin

text \<open>
  Retrieval: the selection of rows of the second backend (\<^verbatim>\<open>knowledge_backbone.py\<close>) and the retrieval route (\<^verbatim>\<open>retrieval_route.py\<close>).

  The rows the two stores return are arguments, or \<open>None\<close> where the store raises. Validation of a body by the request model is an argument as
  well. Drive ids, file ids and content hashes are compared as values; a score is a number, and any other type raises, while Python would
  also read a number out of text.
\<close>

section \<open>Permissions\<close>

definition has_matching_access :: "pyval \<Rightarrow> str \<Rightarrow> bool" where
  "has_matching_access snapshot who =
     (case snapshot of
        PDict d \<Rightarrow>
          dget d ''public'' = PBool True \<or>
          (case dget d ''principals'' of PList ps \<Rightarrow> PStr who \<in> set ps | _ \<Rightarrow> False)
      | _ \<Rightarrow> False)"

definition filter_by_permission :: "dict list \<Rightarrow> str option \<Rightarrow> dict list" where
  "filter_by_permission rows who =
     (case who of
        None \<Rightarrow> []
      | Some p \<Rightarrow> if p = [] then [] else filter (\<lambda>row. has_matching_access (dget row ''permissions_snapshot'') p) rows)"

section \<open>Duplicates\<close>

definition row_identity :: "dict \<Rightarrow> pyval \<times> pyval" where
  "row_identity row = (dget row ''drive_id'', dget row ''file_id'')"

definition row_score :: "dict \<Rightarrow> py_exc + (int \<times> nat)" where
  "row_score row = optE TypeError (number_of (dget_default row ''score'' (PFloat ''0.0'')))"

definition score_above :: "int \<times> nat \<Rightarrow> int \<times> nat \<Rightarrow> bool" where
  "score_above a b \<longleftrightarrow> fst a * 10 ^ snd b > fst b * 10 ^ snd a"

definition score_gt :: "dict \<Rightarrow> dict \<Rightarrow> py_exc + bool" where
  "score_gt a b = bindE (row_score a) (\<lambda>x. bindE (row_score b) (\<lambda>y. Inr (score_above x y)))"

text \<open>The dictionary \<open>best_by_identity\<close> together with \<open>order\<close> is an association list in order of first sight.\<close>

definition keep_better :: "((pyval \<times> pyval) \<times> dict) list \<Rightarrow> dict \<Rightarrow> py_exc + ((pyval \<times> pyval) \<times> dict) list" where
  "keep_better best row =
     (case map_of best (row_identity row) of
        None \<Rightarrow> Inr (best @ [(row_identity row, row)])
      | Some existing \<Rightarrow>
          bindE (score_gt row existing) (\<lambda>better.
          Inr (if better then dict_set best (row_identity row) row else best)))"

fun best_rows :: "((pyval \<times> pyval) \<times> dict) list \<Rightarrow> dict list \<Rightarrow> py_exc + ((pyval \<times> pyval) \<times> dict) list" where
  "best_rows best [] = Inr best"
| "best_rows best (row # rows) = bindE (keep_better best row) (\<lambda>best'. best_rows best' rows)"

definition dedup_by_identity :: "dict list \<Rightarrow> py_exc + dict list" where
  "dedup_by_identity rows = bindE (best_rows [] rows) (\<lambda>best. Inr (map snd best))"

fun group_rows :: "(pyval \<times> dict list) list \<Rightarrow> dict list \<Rightarrow> (pyval \<times> dict list) list" where
  "group_rows gs [] = gs"
| "group_rows gs (row # rows) =
     group_rows (let key = dget row ''content_hash'' in
                 case map_of gs key of
                   None \<Rightarrow> gs @ [(key, [row])]
                 | Some g \<Rightarrow> dict_set gs key (g @ [row])) rows"

text \<open>\<open>max(rows, key=score)\<close>: the first of the rows with the highest score.\<close>

fun best_of :: "dict \<Rightarrow> dict list \<Rightarrow> py_exc + dict" where
  "best_of b [] = Inr b"
| "best_of b (row # rows) = bindE (score_gt row b) (\<lambda>better. best_of (if better then row else b) rows)"

definition is_canonical :: "dict \<Rightarrow> bool" where
  "is_canonical row \<longleftrightarrow> dget row ''source_classification'' = PStr ''canonical''"

definition max_score :: "dict list \<Rightarrow> py_exc + dict" where
  "max_score rows =
     (case rows of
        [] \<Rightarrow> Inl ValueError
      | r # rs \<Rightarrow> bindE (row_score r) (\<lambda>_. best_of r rs))"

definition pick_row :: "dict list \<Rightarrow> py_exc + dict" where
  "pick_row rows =
     (case rows of
        [r] \<Rightarrow> Inr r
      | _ \<Rightarrow> if filter is_canonical rows \<noteq> [] then max_score (filter is_canonical rows) else max_score rows)"

definition dedup_by_content_hash_with_precedence :: "dict list \<Rightarrow> py_exc + dict list" where
  "dedup_by_content_hash_with_precedence rows = mapE (\<lambda>(_, g). pick_row g) (group_rows [] rows)"

definition dedup_and_precede :: "dict list \<Rightarrow> py_exc + dict list" where
  "dedup_and_precede rows = bindE (dedup_by_identity rows) dedup_by_content_hash_with_precedence"

definition resolve :: "dict list \<Rightarrow> str option \<Rightarrow> py_exc + dict list" where
  "resolve rows who = dedup_and_precede (filter_by_permission rows who)"

section \<open>The route\<close>

record query_request =
  qr_query :: str
  qr_top_k :: int
  qr_entity_filter :: "str option"
  qr_include_superseded :: bool
  qr_domain_hint :: str
  qr_requesting_principal :: "str option"

definition RETRIEVAL_SCOPE :: str where
  "RETRIEVAL_SCOPE = ''retrieval.query''"

definition REFUSAL_REASON :: str where
  "REFUSAL_REASON = ''no vault answer found above threshold''"

definition MAX_CONTENT_CHARS :: nat where
  "MAX_CONTENT_CHARS = 4000"

definition signed_scope :: "query_request \<Rightarrow> dict" where
  "signed_scope q =
     [(''top_k'', PInt (qr_top_k q)), (''entity_filter'', opt_val_str (qr_entity_filter q)),
      (''include_superseded'', PBool (qr_include_superseded q)), (''domain_hint'', PStr (qr_domain_hint q)),
      (''requesting_principal'', opt_val_str (qr_requesting_principal q))]"

definition signed_retrieval_binding :: "(dict \<Rightarrow> query_request option) \<Rightarrow> dict \<Rightarrow> auth_exc + str \<times> dict" where
  "signed_retrieval_binding validate body =
     bindE (optE (AuthenticationError ''ap2_params_invalid'') (validate body)) (\<lambda>q. Inr (qr_query q, signed_scope q))"

definition retrieval_principal ::
  "auth_ops \<Rightarrow> (dict \<Rightarrow> query_request option) \<Rightarrow> int \<Rightarrow> int \<Rightarrow> headers \<Rightarrow> dict \<Rightarrow> nonce_store \<Rightarrow> (gw_exc + principal) \<times> nonce_store" where
  "retrieval_principal ao validate current wall h body st =
     (if opt_header (hd_ap2_version h) \<noteq> [] \<or> opt_header (hd_ap2_pubkey h) \<noteq> [] then
        (case verify_ap2_envelope (ao_ed25519 ao) (ao_fromiso ao) (ao_registry ao) (ao_store ao) st current wall body
                (hd_ap2_version h) (hd_ap2_pubkey h) RETRIEVAL_SCOPE of
           Inl err \<Rightarrow> (Inl (as_401 err), st)
         | Inr (p, st') \<Rightarrow>
             (raisingE as_401
                (bindE (signed_retrieval_binding validate body) (\<lambda>(task, params).
                 bindE (assert_envelope_binds body RETRIEVAL_ENVELOPE_AGENT task params) (\<lambda>_. Inr p))), st'))
      else if opt_header (hd_principal_token h) = [] then (Inl (http 401 ''principal token required''), st)
      else
        (bindE (raisingE as_401 (verify_principal_token (ao_hmac256 ao) (ao_unb64 ao) (ao_loads ao) None (ao_env ao) current
                                   (opt_header (hd_principal_token h)))) (\<lambda>p.
         guardE (has_scope p RETRIEVAL_SCOPE) (http 403 ''principal scope denied'') (Inr p)), st))"

definition safe_content ::
  "(str \<Rightarrow> (str \<times> str) list) \<Rightarrow> ((str \<times> str) list \<Rightarrow> str) \<Rightarrow> pyval \<Rightarrow> str" where
  "safe_content pq ue v = take MAX_CONTENT_CHARS (py_str (sanitize pq ue [] (PStr (str_or_empty v))))"

text \<open>\<open>float(os.getenv(name, fallback))\<close>.\<close>

definition env_number :: "env \<Rightarrow> str \<Rightarrow> str \<Rightarrow> py_exc + (int \<times> nat)" where
  "env_number e name fallback = optE ValueError (decimal_of (strip (case e name of None \<Rightarrow> fallback | Some v \<Rightarrow> v)))"

definition min_score :: "env \<Rightarrow> py_exc + (int \<times> nat)" where
  "min_score e = env_number e ''RETRIEVAL_MIN_SCORE'' ''0.35''"

definition staleness_threshold_hours :: "env \<Rightarrow> py_exc + (int \<times> nat)" where
  "staleness_threshold_hours e = env_number e ''RETRIEVAL_STALENESS_THRESHOLD_HOURS'' ''24''"

text \<open>Times are in microseconds.\<close>

definition compute_staleness :: "env \<Rightarrow> int \<Rightarrow> int option \<Rightarrow> py_exc + int option \<times> bool" where
  "compute_staleness e now updated =
     (case updated of
        None \<Rightarrow> Inr (None, False)
      | Some u \<Rightarrow> bindE (staleness_threshold_hours e) (\<lambda>t. Inr (Some u, (now - u) * 10 ^ snd t > fst t * 3600000000)))"

fun keep_scored :: "int \<times> nat \<Rightarrow> dict list \<Rightarrow> py_exc + dict list" where
  "keep_scored least [] = Inr []"
| "keep_scored least (row # rows) =
     bindE (row_score row) (\<lambda>s. bindE (keep_scored least rows) (\<lambda>rs. Inr (if score_above least s then rs else row # rs)))"

text \<open>
  A chunk of the answer; the fields of \<^verbatim>\<open>RetrievalChunk\<close> that a row may leave out hold the row's value. A timestamp of a row is
  text here, which \<^verbatim>\<open>_isoformat\<close> keeps.
\<close>

record chunk =
  ck_chunk_id :: str
  ck_content_sha256 :: str
  ck_citation :: str
  ck_entity :: pyval
  ck_type :: pyval
  ck_status :: pyval
  ck_updated :: "str option"
  ck_supersedes :: "pyval list"
  ck_score :: "int \<times> nat"
  ck_content :: str
  ck_source :: str
  ck_source_account :: pyval
  ck_source_classification :: pyval
  ck_drive_id :: pyval
  ck_file_id :: pyval
  ck_original_path :: pyval
  ck_modified_at :: "str option"
  ck_content_hash :: pyval
  ck_staleness_flag :: pyval

definition isoformat :: "pyval \<Rightarrow> str option" where
  "isoformat v = (if v = PNone then None else Some (py_str v))"

definition row_to_chunk ::
  "(str \<Rightarrow> (str \<times> str) list) \<Rightarrow> ((str \<times> str) list \<Rightarrow> str) \<Rightarrow> dict \<Rightarrow> py_exc + chunk" where
  "row_to_chunk pq ue row =
     bindE (getitem row ''vault_path'') (\<lambda>path.
     bindE (getitem row ''heading_path'') (\<lambda>heading.
     bindE (getitem row ''chunk_id'') (\<lambda>cid.
     bindE (getitem row ''content_sha256'') (\<lambda>sha.
     bindE (row_score row) (\<lambda>score.
     Inr \<lparr>ck_chunk_id = py_str cid, ck_content_sha256 = py_str sha, ck_citation = py_str path @ ''#'' @ py_str heading,
          ck_entity = dget row ''entity'', ck_type = dget row ''type'', ck_status = dget row ''status'',
          ck_updated = isoformat (dget row ''updated''),
          ck_supersedes = (case dget row ''supersedes'' of PList vs \<Rightarrow> vs | _ \<Rightarrow> []),
          ck_score = score, ck_content = safe_content pq ue (dget row ''content_text''), ck_source = ''vault'',
          ck_source_account = PNone, ck_source_classification = PNone, ck_drive_id = PNone, ck_file_id = PNone,
          ck_original_path = PNone, ck_modified_at = None, ck_content_hash = PNone, ck_staleness_flag = PNone\<rparr>)))))"

definition row_to_kb_chunk ::
  "(str \<Rightarrow> (str \<times> str) list) \<Rightarrow> ((str \<times> str) list \<Rightarrow> str) \<Rightarrow> dict \<Rightarrow> py_exc + chunk" where
  "row_to_kb_chunk pq ue row =
     bindE (row_score row) (\<lambda>score.
     Inr \<lparr>ck_chunk_id = py_str (dget_default row ''chunk_id'' (PStr [])),
          ck_content_sha256 = py_str (dget_default row ''content_hash'' (PStr [])),
          ck_citation = py_str (dget_default row ''citation'' (dget_default row ''original_path'' (PStr []))),
          ck_entity = PNone, ck_type = PNone, ck_status = PNone, ck_updated = None, ck_supersedes = [],
          ck_score = score, ck_content = safe_content pq ue (py_or (dget row ''content_text'') (dget row ''content'')),
          ck_source = ''knowledge_backbone'', ck_source_account = dget row ''source_account'',
          ck_source_classification = dget row ''source_classification'', ck_drive_id = dget row ''drive_id'',
          ck_file_id = dget row ''file_id'', ck_original_path = dget row ''original_path'',
          ck_modified_at = isoformat (dget row ''modified_at''), ck_content_hash = dget row ''content_hash'',
          ck_staleness_flag = dget row ''staleness_flag''\<rparr>)"

text \<open>The chunks of the second backend and, where it failed, the reason (\<^verbatim>\<open>partial\<close> is true exactly when there is one); the last component says whether it was asked.\<close>

definition query_knowledge_backbone ::
  "(str \<Rightarrow> (str \<times> str) list) \<Rightarrow> ((str \<times> str) list \<Rightarrow> str) \<Rightarrow> dict list option \<Rightarrow> str \<Rightarrow> int \<times> nat \<Rightarrow> (py_exc + chunk list \<times> str option) \<times> bool" where
  "query_knowledge_backbone pq ue kb_rows who least =
     (if who = [] then (Inr ([], None), False)
      else case kb_rows of
             None \<Rightarrow> (Inr ([], Some ''knowledge_backbone unavailable''), True)
           | Some rows \<Rightarrow>
               (bindE (resolve rows (Some who)) (\<lambda>resolved.
                bindE (keep_scored least resolved) (\<lambda>scored.
                bindE (mapE (row_to_kb_chunk pq ue) scored) (\<lambda>chunks. Inr (chunks, None)))), True))"

record query_response =
  qs_chunks :: "chunk list"
  qs_index_updated_at :: "int option"
  qs_stale :: bool
  qs_refusal :: bool
  qs_reason :: "str option"
  qs_degraded :: bool
  qs_degraded_reason :: "str option"
  qs_partial :: bool
  qs_partial_reason :: "str option"

definition degraded_response :: "str \<Rightarrow> query_response" where
  "degraded_response reason =
     \<lparr>qs_chunks = [], qs_index_updated_at = None, qs_stale = False, qs_refusal = True, qs_reason = Some REFUSAL_REASON, qs_degraded = True,
      qs_degraded_reason = Some reason, qs_partial = False, qs_partial_reason = None\<rparr>"

definition retrieval_query ::
  "(str \<Rightarrow> (str \<times> str) list) \<Rightarrow> ((str \<times> str) list \<Rightarrow> str) \<Rightarrow> env \<Rightarrow> int \<Rightarrow> (dict list \<times> int option) option \<Rightarrow> dict list option \<Rightarrow> principal
     \<Rightarrow> query_request \<Rightarrow> (py_exc + query_response) \<times> bool" where
  "retrieval_query pq ue e now vault kb_rows p q =
     (case vault of
        None \<Rightarrow> (Inr (degraded_response ''assistant-tier PG unavailable''), False)
      | Some (rows, updated) \<Rightarrow>
          (case bindE (compute_staleness e now updated) (\<lambda>(u, old).
                bindE (min_score e) (\<lambda>least.
                bindE (keep_scored least rows) (\<lambda>scored.
                bindE (mapE (row_to_chunk pq ue) scored) (\<lambda>chunks. Inr (u, old, least, chunks))))) of
             Inl err \<Rightarrow> (Inl err, False)
           | Inr (u, old, least, chunks) \<Rightarrow>
               (case (if qr_domain_hint q = ''vault'' then (Inr ([], None), False)
                      else query_knowledge_backbone pq ue kb_rows (principal_id p) least) of
                  (r, asked) \<Rightarrow>
                    (bindE r (\<lambda>(kb, why).
                     Inr \<lparr>qs_chunks = chunks @ kb, qs_index_updated_at = u, qs_stale = old, qs_refusal = (chunks @ kb = []),
                          qs_reason = (if chunks @ kb = [] then Some REFUSAL_REASON else None), qs_degraded = False, qs_degraded_reason = None,
                          qs_partial = (why \<noteq> None), qs_partial_reason = why\<rparr>), asked))))"

section \<open>Selecting one row per document\<close>

lemma dict_set_keys: "k \<in> fst ` set d \<Longrightarrow> map fst (dict_set d k v) = map fst d"
  by (induction d k v rule: dict_set.induct) auto

lemma set_dict_set: "set (dict_set d k v) \<subseteq> insert (k, v) (set d)"
  by (induction d k v rule: dict_set.induct) auto

lemma map_of_key: "map_of d k = Some v \<Longrightarrow> k \<in> fst ` set d"
  by (metis image_eqI fst_conv map_of_SomeD)

text \<open>Scores are compared through their values.\<close>

definition decimal :: "int \<times> nat \<Rightarrow> rat" where
  "decimal a = of_int (fst a) / 10 ^ snd a"

lemma score_above_decimal: "score_above a b \<longleftrightarrow> decimal b < decimal a"
proof -
  have "decimal b < decimal a \<longleftrightarrow> (of_int (fst b) :: rat) * 10 ^ snd a < of_int (fst a) * 10 ^ snd b"
    by (simp add: decimal_def field_simps)
  also have "\<dots> \<longleftrightarrow> (of_int (fst b * 10 ^ snd a) :: rat) < of_int (fst a * 10 ^ snd b)" by simp
  also have "\<dots> \<longleftrightarrow> fst b * 10 ^ snd a < fst a * 10 ^ snd b" by (rule of_int_less_iff)
  finally show ?thesis by (simp add: score_above_def)
qed

definition at_most :: "dict \<Rightarrow> dict \<Rightarrow> bool" where
  "at_most r b \<longleftrightarrow> r = b \<or> (case (row_score r, row_score b) of (Inr x, Inr y) \<Rightarrow> \<not> score_above x y | _ \<Rightarrow> False)"

lemma at_most_refl [simp]: "at_most r r"
  by (simp add: at_most_def)

lemma at_most_trans: "at_most r s \<Longrightarrow> at_most s t \<Longrightarrow> at_most r t"
  by (auto simp: at_most_def score_above_decimal split: sum.splits)

lemma score_gt_at_most:
  assumes "score_gt row b = Inr better"
  shows "at_most b (if better then row else b)" and "at_most row (if better then row else b)"
  using assms by (auto simp: score_gt_def at_most_def bindE_Inr score_above_decimal)

text \<open>What the table of best rows holds of the rows seen.\<close>

definition best_inv :: "dict list \<Rightarrow> ((pyval \<times> pyval) \<times> dict) list \<Rightarrow> bool" where
  "best_inv seen best \<longleftrightarrow>
     distinct (map fst best) \<and> (\<forall>(k, r) \<in> set best. row_identity r = k \<and> r \<in> set seen) \<and>
     (\<forall>r \<in> set seen. \<exists>b. (row_identity r, b) \<in> set best \<and> at_most r b)"

text \<open>An association list without duplicate keys is a map: updating a key it has.\<close>

lemma mem_dict_set:
  assumes "distinct (map fst d)" and "map_of d k = Some v"
  shows "distinct (map fst (dict_set d k w))" and "(j, x) \<in> set (dict_set d k w) \<longleftrightarrow> (if j = k then x = w else (j, x) \<in> set d)"
proof -
  show dist: "distinct (map fst (dict_set d k w))" using assms(1) dict_set_keys [OF map_of_key [OF assms(2)]] by simp
  have "(j, x) \<in> set (dict_set d k w) \<longleftrightarrow> map_of (dict_set d k w) j = Some x"
    by (rule map_of_eq_Some_iff [OF dist, symmetric])
  also have "\<dots> \<longleftrightarrow> (if j = k then x = w else map_of d j = Some x)"
    by (auto simp only: map_of_dict_set fun_upd_apply option.inject split: if_splits)
  also have "\<dots> \<longleftrightarrow> (if j = k then x = w else (j, x) \<in> set d)" using map_of_eq_Some_iff [OF assms(1)] by simp
  finally show "(j, x) \<in> set (dict_set d k w) \<longleftrightarrow> (if j = k then x = w else (j, x) \<in> set d)" .
qed

lemma keep_better_inv:
  assumes "keep_better best row = Inr best'" and "best_inv seen best"
  shows "best_inv (seen @ [row]) best'"
proof (cases "map_of best (row_identity row)")
  case None
  have "best' = best @ [(row_identity row, row)]" using assms(1) None by (simp add: keep_better_def)
  moreover have "row_identity row \<notin> fst ` set best" using None by (simp add: map_of_eq_None_iff)
  moreover have "\<exists>b. (row_identity r, b) \<in> set (best @ [(row_identity row, row)]) \<and> at_most r b" if "r \<in> set (seen @ [row])" for r
    using assms(2) that by (cases "r = row") (auto simp: best_inv_def)
  ultimately show ?thesis using assms(2) by (auto simp: best_inv_def)
next
  case (Some existing)
  let ?k = "row_identity row"
  have dist: "distinct (map fst best)" using assms(2) by (simp add: best_inv_def)
  have old: "(?k, existing) \<in> set best" using Some by (rule map_of_SomeD)
  obtain better where sc: "score_gt row existing = Inr better"
      and best': "best' = (if better then dict_set best ?k row else best)"
    using assms(1) Some by (auto simp: keep_better_def bindE_Inr)
  let ?b = "if better then row else existing"
  have mem: "(k, b) \<in> set best' \<longleftrightarrow> (if k = ?k then b = ?b else (k, b) \<in> set best)" for k b
  proof (cases better)
    case True
    then show ?thesis using mem_dict_set(2) [OF dist Some] by (simp add: best')
  next
    case False
    then have "best' = best" "?b = existing" using best' by simp_all
    then show ?thesis using old eq_key_imp_eq_value [OF dist old, of b] by metis
  qed
  have dist': "distinct (map fst best')" using mem_dict_set(1) [OF dist Some] dist by (simp add: best')
  have own: "row_identity b = k \<and> b \<in> set (seen @ [row])" if "(k, b) \<in> set best'" for k b
    using that old assms(2) unfolding mem best_inv_def by (auto split: if_splits)
  have cov: "\<exists>b. (row_identity r, b) \<in> set best' \<and> at_most r b" if r: "r \<in> set (seen @ [row])" for r
  proof (cases "r = row")
    case True
    then show ?thesis using score_gt_at_most(2) [OF sc] unfolding mem by auto
  next
    case False
    with r assms(2) obtain b where b: "(row_identity r, b) \<in> set best" "at_most r b" unfolding best_inv_def by auto
    show ?thesis
    proof (cases "row_identity r = ?k")
      case True
      then have "b = existing" using b(1) Some map_of_eq_Some_iff [OF dist] by (metis option.inject)
      then show ?thesis using at_most_trans [OF b(2)] score_gt_at_most(1) [OF sc] True unfolding mem by auto
    next
      case False
      then show ?thesis using b unfolding mem by auto
    qed
  qed
  show ?thesis using dist' own cov unfolding best_inv_def by blast
qed

lemma best_rows_inv:
  "best_rows best rows = Inr best' \<Longrightarrow> best_inv seen best \<Longrightarrow> best_inv (seen @ rows) best'"
proof (induction rows arbitrary: best seen)
  case (Cons row rows)
  then obtain b where "keep_better best row = Inr b" "best_rows b rows = Inr best'" by (auto simp: bindE_Inr)
  with Cons.IH [of b "seen @ [row]"] keep_better_inv Cons.prems(2) show ?case by simp
qed simp

lemma dedup_by_identity_facts:
  assumes "dedup_by_identity rows = Inr out"
  shows "distinct (map row_identity out)" and "set out \<subseteq> set rows"
    and "r \<in> set rows \<Longrightarrow> \<exists>s \<in> set out. row_identity s = row_identity r \<and> at_most r s"
proof -
  obtain best where best: "best_rows [] rows = Inr best" "out = map snd best"
    using assms by (auto simp: dedup_by_identity_def bindE_Inr)
  have inv: "best_inv rows best" using best_rows_inv [OF best(1), of "[]"] by (simp add: best_inv_def)
  then have "map row_identity out = map fst best" by (auto simp: best(2) best_inv_def)
  then show "distinct (map row_identity out)" using inv by (simp add: best_inv_def)
  show "set out \<subseteq> set rows" using inv by (auto simp: best(2) best_inv_def)
  assume "r \<in> set rows"
  then obtain b where "(row_identity r, b) \<in> set best" "at_most r b" using inv by (auto simp: best_inv_def)
  moreover from this(1) have "row_identity b = row_identity r" "b \<in> set out"
    using inv by (auto simp: best(2) best_inv_def image_iff intro: bexI [rotated])
  ultimately show "\<exists>s \<in> set out. row_identity s = row_identity r \<and> at_most r s" by blast
qed

definition group_inv :: "dict list \<Rightarrow> (pyval \<times> dict list) list \<Rightarrow> bool" where
  "group_inv seen gs \<longleftrightarrow>
     distinct (map fst gs) \<and> (\<forall>(k, g) \<in> set gs. g \<noteq> [] \<and> (\<forall>r \<in> set g. dget r ''content_hash'' = k \<and> r \<in> set seen)) \<and>
     (\<forall>r \<in> set seen. \<exists>g. (dget r ''content_hash'', g) \<in> set gs \<and> r \<in> set g)"

lemma group_step_inv:
  assumes "group_inv seen gs"
  shows "group_inv (seen @ [row])
     (case map_of gs (dget row ''content_hash'') of
        None \<Rightarrow> gs @ [(dget row ''content_hash'', [row])]
      | Some g \<Rightarrow> dict_set gs (dget row ''content_hash'') (g @ [row]))"
proof (cases "map_of gs (dget row ''content_hash'')")
  case None
  let ?gs = "gs @ [(dget row ''content_hash'', [row])]"
  have "distinct (map fst ?gs)" using assms None by (simp add: group_inv_def map_of_eq_None_iff)
  moreover have "\<forall>(k, g) \<in> set ?gs. g \<noteq> [] \<and> (\<forall>r \<in> set g. dget r ''content_hash'' = k \<and> r \<in> set (seen @ [row]))"
    using assms by (auto simp: group_inv_def)
  moreover have "\<exists>g. (dget r ''content_hash'', g) \<in> set ?gs \<and> r \<in> set g" if "r \<in> set (seen @ [row])" for r
  proof (cases "r = row")
    case True
    then show ?thesis by auto
  next
    case False
    with that assms obtain g where "(dget r ''content_hash'', g) \<in> set gs" "r \<in> set g" by (auto simp: group_inv_def)
    then show ?thesis by auto
  qed
  ultimately show ?thesis using None by (simp add: group_inv_def)
next
  case (Some g)
  let ?k = "dget row ''content_hash''"
  let ?gs = "dict_set gs ?k (g @ [row])"
  have g: "(?k, g) \<in> set gs" using Some by (rule map_of_SomeD)
  have dist: "distinct (map fst gs)" using assms by (simp add: group_inv_def)
  note dist' = mem_dict_set(1) [OF dist Some, of "g @ [row]"] and mem = mem_dict_set(2) [OF dist Some, of _ _ "g @ [row]"]
  have groups: "h \<noteq> [] \<and> (\<forall>r \<in> set h. dget r ''content_hash'' = k \<and> r \<in> set (seen @ [row]))" if "(k, h) \<in> set ?gs" for k h
    using that assms g unfolding mem group_inv_def by (auto split: if_splits)
  have covered: "\<exists>h. (dget r ''content_hash'', h) \<in> set ?gs \<and> r \<in> set h" if "r \<in> set (seen @ [row])" for r
  proof (cases "dget r ''content_hash'' = ?k")
    case True
    have "r \<in> set (g @ [row])"
    proof (cases "r = row")
      case False
      with that assms True obtain h where "(?k, h) \<in> set gs" "r \<in> set h" unfolding group_inv_def by auto
      with g dist show ?thesis by (metis Some UnCI map_of_eq_Some_iff option.inject set_append)
    qed simp
    with True show ?thesis unfolding mem by auto
  next
    case False
    with that assms show ?thesis unfolding mem group_inv_def by auto
  qed
  show ?thesis using dist' groups covered Some by (auto simp: group_inv_def)
qed

lemma group_rows_inv: "group_inv seen gs \<Longrightarrow> group_inv (seen @ rows) (group_rows gs rows)"
proof (induction rows arbitrary: gs seen)
  case (Cons row rows)
  from Cons.IH [OF group_step_inv [OF Cons.prems, of row]] show ?case by (simp add: Let_def)
qed simp

lemma best_of_facts:
  "best_of b rows = Inr r \<Longrightarrow> r \<in> insert b (set rows) \<and> (\<forall>s \<in> insert b (set rows). at_most s r)"
proof (induction rows arbitrary: b)
  case (Cons row rows)
  then obtain better where sc: "score_gt row b = Inr better" and rest: "best_of (if better then row else b) rows = Inr r"
    by (auto simp: bindE_Inr)
  let ?c = "if better then row else b"
  have IH: "r \<in> insert ?c (set rows)" "at_most ?c r" "\<forall>s \<in> set rows. at_most s r" using Cons.IH [OF rest] by auto
  moreover have "at_most b r" "at_most row r"
    using at_most_trans [OF score_gt_at_most(1) [OF sc] IH(2)] at_most_trans [OF score_gt_at_most(2) [OF sc] IH(2)] by simp_all
  ultimately show ?case by (cases better) auto
qed simp

lemma max_score_facts: "max_score rows = Inr r \<Longrightarrow> r \<in> set rows \<and> (\<forall>s \<in> set rows. at_most s r)"
  by (cases rows) (auto simp: max_score_def bindE_Inr dest: best_of_facts)

lemma pick_row_facts:
  assumes "pick_row g = Inr r"
  shows "r \<in> set g \<and> (\<forall>s \<in> set g. (is_canonical s \<longrightarrow> is_canonical r) \<and> (is_canonical s = is_canonical r \<longrightarrow> at_most s r))"
proof (cases "\<exists>x. g = [x]")
  case True
  with assms show ?thesis by (auto simp: pick_row_def)
next
  case False
  then have pick: "pick_row g = (if filter is_canonical g \<noteq> [] then max_score (filter is_canonical g) else max_score g)"
    by (auto simp: pick_row_def split: list.splits)
  show ?thesis
  proof (cases "filter is_canonical g = []")
    case True
    then show ?thesis using max_score_facts [of g r] assms pick by (simp add: filter_empty_conv)
  next
    case False
    then show ?thesis using max_score_facts [of "filter is_canonical g" r] assms pick by auto
  qed
qed

lemma dedup_by_content_hash_facts:
  assumes "dedup_by_content_hash_with_precedence rows = Inr out"
  shows "distinct (map (\<lambda>r. dget r ''content_hash'') out)" and "set out \<subseteq> set rows"
    and "r \<in> set rows \<Longrightarrow> \<exists>t \<in> set out. dget t ''content_hash'' = dget r ''content_hash'' \<and>
           (is_canonical r \<longrightarrow> is_canonical t) \<and> (is_canonical r = is_canonical t \<longrightarrow> at_most r t)"
proof -
  let ?gs = "group_rows [] rows"
  have inv: "group_inv rows ?gs" using group_rows_inv [of "[]" "[]" rows] by (simp add: group_inv_def)
  have picks: "list_all2 (\<lambda>g t. pick_row (snd g) = Inr t) ?gs out"
    using mapE_Inr [OF assms [unfolded dedup_by_content_hash_with_precedence_def]] by (simp add: case_prod_beta)
  have from_group: "dget t ''content_hash'' = k \<and> t \<in> set rows" if "(k, g) \<in> set ?gs" "pick_row g = Inr t" for k g t
    using inv that(1) pick_row_facts [OF that(2)] unfolding group_inv_def by blast
  have keys: "map (\<lambda>t. dget t ''content_hash'') out = map fst ?gs"
    using picks from_group by (auto simp: list_all2_conv_all_nth intro!: nth_equalityI) (metis nth_mem prod.collapse)
  then show "distinct (map (\<lambda>r. dget r ''content_hash'') out)" using inv by (simp add: group_inv_def)
  show "set out \<subseteq> set rows"
    using picks from_group by (auto simp: list_all2_conv_all_nth in_set_conv_nth) (metis in_set_conv_nth nth_mem prod.collapse)
  assume "r \<in> set rows"
  then obtain g where g: "(dget r ''content_hash'', g) \<in> set ?gs" "r \<in> set g" using inv by (auto simp: group_inv_def)
  then obtain t where "t \<in> set out" "pick_row g = Inr t" using picks
    by (auto simp: list_all2_conv_all_nth in_set_conv_nth) (metis snd_conv)
  with from_group [OF g(1) this(2)] pick_row_facts [OF this(2)] g(2)
  show "\<exists>t \<in> set out. dget t ''content_hash'' = dget r ''content_hash'' \<and>
           (is_canonical r \<longrightarrow> is_canonical t) \<and> (is_canonical r = is_canonical t \<longrightarrow> at_most r t)" by blast
qed

section \<open>What a principal is shown\<close>

lemma filter_by_permission_set:
  "set (filter_by_permission rows (Some who)) =
     {r \<in> set rows. who \<noteq> [] \<and> has_matching_access (dget r ''permissions_snapshot'') who}"
  by (auto simp: filter_by_permission_def)

lemma map_distinct_on_subset:
  assumes "distinct (map f xs)" and "set ys \<subseteq> set xs" and "distinct ys"
  shows "distinct (map f ys)"
proof -
  have "inj_on f (set xs)" using assms(1) by (simp add: distinct_map)
  then have "inj_on f (set ys)" using assms(2) by (rule inj_on_subset)
  with assms(3) show ?thesis by (simp add: distinct_map)
qed

text \<open>
  C38. The rows the second backend answers with are rows of its index that the principal may read, no two of them the same file and no two of
  them the same content. No readable row is lost but to a row the principal may read as well: the best scored row of the same file, then the
  row kept for that content, which is canonical if any of them is, and the best scored among those of its own kind.
\<close>

theorem resolve_sound:
  assumes "resolve rows (Some who) = Inr out"
  shows "(\<forall>t \<in> set out. t \<in> set rows \<and> has_matching_access (dget t ''permissions_snapshot'') who) \<and>
    distinct (map row_identity out) \<and> distinct (map (\<lambda>t. dget t ''content_hash'') out) \<and>
    (\<forall>r \<in> set rows. who \<noteq> [] \<longrightarrow> has_matching_access (dget r ''permissions_snapshot'') who \<longrightarrow>
       (\<exists>s \<in> set rows. \<exists>t \<in> set out. has_matching_access (dget s ''permissions_snapshot'') who \<and>
          row_identity s = row_identity r \<and> at_most r s \<and>
          dget t ''content_hash'' = dget s ''content_hash'' \<and> (is_canonical s \<longrightarrow> is_canonical t) \<and>
          (is_canonical s = is_canonical t \<longrightarrow> at_most s t)))"
proof -
  let ?readable = "filter_by_permission rows (Some who)"
  obtain ids where ids: "dedup_by_identity ?readable = Inr ids" and out: "dedup_by_content_hash_with_precedence ids = Inr out"
    using assms by (auto simp: resolve_def dedup_and_precede_def bindE_Inr)
  note I = dedup_by_identity_facts [OF ids] and H = dedup_by_content_hash_facts [OF out]
  have shown: "\<forall>t \<in> set out. t \<in> set rows \<and> has_matching_access (dget t ''permissions_snapshot'') who"
    using H(2) I(2) by (auto simp: filter_by_permission_set)
  have ident: "distinct (map row_identity out)" using map_distinct_on_subset [OF I(1) H(2)] H(1) by (simp add: distinct_map)
  have kept: "\<exists>s \<in> set rows. \<exists>t \<in> set out. has_matching_access (dget s ''permissions_snapshot'') who \<and>
      row_identity s = row_identity r \<and> at_most r s \<and>
      dget t ''content_hash'' = dget s ''content_hash'' \<and> (is_canonical s \<longrightarrow> is_canonical t) \<and>
      (is_canonical s = is_canonical t \<longrightarrow> at_most s t)"
    if "r \<in> set rows" "who \<noteq> []" "has_matching_access (dget r ''permissions_snapshot'') who" for r
  proof -
    have "r \<in> set ?readable" using that by (simp add: filter_by_permission_set)
    from I(3) [OF this] obtain s where s: "s \<in> set ids" "row_identity s = row_identity r" "at_most r s" by blast
    moreover from s(1) I(2) have "s \<in> set rows" "has_matching_access (dget s ''permissions_snapshot'') who"
      by (auto simp: filter_by_permission_set)
    ultimately show ?thesis using H(3) [OF s(1)] by blast
  qed
  show ?thesis using shown ident H(1) kept by blast
qed

text \<open>Ranking fails only on a score that is no number.\<close>

definition scored_row :: "dict \<Rightarrow> bool" where
  "scored_row r \<longleftrightarrow> (\<exists>x. row_score r = Inr x)"

lemma score_gt_total: "scored_row a \<Longrightarrow> scored_row b \<Longrightarrow> \<exists>v. score_gt a b = Inr v"
  by (auto simp: scored_row_def score_gt_def)

lemma keep_better_total:
  assumes "scored_row row" and "\<forall>(k, r) \<in> set best. scored_row r"
  shows "\<exists>best'. keep_better best row = Inr best' \<and> (\<forall>(k, r) \<in> set best'. scored_row r)"
proof (cases "map_of best (row_identity row)")
  case None
  then show ?thesis using assms by (auto simp: keep_better_def)
next
  case (Some existing)
  have "scored_row existing" using assms(2) map_of_SomeD [OF Some] by blast
  with score_gt_total assms(1) obtain v where "score_gt row existing = Inr v" by blast
  moreover have "\<forall>(k, r) \<in> set (dict_set best (row_identity row) row). scored_row r"
    using assms set_dict_set [of best "row_identity row" row] by blast
  ultimately show ?thesis using Some assms(2) by (auto simp: keep_better_def)
qed

lemma best_rows_total:
  "\<forall>r \<in> set rows. scored_row r \<Longrightarrow> \<forall>(k, r) \<in> set best. scored_row r \<Longrightarrow> \<exists>best'. best_rows best rows = Inr best'"
proof (induction rows arbitrary: best)
  case (Cons row rows)
  then obtain b where "keep_better best row = Inr b" "\<forall>(k, r) \<in> set b. scored_row r"
    using keep_better_total [of row best] by auto
  with Cons.IH [of b] Cons.prems(1) show ?case by simp
qed simp

lemma best_of_total: "scored_row b \<Longrightarrow> \<forall>r \<in> set rows. scored_row r \<Longrightarrow> \<exists>t. best_of b rows = Inr t"
proof (induction rows arbitrary: b)
  case (Cons row rows)
  then obtain v where "score_gt row b = Inr v" using score_gt_total [of row b] by auto
  with Cons.IH [of "if v then row else b"] Cons.prems show ?case by simp
qed simp

lemma max_score_total: "g \<noteq> [] \<Longrightarrow> \<forall>r \<in> set g. scored_row r \<Longrightarrow> \<exists>t. max_score g = Inr t"
  by (cases g) (auto simp: max_score_def scored_row_def intro!: best_of_total)

lemma pick_row_total:
  assumes "g \<noteq> []" and "\<forall>r \<in> set g. scored_row r"
  shows "\<exists>t. pick_row g = Inr t"
proof (cases "\<exists>x. g = [x]")
  case False
  have "\<exists>t. (if filter is_canonical g \<noteq> [] then max_score (filter is_canonical g) else max_score g) = Inr t"
    using max_score_total [of "filter is_canonical g"] max_score_total [OF assms] assms(2) by auto
  then show ?thesis using False by (auto simp: pick_row_def split: list.splits)
qed (auto simp: pick_row_def)

lemma mapE_total: "\<forall>x \<in> set xs. \<exists>y. f x = Inr y \<Longrightarrow> \<exists>ys. mapE f xs = Inr ys"
  by (induction xs) auto

lemma resolve_total:
  assumes "\<forall>r \<in> set rows. scored_row r"
  shows "\<exists>out. resolve rows who = Inr out"
proof -
  let ?readable = "filter_by_permission rows who"
  have sub: "set ?readable \<subseteq> set rows" by (auto simp: filter_by_permission_def split: option.splits if_splits)
  then obtain best where "best_rows [] ?readable = Inr best" using best_rows_total [of ?readable "[]"] assms by auto
  then obtain ids where ids: "dedup_by_identity ?readable = Inr ids" by (auto simp: dedup_by_identity_def)
  have inv: "group_inv ids (group_rows [] ids)" using group_rows_inv [of "[]" "[]" ids] by (simp add: group_inv_def)
  have "\<exists>t. pick_row g = Inr t" if "(k, g) \<in> set (group_rows [] ids)" for k g
  proof (rule pick_row_total)
    show "g \<noteq> []" using inv that unfolding group_inv_def by blast
    have "set g \<subseteq> set ids" using inv that unfolding group_inv_def by blast
    then show "\<forall>r \<in> set g. scored_row r" using dedup_by_identity_facts(2) [OF ids] sub assms by blast
  qed
  then have "\<exists>out. mapE (\<lambda>(_, g). pick_row g) (group_rows [] ids) = Inr out" by (intro mapE_total) auto
  with ids show ?thesis
    by (simp add: resolve_def dedup_and_precede_def dedup_by_content_hash_with_precedence_def)
qed

lemma resolve_shown:
  assumes "resolve rows (Some who) = Inr out" and "r \<in> set out"
  shows "r \<in> set rows" and "has_matching_access (dget r ''permissions_snapshot'') who"
proof -
  obtain ids where ids: "dedup_by_identity (filter_by_permission rows (Some who)) = Inr ids"
    and out: "dedup_by_content_hash_with_precedence ids = Inr out"
    using assms(1) by (auto simp: resolve_def dedup_and_precede_def bindE_Inr)
  have "r \<in> set (filter_by_permission rows (Some who))"
    using assms(2) dedup_by_content_hash_facts(2) [OF out] dedup_by_identity_facts(2) [OF ids] by blast
  then show "r \<in> set rows" and "has_matching_access (dget r ''permissions_snapshot'') who"
    by (auto simp: filter_by_permission_set)
qed

lemma keep_scored_shown: "keep_scored least rows = Inr out \<Longrightarrow> r \<in> set out \<Longrightarrow>
   r \<in> set rows \<and> (\<exists>s. row_score r = Inr s \<and> \<not> score_above least s)"
  by (induction rows arbitrary: out) (auto simp: bindE_Inr split: if_splits)

lemma mapE_member: "mapE f xs = Inr ys \<Longrightarrow> y \<in> set ys \<Longrightarrow> \<exists>x \<in> set xs. f x = Inr y"
  by (induction xs arbitrary: ys) (auto simp: bindE_Inr)

lemma row_to_chunk_fields:
  assumes "row_to_chunk pq ue r = Inr c"
  shows "ck_source c = ''vault''" and "row_score r = Inr (ck_score c)" and "length (ck_content c) \<le> 4000"
  using assms by (auto simp: row_to_chunk_def safe_content_def MAX_CONTENT_CHARS_def bindE_Inr)

lemma row_to_kb_chunk_fields:
  assumes "row_to_kb_chunk pq ue r = Inr c"
  shows "ck_source c = ''knowledge_backbone''" and "row_score r = Inr (ck_score c)" and "length (ck_content c) \<le> 4000"
  using assms by (auto simp: row_to_kb_chunk_def safe_content_def MAX_CONTENT_CHARS_def bindE_Inr)

definition kb_shown ::
  "(str \<Rightarrow> (str \<times> str) list) \<Rightarrow> ((str \<times> str) list \<Rightarrow> str) \<Rightarrow> dict list option \<Rightarrow> str \<Rightarrow> chunk \<Rightarrow> bool" where
  "kb_shown pq ue kb_rows who c \<longleftrightarrow>
     (\<exists>rows r. kb_rows = Some rows \<and> r \<in> set rows \<and> has_matching_access (dget r ''permissions_snapshot'') who \<and>
        row_to_kb_chunk pq ue r = Inr c)"

lemma query_knowledge_backbone_shown:
  assumes "query_knowledge_backbone pq ue kb_rows who least = (Inr (cs, why), asked)" and "c \<in> set cs"
  shows "asked" and "kb_shown pq ue kb_rows who c" and "\<not> score_above least (ck_score c)" and "length (ck_content c) \<le> 4000"
    and "ck_source c = ''knowledge_backbone''"
proof -
  from assms obtain rows resolved scored where kb: "kb_rows = Some rows" and asked: "asked" and out: "resolve rows (Some who) = Inr resolved"
    and scored: "keep_scored least resolved = Inr scored" and cs: "mapE (row_to_kb_chunk pq ue) scored = Inr cs"
    by (auto simp: query_knowledge_backbone_def bindE_Inr split: if_splits option.splits)
  from mapE_member [OF cs assms(2)] obtain r where r: "r \<in> set scored" "row_to_kb_chunk pq ue r = Inr c" by blast
  note F = row_to_kb_chunk_fields [OF r(2)] and K = keep_scored_shown [OF scored r(1)]
  show "asked" by (rule asked)
  have "r \<in> set resolved" using K by blast
  with resolve_shown [OF out] kb r(2) show "kb_shown pq ue kb_rows who c" by (auto simp: kb_shown_def)
  show "\<not> score_above least (ck_score c)" using K F(2) by auto
  show "length (ck_content c) \<le> 4000" by (rule F(3))
  show "ck_source c = ''knowledge_backbone''" by (rule F(1))
qed

lemma vault_chunks_shown:
  assumes "keep_scored least rows = Inr scored" and "mapE (row_to_chunk pq ue) scored = Inr cs" and "c \<in> set cs"
  shows "\<exists>r \<in> set rows. row_to_chunk pq ue r = Inr c" and "\<not> score_above least (ck_score c)" and "length (ck_content c) \<le> 4000"
    and "ck_source c = ''vault''"
proof -
  from mapE_member [OF assms(2,3)] obtain r where r: "r \<in> set scored" "row_to_chunk pq ue r = Inr c" by blast
  note F = row_to_chunk_fields [OF r(2)] and K = keep_scored_shown [OF assms(1) r(1)]
  show "\<exists>r \<in> set rows. row_to_chunk pq ue r = Inr c" using K r(2) by blast
  show "\<not> score_above least (ck_score c)" using K F(2) by auto
  show "length (ck_content c) \<le> 4000" by (rule F(3))
  show "ck_source c = ''vault''" by (rule F(1))
qed

text \<open>
  An answer of the retrieval route holds no chunk below the threshold or over the content bound. A chunk of the second backend was made
  of a row the authenticated principal may read, whoever the request names, and a query scoped to the vault never asks that backend. An empty
  answer, and no other, is a refusal, with its reason, and only the failure of the vault's store marks the answer degraded.
\<close>

theorem retrieval_confined:
  assumes "retrieval_query pq ue e now vault kb_rows p q = (Inr answer, asked)"
  shows "(\<forall>c \<in> set (qs_chunks answer).
       (\<exists>least. min_score e = Inr least \<and> \<not> score_above least (ck_score c)) \<and> length (ck_content c) \<le> 4000 \<and>
       (if ck_source c = ''vault'' then \<exists>rows updated. \<exists>r \<in> set rows. vault = Some (rows, updated) \<and> row_to_chunk pq ue r = Inr c
        else asked \<and> kb_shown pq ue kb_rows (principal_id p) c)) \<and>
     (qr_domain_hint q = ''vault'' \<longrightarrow> \<not> asked) \<and>
     (qs_refusal answer \<longleftrightarrow> qs_chunks answer = []) \<and> (qs_refusal answer \<longleftrightarrow> qs_reason answer = Some REFUSAL_REASON) \<and>
     (qs_degraded answer \<longleftrightarrow> vault = None)"
proof (cases vault)
  case None
  with assms show ?thesis by (auto simp: retrieval_query_def degraded_response_def)
next
  case (Some va)
  obtain rows updated where va: "va = (rows, updated)" by (cases va)
  from assms Some va obtain u old least scored vs kb why where least: "min_score e = Inr least"
    and scored: "keep_scored least rows = Inr scored" and vs: "mapE (row_to_chunk pq ue) scored = Inr vs"
    and kb: "(if qr_domain_hint q = ''vault'' then (Inr ([], None), False)
              else query_knowledge_backbone pq ue kb_rows (principal_id p) least) = (Inr (kb, why), asked)"
    and answer: "qs_chunks answer = vs @ kb" "qs_refusal answer = (vs @ kb = [])" "\<not> qs_degraded answer"
      "qs_reason answer = (if vs @ kb = [] then Some REFUSAL_REASON else None)"
    by (fastforce simp: retrieval_query_def bindE_Inr split: sum.splits prod.splits)
  have "(\<exists>least. min_score e = Inr least \<and> \<not> score_above least (ck_score c)) \<and> length (ck_content c) \<le> 4000 \<and>
       (if ck_source c = ''vault'' then \<exists>rows updated. \<exists>r \<in> set rows. vault = Some (rows, updated) \<and> row_to_chunk pq ue r = Inr c
        else asked \<and> kb_shown pq ue kb_rows (principal_id p) c)" if "c \<in> set (qs_chunks answer)" for c
  proof (cases "c \<in> set vs")
    case True
    from vault_chunks_shown [OF scored vs True] least Some va show ?thesis by auto
  next
    case False
    then have c: "c \<in> set kb" using that answer(1) by auto
    then have "qr_domain_hint q \<noteq> ''vault''" using kb by (auto split: if_splits)
    then have "query_knowledge_backbone pq ue kb_rows (principal_id p) least = (Inr (kb, why), asked)" using kb by simp
    from query_knowledge_backbone_shown [OF this c] least show ?thesis by simp
  qed
  moreover have "qr_domain_hint q = ''vault'' \<longrightarrow> \<not> asked" using kb by auto
  moreover have "(qs_refusal answer \<longleftrightarrow> qs_chunks answer = []) \<and> (qs_refusal answer \<longleftrightarrow> qs_reason answer = Some REFUSAL_REASON) \<and>
     (qs_degraded answer \<longleftrightarrow> vault = None)" using answer Some by simp
  ultimately show ?thesis by blast
qed

section \<open>Who may query\<close>

lemma token_mac:
  assumes "verify_principal_token hmac256 unb64 loads key e t token = Inr p"
  obtains k enc where "token_key key e = Inr k" and "token = TOKEN_PREFIX @ ''.'' @ enc @ ''.'' @ hmac256 k enc"
proof -
  from assms obtain v where "decode_token hmac256 unb64 loads key e token = Inr v"
    by (auto simp: verify_principal_token_def call_Inr)
  then show ?thesis using that by (rule decode_token_Inr)
qed

lemma signed_retrieval_binding_Inr:
  "signed_retrieval_binding validate body = Inr (task, params) \<longleftrightarrow>
     (\<exists>q. validate body = Some q \<and> task = qr_query q \<and> params = signed_scope q)"
  by (auto simp: signed_retrieval_binding_def call_Inr)

text \<open>
  Whoever is let in to the retrieval route holds its scope. A request with an AP2 header is let in only when the envelope's signature
  covers the retrieval agent's name, the text of the query and every field of its scope as the route will read them; without one, only on a
  continuation token made with the server's key, so the key of the gateway never suffices.
\<close>

theorem retrieval_query_signed:
  assumes "retrieval_principal ao validate current wall h body st = (Inr p, st')"
  shows "has_scope p ''retrieval.query'' \<and>
    (if opt_header (hd_ap2_version h) \<noteq> [] \<or> opt_header (hd_ap2_pubkey h) \<noteq> []
     then \<exists>q payload signed. validate body = Some q \<and> dget body ''payload'' = PDict payload \<and>
        ao_ed25519 ao (str_or_empty (dget body ''pubkey'')) (str_or_empty (dget body ''signature''))
          (signed_message payload (str_or_empty (dget body ''nonce'')) (str_or_empty (dget body ''timestamp''))) \<and>
        str_or_empty (dget payload ''agent'') = ''retrieval.query'' \<and> str_or_empty (dget payload ''task'') = qr_query q \<and>
        dget payload ''params'' = PDict signed \<and> canonical_json_raw (PDict signed) = canonical_json_raw (PDict (signed_scope q))
     else \<exists>k enc. token_key None (ao_env ao) = Inr k \<and>
        opt_header (hd_principal_token h) = TOKEN_PREFIX @ ''.'' @ enc @ ''.'' @ ao_hmac256 ao k enc)"
proof (cases "opt_header (hd_ap2_version h) \<noteq> [] \<or> opt_header (hd_ap2_pubkey h) \<noteq> []")
  case True
  then obtain task params where
    ap2: "verify_ap2_envelope (ao_ed25519 ao) (ao_fromiso ao) (ao_registry ao) (ao_store ao) st current wall body
            (hd_ap2_version h) (hd_ap2_pubkey h) RETRIEVAL_SCOPE = Inr (p, st')"
    and b: "signed_retrieval_binding validate body = Inr (task, params)"
      "assert_envelope_binds body RETRIEVAL_ENVELOPE_AGENT task params = Inr ()"
    using assms by (auto simp: retrieval_principal_def call_Inr split: sum.splits)
  from b(1) obtain q where q: "validate body = Some q" "task = qr_query q" "params = signed_scope q"
    by (auto simp: signed_retrieval_binding_Inr)
  from ap2 show ?thesis
  proof (rule verify_ap2_envelope_InrE, goal_cases)
    case (1 payload stamped clients client scs cidv)
    from b(2) 1(1) obtain signed where "str_or_empty (dget payload ''agent'') = ''retrieval.query''" "str_or_empty (dget payload ''task'') = qr_query q"
      "dget payload ''params'' = PDict signed" "canonical_json_raw (PDict signed) = canonical_json_raw (PDict (signed_scope q))"
      by (auto simp: assert_envelope_binds_def RETRIEVAL_ENVELOPE_AGENT_def eq_text_def q split: pyval.splits if_splits)
    moreover have "has_scope p ''retrieval.query''" using 1(9,13) by (auto simp: has_scope_def RETRIEVAL_SCOPE_def)
    ultimately show ?case using True q(1) 1(1,10) by auto
  qed
next
  case False
  then have "verify_principal_token (ao_hmac256 ao) (ao_unb64 ao) (ao_loads ao) None (ao_env ao) current (opt_header (hd_principal_token h)) = Inr p"
    and scope: "has_scope p RETRIEVAL_SCOPE"
    using assms by (auto simp: retrieval_principal_def call_Inr split: if_splits)
  from this(1) show ?thesis by (rule token_mac) (use False scope in \<open>auto simp: RETRIEVAL_SCOPE_def\<close>)
qed

section \<open>A concrete query\<close>

definition kb_row :: "str \<Rightarrow> str \<Rightarrow> str \<Rightarrow> str \<Rightarrow> str \<Rightarrow> dict" where
  "kb_row reader file hash kind score =
     [(''drive_id'', PStr ''d''), (''file_id'', PStr file), (''content_hash'', PStr hash), (''source_classification'', PStr kind),
      (''permissions_snapshot'', PDict [(''principals'', PList [PStr reader])]), (''score'', PFloat score), (''chunk_id'', PStr file)]"

definition sample_kb :: "dict list" where
  "sample_kb =
     [kb_row ''u'' ''f1'' ''h'' ''controller'' ''0.9'', kb_row ''u'' ''f2'' ''h'' ''canonical'' ''0.4'',
      kb_row ''u'' ''f2'' ''h'' ''canonical'' ''0.6'', kb_row ''v'' ''f3'' ''g'' ''canonical'' ''0.8'']"

lemma sample_resolved: "resolve sample_kb (Some ''u'') = Inr [kb_row ''u'' ''f2'' ''h'' ''canonical'' ''0.6'']"
  by code_simp

theorem resolve_sound_witness:
  "\<exists>s \<in> set sample_kb. row_identity s = (PStr ''d'', PStr ''f1'') \<and>
     (is_canonical s \<longrightarrow> is_canonical (kb_row ''u'' ''f2'' ''h'' ''canonical'' ''0.6''))"
proof -
  let ?r = "kb_row ''u'' ''f1'' ''h'' ''controller'' ''0.9''" and ?t = "kb_row ''u'' ''f2'' ''h'' ''canonical'' ''0.6''"
  have mem: "?r \<in> set sample_kb" by (simp add: sample_kb_def)
  have acc: "has_matching_access (dget ?r ''permissions_snapshot'') ''u''" by code_simp
  have ident: "row_identity ?r = (PStr ''d'', PStr ''f1'')" by code_simp
  from resolve_sound [OF sample_resolved]
  have "\<forall>r \<in> set sample_kb. ''u'' \<noteq> [] \<longrightarrow> has_matching_access (dget r ''permissions_snapshot'') ''u'' \<longrightarrow>
      (\<exists>s \<in> set sample_kb. \<exists>t \<in> set [?t]. row_identity s = row_identity r \<and> (is_canonical s \<longrightarrow> is_canonical t))" by blast
  from bspec [OF this mem] acc obtain s where "s \<in> set sample_kb" "row_identity s = row_identity ?r" "is_canonical s \<longrightarrow> is_canonical ?t"
    by auto
  with ident show ?thesis by auto
qed

definition sample_query :: query_request where
  "sample_query =
     \<lparr>qr_query = ''go'', qr_top_k = 8, qr_entity_filter = None, qr_include_superseded = False, qr_domain_hint = ''any'',
      qr_requesting_principal = Some ''v''\<rparr>"

definition sample_validate :: "dict \<Rightarrow> query_request option" where
  "sample_validate body = Some sample_query"

definition reader_registry :: dict where
  "reader_registry =
     [(''version'', PInt 1),
      (''clients'', PList [PDict [(''client_id'', PStr ''cato''), (''enabled'', PBool True), (''pubkey_b64'', PStr ''PK''),
         (''principal_id'', PStr ''u''), (''tenant_id'', PStr ''t''), (''capabilities'', PList [PStr ''retrieval.query''])]])]"

definition reader_principal :: principal where
  "reader_principal =
     \<lparr>principal_id = ''u'', tenant_id = ''t'', client_id = ''cato'', scopes = [''retrieval.query''], auth_method = ''ap2'', expires_at = 1300\<rparr>"

definition query_body :: dict where
  "query_body =
     [(''version'', PInt 1),
      (''payload'', PDict [(''agent'', PStr ''retrieval.query''), (''task'', PStr ''go''), (''params'', PDict (signed_scope sample_query))]),
      (''nonce'', PStr ''nonce-0123456789''), (''timestamp'', PStr ''T''), (''pubkey'', PStr ''PK''), (''signature'', PStr ''good'')]"

definition reader_ops :: auth_ops where
  "reader_ops = gw_ops\<lparr>ao_registry := reader_registry\<rparr>"

lemma reader_let_in:
  "retrieval_principal reader_ops sample_validate 1010 1010 gw_headers query_body sample_store =
     (Inr reader_principal, \<lparr>ns_postgres = [sample_row], ns_sqlite = []\<rparr>)"
  by code_simp

theorem retrieval_query_signed_witness:
  "has_scope reader_principal ''retrieval.query'' \<and> sample_validate query_body = Some sample_query"
  using retrieval_query_signed [OF reader_let_in] by (simp add: sample_validate_def)

definition sample_answer :: query_response where
  "sample_answer =
     projr (fst (retrieval_query (\<lambda>_. []) (\<lambda>_. []) Map.empty 0 (Some ([], None)) (Some sample_kb) reader_principal sample_query))"

lemma sample_answered:
  "retrieval_query (\<lambda>_. []) (\<lambda>_. []) Map.empty 0 (Some ([], None)) (Some sample_kb) reader_principal sample_query = (Inr sample_answer, True)"
  by code_simp

lemma sample_chunks: "map ck_chunk_id (qs_chunks sample_answer) = [''f2'']"
  by code_simp

theorem retrieval_confined_witness:
  "\<exists>c \<in> set (qs_chunks sample_answer). ck_chunk_id c = ''f2'' \<and> length (ck_content c) \<le> 4000 \<and> \<not> qs_refusal sample_answer"
proof -
  obtain c where "c \<in> set (qs_chunks sample_answer)" "ck_chunk_id c = ''f2''" using sample_chunks by (auto simp: map_eq_Cons_conv)
  with retrieval_confined [OF sample_answered] show ?thesis by (metis list.set_cases list.discI)
qed

text \<open>The identity the request names is not the one the second backend is filtered by.\<close>

lemma requesting_principal_unused:
  "retrieval_query pq ue e now vault kb_rows p (q\<lparr>qr_requesting_principal := x\<rparr>) = retrieval_query pq ue e now vault kb_rows p q"
proof -
  have "qr_domain_hint (q\<lparr>qr_requesting_principal := x\<rparr>) = qr_domain_hint q" by simp
  then show ?thesis unfolding retrieval_query_def by (rule ssubst) (rule refl)
qed

end
