(* ===== verification/Anthropic_Wire.thy ===== *)
theory Anthropic_Wire
  imports Agent_Runtime
begin

text \<open>
  The model gateway: \<^verbatim>\<open>runtime/anthropic_wire.py\<close> and the model calls of \<^verbatim>\<open>agent_runtime.py\<close> (\<open>_is_anthropic\<close>,
  \<open>_call_anthropic\<close>, \<open>_call_llm_inner\<close>).

  The agent loop keeps its history in the chat-completions shape; the wire translation turns it into the Messages shape and the answer
  back. \<open>json.loads\<close> is the argument \<open>loads\<close>, which yields \<open>None\<close> where it raises. What the provider answers to the \<open>i\<close>-th request is
  an argument of a call; the tracing span around it is not modelled.
\<close>

section \<open>Model names\<close>

definition ANTHROPIC_HOST_MARKERS :: "str list" where
  "ANTHROPIC_HOST_MARKERS = [''api.anthropic.com'']"

definition MODEL_ID_TRANSLATIONS :: "(str \<times> str) list" where [table_defs]:
  "MODEL_ID_TRANSLATIONS =
     [(''anthropic/claude-sonnet-4-5'', ''claude-sonnet-4-5-20250929''), (''anthropic/claude-haiku-4-5'', ''claude-haiku-4-5-20251001''),
      (''anthropic/claude-opus-4-5'', ''claude-opus-4-5-20251101''), (''anthropic/claude-sonnet-5'', ''claude-sonnet-5''),
      (''anthropic/claude-opus-5'', ''claude-opus-5''), (''anthropic/claude-fable-5'', ''claude-fable-5''),
      (''claude-sonnet-4-5'', ''claude-sonnet-4-5-20250929''), (''claude-haiku-4-5'', ''claude-haiku-4-5-20251001''),
      (''claude-opus-4-5'', ''claude-opus-4-5-20251101'')]"

definition KNOWN_ANTHROPIC_MODEL_IDS :: "str list" where [table_defs]:
  "KNOWN_ANTHROPIC_MODEL_IDS =
     [''claude-opus-5'', ''claude-sonnet-5'', ''claude-fable-5'', ''claude-opus-4-8'', ''claude-opus-4-7'', ''claude-sonnet-4-6'',
      ''claude-opus-4-6'', ''claude-opus-4-5-20251101'', ''claude-haiku-4-5-20251001'', ''claude-sonnet-4-5-20250929'']"

definition DEFAULT_ANTHROPIC_MODEL :: str where
  "DEFAULT_ANTHROPIC_MODEL = ''claude-sonnet-4-5-20250929''"

definition ANTHROPIC_FALLBACK_MODELS :: "str list" where
  "ANTHROPIC_FALLBACK_MODELS = [''claude-sonnet-4-5-20250929'', ''claude-haiku-4-5-20251001'']"

definition is_anthropic_url :: "str \<Rightarrow> bool" where
  "is_anthropic_url url \<longleftrightarrow> list_ex (\<lambda>marker. str_in marker url) ANTHROPIC_HOST_MARKERS"

definition translate_model_id :: "str option \<Rightarrow> str" where
  "translate_model_id model =
     (let raw = strip (case model of None \<Rightarrow> [] | Some m \<Rightarrow> m) in
      if raw = [] \<or> raw = ''auto'' then DEFAULT_ANTHROPIC_MODEL
      else case map_of MODEL_ID_TRANSLATIONS raw of
             Some m \<Rightarrow> m
           | None \<Rightarrow>
               if raw \<in> set KNOWN_ANTHROPIC_MODEL_IDS then raw
               else if startswith raw ''anthropic/'' then
                 (let stripped = drop (length ''anthropic/'') raw in
                  case map_of MODEL_ID_TRANSLATIONS stripped of Some m \<Rightarrow> m | None \<Rightarrow> stripped)
               else raw)"

section \<open>Requests\<close>

text \<open>The objects in a list, and the objects met when a value is iterated.\<close>

definition dicts_in :: "pyval list \<Rightarrow> dict list" where
  "dicts_in vs = List.map_filter (\<lambda>v. case v of PDict d \<Rightarrow> Some d | _ \<Rightarrow> None) vs"

fun iter_dicts :: "pyval \<Rightarrow> py_exc + dict list" where
  "iter_dicts (PList vs) = Inr (dicts_in vs)"
| "iter_dicts (PDict _) = Inr []"
| "iter_dicts (PStr _) = Inr []"
| "iter_dicts _ = Inl TypeError"

fun split_system :: "pyval list \<Rightarrow> str list \<times> pyval list" where
  "split_system [] = ([], [])"
| "split_system (m # ms) =
     (case split_system ms of
        (parts, rest) \<Rightarrow>
          (case m of
             PDict d \<Rightarrow>
               if dget d ''role'' = PStr ''system'' then
                 (case dget d ''content'' of
                    PStr c \<Rightarrow> if strip c \<noteq> [] then (c # parts, rest) else (parts, rest)
                  | _ \<Rightarrow> (parts, rest))
               else (parts, m # rest)
           | _ \<Rightarrow> (parts, m # rest)))"

definition system_text :: "str list \<Rightarrow> str" where
  "system_text parts = join [CHR 10, CHR 10] parts"

definition str_or_unknown :: "pyval \<Rightarrow> str" where
  "str_or_unknown v = py_str (py_or v (PStr ''unknown''))"

definition tool_result_block :: "dict \<Rightarrow> pyval" where
  "tool_result_block d =
     PDict [(''type'', PStr ''tool_result''), (''tool_use_id'', PStr (str_or_unknown (dget d ''tool_call_id''))),
            (''content'', PStr (case dget d ''content'' of PStr c \<Rightarrow> c | v \<Rightarrow> plain_json v))]"

definition text_blocks :: "pyval \<Rightarrow> pyval list" where
  "text_blocks content =
     (case content of
        PStr t \<Rightarrow> if strip t \<noteq> [] then [PDict [(''type'', PStr ''text''), (''text'', PStr t)]] else []
      | PList vs \<Rightarrow> map PDict (dicts_in vs)
      | _ \<Rightarrow> [])"

definition parsed_input :: "(str \<Rightarrow> pyval option) \<Rightarrow> pyval \<Rightarrow> dict" where
  "parsed_input loads raw_args =
     (case (case raw_args of
              PStr s \<Rightarrow> (case loads (if s = [] then ''{}'' else s) of Some v \<Rightarrow> v | None \<Rightarrow> PDict [])
            | v \<Rightarrow> v) of
        PDict d \<Rightarrow> d
      | _ \<Rightarrow> [])"

definition function_of :: "dict \<Rightarrow> dict" where
  "function_of tc = (case dget tc ''function'' of PDict fn \<Rightarrow> fn | _ \<Rightarrow> tc)"

definition tool_use_block :: "(str \<Rightarrow> pyval option) \<Rightarrow> dict \<Rightarrow> pyval" where
  "tool_use_block loads tc =
     PDict [(''type'', PStr ''tool_use''), (''id'', PStr (str_or_unknown (dget tc ''id''))),
            (''name'', PStr (str_or_empty (dget (function_of tc) ''name''))),
            (''input'', PDict (parsed_input loads (dget_default (function_of tc) ''arguments'' (PDict []))))]"

definition user_turn :: "pyval list \<Rightarrow> pyval" where
  "user_turn blocks = PDict [(''role'', PStr ''user''), (''content'', PList blocks)]"

definition assistant_turn :: "pyval list \<Rightarrow> pyval" where
  "assistant_turn blocks = PDict [(''role'', PStr ''assistant''), (''content'', PList blocks)]"

definition is_tool_msg :: "dict \<Rightarrow> bool" where
  "is_tool_msg d \<longleftrightarrow> dget d ''role'' = PStr ''tool''"

definition is_calling :: "dict \<Rightarrow> bool" where
  "is_calling d \<longleftrightarrow> dget d ''role'' = PStr ''assistant'' \<and> truthy (dget d ''tool_calls'')"

definition is_empty_assistant :: "dict \<Rightarrow> bool" where
  "is_empty_assistant d \<longleftrightarrow> dget d ''role'' = PStr ''assistant'' \<and> \<not> truthy (dget d ''content'')"

definition flush :: "pyval list \<Rightarrow> pyval list \<Rightarrow> pyval list" where
  "flush pending out = (if pending = [] then out else out @ [user_turn pending])"

fun messages_loop :: "(str \<Rightarrow> pyval option) \<Rightarrow> pyval list \<Rightarrow> pyval list \<Rightarrow> pyval list \<Rightarrow> py_exc + pyval list" where
  "messages_loop loads pending out [] = Inr (flush pending out)"
| "messages_loop loads pending out (m # ms) =
     (case m of
        PDict d \<Rightarrow>
          if is_tool_msg d then messages_loop loads (pending @ [tool_result_block d]) out ms
          else if is_calling d then
            bindE (iter_dicts (dget d ''tool_calls'')) (\<lambda>tcs.
            messages_loop loads [] (flush pending out @ [assistant_turn (text_blocks (dget d ''content'') @ map (tool_use_block loads) tcs)]) ms)
          else if is_empty_assistant d then messages_loop loads [] (flush pending out) ms
          else messages_loop loads [] (flush pending out @ [m]) ms
      | _ \<Rightarrow> messages_loop loads pending out ms)"

definition to_anthropic_messages :: "(str \<Rightarrow> pyval option) \<Rightarrow> pyval list \<Rightarrow> py_exc + pyval list" where
  "to_anthropic_messages loads ms = messages_loop loads [] [] ms"

definition wire_tool :: "dict \<Rightarrow> pyval list" where
  "wire_tool t =
     (if map_of t ''input_schema'' \<noteq> None \<and> map_of t ''name'' \<noteq> None then [PDict t]
      else let fn = function_of t; name = str_or_empty (dget fn ''name'') in
           if name = [] then []
           else [PDict [(''name'', PStr name), (''description'', PStr (str_or_empty (dget fn ''description''))),
                        (''input_schema'', py_or (dget fn ''parameters'') (PDict [(''type'', PStr ''object''), (''properties'', PDict [])]))]])"

definition to_anthropic_tools :: "pyval list \<Rightarrow> pyval list" where
  "to_anthropic_tools tools = concat (map wire_tool (dicts_in tools))"

definition build_anthropic_request :: "(str \<Rightarrow> pyval option) \<Rightarrow> str \<Rightarrow> pyval list \<Rightarrow> pyval list \<Rightarrow> int \<Rightarrow> py_exc + dict" where
  "build_anthropic_request loads model messages tools max_tokens =
     (case split_system messages of
        (parts, conversation) \<Rightarrow>
          bindE (to_anthropic_messages loads conversation) (\<lambda>wire.
          let system = system_text parts; wire_tools = to_anthropic_tools tools in
          Inr ([(''model'', PStr model), (''max_tokens'', PInt (max 1 max_tokens)), (''messages'', PList wire)]
               @ (if system = [] then [] else [(''system'', PStr system)])
               @ (if wire_tools = [] then []
                  else [(''tools'', PList wire_tools), (''tool_choice'', PDict [(''type'', PStr ''auto'')])]))))"

section \<open>Answers\<close>

definition is_block :: "str \<Rightarrow> dict \<Rightarrow> bool" where
  "is_block typ b \<longleftrightarrow> dget b ''type'' = PStr typ"

definition openai_call :: "dict \<Rightarrow> pyval" where
  "openai_call b =
     PDict [(''id'', PStr (str_or_empty (dget b ''id''))), (''type'', PStr ''function''),
            (''function'', PDict [(''name'', PStr (str_or_empty (dget b ''name''))),
                                  (''arguments'', PStr (plain_json (py_or (dget b ''input'') (PDict []))))])]"

definition count_of :: "dict \<Rightarrow> str \<Rightarrow> py_exc + int" where
  "count_of usage k =
     (let v = py_or (dget_default usage k (PInt 0)) (PInt 0) in
      optE (case v of PList _ \<Rightarrow> TypeError | PDict _ \<Rightarrow> TypeError | _ \<Rightarrow> ValueError) (py_int_of v))"

definition answer_message :: "dict list \<Rightarrow> dict" where
  "answer_message blocks =
     (let texts = filter (\<lambda>p. p \<noteq> []) (map (\<lambda>b. str_or_empty (dget b ''text'')) (filter (is_block ''text'') blocks));
          calls = map openai_call (filter (is_block ''tool_use'') blocks) in
      [(''role'', PStr ''assistant''), (''content'', if texts = [] then PNone else PStr (join [CHR 10] texts))]
      @ (if calls = [] then [] else [(''tool_calls'', PList calls)]))"

definition from_anthropic_response :: "dict \<Rightarrow> py_exc + dict" where
  "from_anthropic_response payload =
     bindE (iter_dicts (py_or (dget payload ''content'') (PList []))) (\<lambda>blocks.
     bindE (as_dict AttributeError (py_or (dget payload ''usage'') (PDict []))) (\<lambda>usage.
     bindE (count_of usage ''input_tokens'') (\<lambda>prompt_tokens.
     bindE (count_of usage ''output_tokens'') (\<lambda>completion_tokens.
     Inr [(''id'', dget payload ''id''), (''model'', dget payload ''model''),
          (''choices'', PList [PDict [(''index'', PInt 0), (''message'', PDict (answer_message blocks)),
             (''finish_reason'', PStr (if dget payload ''stop_reason'' = PStr ''tool_use'' then ''tool_calls'' else ''stop''))]]),
          (''usage'', PDict [(''prompt_tokens'', PInt prompt_tokens), (''completion_tokens'', PInt completion_tokens),
             (''total_tokens'', PInt (prompt_tokens + completion_tokens))])]))))"

section \<open>Calls\<close>

record llm_client =
  lc_url :: str
  lc_key :: str
  lc_env :: env

text \<open>What comes back for one request: a status with its text and its body read as JSON, or an exception of the transport.\<close>

datatype llm_reply = Reply int str "pyval option" | Transport_Error str

datatype llm_exc = Llm_Error str | Llm_Python py_exc | Llm_Transport str

record llm_request =
  lq_url :: str
  lq_headers :: "(str \<times> str) list"
  lq_body :: dict

definition ANTHROPIC_VERSION :: str where
  "ANTHROPIC_VERSION = ''2023-06-01''"

definition OPENROUTER_HOST_MARKERS :: "str list" where
  "OPENROUTER_HOST_MARKERS = [''openrouter.ai'']"

definition DEFAULT_SWARMSYNC_MODEL :: str where
  "DEFAULT_SWARMSYNC_MODEL = ''auto''"

definition env_text :: "env \<Rightarrow> str \<Rightarrow> str" where
  "env_text e k = (case e k of None \<Rightarrow> [] | Some v \<Rightarrow> v)"

definition is_anthropic :: "llm_client \<Rightarrow> bool" where
  "is_anthropic c =
     (let declared = lower (strip (env_text (lc_env c) ''GENESIS_LLM_PROVIDER'')) in
      if declared \<noteq> [] then declared = ''anthropic'' else is_anthropic_url (lc_url c))"

definition dedup :: "str list \<Rightarrow> str list" where
  "dedup ms = foldl (\<lambda>acc m. if m \<noteq> [] \<and> m \<notin> set acc then acc @ [m] else acc) [] ms"

definition rstrip_slash :: "str \<Rightarrow> str" where
  "rstrip_slash s = rev (dropWhile (\<lambda>c. c = CHR ''/'') (rev s))"

definition messages_url :: "llm_client \<Rightarrow> str" where
  "messages_url c =
     (if endswith (rstrip_slash (lc_url c)) ''/v1/messages'' then lc_url c else rstrip_slash (lc_url c) @ ''/v1/messages'')"

definition http_error :: "int \<Rightarrow> str \<Rightarrow> str" where
  "http_error status txt = ''LLM HTTP '' @ show_int status @ '': '' @ take 500 txt"

text \<open>The two loops over the candidate models. \<open>post\<close> is a request for a model, \<open>accept\<close> what is done with the body of a success,
  \<open>retry\<close> when the next model is tried.\<close>

fun try_models ::
  "(str \<Rightarrow> py_exc + llm_request) \<Rightarrow> (pyval \<Rightarrow> py_exc + pyval) \<Rightarrow> (int \<Rightarrow> str \<Rightarrow> bool) \<Rightarrow> (nat \<Rightarrow> llm_reply) \<Rightarrow> str \<Rightarrow> str list
     \<Rightarrow> (llm_exc + pyval) \<times> llm_request list" where
  "try_models post accept retry net last_error [] = (Inl (Llm_Error last_error), [])"
| "try_models post accept retry net last_error (m # ms) =
     (case post m of
        Inl e \<Rightarrow> (Inl (Llm_Python e), [])
      | Inr req \<Rightarrow>
          (case net 0 of
             Transport_Error t \<Rightarrow> (Inl (Llm_Transport t), [req])
           | Reply status txt body \<Rightarrow>
               if status = 200 \<or> status = 201 then
                 (case body of
                    None \<Rightarrow> (Inl (Llm_Transport ''json''), [req])
                  | Some v \<Rightarrow> (raisingE Llm_Python (accept v), [req]))
               else if retry status txt then
                 (case try_models post accept retry (\<lambda>i. net (Suc i)) (http_error status txt) ms of
                    (r, sent) \<Rightarrow> (r, req # sent))
               else (Inl (Llm_Error (http_error status txt)), [req])))"

definition anthropic_post :: "(str \<Rightarrow> pyval option) \<Rightarrow> llm_client \<Rightarrow> pyval list \<Rightarrow> pyval list \<Rightarrow> int \<Rightarrow> str \<Rightarrow> py_exc + llm_request" where
  "anthropic_post loads c messages tools max_tokens m =
     bindE (build_anthropic_request loads m messages tools max_tokens) (\<lambda>body.
     Inr \<lparr>lq_url = messages_url c,
          lq_headers = [(''x-api-key'', lc_key c), (''anthropic-version'', ANTHROPIC_VERSION), (''content-type'', ''application/json'')],
          lq_body = body\<rparr>)"

definition anthropic_candidates :: "llm_client \<Rightarrow> str \<Rightarrow> str list" where
  "anthropic_candidates c model =
     (let env_model = strip (env_text (lc_env c) ''GENESIS_LLM_MODEL'');
          chosen = (if env_model \<noteq> [] \<and> env_model \<noteq> ''auto'' then env_model else model) in
      dedup (translate_model_id (Some chosen) # ANTHROPIC_FALLBACK_MODELS))"

definition call_anthropic ::
  "(str \<Rightarrow> pyval option) \<Rightarrow> llm_client \<Rightarrow> str \<Rightarrow> pyval list \<Rightarrow> pyval list \<Rightarrow> int \<Rightarrow> (nat \<Rightarrow> llm_reply) \<Rightarrow> (llm_exc + pyval) \<times> llm_request list" where
  "call_anthropic loads c model messages tools max_tokens net =
     try_models (anthropic_post loads c messages tools max_tokens)
       (\<lambda>v. bindE (as_dict AttributeError v) (\<lambda>payload. bindE (from_anthropic_response payload) (\<lambda>r. Inr (PDict r))))
       (\<lambda>status txt. status \<in> set [404, 429, 529]) net ''unknown'' (anthropic_candidates c model)"

definition gateway_post :: "llm_client \<Rightarrow> pyval list \<Rightarrow> pyval list \<Rightarrow> int \<Rightarrow> str \<Rightarrow> py_exc + llm_request" where
  "gateway_post c messages tools max_tokens m =
     Inr \<lparr>lq_url = lc_url c, lq_headers = [(''Authorization'', ''Bearer '' @ lc_key c), (''Content-Type'', ''application/json'')],
          lq_body = [(''model'', PStr m), (''messages'', PList messages), (''max_tokens'', PInt max_tokens)]
                    @ (if tools = [] then [] else [(''tools'', PList tools), (''tool_choice'', PStr ''auto'')])\<rparr>"

definition gateway_candidates :: "llm_client \<Rightarrow> str \<Rightarrow> str list" where
  "gateway_candidates c model =
     (let env_model = strip (env_text (lc_env c) ''GENESIS_LLM_MODEL'');
          primary = (if env_model \<noteq> [] \<and> env_model \<noteq> ''auto'' then env_model
                     else if model \<noteq> [] \<and> model \<noteq> ''auto'' then model else DEFAULT_SWARMSYNC_MODEL) in
      dedup [primary, ''openrouter/free'', ''minimax/minimax-m2.5:free''])"

definition openrouter_allowed :: "llm_client \<Rightarrow> bool" where
  "openrouter_allowed c \<longleftrightarrow> lower (env_text (lc_env c) ''GENESIS_ALLOW_OPENROUTER_FALLBACK'') \<in> set [''1'', ''true'', ''yes'']"

definition call_llm ::
  "(str \<Rightarrow> pyval option) \<Rightarrow> llm_client \<Rightarrow> str \<Rightarrow> pyval list \<Rightarrow> pyval list \<Rightarrow> int \<Rightarrow> (nat \<Rightarrow> llm_reply) \<Rightarrow> (llm_exc + pyval) \<times> llm_request list" where
  "call_llm loads c model messages tools max_tokens net =
     (if is_anthropic c then call_anthropic loads c model messages tools max_tokens net
      else if list_ex (\<lambda>marker. str_in marker (lc_url c)) OPENROUTER_HOST_MARKERS \<and> \<not> openrouter_allowed c
      then (Inl (Llm_Error ''OpenRouter is disabled for Genesis agents; set LLM_API_URL to https://api.swarmsync.ai/v1/chat/completions or explicitly enable GENESIS_ALLOW_OPENROUTER_FALLBACK=true''), [])
      else try_models (gateway_post c messages tools max_tokens) Inr
             (\<lambda>status txt. status \<in> set [400, 402, 429] \<or>
                list_ex (\<lambda>x. str_in x (lower txt)) [''402'', ''credit'', ''balance'', ''quota'', ''payment''])
             net ''unknown'' (gateway_candidates c model))"

section \<open>What the translation does\<close>

text \<open>The translation as a map over turns: a run of tool messages is one user turn, every other message is on its own.\<close>

definition turn_of :: "(str \<Rightarrow> pyval option) \<Rightarrow> dict \<Rightarrow> py_exc + pyval list" where
  "turn_of loads d =
     (if is_calling d then
        bindE (iter_dicts (dget d ''tool_calls'')) (\<lambda>tcs.
        Inr [assistant_turn (text_blocks (dget d ''content'') @ map (tool_use_block loads) tcs)])
      else if is_empty_assistant d then Inr [] else Inr [PDict d])"

function wire_turns :: "(str \<Rightarrow> pyval option) \<Rightarrow> dict list \<Rightarrow> py_exc + pyval list" where
  "wire_turns loads [] = Inr []"
| "wire_turns loads (d # ds) =
     (if is_tool_msg d then
        bindE (wire_turns loads (dropWhile is_tool_msg ds)) (\<lambda>r.
        Inr (user_turn (map tool_result_block (d # takeWhile is_tool_msg ds)) # r))
      else bindE (turn_of loads d) (\<lambda>t. bindE (wire_turns loads ds) (\<lambda>r. Inr (t @ r))))"
  by pat_completeness auto
termination
  by (relation "measure (\<lambda>(loads, ds). length ds)") (auto simp: le_imp_less_Suc length_dropWhile_le)

lemma dicts_in_simps [simp]:
  "dicts_in [] = []"
  "dicts_in (PDict d # vs) = d # dicts_in vs"
  "dicts_in (vs @ ws) = dicts_in vs @ dicts_in ws"
  "dicts_in (map PDict ds) = ds"
  by (simp_all add: dicts_in_def map_filter_def comp_def)

lemma dicts_in_other: "(\<And>d. v \<noteq> PDict d) \<Longrightarrow> dicts_in (v # vs) = dicts_in vs"
  by (cases v) (simp_all add: dicts_in_def map_filter_def)

lemma flush_append: "flush pending out = out @ flush pending []"
  by (simp add: flush_def)

lemma wire_turns_run:
  "wire_turns loads ds =
     bindE (wire_turns loads (dropWhile is_tool_msg ds)) (\<lambda>r. Inr (flush (map tool_result_block (takeWhile is_tool_msg ds)) [] @ r))"
proof (cases ds)
  case Nil
  then show ?thesis by (simp add: flush_def)
next
  case (Cons d ds')
  then show ?thesis by (cases "is_tool_msg d") (auto simp: flush_def bindE_def split: sum.splits)
qed

lemma messages_loop_turns:
  "messages_loop loads pending out ms =
     bindE (wire_turns loads (dropWhile is_tool_msg (dicts_in ms))) (\<lambda>r.
     Inr (flush (pending @ map tool_result_block (takeWhile is_tool_msg (dicts_in ms))) out @ r))"
proof (induction ms arbitrary: pending out)
  case Nil
  then show ?case by simp
next
  case (Cons m ms)
  show ?case
  proof (cases "\<exists>d. m = PDict d")
    case False
    then show ?thesis using Cons.IH [of pending out] by (cases m) (auto simp: dicts_in_other)
  next
    case True
    then obtain d where m: "m = PDict d" by blast
    show ?thesis
    proof (cases "is_tool_msg d")
      case True
      with Cons.IH [of "pending @ [tool_result_block d]" out] show ?thesis by (simp add: m)
    next
      case False
      have rest: "messages_loop loads [] (flush pending out @ t) ms =
          bindE (wire_turns loads (dicts_in ms)) (\<lambda>r. Inr (flush pending out @ t @ r))" for t
        by (subst Cons.IH, subst (2) wire_turns_run, subst flush_append)
          (simp add: bindE_def split: sum.splits)
      have "messages_loop loads pending out (m # ms) =
          bindE (turn_of loads d) (\<lambda>t. messages_loop loads [] (flush pending out @ t) ms)"
        using False by (auto simp: m turn_of_def bindE_def split: sum.splits)
      then show ?thesis using False by (simp add: m rest bindE_def split: sum.splits)
    qed
  qed
qed

text \<open>The loop that collects tool results computes the grouping above: each maximal run of tool messages becomes one user turn with the
  results in order, and values that are not objects are skipped.\<close>

lemma to_anthropic_turns: "to_anthropic_messages loads ms = wire_turns loads (dicts_in ms)"
  by (simp add: to_anthropic_messages_def messages_loop_turns wire_turns_run [of loads "dicts_in ms"])

section \<open>Every call is answered in the next turn\<close>

definition content_blocks :: "pyval \<Rightarrow> dict list" where
  "content_blocks m =
     (case m of PDict d \<Rightarrow> (case dget d ''content'' of PList vs \<Rightarrow> dicts_in vs | _ \<Rightarrow> []) | _ \<Rightarrow> [])"

definition called_ids :: "pyval \<Rightarrow> pyval list" where
  "called_ids m = map (\<lambda>b. dget b ''id'') (filter (is_block ''tool_use'') (content_blocks m))"

definition answered_ids :: "pyval \<Rightarrow> pyval list" where
  "answered_ids m = map (\<lambda>b. dget b ''tool_use_id'') (filter (is_block ''tool_result'') (content_blocks m))"

text \<open>A conversation the Messages API takes: each turn answers exactly the calls of the turn before it, in order, and the last
  turn leaves none open.\<close>

fun exchange :: "pyval list \<Rightarrow> pyval list \<Rightarrow> bool" where
  "exchange open_calls [] \<longleftrightarrow> open_calls = []"
| "exchange open_calls (m # ms) \<longleftrightarrow> answered_ids m = open_calls \<and> exchange (called_ids m) ms"

text \<open>A history of the loop: a turn with tool calls is followed by one tool message per call, in order.\<close>

definition call_ids :: "dict \<Rightarrow> str list" where
  "call_ids d = (case iter_dicts (dget d ''tool_calls'') of Inr tcs \<Rightarrow> map (\<lambda>tc. str_or_unknown (dget tc ''id'')) tcs | Inl _ \<Rightarrow> [])"

function paired :: "dict list \<Rightarrow> bool" where
  "paired [] \<longleftrightarrow> True"
| "paired (d # ds) \<longleftrightarrow>
     \<not> is_tool_msg d \<and> content_blocks (PDict d) = [] \<and>
     (if is_calling d then
        \<not> isl (iter_dicts (dget d ''tool_calls'')) \<and>
        map (\<lambda>a. str_or_unknown (dget a ''tool_call_id'')) (takeWhile is_tool_msg ds) = call_ids d \<and>
        paired (dropWhile is_tool_msg ds)
      else paired ds)"
  by pat_completeness auto
termination
  by (relation "measure length") (auto simp: le_imp_less_Suc length_dropWhile_le)

lemma content_blocks_turns [simp]:
  "content_blocks (user_turn bs) = dicts_in bs"
  "content_blocks (assistant_turn bs) = dicts_in bs"
  by (simp_all add: content_blocks_def user_turn_def assistant_turn_def dget_def)

lemma no_blocks_ids:
  assumes "content_blocks (PDict d) = []"
  shows "called_ids (PDict d) = []" and "answered_ids (PDict d) = []"
  using assms by (simp_all add: called_ids_def answered_ids_def)

lemma user_turn_ids:
  "answered_ids (user_turn (map tool_result_block ds)) = map (\<lambda>a. PStr (str_or_unknown (dget a ''tool_call_id''))) ds"
  "called_ids (user_turn (map tool_result_block ds)) = []"
  by (induction ds) (simp_all add: answered_ids_def called_ids_def tool_result_block_def is_block_def dget_def)

lemma text_blocks_plain:
  assumes "content_blocks (PDict d) = []"
  shows "filter (is_block ''tool_use'') (dicts_in (text_blocks (dget d ''content''))) = []"
    and "filter (is_block ''tool_result'') (dicts_in (text_blocks (dget d ''content''))) = []"
  using assms by (auto simp: content_blocks_def text_blocks_def is_block_def dget_def split: pyval.splits)

lemma tool_use_blocks_ids:
  "map (\<lambda>b. dget b ''id'') (filter (is_block ''tool_use'') (dicts_in (map (tool_use_block loads) tcs)))
     = map (\<lambda>tc. PStr (str_or_unknown (dget tc ''id''))) tcs"
  "filter (is_block ''tool_result'') (dicts_in (map (tool_use_block loads) tcs)) = []"
  by (induction tcs) (simp_all add: tool_use_block_def is_block_def dget_def)

lemma assistant_turn_ids:
  assumes "content_blocks (PDict d) = []"
  shows "called_ids (assistant_turn (text_blocks (dget d ''content'') @ map (tool_use_block loads) tcs))
           = map (\<lambda>tc. PStr (str_or_unknown (dget tc ''id''))) tcs"
    and "answered_ids (assistant_turn (text_blocks (dget d ''content'') @ map (tool_use_block loads) tcs)) = []"
  using text_blocks_plain [OF assms] by (simp_all add: called_ids_def answered_ids_def tool_use_blocks_ids)

lemma paired_exchange: "paired ds \<Longrightarrow> \<exists>out. wire_turns loads ds = Inr out \<and> exchange [] out"
proof (induction ds rule: paired.induct)
  case 1
  then show ?case by simp
next
  case (2 d ds)
  then have d: "\<not> is_tool_msg d" "content_blocks (PDict d) = []" by simp_all
  show ?case
  proof (cases "is_calling d")
    case False
    with 2 obtain out where out: "wire_turns loads ds = Inr out" "exchange [] out" by auto
    have "turn_of loads d = Inr [] \<or> turn_of loads d = Inr [PDict d]" using False by (simp add: turn_of_def)
    with d out no_blocks_ids [OF d(2)] show ?thesis by auto
  next
    case True
    with 2(3) obtain tcs where tcs: "iter_dicts (dget d ''tool_calls'') = Inr tcs"
      by (cases "iter_dicts (dget d ''tool_calls'')") auto
    have answers: "map (\<lambda>a. str_or_unknown (dget a ''tool_call_id'')) (takeWhile is_tool_msg ds) = map (\<lambda>tc. str_or_unknown (dget tc ''id'')) tcs"
      using 2(3) True tcs by (simp add: call_ids_def)
    from 2 True obtain out where out: "wire_turns loads (dropWhile is_tool_msg ds) = Inr out" "exchange [] out" by auto
    define turn where "turn = assistant_turn (text_blocks (dget d ''content'') @ map (tool_use_block loads) tcs)"
    have ids: "called_ids turn = map (\<lambda>tc. PStr (str_or_unknown (dget tc ''id''))) tcs" "answered_ids turn = []"
      unfolding turn_def using assistant_turn_ids [OF d(2)] by blast+
    let ?results = "flush (map tool_result_block (takeWhile is_tool_msg ds)) []"
    have "wire_turns loads (d # ds) = Inr (turn # ?results @ out)"
      using d True tcs out wire_turns_run [of loads ds] by (simp add: turn_of_def turn_def)
    moreover have same: "map (\<lambda>a. PStr (str_or_unknown (dget a ''tool_call_id''))) (takeWhile is_tool_msg ds) = map (\<lambda>tc. PStr (str_or_unknown (dget tc ''id''))) tcs"
      using arg_cong [OF answers, of "map PStr"] by (simp add: comp_def)
    then have "exchange [] (turn # ?results @ out)"
      using out(2) ids user_turn_ids [of "takeWhile is_tool_msg ds"] by (cases "takeWhile is_tool_msg ds = []") (auto simp: flush_def)
    ultimately show ?thesis by blast
  qed
qed

section \<open>Translating twice\<close>

text \<open>Messages that are in the Messages shape already.\<close>

definition settled :: "pyval \<Rightarrow> bool" where
  "settled m = (case m of PDict d \<Rightarrow> \<not> is_tool_msg d \<and> \<not> is_calling d \<and> \<not> is_empty_assistant d | _ \<Rightarrow> False)"

text \<open>An assistant turn with calls that holds some text or at least one call object.\<close>

definition utters :: "dict \<Rightarrow> bool" where
  "utters d \<longleftrightarrow> text_blocks (dget d ''content'') \<noteq> [] \<or> call_ids d \<noteq> []"

lemma settled_user_turn: "bs \<noteq> [] \<Longrightarrow> settled (user_turn bs)"
  by (simp add: settled_def user_turn_def is_tool_msg_def is_calling_def is_empty_assistant_def dget_def)

lemma settled_assistant_turn: "bs \<noteq> [] \<Longrightarrow> settled (assistant_turn bs)"
  by (simp add: settled_def assistant_turn_def is_tool_msg_def is_calling_def is_empty_assistant_def dget_def)

lemma turn_of_settled:
  assumes "turn_of loads d = Inr t" and "\<not> is_tool_msg d" and "is_calling d \<Longrightarrow> utters d"
  shows "list_all settled t"
proof (cases "is_calling d")
  case True
  with assms obtain tcs where "iter_dicts (dget d ''tool_calls'') = Inr tcs"
    and "t = [assistant_turn (text_blocks (dget d ''content'') @ map (tool_use_block loads) tcs)]"
    by (auto simp: turn_of_def bindE_Inr)
  with assms(3) True show ?thesis by (auto simp: utters_def call_ids_def intro!: settled_assistant_turn)
next
  case False
  with assms show ?thesis by (auto simp: turn_of_def settled_def split: if_splits)
qed

lemma wire_turns_settled:
  assumes "wire_turns loads ds = Inr out" and "\<forall>d \<in> set ds. is_calling d \<longrightarrow> utters d"
  shows "list_all settled out"
  using assms
proof (induction loads ds arbitrary: out rule: wire_turns.induct)
  case (1 loads)
  then show ?case by simp
next
  case (2 loads d ds)
  show ?case
  proof (cases "is_tool_msg d")
    case True
    with 2(3) obtain r where r: "wire_turns loads (dropWhile is_tool_msg ds) = Inr r"
      and out: "out = user_turn (map tool_result_block (d # takeWhile is_tool_msg ds)) # r"
      by (auto simp: bindE_Inr)
    have "\<forall>d \<in> set (dropWhile is_tool_msg ds). is_calling d \<longrightarrow> utters d" using 2(4) by (auto dest: set_dropWhileD)
    with 2(1) True r have "list_all settled r" by blast
    with out show ?thesis by (simp add: settled_user_turn)
  next
    case False
    with 2(3) obtain t r where "turn_of loads d = Inr t" "wire_turns loads ds = Inr r" "out = t @ r"
      by (auto simp: bindE_Inr)
    with 2(2,4) False show ?thesis by (auto intro: turn_of_settled)
  qed
qed

lemma settled_fixed: "list_all settled out \<Longrightarrow> wire_turns loads (dicts_in out) = Inr out"
proof (induction out)
  case (Cons m out)
  then obtain d where "m = PDict d" and "\<not> is_tool_msg d" "\<not> is_calling d" "\<not> is_empty_assistant d"
    by (cases m) (auto simp: settled_def)
  with Cons show ?case by (simp add: turn_of_def)
qed simp

text \<open>Translating a translated conversation changes nothing, as long as every assistant turn that lists calls holds some text or a
  call object.\<close>

theorem wire_idempotent:
  assumes "to_anthropic_messages loads ms = Inr out" and "\<forall>d \<in> set (dicts_in ms). is_calling d \<longrightarrow> utters d"
  shows "to_anthropic_messages loads out = Inr out"
  using assms wire_turns_settled settled_fixed by (metis to_anthropic_turns)

text \<open>A turn whose list of calls holds no object becomes a turn with no content, which the Messages API refuses and which a second
  translation drops.\<close>

lemma wire_empty_turn:
  "to_anthropic_messages loads [PDict [(''role'', PStr ''assistant''), (''tool_calls'', PList [PNone])]] = Inr [assistant_turn []]"
  "to_anthropic_messages loads [assistant_turn []] = Inr []"
  by (simp_all add: to_anthropic_messages_def assistant_turn_def is_tool_msg_def is_calling_def is_empty_assistant_def
      text_blocks_def flush_def dicts_in_def map_filter_def)

section \<open>There and back\<close>

definition plain_call :: "str \<Rightarrow> str \<Rightarrow> dict \<Rightarrow> dict" where
  "plain_call i name ins =
     [(''type'', PStr ''tool_use''), (''id'', PStr i), (''name'', PStr name), (''input'', PDict ins)]"

definition is_plain_call :: "(str \<Rightarrow> pyval option) \<Rightarrow> dict \<Rightarrow> bool" where
  "is_plain_call loads b \<longleftrightarrow>
     (case (dget b ''id'', dget b ''name'', dget b ''input'') of
        (PStr i, PStr name, PDict ins) \<Rightarrow>
          b = plain_call i name ins \<and> i \<noteq> [] \<and> loads (plain_json (PDict ins)) = Some (PDict ins)
      | _ \<Rightarrow> False)"

lemma plain_json_dict_nonempty: "plain_json (PDict d) \<noteq> []"
  by (simp add: plain_json_def)

lemma call_there_and_back:
  assumes "is_plain_call loads b"
  shows "\<exists>tc. openai_call b = PDict tc \<and> tool_use_block loads tc = PDict b"
proof -
  obtain i name ins where b: "b = plain_call i name ins" "i \<noteq> []" "loads (plain_json (PDict ins)) = Some (PDict ins)"
    using assms by (auto simp: is_plain_call_def split: pyval.splits)
  have "py_or (PDict ins) (PDict []) = PDict ins" by (simp add: py_or_def)
  with b show ?thesis
    by (simp add: openai_call_def plain_call_def tool_use_block_def function_of_def dget_def dget_default_def str_or_unknown_def
        py_or_def parsed_input_def plain_json_dict_nonempty)
qed

text \<open>The calls of an answer come back unchanged when the answer is put into the history and sent again: the assistant turn of the
  next request holds the text and then the same tool-use blocks in the same order. \<open>json.loads\<close> is asked to read back what
  \<open>json.dumps\<close> wrote for the inputs of these calls.\<close>

theorem answer_returns_to_wire:
  assumes "\<forall>b \<in> set (filter (is_block ''tool_use'') blocks). is_plain_call loads b"
    and "filter (is_block ''tool_use'') blocks \<noteq> []"
  shows "to_anthropic_messages loads [PDict (answer_message blocks)] =
         Inr [assistant_turn (text_blocks (dget (answer_message blocks) ''content'') @ map PDict (filter (is_block ''tool_use'') blocks))]"
proof -
  let ?calls = "filter (is_block ''tool_use'') blocks"
  have again: "map (tool_use_block loads) (dicts_in (map openai_call bs)) = map PDict bs" if "\<forall>b \<in> set bs. is_plain_call loads b" for bs
    using that
  proof (induction bs)
    case (Cons b bs)
    then show ?case using call_there_and_back [of loads b] by auto
  qed simp
  have msg: "dget (answer_message blocks) ''role'' = PStr ''assistant''"
    "dget (answer_message blocks) ''tool_calls'' = PList (map openai_call ?calls)"
    using assms(2) by (simp_all add: answer_message_def dget_def Let_def)
  then have "is_calling (answer_message blocks)" "\<not> is_tool_msg (answer_message blocks)"
    using assms(2) by (simp_all add: is_calling_def is_tool_msg_def)
  then show ?thesis using again [OF assms(1)] msg by (simp add: to_anthropic_messages_def flush_def)
qed

section \<open>The histories of the agent loop\<close>

definition call_dict :: "tool_call \<Rightarrow> dict" where
  "call_dict tc =
     [(''id'', PStr (tc_id tc)), (''type'', PStr ''function''),
      (''function'', PDict [(''name'', PStr (tc_name tc)), (''arguments'', PStr (tc_arguments tc))])]"

fun chat_dict :: "chat \<Rightarrow> dict" where
  "chat_dict (System_Msg t) = [(''role'', PStr ''system''), (''content'', PStr t)]"
| "chat_dict (User_Msg t) = [(''role'', PStr ''user''), (''content'', PStr t)]"
| "chat_dict (Assistant_Msg m) =
     [(''role'', PStr ''assistant''), (''content'', lm_content m), (''tool_calls'', PList (map (\<lambda>tc. PDict (call_dict tc)) (lm_tool_calls m)))]"
| "chat_dict (Tool_Msg i t) = [(''role'', PStr ''tool''), (''tool_call_id'', PStr i), (''content'', PStr t)]"

definition wire_history :: "chat list \<Rightarrow> pyval list" where
  "wire_history h = snd (split_system (map (\<lambda>m. PDict (chat_dict m)) h))"

text \<open>The gateway answers with text or nothing as content, never with a list of blocks, as \<open>from_anthropic_response\<close> does.\<close>

definition plain_content :: "llm_message \<Rightarrow> bool" where
  "plain_content m \<longleftrightarrow> (case lm_content m of PList _ \<Rightarrow> False | _ \<Rightarrow> True)"

definition plain_answers :: "'w runtime_ops \<Rightarrow> bool" where
  "plain_answers ops \<longleftrightarrow>
     (\<forall>w h tools n r w'. op_llm ops w h tools n = (Llm_Answer r, w') \<longrightarrow> (\<forall>m \<in> set (lr_choices r). plain_content m))"

text \<open>The states in which the loop begins a turn.\<close>

inductive loop_at :: "'w runtime_ops \<Rightarrow> str \<Rightarrow> run_params \<Rightarrow> 'w \<Rightarrow> 'w loop_state \<Rightarrow> bool" for ops rid rp w where
  start: "loop_at ops rid rp w (initial_state rp w)"
| turn: "loop_at ops rid rp w s \<Longrightarrow> turn_step ops rid rp s = (None, s') \<Longrightarrow> loop_at ops rid rp w s'"

text \<open>A round: an answer with calls and one tool message for each of them.\<close>

definition round_of :: "llm_message \<Rightarrow> str list \<Rightarrow> chat list" where
  "round_of m txts = Assistant_Msg m # map2 Tool_Msg (map tc_id (lm_tool_calls m)) txts"

definition round_ok :: "llm_message \<times> str list \<Rightarrow> bool" where
  "round_ok = (\<lambda>(m, txts). lm_tool_calls m \<noteq> [] \<and> length txts = length (lm_tool_calls m) \<and> plain_content m)"

definition rounds :: "(llm_message \<times> str list) list \<Rightarrow> chat list" where
  "rounds rs = concat (map (\<lambda>(m, txts). round_of m txts) rs)"

lemma run_tool_messages: "run_tool ops rp t args s = (v, s') \<Longrightarrow> ls_messages s' = ls_messages s"
  by (auto simp: run_tool_def traced_def Let_def split: prod.splits tool_outcome.splits)

lemma audit_and_run_messages: "ls_messages (snd (audit_and_run ops rp risk t args s)) = ls_messages s"
  by (auto simp: audit_and_run_def traced_def dest!: run_tool_messages split: prod.splits option.splits)

lemma dispatch_call_messages: "ls_messages (snd (dispatch_call ops rid rp t args s)) = ls_messages s"
proof -
  have policy: "ls_messages (policy_chain ops rp policy t args s) = ls_messages s" for policy
    by (auto simp: policy_chain_def traced_def split: prod.splits)
  have "ls_messages (snd (execute_chain ops rp policy t args s)) = ls_messages s" for policy s
    using audit_and_run_messages [of ops rp "pol_risk_class policy" t args s]
    by (auto simp: execute_chain_def traced_def split: prod.splits)
  with policy show ?thesis by (simp add: dispatch_call_def Let_def traced_def)
qed

lemma audit_result_messages: "ls_messages (snd (audit_result ops rp t args r s)) = ls_messages s"
  by (simp add: audit_result_def traced_def split: option.splits)

lemma record_call_messages: "\<exists>txt. ls_messages (record_call rp tc a v s) = ls_messages s @ [Tool_Msg (tc_id tc) txt]"
  by (auto simp: record_call_def Let_def traced_def split: pyval.splits)

lemma call_step_messages:
  assumes "call_step ops rid rp tc s = (None, s')"
  shows "\<exists>txt. ls_messages s' = ls_messages s @ [Tool_Msg (tc_id tc) txt]"
proof -
  let ?args = "parse_args ops (tc_arguments tc)"
  obtain r s1 where d: "dispatch_call ops rid rp (tc_name tc) ?args s = (Inr r, s1)"
    using assms by (auto simp: call_step_def Let_def split: prod.splits sum.splits)
  obtain v s2 where a: "audit_result ops rp (tc_name tc) ?args r s1 = (v, s2)" by (cases "audit_result ops rp (tc_name tc) ?args r s1")
  obtain a' where "s' = record_call rp tc a' v s2"
    using assms by (auto simp: call_step_def Let_def d a split: pyval.splits)
  moreover have "ls_messages s2 = ls_messages s"
    using dispatch_call_messages [of ops rid rp "tc_name tc" ?args s] audit_result_messages [of ops rp "tc_name tc" ?args r s1] d a by simp
  ultimately show ?thesis using record_call_messages by metis
qed

lemma run_calls_messages:
  "run_calls ops rid rp tcs s = (None, s') \<Longrightarrow>
     \<exists>txts. length txts = length tcs \<and> ls_messages s' = ls_messages s @ map2 Tool_Msg (map tc_id tcs) txts"
proof (induction tcs arbitrary: s)
  case Nil
  then show ?case by simp
next
  case (Cons tc tcs)
  then obtain s1 where s1: "call_step ops rid rp tc s = (None, s1)" "run_calls ops rid rp tcs s1 = (None, s')"
    by (auto split: prod.splits option.splits)
  obtain tx where "ls_messages s1 = ls_messages s @ [Tool_Msg (tc_id tc) tx]" using call_step_messages [OF s1(1)] by blast
  moreover obtain txts where "length txts = length tcs" "ls_messages s' = ls_messages s1 @ map2 Tool_Msg (map tc_id tcs) txts"
    using Cons.IH [OF s1(2)] by blast
  ultimately show ?case by (intro exI [of _ "tx # txts"]) simp
qed

lemma handle_answer_messages:
  assumes "handle_answer ops rid rp r s = (None, s')"
  shows "\<exists>m txts. m \<in> set (lr_choices r) \<and> lm_tool_calls m \<noteq> [] \<and> length txts = length (lm_tool_calls m) \<and>
           ls_messages s' = ls_messages s @ round_of m txts"
proof -
  obtain m ms where m: "lr_choices r = m # ms" "lm_tool_calls m \<noteq> []"
    and run: "run_calls ops rid rp (lm_tool_calls m) (s\<lparr>ls_messages := ls_messages s @ [Assistant_Msg m]\<rparr>) = (None, s')"
    using assms by (auto simp: handle_answer_def stop_def split: if_splits list.splits prod.splits option.splits)
  obtain txts where "length txts = length (lm_tool_calls m)"
    "ls_messages s' = ls_messages s @ Assistant_Msg m # map2 Tool_Msg (map tc_id (lm_tool_calls m)) txts"
    using run_calls_messages [OF run] by auto
  with m show ?thesis by (auto simp: round_of_def)
qed

lemma loop_at_rounds:
  assumes "loop_at ops rid rp w s" and "plain_answers ops"
  shows "\<exists>rs. list_all round_ok rs \<and>
           ls_messages s = [System_Msg (rp_system_prompt rp), User_Msg (user_prompt rp)] @ rounds rs"
  using assms(1)
proof (induction rule: loop_at.induct)
  case start
  then show ?case by (intro exI [of _ "[]"]) (simp add: initial_state_def rounds_def)
next
  case (turn s s')
  then obtain rs where rs: "list_all round_ok rs"
    "ls_messages s = [System_Msg (rp_system_prompt rp), User_Msg (user_prompt rp)] @ rounds rs" by blast
  let ?s = "s\<lparr>ls_turn := ls_turn s + 1\<rparr>"
  obtain r w' where llm: "op_llm ops (ls_world ?s) (ls_messages ?s) (model_tools ops rp) (rp_token_budget rp) = (Llm_Answer r, w')"
    and handle: "handle_answer ops rid rp r (after_answer r (?s\<lparr>ls_world := w'\<rparr>)) = (None, s')"
    using turn(2) by (auto simp: turn_step_def stop_def Let_def split: if_splits prod.splits llm_outcome.splits)
  obtain m txts where "m \<in> set (lr_choices r)" "lm_tool_calls m \<noteq> []" "length txts = length (lm_tool_calls m)"
    and msgs: "ls_messages s' = ls_messages s @ round_of m txts"
    using handle_answer_messages [OF handle] by (auto simp: after_answer_def)
  with assms(2) llm have "round_ok (m, txts)" unfolding round_ok_def plain_answers_def by fastforce
  with rs msgs show ?case by (intro exI [of _ "rs @ [(m, txts)]"]) (simp add: rounds_def)
qed

definition tool_msgs :: "llm_message \<Rightarrow> str list \<Rightarrow> dict list" where
  "tool_msgs m txts = map chat_dict (map2 Tool_Msg (map tc_id (lm_tool_calls m)) txts)"

lemma tool_msgs_facts:
  assumes "length txts = length (lm_tool_calls m)"
  shows "list_all is_tool_msg (tool_msgs m txts)"
    and "map (\<lambda>a. str_or_unknown (dget a ''tool_call_id'')) (tool_msgs m txts) = call_ids (chat_dict (Assistant_Msg m))"
proof -
  have tools: "list_all is_tool_msg (map chat_dict (map2 Tool_Msg ids txts))" for ids
    by (auto simp: list_all_iff is_tool_msg_def dget_def set_zip)
  show "list_all is_tool_msg (tool_msgs m txts)" unfolding tool_msgs_def by (rule tools)
  have ids: "map (\<lambda>a. str_or_unknown (dget a ''tool_call_id'')) (map chat_dict (map2 Tool_Msg is txts)) = map (\<lambda>i. str_or_unknown (PStr i)) is"
    if "length txts = length is" for "is"
    using that by (induction "is" txts rule: list_induct2') (simp_all add: dget_def)
  have "dicts_in (map (\<lambda>tc. PDict (call_dict tc)) tcs) = map call_dict tcs" for tcs
    by (induction tcs) simp_all
  then have "call_ids (chat_dict (Assistant_Msg m)) = map (\<lambda>i. str_or_unknown (PStr i)) (map tc_id (lm_tool_calls m))"
    by (simp add: call_ids_def call_dict_def dget_def)
  with ids [of "map tc_id (lm_tool_calls m)"] assms
  show "map (\<lambda>a. str_or_unknown (dget a ''tool_call_id'')) (tool_msgs m txts) = call_ids (chat_dict (Assistant_Msg m))"
    by (simp add: tool_msgs_def)
qed

lemma takeWhile_run:
  assumes "list_all P xs" and "ys = [] \<or> \<not> P (hd ys)"
  shows "takeWhile P (xs @ ys) = xs" and "dropWhile P (xs @ ys) = ys"
  using assms by (cases ys; auto simp: list_all_iff)+

lemma rounds_head: "map chat_dict (rounds rs) = [] \<or> \<not> is_tool_msg (hd (map chat_dict (rounds rs)))"
  by (cases rs) (auto simp: rounds_def round_of_def is_tool_msg_def dget_def split: prod.splits)

lemma paired_rounds: "list_all round_ok rs \<Longrightarrow> paired (map chat_dict (rounds rs))"
proof (induction rs)
  case Nil
  then show ?case by (simp add: rounds_def)
next
  case (Cons r rs)
  obtain m txts where r: "r = (m, txts)" by (cases r)
  with Cons have ok: "lm_tool_calls m \<noteq> []" "length txts = length (lm_tool_calls m)" "plain_content m"
    by (auto simp: round_ok_def)
  let ?a = "chat_dict (Assistant_Msg m)"
  have split: "map chat_dict (rounds (r # rs)) = ?a # tool_msgs m txts @ map chat_dict (rounds rs)"
    by (simp add: rounds_def round_of_def tool_msgs_def r)
  have a: "\<not> is_tool_msg ?a" "is_calling ?a" "content_blocks (PDict ?a) = []" "\<not> isl (iter_dicts (dget ?a ''tool_calls''))"
    using ok(1,3) by (auto simp: is_tool_msg_def is_calling_def content_blocks_def plain_content_def dget_def split: pyval.splits)
  note run = takeWhile_run [OF tool_msgs_facts(1) [OF ok(2)] rounds_head [of rs]]
  show ?case unfolding split using a run tool_msgs_facts(2) [OF ok(2)] Cons by simp
qed

text \<open>C20. At the beginning of every turn the history of a run can be translated, and in the conversation sent to the Messages API
  each turn answers exactly the calls of the one before, in order, with none left open. The hypothesis is that the gateway's answers
  carry text, not blocks.\<close>

theorem loop_history_answered:
  assumes "loop_at ops rid rp w s" and "plain_answers ops"
  shows "\<exists>out. to_anthropic_messages loads (wire_history (ls_messages s)) = Inr out \<and> exchange [] out"
proof -
  obtain rs where rs: "list_all round_ok rs"
    "ls_messages s = [System_Msg (rp_system_prompt rp), User_Msg (user_prompt rp)] @ rounds rs"
    using loop_at_rounds [OF assms] by blast
  have rest: "split_system (map (\<lambda>m. PDict (chat_dict m)) h) = ([], map (\<lambda>m. PDict (chat_dict m)) h)"
    if "list_all (\<lambda>m. \<forall>t. m \<noteq> System_Msg t) h" for h
    using that
  proof (induction h)
    case (Cons m h)
    then show ?case by (cases m) (simp_all add: dget_def)
  qed simp
  have "list_all (\<lambda>m. \<forall>t. m \<noteq> System_Msg t) (rounds rs)"
    by (auto simp: rounds_def round_of_def list_all_iff set_zip)
  then have "wire_history (ls_messages s) = map (\<lambda>m. PDict (chat_dict m)) (User_Msg (user_prompt rp) # rounds rs)"
    using rest [of "User_Msg (user_prompt rp) # rounds rs"] by (simp add: wire_history_def rs(2) dget_def)
  moreover have "dicts_in (map (\<lambda>m. PDict (chat_dict m)) h) = map chat_dict h" for h
    by (induction h) simp_all
  moreover have "paired (map chat_dict (User_Msg (user_prompt rp) # rounds rs))"
    using paired_rounds [OF rs(1)] by (simp add: is_tool_msg_def is_calling_def content_blocks_def dget_def)
  ultimately show ?thesis using paired_exchange to_anthropic_turns by metis
qed

section \<open>How often a call is sent\<close>

lemma try_models_sent:
  "\<exists>k. map Inr (snd (try_models post accept retry net err ms)) = map post (take k ms)"
proof (induction ms arbitrary: net err)
  case Nil
  then show ?case by simp
next
  case (Cons m ms)
  show ?case
  proof (cases "post m")
    case (Inl e)
    then show ?thesis by (intro exI [of _ 0]) simp
  next
    case (Inr req)
    show ?thesis
    proof (cases "\<exists>status txt body. net 0 = Reply status txt body \<and> status \<notin> {200, 201} \<and> retry status txt")
      case False
      then have "snd (try_models post accept retry net err (m # ms)) = [req]"
        using Inr by (auto split: llm_reply.splits option.splits)
      with Inr show ?thesis by (intro exI [of _ 1]) simp
    next
      case True
      then obtain status tx body where r: "net 0 = Reply status tx body" "status \<notin> {200, 201}" "retry status tx" by blast
      obtain k where "map Inr (snd (try_models post accept retry (\<lambda>i. net (Suc i)) (http_error status tx) ms)) = map post (take k ms)"
        using Cons.IH by blast
      with Inr r show ?thesis by (intro exI [of _ "Suc k"]) (auto split: prod.splits)
    qed
  qed
qed

definition model_of :: "llm_request \<Rightarrow> pyval" where
  "model_of q = dget (lq_body q) ''model''"

lemma sent_models:
  assumes "\<And>m q. post m = Inr q \<Longrightarrow> model_of q = PStr m \<and> lq_url q = url" and "distinct ms"
  shows "length (snd (try_models post accept retry net err ms)) \<le> length ms \<and>
         distinct (map model_of (snd (try_models post accept retry net err ms))) \<and>
         list_all (\<lambda>q. lq_url q = url) (snd (try_models post accept retry net err ms))"
proof -
  obtain k where k: "map Inr (snd (try_models post accept retry net err ms)) = map post (take k ms)"
    using try_models_sent by blast
  have "map model_of qs = map PStr xs \<and> list_all (\<lambda>q. lq_url q = url) qs" if "map Inr qs = map post xs" for qs xs
    using that
  proof (induction xs arbitrary: qs)
    case (Cons x xs)
    then obtain q qs' where "qs = q # qs'" "post x = Inr q" "map Inr qs' = map post xs" by (cases qs) auto
    with Cons.IH [of qs'] assms(1) [of x q] show ?case by simp
  qed simp
  with k have models: "map model_of (snd (try_models post accept retry net err ms)) = map PStr (take k ms)"
    and urls: "list_all (\<lambda>q. lq_url q = url) (snd (try_models post accept retry net err ms))" by blast+
  from models have len: "length (snd (try_models post accept retry net err ms)) = length (take k ms)" by (metis length_map)
  have "distinct (map PStr (take k ms))" using assms(2) by (simp add: distinct_map inj_on_def)
  with models urls len show ?thesis by simp
qed

lemma dedup_loop:
  fixes ms :: "str list"
  defines "step \<equiv> \<lambda>acc m. if m \<noteq> [] \<and> m \<notin> set acc then acc @ [m] else (acc :: str list)"
  assumes "distinct acc"
  shows "distinct (foldl step acc ms)" and "length (foldl step acc ms) \<le> length acc + length ms"
proof -
  have "distinct (foldl step acc ms) \<and> length (foldl step acc ms) \<le> length acc + length ms"
    using assms(2)
  proof (induction ms arbitrary: acc)
    case (Cons m ms)
    have "distinct (step acc m)" "length (step acc m) \<le> length acc + 1" using Cons(2) by (auto simp: step_def)
    with Cons(1) [of "step acc m"] show ?case by simp
  qed simp
  then show "distinct (foldl step acc ms)" and "length (foldl step acc ms) \<le> length acc + length ms" by simp_all
qed

lemma dedup_facts: "distinct (dedup ms)" "length (dedup ms) \<le> length ms"
  using dedup_loop [of "[]" ms] by (simp_all add: dedup_def)

lemma dedup_three: "length (dedup [x, y, z]) \<le> 3"
  using dedup_facts(2) [of "[x, y, z]"] by simp

text \<open>One model call sends at most three requests, each to the configured endpoint and no two for the same model; it sends none
  when the endpoint is OpenRouter and the override is not set.\<close>

theorem call_llm_bounded:
  "length (snd (call_llm loads c model messages tools max_tokens net)) \<le> 3 \<and>
   distinct (map model_of (snd (call_llm loads c model messages tools max_tokens net))) \<and>
   list_all (\<lambda>q. lq_url q = (if is_anthropic c then messages_url c else lc_url c)) (snd (call_llm loads c model messages tools max_tokens net))"
proof -
  have a: "model_of q = PStr m \<and> lq_url q = messages_url c" if "anthropic_post loads c messages tools max_tokens m = Inr q" for m q
    using that by (auto simp: anthropic_post_def build_anthropic_request_def model_of_def dget_def bindE_Inr Let_def split: prod.splits)
  have g: "model_of q = PStr m \<and> lq_url q = lc_url c" if "gateway_post c messages tools max_tokens m = Inr q" for m q
    using that by (auto simp: gateway_post_def model_of_def dget_def)
  have ac: "distinct (anthropic_candidates c model)" "length (anthropic_candidates c model) \<le> 3"
    by (simp_all add: anthropic_candidates_def Let_def ANTHROPIC_FALLBACK_MODELS_def dedup_facts(1) dedup_three)
  have gc: "distinct (gateway_candidates c model)" "length (gateway_candidates c model) \<le> 3"
    by (simp_all add: gateway_candidates_def Let_def dedup_facts(1) dedup_three)
  show ?thesis
  proof (cases "is_anthropic c")
    case True
    with sent_models [OF a ac(1)] ac(2) show ?thesis by (simp add: call_llm_def call_anthropic_def) (meson order_trans)
  next
    case False
    with sent_models [OF g gc(1)] gc(2) show ?thesis by (simp add: call_llm_def) (meson order_trans)
  qed
qed

text \<open>With the endpoint at OpenRouter and the override unset nothing is sent.\<close>

lemma openrouter_refused:
  assumes "\<not> is_anthropic c" and "str_in ''openrouter.ai'' (lc_url c)" and "\<not> openrouter_allowed c"
  shows "snd (call_llm loads c model messages tools max_tokens net) = []"
  using assms by (simp add: call_llm_def OPENROUTER_HOST_MARKERS_def)

section \<open>Samples\<close>

definition sample_answer :: llm_response where
  "sample_answer =
     \<lparr>lr_usage = PNone,
      lr_choices = [\<lparr>lm_tool_calls = [\<lparr>tc_id = ''c1'', tc_name = ''nope'', tc_arguments = ''{}''\<rparr>], lm_content = PNone\<rparr>],
      lr_swarmsync = PNone\<rparr>"

definition sample_chat_ops :: "unit runtime_ops" where
  "sample_chat_ops =
     \<lparr>op_registered = (\<lambda>_. False), op_run = (\<lambda>w _ _ _. (Tool_Returned PNone, w)), op_intent = (\<lambda>w _ _ _. Some w),
      op_event = (\<lambda>w _ _ _ _. Some w), op_grant = (\<lambda>w _ _ _. (False, w)), op_ledger = (\<lambda>_. \<lparr>dl_tokens = [], dl_cents = []\<rparr>),
      op_late = (\<lambda>_. False), op_elapsed = (\<lambda>_. PNone), op_llm = (\<lambda>w _ _ _. (Llm_Answer sample_answer, w)),
      op_loads = (\<lambda>_. Some (PDict [])), op_finalizing = (\<lambda>w. w), op_proof = (\<lambda>w. (Browser_Unused, w))\<rparr>"

definition sample_chat_params :: run_params where
  "sample_chat_params =
     \<lparr>rp_slug = ''s'', rp_job_id = ''j'', rp_session_id = ''x'', rp_workspace = [], rp_system_prompt = ''sys'', rp_task = ''go'', rp_tools = [],
      rp_params = [], rp_success_criteria = None, rp_delegation_chain = [], rp_delegation_depth = 0, rp_delegated_allowed_risks = None,
      rp_token_budget = 9, rp_conduit_budget_cents = 0\<rparr>"

definition sample_turn :: "(runtime_exc + dict) option \<times> unit loop_state" where
  "sample_turn = turn_step sample_chat_ops ''r'' sample_chat_params (initial_state sample_chat_params ())"

theorem loop_history_answered_witness:
  "length (ls_messages (snd sample_turn)) = 4 \<and>
   (\<exists>out. to_anthropic_messages (\<lambda>_. None) (wire_history (ls_messages (snd sample_turn))) = Inr out \<and> exchange [] out)"
proof -
  have none: "fst sample_turn = None" by code_simp
  have "loop_at sample_chat_ops ''r'' sample_chat_params () (snd sample_turn)"
    using none by (intro loop_at.turn [OF loop_at.start]) (simp add: sample_turn_def prod_eq_iff)
  moreover have "plain_answers sample_chat_ops"
    by (simp add: plain_answers_def sample_chat_ops_def sample_answer_def plain_content_def)
  ultimately have "\<exists>out. to_anthropic_messages (\<lambda>_. None) (wire_history (ls_messages (snd sample_turn))) = Inr out \<and> exchange [] out"
    by (rule loop_history_answered)
  moreover have "length (ls_messages (snd sample_turn)) = 4" by code_simp
  ultimately show ?thesis by simp
qed

definition sample_blocks :: "dict list" where
  "sample_blocks = [[(''type'', PStr ''text''), (''text'', PStr ''ok'')], plain_call ''c1'' ''f'' [(''a'', PInt 1)]]"

definition sample_read :: "str \<Rightarrow> pyval option" where
  "sample_read s = (if s = plain_json (PDict [(''a'', PInt 1)]) then Some (PDict [(''a'', PInt 1)]) else None)"

theorem answer_returns_to_wire_witness:
  "to_anthropic_messages sample_read [PDict (answer_message sample_blocks)] =
     Inr [assistant_turn [PDict [(''type'', PStr ''text''), (''text'', PStr ''ok'')], PDict (plain_call ''c1'' ''f'' [(''a'', PInt 1)])]]"
proof -
  have calls: "filter (is_block ''tool_use'') sample_blocks = [plain_call ''c1'' ''f'' [(''a'', PInt 1)]]" by code_simp
  have "is_plain_call sample_read (plain_call ''c1'' ''f'' [(''a'', PInt 1)])" by code_simp
  moreover have "text_blocks (dget (answer_message sample_blocks) ''content'') = [PDict [(''type'', PStr ''text''), (''text'', PStr ''ok'')]]"
    by code_simp
  ultimately show ?thesis using answer_returns_to_wire [of sample_blocks sample_read] by (simp add: calls)
qed

definition sample_conversation :: "pyval list" where
  "sample_conversation =
     [PDict [(''role'', PStr ''assistant''), (''content'', PNone),
             (''tool_calls'', PList [PDict [(''id'', PStr ''c1''), (''function'', PDict [(''name'', PStr ''f''), (''arguments'', PStr ''{}'')])]])],
      PDict [(''role'', PStr ''tool''), (''tool_call_id'', PStr ''c1''), (''content'', PStr ''done'')]]"

theorem wire_idempotent_witness:
  "\<exists>out. to_anthropic_messages (\<lambda>_. None) sample_conversation = Inr out \<and> length out = 2 \<and> to_anthropic_messages (\<lambda>_. None) out = Inr out"
proof -
  have "case to_anthropic_messages (\<lambda>_. None) sample_conversation of Inr out \<Rightarrow> length out = 2 | Inl _ \<Rightarrow> False" by code_simp
  then obtain out where out: "to_anthropic_messages (\<lambda>_. None) sample_conversation = Inr out" "length out = 2"
    by (auto split: sum.splits)
  have "list_all (\<lambda>d. is_calling d \<longrightarrow> utters d) (dicts_in sample_conversation)" by code_simp
  then have "\<forall>d \<in> set (dicts_in sample_conversation). is_calling d \<longrightarrow> utters d" by (simp add: list_all_iff)
  with out show ?thesis using wire_idempotent by blast
qed

end
