(* ===== verification/Job_Resources.thy ===== *)
theory Job_Resources
  imports Prelude
begin

text \<open>
  What a job holds while it runs: its workspace (\<^verbatim>\<open>runtime/workspace_manager.py\<close>) and the browser session a buyer uploaded for it
  (\<^verbatim>\<open>conduit_sessions.py\<close>).

  Path resolution, which reads the file system, the creation and removal of directories, AES-GCM, Base64 and the JSON parser are arguments.
  The vault's files are a map from job ids, which are single path components.
\<close>

section \<open>Workspaces\<close>

record workspace =
  wsp_job_id :: str
  wsp_session_id :: str
  wsp_path :: str
  wsp_status :: str
  wsp_created_at :: int
  wsp_updated_at :: int

type_synonym workspaces = "(str \<times> workspace) list"

definition VALID_STATES :: "str list" where
  "VALID_STATES = [''CREATED'', ''ACTIVE'', ''FINALIZING'', ''UPLOADED'', ''CLEANED'', ''FAILED'']"

definition create_workspace ::
  "(str \<Rightarrow> str) \<Rightarrow> bool \<Rightarrow> int \<Rightarrow> str \<Rightarrow> str \<Rightarrow> str option \<Rightarrow> workspaces \<Rightarrow> py_exc + workspace \<times> workspaces" where
  "create_workspace dir_of mkdir_ok now fresh job_id session_id reg =
     (case map_of reg job_id of
        Some ws \<Rightarrow> Inr (ws, reg)
      | None \<Rightarrow>
          guardE mkdir_ok (OSError ''mkdir'')
            (let ws = \<lparr>wsp_job_id = job_id, wsp_session_id = (case session_id of None \<Rightarrow> fresh | Some s \<Rightarrow> s), wsp_path = dir_of job_id,
                       wsp_status = ''CREATED'', wsp_created_at = now, wsp_updated_at = now\<rparr> in
             Inr (ws, dict_set reg job_id ws)))"

definition get_workspace :: "str \<Rightarrow> workspaces \<Rightarrow> workspace option" where
  "get_workspace job_id reg = map_of reg job_id"

definition set_workspace_status :: "int \<Rightarrow> str \<Rightarrow> str \<Rightarrow> workspaces \<Rightarrow> py_exc + workspaces" where
  "set_workspace_status now job_id status reg =
     guardE (status \<in> set VALID_STATES) ValueError
       (Inr (case map_of reg job_id of
               None \<Rightarrow> reg
             | Some ws \<Rightarrow> dict_set reg job_id (ws\<lparr>wsp_status := status, wsp_updated_at := now\<rparr>)))"

definition assert_inside_workspace :: "(str \<Rightarrow> str) \<Rightarrow> str \<Rightarrow> str \<Rightarrow> workspaces \<Rightarrow> py_exc + str" where
  "assert_inside_workspace resolve_path job_id path reg =
     bindE (optE ValueError (map_of reg job_id)) (\<lambda>ws.
       let resolved = resolve_path path; root = resolve_path (wsp_path ws) in
       guardE (resolved = root \<or> startswith resolved (root @ ''/'')) (OSError ''PermissionError'') (Inr resolved))"

definition cleanup_workspace :: "bool \<Rightarrow> (str \<Rightarrow> str option) \<Rightarrow> int \<Rightarrow> str \<Rightarrow> workspaces \<Rightarrow> dict \<times> workspaces" where
  "cleanup_workspace enabled rmtree now job_id reg =
     (case map_of reg job_id of
        None \<Rightarrow> ([(''ok'', PBool False), (''error'', PStr ''workspace_not_found''), (''job_id'', PStr job_id)], reg)
      | Some ws \<Rightarrow>
          if \<not> enabled then
            ([(''ok'', PBool True), (''skipped'', PBool True), (''reason'', PStr ''cleanup_disabled''), (''job_id'', PStr job_id)], reg)
          else (case rmtree (wsp_path ws) of
                  None \<Rightarrow>
                    ([(''ok'', PBool True), (''job_id'', PStr job_id), (''path'', PStr (wsp_path ws))],
                     dict_set reg job_id (ws\<lparr>wsp_status := ''CLEANED'', wsp_updated_at := now\<rparr>))
                | Some err \<Rightarrow>
                    ([(''ok'', PBool False), (''error'', PStr err), (''job_id'', PStr job_id)],
                     dict_set reg job_id (ws\<lparr>wsp_status := ''FAILED'', wsp_updated_at := now\<rparr>))))"

text \<open>The registry: one workspace per job, under its own id, in a known status.\<close>

definition workspaces_ok :: "workspaces \<Rightarrow> bool" where
  "workspaces_ok reg \<longleftrightarrow> (\<forall>job ws. map_of reg job = Some ws \<longrightarrow> wsp_job_id ws = job \<and> wsp_status ws \<in> set VALID_STATES)"

lemma workspaces_ok_set:
  "workspaces_ok reg \<Longrightarrow> wsp_job_id ws = job \<Longrightarrow> wsp_status ws \<in> set VALID_STATES \<Longrightarrow> workspaces_ok (dict_set reg job ws)"
  by (auto simp: workspaces_ok_def)

lemma create_workspace_ok:
  assumes "workspaces_ok reg" and "create_workspace dir_of mk now fresh job sid reg = Inr (ws, reg')"
  shows "workspaces_ok reg'" and "map_of reg' job = Some ws" and "k \<noteq> job \<Longrightarrow> map_of reg' k = map_of reg k"
  using assms by (auto simp: create_workspace_def guardE_Inr Let_def VALID_STATES_def intro!: workspaces_ok_set split: option.splits)

lemma set_workspace_status_ok:
  assumes "workspaces_ok reg" and "set_workspace_status now job status reg = Inr reg'"
  shows "workspaces_ok reg'" and "map_option wsp_path (map_of reg' k) = map_option wsp_path (map_of reg k)"
  using assms by (auto simp: set_workspace_status_def guardE_Inr workspaces_ok_def split: option.splits if_splits)

lemma cleanup_workspace_ok: "workspaces_ok reg \<Longrightarrow> workspaces_ok (snd (cleanup_workspace on rm now job reg))"
  by (auto simp: cleanup_workspace_def workspaces_ok_def VALID_STATES_def split: option.splits)

section \<open>Containment of paths\<close>

fun path_parts :: "str \<Rightarrow> str list" where
  "path_parts [] = [[]]"
| "path_parts (c # cs) =
     (if c = CHR ''/'' then [] # path_parts cs
      else (case path_parts cs of p # ps \<Rightarrow> (c # p) # ps | [] \<Rightarrow> [[c]]))"

lemma path_parts_nonempty [simp]: "path_parts s \<noteq> []"
  by (induction s) (auto split: list.splits)

lemma join_path_parts [simp]: "join ''/'' (path_parts s) = s"
proof (induction s)
  case (Cons c cs)
  obtain p ps where "path_parts cs = p # ps" by (cases "path_parts cs") auto
  with Cons show ?case by (cases ps) auto
qed simp

lemma path_parts_append: "path_parts (a @ CHR ''/'' # b) = path_parts a @ path_parts b"
proof (induction a)
  case (Cons c a)
  obtain p ps where "path_parts a = p # ps" by (cases "path_parts a") auto
  with Cons show ?case by simp
qed simp

lemma join_append: "xs \<noteq> [] \<Longrightarrow> ys \<noteq> [] \<Longrightarrow> join sep (xs @ ys) = join sep xs @ sep @ join sep ys"
proof (induction xs rule: join.induct [of _ sep])
  case (2 sep x)
  then show ?case by (cases ys) auto
qed auto

lemma inside_parts: "p = root \<or> startswith p (root @ ''/'') \<longleftrightarrow> (\<exists>rest. path_parts p = path_parts root @ rest)"
proof
  assume "p = root \<or> startswith p (root @ ''/'')"
  then show "\<exists>rest. path_parts p = path_parts root @ rest"
    by (auto simp: startswith_iff path_parts_append)
next
  assume "\<exists>rest. path_parts p = path_parts root @ rest"
  then obtain rest where r: "path_parts p = path_parts root @ rest" by blast
  have "p = join ''/'' (path_parts root @ rest)" using r by (metis join_path_parts)
  then show "p = root \<or> startswith p (root @ ''/'')"
    by (cases "rest = []") (auto simp: join_append startswith_iff)
qed

text \<open>
  The path check of a workspace accepts exactly the paths that resolve into it: component by component, the resolved path extends the
  resolved root of the workspace of that job. A sibling directory whose name only begins like the workspace's is refused.
\<close>

theorem assert_inside_workspace_iff:
  "assert_inside_workspace resolve_path job path reg = Inr r \<longleftrightarrow>
     (\<exists>ws rest. map_of reg job = Some ws \<and> r = resolve_path path \<and> path_parts r = path_parts (resolve_path (wsp_path ws)) @ rest)"
  using inside_parts by (auto simp: assert_inside_workspace_def call_Inr Let_def)

section \<open>The session vault\<close>

type_synonym vault = "(str \<times> (str \<times> str)) list"

record vault_ops =
  vo_key_b64 :: str
  vo_unb64 :: "str \<Rightarrow> str option"
  vo_encrypt :: "str \<Rightarrow> str \<Rightarrow> str \<Rightarrow> str \<Rightarrow> str"
  vo_decrypt :: "str \<Rightarrow> str \<Rightarrow> str \<Rightarrow> str \<Rightarrow> str option"
  vo_loads :: "str \<Rightarrow> pyval option"
  vo_dest :: "str \<Rightarrow> str"

definition get_key :: "vault_ops \<Rightarrow> str option" where
  "get_key vo =
     (if vo_key_b64 vo = [] then None
      else case vo_unb64 vo (vo_key_b64 vo) of None \<Rightarrow> None | Some key \<Rightarrow> if length key \<noteq> 32 then None else Some key)"

definition vault_error :: "str \<Rightarrow> dict" where
  "vault_error err = [(''ok'', PBool False), (''error'', PStr err)]"

definition store_session :: "vault_ops \<Rightarrow> str \<Rightarrow> str \<Rightarrow> dict \<Rightarrow> vault \<Rightarrow> dict \<times> vault" where
  "store_session vo nonce job_id session_data v =
     (case get_key vo of
        None \<Rightarrow>
          (vault_error ''vault_not_configured'' @ [(''message'', PStr ''GENESIS_SESSION_VAULT_KEY env var missing or invalid'')], v)
      | Some key \<Rightarrow>
          let plaintext = plain_json (PDict session_data) in
          ([(''ok'', PBool True), (''stored_at'', PStr (vo_dest vo job_id)), (''size_bytes'', PInt (int (length plaintext)))],
           dict_set v job_id (nonce, vo_encrypt vo key nonce plaintext job_id)))"

definition load_session :: "vault_ops \<Rightarrow> str \<Rightarrow> vault \<Rightarrow> dict" where
  "load_session vo job_id v =
     (case get_key vo of
        None \<Rightarrow> vault_error ''vault_not_configured''
      | Some key \<Rightarrow>
          (case map_of v job_id of
             None \<Rightarrow> vault_error ''session_not_found'' @ [(''job_id'', PStr job_id)]
           | Some (nonce, ciphertext) \<Rightarrow>
               (case vo_decrypt vo key nonce ciphertext job_id of
                  None \<Rightarrow> vault_error ''decrypt_failed'' @ [(''type'', PStr ''InvalidTag'')]
                | Some plaintext \<Rightarrow>
                    (case vo_loads vo plaintext of
                       None \<Rightarrow> vault_error ''decrypt_failed'' @ [(''type'', PStr ''JSONDecodeError'')]
                     | Some data \<Rightarrow> [(''ok'', PBool True), (''session_data'', data)]))))"

text \<open>\<open>failure\<close> is the type and text of an exception the deletion raises, which leaves the file in place.\<close>

definition delete_session :: "(str \<times> str) option \<Rightarrow> str \<Rightarrow> vault \<Rightarrow> dict \<times> vault" where
  "delete_session failure job_id v =
     (case map_of v job_id of
        None \<Rightarrow> ([(''ok'', PBool True), (''deleted'', PBool False), (''reason'', PStr ''not_found'')], v)
      | Some _ \<Rightarrow>
          (case failure of
             None \<Rightarrow> ([(''ok'', PBool True), (''deleted'', PBool True)], dict_pop v job_id)
           | Some (ty, msg) \<Rightarrow> (vault_error ''delete_failed'' @ [(''type'', PStr ty), (''message'', PStr msg)], v)))"

text \<open>The list of the jobs with a stored session, sorted.\<close>

definition list_session_ids :: "vault \<Rightarrow> str list" where
  "list_session_ids v = sort (remdups (map fst v))"

text \<open>
  What a buyer stores for a job is what the job loads, until it is deleted: under a configured key, an upload for a job can be read back
  whatever is stored or deleted for other jobs, and after a deletion that succeeds nothing is left to load. Assumed of the codecs:
  AES-GCM decrypts what it encrypted under the same key, nonce and job id, and the JSON parser reads back what was printed.
\<close>

theorem vault_roundtrip:
  assumes key: "get_key vo = Some key"
    and aes: "\<And>n m ad. vo_decrypt vo key n (vo_encrypt vo key n m ad) ad = Some m"
    and json: "vo_loads vo (plain_json (PDict data)) = Some (PDict data)"
    and other: "other \<noteq> job"
  shows "load_session vo job (snd (delete_session f other (snd (store_session vo n2 other data2 (snd (store_session vo nonce job data v))))))
       = [(''ok'', PBool True), (''session_data'', PDict data)] \<and>
     load_session vo job (snd (delete_session None job w)) = vault_error ''session_not_found'' @ [(''job_id'', PStr job)]"
proof
  let ?v = "snd (store_session vo n2 other data2 (snd (store_session vo nonce job data v)))"
  have "map_of ?v job = Some (nonce, vo_encrypt vo key nonce (plain_json (PDict data)) job)"
    using other by (simp add: store_session_def key Let_def)
  then have "map_of (snd (delete_session f other ?v)) job = Some (nonce, vo_encrypt vo key nonce (plain_json (PDict data)) job)"
    using other by (auto simp: delete_session_def split: option.splits)
  then show "load_session vo job (snd (delete_session f other ?v)) = [(''ok'', PBool True), (''session_data'', PDict data)]"
    by (simp add: load_session_def key aes json)
next
  have "map_of (snd (delete_session None job w)) job = None" by (auto simp: delete_session_def split: option.splits)
  then show "load_session vo job (snd (delete_session None job w)) = vault_error ''session_not_found'' @ [(''job_id'', PStr job)]"
    by (simp add: load_session_def key)
qed

definition sample_vault_ops :: vault_ops where
  "sample_vault_ops =
     \<lparr>vo_key_b64 = ''K'', vo_unb64 = (\<lambda>_. Some (replicate 32 (CHR ''k''))), vo_encrypt = (\<lambda>k n m ad. ad @ ''|'' @ m),
      vo_decrypt = (\<lambda>k n c ad. if startswith c (ad @ ''|'') then Some (drop (length ad + 1) c) else None),
      vo_loads = (\<lambda>_. Some (PDict [(''a'', PInt 1)])), vo_dest = (\<lambda>job. job)\<rparr>"

theorem vault_roundtrip_witness:
  "load_session sample_vault_ops ''j1'' (snd (delete_session None ''j2'' (snd (store_session sample_vault_ops ''n2'' ''j2'' []
     (snd (store_session sample_vault_ops ''n1'' ''j1'' [(''a'', PInt 1)] []))))))
     = [(''ok'', PBool True), (''session_data'', PDict [(''a'', PInt 1)])]"
  using vault_roundtrip [of sample_vault_ops "replicate 32 (CHR ''k'')" "[(''a'', PInt 1)]" "''j2''" "''j1''" None "''n2''" "[]" "''n1''" "[]" "[]"]
  by (simp add: sample_vault_ops_def get_key_def startswith_def)

text \<open>The sibling of a workspace, and a path inside it.\<close>

lemma sibling_refused:
  "assert_inside_workspace id ''1'' ''/jobs/10/x'' [(''1'', \<lparr>wsp_job_id = ''1'', wsp_session_id = ''s'', wsp_path = ''/jobs/1'',
     wsp_status = ''ACTIVE'', wsp_created_at = 0, wsp_updated_at = 0\<rparr>)] = Inl (OSError ''PermissionError'')"
  by code_simp

end
