(* ===== verification/Execution.thy ===== *)
theory Execution
  imports Agent_Runtime Bundles Durable_Store Job_Resources
begin

text \<open>
  One agent invocation around its loop: the entity packs of the accounting specialists (\<^verbatim>\<open>accounting/runtime_context.py\<close>) and
  \<open>_execute_agent_inner\<close> of \<^verbatim>\<open>agent_runtime.py\<close>, over the bundles, the workspaces, the session vault, the durable store and the loop.

  The world of the loop's operations is a record of the durable store, the workspaces, the vault and the rest. Bundle files have the field
  types of the ones in the repository; another type raises. Left out: the browser bridge, of which only whether it starts is known; the tracing
  span; and the copies in the durable store of the events the loop emits, which are in its trace.
\<close>

section \<open>Entity packs\<close>

text \<open>What the accounting directory holds, the YAML printer, and the two texts of the prompt that have characters beyond the model's.\<close>

record pack_files =
  pf_contracts :: "str \<Rightarrow> pyval option"
  pf_entities :: "str \<Rightarrow> pyval option"
  pf_dump :: "pyval \<Rightarrow> str"
  pf_evidence :: "str option"
  pf_handoff :: "str option"
  pf_disagreement :: "str option"
  pf_hard_rules :: str
  pf_none_named :: str

definition load_entity :: "(str \<Rightarrow> pyval option) \<Rightarrow> str \<Rightarrow> py_exc + dict" where
  "load_entity files entity_key =
     (let key = strip entity_key in
      guardE (key \<in> set ENTITY_KEYS) ValueError (
      bindE (read_yaml (files key)) (\<lambda>v.
      bindE (as_dict ValueError v) (\<lambda>data.
      guardE (dget data ''key'' = PStr key) ValueError (Inr data)))))"

definition named_entities :: "dict \<Rightarrow> pyval" where
  "named_entities params = py_or (dget params ''entity_keys'') (dget params ''entities'')"

definition entity_keys_from_params :: "dict \<Rightarrow> py_exc + str list" where
  "entity_keys_from_params params =
     bindE (case py_or (named_entities params) (PList []) of
              PStr s \<Rightarrow> Inr [PStr s]
            | PList xs \<Rightarrow> Inr xs
            | PDict d \<Rightarrow> Inr (map (\<lambda>(k, _). PStr k) d)
            | _ \<Rightarrow> Inl TypeError) (\<lambda>raw.
       let keys = filter (\<lambda>k. k \<noteq> []) (map (\<lambda>v. strip (py_str v)) raw) in
       guardE (filter (\<lambda>k. k \<notin> set ENTITY_KEYS \<and> k \<noteq> ''demo'') keys = []) ValueError
         (Inr (filter (\<lambda>k. k \<in> set ENTITY_KEYS) keys)))"

definition journals_gate :: "str \<Rightarrow> dict \<Rightarrow> str list" where
  "journals_gate slug params =
     (if slug = ''genesis-e4l-journals''
      then [[], ''JOURNALS GATE: propose only. entity=demo is the only tool-exercise org. demo_named='' @
              py_str (PBool (str_in ''demo'' (lower (py_str (py_or (named_entities params) (PStr []))))))  @ ''. write_attempted=false.'']
      else [])"

definition build_specialized_prompt :: "pack_files \<Rightarrow> str \<Rightarrow> str \<Rightarrow> dict \<Rightarrow> str \<Rightarrow> py_exc + str" where
  "build_specialized_prompt pf base_prompt slug params task =
     (if \<not> is_e4l_specialist slug then Inr base_prompt
      else
        bindE (load_contract_for_slug (pf_contracts pf) slug) (\<lambda>contract.
        bindE (entity_keys_from_params params) (\<lambda>keys.
        bindE (mapE (load_entity (pf_entities pf)) keys) (\<lambda>entities.
        bindE (optE (OSError ''ACCOUNTING_EVIDENCE_CONTRACT.yaml'') (pf_evidence pf)) (\<lambda>evidence.
        bindE (optE (OSError ''CROSS_AGENT_HANDOFF_CONTRACT.yaml'') (pf_handoff pf)) (\<lambda>handoff.
        bindE (optE (OSError ''SPECIALIST_DISAGREEMENT_RESOLUTION.yaml'') (pf_disagreement pf)) (\<lambda>disagreement.
        Inr (join [CHR 10]
          ([rev (dropWhile is_space (rev base_prompt)), [], pf_hard_rules pf, [], ''ACTIVE AGENT: '' @ slug,
            ''WRITE PERMISSIONS: '' @ py_str (dget contract ''write_permissions''),
            ''ENTITIES NAMED BY CATO: '' @ (if keys = [] then pf_none_named pf else py_str (PList (map PStr keys))),
            ''PERIOD: '' @ py_str (dget params ''period_from'') @ '' .. '' @ py_str (dget params ''period_to''),
            ''QUESTION: '' @ py_str (py_or (dget params ''question'') (PStr task)), [],
            ''THIS AGENT'' @ [CHR 39] @ ''S CONTRACT (source of scope/non-scope):'', pf_dump pf (PDict contract), [],
            ''ENTITY PACKS (context, not agents, not live TB):'',
            if entities = [] then ''(Cato named no entity_keys)'' else pf_dump pf (PList (map PDict entities)), [],
            ''EVIDENCE CONTRACT:'', evidence, [], ''HANDOFF OUTPUT SHAPE:'', handoff, [], ''DISAGREEMENT RULES:'', disagreement]
           @ journals_gate slug params)))))))))"

definition enrich_bundle :: "pack_files \<Rightarrow> dict \<Rightarrow> dict \<Rightarrow> str \<Rightarrow> py_exc + dict" where
  "enrich_bundle pf bundle params task =
     bindE (build_specialized_prompt pf (str_or_empty (dget bundle ''system_prompt'')) (str_or_empty (dget bundle ''slug'')) params task)
       (\<lambda>prompt. Inr (dict_set bundle ''system_prompt'' (PStr prompt)))"

section \<open>One invocation\<close>

record exec_request =
  xq_slug :: str
  xq_task :: str
  xq_params :: dict
  xq_job_id :: "str option"
  xq_session_id :: "str option"
  xq_parent_job_id :: "str option"
  xq_parent_session_id :: "str option"
  xq_delegation_chain :: "str list"
  xq_delegation_depth :: int
  xq_delegated_allowed_risks :: "risk list option"
  xq_inherited_token_budget :: "int option"
  xq_inherited_cost_budget_cents :: "int option"

text \<open>What the invocation finds: bundle files, fresh ids, the clock, whether directories can be made and the bridge starts, and the failures
  of the two deletions of the buyer's session.\<close>

record exec_env =
  xe_bundles :: bundle_dir
  xe_packs :: pack_files
  xe_new_job :: str
  xe_new_session :: str
  xe_dir_of :: "str \<Rightarrow> str"
  xe_mkdir_ok :: bool
  xe_now :: int
  xe_vault_ops :: vault_ops
  xe_bridge_up :: bool
  xe_refuse_failure :: "(str \<times> str) option"
  xe_cleanup_failure :: "(str \<times> str) option"

record 'w exec_world =
  ew_durable :: durable_state
  ew_workspaces :: workspaces
  ew_vault :: vault
  ew_rest :: 'w

definition id_or :: "str option \<Rightarrow> str \<Rightarrow> str" where
  "id_or given fresh = (case given of None \<Rightarrow> fresh | Some i \<Rightarrow> if i = [] then fresh else i)"

definition to_int :: "pyval \<Rightarrow> py_exc + int" where
  "to_int v = (case py_int_of v of Some i \<Rightarrow> Inr i | None \<Rightarrow> Inl (case v of PStr _ \<Rightarrow> ValueError | _ \<Rightarrow> TypeError))"

definition cap_budget :: "str \<Rightarrow> int option \<Rightarrow> dict \<Rightarrow> py_exc + dict" where
  "cap_budget field inherited bundle =
     (case inherited of
        None \<Rightarrow> Inr bundle
      | Some n \<Rightarrow>
          bindE (to_int (dget_default bundle field (PInt n))) (\<lambda>own. Inr (dict_set bundle field (PInt (min own (max 0 n))))))"

text \<open>The bundle of the run, an error the invocation returns, or an exception.\<close>

definition prepare_bundle :: "pack_files \<Rightarrow> exec_request \<Rightarrow> str \<Rightarrow> pyval \<Rightarrow> py_exc + dict + dict" where
  "prepare_bundle pf q job v =
     bindE (as_dict TypeError v) (\<lambda>bundle.
       case (if is_e4l_specialist (py_str (py_or (dget bundle ''slug'') (PStr (xq_slug q))))
             then enrich_bundle pf bundle (xq_params q) (xq_task q) else Inr bundle) of
         Inl _ \<Rightarrow>
           Inr (Inl [(''ok'', PBool False), (''error'', PStr ''accounting_entity_load_failed''), (''slug'', PStr (xq_slug q)), (''job_id'', PStr job)])
       | Inr enriched \<Rightarrow>
           bindE (cap_budget ''token_budget'' (xq_inherited_token_budget q) enriched) (\<lambda>capped.
           bindE (cap_budget ''conduit_budget_cents'' (xq_inherited_cost_budget_cents q) capped) (\<lambda>b. Inr (Inr b))))"

definition begin_job :: "exec_env \<Rightarrow> exec_request \<Rightarrow> str \<Rightarrow> str \<Rightarrow> 'w exec_world \<Rightarrow> py_exc + str \<times> 'w exec_world" where
  "begin_job env q job sid w =
     bindE (create_workspace (xe_dir_of env) (xe_mkdir_ok env) (xe_now env) sid job (Some sid) (ew_workspaces w)) (\<lambda>(ws, reg).
     bindE (set_workspace_status (xe_now env) job ''ACTIVE'' reg) (\<lambda>reg'.
       let d = snd (session_create sid job (xq_slug q) (xq_parent_job_id q) (xq_parent_session_id q) (Some (wsp_path ws)) ''ACTIVE''
                      (ew_durable w)) in
       Inr (wsp_path ws,
            w\<lparr>ew_workspaces := reg',
              ew_durable := event_insert job ''job.created'' (Some [(''session_id'', PStr sid), (''agent_slug'', PStr (xq_slug q))]) (Some sid) d\<rparr>)))"

definition advertises_conduit :: "dict \<Rightarrow> py_exc + bool" where
  "advertises_conduit bundle =
     (case dget_default bundle ''tools_advertised'' (PList []) of PList ts \<Rightarrow> Inr (PStr ''conduit'' \<in> set ts) | _ \<Rightarrow> Inl TypeError)"

definition buyer_session_found :: "exec_env \<Rightarrow> str \<Rightarrow> vault \<Rightarrow> bool" where
  "buyer_session_found env job v =
     (xe_bridge_up env \<and>
      (let r = load_session (xe_vault_ops env) job v in truthy (dget r ''ok'') \<and> truthy (dget r ''session_data'')))"

text \<open>The arguments of \<open>_run_loop\<close>, read from the bundle.\<close>

definition as_text :: "pyval \<Rightarrow> py_exc + str" where
  "as_text v = (case v of PStr s \<Rightarrow> Inr s | _ \<Rightarrow> Inl TypeError)"

definition as_list :: "pyval \<Rightarrow> py_exc + pyval list" where
  "as_list v = (case v of PList xs \<Rightarrow> Inr xs | _ \<Rightarrow> Inl TypeError)"

definition run_params_of :: "exec_request \<Rightarrow> dict \<Rightarrow> str \<Rightarrow> str \<Rightarrow> str \<Rightarrow> py_exc + run_params" where
  "run_params_of q bundle job sid dir =
     bindE (bindE (getitem bundle ''slug'') as_text) (\<lambda>slug.
     bindE (bindE (as_list (dget_default bundle ''tools_advertised'' (PList []))) (mapE as_text)) (\<lambda>tools.
     bindE (to_int (dget_default bundle ''token_budget'' (PInt 4000))) (\<lambda>token_budget.
     bindE (bindE (getitem bundle ''system_prompt'') as_text) (\<lambda>prompt.
     bindE (if dget bundle ''success_criteria'' = PNone then Inr None
            else bindE (bindE (as_list (dget bundle ''success_criteria'')) (mapE (as_dict TypeError))) (\<lambda>cs. Inr (Some cs))) (\<lambda>criteria.
     bindE (to_int (dget_default bundle ''conduit_budget_cents'' (PInt 0))) (\<lambda>cents.
     Inr \<lparr>rp_slug = slug, rp_job_id = job, rp_session_id = sid, rp_workspace = dir, rp_system_prompt = prompt, rp_task = xq_task q,
          rp_tools = tools, rp_params = xq_params q, rp_success_criteria = criteria, rp_delegation_chain = xq_delegation_chain q,
          rp_delegation_depth = xq_delegation_depth q, rp_delegated_allowed_risks = xq_delegated_allowed_risks q,
          rp_token_budget = token_budget, rp_conduit_budget_cents = cents\<rparr>))))))"

definition run_prepared ::
  "'w exec_world runtime_ops \<Rightarrow> str \<Rightarrow> exec_request \<Rightarrow> dict \<Rightarrow> str \<Rightarrow> str \<Rightarrow> str \<Rightarrow> 'w exec_world
     \<Rightarrow> (runtime_exc + dict) \<times> 'w exec_world \<times> trace_entry list" where
  "run_prepared ops rid q bundle job sid dir w =
     (case run_params_of q bundle job sid dir of
        Inl e \<Rightarrow> (Inl (Runtime_Python e), w, [])
      | Inr rp \<Rightarrow> (case run_loop ops rid rp w of (r, s) \<Rightarrow> (r, ls_world s, ls_trace s)))"

definition ran_ok :: "runtime_exc + dict \<Rightarrow> bool" where
  "ran_ok r = (case r of Inl _ \<Rightarrow> False | Inr d \<Rightarrow> truthy (dget d ''ok''))"

definition opt_value :: "pyval \<Rightarrow> pyval option" where
  "opt_value v = (if v = PNone then None else Some v)"

text \<open>The \<open>finally\<close> block.\<close>

definition finish_job :: "exec_env \<Rightarrow> str \<Rightarrow> str \<Rightarrow> runtime_exc + dict \<Rightarrow> 'w exec_world \<Rightarrow> 'w exec_world" where
  "finish_job env job sid r w =
     (let d = (case r of Inl _ \<Rightarrow> [] | Inr d \<Rightarrow> d) in
      w\<lparr>ew_durable := session_finish sid (if ran_ok r then ''COMPLETED'' else ''FAILED'') (opt_value (dget d ''trace'')) None
                       (if ran_ok r then None else map_option py_str (opt_value (dget d ''error''))) (ew_durable w),
        ew_vault := snd (delete_session (xe_cleanup_failure env) job (ew_vault w))\<rparr>)"

text \<open>How an invocation ends: before its session was recorded, after that but before the \<open>try\<close> whose \<open>finally\<close> closes it, or through it.\<close>

datatype execution =
    Not_Started "runtime_exc + dict"
  | Abandoned "runtime_exc + dict"
  | Ran "runtime_exc + dict" "trace_entry list"

definition execute_agent_inner ::
  "'w exec_world runtime_ops \<Rightarrow> str \<Rightarrow> exec_env \<Rightarrow> exec_request \<Rightarrow> 'w exec_world \<Rightarrow> execution \<times> 'w exec_world" where
  "execute_agent_inner ops rid env q w =
     (case load_bundle (xe_bundles env) (xq_slug q) of
        None \<Rightarrow> (Not_Started (Inr [(''ok'', PBool False), (''error'', PStr ''unknown_slug''), (''slug'', PStr (xq_slug q))]), w)
      | Some v \<Rightarrow>
          let job = id_or (xq_job_id q) (xe_new_job env); sid = id_or (xq_session_id q) (xe_new_session env) in
          (case prepare_bundle (xe_packs env) q job v of
             Inl e \<Rightarrow> (Not_Started (Inl (Runtime_Python e)), w)
           | Inr (Inl refused) \<Rightarrow> (Not_Started (Inr refused), w)
           | Inr (Inr bundle) \<Rightarrow>
               (case begin_job env q job sid w of
                  Inl e \<Rightarrow> (Not_Started (Inl (Runtime_Python e)), w)
                | Inr (dir, w1) \<Rightarrow>
                    (case advertises_conduit bundle of
                       Inl e \<Rightarrow> (Abandoned (Inl (Runtime_Python e)), w1)
                     | Inr conduit \<Rightarrow>
                         if conduit \<and> buyer_session_found env job (ew_vault w1) then
                           (Abandoned (Inr [(''ok'', PBool False), (''error'', PStr ''buyer_session_injection_unsupported''),
                                            (''slug'', PStr (xq_slug q)), (''job_id'', PStr job)]),
                            w1\<lparr>ew_vault := snd (delete_session (xe_refuse_failure env) job (ew_vault w1))\<rparr>)
                         else (case run_prepared ops rid q bundle job sid dir w1 of
                                 (r, w2, tr) \<Rightarrow> (Ran r tr, finish_job env job sid r w2))))))"

section \<open>Invariants of the world through the loop\<close>

text \<open>Every operation of the loop keeps a predicate of the world.\<close>

definition ops_keep :: "'w runtime_ops \<Rightarrow> ('w \<Rightarrow> bool) \<Rightarrow> bool" where
  "ops_keep ops W \<longleftrightarrow>
     (\<forall>w. W w \<longrightarrow>
        (\<forall>f a c. W (snd (op_run ops w f a c))) \<and> (\<forall>i f a w'. op_intent ops w i f a = Some w' \<longrightarrow> W w') \<and>
        (\<forall>i f a r w'. op_event ops w i f a r = Some w' \<longrightarrow> W w') \<and> (\<forall>c f a. W (snd (op_grant ops w c f a))) \<and>
        (\<forall>ms ts n. W (snd (op_llm ops w ms ts n))) \<and> W (op_finalizing ops w) \<and> W (snd (op_proof ops w)))"

lemma ops_keepD:
  assumes "ops_keep ops W" and "W w"
  shows "op_run ops w f a c = (r1, w1) \<Longrightarrow> W w1" and "op_intent ops w i f a = Some w2 \<Longrightarrow> W w2"
    and "op_event ops w i f a r = Some w3 \<Longrightarrow> W w3" and "op_grant ops w g f a = (r4, w4) \<Longrightarrow> W w4"
    and "op_llm ops w ms ts n = (r5, w5) \<Longrightarrow> W w5" and "W (op_finalizing ops w)" and "op_proof ops w = (r6, w6) \<Longrightarrow> W w6"
  using assms unfolding ops_keep_def by (metis snd_conv)+

lemma traced_world [simp]: "ls_world (traced t s) = ls_world s"
  by (simp add: traced_def)

lemma record_call_world [simp]: "ls_world (record_call rp tc a v s) = ls_world s"
  by (auto simp: record_call_def Let_def split: pyval.splits)

lemma run_tool_world: "ops_keep ops W \<Longrightarrow> run_tool ops rp f a s = (v, s') \<Longrightarrow> W (ls_world s) \<Longrightarrow> W (ls_world s')"
  by (auto simp: run_tool_def Let_def split: prod.splits tool_outcome.splits dest: ops_keepD(1))

lemma audit_and_run_world:
  "ops_keep ops W \<Longrightarrow> audit_and_run ops rp k f a s = (v, s') \<Longrightarrow> W (ls_world s) \<Longrightarrow> W (ls_world s')"
  using run_tool_world [of ops W rp f a s] run_tool_world [of ops W rp f a "traced (Intended f) (s\<lparr>ls_world := w\<rparr>)" for w]
  by (auto simp: audit_and_run_def split: if_splits option.splits prod.splits dest: ops_keepD(2))

lemma policy_chain_world: "ops_keep ops W \<Longrightarrow> W (ls_world s) \<Longrightarrow> W (ls_world (policy_chain ops rp p f a s))"
  by (auto simp: policy_chain_def split: prod.splits dest: ops_keepD(4))

lemma execute_chain_world:
  "ops_keep ops W \<Longrightarrow> execute_chain ops rp p f a s = (r, s') \<Longrightarrow> W (ls_world s) \<Longrightarrow> W (ls_world s')"
  by (auto simp: execute_chain_def split: if_splits prod.splits dest: audit_and_run_world)

lemma dispatch_call_world:
  "ops_keep ops W \<Longrightarrow> dispatch_call ops rid rp f a s = (r, s') \<Longrightarrow> W (ls_world s) \<Longrightarrow> W (ls_world s')"
  by (auto simp: dispatch_call_def Let_def split: if_splits dest: execute_chain_world policy_chain_world)

lemma audit_result_world:
  "ops_keep ops W \<Longrightarrow> audit_result ops rp f a v s = (r, s') \<Longrightarrow> W (ls_world s) \<Longrightarrow> W (ls_world s')"
  by (auto simp: audit_result_def split: if_splits option.splits dest: ops_keepD(3))

lemma call_step_world:
  assumes "ops_keep ops W" and "call_step ops rid rp tc s = (r, s')" and "W (ls_world s)"
  shows "W (ls_world s')"
proof -
  obtain d s1 where d: "dispatch_call ops rid rp (tc_name tc) (parse_args ops (tc_arguments tc)) s = (d, s1)" by fastforce
  have w1: "W (ls_world s1)" using dispatch_call_world [OF assms(1) d assms(3)] .
  show ?thesis
  proof (cases d)
    case (Inl e)
    then show ?thesis using assms(2) d w1 by (simp add: call_step_def Let_def)
  next
    case (Inr v)
    obtain u s2 where a: "audit_result ops rp (tc_name tc) (parse_args ops (tc_arguments tc)) v s1 = (u, s2)" by fastforce
    have "W (ls_world s2)" using audit_result_world [OF assms(1) a w1] .
    then show ?thesis using assms(2) d a Inr by (auto simp: call_step_def Let_def split: pyval.splits)
  qed
qed

lemma run_calls_world: "ops_keep ops W \<Longrightarrow> run_calls ops rid rp tcs s = (r, s') \<Longrightarrow> W (ls_world s) \<Longrightarrow> W (ls_world s')"
proof (induction tcs arbitrary: s)
  case (Cons tc tcs)
  obtain r1 s1 where step: "call_step ops rid rp tc s = (r1, s1)" by fastforce
  have "W (ls_world s1)" using call_step_world [OF Cons.prems(1) step Cons.prems(3)] .
  then show ?case using Cons step by (auto split: option.splits)
qed simp

lemma final_answer_effect:
  "final_answer ops rp c s = (r, s') \<Longrightarrow>
     ls_world s' = ls_world s \<or> ls_world s' = snd (op_proof ops (op_finalizing ops (ls_world s)))"
  by (auto simp: final_answer_def Let_def split: sum.splits prod.splits)

lemma final_answer_world: "ops_keep ops W \<Longrightarrow> final_answer ops rp c s = (r, s') \<Longrightarrow> W (ls_world s) \<Longrightarrow> W (ls_world s')"
  using final_answer_effect unfolding ops_keep_def by metis

lemma handle_answer_world:
  "ops_keep ops W \<Longrightarrow> handle_answer ops rid rp a s = (r, s') \<Longrightarrow> W (ls_world s) \<Longrightarrow> W (ls_world s')"
  by (auto simp: handle_answer_def stop_def split: if_splits list.splits prod.splits option.splits
      dest: final_answer_world run_calls_world)

lemma turn_step_world:
  assumes "ops_keep ops W" and "turn_step ops rid rp s = (r, s')" and "W (ls_world s)"
  shows "W (ls_world s')"
proof -
  have "W (ls_world (after_answer a (s\<lparr>ls_turn := n, ls_world := w\<rparr>)))" if "W w" for a n w
    using that by (simp add: after_answer_def)
  then show ?thesis
    using assms handle_answer_world [OF assms(1)] ops_keepD(5) [OF assms(1,3)]
    by (auto simp: turn_step_def stop_def Let_def split: if_splits prod.splits llm_outcome.splits)
qed

lemma run_turns_world: "ops_keep ops W \<Longrightarrow> run_turns ops rid rp n s = (r, s') \<Longrightarrow> W (ls_world s) \<Longrightarrow> W (ls_world s')"
proof (induction n arbitrary: s)
  case (Suc n)
  obtain r1 s1 where step: "turn_step ops rid rp s = (r1, s1)" by fastforce
  have "W (ls_world s1)" using turn_step_world [OF Suc.prems(1) step Suc.prems(3)] .
  then show ?case using Suc step by (auto split: option.splits)
qed simp

lemma run_loop_world: "ops_keep ops W \<Longrightarrow> run_loop ops rid rp w = (r, s) \<Longrightarrow> W w \<Longrightarrow> W (ls_world s)"
  using run_turns_world [of ops W rid rp MAX_TURNS "initial_state rp w" r s] by (simp add: run_loop_def initial_state_def)

lemma run_prepared_world:
  "ops_keep ops W \<Longrightarrow> run_prepared ops rid q b job sid dir w = (r, w', tr) \<Longrightarrow> W w \<Longrightarrow> W w'"
  by (auto simp: run_prepared_def split: sum.splits prod.splits dest: run_loop_world)

section \<open>The recorded session\<close>

text \<open>The rows of one session, and the writes that can change them.\<close>

definition sessions_of :: "str \<Rightarrow> durable_tables \<Rightarrow> session_row list" where
  "sessions_of sid t = filter (\<lambda>r. se_id r = sid) (dt_sessions t)"

fun touches :: "str \<Rightarrow> durable_write \<Rightarrow> bool" where
  "touches sid (Session_Create i _ _ _ _ _ _) = (i = sid)"
| "touches sid (Session_Finish i _ _ _ _) = (i = sid)"
| "touches sid _ = False"

text \<open>The worker runs every waiting write, each of which commits.\<close>

definition drain :: "(nat \<Rightarrow> int \<times> str) \<Rightarrow> durable_state \<Rightarrow> durable_tables" where
  "drain stamps s = fold (\<lambda>(i, wr). run_write (fst (stamps i)) (snd (stamps i)) wr) (enumerate 0 (du_queue s)) (du_tables s)"

lemma finish_row_id [simp]: "se_id (finish_row now st tr u e r) = se_id r"
  by (simp add: finish_row_def)

lemma filter_other_finish:
  "i \<noteq> sid \<Longrightarrow> filter (\<lambda>r. se_id r = sid) (map (\<lambda>r. if se_id r = i then finish_row now st tr u e r else r) rs) =
     filter (\<lambda>r. se_id r = sid) rs"
  by (induction rs) auto

lemma sessions_of_untouched: "\<not> touches sid wr \<Longrightarrow> sessions_of sid (run_write now gid wr t) = sessions_of sid t"
  by (cases wr) (auto simp: sessions_of_def filter_other_finish)

lemma sessions_of_fold_untouched:
  "\<forall>(i, wr) \<in> set ws. \<not> touches sid wr \<Longrightarrow>
     sessions_of sid (fold (\<lambda>(i, wr). run_write (fst (stamps i)) (snd (stamps i)) wr) ws t) = sessions_of sid t"
  by (induction ws arbitrary: t) (auto simp: sessions_of_untouched)

lemma sessions_of_create:
  "sessions_of sid t = [] \<Longrightarrow>
     sessions_of sid (run_write now gid (Session_Create sid job slug pj ps root status) t) =
       [\<lparr>se_id = sid, se_job_id = job, se_parent_job_id = pj, se_parent_session_id = ps, se_agent_slug = slug, se_status = status,
         se_workspace_root = root, se_artifact_uris = [], se_trace = None, se_error = None, se_started_at = now, se_finished_at = None\<rparr>]"
  by (auto simp: sessions_of_def filter_empty_conv)

lemma sessions_of_finish:
  "sessions_of sid (run_write now gid (Session_Finish sid status tr uris e) t) =
     map (finish_row now status tr uris e) (sessions_of sid t)"
  by (auto simp: sessions_of_def filter_map o_def if_distrib [of se_id] cong: filter_cong)

text \<open>The tools of a run may write to the durable store as they like, except to the row of the run's own session.\<close>

definition appends :: "str \<Rightarrow> durable_state \<Rightarrow> 'w exec_world \<Rightarrow> bool" where
  "appends sid s0 w \<longleftrightarrow>
     takes_writes (ew_durable w) \<and> du_tables (ew_durable w) = du_tables s0 \<and>
     (\<exists>extra. du_queue (ew_durable w) = du_queue s0 @ extra \<and> (\<forall>wr \<in> set extra. \<not> touches sid wr))"

lemma appends_refl: "takes_writes (ew_durable w) \<Longrightarrow> appends sid (ew_durable w) w"
  by (auto simp: appends_def)

lemma appends_submit: "appends sid s0 w \<Longrightarrow> \<not> touches sid wr \<Longrightarrow> appends sid s0 (w\<lparr>ew_durable := submit_write wr (ew_durable w)\<rparr>)"
  by (auto simp: appends_def submit_write_eq takes_writes_def enabled_def)

definition plain_ops :: "'w exec_world runtime_ops \<Rightarrow> str \<Rightarrow> bool" where
  "plain_ops ops sid \<longleftrightarrow> (\<forall>s0. ops_keep ops (appends sid s0))"

text \<open>The store after \<open>begin_job\<close>, and after the \<open>finally\<close> block, as queues.\<close>

lemma begin_job_durable:
  assumes "begin_job env q job sid w = Inr (dir, w1)" and "takes_writes (ew_durable w)"
  shows "takes_writes (ew_durable w1)" and "du_tables (ew_durable w1) = du_tables (ew_durable w)"
    and "du_queue (ew_durable w1) = du_queue (ew_durable w) @
       [Session_Create sid job (xq_slug q) (xq_parent_job_id q) (xq_parent_session_id q) (Some dir) ''ACTIVE'',
        Event_Insert job ''job.created'' [(''session_id'', PStr sid), (''agent_slug'', PStr (xq_slug q))] (Some sid)]"
  using assms by (auto simp: begin_job_def bindE_Inr Let_def session_create_def event_insert_def submit_write_eq takes_writes_def enabled_def)

lemma finish_job_durable:
  assumes "takes_writes (ew_durable w)"
  shows "\<exists>tr e. du_queue (ew_durable (finish_job env job sid r w)) =
           du_queue (ew_durable w) @ [Session_Finish sid (if ran_ok r then ''COMPLETED'' else ''FAILED'') tr None e]"
    and "du_tables (ew_durable (finish_job env job sid r w)) = du_tables (ew_durable w)"
  using assms by (auto simp: finish_job_def Let_def session_finish_def submit_write_eq)

fun exec_result :: "execution \<Rightarrow> runtime_exc + dict" where
  "exec_result (Not_Started r) = r"
| "exec_result (Abandoned r) = r"
| "exec_result (Ran r tr) = r"

fun session_status :: "execution \<Rightarrow> str option" where
  "session_status (Not_Started r) = None"
| "session_status (Abandoned r) = Some ''ACTIVE''"
| "session_status (Ran r tr) = Some (if ran_ok r then ''COMPLETED'' else ''FAILED'')"

lemma execute_queue:
  assumes run: "execute_agent_inner ops rid env q w = (x, w')" and on: "takes_writes (ew_durable w)"
    and sid: "sid = id_or (xq_session_id q) (xe_new_session env)" and tools: "plain_ops ops sid"
  obtains (not_started) r where "x = Not_Started r" and "w' = w"
  | (abandoned) r root e where "x = Abandoned r" and "du_tables (ew_durable w') = du_tables (ew_durable w)"
      and "du_queue (ew_durable w') = du_queue (ew_durable w) @
         [Session_Create sid (id_or (xq_job_id q) (xe_new_job env)) (xq_slug q) (xq_parent_job_id q) (xq_parent_session_id q) root ''ACTIVE'', e]"
      and "\<not> touches sid e"
  | (ran) r tr root t e extra where "x = Ran r tr" and "du_tables (ew_durable w') = du_tables (ew_durable w)"
      and "du_queue (ew_durable w') = du_queue (ew_durable w) @
         [Session_Create sid (id_or (xq_job_id q) (xe_new_job env)) (xq_slug q) (xq_parent_job_id q) (xq_parent_session_id q) root ''ACTIVE''] @
         extra @ [Session_Finish sid (if ran_ok r then ''COMPLETED'' else ''FAILED'') t None e]"
      and "\<forall>wr \<in> set extra. \<not> touches sid wr"
proof (cases "load_bundle (xe_bundles env) (xq_slug q)")
  case None
  then show ?thesis using not_started run by (auto simp: execute_agent_inner_def)
next
  case (Some v)
  let ?job = "id_or (xq_job_id q) (xe_new_job env)"
  show ?thesis
  proof (cases "\<exists>bd dir w1. prepare_bundle (xe_packs env) q ?job v = Inr (Inr bd) \<and> begin_job env q ?job sid w = Inr (dir, w1)")
    case False
    then show ?thesis using not_started run Some sid
      by (auto simp: execute_agent_inner_def Let_def split: sum.splits)
  next
    case True
    then obtain bd dir w1 where prep: "prepare_bundle (xe_packs env) q ?job v = Inr (Inr bd)"
      and begun: "begin_job env q ?job sid w = Inr (dir, w1)" by blast
    note D = begin_job_durable [OF begun on]
    consider (aband) r where "x = Abandoned r" "ew_durable w' = ew_durable w1"
      | (ran') r w2 tr where "run_prepared ops rid q bd ?job sid dir w1 = (r, w2, tr)" "x = Ran r tr" "w' = finish_job env ?job sid r w2"
      using run Some prep begun unfolding sid
      by (auto simp: execute_agent_inner_def Let_def split: sum.splits prod.splits if_splits)
    then show ?thesis
    proof cases
      case aband
      then show ?thesis using D by (intro abandoned) auto
    next
      case ran'
      have "ops_keep ops (appends sid (ew_durable w1))" using tools by (simp add: plain_ops_def)
      from run_prepared_world [OF this ran'(1) appends_refl [OF D(1)]]
      obtain extra where extra: "takes_writes (ew_durable w2)" "du_tables (ew_durable w2) = du_tables (ew_durable w1)"
        "du_queue (ew_durable w2) = du_queue (ew_durable w1) @ extra" "\<forall>wr \<in> set extra. \<not> touches sid wr"
        by (auto simp: appends_def)
      from finish_job_durable(1) [OF extra(1)] obtain t e where
        "du_queue (ew_durable w') = du_queue (ew_durable w2) @ [Session_Finish sid (if ran_ok r then ''COMPLETED'' else ''FAILED'') t None e]"
        using ran'(3) by blast
      with D(3) extra(3) have Q: "du_queue (ew_durable w') = du_queue (ew_durable w) @
         [Session_Create sid ?job (xq_slug q) (xq_parent_job_id q) (xq_parent_session_id q) (Some dir) ''ACTIVE''] @
         (Event_Insert ?job ''job.created'' [(''session_id'', PStr sid), (''agent_slug'', PStr (xq_slug q))] (Some sid) # extra) @
         [Session_Finish sid (if ran_ok r then ''COMPLETED'' else ''FAILED'') t None e]" by simp
      have T: "du_tables (ew_durable w') = du_tables (ew_durable w)"
        using ran'(3) finish_job_durable(2) [OF extra(1)] extra(2) D(2) by simp
      show ?thesis by (rule ran [OF ran'(2) T Q]) (use extra(4) in auto)
    qed
  qed
qed

lemma enumerate_untouched: "\<forall>wr \<in> set ws. \<not> touches sid wr \<Longrightarrow> \<forall>(i, wr) \<in> set (enumerate n ws). \<not> touches sid wr"
  by (induction ws arbitrary: n) auto

text \<open>
  C14. What the durable store says of an agent invocation, once its queue has been worked off: an invocation that returned before it began has no
  session row; any other has exactly one, with the job's id and the agent's name, and its status is COMPLETED when the result is
  ok and FAILED otherwise, also when the loop raised. The one exception is an invocation abandoned after its session was recorded, whose
  row stays ACTIVE for ever. Assumed: the store takes writes, the session id is new, no tool writes to another session's row, and the
  writes commit.
\<close>

theorem execution_session_recorded:
  assumes run: "execute_agent_inner ops rid env q w = (x, w')" and on: "takes_writes (ew_durable w)"
    and sid: "sid = id_or (xq_session_id q) (xe_new_session env)" and tools: "plain_ops ops sid"
    and fresh: "sessions_of sid (du_tables (ew_durable w)) = []" "\<forall>wr \<in> set (du_queue (ew_durable w)). \<not> touches sid wr"
  shows "(case session_status x of
            None \<Rightarrow> sessions_of sid (drain stamps (ew_durable w')) = []
          | Some status \<Rightarrow>
              \<exists>row. sessions_of sid (drain stamps (ew_durable w')) = [row] \<and> se_status row = status \<and>
                se_job_id row = id_or (xq_job_id q) (xe_new_job env) \<and> se_agent_slug row = xq_slug q)"
proof -
  let ?run = "\<lambda>ws t. fold (\<lambda>(i, wr). run_write (fst (stamps i)) (snd (stamps i)) wr) ws t"
  let ?n = "length (du_queue (ew_durable w))"
  let ?t = "?run (enumerate 0 (du_queue (ew_durable w))) (du_tables (ew_durable w))"
  have none: "sessions_of sid ?t = []"
    using sessions_of_fold_untouched [OF enumerate_untouched [OF fresh(2)]] fresh(1) by simp
  from run on sid tools show ?thesis
  proof (cases rule: execute_queue)
    case (not_started r)
    then show ?thesis using none by (simp add: drain_def)
  next
    case (abandoned r root e)
    let ?c = "Session_Create sid (id_or (xq_job_id q) (xe_new_job env)) (xq_slug q) (xq_parent_job_id q) (xq_parent_session_id q) root ''ACTIVE''"
    have "drain stamps (ew_durable w') =
        run_write (fst (stamps (Suc ?n))) (snd (stamps (Suc ?n))) e (run_write (fst (stamps ?n)) (snd (stamps ?n)) ?c ?t)"
      using abandoned by (simp add: drain_def enumerate_append_eq del: run_write.simps)
    then show ?thesis
      using abandoned(1) sessions_of_untouched [OF abandoned(4)] sessions_of_create [OF none] by (simp del: run_write.simps)
  next
    case (ran r tr root t e extra)
    let ?c = "Session_Create sid (id_or (xq_job_id q) (xe_new_job env)) (xq_slug q) (xq_parent_job_id q) (xq_parent_session_id q) root ''ACTIVE''"
    let ?f = "Session_Finish sid (if ran_ok r then ''COMPLETED'' else ''FAILED'') t None e"
    let ?t1 = "run_write (fst (stamps ?n)) (snd (stamps ?n)) ?c ?t"
    let ?m = "Suc ?n + length extra"
    have "drain stamps (ew_durable w') = run_write (fst (stamps ?m)) (snd (stamps ?m)) ?f (?run (enumerate (Suc ?n) extra) ?t1)"
      using ran by (simp add: drain_def enumerate_append_eq del: run_write.simps)
    moreover have "sessions_of sid (?run (enumerate (Suc ?n) extra) ?t1) = sessions_of sid ?t1"
      by (rule sessions_of_fold_untouched [OF enumerate_untouched [OF ran(4)]])
    ultimately have "sessions_of sid (drain stamps (ew_durable w')) =
        map (finish_row (fst (stamps ?m)) (if ran_ok r then ''COMPLETED'' else ''FAILED'') t None e) (sessions_of sid ?t1)"
      by (simp only: sessions_of_finish)
    then show ?thesis using ran(1) sessions_of_create [OF none] by (simp add: finish_row_def del: run_write.simps)
  qed
qed

text \<open>A buyer's session found in the vault abandons the invocation, and the session is deleted unread by the agent.\<close>

lemma buyer_session_abandons:
  assumes "load_bundle (xe_bundles env) (xq_slug q) = Some v"
    and "prepare_bundle (xe_packs env) q (id_or (xq_job_id q) (xe_new_job env)) v = Inr (Inr bd)"
    and "begin_job env q (id_or (xq_job_id q) (xe_new_job env)) (id_or (xq_session_id q) (xe_new_session env)) w = Inr (dir, w1)"
    and "advertises_conduit bd = Inr True" and "buyer_session_found env (id_or (xq_job_id q) (xe_new_job env)) (ew_vault w1)"
  shows "\<exists>d. fst (execute_agent_inner ops rid env q w) = Abandoned (Inr d) \<and> dget d ''error'' = PStr ''buyer_session_injection_unsupported''"
  using assms by (simp add: execute_agent_inner_def Let_def dget_def)

text \<open>A delegated run is handed no more than it inherits.\<close>

lemma cap_budget_le:
  assumes "cap_budget field (Some n) b = Inr b'"
  shows "\<exists>m. dget b' field = PInt m \<and> m \<le> max 0 n"
  using assms by (auto simp: cap_budget_def bindE_Inr dget_def)

lemma cap_budget_other: "cap_budget field inherited b = Inr b' \<Longrightarrow> other \<noteq> field \<Longrightarrow> dget b' other = dget b other"
  by (auto simp: cap_budget_def bindE_Inr dget_def split: option.splits)

lemma prepared_within_inherited:
  assumes "prepare_bundle pf q job v = Inr (Inr b)" and "xq_inherited_token_budget q = Some n"
    and "run_params_of q b job sid dir = Inr rp"
  shows "rp_token_budget rp \<le> max 0 n"
proof -
  obtain bd where v: "v = PDict bd" using assms(1) by (auto simp: prepare_bundle_def call_Inr)
  define R where "R = (if is_e4l_specialist (py_str (py_or (dget bd ''slug'') (PStr (xq_slug q))))
                       then enrich_bundle pf bd (xq_params q) (xq_task q) else Inr bd)"
  have "(case R of Inl _ \<Rightarrow> False | Inr e \<Rightarrow> \<exists>c. cap_budget ''token_budget'' (Some n) e = Inr c \<and>
       cap_budget ''conduit_budget_cents'' (xq_inherited_cost_budget_cents q) c = Inr b)"
    using assms(1,2) unfolding prepare_bundle_def v R_def [symmetric]
    by (cases R) (simp_all add: as_dict_def R_def [symmetric] bindE_Inr)
  then obtain e c where c: "cap_budget ''token_budget'' (Some n) e = Inr c"
    and b: "cap_budget ''conduit_budget_cents'' (xq_inherited_cost_budget_cents q) c = Inr b"
    by (auto split: sum.splits)
  obtain m where m: "dget c ''token_budget'' = PInt m" "m \<le> max 0 n" using cap_budget_le [OF c] by blast
  have "dget b ''token_budget'' = PInt m" using cap_budget_other [OF b, of "''token_budget''"] m(1) by simp
  then have "dget_default b ''token_budget'' (PInt 4000) = PInt m" by (auto simp: dget_def dget_default_def split: option.splits)
  then show ?thesis using assms(3) m(2) by (auto simp: run_params_of_def bindE_Inr to_int_def)
qed

section \<open>A concrete invocation\<close>

definition quiet_ops :: "unit exec_world runtime_ops" where
  "quiet_ops =
     \<lparr>op_registered = (\<lambda>_. True), op_run = (\<lambda>w _ _ _. (Tool_Returned (PDict [(''ok'', PBool True)]), w)),
      op_intent = (\<lambda>w _ _ _. Some w), op_event = (\<lambda>w _ _ _ _. Some w), op_grant = (\<lambda>w _ _ _. (True, w)),
      op_ledger = (\<lambda>_. \<lparr>dl_tokens = [], dl_cents = []\<rparr>), op_late = (\<lambda>_. False), op_elapsed = (\<lambda>_. PInt 1),
      op_llm = (\<lambda>w _ _ _. (Llm_Answer \<lparr>lr_usage = PDict [(''total_tokens'', PInt 100)],
         lr_choices = [\<lparr>lm_tool_calls = [], lm_content = PStr ''done''\<rparr>], lr_swarmsync = PNone\<rparr>, w)),
      op_loads = (\<lambda>_. Some (PDict [])), op_finalizing = (\<lambda>w. w), op_proof = (\<lambda>w. (Browser_Unused, w))\<rparr>"

lemma quiet_plain: "plain_ops quiet_ops sid"
  by (simp add: plain_ops_def ops_keep_def quiet_ops_def)

definition no_packs :: pack_files where
  "no_packs = \<lparr>pf_contracts = (\<lambda>_. None), pf_entities = (\<lambda>_. None), pf_dump = (\<lambda>_. []), pf_evidence = None, pf_handoff = None,
     pf_disagreement = None, pf_hard_rules = [], pf_none_named = []\<rparr>"

definition sample_exec_env :: exec_env where
  "sample_exec_env =
     \<lparr>xe_bundles = (\<lambda>s. if s = ''genesis-content'' then Some (Some (PDict [(''slug'', PStr ''genesis-content''), (''system_prompt'', PStr ''Write.''),
        (''tools_advertised'', PList [PStr ''conduit'']), (''success_criteria'', PList [PDict [(''type'', PStr ''min_successful_tool_calls''),
        (''config'', PDict [(''count'', PInt 0)])]])])) else None),
      xe_packs = no_packs, xe_new_job = ''j1'', xe_new_session = ''s1'', xe_dir_of = (\<lambda>j. ''/tmp/jobs/'' @ j), xe_mkdir_ok = True, xe_now = 5,
      xe_vault_ops = sample_vault_ops, xe_bridge_up = True, xe_refuse_failure = None, xe_cleanup_failure = None\<rparr>"

definition sample_exec_request :: exec_request where
  "sample_exec_request =
     \<lparr>xq_slug = ''genesis_content'', xq_task = ''go'', xq_params = [], xq_job_id = None, xq_session_id = None, xq_parent_job_id = None,
      xq_parent_session_id = None, xq_delegation_chain = [], xq_delegation_depth = 0, xq_delegated_allowed_risks = None,
      xq_inherited_token_budget = Some 900, xq_inherited_cost_budget_cents = None\<rparr>"

definition idle_world :: "vault \<Rightarrow> unit exec_world" where
  "idle_world v =
     \<lparr>ew_durable = \<lparr>du_url_set = True, du_tables_missing = False, du_executor_up = True, du_queue = [], du_tables = \<lparr>dt_sessions = [], dt_events = [], dt_relationships = [],
        dt_artifacts = []\<rparr>\<rparr>, ew_workspaces = [], ew_vault = v, ew_rest = ()\<rparr>"

definition sample_execution :: "vault \<Rightarrow> execution \<times> unit exec_world" where
  "sample_execution v = execute_agent_inner quiet_ops ''r1'' sample_exec_env sample_exec_request (idle_world v)"

definition buyer_vault :: vault where
  "buyer_vault = snd (store_session sample_vault_ops ''n'' ''j1'' [(''a'', PInt 1)] [])"

lemma sample_statuses:
  "session_status (fst (sample_execution [])) = Some ''COMPLETED''" "session_status (fst (sample_execution buyer_vault)) = Some ''ACTIVE''"
  by code_simp+

lemma idle_world_facts:
  "takes_writes (ew_durable (idle_world v))" "sessions_of sid (du_tables (ew_durable (idle_world v))) = []" "du_queue (ew_durable (idle_world v)) = []"
  by (simp_all add: idle_world_def takes_writes_def enabled_def sessions_of_def)

theorem execution_session_recorded_witness:
  "map se_status (sessions_of ''s1'' (drain (\<lambda>_. (7, ''g'')) (ew_durable (snd (sample_execution []))))) = [''COMPLETED''] \<and>
   map se_status (sessions_of ''s1'' (drain (\<lambda>_. (7, ''g'')) (ew_durable (snd (sample_execution buyer_vault))))) = [''ACTIVE'']"
proof -
  have sid: "''s1'' = id_or (xq_session_id sample_exec_request) (xe_new_session sample_exec_env)" by code_simp
  have ex: "execute_agent_inner quiet_ops ''r1'' sample_exec_env sample_exec_request (idle_world v) =
      (fst (sample_execution v), snd (sample_execution v))" for v by (simp add: sample_execution_def)
  have run: "case session_status (fst (sample_execution v)) of
      None \<Rightarrow> sessions_of ''s1'' (drain (\<lambda>_. (7, ''g'')) (ew_durable (snd (sample_execution v)))) = []
    | Some status \<Rightarrow> \<exists>row. sessions_of ''s1'' (drain (\<lambda>_. (7, ''g'')) (ew_durable (snd (sample_execution v)))) = [row] \<and> se_status row = status \<and>
        se_job_id row = id_or (xq_job_id sample_exec_request) (xe_new_job sample_exec_env) \<and> se_agent_slug row = xq_slug sample_exec_request" for v
    by (rule execution_session_recorded [OF ex idle_world_facts(1) sid quiet_plain idle_world_facts(2)]) (simp add: idle_world_facts(3))
  show ?thesis using run [of "[]"] run [of buyer_vault] by (auto simp: sample_statuses)
qed

end
