(* ===== verification/Verification.thy ===== *)
theory Verification
  imports Escrow
begin

text \<open>
  The verifier of deliverables (\<^verbatim>\<open>conduit_verifier.py\<close> with the models of \<^verbatim>\<open>verification_models.py\<close>).

  Arguments: URL parsing and name resolution, the classification of addresses, what opening a URL gives, the page of the browser, the rubric
  engine, which is not part of the repository, SHA-256, HMAC and Base64. Durations are left out of the action log; its timestamps are one text.
  Every request the verifier makes is in the list it returns, so that
  the properties can speak of them. A dash beyond the model's characters is written as two hyphens.
\<close>

section \<open>The models\<close>

record verification_spec =
  vs_url :: "str option"
  vs_selector :: "str option"
  vs_expectedContent :: "str option"
  vs_fingerprintDelta :: bool
  vs_timeoutSeconds :: int
  vs_expected_hash :: "str option"
  vs_rubric_json :: "dict option"
  vs_rubric_hash :: "str option"
  vs_request_id :: "str option"
  vs_inline_content :: "str option"

text \<open>The text of an optional field, and whether it is truthy.\<close>

definition text_of :: "str option \<Rightarrow> str" where
  "text_of x = (case x of None \<Rightarrow> [] | Some s \<Rightarrow> s)"

definition spec_valid :: "verification_spec \<Rightarrow> bool" where
  "spec_valid sp \<longleftrightarrow>
     (text_of (vs_url sp) \<noteq> [] \<or> text_of (vs_inline_content sp) \<noteq> []) \<and> 30 \<le> vs_timeoutSeconds sp \<and> vs_timeoutSeconds sp \<le> 3600"

record verification_context =
  vc_marketplace :: str
  vc_purpose :: str
  vc_escrow_ref :: str
  vc_negotiation_id :: "str option"
  vc_service_agreement_id :: "str option"
  vc_verification_id :: str
  vc_request_id :: "str option"

definition context_dict :: "verification_context \<Rightarrow> dict" where
  "context_dict c =
     [(''marketplace'', PStr (vc_marketplace c)), (''purpose'', PStr (vc_purpose c)), (''escrow_ref'', PStr (vc_escrow_ref c)),
      (''negotiation_id'', opt_val PStr (vc_negotiation_id c)), (''service_agreement_id'', opt_val PStr (vc_service_agreement_id c)),
      (''verification_id'', PStr (vc_verification_id c)), (''request_id'', opt_val PStr (vc_request_id c))]"

record action_entry =
  al_index :: nat
  al_action :: str
  al_url :: "str option"
  al_selector :: "str option"
  al_success :: bool
  al_cost_cents :: int
  al_timestamp :: str
  al_data_snippet :: "str option"

definition entry_dict :: "action_entry \<Rightarrow> dict" where
  "entry_dict a =
     [(''index'', PInt (int (al_index a))), (''action'', PStr (al_action a)), (''url'', opt_val PStr (al_url a)),
      (''selector'', opt_val PStr (al_selector a)), (''success'', PBool (al_success a)), (''cost_cents'', PInt (al_cost_cents a)),
      (''timestamp'', PStr (al_timestamp a)), (''data_snippet'', opt_val PStr (al_data_snippet a))]"

record verification_result =
  vr_passed :: bool
  vr_proof_hash :: str
  vr_proof_bundle_ref :: str
  vr_conduit_session_sig :: str
  vr_extracted_content :: "str option"
  vr_screenshot_ref :: "str option"
  vr_failure_reason :: "str option"
  vr_action_log :: "action_entry list"
  vr_client_context :: dict
  vr_eval_result_hash :: "str option"
  vr_verification_track :: "int option"
  vr_request_id :: "str option"
  vr_rubric_result :: "dict option"

section \<open>What the verifier calls\<close>

datatype opened = Body str | Redirect str | Open_Failed str

record rubric_verdict =
  rv_pass :: bool
  rv_predicates :: "(str \<times> bool) list"
  rv_dict :: dict

text \<open>The page of the browser; a call that raises carries the text of the exception. \<open>pg_start\<close> is the launch of the browser, which no
  handler encloses.\<close>

record page =
  pg_start :: "str + unit"
  pg_goto :: "str + unit"
  pg_screenshot :: "str + str \<times> nat"
  pg_inner_text :: "str \<Rightarrow> (str + str option)"
  pg_content :: "str + str"
  pg_snapshot :: "str + str"

record verifier_ops =
  vf_hostname :: "str \<Rightarrow> str option"
  vf_addresses :: "str \<Rightarrow> str list option"
  vf_private :: "str \<Rightarrow> bool option"
  vf_open :: "str \<Rightarrow> opened"
  vf_redirects :: nat
  vf_page :: page
  vf_rubric :: "(dict \<Rightarrow> str) option"
  vf_evaluate :: "str \<Rightarrow> dict \<Rightarrow> str + rubric_verdict"
  vf_sha256 :: "str \<Rightarrow> str"
  vf_hmac256 :: "str \<Rightarrow> str \<Rightarrow> str"
  vf_b64 :: "str \<Rightarrow> str"
  vf_secret :: str
  vf_max_chars :: nat
  vf_now :: str

text \<open>A request: a URL opened by the server, or one the browser navigates to.\<close>

datatype request = Opened str | Navigated str

section \<open>Safe fetches\<close>

text \<open>\<open>_assert_safe_url\<close>: the text of the \<open>ValueError\<close>, if it raises. An address that does not parse is skipped.\<close>

fun blocked_address :: "(str \<Rightarrow> bool option) \<Rightarrow> str list \<Rightarrow> str option" where
  "blocked_address priv [] = None"
| "blocked_address priv (a # as) = (if priv a = Some True then Some a else blocked_address priv as)"

definition assert_safe_url :: "verifier_ops \<Rightarrow> str \<Rightarrow> str + unit" where
  "assert_safe_url vo url =
     (let host = text_of (vf_hostname vo url) in
      case vf_addresses vo host of
        None \<Rightarrow> Inl (''DNS resolution failed for host: '' @ repr_str host)
      | Some as \<Rightarrow>
          (case blocked_address (vf_private vo) as of
             None \<Rightarrow> Inr ()
           | Some a \<Rightarrow> Inl (''Blocked: '' @ repr_str url @ '' resolved to private/loopback IP '' @ a)))"

text \<open>The opener with its redirect handler; the number of redirects is the limit of the library.\<close>

fun open_url :: "verifier_ops \<Rightarrow> nat \<Rightarrow> str \<Rightarrow> (str + str) \<times> request list" where
  "open_url vo n url =
     (case vf_open vo url of
        Body b \<Rightarrow> (Inr b, [Opened url])
      | Open_Failed e \<Rightarrow> (Inl e, [Opened url])
      | Redirect new \<Rightarrow>
          (case assert_safe_url vo new of
             Inl e \<Rightarrow> (Inl e, [Opened url])
           | Inr _ \<Rightarrow>
               (case n of
                  0 \<Rightarrow> (Inl ''redirect limit'', [Opened url])
                | Suc m \<Rightarrow> (case open_url vo m new of (r, rs) \<Rightarrow> (r, Opened url # rs)))))"

declare open_url.simps [simp del]

definition safe_open :: "verifier_ops \<Rightarrow> str \<Rightarrow> (str + str) \<times> request list" where
  "safe_open vo url =
     (case assert_safe_url vo url of Inl e \<Rightarrow> (Inl e, []) | Inr _ \<Rightarrow> open_url vo (vf_redirects vo) url)"

definition fetch_and_hash :: "verifier_ops \<Rightarrow> str \<Rightarrow> (str \<times> str option) \<times> request list" where
  "fetch_and_hash vo url =
     (case safe_open vo url of
        (Inl e, rs) \<Rightarrow> (([], Some e), rs)
      | (Inr b, rs) \<Rightarrow> ((vf_sha256 vo b, None), rs))"

section \<open>The two tracks\<close>

definition inline_mode :: "verification_spec \<Rightarrow> bool" where
  "inline_mode sp \<longleftrightarrow> text_of (vs_inline_content sp) \<noteq> [] \<and> text_of (vs_url sp) = []"

definition hash_mismatch :: "str \<Rightarrow> str \<Rightarrow> str" where
  "hash_mismatch expected got = ''Hash mismatch: expected '' @ take 16 expected @ ''... got '' @ take 16 got @ ''...''"

text \<open>A track's outcome: whether it passed, \<open>None\<close> when it did not run, and the reason it gives.\<close>

record track1 =
  t1_hash :: "str option"
  t1_passed :: "bool option"
  t1_error :: "str option"

definition compare_hash :: "str \<Rightarrow> str \<Rightarrow> track1" where
  "compare_hash expected got =
     (let ok = (lower got = lower expected) in
      \<lparr>t1_hash = Some got, t1_passed = Some ok, t1_error = (if ok then None else Some (hash_mismatch expected got))\<rparr>)"

definition run_track1 :: "verifier_ops \<Rightarrow> verification_spec \<Rightarrow> track1 \<times> request list" where
  "run_track1 vo sp =
     (let expected = text_of (vs_expected_hash sp) in
      if expected = [] then (\<lparr>t1_hash = None, t1_passed = None, t1_error = None\<rparr>, [])
      else if inline_mode sp then (compare_hash expected (vf_sha256 vo (text_of (vs_inline_content sp))), [])
      else (case fetch_and_hash vo (text_of (vs_url sp)) of
              ((got, err), rs) \<Rightarrow>
                (if text_of err \<noteq> []
                 then \<lparr>t1_hash = None, t1_passed = Some False, t1_error = Some (''Track 1 fetch failed: '' @ text_of err)\<rparr>
                 else compare_hash expected got, rs)))"

record track2 =
  t2_result :: "dict option"
  t2_passed :: "bool option"
  t2_error :: "str option"

definition track2_failed :: "str \<Rightarrow> track2" where
  "track2_failed msg = \<lparr>t2_result = None, t2_passed = Some False, t2_error = Some msg\<rparr>"

definition judge_rubric :: "verifier_ops \<Rightarrow> dict \<Rightarrow> str \<Rightarrow> track2" where
  "judge_rubric vo rubric content =
     (case vf_evaluate vo content rubric of
        Inl e \<Rightarrow> track2_failed (''Track 2 fetch failed: '' @ e)
      | Inr v \<Rightarrow>
          \<lparr>t2_result = Some (rv_dict v), t2_passed = Some (rv_pass v),
           t2_error = (if rv_pass v then None
                       else Some (''Track 2: rubric failed predicates: '' @ join '', '' (map fst (filter (\<lambda>p. \<not> snd p) (rv_predicates v)))))\<rparr>)"

definition run_track2 :: "verifier_ops \<Rightarrow> verification_spec \<Rightarrow> track2 \<times> request list" where
  "run_track2 vo sp =
     (let committed = text_of (vs_rubric_hash sp) in
      case vs_rubric_json sp of
        None \<Rightarrow> (\<lparr>t2_result = None, t2_passed = None, t2_error = None\<rparr>, [])
      | Some rubric \<Rightarrow>
          if rubric = [] \<or> committed = [] then (\<lparr>t2_result = None, t2_passed = None, t2_error = None\<rparr>, [])
          else (case vf_rubric vo of
                  None \<Rightarrow> (track2_failed ''Track 2: rubric engine not available on this gateway'', [])
                | Some rubric_hash \<Rightarrow>
                    if rubric_hash rubric \<noteq> committed then
                      (track2_failed (''Track 2: rubric_hash mismatch -- expected '' @ take 16 committed @ ''... got ''
                         @ take 16 (rubric_hash rubric) @ ''...''), [])
                    else if inline_mode sp then (judge_rubric vo rubric (text_of (vs_inline_content sp)), [])
                    else (case safe_open vo (text_of (vs_url sp)) of
                            (Inl e, rs) \<Rightarrow> (track2_failed (''Track 2 fetch failed: '' @ e), rs)
                          | (Inr content, rs) \<Rightarrow> (judge_rubric vo rubric content, rs))))"

text \<open>The track that decides: the first one that ran.\<close>

record v2_outcome =
  v2_track :: int
  v2_passed :: "bool option"
  v2_failure_reason :: "str option"

definition decide_track :: "track1 \<Rightarrow> track2 \<Rightarrow> v2_outcome" where
  "decide_track t1 t2 =
     (if t1_passed t1 \<noteq> None then \<lparr>v2_track = 1, v2_passed = t1_passed t1, v2_failure_reason = t1_error t1\<rparr>
      else if t2_passed t2 \<noteq> None then \<lparr>v2_track = 2, v2_passed = t2_passed t2, v2_failure_reason = t2_error t2\<rparr>
      else \<lparr>v2_track = 0, v2_passed = None, v2_failure_reason = None\<rparr>)"

section \<open>The browser\<close>

datatype action = Navigate str | Screenshot | Extract str | Fingerprint | Accessibility_Snapshot | Export_Proof

definition build_action_plan :: "verification_spec \<Rightarrow> action list" where
  "build_action_plan sp =
     [Navigate (text_of (vs_url sp)), Screenshot, Extract (if text_of (vs_selector sp) \<noteq> [] then text_of (vs_selector sp) else ''body''),
      Fingerprint, Accessibility_Snapshot, Export_Proof]"

fun action_type :: "action \<Rightarrow> str" where
  "action_type (Navigate _) = ''NAVIGATE''"
| "action_type Screenshot = ''SCREENSHOT''"
| "action_type (Extract _) = ''EXTRACT''"
| "action_type Fingerprint = ''FINGERPRINT''"
| "action_type Accessibility_Snapshot = ''ACCESSIBILITY_SNAPSHOT''"
| "action_type Export_Proof = ''EXPORT_PROOF''"

definition ACTION_COSTS :: "(str \<times> int) list" where
  "ACTION_COSTS =
     [(''NAVIGATE'', 1), (''SCREENSHOT'', 5), (''EXTRACT'', 2), (''EVAL'', 2), (''FINGERPRINT'', 1), (''ACCESSIBILITY_SNAPSHOT'', 2),
      (''EXPORT_PROOF'', 0)]"

text \<open>What the session has collected.\<close>

record session_state =
  ss_screenshot :: "str option"
  ss_extracted :: "str option"
  ss_fingerprint :: "str option"
  ss_accessibility :: "str option"
  ss_error :: "str option"
  ss_log :: "action_entry list"

definition empty_session :: session_state where
  "empty_session = \<lparr>ss_screenshot = None, ss_extracted = None, ss_fingerprint = None, ss_accessibility = None, ss_error = None, ss_log = []\<rparr>"

text \<open>One action: the collected state, whether it succeeded, its snippet, or the text of an exception for the outer handler.\<close>

fun perform :: "verifier_ops \<Rightarrow> action \<Rightarrow> session_state \<Rightarrow> str + session_state \<times> bool \<times> str option" where
  "perform vo (Navigate url) s = (case pg_goto (vf_page vo) of Inl e \<Rightarrow> Inl e | Inr _ \<Rightarrow> Inr (s, True, None))"
| "perform vo Screenshot s =
     (case pg_screenshot (vf_page vo) of
        Inl e \<Rightarrow> Inl e
      | Inr (raw, n) \<Rightarrow> Inr (s\<lparr>ss_screenshot := Some (vf_b64 vo raw)\<rparr>, True, Some (''[screenshot '' @ show_int (int n) @ '' bytes]'')))"
| "perform vo (Extract selector) s =
     (case pg_inner_text (vf_page vo) selector of
        Inl e \<Rightarrow> Inr (s\<lparr>ss_extracted := None\<rparr>, False, None)
      | Inr None \<Rightarrow> Inr (s\<lparr>ss_extracted := None\<rparr>, False, Some (''[selector not found: '' @ selector @ '']''))
      | Inr (Some t) \<Rightarrow>
          (let kept = take (vf_max_chars vo) t in Inr (s\<lparr>ss_extracted := Some kept\<rparr>, True, Some (take 200 kept))))"
| "perform vo Fingerprint s =
     (case pg_content (vf_page vo) of
        Inl e \<Rightarrow> Inl e
      | Inr c \<Rightarrow> Inr (s\<lparr>ss_fingerprint := Some (vf_sha256 vo c)\<rparr>, True, Some (take 16 (vf_sha256 vo c))))"
| "perform vo Accessibility_Snapshot s =
     (case pg_snapshot (vf_page vo) of
        Inl e \<Rightarrow> Inr (s\<lparr>ss_accessibility := None\<rparr>, False, None)
      | Inr t \<Rightarrow> Inr (s\<lparr>ss_accessibility := Some (take (vf_max_chars vo) t)\<rparr>, True, Some ''[a11y snapshot captured]''))"
| "perform vo Export_Proof s = Inr (s, True, Some ''[proof bundle assembled]'')"

definition log_action :: "verifier_ops \<Rightarrow> nat \<Rightarrow> action \<Rightarrow> bool \<Rightarrow> str option \<Rightarrow> session_state \<Rightarrow> session_state" where
  "log_action vo idx a ok snippet s =
     s\<lparr>ss_log := ss_log s @
        [\<lparr>al_index = idx, al_action = action_type a, al_url = (case a of Navigate u \<Rightarrow> Some u | _ \<Rightarrow> None),
          al_selector = (case a of Extract sel \<Rightarrow> Some sel | _ \<Rightarrow> None), al_success = ok,
          al_cost_cents = (case map_of ACTION_COSTS (action_type a) of None \<Rightarrow> 0 | Some c \<Rightarrow> c), al_timestamp = vf_now vo,
          al_data_snippet = snippet\<rparr>]\<rparr>"

definition action_step :: "verifier_ops \<Rightarrow> nat \<Rightarrow> action \<Rightarrow> session_state \<Rightarrow> session_state" where
  "action_step vo idx a s =
     (case perform vo a s of
        Inl e \<Rightarrow>
          log_action vo idx a False None
            (s\<lparr>ss_error := (case ss_error s of None \<Rightarrow> Some (action_type a @ '': '' @ e) | Some e0 \<Rightarrow> Some e0)\<rparr>)
      | Inr (s', ok, snippet) \<Rightarrow> log_action vo idx a ok snippet s')"

definition browse :: "verifier_ops \<Rightarrow> verification_spec \<Rightarrow> session_state" where
  "browse vo sp = fold (\<lambda>(i, a). action_step vo i a) (enumerate 0 (build_action_plan sp)) empty_session"

text \<open>\<open>len(text.encode("utf-8"))\<close> on the model's characters.\<close>

definition utf8_length :: "str \<Rightarrow> nat" where
  "utf8_length t = sum_list (map (\<lambda>ch. if (of_char ch :: nat) < 128 then 1 else 2) t)"

definition inline_session :: "verifier_ops \<Rightarrow> verification_spec \<Rightarrow> session_state" where
  "inline_session vo sp =
     (let content = text_of (vs_inline_content sp) in
      empty_session\<lparr>ss_extracted := Some (take (vf_max_chars vo) content), ss_fingerprint := Some (vf_sha256 vo content),
        ss_log := [\<lparr>al_index = 0, al_action = ''INLINE_CONTENT'', al_url = None, al_selector = None, al_success = True, al_cost_cents = 0,
                    al_timestamp = vf_now vo, al_data_snippet = Some (''[inline '' @ show_int (int (utf8_length content)) @ '' bytes]'')\<rparr>]\<rparr>)"

section \<open>The content check\<close>

definition evaluate_result :: "session_state \<Rightarrow> verification_spec \<Rightarrow> bool \<times> str" where
  "evaluate_result s sp =
     (let navs = filter (\<lambda>a. al_action a = ''NAVIGATE'') (ss_log s);
          inlines = filter (\<lambda>a. al_action a = ''INLINE_CONTENT'') (ss_log s);
          prints = filter (\<lambda>a. al_action a = ''FINGERPRINT'') (ss_log s);
          expected = text_of (vs_expectedContent sp) in
      if inlines = [] \<and> navs \<noteq> [] \<and> \<not> al_success (hd navs) then (False, ''NAVIGATE action failed -- URL may be inaccessible'')
      else if inlines = [] \<and> navs = [] then (False, ''No NAVIGATE action found in audit trail'')
      else if expected \<noteq> [] then
        (case ss_extracted s of
           None \<Rightarrow> (False, ''Content extraction returned no data -- cannot verify expected content'')
         | Some extracted \<Rightarrow>
             if \<not> str_in (lower expected) (lower extracted) then
               (False, ''Expected content not found. Expected: '' @ [CHR 39] @ take 100 expected @ [CHR 39] @ ''. Extracted snippet: '' @ [CHR 39] @
                       (if length extracted > 200 then take 200 extracted @ ''...'' else extracted) @ [CHR 39])
             else (True, ''Expected content found in extracted page content''))
      else if text_of (ss_fingerprint s) \<noteq> [] then (True, ''Page loaded and fingerprinted successfully'')
      else if prints \<noteq> [] \<and> al_success (hd prints) then (True, ''Page fingerprinted successfully'')
      else (False, ''Page did not load or could not be fingerprinted''))"

section \<open>The proof bundle\<close>

definition receipt_header :: "verification_context \<Rightarrow> str" where
  "receipt_header c =
     (let bar = replicate 47 (CHR ''=''); nl = [CHR 10] in
      nl @ bar @ nl @ ''  CONDUIT VERIFICATION RECEIPT'' @ nl @ ''  Powered by Conduit '' @ [CHR 183] @ '' Requested by SwarmSync.AI'' @ nl @
      ''  Purpose: Escrow Verification'' @ nl @ ''  Escrow: '' @ vc_escrow_ref c @ nl @ bar)"

definition build_proof_bundle ::
  "verifier_ops \<Rightarrow> str \<Rightarrow> verification_spec \<Rightarrow> verification_context \<Rightarrow> session_state \<Rightarrow> bool \<Rightarrow> str option \<Rightarrow> int \<Rightarrow> str option
     \<Rightarrow> dict option \<Rightarrow> dict" where
  "build_proof_bundle vo session_id sp c s passed failure_reason track hash rubric =
     [(''header'', PDict
        [(''version'', PStr ''1.0''), (''generator'', PStr ''SwarmSync.AI Agent Gateway''), (''generated_at'', PStr (vf_now vo)),
         (''session_id'', PStr session_id), (''client_context'', PDict (context_dict c)),
         (''receipt'', if vc_marketplace c = ''SwarmSync.AI'' then PStr (receipt_header c) else PNone)]),
      (''spec'', PDict
        [(''url'', opt_val PStr (vs_url sp)), (''selector'', opt_val PStr (vs_selector sp)),
         (''expectedContent'', opt_val PStr (vs_expectedContent sp)), (''fingerprintDelta'', PBool (vs_fingerprintDelta sp)),
         (''delivery_mode'', PStr (if inline_mode sp then ''inline'' else ''url'')),
         (''inline_content_length'', if text_of (vs_inline_content sp) \<noteq> [] then PInt (int (length (text_of (vs_inline_content sp)))) else PNone)]),
      (''result'', PDict
        [(''passed'', PBool passed), (''failure_reason'', opt_val PStr failure_reason), (''verification_track'', PInt track),
         (''eval_result_hash'', opt_val PStr hash), (''rubric_result'', opt_val PDict rubric),
         (''extracted_content'', opt_val PStr (ss_extracted s)), (''fingerprint_hash'', opt_val PStr (ss_fingerprint s)),
         (''accessibility_snapshot_length'', PInt (int (length (text_of (ss_accessibility s)))))]),
      (''audit'', PDict
        [(''action_count'', PInt (int (length (ss_log s)))), (''total_cost_cents'', PInt (sum_list (map al_cost_cents (ss_log s)))),
         (''actions'', PList (map (PDict \<circ> entry_dict) (ss_log s)))])]"

definition sign_proof :: "verifier_ops \<Rightarrow> str \<Rightarrow> str" where
  "sign_proof vo text = (if vf_secret vo = [] then ''sha256:'' @ vf_sha256 vo text else vf_hmac256 vo (vf_secret vo) text)"

definition bundle_json :: "dict \<Rightarrow> str" where
  "bundle_json b = json_dumps False True '', '' '': '' (PDict b)"

section \<open>The verification\<close>

text \<open>The verdict and its reason.\<close>

definition final_verdict :: "v2_outcome \<Rightarrow> session_state \<Rightarrow> verification_spec \<Rightarrow> bool \<times> str option" where
  "final_verdict v2 s sp =
     (case v2_passed v2 of
        Some p \<Rightarrow> (p, v2_failure_reason v2)
      | None \<Rightarrow>
          (let r = evaluate_result s sp in
           (fst r, if \<not> fst r \<and> text_of (ss_error s) \<noteq> [] \<and> snd r = [] then ss_error s else Some (snd r))))"

definition assemble ::
  "verifier_ops \<Rightarrow> str \<Rightarrow> verification_spec \<Rightarrow> verification_context \<Rightarrow> track1 \<Rightarrow> track2 \<Rightarrow> session_state \<Rightarrow> verification_result" where
  "assemble vo session_id sp c t1 t2 s =
     (let v2 = decide_track t1 t2; verdict = final_verdict v2 s sp;
          json = bundle_json (build_proof_bundle vo session_id sp c s (fst verdict) (snd verdict) (v2_track v2) (t1_hash t1) (t2_result t2)) in
      \<lparr>vr_passed = fst verdict, vr_proof_hash = vf_sha256 vo json, vr_proof_bundle_ref = vf_b64 vo json,
       vr_conduit_session_sig = sign_proof vo json, vr_extracted_content = ss_extracted s,
       vr_screenshot_ref = (if text_of (ss_screenshot s) \<noteq> [] then Some (''data:image/png;base64,'' @ text_of (ss_screenshot s)) else None),
       vr_failure_reason = snd verdict, vr_action_log = ss_log s, vr_client_context = context_dict c, vr_eval_result_hash = t1_hash t1,
       vr_verification_track = (if v2_track v2 \<noteq> 0 then Some (v2_track v2) else None), vr_request_id = vs_request_id sp,
       vr_rubric_result = t2_result t2\<rparr>)"

text \<open>The result, or the text of the exception the start of the browser raises, with the requests that were made.\<close>

definition run_verification ::
  "verifier_ops \<Rightarrow> str \<Rightarrow> verification_spec \<Rightarrow> verification_context \<Rightarrow> (str + verification_result) \<times> request list" where
  "run_verification vo session_id sp c =
     (case run_track1 vo sp of (t1, rs1) \<Rightarrow>
      case run_track2 vo sp of (t2, rs2) \<Rightarrow>
        if inline_mode sp then (Inr (assemble vo session_id sp c t1 t2 (inline_session vo sp)), rs1 @ rs2)
        else (case pg_start (vf_page vo) of
                Inl e \<Rightarrow> (Inl e, rs1 @ rs2)
              | Inr _ \<Rightarrow> (Inr (assemble vo session_id sp c t1 t2 (browse vo sp)), rs1 @ rs2 @ [Navigated (text_of (vs_url sp))])))"

section \<open>What a verdict means\<close>

text \<open>The deliverable, or why it could not be had.\<close>

definition delivered :: "verifier_ops \<Rightarrow> verification_spec \<Rightarrow> str + str" where
  "delivered vo sp = (if inline_mode sp then Inr (text_of (vs_inline_content sp)) else fst (safe_open vo (text_of (vs_url sp))))"

definition rubric_committed :: "verification_spec \<Rightarrow> bool" where
  "rubric_committed sp \<longleftrightarrow> (case vs_rubric_json sp of None \<Rightarrow> False | Some d \<Rightarrow> d \<noteq> []) \<and> text_of (vs_rubric_hash sp) \<noteq> []"

text \<open>The three ways to pass, over the deliverable and the page.\<close>

definition hash_matches :: "verifier_ops \<Rightarrow> verification_spec \<Rightarrow> bool" where
  "hash_matches vo sp \<longleftrightarrow> (\<exists>b. delivered vo sp = Inr b \<and> lower (vf_sha256 vo b) = lower (text_of (vs_expected_hash sp)))"

definition rubric_satisfied :: "verifier_ops \<Rightarrow> verification_spec \<Rightarrow> bool" where
  "rubric_satisfied vo sp \<longleftrightarrow>
     (\<exists>d h b v. vs_rubric_json sp = Some d \<and> vf_rubric vo = Some h \<and> h d = text_of (vs_rubric_hash sp) \<and> delivered vo sp = Inr b \<and>
        vf_evaluate vo b d = Inr v \<and> rv_pass v)"

definition selector_of :: "verification_spec \<Rightarrow> str" where
  "selector_of sp = (if text_of (vs_selector sp) \<noteq> [] then text_of (vs_selector sp) else ''body'')"

definition content_found :: "verifier_ops \<Rightarrow> verification_spec \<Rightarrow> bool" where
  "content_found vo sp \<longleftrightarrow>
     (let expected = text_of (vs_expectedContent sp) in
      if inline_mode sp then
        (if expected = [] then vf_sha256 vo (text_of (vs_inline_content sp)) \<noteq> []
         else str_in (lower expected) (lower (take (vf_max_chars vo) (text_of (vs_inline_content sp)))))
      else pg_goto (vf_page vo) = Inr () \<and>
        (if expected = [] then \<exists>html. pg_content (vf_page vo) = Inr html
         else \<exists>t. pg_inner_text (vf_page vo) (selector_of sp) = Inr (Some t) \<and> str_in (lower expected) (lower (take (vf_max_chars vo) t))))"

lemma lower_Nil [simp]: "lower s = [] \<longleftrightarrow> s = []"
  by (simp add: lower_def)

lemma text_of_simps [simp]: "text_of None = []" "text_of (Some s) = s"
  by (simp_all add: text_of_def)

lemma t1_passed_compare [simp]: "t1_passed (compare_hash e g) = Some (lower g = lower e)"
  by (simp add: compare_hash_def Let_def)

lemma track1_passed:
  "t1_passed (fst (run_track1 vo sp)) = (if text_of (vs_expected_hash sp) = [] then None else Some (hash_matches vo sp))"
proof (cases "text_of (vs_expected_hash sp) = [] \<or> inline_mode sp")
  case True
  then show ?thesis by (auto simp: run_track1_def Let_def hash_matches_def delivered_def)
next
  case False
  have "lower [] \<noteq> lower (text_of (vs_expected_hash sp))" using False by (metis lower_Nil)
  then show ?thesis using False
    by (auto simp: run_track1_def Let_def hash_matches_def delivered_def fetch_and_hash_def text_of_def split: prod.splits sum.splits)
qed

lemma t2_passed_judge: "t2_passed (judge_rubric vo d b) = Some (\<exists>v. vf_evaluate vo b d = Inr v \<and> rv_pass v)"
  by (auto simp: judge_rubric_def track2_failed_def split: sum.splits)

lemma track2_passed:
  "t2_passed (fst (run_track2 vo sp)) = (if rubric_committed sp then Some (rubric_satisfied vo sp) else None)"
proof (cases "vs_rubric_json sp")
  case None
  then show ?thesis by (simp add: run_track2_def rubric_committed_def)
next
  case (Some d)
  show ?thesis
  proof (cases "vf_rubric vo")
    case None
    then show ?thesis using Some
      by (auto simp: run_track2_def rubric_committed_def rubric_satisfied_def track2_failed_def Let_def)
  next
    case h: (Some h)
    then show ?thesis using Some
      by (auto simp: run_track2_def rubric_committed_def rubric_satisfied_def delivered_def Let_def t2_passed_judge track2_failed_def
          split: prod.splits sum.splits)
  qed
qed

text \<open>What an action leaves, field by field.\<close>

fun succeeded :: "verifier_ops \<Rightarrow> action \<Rightarrow> bool" where
  "succeeded vo (Navigate _) = (pg_goto (vf_page vo) = Inr ())"
| "succeeded vo Screenshot = (\<exists>x. pg_screenshot (vf_page vo) = Inr x)"
| "succeeded vo (Extract sel) = (\<exists>t. pg_inner_text (vf_page vo) sel = Inr (Some t))"
| "succeeded vo Fingerprint = (\<exists>html. pg_content (vf_page vo) = Inr html)"
| "succeeded vo Accessibility_Snapshot = (\<exists>t. pg_snapshot (vf_page vo) = Inr t)"
| "succeeded vo Export_Proof = True"

lemma action_step_log:
  "\<exists>e. ss_log (action_step vo i a s) = ss_log s @ [e] \<and> al_action e = action_type a \<and> al_success e = succeeded vo a \<and>
       al_cost_cents e = (case map_of ACTION_COSTS (action_type a) of None \<Rightarrow> 0 | Some c \<Rightarrow> c)"
  by (cases a) (auto simp: action_step_def log_action_def Let_def split: sum.splits option.splits)

lemma action_step_extracted:
  "ss_extracted (action_step vo i a s) =
     (case a of Extract sel \<Rightarrow> (case pg_inner_text (vf_page vo) sel of Inr (Some t) \<Rightarrow> Some (take (vf_max_chars vo) t) | _ \<Rightarrow> None)
      | _ \<Rightarrow> ss_extracted s)"
  by (cases a) (auto simp: action_step_def log_action_def Let_def split: sum.splits option.splits)

lemma action_step_fingerprint:
  "ss_fingerprint (action_step vo i a s) =
     (case a of Fingerprint \<Rightarrow> (case pg_content (vf_page vo) of Inr c \<Rightarrow> Some (vf_sha256 vo c) | _ \<Rightarrow> ss_fingerprint s)
      | _ \<Rightarrow> ss_fingerprint s)"
  by (cases a) (auto simp: action_step_def log_action_def Let_def split: sum.splits option.splits)

lemma browse_eq:
  "browse vo sp =
     action_step vo 5 Export_Proof (action_step vo 4 Accessibility_Snapshot (action_step vo 3 Fingerprint
       (action_step vo 2 (Extract (selector_of sp)) (action_step vo 1 Screenshot (action_step vo 0 (Navigate (text_of (vs_url sp))) empty_session)))))"
  by (simp add: browse_def build_action_plan_def selector_of_def eval_nat_numeral)

lemma browse_log:
  obtains e0 e1 e2 e3 e4 e5 where "ss_log (browse vo sp) = [e0, e1, e2, e3, e4, e5]"
    and "map al_action [e0, e1, e2, e3, e4, e5] = [''NAVIGATE'', ''SCREENSHOT'', ''EXTRACT'', ''FINGERPRINT'', ''ACCESSIBILITY_SNAPSHOT'', ''EXPORT_PROOF'']"
    and "al_success e0 = (pg_goto (vf_page vo) = Inr ())" and "al_success e3 = (\<exists>html. pg_content (vf_page vo) = Inr html)"
    and "map al_cost_cents [e0, e1, e2, e3, e4, e5] = [1, 5, 2, 1, 2, 0]"
proof -
  define s1 where "s1 = action_step vo 0 (Navigate (text_of (vs_url sp))) empty_session"
  define s2 where "s2 = action_step vo 1 Screenshot s1"
  define s3 where "s3 = action_step vo 2 (Extract (selector_of sp)) s2"
  define s4 where "s4 = action_step vo 3 Fingerprint s3"
  define s5 where "s5 = action_step vo 4 Accessibility_Snapshot s4"
  note L = action_step_log [of vo 0 "Navigate (text_of (vs_url sp))" empty_session, folded s1_def]
    action_step_log [of vo 1 Screenshot s1, folded s2_def] action_step_log [of vo 2 "Extract (selector_of sp)" s2, folded s3_def]
    action_step_log [of vo 3 Fingerprint s3, folded s4_def] action_step_log [of vo 4 Accessibility_Snapshot s4, folded s5_def]
    action_step_log [of vo 5 Export_Proof s5]
  from L obtain e0 e1 e2 e3 e4 e5 where
    "ss_log s1 = [e0]" "ss_log s2 = ss_log s1 @ [e1]" "ss_log s3 = ss_log s2 @ [e2]" "ss_log s4 = ss_log s3 @ [e3]"
    "ss_log s5 = ss_log s4 @ [e4]" "ss_log (action_step vo 5 Export_Proof s5) = ss_log s5 @ [e5]"
    and facts: "al_action e0 = ''NAVIGATE''" "al_action e1 = ''SCREENSHOT''" "al_action e2 = ''EXTRACT''" "al_action e3 = ''FINGERPRINT''"
      "al_action e4 = ''ACCESSIBILITY_SNAPSHOT''" "al_action e5 = ''EXPORT_PROOF''"
      "al_success e0 = (pg_goto (vf_page vo) = Inr ())" "al_success e3 = (\<exists>html. pg_content (vf_page vo) = Inr html)"
      "map al_cost_cents [e0, e1, e2, e3, e4, e5] = [1, 5, 2, 1, 2, 0]"
    by (auto simp: empty_session_def ACTION_COSTS_def)
  then have "ss_log (browse vo sp) = [e0, e1, e2, e3, e4, e5]" by (simp add: browse_eq s1_def s2_def s3_def s4_def s5_def)
  from that [OF this] facts show ?thesis by simp
qed

lemma browse_fields:
  "ss_extracted (browse vo sp) =
     (case pg_inner_text (vf_page vo) (selector_of sp) of Inr (Some t) \<Rightarrow> Some (take (vf_max_chars vo) t) | _ \<Rightarrow> None)"
  "ss_fingerprint (browse vo sp) = (case pg_content (vf_page vo) of Inr c \<Rightarrow> Some (vf_sha256 vo c) | _ \<Rightarrow> None)"
  by (simp_all add: browse_eq action_step_extracted action_step_fingerprint empty_session_def split: sum.splits)

lemma evaluate_browsed: "\<not> inline_mode sp \<Longrightarrow> fst (evaluate_result (browse vo sp) sp) = content_found vo sp"
proof -
  assume m: "\<not> inline_mode sp"
  obtain e0 e1 e2 e3 e4 e5 where log: "ss_log (browse vo sp) = [e0, e1, e2, e3, e4, e5]"
    and names: "map al_action [e0, e1, e2, e3, e4, e5] = [''NAVIGATE'', ''SCREENSHOT'', ''EXTRACT'', ''FINGERPRINT'', ''ACCESSIBILITY_SNAPSHOT'', ''EXPORT_PROOF'']"
    and ok: "al_success e0 = (pg_goto (vf_page vo) = Inr ())" "al_success e3 = (\<exists>html. pg_content (vf_page vo) = Inr html)"
    by (rule browse_log)
  have lists: "filter (\<lambda>a. al_action a = ''NAVIGATE'') (ss_log (browse vo sp)) = [e0]"
    "filter (\<lambda>a. al_action a = ''INLINE_CONTENT'') (ss_log (browse vo sp)) = []"
    "filter (\<lambda>a. al_action a = ''FINGERPRINT'') (ss_log (browse vo sp)) = [e3]"
    using names by (simp_all add: log)
  show ?thesis
    unfolding evaluate_result_def lists Let_def
    using m ok by (auto simp: browse_fields content_found_def Let_def split: sum.splits option.splits)
qed

lemma evaluate_inline: "inline_mode sp \<Longrightarrow> fst (evaluate_result (inline_session vo sp) sp) = content_found vo sp"
  by (auto simp: evaluate_result_def inline_session_def empty_session_def content_found_def Let_def)

lemma run_verification_cases:
  assumes "run_verification vo session_id sp c = (Inr r, rs)"
  obtains s where "r = assemble vo session_id sp c (fst (run_track1 vo sp)) (fst (run_track2 vo sp)) s"
    and "fst (evaluate_result s sp) = content_found vo sp"
    and "s = (if inline_mode sp then inline_session vo sp else browse vo sp)"
  using assms evaluate_inline [of sp vo] evaluate_browsed [of sp vo]
  by (auto simp: run_verification_def split: prod.splits if_splits sum.splits)

lemma verdict_meaning:
  assumes "run_verification vo session_id sp c = (Inr r, rs)"
  shows "vr_passed r \<longleftrightarrow>
     (if text_of (vs_expected_hash sp) \<noteq> [] then hash_matches vo sp
      else if rubric_committed sp then rubric_satisfied vo sp else content_found vo sp)"
proof -
  obtain s where r: "r = assemble vo session_id sp c (fst (run_track1 vo sp)) (fst (run_track2 vo sp)) s"
    and ev: "fst (evaluate_result s sp) = content_found vo sp"
    using assms by (rule run_verification_cases)
  then show ?thesis
    by (auto simp: assemble_def final_verdict_def decide_track_def track1_passed track2_passed Let_def)
qed

lemma verdict_in_proof:
  assumes "run_verification vo session_id sp c = (Inr r, rs)"
  shows "\<exists>b res. vr_proof_hash r = vf_sha256 vo (bundle_json b) \<and> vr_conduit_session_sig r = sign_proof vo (bundle_json b) \<and>
     vr_proof_bundle_ref r = vf_b64 vo (bundle_json b) \<and> dget b ''result'' = PDict res \<and> dget res ''passed'' = PBool (vr_passed r)"
proof -
  obtain s where r: "r = assemble vo session_id sp c (fst (run_track1 vo sp)) (fst (run_track2 vo sp)) s"
    using assms by (rule run_verification_cases)
  define v2 where "v2 = decide_track (fst (run_track1 vo sp)) (fst (run_track2 vo sp))"
  define b where "b = build_proof_bundle vo session_id sp c s (fst (final_verdict v2 s sp)) (snd (final_verdict v2 s sp)) (v2_track v2)
      (t1_hash (fst (run_track1 vo sp))) (t2_result (fst (run_track2 vo sp)))"
  have "\<exists>res. dget b ''result'' = PDict res \<and> dget res ''passed'' = PBool (fst (final_verdict v2 s sp))"
    by (simp add: b_def build_proof_bundle_def dget_def)
  moreover have "vr_passed r = fst (final_verdict v2 s sp)" "vr_proof_hash r = vf_sha256 vo (bundle_json b)"
    "vr_conduit_session_sig r = sign_proof vo (bundle_json b)" "vr_proof_bundle_ref r = vf_b64 vo (bundle_json b)"
    by (simp_all add: r assemble_def Let_def v2_def b_def)
  ultimately show ?thesis by metis
qed

text \<open>
  C13. What the verifier's verdict means, exactly. With an expected hash it passes if and only if the deliverable's SHA-256 is that hash, and nothing else
  is looked at: not the rubric the buyer committed to, nor the content expected. Without one, a committed rubric decides: its hash
  must be the committed one and the deliverable must satisfy it. Only without both does the content check decide, and inline content without an
  expectation passes whatever it is. The proof carries the same verdict.
\<close>

theorem verification_verdict:
  assumes "run_verification vo session_id sp c = (Inr r, rs)"
  shows "(vr_passed r \<longleftrightarrow>
            (if text_of (vs_expected_hash sp) \<noteq> [] then hash_matches vo sp
             else if rubric_committed sp then rubric_satisfied vo sp
             else content_found vo sp)) \<and>
    (\<exists>b res. vr_proof_hash r = vf_sha256 vo (bundle_json b) \<and> vr_conduit_session_sig r = sign_proof vo (bundle_json b) \<and>
       vr_proof_bundle_ref r = vf_b64 vo (bundle_json b) \<and> dget b ''result'' = PDict res \<and> dget res ''passed'' = PBool (vr_passed r))"
  using verdict_meaning [OF assms] verdict_in_proof [OF assms] by (rule conjI)

text \<open>Requests: what the server opens has been checked, what the browser navigates to has not.\<close>

lemma open_url_safe:
  "assert_safe_url vo url = Inr () \<Longrightarrow> Opened u \<in> set (snd (open_url vo n url)) \<Longrightarrow> assert_safe_url vo u = Inr ()"
proof (induction n arbitrary: url)
  case 0
  then show ?case by (auto simp: open_url.simps [of vo 0] split: opened.splits sum.splits)
next
  case (Suc n)
  then show ?case by (auto simp: open_url.simps [of vo "Suc n"] case_prod_beta split: opened.splits sum.splits)
qed

lemma open_url_opened: "r \<in> set (snd (open_url vo n url)) \<Longrightarrow> \<exists>u. r = Opened u"
proof (induction n arbitrary: url)
  case 0
  then show ?case by (auto simp: open_url.simps [of vo 0] split: opened.splits sum.splits)
next
  case (Suc n)
  then show ?case by (auto simp: open_url.simps [of vo "Suc n"] case_prod_beta split: opened.splits sum.splits)
qed

lemma safe_open_requests: "r \<in> set (snd (safe_open vo url)) \<Longrightarrow> \<exists>u. r = Opened u \<and> assert_safe_url vo u = Inr ()"
  using open_url_opened open_url_safe by (fastforce simp: safe_open_def split: sum.splits)

lemma track_requests:
  "r \<in> set (snd (run_track1 vo sp)) \<union> set (snd (run_track2 vo sp)) \<Longrightarrow> \<exists>u. r = Opened u \<and> assert_safe_url vo u = Inr ()"
  using safe_open_requests [of r vo "text_of (vs_url sp)"]
  by (auto simp: run_track1_def run_track2_def fetch_and_hash_def Let_def split: prod.splits sum.splits option.splits if_splits)

lemma blocked_address_None: "blocked_address priv as = None \<longleftrightarrow> (\<forall>a \<in> set as. priv a \<noteq> Some True)"
  by (induction as) auto

lemma assert_safe_url_Inr:
  "assert_safe_url vo url = Inr () \<longleftrightarrow>
     (\<exists>as. vf_addresses vo (text_of (vf_hostname vo url)) = Some as \<and> (\<forall>a \<in> set as. vf_private vo a \<noteq> Some True))"
  by (auto simp: assert_safe_url_def Let_def blocked_address_None [symmetric] split: option.splits)

text \<open>
  Which requests a verification makes: a URL the server opens, also one it is redirected to, has a host all of whose addresses are public.
  The browser's navigation has no such check: without inline content it goes to the URL of the specification whatever that
  resolves to, as soon as the browser starts, and also when the hash or the rubric has already decided.
\<close>

theorem verification_requests:
  assumes "run_verification vo session_id sp c = (res, rs)"
  shows "(\<forall>u. Opened u \<in> set rs \<longrightarrow>
            (\<exists>as. vf_addresses vo (text_of (vf_hostname vo u)) = Some as \<and> (\<forall>a \<in> set as. vf_private vo a \<noteq> Some True))) \<and>
    (\<forall>u. Navigated u \<in> set rs \<longleftrightarrow> \<not> inline_mode sp \<and> pg_start (vf_page vo) = Inr () \<and> u = text_of (vs_url sp))"
proof -
  obtain t1 rs1 t2 rs2 where t: "run_track1 vo sp = (t1, rs1)" "run_track2 vo sp = (t2, rs2)" by fastforce
  have checked: "\<exists>u. r = Opened u \<and> assert_safe_url vo u = Inr ()" if "r \<in> set rs1 \<union> set rs2" for r
    using track_requests [of r vo sp] that by (simp add: t)
  have rs: "rs = rs1 @ rs2 @ (if \<not> inline_mode sp \<and> pg_start (vf_page vo) = Inr () then [Navigated (text_of (vs_url sp))] else [])"
    using assms by (auto simp: run_verification_def t split: if_splits sum.splits)
  show ?thesis
  proof (intro conjI allI impI)
    fix u assume "Opened u \<in> set rs"
    then have "Opened u \<in> set rs1 \<union> set rs2" by (auto simp: rs split: if_splits)
    from checked [OF this] show "\<exists>as. vf_addresses vo (text_of (vf_hostname vo u)) = Some as \<and> (\<forall>a \<in> set as. vf_private vo a \<noteq> Some True)"
      by (simp add: assert_safe_url_Inr)
  next
    fix u
    have "Navigated u \<notin> set rs1 \<union> set rs2" using checked by blast
    then show "Navigated u \<in> set rs \<longleftrightarrow> \<not> inline_mode sp \<and> pg_start (vf_page vo) = Inr () \<and> u = text_of (vs_url sp)"
      by (auto simp: rs)
  qed
qed

text \<open>What a session costs: nothing for inline content, eleven cents for any browser session.\<close>

lemma session_cost:
  "sum_list (map al_cost_cents (ss_log (browse vo sp))) = 11" "sum_list (map al_cost_cents (ss_log (inline_session vo sp))) = 0"
proof -
  obtain e0 e1 e2 e3 e4 e5 where log: "ss_log (browse vo sp) = [e0, e1, e2, e3, e4, e5]"
    and costs: "map al_cost_cents [e0, e1, e2, e3, e4, e5] = [1, 5, 2, 1, 2, 0]" by (rule browse_log)
  show "sum_list (map al_cost_cents (ss_log (browse vo sp))) = 11" by (simp only: log costs) simp
  show "sum_list (map al_cost_cents (ss_log (inline_session vo sp))) = 0"
    by (simp add: inline_session_def empty_session_def Let_def)
qed

text \<open>A passed content check leaves its message in the field of the failure reason.\<close>

lemma passed_with_failure_reason:
  assumes "run_verification vo session_id sp c = (Inr r, rs)" and "text_of (vs_expected_hash sp) = []" and "\<not> rubric_committed sp"
  shows "vr_failure_reason r \<noteq> None"
proof -
  obtain s where r: "r = assemble vo session_id sp c (fst (run_track1 vo sp)) (fst (run_track2 vo sp)) s"
    using assms(1) by (rule run_verification_cases)
  show ?thesis using assms(2,3) by (auto simp: r assemble_def Let_def final_verdict_def decide_track_def track1_passed track2_passed text_of_def
      split: option.splits)
qed

section \<open>A concrete verification\<close>

text \<open>A host that resolves to a private address, with a hash that the inline text has and one that it has not.\<close>

definition sample_verifier :: verifier_ops where
  "sample_verifier =
     \<lparr>vf_hostname = Some, vf_addresses = (\<lambda>h. Some [''10.0.0.5'']), vf_private = (\<lambda>a. Some True), vf_open = (\<lambda>u. Body ''b''),
      vf_redirects = 10,
      vf_page = \<lparr>pg_start = Inr (), pg_goto = Inr (), pg_screenshot = Inr (''png'', 3), pg_inner_text = (\<lambda>_. Inr (Some ''hello'')),
        pg_content = Inr ''<html>'', pg_snapshot = Inr ''{}''\<rparr>,
      vf_rubric = Some (\<lambda>d. ''rh''), vf_evaluate = (\<lambda>b d. Inr \<lparr>rv_pass = False, rv_predicates = [(''min_word_count'', False)], rv_dict = []\<rparr>),
      vf_sha256 = (\<lambda>t. ''h'' @ t), vf_hmac256 = (\<lambda>k t. k @ t), vf_b64 = (\<lambda>t. t), vf_secret = [], vf_max_chars = 5000, vf_now = ''T''\<rparr>"

definition sample_context :: verification_context where
  "sample_context =
     \<lparr>vc_marketplace = ''SwarmSync.AI'', vc_purpose = ''escrow_verification'', vc_escrow_ref = ''e1'', vc_negotiation_id = None,
      vc_service_agreement_id = None, vc_verification_id = ''v1'', vc_request_id = None\<rparr>"

definition inline_spec :: verification_spec where
  "inline_spec =
     \<lparr>vs_url = None, vs_selector = None, vs_expectedContent = None, vs_fingerprintDelta = False, vs_timeoutSeconds = 1800,
      vs_expected_hash = Some ''Hx'', vs_rubric_json = Some [(''min_word_count'', PInt 5)], vs_rubric_hash = Some ''rh'', vs_request_id = None,
      vs_inline_content = Some ''x''\<rparr>"

definition private_spec :: verification_spec where
  "private_spec = inline_spec\<lparr>vs_url := Some ''intranet'', vs_expected_hash := None, vs_rubric_json := None\<rparr>"

lemma inline_total: "inline_mode sp \<Longrightarrow> \<exists>r rs. run_verification vo session_id sp c = (Inr r, rs)"
  by (auto simp: run_verification_def split: prod.splits)

text \<open>The rubric the buyer committed to fails, and the hash decides.\<close>

theorem verification_verdict_witness:
  "\<exists>r rs. run_verification sample_verifier ''j1'' inline_spec sample_context = (Inr r, rs) \<and> vr_passed r \<and>
     rubric_committed inline_spec \<and> \<not> rubric_satisfied sample_verifier inline_spec"
proof -
  have "inline_mode inline_spec" by code_simp
  then obtain r rs where run: "run_verification sample_verifier ''j1'' inline_spec sample_context = (Inr r, rs)"
    using inline_total by blast
  have "delivered sample_verifier inline_spec = Inr ''x''" by code_simp
  moreover have "lower (vf_sha256 sample_verifier ''x'') = lower (text_of (vs_expected_hash inline_spec))" by code_simp
  ultimately have "hash_matches sample_verifier inline_spec" unfolding hash_matches_def by blast
  moreover have "rubric_committed inline_spec" "text_of (vs_expected_hash inline_spec) \<noteq> []" by code_simp+
  moreover have "\<not> rubric_satisfied sample_verifier inline_spec" by (auto simp: rubric_satisfied_def sample_verifier_def)
  ultimately show ?thesis using verification_verdict [OF run] run by auto
qed

theorem verification_requests_witness:
  "\<exists>res rs. run_verification sample_verifier ''j1'' private_spec sample_context = (res, rs) \<and> Navigated ''intranet'' \<in> set rs \<and>
     vf_private sample_verifier ''10.0.0.5'' = Some True"
proof -
  obtain res rs where run: "run_verification sample_verifier ''j1'' private_spec sample_context = (res, rs)" by fastforce
  have N: "\<not> inline_mode private_spec \<and> pg_start (vf_page sample_verifier) = Inr () \<and> ''intranet'' = text_of (vs_url private_spec)"
    by code_simp
  have "vf_private sample_verifier ''10.0.0.5'' = Some True" by code_simp
  moreover have "Navigated ''intranet'' \<in> set rs" by (rule conjunct2 [OF verification_requests [OF run], rule_format, THEN iffD2, OF N])
  ultimately show ?thesis using run by (intro exI conjI)
qed

end
