(* ===== verification/Verify_Routes.thy ===== *)
theory Verify_Routes
  imports Verification Gateway
begin

text \<open>
  The verification routes of \<^verbatim>\<open>main.py\<close>: the two tables of verification jobs, the background task of each, and the request for an arbitrage
  verification.

  A run of the verifier is an argument of the task: it raises with a text or returns a result. So is the answer to the callback it posts. Times are
  texts, and a dash outside the model's characters is written \<open>--\<close>. The two tables differ in what a job's result is, so they share the type of jobs and the lifecycle, with the result as a parameter.
\<close>

section \<open>Jobs\<close>

record 'r verify_job =
  vj_status :: str
  vj_result :: "'r option"
  vj_created_at :: str
  vj_completed_at :: "str option"
  vj_error :: "str option"

type_synonym 'r verify_jobs = "(str \<times> 'r verify_job) list"

definition internal_secret :: "env \<Rightarrow> str" where
  "internal_secret e = opt_header (e ''INTERNAL_SECRET'')"

definition pending_job :: "str \<Rightarrow> 'r verify_job" where
  "pending_job created = \<lparr>vj_status = ''pending'', vj_result = None, vj_created_at = created, vj_completed_at = None, vj_error = None\<rparr>"

definition start_job :: "env \<Rightarrow> headers \<Rightarrow> str \<Rightarrow> str \<Rightarrow> 'r verify_jobs \<Rightarrow> gw_exc + str \<times> 'r verify_jobs" where
  "start_job e h fresh now jobs =
     bindE (require_internal_secret e h) (\<lambda>_. Inr (fresh, dict_set jobs fresh (pending_job now)))"

definition update_job :: "str \<Rightarrow> ('r verify_job \<Rightarrow> 'r verify_job) \<Rightarrow> 'r verify_jobs \<Rightarrow> 'r verify_jobs" where
  "update_job jid f jobs = map (\<lambda>(k, j). (k, if k = jid then f j else j)) jobs"

definition mark_running :: "'r verify_job \<Rightarrow> 'r verify_job" where
  "mark_running j = j\<lparr>vj_status := ''running''\<rparr>"

definition mark_completed :: "'r \<Rightarrow> str \<Rightarrow> 'r verify_job \<Rightarrow> 'r verify_job" where
  "mark_completed r now j = j\<lparr>vj_status := ''completed'', vj_result := Some r, vj_completed_at := Some now\<rparr>"

text \<open>\<open>failed_result\<close> is the result the handler stores, if it stores one.\<close>

definition mark_failed :: "'r option \<Rightarrow> str \<Rightarrow> str \<Rightarrow> 'r verify_job \<Rightarrow> 'r verify_job" where
  "mark_failed failed_result msg now j =
     j\<lparr>vj_status := ''failed'', vj_result := (case failed_result of None \<Rightarrow> vj_result j | Some r \<Rightarrow> Some r), vj_error := Some msg,
       vj_completed_at := Some now\<rparr>"

text \<open>
  The task: the verification, its result in the table, the callback; an exception of either ends in the handler, which overwrites the status and posts
  an error callback, whatever becomes of that.
\<close>

definition run_job ::
  "('r \<Rightarrow> http_request) \<Rightarrow> (str \<Rightarrow> http_request) \<Rightarrow> (str \<Rightarrow> 'r option) \<Rightarrow> str + 'r \<Rightarrow> http_outcome \<Rightarrow> str \<Rightarrow> str \<Rightarrow> str \<Rightarrow> 'r verify_jobs
     \<Rightarrow> 'r verify_jobs \<times> http_request list" where
  "run_job report report_error failed_result outcome answer now1 now2 jid jobs =
     (let jobs1 = update_job jid mark_running jobs;
          fail = (\<lambda>msg jobs. update_job jid (mark_failed (failed_result msg) msg now2) jobs) in
      case outcome of
        Inl msg \<Rightarrow> (fail msg jobs1, [report_error msg])
      | Inr r \<Rightarrow>
          (let jobs2 = update_job jid (mark_completed r now1) jobs1 in
           case answer of
             Http_Response _ _ _ \<Rightarrow> (jobs2, [report r])
           | Http_Raise _ msg \<Rightarrow> (fail msg jobs2, [report r, report_error msg])))"

section \<open>POST /verify\<close>

record verify_request =
  vq_negotiation_id :: "str option"
  vq_service_agreement_id :: "str option"
  vq_spec :: verification_spec
  vq_context :: verification_context

definition callback_headers :: "env \<Rightarrow> (str \<times> str) list" where
  "callback_headers e = [(''Content-Type'', ''application/json''), (''X-Internal-Secret'', internal_secret e)]"

definition verification_url :: "str \<Rightarrow> verify_request \<Rightarrow> str" where
  "verification_url api q = api @ ''/conduit/verifications/'' @ vc_verification_id (vq_context q) @ ''/callback''"

definition verification_report :: "env \<Rightarrow> str \<Rightarrow> verify_request \<Rightarrow> verification_result \<Rightarrow> http_request" where
  "verification_report e api q r =
     \<lparr>hr_url = verification_url api q,
      hr_json = PDict
        [(''passed'', PBool (vr_passed r)), (''proofHash'', PStr (vr_proof_hash r)), (''conduitSessionSig'', PStr (vr_conduit_session_sig r)),
         (''extractedContent'', opt_val PStr (vr_extracted_content r)), (''failureReason'', opt_val PStr (vr_failure_reason r)),
         (''actionLog'', PList (map (PDict \<circ> entry_dict) (vr_action_log r))), (''evalResultHash'', opt_val PStr (vr_eval_result_hash r)),
         (''verificationTrack'', opt_val PInt (vr_verification_track r)), (''requestId'', opt_val PStr (vr_request_id r))],
      hr_headers = callback_headers e\<rparr>"

definition verification_error_report :: "env \<Rightarrow> str \<Rightarrow> verify_request \<Rightarrow> str \<Rightarrow> http_request" where
  "verification_error_report e api q msg =
     \<lparr>hr_url = verification_url api q,
      hr_json = PDict [(''passed'', PBool False), (''failureReason'', PStr (''Gateway error: '' @ msg)), (''actionLog'', PList [])],
      hr_headers = callback_headers e\<rparr>"

definition run_and_callback ::
  "env \<Rightarrow> str \<Rightarrow> verify_request \<Rightarrow> str + verification_result \<Rightarrow> http_outcome \<Rightarrow> str \<Rightarrow> str \<Rightarrow> str \<Rightarrow> verification_result verify_jobs
     \<Rightarrow> verification_result verify_jobs \<times> http_request list" where
  "run_and_callback e api q = run_job (verification_report e api q) (verification_error_report e api q) (\<lambda>_. None)"

definition start_verification ::
  "env \<Rightarrow> headers \<Rightarrow> str \<Rightarrow> str \<Rightarrow> verification_result verify_jobs \<Rightarrow> gw_exc + str \<times> verification_result verify_jobs" where
  "start_verification = start_job"

definition get_verification_status ::
  "env \<Rightarrow> headers \<Rightarrow> str \<Rightarrow> verification_result verify_jobs \<Rightarrow> gw_exc + verification_result verify_job" where
  "get_verification_status e h jid jobs =
     bindE (require_internal_secret e h) (\<lambda>_.
     optE (http 404 (''Verification job '' @ jid @ '' not found'')) (map_of jobs jid))"

section \<open>Arbitrage verifications\<close>

record arbitrage_request =
  ar_verification_run_id :: str
  ar_transaction_id :: str
  ar_proposal_id :: str
  ar_method :: "str option"
  ar_policy :: dict
  ar_request_payload :: dict

definition nonblank :: "pyval \<Rightarrow> str option" where
  "nonblank v = (case v of PStr s \<Rightarrow> if strip s = [] then None else Some s | _ \<Rightarrow> None)"

definition either_field :: "arbitrage_request \<Rightarrow> str \<Rightarrow> pyval" where
  "either_field q k = py_or (dget (ar_request_payload q) k) (dget (ar_policy q) k)"

definition extract_arbitrage_spec :: "arbitrage_request \<Rightarrow> str + verification_spec" where
  "extract_arbitrage_spec q =
     (let payload = ar_request_payload q; policy = ar_policy q;
          url = py_or (py_or (py_or (dget payload ''verificationUrl'') (dget payload ''deliveryUrl'')) (dget payload ''url'')) (dget policy ''url'');
          delta = (if dget payload ''fingerprintDelta'' = PNone then dget_default policy ''fingerprintDelta'' (PBool False)
                   else dget payload ''fingerprintDelta'') in
      case nonblank url of
        None \<Rightarrow> Inl ''Arbitrage verification requires request_payload.verificationUrl or deliveryUrl''
      | Some u \<Rightarrow>
          Inr \<lparr>vs_url = Some (strip u), vs_selector = nonblank (either_field q ''selector''),
               vs_expectedContent = nonblank (either_field q ''expectedContent''), vs_fingerprintDelta = truthy delta, vs_timeoutSeconds = 1800,
               vs_expected_hash = nonblank (either_field q ''expectedHash''),
               vs_rubric_json = (case either_field q ''rubricJson'' of PDict d \<Rightarrow> Some d | _ \<Rightarrow> None),
               vs_rubric_hash = nonblank (either_field q ''rubricHash''),
               vs_request_id = nonblank (py_or (dget payload ''requestId'') (PStr (ar_verification_run_id q))), vs_inline_content = None\<rparr>)"

definition arbitrage_context :: "arbitrage_request \<Rightarrow> verification_context" where
  "arbitrage_context q =
     \<lparr>vc_marketplace = ''SwarmSync.AI'', vc_purpose = ''arbitrage_verification'', vc_escrow_ref = ar_transaction_id q,
      vc_negotiation_id = None, vc_service_agreement_id = None, vc_verification_id = ar_verification_run_id q,
      vc_request_id = Some (ar_verification_run_id q)\<rparr>"

definition arbitrage_checks :: "verification_result \<Rightarrow> dict list" where
  "arbitrage_checks r =
     [[(''name'', PStr ''conduit_verification''), (''passed'', PBool (vr_passed r)),
       (''track'', PInt (case vr_verification_track r of None \<Rightarrow> 0 | Some t \<Rightarrow> t))]] @
     (if text_of (vr_eval_result_hash r) \<noteq> []
      then [[(''name'', PStr ''artifact_hash''), (''passed'', if vr_verification_track r = Some 1 then PBool (vr_passed r) else PNone),
             (''hash'', PStr (text_of (vr_eval_result_hash r)))]] else []) @
     (case vr_rubric_result r of
        None \<Rightarrow> []
      | Some d \<Rightarrow> if d = [] then [] else [[(''name'', PStr ''rubric_evaluation''), (''passed'', dget d ''rubric_pass''), (''summary'', PDict d)]])"

definition arbitrage_body ::
  "arbitrage_request \<Rightarrow> str \<Rightarrow> bool \<Rightarrow> str option \<Rightarrow> dict list \<Rightarrow> str list \<Rightarrow> dict \<Rightarrow> dict" where
  "arbitrage_body q status passed reason checks urls payload =
     [(''verificationRunId'', PStr (ar_verification_run_id q)), (''transactionId'', PStr (ar_transaction_id q)), (''status'', PStr status),
      (''passed'', PBool passed), (''score'', PFloat (if passed then ''1.0'' else ''0.0'')), (''failureReason'', opt_val PStr reason),
      (''method'', opt_val PStr (ar_method q)), (''checks'', PList (map PDict checks)), (''evidenceUrls'', PList (map PStr urls)),
      (''resultPayload'', PDict payload)]"

definition arbitrage_result :: "arbitrage_request \<Rightarrow> verification_spec \<Rightarrow> verification_result \<Rightarrow> dict" where
  "arbitrage_result q sp r =
     arbitrage_body q (if vr_passed r then ''PASSED'' else ''FAILED'') (vr_passed r) (vr_failure_reason r) (arbitrage_checks r)
       [text_of (vs_url sp)]
       [(''proofHash'', PStr (vr_proof_hash r)), (''proofBundleRef'', PStr (vr_proof_bundle_ref r)),
        (''conduitSessionSig'', PStr (vr_conduit_session_sig r)), (''verificationTrack'', opt_val PInt (vr_verification_track r)),
        (''evalResultHash'', opt_val PStr (vr_eval_result_hash r)), (''rubricResult'', opt_val PDict (vr_rubric_result r)),
        (''actionLog'', PList (map (PDict \<circ> entry_dict) (vr_action_log r))), (''extractedContent'', opt_val PStr (vr_extracted_content r)),
        (''evidenceUrl'', opt_val PStr (vs_url sp))]"

definition arbitrage_error :: "arbitrage_request \<Rightarrow> str \<Rightarrow> dict" where
  "arbitrage_error q msg = arbitrage_body q ''ERROR'' False (Some msg) [] [] [(''gatewayError'', PStr msg)]"

definition arbitrage_post :: "env \<Rightarrow> str \<Rightarrow> dict \<Rightarrow> http_request" where
  "arbitrage_post e api body =
     \<lparr>hr_url = api @ ''/internal/arbitrage/verification-results'', hr_json = PDict body, hr_headers = callback_headers e\<rparr>"

text \<open>\<open>verify\<close> is a run of the verifier on the specification that was extracted.\<close>

definition arbitrage_outcome ::
  "(verification_spec \<Rightarrow> verification_context \<Rightarrow> str + verification_result) \<Rightarrow> arbitrage_request \<Rightarrow> str + dict" where
  "arbitrage_outcome verify q =
     bindE (extract_arbitrage_spec q) (\<lambda>sp. bindE (verify sp (arbitrage_context q)) (\<lambda>r. Inr (arbitrage_result q sp r)))"

definition run_arbitrage_verification_and_callback ::
  "env \<Rightarrow> str \<Rightarrow> (verification_spec \<Rightarrow> verification_context \<Rightarrow> str + verification_result) \<Rightarrow> arbitrage_request \<Rightarrow> http_outcome \<Rightarrow> str \<Rightarrow> str
     \<Rightarrow> str \<Rightarrow> dict verify_jobs \<Rightarrow> dict verify_jobs \<times> http_request list" where
  "run_arbitrage_verification_and_callback e api verify q =
     run_job (arbitrage_post e api) (\<lambda>msg. arbitrage_post e api (arbitrage_error q msg)) (\<lambda>msg. Some (arbitrage_error q msg))
       (arbitrage_outcome verify q)"

definition start_arbitrage_verification ::
  "env \<Rightarrow> headers \<Rightarrow> str \<Rightarrow> str \<Rightarrow> dict verify_jobs \<Rightarrow> gw_exc + str \<times> dict verify_jobs" where
  "start_arbitrage_verification = start_job"

definition get_arbitrage_verification_status :: "env \<Rightarrow> headers \<Rightarrow> str \<Rightarrow> dict verify_jobs \<Rightarrow> gw_exc + dict verify_job" where
  "get_arbitrage_verification_status e h jid jobs =
     bindE (require_internal_secret e h) (\<lambda>_.
     optE (http 404 (''Arbitrage verification job '' @ jid @ '' not found'')) (map_of jobs jid))"

section \<open>GET /verify/hash\<close>

datatype hash_fetch = Fetched int bool str | Request_Failed str

text \<open>\<open>raise_for_status\<close> raises for any status from 300 on that is no redirect with a location, and below 200.\<close>

definition verify_hash :: "(str \<Rightarrow> str option) \<Rightarrow> (str \<Rightarrow> hash_fetch) \<Rightarrow> (str \<Rightarrow> str) \<Rightarrow> str \<Rightarrow> gw_exc + dict" where
  "verify_hash hostname fetch sha256 url =
     bindE (assert_not_ssrf hostname url) (\<lambda>_.
       case fetch url of
         Request_Failed msg \<Rightarrow> Inl (http 502 (''Artifact fetch failed: '' @ msg))
       | Fetched status redirect body \<Rightarrow>
           guardE (\<not> redirect) (http 400 ''Redirects not followed -- submit the final URL directly'')
             (guardE (200 \<le> status \<and> status < 300) (http 502 (''Artifact fetch returned HTTP '' @ show_int status))
               (Inr [(''sha256'', PStr (sha256 body)), (''byte_count'', PInt (int (length body))), (''http_status'', PInt status)])))"

section \<open>The life of a job\<close>

lemma map_of_update_job: "map_of (update_job jid f jobs) k = (if k = jid then map_option f (map_of jobs k) else map_of jobs k)"
  by (induction jobs) (auto simp: update_job_def)

text \<open>
  The steps of a table. A job is started under a fresh id and has one task, which runs it once: so it is marked running when it is pending, and the
  handler is reached while it is running or after it was completed.
\<close>

inductive verify_step :: "'r verify_jobs \<Rightarrow> 'r verify_jobs \<Rightarrow> bool" where
  started: "map_of jobs jid = None \<Longrightarrow> verify_step jobs (dict_set jobs jid (pending_job now))"
| begun: "map_of jobs jid = Some j \<Longrightarrow> vj_status j = ''pending'' \<Longrightarrow> verify_step jobs (update_job jid mark_running jobs)"
| completed: "map_of jobs jid = Some j \<Longrightarrow> vj_status j = ''running'' \<Longrightarrow> verify_step jobs (update_job jid (mark_completed r now) jobs)"
| failed: "map_of jobs jid = Some j \<Longrightarrow> vj_status j \<in> {''running'', ''completed''} \<Longrightarrow>
     verify_step jobs (update_job jid (mark_failed fr msg now) jobs)"

abbreviation verify_steps :: "'r verify_jobs \<Rightarrow> 'r verify_jobs \<Rightarrow> bool" where
  "verify_steps \<equiv> verify_step\<^sup>*\<^sup>*"

text \<open>The fields a job has in each status.\<close>

definition well_formed_job :: "'r verify_job \<Rightarrow> bool" where
  "well_formed_job j \<longleftrightarrow>
     (vj_status j \<in> {''pending'', ''running''} \<and> vj_result j = None \<and> vj_completed_at j = None \<and> vj_error j = None) \<or>
     (vj_status j = ''completed'' \<and> vj_result j \<noteq> None \<and> vj_completed_at j \<noteq> None \<and> vj_error j = None) \<or>
     (vj_status j = ''failed'' \<and> vj_completed_at j \<noteq> None \<and> vj_error j \<noteq> None)"

text \<open>A change of one job, of a status the table has for it, to a well-formed one.\<close>

lemma marks_well_formed:
  "well_formed_job (pending_job now)"
  "vj_status j = ''pending'' \<Longrightarrow> well_formed_job j \<Longrightarrow> well_formed_job (mark_running j)"
  "vj_status j = ''running'' \<Longrightarrow> well_formed_job j \<Longrightarrow> well_formed_job (mark_completed r now j)"
  "well_formed_job (mark_failed fr msg now j)"
  by (simp_all add: well_formed_job_def pending_job_def mark_running_def mark_completed_def mark_failed_def)

lemma updated_well_formed:
  assumes "\<And>k j. map_of jobs k = Some j \<Longrightarrow> well_formed_job j" and "map_of jobs jid = Some j0" and "well_formed_job (f j0)"
    and "map_of (update_job jid f jobs) k = Some j"
  shows "well_formed_job j"
  using assms by (cases "k = jid") (simp_all add: map_of_update_job)

lemma verify_step_well_formed:
  assumes "verify_step jobs jobs'" and wf: "\<And>k j. map_of jobs k = Some j \<Longrightarrow> well_formed_job j" and "map_of jobs' k = Some j"
  shows "well_formed_job j"
  using assms(1,3)
proof cases
  case (started jid now)
  then show ?thesis using assms(3) wf by (cases "k = jid") (auto simp: marks_well_formed(1))
next
  case (begun jid j0)
  show ?thesis by (rule updated_well_formed [OF wf begun(2) marks_well_formed(2) [OF begun(3) wf [OF begun(2)]] assms(3) [unfolded begun(1)]])
next
  case (completed jid j0 r now)
  show ?thesis by (rule updated_well_formed [OF wf completed(2) marks_well_formed(3) [OF completed(3) wf [OF completed(2)]]
      assms(3) [unfolded completed(1)]])
next
  case (failed jid j0 fr msg now)
  show ?thesis by (rule updated_well_formed [OF wf failed(2) marks_well_formed(4) assms(3) [unfolded failed(1)]])
qed

lemma verify_steps_well_formed:
  "verify_steps jobs jobs' \<Longrightarrow> (\<And>k j. map_of jobs k = Some j \<Longrightarrow> well_formed_job j) \<Longrightarrow> map_of jobs' k = Some j \<Longrightarrow> well_formed_job j"
proof (induction arbitrary: k j rule: rtranclp_induct)
  case (step jobs' jobs'')
  have "\<And>k j. map_of jobs' k = Some j \<Longrightarrow> well_formed_job j" using step.IH [OF step.prems(1)] .
  from verify_step_well_formed [OF step.hyps(2) this step.prems(2)] show ?case .
qed

text \<open>A task is a path of steps: the table of every program built of them is reachable.\<close>

lemma run_job_steps:
  assumes "map_of jobs jid = Some j" and "vj_status j = ''pending''"
  shows "verify_steps jobs (fst (run_job report report_error fr outcome answer now1 now2 jid jobs))"
proof -
  let ?run = "update_job jid mark_running jobs"
  have run: "verify_step jobs ?run" and st: "map_of ?run jid = Some (mark_running j)"
    using begun [OF assms] assms(1) by (simp_all add: map_of_update_job)
  have ended: "verify_step ?run (update_job jid (mark_completed r now1) ?run)" for r
    by (rule completed [OF st]) (simp add: mark_running_def)
  have fail: "verify_step ?run (update_job jid (mark_failed f msg now2) ?run)" for f msg
    by (rule failed [OF st]) (simp add: mark_running_def)
  have fail': "verify_step (update_job jid (mark_completed r now1) ?run)
      (update_job jid (mark_failed f msg now2) (update_job jid (mark_completed r now1) ?run))" for r f msg
  proof (rule failed)
    show "map_of (update_job jid (mark_completed r now1) ?run) jid = Some (mark_completed r now1 (mark_running j))"
      by (simp add: map_of_update_job assms(1))
  qed (simp add: mark_completed_def)
  from run have from_run: "verify_step ?run jobs' \<Longrightarrow> verify_steps jobs jobs'" for jobs' by (meson rtranclp.simps)
  from rtranclp.rtrancl_into_rtrancl [OF from_run [OF ended] fail'] from_run [OF ended] from_run [OF fail]
  show ?thesis by (auto simp: run_job_def Let_def split: sum.splits http_outcome.splits)
qed

lemma start_job_step:
  assumes "start_job e h fresh now jobs = Inr (jid, jobs')" and "map_of jobs fresh = None"
  shows "verify_step jobs jobs'"
  using assms by (auto simp: start_job_def bindE_Inr intro: verify_step.started)

text \<open>
  C33. The type of a job that is polled, in every table the routes and tasks can produce: its status is one of the four, a pending or running job
  has neither result nor error, a completed one has its result and no error, a failed one has its error, and the last two say when they ended.
\<close>

theorem polled_job_well_formed:
  assumes "verify_steps [] jobs" and "get_verification_status e h jid jobs = Inr j"
  shows "well_formed_job j \<and> hd_internal_secret h = Some (internal_secret e) \<and> internal_secret e \<noteq> []"
proof -
  from assms(2) have j: "map_of jobs jid = Some j" and auth: "require_internal_secret e h = Inr ()"
    by (auto simp: get_verification_status_def call_Inr)
  have "well_formed_job j" by (rule verify_steps_well_formed [OF assms(1) _ j]) simp
  then show ?thesis using auth by (auto simp: require_internal_secret_def internal_secret_def Let_def guardE_Inr)
qed

section \<open>What is reported\<close>

definition reported :: "str \<Rightarrow> http_request \<Rightarrow> pyval" where
  "reported k p = (case hr_json p of PDict d \<Rightarrow> dget d k | _ \<Rightarrow> PNone)"

lemma run_job_outcome:
  assumes "map_of jobs jid = Some j" and "run_job report report_error fr outcome answer now1 now2 jid jobs = (jobs', posts)"
  shows "\<exists>j'. map_of jobs' jid = Some j' \<and>
     (case outcome of
        Inl msg \<Rightarrow> posts = [report_error msg] \<and> vj_status j' = ''failed''
      | Inr r \<Rightarrow>
          (case answer of
             Http_Response _ _ _ \<Rightarrow> posts = [report r] \<and> vj_status j' = ''completed'' \<and> vj_result j' = Some r
           | Http_Raise _ msg \<Rightarrow>
               posts = [report r, report_error msg] \<and> vj_status j' = ''failed'' \<and> (fr msg = None \<longrightarrow> vj_result j' = Some r)))"
  using assms
  by (auto simp: run_job_def Let_def map_of_update_job mark_running_def mark_completed_def mark_failed_def split: sum.splits http_outcome.splits
      option.splits)

text \<open>
  C32. What the marketplace is told of a verification. A verification that raised is reported once, as not passed. One that returned is reported with
  its verdict; but when that callback raises on the way, its answer lost for example, the handler turns the completed job
  into a failed one and reports a second time, as not passed, whatever the verdict was.
\<close>

theorem verification_reported:
  assumes "map_of jobs jid = Some j" and "run_and_callback e api q outcome answer now1 now2 jid jobs = (jobs', posts)"
  shows "\<exists>j'. map_of jobs' jid = Some j' \<and> (\<forall>p \<in> set posts. hr_url p = verification_url api q) \<and>
     (case outcome of
        Inl _ \<Rightarrow> map (reported ''passed'') posts = [PBool False] \<and> vj_status j' = ''failed''
      | Inr r \<Rightarrow>
          (case answer of
             Http_Response _ _ _ \<Rightarrow>
               map (reported ''passed'') posts = [PBool (vr_passed r)] \<and> vj_status j' = ''completed'' \<and> vj_result j' = Some r
           | Http_Raise _ _ \<Rightarrow>
               map (reported ''passed'') posts = [PBool (vr_passed r), PBool False] \<and> vj_status j' = ''failed'' \<and> vj_result j' = Some r))"
proof -
  have "reported ''passed'' (verification_report e api q r) = PBool (vr_passed r)"
    "reported ''passed'' (verification_error_report e api q msg) = PBool False"
    "hr_url (verification_report e api q r) = verification_url api q" "hr_url (verification_error_report e api q msg) = verification_url api q" for r msg
    by (simp_all add: reported_def verification_report_def verification_error_report_def dget_def)
  note fields = this
  obtain j' where "map_of jobs' jid = Some j'" and
    "case outcome of
        Inl msg \<Rightarrow> posts = [verification_error_report e api q msg] \<and> vj_status j' = ''failed''
      | Inr r \<Rightarrow>
          (case answer of
             Http_Response _ _ _ \<Rightarrow> posts = [verification_report e api q r] \<and> vj_status j' = ''completed'' \<and> vj_result j' = Some r
           | Http_Raise _ msg \<Rightarrow>
               posts = [verification_report e api q r, verification_error_report e api q msg] \<and> vj_status j' = ''failed'' \<and>
               ((None :: verification_result option) = None \<longrightarrow> vj_result j' = Some r))"
    using run_job_outcome [OF assms(1) assms(2) [unfolded run_and_callback_def]] by (elim exE conjE) (rule that, assumption+)
  then show ?thesis
    by (intro exI [of _ j'], cases outcome; cases answer) (simp_all add: fields)
qed

lemma nonblank_Some: "nonblank v = Some s \<Longrightarrow> strip s \<noteq> []"
  by (auto simp: nonblank_def split: pyval.splits if_splits)

lemma extract_arbitrage_spec_valid:
  assumes "extract_arbitrage_spec q = Inr sp"
  shows "spec_valid sp \<and> \<not> inline_mode sp \<and> (\<exists>u. vs_url sp = Some (strip u) \<and> strip u \<noteq> [])"
  using assms by (auto simp: extract_arbitrage_spec_def Let_def spec_valid_def inline_mode_def dest: nonblank_Some split: option.splits)

lemma reported_status_body:
  "reported ''status'' (arbitrage_post e api (arbitrage_body q st p rs cs us pl)) = PStr st"
  by (simp add: reported_def arbitrage_post_def arbitrage_body_def dget_def)

text \<open>
  An arbitrage run is reported as PASSED only for a specification that the request's payload or policy gives, with a URL, whose
  deliverable passed the verifier: its hash is the expected one, or without one it satisfies the committed rubric, or without both the content was found.
\<close>

theorem arbitrage_passed_sound:
  assumes "run_arbitrage_verification_and_callback e api (\<lambda>sp c. fst (run_verification vo jid sp c)) q answer now1 now2 jid jobs = (jobs', posts)"
    and "p \<in> set posts" and "reported ''status'' p = PStr ''PASSED''"
  shows "\<exists>sp. extract_arbitrage_spec q = Inr sp \<and> spec_valid sp \<and> \<not> inline_mode sp \<and>
     (if text_of (vs_expected_hash sp) \<noteq> [] then hash_matches vo sp
      else if rubric_committed sp then rubric_satisfied vo sp else content_found vo sp)"
proof -
  let ?out = "arbitrage_outcome (\<lambda>sp c. fst (run_verification vo jid sp c)) q"
  have posts: "(\<exists>msg. p = arbitrage_post e api (arbitrage_error q msg)) \<or> (\<exists>b. ?out = Inr b \<and> p = arbitrage_post e api b)" if "p \<in> set posts" for p
    using assms(1) that
    by (auto simp: run_arbitrage_verification_and_callback_def run_job_def Let_def split: sum.splits http_outcome.splits)
  have "p \<noteq> arbitrage_post e api (arbitrage_error q msg)" for msg
    using assms(3) reported_status_body [of e api q] by (auto simp: arbitrage_error_def)
  then obtain b where b: "?out = Inr b" "p = arbitrage_post e api b" using posts [OF assms(2)] by blast
  then obtain sp r where sp: "extract_arbitrage_spec q = Inr sp"
    and run: "fst (run_verification vo jid sp (arbitrage_context q)) = Inr r" and b_eq: "b = arbitrage_result q sp r"
    by (auto simp: arbitrage_outcome_def bindE_Inr)
  have "vr_passed r"
    using assms(3) by (auto simp: b(2) b_eq arbitrage_result_def reported_status_body split: if_splits)
  moreover have "run_verification vo jid sp (arbitrage_context q) = (Inr r, snd (run_verification vo jid sp (arbitrage_context q)))"
    using run by (metis prod.collapse)
  ultimately show ?thesis using verdict_meaning extract_arbitrage_spec_valid [OF sp] sp by metis
qed

section \<open>A concrete run\<close>

lemma started_total: "pg_start (vf_page vo) = Inr () \<Longrightarrow> \<exists>r rs. run_verification vo session_id sp c = (Inr r, rs)"
  by (auto simp: run_verification_def split: prod.splits)

definition arbitrage_request_sample :: arbitrage_request where
  "arbitrage_request_sample =
     \<lparr>ar_verification_run_id = ''run1'', ar_transaction_id = ''tx'', ar_proposal_id = ''pr'', ar_method = None,
      ar_policy = [(''expectedHash'', PStr ''hb'')], ar_request_payload = [(''url'', PStr ''host'')]\<rparr>"

definition public_verifier :: verifier_ops where
  "public_verifier = sample_verifier\<lparr>vf_private := (\<lambda>a. Some False)\<rparr>"

definition routes_env :: env where
  "routes_env k = (if k = ''INTERNAL_SECRET'' then Some ''s'' else None)"

definition routes_headers :: headers where
  "routes_headers =
     \<lparr>hd_ap2_version = None, hd_ap2_pubkey = None, hd_api_key = None, hd_gateway_secret = None, hd_principal_token = None,
      hd_internal_secret = Some ''s''\<rparr>"

theorem polled_job_well_formed_witness:
  "\<exists>jobs :: verification_result verify_jobs. start_verification routes_env routes_headers ''j1'' ''t0'' [] = Inr (''j1'', jobs) \<and>
     get_verification_status routes_env routes_headers ''j1'' jobs = Inr (pending_job ''t0'') \<and>
     well_formed_job (pending_job ''t0'' :: verification_result verify_job)"
proof -
  let ?jobs = "dict_set [] ''j1'' (pending_job ''t0'') :: verification_result verify_jobs"
  have start: "start_verification routes_env routes_headers ''j1'' ''t0'' [] = Inr (''j1'', ?jobs)" by code_simp
  have "verify_steps [] ?jobs" by (rule r_into_rtranclp, rule started) simp
  moreover have get: "get_verification_status routes_env routes_headers ''j1'' ?jobs = Inr (pending_job ''t0'')" by code_simp
  ultimately have "well_formed_job (pending_job ''t0'' :: verification_result verify_job)" by (rule polled_job_well_formed [THEN conjunct1])
  with start get show ?thesis by (intro exI [of _ ?jobs] conjI)
qed

definition waiting_request :: verify_request where
  "waiting_request = \<lparr>vq_negotiation_id = None, vq_service_agreement_id = None, vq_spec = inline_spec, vq_context = sample_context\<rparr>"

text \<open>The hash matches, the callback is lost, and the buyer is told that the verification did not pass.\<close>

theorem verification_reported_witness:
  "\<exists>r rs jobs' posts. run_verification sample_verifier ''j1'' inline_spec sample_context = (Inr r, rs) \<and>
     run_and_callback routes_env ''api'' waiting_request (Inr r) (Http_Raise ''ReadTimeout'' ''timeout'') ''t1'' ''t2'' ''j1''
       [(''j1'', pending_job ''t0'')] = (jobs', posts) \<and>
     map (reported ''passed'') posts = [PBool (vr_passed r), PBool False]"
proof -
  have "inline_mode inline_spec" by code_simp
  then obtain r rs where run: "run_verification sample_verifier ''j1'' inline_spec sample_context = (Inr r, rs)"
    using inline_total by blast
  obtain jobs' posts where cb: "run_and_callback routes_env ''api'' waiting_request (Inr r) (Http_Raise ''ReadTimeout'' ''timeout'') ''t1'' ''t2'' ''j1''
       [(''j1'', pending_job ''t0'')] = (jobs', posts)" by fastforce
  have "map_of [(''j1'', pending_job ''t0'')] ''j1'' = Some (pending_job ''t0'' :: verification_result verify_job)" by simp
  from verification_reported [OF this cb] have "map (reported ''passed'') posts = [PBool (vr_passed r), PBool False]" by auto
  then show ?thesis using run cb by (intro exI conjI)
qed

theorem arbitrage_passed_sound_witness:
  "\<exists>sp. extract_arbitrage_spec arbitrage_request_sample = Inr sp \<and> hash_matches public_verifier sp"
proof -
  let ?verify = "\<lambda>sp c. fst (run_verification public_verifier ''j1'' sp c)"
  let ?sp = "case extract_arbitrage_spec arbitrage_request_sample of Inr sp \<Rightarrow> sp"
  have sp: "extract_arbitrage_spec arbitrage_request_sample = Inr ?sp" by code_simp
  let ?c = "arbitrage_context arbitrage_request_sample"
  have "\<exists>r rs. run_verification public_verifier ''j1'' ?sp ?c = (Inr r, rs)"
    by (rule started_total) code_simp
  then obtain r rs where run: "run_verification public_verifier ''j1'' ?sp ?c = (Inr r, rs)" by blast
  have hash: "hash_matches public_verifier ?sp" unfolding hash_matches_def
    by (rule exI [of _ "''b''"]) code_simp
  have given: "text_of (vs_expected_hash ?sp) \<noteq> []" by code_simp
  have passed: "vr_passed r" using verdict_meaning [OF run] hash given by simp
  obtain jobs' posts where task: "run_arbitrage_verification_and_callback routes_env ''api'' ?verify arbitrage_request_sample
      (Http_Response 200 [] None) ''t1'' ''t2'' ''j1'' [(''j1'', pending_job ''t0'')] = (jobs', posts)" by fastforce
  have "arbitrage_outcome ?verify arbitrage_request_sample = Inr (arbitrage_result arbitrage_request_sample ?sp r)"
    unfolding arbitrage_outcome_def by (subst sp) (simp add: run)
  then have posts: "posts = [arbitrage_post routes_env ''api'' (arbitrage_result arbitrage_request_sample ?sp r)]"
    using task by (auto simp: run_arbitrage_verification_and_callback_def run_job_def Let_def)
  have status: "reported ''status'' (arbitrage_post routes_env ''api'' (arbitrage_result arbitrage_request_sample ?sp r)) = PStr ''PASSED''"
    unfolding arbitrage_result_def reported_status_body using passed by simp
  have "hd posts \<in> set posts" "reported ''status'' (hd posts) = PStr ''PASSED''" using status by (simp_all add: posts)
  from arbitrage_passed_sound [OF task this] hash show ?thesis using sp by blast
qed

end
