(* ===== verification/Run_Route.thy ===== *)
theory Run_Route
  imports Gateway Execution
begin

text \<open>
  The synchronous route of \<^verbatim>\<open>main.py\<close>: how a request's fields become the prompt, the calls of the model router, \<open>run_agent\<close> with its escrow, its
  queued and its immediate runs and the persona fallback, and the negotiation of a price.

  The network is an argument that gives the outcome of the \<open>n\<close>-th request, the agent runtime one that gives its result or the class of the
  exception it raises. Texts of the source with characters outside the model's, a dash in two of them, are arguments or have \<open>--\<close> in its place.
  Wallet and escrow ids are texts: a value of another type there yields \<open>Ill_Typed\<close>.
\<close>

section \<open>The prompt\<close>

record run_request =
  rr_prompt :: "str option"
  rr_input :: pyval
  rr_task :: pyval
  rr_testContext :: bool
  rr_mode :: str
  rr_escrow_id :: "str option"
  rr_callback_url :: "str option"
  rr_skip_internal_escrow :: bool

definition bool_field :: "pyval \<Rightarrow> bool option" where
  "bool_field v = (case v of PNone \<Rightarrow> Some False | PBool b \<Rightarrow> Some b | _ \<Rightarrow> None)"

text \<open>The request model, on the fields the route reads.\<close>

definition parse_run_request :: "dict \<Rightarrow> run_request option" where
  "parse_run_request body =
     Option.bind (str_field (dget body ''prompt'')) (\<lambda>prompt.
     Option.bind (bool_field (dget body ''testContext'')) (\<lambda>probe.
     Option.bind (str_field (dget body ''mode'')) (\<lambda>mode.
     Option.bind (str_field (dget body ''escrow_id'')) (\<lambda>escrow.
     Option.bind (str_field (dget body ''callback_url'')) (\<lambda>callback.
     Option.bind (bool_field (dget body ''skip_internal_escrow'')) (\<lambda>skip.
     Some \<lparr>rr_prompt = prompt, rr_input = dget body ''input'', rr_task = dget body ''task'', rr_testContext = probe, rr_mode = opt_header mode,
           rr_escrow_id = escrow, rr_callback_url = callback, rr_skip_internal_escrow = skip\<rparr>))))))"

definition coerce_prompt_field :: "pyval \<Rightarrow> str" where
  "coerce_prompt_field v =
     (case v of PNone \<Rightarrow> [] | PStr s \<Rightarrow> strip s | PDict _ \<Rightarrow> plain_json v | PList _ \<Rightarrow> plain_json v | _ \<Rightarrow> strip (py_str v))"

definition task_text :: "pyval \<Rightarrow> str" where
  "task_text task =
     coerce_prompt_field
       (case task of
          PDict d \<Rightarrow> py_or (py_or (py_or (dget d ''description'') (dget d ''text'')) (dget d ''task'')) task
        | _ \<Rightarrow> task)"

definition add_part :: "str \<Rightarrow> str \<Rightarrow> str list \<Rightarrow> str list" where
  "add_part label s parts = (if s \<noteq> [] \<and> s \<notin> set parts then parts @ [label @ s] else parts)"

definition build_user_prompt :: "run_request \<Rightarrow> str" where
  "build_user_prompt rr =
     (let prompt = strip (opt_header (rr_prompt rr));
          parts = add_part [] (coerce_prompt_field (rr_input rr)) (if prompt \<noteq> [] then [prompt] else []) in
      strip (join [CHR 10, CHR 10]
        (if rr_task rr = PNone then parts else add_part (''Task:'' @ [CHR 10]) (task_text (rr_task rr)) parts)))"

definition prefer_sync_bundle_run :: "run_request \<Rightarrow> bool" where
  "prefer_sync_bundle_run rr \<longleftrightarrow> rr_testContext rr \<or> strip (rr_mode rr) = ''live_test''"

section \<open>The model router\<close>

definition router_result_payload :: "pyval \<Rightarrow> str \<times> dict option" where
  "router_result_payload v =
     (case v of
        PDict d \<Rightarrow> (str_or_empty (dget d ''text''), case dget d ''swarmsync'' of PDict s \<Rightarrow> Some s | _ \<Rightarrow> None)
      | _ \<Rightarrow> (str_or_empty v, None))"

definition llm_api_key :: "env \<Rightarrow> str" where
  "llm_api_key e =
     (case find (\<lambda>v. v \<noteq> []) (map (\<lambda>n. strip (opt_header (e n))) [''LLM_API_KEY'', ''SWARMSYNC_ROUTING_API_KEY'', ''ROUTING_API_KEY'']) of
        Some v \<Rightarrow> v
      | None \<Rightarrow>
          if lower (opt_header (e ''GENESIS_ALLOW_OPENROUTER_FALLBACK'')) \<in> {''1'', ''true'', ''yes''}
          then strip (opt_header (e ''OPENROUTER_API_KEY'')) else [])"

definition llm_api_url :: "env \<Rightarrow> str" where
  "llm_api_url e = (case e ''LLM_API_URL'' of None \<Rightarrow> ''https://api.swarmsync.ai/v1/chat/completions'' | Some u \<Rightarrow> u)"

text \<open>\<open>list(dict.fromkeys(...))\<close> keeps the first of equal entries.\<close>

definition router_models :: "env \<Rightarrow> str list" where
  "router_models e =
     (let primary = strip (case e ''GENESIS_LLM_MODEL'' of None \<Rightarrow> ''auto'' | Some m \<Rightarrow> m) in
      rev (remdups (rev (filter (\<lambda>m. m \<noteq> []) [primary, ''openai/gpt-5-mini'', ''openai/gpt-5.1'']))))"

definition router_request :: "env \<Rightarrow> str \<Rightarrow> str \<Rightarrow> str \<Rightarrow> str \<Rightarrow> http_request" where
  "router_request e key system user model =
     (let secret = strip (opt_header (e ''AGENT_GATEWAY_SECRET'')) in
      \<lparr>hr_url = llm_api_url e,
       hr_json = PDict
         [(''model'', PStr model),
          (''messages'', PList [PDict [(''role'', PStr ''system''), (''content'', PStr system)],
                               PDict [(''role'', PStr ''user''), (''content'', PStr user)]]),
          (''max_tokens'', PInt 2048)],
       hr_headers =
         [(''Authorization'', ''Bearer '' @ key), (''Content-Type'', ''application/json''), (''HTTP-Referer'', ''https://swarmsync.ai''),
          (''X-Title'', ''SwarmSync Agent Gateway'')] @ (if secret = [] then [] else [(''X-Agent-Gateway-Secret'', secret)])\<rparr>)"

text \<open>The chain of subscripts that ends in the content; an exception class that is not one of \<open>py_exc\<close> is a \<open>RuntimeError\<close> with its name.\<close>

definition reply_content :: "dict \<Rightarrow> py_exc + str" where
  "reply_content data =
     bindE (case dget_default data ''choices'' (PList [PDict []]) of
              PList (c # _) \<Rightarrow> Inr c
            | PList [] \<Rightarrow> Inl (RuntimeError ''IndexError'')
            | PDict _ \<Rightarrow> Inl (KeyError ''0'')
            | PStr s \<Rightarrow> if s = [] then Inl (RuntimeError ''IndexError'') else Inl AttributeError
            | _ \<Rightarrow> Inl TypeError) (\<lambda>c.
     bindE (as_dict AttributeError c) (\<lambda>choice.
     bindE (as_dict AttributeError (dget_default choice ''message'' (PDict []))) (\<lambda>msg.
     Inr (str_or_empty (dget msg ''content'')))))"

datatype reply = Answered dict | Retry gw_exc | Next_Model | Fatal gw_exc

definition out_of_credit :: "int \<Rightarrow> str \<Rightarrow> bool" where
  "out_of_credit status detail \<longleftrightarrow>
     status \<in> {400, 402} \<or> list_ex (\<lambda>x. str_in x (lower detail)) [''402'', ''credit'', ''balance'', ''quota'', ''payment'']"

definition read_answer :: "str \<Rightarrow> pyval option \<Rightarrow> reply" where
  "read_answer model parsed =
     (case bindE (bindE (optE ValueError parsed) (as_dict AttributeError))
             (\<lambda>data. bindE (reply_content data) (\<lambda>content. Inr (data, content))) of
        Inl err \<Rightarrow> Fatal (Gw_Python err)
      | Inr (data, content) \<Rightarrow>
          if strip content = [] then Retry (http 502 (''LLM router returned empty content for model='' @ model))
          else Answered
            [(''text'', PStr content), (''swarmsync'', case dget data ''swarmsync'' of PDict s \<Rightarrow> PDict s | _ \<Rightarrow> PNone),
             (''usage'', dget data ''usage''), (''model'', dget data ''model'')])"

definition read_reply :: "str \<Rightarrow> http_outcome \<Rightarrow> reply" where
  "read_reply model r =
     (case r of
        Http_Raise t msg \<Rightarrow> Fatal (Gw_Python (OSError t))
      | Http_Response status body parsed \<Rightarrow>
          if status = 429 then Retry (http 429 ''LLM router rate limit exceeded. Please retry shortly.'')
          else if \<not> (200 \<le> status \<and> status < 300) then
            (let detail = take 500 body in
             if out_of_credit status detail then Next_Model
             else Fatal (http 502 (''LLM router returned '' @ show_int status @ '': '' @ detail)))
          else read_answer model parsed)"

text \<open>One model: the reply to request \<open>k\<close>, and \<open>left\<close> more attempts. The result, if the call ends here, the last exception, the requests.\<close>

fun model_attempts :: "(nat \<Rightarrow> http_outcome) \<Rightarrow> http_request \<Rightarrow> str \<Rightarrow> nat \<Rightarrow> nat \<Rightarrow> gw_exc option
    \<Rightarrow> (gw_exc + dict) option \<times> gw_exc option \<times> http_request list" where
  "model_attempts net req model k left seen =
     (case read_reply model (net k) of
        Answered d \<Rightarrow> (Some (Inr d), seen, [req])
      | Fatal err \<Rightarrow> (Some (Inl err), seen, [req])
      | Next_Model \<Rightarrow> (None, seen, [req])
      | Retry err \<Rightarrow>
          if left = 0 then (None, Some err, [req])
          else (case model_attempts net req model (Suc k) (left - 1) (Some err) of (r, l, sent) \<Rightarrow> (r, l, req # sent)))"

fun try_router :: "(nat \<Rightarrow> http_outcome) \<Rightarrow> (str \<Rightarrow> http_request) \<Rightarrow> str list \<Rightarrow> nat \<Rightarrow> gw_exc option \<Rightarrow> (gw_exc + dict) \<times> http_request list" where
  "try_router net mk [] k seen =
     (Inl (case seen of Some err \<Rightarrow> err
           | None \<Rightarrow> http 502 ''LLM router failed for all fallback models (check LLM_API_KEY credits)''), [])"
| "try_router net mk (m # ms) k seen =
     (case model_attempts net (mk m) m k 1 seen of
        (Some r, l, sent) \<Rightarrow> (r, sent)
      | (None, l, sent) \<Rightarrow> (case try_router net mk ms (k + length sent) l of (r, sent') \<Rightarrow> (r, sent @ sent')))"

definition call_llm_router :: "env \<Rightarrow> (nat \<Rightarrow> http_outcome) \<Rightarrow> str \<Rightarrow> str \<Rightarrow> (gw_exc + dict) \<times> http_request list" where
  "call_llm_router e net system user =
     (let key = llm_api_key e in
      if key = [] then (Inl (http 503 ''LLM API key not configured (set LLM_API_KEY)''), [])
      else try_router net (router_request e key system user) (router_models e) 0 None)"

section \<open>Running an agent\<close>

datatype run_effect =
    Escrow_Request http_request
  | Runtime_Run str str dict
  | Job_Request job_request
  | Router_Request http_request

record run_response =
  rs_payload :: pyval
  rs_agentSlug :: str
  rs_agentName :: "str option"

text \<open>What a run finds: \<open>ru_escrow_import\<close> says whether the escrow client could be imported, \<open>ru_runtime\<close> whether there is a runtime, and the
  three outcomes are those of the escrow calls, of which each is made at most once.\<close>

record run_ops =
  ru_env :: env
  ru_escrow_import :: bool
  ru_escrow_config :: escrow_config
  ru_initiated :: http_outcome
  ru_completed :: http_outcome
  ru_released :: http_outcome
  ru_split :: "int \<Rightarrow> dict"
  ru_personas :: "str \<Rightarrow> (str \<times> str) option"
  ru_bundles :: bundle_dir
  ru_packs :: pack_files
  ru_runtime_import :: bool
  ru_runtime :: bool
  ru_store :: bool
  ru_execute :: "str \<Rightarrow> str \<Rightarrow> dict \<Rightarrow> str + pyval"
  ru_net :: "nat \<Rightarrow> http_outcome"
  ru_hostname :: "str \<Rightarrow> str option"
  ru_parse_qsl :: "str \<Rightarrow> (str \<times> str) list"
  ru_urlencode :: "(str \<times> str) list \<Rightarrow> str"
  ru_auth :: auth_ops
  ru_job_id :: str
  ru_stamp :: int
  ru_now :: int

definition escrow_ok :: "run_ops \<Rightarrow> bool" where
  "escrow_ok ru \<longleftrightarrow> escrow_permitted (ru_env ru) \<and> ru_escrow_import ru"

definition skip_internal_escrow :: "run_request \<Rightarrow> bool" where
  "skip_internal_escrow rr \<longleftrightarrow> nonempty (rr_escrow_id rr) \<noteq> None \<or> rr_skip_internal_escrow rr"

text \<open>\<open>s.title()\<close>: the upper-case forms of two letters, the micro sign and the y with two dots, have code points above 255; they are kept.\<close>

definition letter :: "char \<Rightarrow> bool" where
  "letter c \<longleftrightarrow>
     (let n = (of_char c :: nat) in
      (65 \<le> n \<and> n \<le> 90) \<or> (97 \<le> n \<and> n \<le> 122) \<or> n \<in> set [170, 181, 186] \<or> (192 \<le> n \<and> n \<noteq> 215 \<and> n \<noteq> 247))"

definition title_char :: "char \<Rightarrow> str" where
  "title_char c =
     (let n = (of_char c :: nat) in
      if n = 223 then ''Ss''
      else if (97 \<le> n \<and> n \<le> 122) \<or> (224 \<le> n \<and> n \<le> 254 \<and> n \<noteq> 247) then [char_of (n - 32)] else [c])"

fun title_case :: "bool \<Rightarrow> str \<Rightarrow> str" where
  "title_case inside [] = []"
| "title_case inside (c # cs) = (if inside then [lower_char c] else title_char c) @ title_case (letter c) cs"

definition persona_of :: "(str \<Rightarrow> (str \<times> str) option) \<Rightarrow> str \<Rightarrow> str \<times> str" where
  "persona_of personas slug =
     (case personas slug of
        Some persona \<Rightarrow> persona
      | None \<Rightarrow>
          let name = title_case False (replace_char (CHR ''-'') '' '' (replace_char (CHR ''_'') '' '' slug)) in
          (name, ''You are '' @ name @ '', a specialised AI agent on the SwarmSync marketplace. Respond helpfully and concisely in character.''))"

definition requested_tools :: "pyval \<Rightarrow> pyval" where
  "requested_tools task =
     (case task of
        PDict t \<Rightarrow> (case dget t ''constraints'' of PDict c \<Rightarrow> dget_default c ''allowed_tools'' (PList []) | _ \<Rightarrow> PList [])
      | _ \<Rightarrow> PList [])"

definition prohibited_requested :: "pyval \<Rightarrow> str \<Rightarrow> str list" where
  "prohibited_requested task bundle_slug =
     (case requested_tools task of
        PList ts \<Rightarrow> sort (filter (\<lambda>n. is_prohibited n (Some bundle_slug)) (map py_str ts))
      | _ \<Rightarrow> [])"

definition runtime_error_status :: "dict \<Rightarrow> int" where
  "runtime_error_status result =
     (let error = py_str (dget_default result ''error'' (PStr ''agent_failure''));
          combined = lower (error @ '' '' @ py_str (dget_default result ''message'' (PStr [])));
          mentions = (\<lambda>xs. list_ex (\<lambda>x. str_in x combined) xs) in
      if error = ''timeout'' then 504
      else if mentions [''429'', ''too many requests'', ''rate limit''] then 429
      else if mentions [''402'', ''credit'', ''payment required''] then 402
      else if error = ''success_criteria_failed'' then 422
      else if error \<in> {''tool_not_allowed'', ''file_write_limit_exceeded'', ''token_budget_exceeded'', ''llm_call_limit_exceeded''} then 429
      else 502)"

definition raise_for_runtime_failure :: "dict \<Rightarrow> str \<Rightarrow> gw_exc + unit" where
  "raise_for_runtime_failure result slug =
     guardE (truthy (dget_default result ''ok'' (PBool True)))
       (HTTPException (runtime_error_status result)
          (PDict [(''error'', dget_default result ''error'' (PStr ''agent_failure'')), (''message'', dget_default result ''message'' (PStr [])),
                  (''type'', dget result ''type''), (''agentSlug'', PStr slug)])) (Inr ())"

text \<open>The response model; a name that is no text fails its validation, with a \<open>ValueError\<close>.\<close>

definition make_response :: "pyval \<Rightarrow> str \<Rightarrow> pyval \<Rightarrow> py_exc + run_response" where
  "make_response payload slug name =
     (case str_field name of
        None \<Rightarrow> Inl ValueError
      | Some n \<Rightarrow> Inr \<lparr>rs_payload = payload, rs_agentSlug = slug, rs_agentName = n\<rparr>)"

subsection \<open>Escrow\<close>

definition escrow_wanted :: "run_ops \<Rightarrow> run_request \<Rightarrow> pyval \<Rightarrow> pyval \<Rightarrow> pyval \<Rightarrow> bool" where
  "escrow_wanted ru rr price buyer agent \<longleftrightarrow>
     escrow_ok ru \<and> \<not> skip_internal_escrow rr \<and> truthy price \<and> truthy buyer \<and> truthy agent"

definition reserve_escrow :: "run_ops \<Rightarrow> str \<Rightarrow> pyval \<Rightarrow> pyval \<Rightarrow> pyval \<Rightarrow> (gw_exc + str option) \<times> run_effect list" where
  "reserve_escrow ru slug price buyer agent =
     (case bindE (raisingE Gw_Python (to_int price)) (\<lambda>cents.
           bindE (optE Ill_Typed (text_field buyer)) (\<lambda>b. bindE (optE Ill_Typed (text_field agent)) (\<lambda>a. Inr (cents, b, a)))) of
        Inl err \<Rightarrow> (Inl err, [])
      | Inr (cents, b, a) \<Rightarrow>
          (case initiate_escrow (ru_escrow_config ru) b a cents (Some (''Genesis '' @ slug)) (Some [(''slug'', PStr slug)]) (ru_initiated ru) of
             (init, reqs) \<Rightarrow>
               (guardE (truthy (dget init ''ok'')) (http 402 (''escrow_initiate_failed: '' @ py_str (dget init ''error'')))
                  (optE Ill_Typed (str_field (dget init ''escrow_id''))), map Escrow_Request reqs)))"

text \<open>The escrow of a run, if one is wanted.\<close>

definition run_escrow :: "run_ops \<Rightarrow> run_request \<Rightarrow> str \<Rightarrow> pyval \<Rightarrow> pyval \<Rightarrow> pyval \<Rightarrow> (gw_exc + str option) \<times> run_effect list" where
  "run_escrow ru rr slug price buyer agent =
     (if escrow_wanted ru rr price buyer agent then reserve_escrow ru slug price buyer agent else (Inr None, []))"

text \<open>The refund of an escrow this gateway reserved.\<close>

definition refund_own :: "run_ops \<Rightarrow> run_request \<Rightarrow> str option \<Rightarrow> str \<Rightarrow> run_effect list" where
  "refund_own ru rr escrow reason =
     (case nonempty escrow of
        None \<Rightarrow> []
      | Some i \<Rightarrow>
          if escrow_ok ru \<and> nonempty (rr_escrow_id rr) = None
          then map Escrow_Request (snd (release_escrow (ru_escrow_config ru) i reason (ru_released ru))) else [])"

subsection \<open>Queued runs\<close>

definition queued_prompt :: "run_request \<Rightarrow> str" where
  "queued_prompt rr =
     (let prompt = build_user_prompt rr in
      if prompt \<noteq> [] then prompt else case rr_task rr of PDict d \<Rightarrow> plain_json (PDict d) | _ \<Rightarrow> [])"

definition queue_params :: "run_ops \<Rightarrow> principal \<Rightarrow> run_request \<Rightarrow> gw_exc + dict" where
  "queue_params ru p rr =
     guardE (ru_store ru) (http 503 ''job_store_unavailable'') (scoped_runtime_params (ru_parse_qsl ru) (ru_urlencode ru) (rr_task rr) p)"

text \<open>An external escrow takes the place of the run's own.\<close>

definition queue_escrow :: "run_ops \<Rightarrow> run_request \<Rightarrow> str \<Rightarrow> pyval \<Rightarrow> pyval \<Rightarrow> pyval \<Rightarrow> (gw_exc + str option) \<times> run_effect list" where
  "queue_escrow ru rr slug price buyer agent =
     (case nonempty (rr_escrow_id rr) of Some i \<Rightarrow> (Inr (Some i), []) | None \<Rightarrow> run_escrow ru rr slug price buyer agent)"

text \<open>The body of the \<open>try\<close> around the creation of the job, whose exceptions all become a 500.\<close>

definition enqueue ::
  "run_ops \<Rightarrow> principal \<Rightarrow> str \<Rightarrow> run_request \<Rightarrow> dict \<Rightarrow> pyval \<Rightarrow> str option \<Rightarrow> job_db \<Rightarrow> unit + create_result \<times> job_db \<times> job_request" where
  "enqueue ru p slug rr params price escrow db =
     bindE (case nonempty (rr_callback_url rr) of
              None \<Rightarrow> Inr ()
            | Some url \<Rightarrow> raisingE (\<lambda>_. ()) (assert_not_ssrf (ru_hostname ru) url)) (\<lambda>_.
     bindE (if truthy price then raisingE (\<lambda>_. ()) (bindE (to_int price) (\<lambda>c. Inr (Some c))) else Inr None) (\<lambda>cents.
     bindE (optE () (str_field (dget params ''buyer_wallet_id''))) (\<lambda>buyer.
     let rq = \<lparr>rq_agent_slug = slug, rq_prompt = queued_prompt rr, rq_params = Some params, rq_buyer_wallet_id = buyer, rq_buyer_client_id = None,
               rq_price_tier_cents = cents, rq_idempotency_key = None, rq_webhook_url = rr_callback_url rr, rq_webhook_secret = None,
               rq_escrow_id = escrow, rq_tenant_id = Some (tenant_id p), rq_owner_principal_id = Some (principal_id p)\<rparr> in
     bindE (raisingE (\<lambda>_. ()) (create_job (ru_job_id ru) (ru_stamp ru) rq db)) (\<lambda>(r, db'). Inr (r, db', rq)))))"

definition queued_payload :: "run_request \<Rightarrow> pyval \<Rightarrow> create_result \<Rightarrow> dict" where
  "queued_payload rr slug r =
     [(''status'', PStr (cr_status r)), (''slug'', slug), (''job_id'', PStr (cr_id r)), (''poll_url'', PStr (''/agents/jobs/'' @ cr_id r)),
      (''idempotent_hit'', PBool (cr_idempotent_hit r))]"

definition opt_entry :: "str \<Rightarrow> str option \<Rightarrow> dict" where
  "opt_entry k v = (case nonempty v of None \<Rightarrow> [] | Some t \<Rightarrow> [(k, PStr t)])"

definition queue_run ::
  "run_ops \<Rightarrow> principal \<Rightarrow> str \<Rightarrow> run_request \<Rightarrow> str \<Rightarrow> dict \<Rightarrow> pyval \<Rightarrow> job_db \<Rightarrow> (gw_exc + run_response) \<times> job_db \<times> run_effect list" where
  "queue_run ru p slug rr bundle_slug bundle name db =
     (case queue_params ru p rr of
        Inl err \<Rightarrow> (Inl err, db, [])
      | Inr params \<Rightarrow>
          let price = py_or (dget params ''price_tier_cents'') (dget bundle ''price_tier_default_cents'') in
          (case queue_escrow ru rr slug price (dget params ''buyer_wallet_id'') (dget bundle ''wallet_id'') of
             (Inl err, fx) \<Rightarrow> (Inl err, db, fx)
           | (Inr escrow, fx) \<Rightarrow>
               (case enqueue ru p slug rr params price escrow db of
                  Inl _ \<Rightarrow> (Inl (http 500 ''job_create_failed''), db, fx @ refund_own ru rr escrow ''job_create_failed'')
                | Inr (r, db', rq) \<Rightarrow>
                    (bindE (if auth_method p = ''ap2''
                            then raisingE uncaught (issue_principal_token (ao_hmac256 (ru_auth ru)) (ao_b64 (ru_auth ru)) None (ao_env (ru_auth ru))
                                   (ru_now ru) PRINCIPAL_TOKEN_TTL_SECONDS p)
                            else Inr []) (\<lambda>token.
                     raisingE Gw_Python
                       (make_response
                          (PDict (queued_payload rr (dget_default bundle ''slug'' (PStr bundle_slug)) r @ opt_entry ''principal_token'' (Some token) @
                                  opt_entry ''escrow_id'' escrow @ opt_entry ''external_escrow_id'' (rr_escrow_id rr))) slug name)),
                     db', fx @ [Job_Request rq]))))"

subsection \<open>Immediate runs\<close>

text \<open>What is done with the runtime's result: the escrow of the run is settled or refunded and noted in it, an external one is echoed, a failure is
  raised. \<open>None\<close> is an exception of another class, after which the route falls back to the persona.\<close>

definition settle_run ::
  "run_ops \<Rightarrow> run_request \<Rightarrow> str option \<Rightarrow> int \<Rightarrow> pyval \<Rightarrow> pyval \<times> run_effect list" where
  "settle_run ru rr escrow cents v =
     (case (v, nonempty escrow) of
        (PDict d, Some i) \<Rightarrow>
          if \<not> escrow_ok ru then (v, [])
          else if truthy (dget d ''ok'') then
            (case complete_escrow (ru_escrow_config ru) i ''SETTLED'' None (ru_completed ru) of
               (answer, reqs) \<Rightarrow>
                 (PDict (dict_set d ''escrow''
                    (PDict [(''escrow_id'', PStr i), (''status'', PStr ''SETTLED''), (''split'', PDict (ru_split ru cents)),
                            (''settle_response_ok'', dget_default answer ''ok'' (PBool False))])), map Escrow_Request reqs))
          else
            (case release_escrow (ru_escrow_config ru) i (py_str (dget_default d ''error'' (PStr ''agent_failure''))) (ru_released ru) of
               (rel, reqs) \<Rightarrow>
                 (PDict (dict_set d ''escrow''
                    (PDict [(''escrow_id'', PStr i), (''status'', PStr ''REFUNDED''),
                            (''release_response_ok'', dget_default rel ''ok'' (PBool False))])), map Escrow_Request reqs))
      | _ \<Rightarrow> (v, []))"

definition echo_escrow :: "run_request \<Rightarrow> pyval \<Rightarrow> pyval" where
  "echo_escrow rr v =
     (case (v, nonempty (rr_escrow_id rr)) of (PDict d, Some i) \<Rightarrow> PDict (dict_set d ''external_escrow_id'' (PStr i)) | _ \<Rightarrow> v)"

definition answer_run :: "str \<Rightarrow> pyval \<Rightarrow> pyval \<Rightarrow> (gw_exc + run_response) option" where
  "answer_run slug name v =
     (case (case v of PDict d \<Rightarrow> raise_for_runtime_failure d slug | _ \<Rightarrow> Inr ()) of
        Inl err \<Rightarrow> Some (Inl err)
      | Inr _ \<Rightarrow> (case make_response v slug name of Inl _ \<Rightarrow> None | Inr resp \<Rightarrow> Some (Inr resp)))"

definition sync_run ::
  "run_ops \<Rightarrow> principal \<Rightarrow> str \<Rightarrow> run_request \<Rightarrow> str \<Rightarrow> dict \<Rightarrow> pyval \<Rightarrow> (gw_exc + run_response) option \<times> run_effect list" where
  "sync_run ru p slug rr bundle_slug bundle name =
     (case scoped_runtime_params (ru_parse_qsl ru) (ru_urlencode ru) (rr_task rr) p of
        Inl err \<Rightarrow> (Some (Inl err), [])
      | Inr params \<Rightarrow>
          let price = dget params ''price_tier_cents''; prompt = build_user_prompt rr; call = Runtime_Run bundle_slug prompt params in
          (case run_escrow ru rr slug price (dget params ''buyer_wallet_id'') (dget bundle ''wallet_id'') of
             (Inl err, fx) \<Rightarrow> (Some (Inl err), fx)
           | (Inr escrow, fx) \<Rightarrow>
               (case ru_execute ru bundle_slug prompt params of
                  Inl cls \<Rightarrow> (None, fx @ call # refund_own ru rr escrow (''runtime_exception:'' @ cls))
                | Inr v \<Rightarrow>
                    (case settle_run ru rr escrow (case to_int price of Inl _ \<Rightarrow> 0 | Inr c \<Rightarrow> c) v of
                       (v', fx') \<Rightarrow> (answer_run slug name (echo_escrow rr v'), fx @ call # fx')))))"

subsection \<open>The persona\<close>

definition routed_provider :: "pyval \<Rightarrow> gw_exc + pyval" where
  "routed_provider routed =
     (case routed of
        PStr s \<Rightarrow> Inr (PStr (takeWhile (\<lambda>c. c \<noteq> CHR ''/'') s))
      | PList _ \<Rightarrow> Inl Ill_Typed
      | PDict _ \<Rightarrow> Inl Ill_Typed
      | _ \<Rightarrow> Inl (Gw_Python TypeError))"

definition present :: "str \<Rightarrow> pyval \<Rightarrow> dict" where
  "present k v = (if v = PNone then [] else [(k, v)])"

definition routing_entries :: "dict option \<Rightarrow> gw_exc + dict" where
  "routing_entries meta =
     (case meta of
        None \<Rightarrow> Inr []
      | Some m \<Rightarrow>
          if m = [] then Inr []
          else
            let routed = py_or (dget m ''routed_model'') (PStr []) in
            bindE (routed_provider routed) (\<lambda>provider.
            Inr [(''swarmsync'', PDict m),
                 (''routing'', PDict [(''model'', routed), (''provider'', provider), (''tier'', dget m ''tier''),
                                      (''routing_reason'', dget m ''routing_reason''), (''estimated_cost'', dget m ''estimated_cost'')])]))"

definition persona_answer :: "run_ops \<Rightarrow> str \<Rightarrow> str \<Rightarrow> str \<Rightarrow> str \<Rightarrow> str \<Rightarrow> (gw_exc + run_response) \<times> run_effect list" where
  "persona_answer ru slug bundle_slug display system prompt =
     (case call_llm_router (ru_env ru) (ru_net ru) system prompt of
        (r, sent) \<Rightarrow>
          (bindE r (\<lambda>d.
           (case router_result_payload (PDict d) of
              (text, meta) \<Rightarrow>
                bindE (routing_entries meta) (\<lambda>routing.
                raisingE Gw_Python
                  (make_response
                     (PDict ([(''ok'', PBool True), (''slug'', PStr bundle_slug), (''response'', PStr text)] @ present ''usage'' (dget d ''usage'') @
                             present ''model'' (dget d ''model'') @ routing)) slug (PStr display))))),
           map Router_Request sent))"

text \<open>Live tests and probes, which bypass the runtime.\<close>

definition probe_run ::
  "run_ops \<Rightarrow> str \<Rightarrow> run_request \<Rightarrow> str \<Rightarrow> dict \<Rightarrow> pyval \<Rightarrow> str \<Rightarrow> (gw_exc + run_response) \<times> run_effect list" where
  "probe_run ru slug rr bundle_slug bundle name system =
     (let live_slug = py_str (py_or (dget bundle ''slug'') (PStr bundle_slug));
          base = py_str (py_or (dget bundle ''system_prompt'') (PStr system));
          params = (case rr_task rr of PDict d \<Rightarrow> d | _ \<Rightarrow> []); prompt = build_user_prompt rr in
      case (if is_e4l_specialist live_slug then build_specialized_prompt (ru_packs ru) base live_slug params prompt else Inr base) of
        Inl _ \<Rightarrow> (Inl (http 500 ''accounting_entity_load_failed''), [])
      | Inr enriched \<Rightarrow> persona_answer ru slug bundle_slug (py_str name) enriched prompt)"

subsection \<open>The route\<close>

definition run_for :: "run_ops \<Rightarrow> principal \<Rightarrow> str \<Rightarrow> run_request \<Rightarrow> job_db \<Rightarrow> (gw_exc + run_response) \<times> job_db \<times> run_effect list" where
  "run_for ru p slug rr db =
     (let (display, system) = persona_of (ru_personas ru) slug;
          bundle_slug = resolve_bundle_slug slug;
          bad = prohibited_requested (rr_task rr) bundle_slug;
          refuse = (\<lambda>err. (Inl err, db, []));
          persona = (\<lambda>fx. case persona_answer ru slug bundle_slug display system (build_user_prompt rr) of (r, fx') \<Rightarrow> (r, db, fx @ fx')) in
      if bad \<noteq> [] then refuse (HTTPException 403 (PDict [(''error'', PStr ''prohibited_capability''), (''tools'', PList (map PStr bad))]))
      else if \<not> ru_runtime_import ru then refuse (http 503 ''bundle_runtime_unavailable'')
      else case load_bundle (ru_bundles ru) bundle_slug of
        None \<Rightarrow> refuse (http 404 ''agent_bundle_required'')
      | Some PNone \<Rightarrow> refuse (http 404 ''agent_bundle_required'')
      | Some (PDict bundle) \<Rightarrow>
          let name = dget_default bundle ''name'' (PStr display) in
          if prefer_sync_bundle_run rr then (case probe_run ru slug rr bundle_slug bundle name system of (r, fx) \<Rightarrow> (r, db, fx))
          else if dget bundle ''job_mode'' = PStr ''async'' then queue_run ru p slug rr bundle_slug bundle name db
          else if ru_runtime ru then
            (case sync_run ru p slug rr bundle_slug bundle name of
               (Some r, fx) \<Rightarrow> (r, db, fx)
             | (None, fx) \<Rightarrow> persona fx)
          else persona []
      | Some _ \<Rightarrow> refuse (Gw_Python AttributeError))"

definition run_agent ::
  "run_ops \<Rightarrow> int \<Rightarrow> int \<Rightarrow> headers \<Rightarrow> str \<Rightarrow> dict \<Rightarrow> nonce_store \<Rightarrow> job_db
     \<Rightarrow> (gw_exc + run_response) \<times> nonce_store \<times> job_db \<times> run_effect list" where
  "run_agent ru now wall h slug body st db =
     (case verify_agent_principal (ru_auth ru) now wall h slug body st of
        (Inl err, st') \<Rightarrow> (Inl err, st', db, [])
      | (Inr p, st') \<Rightarrow>
          (case parse_run_request body of
             None \<Rightarrow> (Inl (http 422 ''request validation''), st', db, [])
           | Some rr \<Rightarrow> (case run_for ru p slug rr db of (r, db', fx) \<Rightarrow> (r, st', db', fx))))"

section \<open>What a router call sends\<close>

declare model_attempts.simps [simp del]

lemma model_attempts_spec:
  "model_attempts net req m k left seen = (r, l, sent) \<Longrightarrow>
     sent \<noteq> [] \<and> length sent \<le> Suc left \<and> set sent \<subseteq> {req} \<and> (\<forall>d. r = Some (Inr d) \<longrightarrow> read_reply m (net (k + length sent - 1)) = Answered d)"
proof (induction left arbitrary: k seen r l sent)
  case 0
  then show ?case by (auto simp: model_attempts.simps [of net req m k 0] split: reply.splits)
next
  case (Suc n)
  show ?case
  proof (cases "\<exists>err. read_reply m (net k) = Retry err")
    case True
    then obtain err sent' where "model_attempts net req m (Suc k) n (Some err) = (r, l, sent')" and sent: "sent = req # sent'"
      using Suc.prems by (auto simp: model_attempts.simps [of net req m k "Suc n"] split: prod.splits)
    from Suc.IH [OF this(1)] show ?thesis by (auto simp: sent Suc_le_eq)
  next
    case False
    then show ?thesis using Suc.prems by (auto simp: model_attempts.simps [of net req m k "Suc n"] split: reply.splits)
  qed
qed

lemma try_router_spec:
  assumes "try_router net mk ms k seen = (r, sent)" and "distinct ms" and "inj mk"
  shows "length sent \<le> 2 * length ms \<and> set sent \<subseteq> mk ` set ms \<and> (\<forall>q. count_list sent q \<le> 2) \<and>
     (\<forall>d. r = Inr d \<longrightarrow> sent \<noteq> [] \<and> (\<exists>m. read_reply m (net (k + length sent - 1)) = Answered d))"
  using assms
proof (induction ms arbitrary: k seen sent)
  case Nil
  then show ?case by auto
next
  case (Cons m ms)
  obtain r1 l sent1 where one: "model_attempts net (mk m) m k 1 seen = (r1, l, sent1)" by (cases "model_attempts net (mk m) m k 1 seen") auto
  note S = model_attempts_spec [OF one]
  have count1: "count_list sent1 q \<le> (if q = mk m then 2 else 0)" for q
    using S count_le_length [of sent1 q] by (auto simp: count_list_0_iff)
  show ?case
  proof (cases r1)
    case (Some x)
    then have "r = x" "sent = sent1" using Cons.prems(1) one by auto
    moreover have "count_list sent1 q \<le> 2" for q using count1 [of q] by (auto split: if_splits)
    ultimately show ?thesis using S Some by auto
  next
    case None
    then obtain sent2 where two: "try_router net mk ms (k + length sent1) l = (r, sent2)" and sent: "sent = sent1 @ sent2"
      using Cons.prems(1) one by (auto split: prod.splits)
    have IH: "length sent2 \<le> 2 * length ms \<and> set sent2 \<subseteq> mk ` set ms \<and> (\<forall>q. count_list sent2 q \<le> 2) \<and>
       (\<forall>d. r = Inr d \<longrightarrow> sent2 \<noteq> [] \<and> (\<exists>m. read_reply m (net (k + length sent1 + length sent2 - 1)) = Answered d))"
      by (rule Cons.IH [OF two]) (use Cons.prems in auto)
    have "mk m \<notin> set sent2" using IH Cons.prems(2,3) by (auto dest: injD)
    then have "count_list sent q \<le> 2" for q
      using count1 [of q] IH by (cases "q = mk m") (auto simp: sent count_list_append count_list_0_iff)
    then show ?thesis using S IH by (auto simp: sent add.assoc)
  qed
qed

lemma router_models_facts: "distinct (router_models e)" "length (router_models e) \<le> 3"
proof -
  show "distinct (router_models e)" by (simp add: router_models_def Let_def)
  have "length (router_models e) \<le> length [strip (case e ''GENESIS_LLM_MODEL'' of None \<Rightarrow> ''auto'' | Some m \<Rightarrow> m), ''openai/gpt-5-mini'', ''openai/gpt-5.1'']"
    unfolding router_models_def Let_def length_rev by (rule le_trans [OF length_remdups_leq]) (simp only: length_rev length_filter_le)
  then show "length (router_models e) \<le> 3" by simp
qed

lemma router_request_inj: "inj (router_request e key system user)"
  by (rule injI) (simp add: router_request_def Let_def)

lemma read_reply_Answered:
  assumes "read_reply m r = Answered d"
  shows "\<exists>st b data t. r = Http_Response st b (Some data) \<and> 200 \<le> st \<and> st < 300 \<and> dget d ''text'' = PStr t \<and> strip t \<noteq> []"
proof (cases r)
  case (Http_Response st b parsed)
  then have ok: "200 \<le> st \<and> st < 300" and ans: "read_answer m parsed = Answered d"
    using assms by (auto simp: read_reply_def Let_def split: if_splits)
  from ans obtain data t where "parsed = Some data" "strip t \<noteq> []" "dget d ''text'' = PStr t"
    by (cases parsed) (auto simp: read_answer_def dget_def split: sum.splits prod.splits if_splits)
  with ok Http_Response show ?thesis by blast
qed (use assms in \<open>simp add: read_reply_def\<close>)

text \<open>
  A router call is bounded: whatever the router answers, at most six requests are sent, at most two of them the same, that is for one model, all to the
  configured endpoint; and a call that returns has a text that is not blank, from a 2xx answer to its last request.
\<close>

theorem router_bounded:
  assumes "call_llm_router e net system user = (r, sent)"
  shows "length sent \<le> 6 \<and> (\<forall>q. count_list sent q \<le> 2) \<and> (\<forall>q \<in> set sent. hr_url q = llm_api_url e) \<and>
    (\<forall>d. r = Inr d \<longrightarrow>
       (\<exists>st b data t. net (length sent - 1) = Http_Response st b (Some data) \<and> 200 \<le> st \<and> st < 300 \<and> dget d ''text'' = PStr t \<and> strip t \<noteq> []))"
proof (cases "llm_api_key e = []")
  case True
  then show ?thesis using assms by (auto simp: call_llm_router_def)
next
  case False
  then have "try_router net (router_request e (llm_api_key e) system user) (router_models e) 0 None = (r, sent)"
    using assms by (simp add: call_llm_router_def Let_def)
  from try_router_spec [OF this router_models_facts(1) router_request_inj]
  have spec: "length sent \<le> 2 * length (router_models e)" "set sent \<subseteq> router_request e (llm_api_key e) system user ` set (router_models e)"
    "\<forall>q. count_list sent q \<le> 2" and ans: "\<And>d. r = Inr d \<Longrightarrow> \<exists>m. read_reply m (net (length sent - 1)) = Answered d" by auto
  have "length sent \<le> 6" using spec(1) router_models_facts(2) [of e] by simp
  moreover have "\<forall>q \<in> set sent. hr_url q = llm_api_url e" using spec(2) by (auto simp: router_request_def Let_def)
  moreover have "\<exists>st b data t. net (length sent - 1) = Http_Response st b (Some data) \<and> 200 \<le> st \<and> st < 300 \<and> dget d ''text'' = PStr t \<and> strip t \<noteq> []"
    if "r = Inr d" for d using ans [OF that] by (elim exE) (rule read_reply_Answered)
  ultimately show ?thesis using spec(3) by blast
qed

section \<open>The escrow of a run\<close>

definition escrow_sent :: "run_effect list \<Rightarrow> http_request list" where
  "escrow_sent fx = concat (map (\<lambda>e. case e of Escrow_Request q \<Rightarrow> [q] | _ \<Rightarrow> []) fx)"

lemma escrow_sent_simps [simp]:
  "escrow_sent [] = []" "escrow_sent (fx @ fx') = escrow_sent fx @ escrow_sent fx'"
  "escrow_sent (Escrow_Request q # fx) = q # escrow_sent fx" "escrow_sent (Runtime_Run b t ps # fx) = escrow_sent fx"
  "escrow_sent (Job_Request rq # fx) = escrow_sent fx" "escrow_sent (map Router_Request sent) = []" "escrow_sent (map Escrow_Request qs) = qs"
  by (simp_all add: escrow_sent_def o_def)

text \<open>The id in the answer to the reservation, and the requests that close an escrow.\<close>

definition reserved_id :: "http_outcome \<Rightarrow> str option" where
  "reserved_id r =
     (case r of
        Http_Response st _ (Some (PDict d)) \<Rightarrow>
          if st = 200 \<or> st = 201 then (case escrow_id_of (PDict d) of PStr i \<Rightarrow> nonempty (Some i) | _ \<Rightarrow> None) else None
      | _ \<Rightarrow> None)"

definition closes :: "run_ops \<Rightarrow> str \<Rightarrow> http_request \<Rightarrow> bool" where
  "closes ru i q \<longleftrightarrow>
     hr_url q \<in> {ec_api_url (ru_escrow_config ru) @ ''/payments/ap2/complete'', ec_api_url (ru_escrow_config ru) @ ''/payments/ap2/release''} \<and>
     (\<exists>d. hr_json q = PDict d \<and> dget d ''escrowId'' = PStr i)"

lemma nonempty_Some [simp]: "nonempty s = Some i \<longleftrightarrow> s = Some i \<and> i \<noteq> []"
  by (auto simp: nonempty_def split: option.splits)

lemma nonempty_simps [simp]: "nonempty None = None" "i \<noteq> [] \<Longrightarrow> nonempty (Some i) = Some i"
  by (simp_all add: nonempty_def)

lemma initiate_escrow_reserved:
  assumes "reserved_id r = Some i" and "ec_internal_secret cfg \<noteq> []"
  shows "\<exists>init q. initiate_escrow cfg b a c memo meta r = (init, [q]) \<and> dget init ''ok'' = PBool True \<and> dget init ''escrow_id'' = PStr i \<and> i \<noteq> []"
proof -
  obtain st body d where r: "r = Http_Response st body (Some (PDict d))" "st = 200 \<or> st = 201" "escrow_id_of (PDict d) = PStr i" "i \<noteq> []"
    using assms(1) by (auto simp: reserved_id_def split: http_outcome.splits option.splits pyval.splits if_splits)
  then show ?thesis using assms(2) by (auto simp: initiate_escrow_def escrow_post_def dget_def)
qed

lemma run_escrow_spec:
  assumes "run_escrow ru rr slug price buyer agent = (x, fx)" and "reserved_id (ru_initiated ru) = Some i"
  shows "(fx = [] \<and> (\<forall>escrow. x = Inr escrow \<longrightarrow> escrow = None)) \<or>
     (\<exists>q. fx = [Escrow_Request q] \<and> x = Inr (Some i) \<and> i \<noteq> [] \<and> ec_internal_secret (ru_escrow_config ru) \<noteq> [] \<and>
        escrow_ok ru \<and> \<not> skip_internal_escrow rr)"
proof (cases "escrow_wanted ru rr price buyer agent")
  case False
  then show ?thesis using assms(1) by (auto simp: run_escrow_def)
next
  case True
  then have run: "reserve_escrow ru slug price buyer agent = (x, fx)" using assms(1) by (simp add: run_escrow_def)
  show ?thesis
  proof (cases "ec_internal_secret (ru_escrow_config ru) = []")
    case no_secret: True
    then show ?thesis using run
      by (auto simp: reserve_escrow_def initiate_escrow_def escrow_post_def dget_def guardE_def split: sum.splits prod.splits)
  next
    case False
    show ?thesis
    proof (cases "\<exists>err. x = Inl err \<and> fx = []")
      case refused: False
      with run obtain c b a where "(case initiate_escrow (ru_escrow_config ru) b a c (Some (''Genesis '' @ slug)) (Some [(''slug'', PStr slug)]) (ru_initiated ru) of
             (init, reqs) \<Rightarrow>
               (guardE (truthy (dget init ''ok'')) (http 402 (''escrow_initiate_failed: '' @ py_str (dget init ''error'')))
                  (optE Ill_Typed (str_field (dget init ''escrow_id''))), map Escrow_Request reqs)) = (x, fx)"
        by (auto simp: reserve_escrow_def split: sum.splits prod.splits)
      with initiate_escrow_reserved [OF assms(2) False, of b a c "Some (''Genesis '' @ slug)" "Some [(''slug'', PStr slug)]"]
      show ?thesis using True False by (auto simp: escrow_wanted_def)
    qed auto
  qed
qed

lemma release_closes:
  assumes "ec_internal_secret (ru_escrow_config ru) \<noteq> []"
  shows "\<exists>q. snd (release_escrow (ru_escrow_config ru) i reason r) = [q] \<and> closes ru i q"
  using assms by (simp add: release_escrow_def escrow_post_def closes_def dget_def)

lemma complete_closes:
  assumes "ec_internal_secret (ru_escrow_config ru) \<noteq> []"
  shows "\<exists>q. snd (complete_escrow (ru_escrow_config ru) i st None r) = [q] \<and> closes ru i q"
  using assms by (simp add: complete_escrow_def escrow_post_def closes_def dget_def)

lemma refund_own_closes:
  assumes "ec_internal_secret (ru_escrow_config ru) \<noteq> []" and "escrow_ok ru" and "\<not> skip_internal_escrow rr" and "i \<noteq> []"
  shows "\<exists>q. refund_own ru rr (Some i) reason = [Escrow_Request q] \<and> closes ru i q"
proof -
  have "nonempty (rr_escrow_id rr) = None" using assms(3) unfolding skip_internal_escrow_def by blast
  then show ?thesis using release_closes [OF assms(1), of i reason "ru_released ru"] assms(2,4) by (auto simp: refund_own_def)
qed

lemma settle_run_closes:
  assumes "ec_internal_secret (ru_escrow_config ru) \<noteq> []" and "escrow_ok ru" and "i \<noteq> []"
  shows "\<exists>v q. settle_run ru rr (Some i) c (PDict d) = (v, [Escrow_Request q]) \<and> closes ru i q"
proof -
  obtain q1 where "snd (release_escrow (ru_escrow_config ru) i (py_str (dget_default d ''error'' (PStr ''agent_failure''))) (ru_released ru)) = [q1]"
    "closes ru i q1" using release_closes [OF assms(1)] by blast
  moreover obtain q2 where "snd (complete_escrow (ru_escrow_config ru) i ''SETTLED'' None (ru_completed ru)) = [q2]" "closes ru i q2"
    using complete_closes [OF assms(1)] by blast
  ultimately show ?thesis using assms(2,3) by (auto simp: settle_run_def case_prod_beta)
qed

lemma persona_effects: "\<exists>sent. snd (persona_answer ru slug bs display system prompt) = map Router_Request sent"
  by (auto simp: persona_answer_def case_prod_beta)

lemma probe_effects: "\<exists>sent. snd (probe_run ru slug rr bs bundle name system) = map Router_Request sent"
proof -
  have "\<exists>sent. ([] :: run_effect list) = map Router_Request sent" by simp
  then show ?thesis using persona_effects by (auto simp: probe_run_def Let_def split: sum.splits)
qed

text \<open>Where an escrow the run reserved ends: the effects of a run without one, with one closed, and with one handed to the job.\<close>

definition escrow_placed :: "run_ops \<Rightarrow> str \<Rightarrow> run_effect list \<Rightarrow> bool" where
  "escrow_placed ru i fx \<longleftrightarrow>
     escrow_sent fx = [] \<or>
     (\<exists>q1 q2. escrow_sent fx = [q1, q2] \<and> closes ru i q2 \<and> (\<forall>rq. Job_Request rq \<notin> set fx)) \<or>
     (\<exists>q1 rq. escrow_sent fx = [q1] \<and> Job_Request rq \<in> set fx \<and> rq_escrow_id rq = Some i)"

lemma enqueue_escrow: "enqueue ru p slug rr params price escrow db = Inr (r, db', rq) \<Longrightarrow> rq_escrow_id rq = escrow"
  by (auto simp: enqueue_def call_Inr Let_def)

lemma queue_run_placed:
  assumes "queue_run ru p slug rr bs bundle name db = (r, db', fx)" and "reserved_id (ru_initiated ru) = Some i"
  shows "escrow_placed ru i fx"
proof (cases "queue_params ru p rr")
  case (Inl err)
  then show ?thesis using assms(1) by (auto simp: queue_run_def escrow_placed_def)
next
  case (Inr params)
  let ?price = "py_or (dget params ''price_tier_cents'') (dget bundle ''price_tier_default_cents'')"
  obtain x fx0 where esc: "queue_escrow ru rr slug ?price (dget params ''buyer_wallet_id'') (dget bundle ''wallet_id'') = (x, fx0)" by fastforce
  show ?thesis
  proof (cases "nonempty (rr_escrow_id rr)")
    case (Some ext)
    then have "x = Inr (Some ext)" "fx0 = []" "refund_own ru rr (Some ext) why = []" for why
      using esc by (auto simp: queue_escrow_def refund_own_def split: option.splits)
    then show ?thesis using assms(1) esc Inr
      by (auto simp: queue_run_def Let_def escrow_placed_def split: sum.splits if_splits)
  next
    case None
    then have "run_escrow ru rr slug ?price (dget params ''buyer_wallet_id'') (dget bundle ''wallet_id'') = (x, fx0)"
      using esc by (simp add: queue_escrow_def)
    from run_escrow_spec [OF this assms(2)] show ?thesis
    proof
      assume none: "fx0 = [] \<and> (\<forall>escrow. x = Inr escrow \<longrightarrow> escrow = None)"
      have "refund_own ru rr None why = []" for why by (simp add: refund_own_def)
      with none show ?thesis using assms(1) esc Inr
        by (auto simp: queue_run_def Let_def escrow_placed_def split: sum.splits if_splits)
    next
      assume "\<exists>q. fx0 = [Escrow_Request q] \<and> x = Inr (Some i) \<and> i \<noteq> [] \<and> ec_internal_secret (ru_escrow_config ru) \<noteq> [] \<and>
        escrow_ok ru \<and> \<not> skip_internal_escrow rr"
      then obtain q where q: "fx0 = [Escrow_Request q]" "x = Inr (Some i)" and
        own: "ec_internal_secret (ru_escrow_config ru) \<noteq> []" "escrow_ok ru" "\<not> skip_internal_escrow rr" "i \<noteq> []" by blast
      obtain q2 where q2: "refund_own ru rr (Some i) ''job_create_failed'' = [Escrow_Request q2]" "closes ru i q2"
        using refund_own_closes [OF own] by blast
      show ?thesis using assms(1) esc Inr q q2
        by (auto simp: queue_run_def Let_def escrow_placed_def enqueue_escrow split: sum.splits if_splits)
    qed
  qed
qed

lemma sync_run_placed:
  assumes "sync_run ru p slug rr bs bundle name = (r, fx)" and "reserved_id (ru_initiated ru) = Some i"
    and dict: "\<And>b t ps v. ru_execute ru b t ps = Inr v \<Longrightarrow> \<exists>d. v = PDict d"
  shows "escrow_placed ru i fx \<and> (\<forall>rq. Job_Request rq \<notin> set fx)"
proof (cases "scoped_runtime_params (ru_parse_qsl ru) (ru_urlencode ru) (rr_task rr) p")
  case (Inl err)
  then show ?thesis using assms(1) by (auto simp: sync_run_def escrow_placed_def)
next
  case (Inr params)
  let ?price = "dget params ''price_tier_cents''"
  let ?v = "ru_execute ru bs (build_user_prompt rr) params"
  obtain x fx0 where esc: "run_escrow ru rr slug ?price (dget params ''buyer_wallet_id'') (dget bundle ''wallet_id'') = (x, fx0)" by fastforce
  from run_escrow_spec [OF this assms(2)] show ?thesis
  proof
    assume none: "fx0 = [] \<and> (\<forall>escrow. x = Inr escrow \<longrightarrow> escrow = None)"
    have "refund_own ru rr None why = []" "settle_run ru rr None c v = (v, [])" for why c v
      by (simp_all add: refund_own_def settle_run_def split: pyval.splits)
    with none show ?thesis using assms(1) esc Inr
      by (auto simp: sync_run_def Let_def escrow_placed_def split: sum.splits prod.splits)
  next
    assume "\<exists>q. fx0 = [Escrow_Request q] \<and> x = Inr (Some i) \<and> i \<noteq> [] \<and> ec_internal_secret (ru_escrow_config ru) \<noteq> [] \<and>
      escrow_ok ru \<and> \<not> skip_internal_escrow rr"
    then obtain q where q: "fx0 = [Escrow_Request q]" "x = Inr (Some i)" and
      own: "ec_internal_secret (ru_escrow_config ru) \<noteq> []" "escrow_ok ru" "\<not> skip_internal_escrow rr" "i \<noteq> []" by blast
    show ?thesis
    proof (cases ?v)
      case (Inl cls)
      obtain q2 where "refund_own ru rr (Some i) (''runtime_exception:'' @ cls) = [Escrow_Request q2]" "closes ru i q2"
        using refund_own_closes [OF own] by blast
      then show ?thesis using assms(1) esc q Inl Inr by (auto simp: sync_run_def Let_def escrow_placed_def)
    next
      case result: (Inr v)
      obtain d where d: "v = PDict d" using dict [OF result] by blast
      let ?c = "case to_int ?price of Inl _ \<Rightarrow> 0 | Inr c \<Rightarrow> c"
      obtain v' q2 where "settle_run ru rr (Some i) ?c (PDict d) = (v', [Escrow_Request q2])" "closes ru i q2"
        using settle_run_closes [OF own(1,2,4)] by blast
      then show ?thesis using assms(1) esc q result Inr by (auto simp: sync_run_def Let_def escrow_placed_def d)
    qed
  qed
qed

section \<open>The ways through the route\<close>

text \<open>The bundle a run is allowed to use: no prohibited tool was asked for, the runtime is there and the slug's bundle is a JSON object.\<close>

definition runnable :: "run_ops \<Rightarrow> str \<Rightarrow> run_request \<Rightarrow> dict \<Rightarrow> bool" where
  "runnable ru slug rr bundle \<longleftrightarrow>
     prohibited_requested (rr_task rr) (resolve_bundle_slug slug) = [] \<and> ru_runtime_import ru \<and>
     load_bundle (ru_bundles ru) (resolve_bundle_slug slug) = Some (PDict bundle)"

text \<open>The five ways: refused, a probe, queued, run, and the persona after no run or one that raised.\<close>

lemma run_for_cases:
  assumes "run_for ru p slug rr db = (r, db', fx)"
    and "bs = resolve_bundle_slug slug" and "persona_of (ru_personas ru) slug = (display, system)"
  obtains (refused) err where "r = Inl err" and "db' = db" and "fx = []"
  | (probe) bd where "runnable ru slug rr bd" and "prefer_sync_bundle_run rr" and "db' = db"
      and "probe_run ru slug rr bs bd (dget_default bd ''name'' (PStr display)) system = (r, fx)"
  | (queued) bd where "runnable ru slug rr bd" and "\<not> prefer_sync_bundle_run rr" and "dget bd ''job_mode'' = PStr ''async''"
      and "queue_run ru p slug rr bs bd (dget_default bd ''name'' (PStr display)) db = (r, db', fx)"
  | (ran) bd where "runnable ru slug rr bd" and "\<not> prefer_sync_bundle_run rr" and "dget bd ''job_mode'' \<noteq> PStr ''async''"
      and "ru_runtime ru" and "db' = db" and "sync_run ru p slug rr bs bd (dget_default bd ''name'' (PStr display)) = (Some r, fx)"
  | (fell_back) bd fx0 fx1 where "runnable ru slug rr bd" and "\<not> prefer_sync_bundle_run rr" and "dget bd ''job_mode'' \<noteq> PStr ''async''"
      and "ru_runtime ru \<Longrightarrow> sync_run ru p slug rr bs bd (dget_default bd ''name'' (PStr display)) = (None, fx0)"
      and "\<not> ru_runtime ru \<Longrightarrow> fx0 = []" and "db' = db" and "fx = fx0 @ fx1"
      and "persona_answer ru slug bs display system (build_user_prompt rr) = (r, fx1)"
proof (cases "\<exists>bd. runnable ru slug rr bd")
  case False
  then show thesis using assms refused
    by (auto simp: run_for_def runnable_def Let_def split: if_splits option.splits pyval.splits)
next
  case True
  then obtain bd where run: "runnable ru slug rr bd" by blast
  then have step: "run_for ru p slug rr db =
      (let name = dget_default bd ''name'' (PStr display);
           persona = (\<lambda>fx. case persona_answer ru slug bs display system (build_user_prompt rr) of (r, fx') \<Rightarrow> (r, db, fx @ fx')) in
       if prefer_sync_bundle_run rr then (case probe_run ru slug rr bs bd name system of (r, fx) \<Rightarrow> (r, db, fx))
       else if dget bd ''job_mode'' = PStr ''async'' then queue_run ru p slug rr bs bd name db
       else if ru_runtime ru then (case sync_run ru p slug rr bs bd name of (Some r, fx) \<Rightarrow> (r, db, fx) | (None, fx) \<Rightarrow> persona fx)
       else persona [])"
    using assms(2,3) by (simp add: run_for_def runnable_def Let_def)
  let ?name = "dget_default bd ''name'' (PStr display)"
  obtain rp fxp where persona: "persona_answer ru slug bs display system (build_user_prompt rr) = (rp, fxp)" by fastforce
  consider "prefer_sync_bundle_run rr" | "\<not> prefer_sync_bundle_run rr" "dget bd ''job_mode'' = PStr ''async''"
    | "\<not> prefer_sync_bundle_run rr" "dget bd ''job_mode'' \<noteq> PStr ''async''" "ru_runtime ru"
    | "\<not> prefer_sync_bundle_run rr" "dget bd ''job_mode'' \<noteq> PStr ''async''" "\<not> ru_runtime ru" by blast
  then show thesis
  proof cases
    case 1
    then show thesis using probe [OF run] assms(1) by (auto simp: step Let_def split: prod.splits)
  next
    case 2
    then show thesis using queued [OF run] assms(1) by (auto simp: step Let_def)
  next
    case 3
    obtain res fx0 where sync: "sync_run ru p slug rr bs bd ?name = (res, fx0)" by fastforce
    show thesis
    proof (cases res)
      case None
      then have "r = rp" "db' = db" "fx = fx0 @ fxp" using 3 assms(1) sync persona by (auto simp: step Let_def)
      then show thesis using fell_back [OF run 3(1,2)] 3 sync None persona by blast
    next
      case (Some x)
      then have "r = x" "db' = db" "fx = fx0" using 3 assms(1) sync by (auto simp: step Let_def)
      then show thesis using ran [OF run 3] sync Some by blast
    qed
  next
    case 4
    then have "r = rp" "db' = db" "fx = fxp" using assms(1) persona by (auto simp: step Let_def)
    then show thesis using fell_back [OF run 4(1,2), of "[]" fxp] 4 persona by simp
  qed
qed

section \<open>What a run may do\<close>

text \<open>Each effect with what the route checked before it.\<close>

definition effect_allowed :: "run_ops \<Rightarrow> principal \<Rightarrow> str \<Rightarrow> run_request \<Rightarrow> run_effect \<Rightarrow> bool" where
  "effect_allowed ru p slug rr e \<longleftrightarrow>
     (case e of
        Escrow_Request q \<Rightarrow> escrow_permitted (ru_env ru) \<and> \<not> skip_internal_escrow rr
      | Runtime_Run b prompt params \<Rightarrow>
          b = resolve_bundle_slug slug \<and> prompt = build_user_prompt rr \<and> \<not> prefer_sync_bundle_run rr \<and>
          scoped_runtime_params (ru_parse_qsl ru) (ru_urlencode ru) (rr_task rr) p = Inr params
      | Job_Request rq \<Rightarrow>
          rq_agent_slug rq = slug \<and> rq_tenant_id rq = Some (tenant_id p) \<and> rq_owner_principal_id rq = Some (principal_id p) \<and>
          (\<exists>params. rq_params rq = Some params \<and> queue_params ru p rr = Inr params)
      | Router_Request q \<Rightarrow> hr_url q = llm_api_url (ru_env ru))"

lemma router_urls: "call_llm_router e net system user = (r, sent) \<Longrightarrow> q \<in> set sent \<Longrightarrow> hr_url q = llm_api_url e"
  using try_router_spec [OF _ router_models_facts(1) router_request_inj]
  by (fastforce simp: call_llm_router_def Let_def router_request_def split: if_splits)

lemma persona_allowed: "e \<in> set (snd (persona_answer ru slug0 bs display system prompt)) \<Longrightarrow> effect_allowed ru p slug rr e"
  using router_urls [OF prod.collapse [symmetric]]
  by (auto simp: persona_answer_def effect_allowed_def case_prod_beta)

lemma probe_allowed: "e \<in> set (snd (probe_run ru slug0 rr0 bs bundle name system)) \<Longrightarrow> effect_allowed ru p slug rr e"
  using persona_allowed by (auto simp: probe_run_def Let_def split: sum.splits)

lemma run_escrow_allowed:
  assumes "run_escrow ru rr slug price buyer agent = (x, fx)"
  shows "(\<forall>e \<in> set fx. effect_allowed ru p slug0 rr e) \<and> (\<forall>escrow. x = Inr escrow \<and> escrow \<noteq> None \<longrightarrow> escrow_ok ru \<and> \<not> skip_internal_escrow rr)"
  using assms
  by (cases "escrow_wanted ru rr price buyer agent")
    (auto simp: run_escrow_def reserve_escrow_def escrow_wanted_def escrow_ok_def effect_allowed_def split: sum.splits prod.splits)

lemma refund_own_allowed:
  assumes "e \<in> set (refund_own ru rr escrow why)" and "escrow \<noteq> None \<Longrightarrow> nonempty (rr_escrow_id rr) = None \<Longrightarrow> \<not> skip_internal_escrow rr"
  shows "effect_allowed ru p slug rr e"
  using assms by (cases escrow) (auto simp: refund_own_def effect_allowed_def escrow_ok_def split: option.splits if_splits)

lemma settle_run_allowed:
  assumes "e \<in> set (snd (settle_run ru rr escrow c v))" and "escrow \<noteq> None \<Longrightarrow> \<not> skip_internal_escrow rr"
  shows "effect_allowed ru p slug rr e"
  using assms
  by (auto simp: settle_run_def effect_allowed_def escrow_ok_def case_prod_beta split: pyval.splits option.splits if_splits)

lemma enqueue_request:
  "enqueue ru p slug rr params price escrow db = Inr (r, db', rq) \<Longrightarrow>
     rq_agent_slug rq = slug \<and> rq_tenant_id rq = Some (tenant_id p) \<and> rq_owner_principal_id rq = Some (principal_id p) \<and> rq_params rq = Some params"
  by (auto simp: enqueue_def call_Inr Let_def)

lemma queue_run_allowed:
  assumes "queue_run ru p slug rr bs bundle name db = (r, db', fx)" and "e \<in> set fx"
  shows "effect_allowed ru p slug rr e"
proof (cases "queue_params ru p rr")
  case (Inl err)
  then show ?thesis using assms by (simp add: queue_run_def)
next
  case (Inr params)
  let ?price = "py_or (dget params ''price_tier_cents'') (dget bundle ''price_tier_default_cents'')"
  obtain x fx0 where esc: "queue_escrow ru rr slug ?price (dget params ''buyer_wallet_id'') (dget bundle ''wallet_id'') = (x, fx0)" by fastforce
  have E: "(\<forall>e \<in> set fx0. effect_allowed ru p slug rr e) \<and>
      (\<forall>escrow. x = Inr escrow \<and> escrow \<noteq> None \<and> nonempty (rr_escrow_id rr) = None \<longrightarrow> \<not> skip_internal_escrow rr)"
    using esc run_escrow_allowed by (fastforce simp: queue_escrow_def split: option.splits)
  show ?thesis
  proof (cases x)
    case (Inl err)
    then show ?thesis using assms esc Inr E by (auto simp: queue_run_def Let_def)
  next
    case escrow: (Inr escrow)
    show ?thesis
    proof (cases "enqueue ru p slug rr params ?price escrow db")
      case (Inl err)
      then have "e \<in> set fx0 \<or> e \<in> set (refund_own ru rr escrow ''job_create_failed'')"
        using assms esc Inr escrow by (auto simp: queue_run_def Let_def)
      then show ?thesis using E escrow refund_own_allowed by blast
    next
      case made: (Inr a)
      obtain res db1 rq where a: "a = (res, db1, rq)" by (cases a) auto
      then have "e \<in> set fx0 \<or> e = Job_Request rq" using assms esc Inr escrow made by (auto simp: queue_run_def Let_def)
      then show ?thesis using E enqueue_request [OF made [unfolded a]] Inr by (auto simp: effect_allowed_def)
    qed
  qed
qed

lemma sync_run_allowed:
  assumes "sync_run ru p slug rr (resolve_bundle_slug slug) bundle name = (r, fx)" and "e \<in> set fx" and "\<not> prefer_sync_bundle_run rr"
  shows "effect_allowed ru p slug rr e"
proof (cases "scoped_runtime_params (ru_parse_qsl ru) (ru_urlencode ru) (rr_task rr) p")
  case (Inl err)
  then show ?thesis using assms by (simp add: sync_run_def)
next
  case (Inr params)
  let ?price = "dget params ''price_tier_cents''" and ?bs = "resolve_bundle_slug slug"
  let ?call = "Runtime_Run ?bs (build_user_prompt rr) params"
  obtain x fx0 where esc: "run_escrow ru rr slug ?price (dget params ''buyer_wallet_id'') (dget bundle ''wallet_id'') = (x, fx0)" by fastforce
  note E = run_escrow_allowed [OF this, of p slug]
  have call: "effect_allowed ru p slug rr ?call" using Inr assms(3) by (simp add: effect_allowed_def)
  show ?thesis
  proof (cases x)
    case (Inl err)
    then show ?thesis using assms esc Inr E by (auto simp: sync_run_def Let_def)
  next
    case escrow: (Inr escrow)
    then have own: "escrow \<noteq> None \<Longrightarrow> \<not> skip_internal_escrow rr" using E by blast
    show ?thesis
    proof (cases "ru_execute ru ?bs (build_user_prompt rr) params")
      case (Inl cls)
      then have "e \<in> set fx0 \<or> e = ?call \<or> e \<in> set (refund_own ru rr escrow (''runtime_exception:'' @ cls))"
        using assms esc Inr escrow by (auto simp: sync_run_def Let_def)
      then show ?thesis using E call own refund_own_allowed by blast
    next
      case result: (Inr v)
      let ?c = "case to_int ?price of Inl _ \<Rightarrow> 0 | Inr c \<Rightarrow> c"
      have "e \<in> set fx0 \<or> e = ?call \<or> e \<in> set (snd (settle_run ru rr escrow ?c v))"
        using assms esc Inr escrow result by (auto simp: sync_run_def Let_def split: prod.splits)
      then show ?thesis using E call own settle_run_allowed by blast
    qed
  qed
qed

text \<open>
  C4. A run has effects only behind the route's checks. If it changes the job table, calls the runtime, the router or the escrow service at all, no
  tool it asked for is prohibited and its slug has a bundle; escrow requests are sent only in the marketplace profile, and not when the caller has an
  escrow or asked for none; the runtime gets the composed prompt and the tenant's own context; a queued job belongs to the caller.
\<close>

theorem run_effects_gated:
  assumes "run_for ru p slug rr db = (r, db', fx)" and "fx \<noteq> [] \<or> db' \<noteq> db"
  shows "(\<exists>bundle. runnable ru slug rr bundle) \<and> (\<forall>e \<in> set fx. effect_allowed ru p slug rr e)"
proof -
  obtain display system where persona: "persona_of (ru_personas ru) slug = (display, system)" by fastforce
  from assms(1) refl this show ?thesis
  proof (cases rule: run_for_cases)
    case refused
    then show ?thesis using assms(2) by simp
  next
    case (probe bd)
    then show ?thesis using probe_allowed by (metis snd_conv)
  next
    case (queued bd)
    then show ?thesis using queue_run_allowed by blast
  next
    case (ran bd)
    then show ?thesis using sync_run_allowed by blast
  next
    case (fell_back bd fx0 fx1)
    have "\<forall>e \<in> set fx1. effect_allowed ru p slug rr e" using persona_allowed fell_back(8) by (metis snd_conv)
    moreover have "\<forall>e \<in> set fx0. effect_allowed ru p slug rr e"
      using fell_back(2,4,5) sync_run_allowed by (cases "ru_runtime ru") auto
    ultimately show ?thesis using fell_back(1,7) by auto
  qed
qed

text \<open>
  C5. No escrow is left open. When the answer to the one reservation a run can make carries an id, the run
  either closes that escrow with exactly one more request, a settlement or a refund, and queues no job, or it queues the job
  with that id for the worker to close; so on every path, refused callbacks and raising runtimes included. Assumed: the runtime returns dictionaries.
\<close>

theorem run_escrow_never_left_open:
  assumes "run_for ru p slug rr db = (r, db', fx)" and "reserved_id (ru_initiated ru) = Some i"
    and dict: "\<And>b t ps v. ru_execute ru b t ps = Inr v \<Longrightarrow> \<exists>d. v = PDict d"
  shows "escrow_sent fx = [] \<or>
     (\<exists>q1 q2. escrow_sent fx = [q1, q2] \<and> closes ru i q2 \<and> (\<forall>rq. Job_Request rq \<notin> set fx)) \<or>
     (\<exists>q1 rq. escrow_sent fx = [q1] \<and> Job_Request rq \<in> set fx \<and> rq_escrow_id rq = Some i)"
proof -
  obtain display system where "persona_of (ru_personas ru) slug = (display, system)" by fastforce
  from assms(1) refl this have "escrow_placed ru i fx"
  proof (cases rule: run_for_cases)
    case refused
    then show ?thesis by (simp add: escrow_placed_def)
  next
    case (probe bd)
    then show ?thesis using probe_effects by (metis escrow_placed_def escrow_sent_simps(6) snd_conv)
  next
    case (queued bd)
    then show ?thesis using queue_run_placed assms(2) by blast
  next
    case (ran bd)
    then show ?thesis using sync_run_placed assms(2) dict by blast
  next
    case (fell_back bd fx0 fx1)
    obtain sent where sent: "fx1 = map Router_Request sent" using persona_effects fell_back(8) by (metis snd_conv)
    have "escrow_placed ru i fx0 \<and> (\<forall>rq. Job_Request rq \<notin> set fx0)"
    proof (cases "ru_runtime ru")
      case True
      show ?thesis by (rule sync_run_placed [OF fell_back(4) [OF True] assms(2) dict])
    next
      case False
      then show ?thesis using fell_back(5) by (simp add: escrow_placed_def)
    qed
    then show ?thesis by (auto simp: escrow_placed_def fell_back(7) sent)
  qed
  then show ?thesis by (simp add: escrow_placed_def)
qed

section \<open>How a failed run is answered\<close>

lemma runtime_error_status_range: "runtime_error_status d \<in> {402, 422, 429, 502, 504}"
  by (simp add: runtime_error_status_def Let_def)

lemma settled_result:
  "\<exists>d' fx. settle_run ru rr escrow c (PDict d) = (PDict d', fx) \<and> dget_default d' ''ok'' v = dget_default d ''ok'' v"
  by (auto simp: settle_run_def dget_default_def case_prod_beta split: option.splits)

lemma echoed_result: "\<exists>d'. echo_escrow rr (PDict d) = PDict d' \<and> dget_default d' ''ok'' v = dget_default d ''ok'' v"
  by (auto simp: echo_escrow_def dget_default_def split: option.splits)

lemma ok_first: "dget ((''ok'', v) # d) ''ok'' = v"
  by (simp add: dget_def)

lemma persona_ok:
  "fst (persona_answer ru slug bs display system prompt) = Inr resp \<Longrightarrow> \<exists>d. rs_payload resp = PDict d \<and> dget d ''ok'' = PBool True"
  by (auto simp: persona_answer_def case_prod_beta bindE_Inr raisingE_Inr make_response_def ok_first)

text \<open>
  How an immediate run that fails is answered. A result of the runtime that is not ok never becomes a 200: it is raised with one of five statuses.
  But a runtime that raises an exception is not reported at all: the persona's prompt is sent to the model router instead, and what comes back is
  answered as an ok run, without tools, budgets or evidence.
\<close>

theorem run_failures_answered:
  assumes run: "run_for ru p slug rr db = (r, db', fx)" and ok: "runnable ru slug rr bd" "\<not> prefer_sync_bundle_run rr"
      "dget bd ''job_mode'' \<noteq> PStr ''async''" "ru_runtime ru"
    and params: "scoped_runtime_params (ru_parse_qsl ru) (ru_urlencode ru) (rr_task rr) p = Inr params"
    and escrow: "run_escrow ru rr slug (dget params ''price_tier_cents'') (dget params ''buyer_wallet_id'') (dget bd ''wallet_id'') = (Inr escrow, fx0)"
    and result: "ru_execute ru (resolve_bundle_slug slug) (build_user_prompt rr) params = result"
  shows "(\<forall>d. result = Inr (PDict d) \<and> \<not> truthy (dget_default d ''ok'' (PBool True)) \<longrightarrow>
            (\<exists>st detail. r = Inl (HTTPException st detail) \<and> st \<in> {402, 422, 429, 502, 504})) \<and>
     (\<forall>cls. result = Inl cls \<longrightarrow>
        r = (case persona_of (ru_personas ru) slug of
               (display, system) \<Rightarrow> fst (persona_answer ru slug (resolve_bundle_slug slug) display system (build_user_prompt rr))) \<and>
        (\<forall>resp. r = Inr resp \<longrightarrow> (\<exists>d. rs_payload resp = PDict d \<and> dget d ''ok'' = PBool True)))"
proof -
  obtain display system where persona: "persona_of (ru_personas ru) slug = (display, system)" by fastforce
  let ?bs = "resolve_bundle_slug slug" and ?name = "dget_default bd ''name'' (PStr display)"
  have step: "run_for ru p slug rr db =
      (case sync_run ru p slug rr ?bs bd ?name of
         (Some r, fx) \<Rightarrow> (r, db, fx)
       | (None, fx) \<Rightarrow> (case persona_answer ru slug ?bs display system (build_user_prompt rr) of (r, fx') \<Rightarrow> (r, db, fx @ fx')))"
    using ok persona by (simp add: run_for_def runnable_def Let_def)
  show ?thesis
  proof (intro conjI allI impI)
    fix d assume d: "result = Inr (PDict d) \<and> \<not> truthy (dget_default d ''ok'' (PBool True))"
    let ?c = "case to_int (dget params ''price_tier_cents'') of Inl _ \<Rightarrow> 0 | Inr c \<Rightarrow> c"
    obtain d1 fx1 where d1: "settle_run ru rr escrow ?c (PDict d) = (PDict d1, fx1)"
      "dget_default d1 ''ok'' (PBool True) = dget_default d ''ok'' (PBool True)" using settled_result by blast
    obtain d2 where d2: "echo_escrow rr (PDict d1) = PDict d2" "dget_default d2 ''ok'' (PBool True) = dget_default d1 ''ok'' (PBool True)"
      using echoed_result by blast
    have "fst (sync_run ru p slug rr ?bs bd ?name) = Some (Inl (HTTPException (runtime_error_status d2)
          (PDict [(''error'', dget_default d2 ''error'' (PStr ''agent_failure'')), (''message'', dget_default d2 ''message'' (PStr [])),
                  (''type'', dget d2 ''type''), (''agentSlug'', PStr slug)])))"
      using d d1 d2 by (simp add: sync_run_def params escrow result Let_def answer_run_def raise_for_runtime_failure_def guardE_def)
    then show "\<exists>st detail. r = Inl (HTTPException st detail) \<and> st \<in> {402, 422, 429, 502, 504}"
      using run runtime_error_status_range [of d2] by (auto simp: step case_prod_beta)
  next
    fix cls assume "result = Inl cls"
    then have "fst (sync_run ru p slug rr ?bs bd ?name) = None" by (simp add: sync_run_def params escrow result Let_def)
    then have r: "r = fst (persona_answer ru slug ?bs display system (build_user_prompt rr))"
      using run by (auto simp: step case_prod_beta)
    then show "r = (case persona_of (ru_personas ru) slug of
               (display, system) \<Rightarrow> fst (persona_answer ru slug ?bs display system (build_user_prompt rr)))" by (simp add: persona)
    show "\<exists>d. rs_payload resp = PDict d \<and> dget d ''ok'' = PBool True" if "r = Inr resp" for resp
      using persona_ok r that by metis
  qed
qed

section \<open>What a signature covers\<close>

lemma verify_agent_principal_input:
  "verify_agent_principal ao now wall h slug (dict_set body ''input'' v) st = verify_agent_principal ao now wall h slug body st"
proof -
  have "verify_ap2_envelope ed fi reg c st cur wl (dict_set body ''input'' v) hv hp sc = verify_ap2_envelope ed fi reg c st cur wl body hv hp sc"
    for ed fi reg c cur wl hv hp sc
    by (simp only: verify_ap2_envelope_def) (simp add: dget_dict_set_other)
  moreover have "assert_envelope_binds_request (dict_set body ''input'' v) slug = assert_envelope_binds_request body slug"
    by (simp only: assert_envelope_binds_request_def) (simp add: dget_dict_set_other)
  ultimately show ?thesis by (simp only: verify_agent_principal_def)
qed

lemma parse_run_request_input:
  "parse_run_request body = Some rr \<Longrightarrow> parse_run_request (dict_set body ''input'' v) = Some (rr\<lparr>rr_input := v\<rparr>)"
  by (auto simp: parse_run_request_def dget_dict_set_other Option.bind_eq_Some_conv)

lemma dropWhile_stop: "ys \<noteq> [] \<Longrightarrow> \<not> P (hd ys) \<Longrightarrow> dropWhile P (xs @ ys) = dropWhile P xs @ ys"
  by (induction xs) (cases ys; simp)+

text \<open>Stripping keeps what stands between two characters that are no space.\<close>

lemma strip_keeps:
  assumes "s \<noteq> []" and "\<not> is_space (hd s)" and "\<not> is_space (last s)"
  shows "\<exists>rest. strip (s @ t) = s @ rest"
proof -
  have "dropWhile is_space (s @ t) = s @ t" using assms(1,2) by (cases s) auto
  then have "strip (s @ t) = rev (dropWhile is_space (rev t @ rev s))" by (simp add: strip_def)
  also have "\<dots> = s @ rev (dropWhile is_space (rev t))" using assms(1,3) by (simp add: dropWhile_stop hd_rev)
  finally show ?thesis by blast
qed

lemma last_dropWhile: "dropWhile P xs \<noteq> [] \<Longrightarrow> last (dropWhile P xs) = last xs"
  by (induction xs) auto

lemma strip_ends:
  assumes "strip s \<noteq> []"
  shows "\<not> is_space (hd (strip s))" and "\<not> is_space (last (strip s))"
proof -
  let ?u = "dropWhile is_space s"
  have ne: "dropWhile is_space (rev ?u) \<noteq> []" using assms by (simp add: strip_def)
  have u: "?u \<noteq> []"
  proof
    assume "?u = []"
    then show False using ne by (simp only: rev.simps dropWhile.simps)
  qed
  have "hd (strip s) = hd ?u" using last_dropWhile [OF ne] u by (simp add: strip_def hd_rev last_rev)
  then show "\<not> is_space (hd (strip s))" using hd_dropWhile [OF u] by simp
  have "last (strip s) = hd (dropWhile is_space (rev ?u))" using ne by (simp add: strip_def last_rev)
  then show "\<not> is_space (last (strip s))" using hd_dropWhile [OF ne] by simp
qed

text \<open>
  The signature of an AP2 request does not cover the instructions that are run. The binding compares the signed task with \<open>prompt\<close>, while the route
  composes its prompt of \<open>prompt\<close>, \<open>input\<close> and \<open>task\<close>: whatever text is put into \<open>input\<close>, the caller is authenticated in the same way,
  and the agent reads that text after the signed one.
\<close>

theorem run_instructions_unsigned:
  assumes "parse_run_request body = Some rr" and p: "p = strip (opt_header (rr_prompt rr))" "p \<noteq> []"
    and x: "strip x = x" "x \<noteq> []" "x \<noteq> p"
  shows "verify_agent_principal ao now wall h slug (dict_set body ''input'' (PStr x)) st = verify_agent_principal ao now wall h slug body st \<and>
     (\<exists>rr' rest. parse_run_request (dict_set body ''input'' (PStr x)) = Some rr' \<and> build_user_prompt rr' = p @ [CHR 10, CHR 10] @ x @ rest)"
proof
  let ?rr = "rr\<lparr>rr_input := PStr x\<rparr>"
  let ?s = "p @ [CHR 10, CHR 10] @ x"
  have "coerce_prompt_field (PStr x) = x" by (simp add: coerce_prompt_field_def x(1))
  then have parts: "add_part [] (coerce_prompt_field (rr_input ?rr)) [p] = [p, x]" using x by (simp add: add_part_def)
  have "\<exists>t. build_user_prompt ?rr = strip (?s @ t)"
  proof (cases "rr_task rr = PNone")
    case True
    then show ?thesis using parts p by (intro exI [of _ "[]"]) (simp add: build_user_prompt_def Let_def)
  next
    case False
    then show ?thesis using parts p
      by (cases "task_text (rr_task rr) \<noteq> [] \<and> task_text (rr_task rr) \<notin> {p, x}")
        (auto simp: build_user_prompt_def Let_def add_part_def intro: exI [of _ "[]"])
  qed
  moreover have "?s \<noteq> []" "\<not> is_space (hd ?s)" "\<not> is_space (last ?s)"
    using p strip_ends(1) [of "opt_header (rr_prompt rr)"] strip_ends(2) [of x] x by auto
  ultimately obtain rest where "build_user_prompt ?rr = ?s @ rest" using strip_keeps by metis
  then show "\<exists>rr' rest. parse_run_request (dict_set body ''input'' (PStr x)) = Some rr' \<and> build_user_prompt rr' = p @ [CHR 10, CHR 10] @ x @ rest"
    using parse_run_request_input [OF assms(1)] by (intro exI [of _ ?rr] exI [of _ rest]) simp
qed (rule verify_agent_principal_input)

section \<open>Concrete runs\<close>

text \<open>A paid run in the marketplace profile whose runtime raises: the escrow is refunded, and the model answers in its place.\<close>

definition sample_run_env :: env where
  "sample_run_env k =
     (if k = ''LLM_API_KEY'' then Some ''key'' else if k = PROFILE_ENV_VAR then Some PROFILE_MARKETPLACE else None)"

definition sample_ops :: run_ops where
  "sample_ops =
     \<lparr>ru_env = sample_run_env, ru_escrow_import = True, ru_escrow_config = \<lparr>ec_api_url = ''api'', ec_internal_secret = ''s''\<rparr>,
      ru_initiated = Http_Response 200 [] (Some (PDict [(''id'', PStr ''e1'')])), ru_completed = Http_Raise ''T'' [],
      ru_released = Http_Response 200 [] (Some PNone), ru_split = (\<lambda>_. []), ru_personas = (\<lambda>_. None),
      ru_bundles = (\<lambda>s. if s = ''demo'' then Some (Some (PDict [(''wallet_id'', PStr ''w'')])) else None), ru_packs = no_packs,
      ru_runtime_import = True, ru_runtime = True, ru_store = True, ru_execute = (\<lambda>_ _ _. Inl ''RuntimeError''),
      ru_net = (\<lambda>_. Http_Response 200 []
        (Some (PDict [(''choices'', PList [PDict [(''message'', PDict [(''content'', PStr ''hello'')])]])]))),
      ru_hostname = (\<lambda>_. None), ru_parse_qsl = (\<lambda>_. []), ru_urlencode = (\<lambda>_. []), ru_auth = gw_ops, ru_job_id = ''j1'', ru_stamp = 0,
      ru_now = 0\<rparr>"

definition paid_request :: run_request where
  "paid_request =
     \<lparr>rr_prompt = Some ''go'', rr_input = PNone, rr_task = PDict [(''price_tier_cents'', PInt 5), (''buyer_wallet_id'', PStr ''b'')],
      rr_testContext = False, rr_mode = [], rr_escrow_id = None, rr_callback_url = None, rr_skip_internal_escrow = False\<rparr>"

lemma sample_run:
  "map hr_url (escrow_sent (snd (snd (run_for sample_ops sample_principal ''demo'' paid_request empty_db)))) =
     [''api/payments/ap2/initiate'', ''api/payments/ap2/release'']"
  by code_simp

lemma sample_runnable: "runnable sample_ops ''demo'' paid_request [(''wallet_id'', PStr ''w'')]" "\<not> prefer_sync_bundle_run paid_request"
  by code_simp+

lemma sample_persona_answers:
  "case fst (run_for sample_ops sample_principal ''demo'' paid_request empty_db) of Inl _ \<Rightarrow> False | Inr resp \<Rightarrow> rs_agentName resp = Some ''Demo''"
  by code_simp

lemma sample_split:
  obtains r db' fx where "run_for sample_ops sample_principal ''demo'' paid_request empty_db = (r, db', fx)"
    and "map hr_url (escrow_sent fx) = [''api/payments/ap2/initiate'', ''api/payments/ap2/release'']"
    and "\<exists>resp. r = Inr resp \<and> rs_agentName resp = Some ''Demo''"
proof -
  obtain r db' fx where run: "run_for sample_ops sample_principal ''demo'' paid_request empty_db = (r, db', fx)" using prod_cases3 .
  have "\<exists>resp. r = Inr resp \<and> rs_agentName resp = Some ''Demo''"
    using sample_persona_answers unfolding run fst_conv by (cases r) simp_all
  then show thesis using that [OF run] sample_run unfolding run snd_conv by blast
qed

theorem router_bounded_witness:
  "\<exists>r sent d. call_llm_router sample_run_env (ru_net sample_ops) [] ''go'' = (r, sent) \<and> length sent \<le> 6 \<and> r = Inr d \<and>
     (\<exists>t. dget d ''text'' = PStr t \<and> strip t \<noteq> [])"
proof -
  let ?call = "call_llm_router sample_run_env (ru_net sample_ops) [] ''go''"
  have "case fst ?call of Inl _ \<Rightarrow> False | Inr d \<Rightarrow> True" by code_simp
  then obtain d where d: "fst ?call = Inr d" by (cases "fst ?call") simp_all
  note B = router_bounded [OF prod.collapse [symmetric], of sample_run_env "ru_net sample_ops" "[]" "''go''"]
  from B d have "\<exists>t. dget d ''text'' = PStr t \<and> strip t \<noteq> []" by blast
  moreover have "?call = (Inr d, snd ?call)" using d by (metis prod.collapse)
  moreover have "length (snd ?call) \<le> 6" using B by (rule conjunct1)
  ultimately show ?thesis by blast
qed

theorem run_effects_gated_witness:
  "\<exists>r db' fx q. run_for sample_ops sample_principal ''demo'' paid_request empty_db = (r, db', fx) \<and> Escrow_Request q \<in> set fx \<and>
     escrow_permitted (ru_env sample_ops)"
proof -
  obtain r db' fx where run: "run_for sample_ops sample_principal ''demo'' paid_request empty_db = (r, db', fx)"
    and urls: "map hr_url (escrow_sent fx) = [''api/payments/ap2/initiate'', ''api/payments/ap2/release'']" by (rule sample_split)
  from urls have ne: "escrow_sent fx \<noteq> []" by auto
  then obtain q where "q \<in> set (escrow_sent fx)" by (cases "escrow_sent fx") auto
  then have q: "Escrow_Request q \<in> set fx" by (auto simp: escrow_sent_def split: run_effect.splits if_splits)
  then have "fx \<noteq> []" by auto
  then have "effect_allowed sample_ops sample_principal ''demo'' paid_request (Escrow_Request q)"
    using run_effects_gated [OF run] q by blast
  then show ?thesis using run q by (auto simp: effect_allowed_def)
qed

theorem run_escrow_never_left_open_witness:
  "\<exists>r db' fx q1 q2. run_for sample_ops sample_principal ''demo'' paid_request empty_db = (r, db', fx) \<and> escrow_sent fx = [q1, q2] \<and>
     closes sample_ops ''e1'' q2"
proof -
  obtain r db' fx where run: "run_for sample_ops sample_principal ''demo'' paid_request empty_db = (r, db', fx)"
    and urls: "map hr_url (escrow_sent fx) = [''api/payments/ap2/initiate'', ''api/payments/ap2/release'']" by (rule sample_split)
  from urls have two: "length (escrow_sent fx) = 2" by (metis length_map length_Cons list.size(3) numeral_2_eq_2)
  have "reserved_id (ru_initiated sample_ops) = Some ''e1''" by code_simp
  then have "escrow_sent fx = [] \<or>
     (\<exists>q1 q2. escrow_sent fx = [q1, q2] \<and> closes sample_ops ''e1'' q2 \<and> (\<forall>rq. Job_Request rq \<notin> set fx)) \<or>
     (\<exists>q1 rq. escrow_sent fx = [q1] \<and> Job_Request rq \<in> set fx \<and> rq_escrow_id rq = Some ''e1'')"
    by (rule run_escrow_never_left_open [OF run]) (simp add: sample_ops_def)
  then show ?thesis using run two by auto
qed

theorem run_failures_answered_witness:
  "\<exists>r db' fx resp d. run_for sample_ops sample_principal ''demo'' paid_request empty_db = (r, db', fx) \<and> r = Inr resp \<and>
     rs_payload resp = PDict d \<and> dget d ''ok'' = PBool True \<and> (\<forall>b t ps. ru_execute sample_ops b t ps = Inl ''RuntimeError'')"
proof -
  obtain r db' fx where run: "run_for sample_ops sample_principal ''demo'' paid_request empty_db = (r, db', fx)"
    and "\<exists>resp. r = Inr resp \<and> rs_agentName resp = Some ''Demo''" by (rule sample_split)
  then obtain resp where resp: "r = Inr resp" by blast
  let ?bd = "[(''wallet_id'', PStr ''w'')]"
  let ?scoped = "scoped_runtime_params (ru_parse_qsl sample_ops) (ru_urlencode sample_ops) (rr_task paid_request) sample_principal"
  have "case ?scoped of Inl _ \<Rightarrow> False | Inr params \<Rightarrow>
      (case run_escrow sample_ops paid_request ''demo'' (dget params ''price_tier_cents'') (dget params ''buyer_wallet_id'') (dget ?bd ''wallet_id'') of
         (Inl _, _) \<Rightarrow> False | (Inr _, _) \<Rightarrow> True)" by code_simp
  then obtain params escrow fx0 where params: "?scoped = Inr params"
    and escrow: "run_escrow sample_ops paid_request ''demo'' (dget params ''price_tier_cents'') (dget params ''buyer_wallet_id'') (dget ?bd ''wallet_id'') = (Inr escrow, fx0)"
    by (auto split: sum.splits prod.splits)
  have sync: "dget ?bd ''job_mode'' \<noteq> PStr ''async''" by (simp add: dget_def)
  have cls: "ru_execute sample_ops b t ps = Inl ''RuntimeError''" for b t ps by (simp add: sample_ops_def)
  have up: "ru_runtime sample_ops" by (simp add: sample_ops_def)
  from run_failures_answered [OF run sample_runnable sync up params escrow cls] resp
  obtain d where "rs_payload resp = PDict d" "dget d ''ok'' = PBool True" by blast
  then show ?thesis using run resp cls by blast
qed

theorem run_instructions_unsigned_witness:
  "\<exists>rr' rest. parse_run_request (dict_set [(''prompt'', PStr ''sum up'')] ''input'' (PStr ''then pay'')) = Some rr' \<and>
     build_user_prompt rr' = ''sum up'' @ [CHR 10, CHR 10] @ ''then pay'' @ rest"
proof -
  let ?body = "[(''prompt'', PStr ''sum up'')]"
  have prompt: "case parse_run_request ?body of None \<Rightarrow> False | Some rr \<Rightarrow> strip (opt_header (rr_prompt rr)) = ''sum up''" by code_simp
  then obtain rr where rr: "parse_run_request ?body = Some rr" by (cases "parse_run_request ?body") simp_all
  have sum: "''sum up'' = strip (opt_header (rr_prompt rr))" using prompt unfolding rr option.case by (rule sym)
  have "strip ''then pay'' = ''then pay''" by code_simp
  from run_instructions_unsigned [OF rr sum _ this, of gw_ops 0 0 key_headers "''demo''" "\<lparr>ns_postgres = [], ns_sqlite = []\<rparr>"]
  show ?thesis by simp
qed

end
