(* ===== verification/Negotiation.thy ===== *)
theory Negotiation
  imports Run_Route
begin

text \<open>
  The negotiation of a price in \<^verbatim>\<open>main.py\<close>: the route, the evaluation by the agent's persona and the callback.

  The budget is the text Python prints for it. The JSON parser, \<open>urlparse(...).netloc\<close> (\<open>None\<close> when it raises), the network and the clock are
  arguments, and so is the fixed end of the prompt, which has a dash outside the model's characters; the one in the notes of the default
  decision is written \<open>--\<close>.
\<close>

section \<open>The decision\<close>

record negotiate_request =
  nq_negotiation_id :: str
  nq_requester_agent_name :: str
  nq_responder_agent_id :: str
  nq_requested_service :: str
  nq_budget :: str
  nq_requirements :: dict
  nq_notes :: "str option"
  nq_callback_url :: str

record negotiation_ops =
  ng_env :: env
  ng_personas :: "str \<Rightarrow> (str \<times> str) option"
  ng_form :: str
  ng_net :: "nat \<Rightarrow> http_outcome"
  ng_loads :: "str \<Rightarrow> pyval option"
  ng_netloc :: "str \<Rightarrow> str option"
  ng_api_url :: str
  ng_secret :: str
  ng_answer :: http_outcome
  ng_delivery :: str

definition negotiation_prompt :: "str \<Rightarrow> negotiate_request \<Rightarrow> str" where
  "negotiation_prompt form q =
     join [CHR 10]
       [''You have received an inbound service request via the AP2 protocol.'', [], ''Requester: '' @ nq_requester_agent_name q,
        ''Service requested: '' @ nq_requested_service q, ''Budget offered: $'' @ nq_budget q,
        ''Requirements: '' @ (if nq_requirements q = [] then ''None'' else py_str (PDict (nq_requirements q))),
        ''Notes: '' @ (case nonempty (nq_notes q) of None \<Rightarrow> ''None'' | Some n \<Rightarrow> n), [], form]"

definition default_decision :: "negotiate_request \<Rightarrow> dict" where
  "default_decision q =
     [(''status'', PStr ''REJECTED''), (''price'', PFloat (nq_budget q)),
      (''notes'', PStr ''LLM evaluation unavailable -- auto-rejected to prevent unintended commitments.'')]"

text \<open>A Markdown fence around the answer is dropped.\<close>

definition unfence :: "str \<Rightarrow> str" where
  "unfence s =
     (if startswith s ''```'' then
        (let lines = splitlines s in
         join [CHR 10] (if strip (last lines) = ''```'' then butlast (tl lines) else tl lines))
      else s)"

definition DECISIONS :: "str list" where
  "DECISIONS = [''ACCEPTED'', ''REJECTED'', ''COUNTERED'']"

text \<open>Anything but an object with a known status ends in the default, also by way of an exception.\<close>

definition read_decision :: "(str \<Rightarrow> pyval option) \<Rightarrow> str \<Rightarrow> dict option" where
  "read_decision loads s =
     (case loads s of
        Some (PDict d) \<Rightarrow> (case map_of d ''status'' of Some (PStr st) \<Rightarrow> if st \<in> set DECISIONS then Some d else None | _ \<Rightarrow> None)
      | _ \<Rightarrow> None)"

definition evaluate_negotiation :: "negotiation_ops \<Rightarrow> str \<Rightarrow> negotiate_request \<Rightarrow> dict \<times> http_request list" where
  "evaluate_negotiation ng slug q =
     (case call_llm_router (ng_env ng) (ng_net ng) (snd (persona_of (ng_personas ng) slug)) (negotiation_prompt (ng_form ng) q) of
        (Inl _, sent) \<Rightarrow> (default_decision q, sent)
      | (Inr raw, sent) \<Rightarrow>
          (case read_decision (ng_loads ng) (unfence (strip (fst (router_result_payload (PDict raw))))) of
             None \<Rightarrow> (default_decision q, sent)
           | Some d \<Rightarrow> (d, sent)))"

section \<open>The callback\<close>

definition assert_callback_url_trusted :: "(str \<Rightarrow> str option) \<Rightarrow> str \<Rightarrow> str \<Rightarrow> py_exc + unit" where
  "assert_callback_url_trusted netloc api_url callback_url =
     bindE (optE ValueError (netloc api_url)) (\<lambda>allowed.
     bindE (optE ValueError (netloc callback_url)) (\<lambda>incoming.
     guardE (lower incoming \<noteq> [] \<and> lower incoming = lower allowed) ValueError (Inr ())))"

text \<open>Whether there is nothing more to do, and the request.\<close>

definition send_negotiate_callback :: "negotiation_ops \<Rightarrow> str \<Rightarrow> dict \<Rightarrow> bool \<times> http_request list" where
  "send_negotiate_callback ng callback_url payload =
     (case assert_callback_url_trusted (ng_netloc ng) (ng_api_url ng) callback_url of
        Inl _ \<Rightarrow> (False, [])
      | Inr _ \<Rightarrow>
          ((case ng_answer ng of
              Http_Response status _ _ \<Rightarrow> (200 \<le> status \<and> status < 300) \<or> (400 \<le> status \<and> status < 500)
            | Http_Raise _ _ \<Rightarrow> False),
           [\<lparr>hr_url = callback_url, hr_json = PDict payload,
             hr_headers = [(''Content-Type'', ''application/json''), (''x-agent-gateway-secret'', ng_secret ng)]\<rparr>]))"

definition negotiation_reply :: "negotiation_ops \<Rightarrow> negotiate_request \<Rightarrow> dict \<Rightarrow> dict" where
  "negotiation_reply ng q d =
     [(''negotiationId'', PStr (nq_negotiation_id q)), (''responderAgentId'', PStr (nq_responder_agent_id q)),
      (''status'', dget_default d ''status'' (PStr ''ACCEPTED'')),
      (''price'', dget_default d (if dget d ''status'' = PStr ''COUNTERED'' then ''counter_budget'' else ''price'') (PFloat (nq_budget q))),
      (''notes'', dget_default d ''notes'' (PStr ''Auto-evaluated by agent gateway'')), (''estimatedDelivery'', PStr (ng_delivery ng @ ''Z''))]"

text \<open>The background task: the requests to the router, and those to the callback.\<close>

definition evaluate_and_respond :: "negotiation_ops \<Rightarrow> str \<Rightarrow> negotiate_request \<Rightarrow> http_request list \<times> http_request list" where
  "evaluate_and_respond ng slug q =
     (case evaluate_negotiation ng slug q of
        (d, sent) \<Rightarrow> (sent, snd (send_negotiate_callback ng (nq_callback_url q) (negotiation_reply ng q d))))"

definition negotiate_agent :: "env \<Rightarrow> headers \<Rightarrow> str \<Rightarrow> negotiate_request \<Rightarrow> gw_exc + dict" where
  "negotiate_agent e h slug q =
     bindE (verify_gateway_key e h) (\<lambda>_.
     Inr [(''status'', PStr ''evaluating''), (''negotiation_id'', PStr (nq_negotiation_id q)), (''agent'', PStr slug)])"

section \<open>What the marketplace is told\<close>

lemma evaluate_negotiation_status:
  assumes "evaluate_negotiation ng slug q = (d, sent)"
  shows "\<exists>st \<in> set DECISIONS. map_of d ''status'' = Some (PStr st)"
proof (cases "d = default_decision q")
  case True
  then have "map_of d ''status'' = Some (PStr ''REJECTED'')" by (simp add: default_decision_def)
  then show ?thesis by (auto simp: DECISIONS_def)
next
  case False
  then obtain s where "read_decision (ng_loads ng) s = Some d"
    using assms by (auto simp: evaluate_negotiation_def split: prod.splits sum.splits option.splits)
  then show ?thesis by (auto simp: read_decision_def split: option.splits pyval.splits if_splits)
qed

lemma reply_status: "map_of d ''status'' = Some v \<Longrightarrow> dget (negotiation_reply ng q d) ''status'' = v"
  by (simp add: negotiation_reply_def dget_def dget_default_def)

text \<open>
  The marketplace is sent at most one decision, only to its own host, and always one of the three: the secret of the gateway goes nowhere else.
  Where the model could not be asked, whatever the reason, the decision is a rejection at the offered budget, so that no agent is committed by an outage.
\<close>

theorem negotiation_answered:
  assumes "evaluate_and_respond ng slug q = (asked, told)"
  shows "length told \<le> 1 \<and>
    (\<forall>r \<in> set told. hr_url r = nq_callback_url q \<and>
       (\<exists>host own. ng_netloc ng (nq_callback_url q) = Some host \<and> ng_netloc ng (ng_api_url ng) = Some own \<and> lower host = lower own \<and> host \<noteq> []) \<and>
       (\<exists>d st. hr_json r = PDict d \<and> dget d ''status'' = PStr st \<and> st \<in> set DECISIONS \<and>
          ((\<exists>err. fst (call_llm_router (ng_env ng) (ng_net ng) (snd (persona_of (ng_personas ng) slug)) (negotiation_prompt (ng_form ng) q)) = Inl err) \<longrightarrow>
             st = ''REJECTED'' \<and> dget d ''price'' = PFloat (nq_budget q))))"
proof -
  let ?router = "call_llm_router (ng_env ng) (ng_net ng) (snd (persona_of (ng_personas ng) slug)) (negotiation_prompt (ng_form ng) q)"
  obtain d sent where d: "evaluate_negotiation ng slug q = (d, sent)" by fastforce
  then have told: "told = snd (send_negotiate_callback ng (nq_callback_url q) (negotiation_reply ng q d))"
    using assms by (simp add: evaluate_and_respond_def)
  obtain st where st: "st \<in> set DECISIONS" "map_of d ''status'' = Some (PStr st)" using evaluate_negotiation_status [OF d] by blast
  have rejected: "st = ''REJECTED'' \<and> dget (negotiation_reply ng q d) ''price'' = PFloat (nq_budget q)" if "fst ?router = Inl err" for err
  proof -
    have "d = default_decision q" using d that by (auto simp: evaluate_negotiation_def split: prod.splits)
    then show ?thesis using st(2) by (auto simp: default_decision_def negotiation_reply_def dget_def dget_default_def)
  qed
  show ?thesis
  proof (cases "assert_callback_url_trusted (ng_netloc ng) (ng_api_url ng) (nq_callback_url q)")
    case (Inl err)
    then show ?thesis by (simp add: told send_negotiate_callback_def)
  next
    case (Inr u)
    then obtain host own where host: "ng_netloc ng (nq_callback_url q) = Some host" "ng_netloc ng (ng_api_url ng) = Some own"
      "lower host = lower own" "lower host \<noteq> []"
      by (auto simp: assert_callback_url_trusted_def call_Inr)
    have told1: "\<exists>hs. told = [\<lparr>hr_url = nq_callback_url q, hr_json = PDict (negotiation_reply ng q d), hr_headers = hs\<rparr>]"
      using Inr by (simp add: told send_negotiate_callback_def)
    have "host \<noteq> []" using host(4) by (auto simp: lower_def)
    with told1 host(1-3) st(1) reply_status [OF st(2)] rejected show ?thesis by fastforce
  qed
qed

section \<open>A concrete negotiation\<close>

text \<open>A router that is not configured, and a model that counters.\<close>

definition sample_negotiation :: negotiation_ops where
  "sample_negotiation =
     \<lparr>ng_env = (\<lambda>_. None), ng_personas = (\<lambda>_. None), ng_form = [], ng_net = (\<lambda>_. Http_Raise ''ConnectError'' []), ng_loads = (\<lambda>_. None),
      ng_netloc = (\<lambda>u. Some (take 4 u)), ng_api_url = ''host'', ng_secret = ''s'', ng_answer = Http_Response 200 [] None, ng_delivery = ''T''\<rparr>"

definition sample_offer :: negotiate_request where
  "sample_offer =
     \<lparr>nq_negotiation_id = ''n1'', nq_requester_agent_name = ''A'', nq_responder_agent_id = ''B'', nq_requested_service = ''audit'', nq_budget = ''10.0'',
      nq_requirements = [], nq_notes = None, nq_callback_url = ''HOST/cb''\<rparr>"

theorem negotiation_answered_witness:
  "\<exists>r d. snd (evaluate_and_respond sample_negotiation ''x'' sample_offer) = [r] \<and> hr_json r = PDict d \<and> dget d ''status'' = PStr ''REJECTED''"
proof -
  let ?told = "snd (evaluate_and_respond sample_negotiation ''x'' sample_offer)"
  have told: "map hr_url ?told = [''HOST/cb'']" by code_simp
  then obtain r where r: "?told = [r]" by auto
  have "fst (call_llm_router (ng_env sample_negotiation) (ng_net sample_negotiation) (snd (persona_of (ng_personas sample_negotiation) ''x''))
      (negotiation_prompt (ng_form sample_negotiation) sample_offer)) = Inl (http 503 ''LLM API key not configured (set LLM_API_KEY)'')"
    by code_simp
  with negotiation_answered [OF prod.collapse [symmetric], of sample_negotiation "''x''" sample_offer] r
  show ?thesis by auto
qed

end
