(* ===== verification/Finance.thy ===== *)
theory Finance
  imports Envelope Worker "HOL-Library.Multiset"
begin

text \<open>
  The finance report (\<^verbatim>\<open>tools/finance_tool.py\<close>), the one tool of the money domain that computes: validation of the caller's transactions,
  totals in integer minor units, the margin in basis points, and the envelope they are returned in. The other tools of the module answer
  that they are not implemented or not configured.

  A list of transactions is a JSON value, as the model sends it. \<open>Inl\<close> of a class name is the exception the tool's own handler catches.
\<close>

section \<open>Validation\<close>

definition upper_letter :: "char \<Rightarrow> bool" where
  "upper_letter c \<longleftrightarrow> (let n = (of_char c :: nat) in (65 \<le> n \<and> n \<le> 90) \<or> (192 \<le> n \<and> n \<le> 222 \<and> n \<noteq> 215))"

text \<open>\<open>str.isdigit\<close> also holds of the superscripts.\<close>

definition digit_char :: "char \<Rightarrow> bool" where
  "digit_char c \<longleftrightarrow> (let n = (of_char c :: nat) in (48 \<le> n \<and> n \<le> 57) \<or> n \<in> set [178, 179, 185])"

definition all_digits :: "str \<Rightarrow> bool" where
  "all_digits s \<longleftrightarrow> s \<noteq> [] \<and> list_all digit_char s"

definition valid_currency :: "pyval \<Rightarrow> bool" where
  "valid_currency v \<longleftrightarrow> (case v of PStr s \<Rightarrow> length s = 3 \<and> list_all upper_letter s | _ \<Rightarrow> False)"

definition valid_date :: "pyval \<Rightarrow> bool" where
  "valid_date v \<longleftrightarrow>
     (case v of
        PStr s \<Rightarrow> 10 \<le> length s \<and> s ! 4 = CHR ''-'' \<and> s ! 7 = CHR ''-'' \<and> all_digits (take 4 s) \<and> all_digits (take 2 (drop 5 s)) \<and>
                  all_digits (take 2 (drop 8 s))
      | _ \<Rightarrow> False)"

definition valid_period :: "pyval \<Rightarrow> bool" where
  "valid_period v \<longleftrightarrow>
     (case v of
        PStr s \<Rightarrow>
          (length s = 7 \<and> s ! 4 = CHR ''-'' \<and> all_digits (take 4 s) \<and> all_digits (drop 5 s)) \<or>
          (length s = 21 \<and> s ! 10 = CHR ''/'' \<and> valid_date (PStr (take 10 s)) \<and> valid_date (PStr (drop 11 s)))
      | _ \<Rightarrow> False)"

definition REPORT_SOURCES :: "str list" where
  "REPORT_SOURCES = [''caller_supplied'', ''xero_export'']"

definition TX_TYPES :: "str list" where
  "TX_TYPES = [''expense'', ''income'', ''transfer'']"

definition violation :: "str \<Rightarrow> str \<Rightarrow> str \<Rightarrow> pyval" where
  "violation field rule received = PDict [(''field'', PStr field), (''rule'', PStr rule), (''received_type'', PStr received)]"

definition check :: "bool \<Rightarrow> str \<Rightarrow> str \<Rightarrow> pyval \<Rightarrow> pyval list" where
  "check ok field rule v = (if ok then [] else [violation field rule (py_type_name v)])"

text \<open>\<open>v in names\<close> for a set of names; a value that has no hash raises.\<close>

definition in_names :: "pyval \<Rightarrow> str list \<Rightarrow> str + bool" where
  "in_names v names =
     (case v of PList _ \<Rightarrow> Inl ''TypeError'' | PDict _ \<Rightarrow> Inl ''TypeError'' | PStr s \<Rightarrow> Inr (s \<in> set names) | _ \<Rightarrow> Inr False)"

definition str_between :: "nat \<Rightarrow> nat \<Rightarrow> pyval \<Rightarrow> bool" where
  "str_between lo hi v \<longleftrightarrow> (case v of PStr s \<Rightarrow> lo \<le> length s \<and> length s \<le> hi | _ \<Rightarrow> False)"

definition report_violations :: "pyval \<Rightarrow> pyval \<Rightarrow> pyval \<Rightarrow> pyval \<Rightarrow> str + pyval list" where
  "report_violations transactions currency period source =
     bindE (in_names source REPORT_SOURCES) (\<lambda>known. Inr
       (check (case transactions of PList _ \<Rightarrow> True | _ \<Rightarrow> False) ''transactions'' ''required_list'' transactions @
        check (valid_currency currency) ''currency'' ''required_iso4217_uppercase_3'' currency @
        check (valid_period period) ''period'' ''required_YYYY-MM_or_YYYY-MM-DD/YYYY-MM-DD'' period @
        check known ''source'' (''required_enum_'' @ py_repr (PList (map PStr REPORT_SOURCES))) source))"

definition amount_ok :: "pyval \<Rightarrow> bool" where
  "amount_ok v \<longleftrightarrow> (case v of PInt i \<Rightarrow> 0 \<le> i | _ \<Rightarrow> False)"

definition tx_violations :: "pyval \<Rightarrow> nat \<Rightarrow> pyval \<Rightarrow> str + pyval list" where
  "tx_violations currency idx tx =
     (let at = ''transactions['' @ show_int (int idx) @ '']'' in
      case tx of
        PDict d \<Rightarrow>
          bindE (in_names (dget d ''type'') TX_TYPES) (\<lambda>known. Inr
            (check (valid_date (dget d ''date'')) (at @ ''.date'') ''rfc3339_date'' (dget d ''date'') @
             check (str_between 1 255 (dget d ''description'')) (at @ ''.description'') ''str_1_255'' (dget d ''description'') @
             check (amount_ok (dget d ''amount_minor'')) (at @ ''.amount_minor'') ''int_minor_units_gte_0'' (dget d ''amount_minor'') @
             check known (at @ ''.type'') (''enum_'' @ py_repr (PList (map PStr TX_TYPES))) (dget d ''type'') @
             (if \<not> valid_currency (dget d ''currency'')
              then [violation (at @ ''.currency'') ''required_iso4217_uppercase_3'' (py_type_name (dget d ''currency''))]
              else if dget d ''currency'' \<noteq> currency then [violation (at @ ''.currency'') ''must_equal_report_currency'' ''str''] else []) @
             (if dget d ''type'' = PStr ''expense''
              then check (str_between 1 64 (dget d ''category'')) (at @ ''.category'') ''required_str_1_64_for_expense'' (dget d ''category'')
              else [])))
      | _ \<Rightarrow> Inr [violation at ''must_be_object'' (py_type_name tx)])"

definition all_tx_violations :: "pyval \<Rightarrow> pyval list \<Rightarrow> str + pyval list" where
  "all_tx_violations currency txs =
     bindE (mapE (\<lambda>(i, tx). tx_violations currency i tx) (enumerate 0 txs)) (\<lambda>vs. Inr (concat vs))"

section \<open>Totals\<close>

text \<open>Fields of a transaction that was validated.\<close>

definition tx_amount :: "dict \<Rightarrow> int" where
  "tx_amount d = (case dget d ''amount_minor'' of PInt i \<Rightarrow> i | _ \<Rightarrow> 0)"

definition tx_text :: "dict \<Rightarrow> str \<Rightarrow> str" where
  "tx_text d k = py_str (dget d k)"

definition is_type :: "str \<Rightarrow> dict \<Rightarrow> bool" where
  "is_type t d \<longleftrightarrow> dget d ''type'' = PStr t"

record totals =
  total_income :: int
  total_expenses :: int
  by_category :: "(str \<times> int) list"
  monthly_income :: "(str \<times> int) list"
  monthly_expenses :: "(str \<times> int) list"
  expense_items :: "dict list"

definition no_totals :: totals where
  "no_totals = \<lparr>total_income = 0, total_expenses = 0, by_category = [], monthly_income = [], monthly_expenses = [], expense_items = []\<rparr>"

definition get0 :: "(str \<times> int) list \<Rightarrow> str \<Rightarrow> int" where
  "get0 m k = (case map_of m k of Some a \<Rightarrow> a | None \<Rightarrow> 0)"

definition add_to :: "(str \<times> int) list \<Rightarrow> str \<Rightarrow> int \<Rightarrow> (str \<times> int) list" where
  "add_to m k a = dict_set m k (get0 m k + a)"

definition add_tx :: "totals \<Rightarrow> dict \<Rightarrow> totals" where
  "add_tx t d =
     (let a = tx_amount d; month = take 7 (tx_text d ''date'') in
      if is_type ''income'' d then
        t\<lparr>total_income := total_income t + a, monthly_income := add_to (monthly_income t) month a\<rparr>
      else if is_type ''expense'' d then
        t\<lparr>total_expenses := total_expenses t + a, monthly_expenses := add_to (monthly_expenses t) month a,
          by_category := add_to (by_category t) (tx_text d ''category'') a,
          expense_items := expense_items t @ [[(''description'', dget d ''description''), (''category'', dget d ''category''),
                                               (''amount_minor'', PInt a), (''date'', dget d ''date'')]]\<rparr>
      else t)"

definition totals_of :: "dict list \<Rightarrow> totals" where
  "totals_of txs = foldl add_tx no_totals txs"

section \<open>Basis points\<close>

text \<open>The quotient of two integers, the second positive, rounded half to even; the decimal context rounds every result to 28 digits in
  that way, \<open>quantize\<close> raises when its result has more.\<close>

definition round_half_even :: "int \<Rightarrow> int \<Rightarrow> int" where
  "round_half_even p q =
     (let f = p div q; r = p mod q in
      if 2 * r < q then f else if 2 * r > q then f + 1 else if even f then f else f + 1)"

definition int_digits :: "int \<Rightarrow> nat" where
  "int_digits n = (if n = 0 then 0 else length (dec_digits (nat \<bar>n\<bar>)))"

text \<open>The decimal \<open>p / q\<close> as a fraction. Below a tenth the context keeps more places than 28, which no later rounding to an integer sees.\<close>

definition decimal_round :: "int \<Rightarrow> int \<Rightarrow> int \<times> int" where
  "decimal_round p q =
     (let n = int_digits (\<bar>p\<bar> div q) in
      if n \<le> 28 then (round_half_even (p * 10 ^ (28 - n)) q, 10 ^ (28 - n))
      else (round_half_even p (q * 10 ^ (n - 28)) * 10 ^ (n - 28), 1))"

definition decimal_int :: "int \<Rightarrow> int" where
  "decimal_int p = (case decimal_round p 1 of (m, scale) \<Rightarrow> m div scale)"

definition basis_points :: "int \<Rightarrow> int \<Rightarrow> str + int" where
  "basis_points numerator denominator =
     (if denominator = 0 then Inr 0
      else
        let (m, scale) = decimal_round (decimal_int (numerator * 10000) * sgn denominator) \<bar>denominator\<bar>;
            value = round_half_even m scale in
        if 28 < int_digits value then Inl ''InvalidOperation'' else Inr value)"

section \<open>The report\<close>

definition month_row :: "totals \<Rightarrow> str \<Rightarrow> pyval" where
  "month_row t m =
     PDict [(''month'', PStr m), (''income_minor'', PInt (get0 (monthly_income t) m)), (''expenses_minor'', PInt (get0 (monthly_expenses t) m)),
            (''net_minor'', PInt (get0 (monthly_income t) m - get0 (monthly_expenses t) m))]"

definition all_months :: "totals \<Rightarrow> str list" where
  "all_months t = sort (remdups (map fst (monthly_income t) @ map fst (monthly_expenses t)))"

definition top_expenses :: "totals \<Rightarrow> pyval list" where
  "top_expenses t = map PDict (take 5 (sort_key (\<lambda>x. - tx_amount x) (expense_items t)))"

definition report_body :: "pyval \<Rightarrow> pyval \<Rightarrow> pyval \<Rightarrow> dict list \<Rightarrow> str + dict" where
  "report_body currency period source txs =
     (let t = totals_of txs; net = total_income t - total_expenses t in
      bindE (basis_points net (total_income t)) (\<lambda>margin. Inr
        [(''period'', period), (''currency'', currency), (''source'', source), (''total_income_minor'', PInt (total_income t)),
         (''total_expenses_minor'', PInt (total_expenses t)), (''net_profit_minor'', PInt net), (''profit_margin_bp'', PInt margin),
         (''expense_breakdown_minor'', PDict (map (\<lambda>(k, a). (k, PInt a)) (sort_items True (by_category t)))),
         (''monthly_breakdown'', PList (map (month_row t) (all_months t))),
         (''top_expenses'', PList (top_expenses t)), (''transaction_count'', PInt (int (length txs)))]))"

definition dict_items :: "pyval list \<Rightarrow> dict list" where
  "dict_items vs = map (\<lambda>v. case v of PDict d \<Rightarrow> d | _ \<Rightarrow> []) vs"

definition wrong_class :: "py_exc \<Rightarrow> str" where
  "wrong_class e = ''ValueError''"

definition report_envelope :: "(str \<Rightarrow> str) \<Rightarrow> str \<Rightarrow> str \<Rightarrow> str \<Rightarrow> pyval \<Rightarrow> pyval \<Rightarrow> pyval \<Rightarrow> pyval list \<Rightarrow> str + dict" where
  "report_envelope sha256 rid now1 now2 currency period source txs =
     bindE (report_body currency period source (dict_items txs)) (\<lambda>body.
     let checksum = sha256_hex sha256 (PDict body);
         report = body @ [(''generated_at'', PStr now1), (''result_checksum'', PStr checksum)] in
     raisingE wrong_class
       (success rid ''finance_generate_finance_report'' ''READ_ONLY'' (PDict [(''report'', PDict report)])
         (PDict (read_evidence now2 (if truthy source then py_str source else ''caller_supplied'')
            (sha256_hex sha256 (PStr (canonical_json (PDict [(''transactions'', PList txs), (''currency'', currency), (''period'', period)]))))
            (int (length txs)) checksum None None))
         None False))"

definition report_or_refusal :: "(str \<Rightarrow> str) \<Rightarrow> str \<Rightarrow> str \<Rightarrow> str \<Rightarrow> pyval \<Rightarrow> pyval \<Rightarrow> pyval \<Rightarrow> pyval \<Rightarrow> str + dict" where
  "report_or_refusal sha256 rid now1 now2 transactions currency period source =
     (let refuse = (\<lambda>vs. raisingE wrong_class
            (validation_failed rid ''finance_generate_finance_report'' vs ''Input violated the tool contract.'')) in
      bindE (report_violations transactions currency period source) (\<lambda>vs.
      if vs \<noteq> [] then refuse vs
      else let txs = (case transactions of PList l \<Rightarrow> l | _ \<Rightarrow> []) in
      bindE (all_tx_violations currency txs) (\<lambda>vs.
      if vs \<noteq> [] then refuse vs else report_envelope sha256 rid now1 now2 currency period source txs)))"

definition finance_generate_finance_report ::
  "(str \<Rightarrow> str) \<Rightarrow> str \<Rightarrow> str \<Rightarrow> str \<Rightarrow> dict \<Rightarrow> py_exc + dict" where
  "finance_generate_finance_report sha256 rid now1 now2 args =
     (case report_or_refusal sha256 rid now1 now2 (dget args ''transactions'') (dget args ''currency'') (dget args ''period'') (dget args ''source'') of
        Inr env \<Rightarrow> Inr env
      | Inl cls \<Rightarrow> from_exception rid ''finance_generate_finance_report'' cls ''upstream_timeout'' None None (Some 2000))"

section \<open>Rounding\<close>

lemma near_abs: "2 * \<bar>a - b\<bar> \<le> q \<Longrightarrow> 2 * \<bar>a\<bar> \<le> q + 2 * \<bar>b\<bar> \<and> 2 * a \<le> q + 2 * b \<and> 2 * b \<le> q + 2 * a" for a b q :: int
  by (auto simp: abs_if split: if_splits)

lemma round_half_even_exact: "0 < q \<Longrightarrow> round_half_even (a * q) q = a"
  by (simp add: round_half_even_def Let_def)

lemma round_half_even_one [simp]: "round_half_even p 1 = p"
  using round_half_even_exact [of 1 p] by simp

lemma round_half_even_near: "0 < q \<Longrightarrow> 2 * \<bar>round_half_even p q * q - p\<bar> \<le> q"
proof -
  assume q: "0 < q"
  obtain f r where fr: "f = p div q" "r = p mod q" by simp
  then have p: "p = f * q + r" and r: "0 \<le> r" "r < q" using q by simp_all
  have "round_half_even p q = f \<and> 2 * r \<le> q \<or> round_half_even p q = f + 1 \<and> q \<le> 2 * r"
    by (simp add: round_half_even_def Let_def flip: fr)
  then have "round_half_even p q * q - p = - r \<and> 2 * r \<le> q \<or> round_half_even p q * q - p = q - r \<and> q \<le> 2 * r"
    by (auto simp: p algebra_simps)
  with r show ?thesis by auto
qed

lemma round_half_even_small:
  assumes "0 < q" and "2 * \<bar>p\<bar> < q"
  shows "round_half_even p q = 0"
proof -
  let ?x = "round_half_even p q"
  have "2 * \<bar>?x * q\<bar> < 2 * q" using near_abs [OF round_half_even_near [OF assms(1), of p]] assms(2) by linarith
  then have "\<bar>?x\<bar> * q < 1 * q" using assms(1) by (simp add: abs_mult)
  then have "\<bar>?x\<bar> < 1" using assms(1) by (simp only: mult_less_cancel_right)
  then show ?thesis by simp
qed

lemma round_half_even_shift:
  assumes "0 < q" and "even a"
  shows "round_half_even (a * q + p) q = a + round_half_even p q"
  using assms by (simp add: round_half_even_def Let_def)

lemma round_half_even_split:
  assumes "0 \<le> m" and "m < s"
  shows "round_half_even (f * s + m) s = (if 2 * m < s then f else if 2 * m > s then f + 1 else if even f then f else f + 1)"
proof -
  from assms have "(f * s + m) div s = f" "(f * s + m) mod s = m" by simp_all
  then show ?thesis by (simp add: round_half_even_def Let_def)
qed

text \<open>Rounding first to a finer scale does not change the result when the scale is finer than the denominator.\<close>

lemma double_rounding:
  assumes den: "0 < den" "den < s" and s: "even s"
  shows "round_half_even (round_half_even (p * s) den) s = round_half_even p den"
proof -
  define f r where fr: "f = p div den" "r = p mod den"
  then have p: "p = f * den + r" and r: "0 \<le> r" "r < den" using den by simp_all
  define m where "m = round_half_even (r * s) den"
  have "round_half_even (p * s) den = round_half_even ((f * s) * den + r * s) den" by (simp add: p algebra_simps)
  also have "\<dots> = f * s + m" unfolding m_def using den s by (intro round_half_even_shift) auto
  finally have eq: "round_half_even (p * s) den = f * s + m" .
  have near: "2 * \<bar>m * den - r * s\<bar> \<le> den" unfolding m_def using den by (intro round_half_even_near)
  have s0: "0 < s" using den by linarith
  have p_round: "round_half_even p den = (if 2 * r < den then f else if 2 * r > den then f + 1 else if even f then f else f + 1)"
    by (simp add: round_half_even_def fr Let_def)
  have m0: "0 \<le> m"
  proof (rule ccontr)
    assume "\<not> 0 \<le> m"
    then have "m * den \<le> - den" using mult_right_mono [of m "-1" den] den by simp
    moreover have "0 \<le> r * s" using r s0 by simp
    ultimately show False using near_abs [OF near] den by linarith
  qed
  consider "2 * r < den" | "2 * r > den" | "2 * r = den" by linarith
  then show ?thesis
  proof cases
    case 1
    then have "2 * (r * s) \<le> (den - 1) * s" using mult_right_mono [of "2 * r" "den - 1" s] s0 by (simp add: mult.assoc)
    then have "2 * (m * den) \<le> den * s - s + den" using near_abs [OF near] by (simp add: algebra_simps)
    then have "(2 * m) * den < s * den" using den by (simp only: mult.assoc mult.commute [of s den])
    then have "2 * m < s" using den by (simp add: mult_less_cancel_right)
    with 1 m0 show ?thesis unfolding eq p_round by (subst round_half_even_split) auto
  next
    case 2
    then have "(den + 1) * s \<le> 2 * (r * s)" using mult_right_mono [of "den + 1" "2 * r" s] s0 by (simp add: mult.assoc)
    then have "den * s + s - den \<le> 2 * (m * den)" using near_abs [OF near] by (simp add: algebra_simps)
    then have "s * den < (2 * m) * den" using den by (simp only: mult.assoc mult.commute [of s den])
    then have m1: "s < 2 * m" using den by (simp add: mult_less_cancel_right)
    have "r * s \<le> (den - 1) * s" using r s0 by (intro mult_right_mono) auto
    then have "2 * (m * den) \<le> 2 * (den * s) - 2 * s + den" using near_abs [OF near] by (simp add: algebra_simps)
    then have "m * den \<le> s * den" using den by (simp only: mult.commute [of s den])
    then have "m \<le> s" using den by (simp add: mult_le_cancel_right)
    then consider "m = s" | "m < s" by linarith
    then have "round_half_even (f * s + m) s = f + 1"
    proof cases
      case 1
      then have "f * s + m = (f + 1) * s" by (simp add: algebra_simps)
      then show ?thesis using s0 by (metis round_half_even_exact)
    next
      case 2
      with m0 m1 show ?thesis by (subst round_half_even_split) auto
    qed
    with 2 show ?thesis unfolding eq p_round by simp
  next
    case 3
    obtain h where h: "s = 2 * h" using s by auto
    have "r * s = h * den" using 3 h by (metis mult.assoc mult.commute)
    then have m: "m = h" using den by (simp add: m_def round_half_even_exact)
    have "m < s" using s0 h m by simp
    with 3 m0 m h show ?thesis unfolding eq p_round by (subst round_half_even_split) auto
  qed
qed

lemma div_10_bounds: "x \<le> n div 10 \<Longrightarrow> n div 10 < 10 * x \<Longrightarrow> 10 * x \<le> n \<and> n < 10 * (10 * x)" for n x :: nat
  using div_mult_mod_eq [of n 10] mod_less_divisor [of 10 n] by linarith

lemma dec_digits_bounds: "0 < n \<Longrightarrow> 10 ^ (length (dec_digits n) - 1) \<le> n \<and> n < 10 ^ length (dec_digits n)"
proof (induction n rule: dec_digits.induct)
  case (1 n)
  show ?case
  proof (cases "n < 10")
    case True
    with 1 show ?thesis by (simp add: dec_digits.simps)
  next
    case False
    let ?l = "length (dec_digits (n div 10))"
    have len: "length (dec_digits n) = Suc ?l" using False by (subst dec_digits.simps) simp
    have pos: "0 < n div 10" using False by linarith
    have ih: "10 ^ (?l - 1) \<le> n div 10" "n div 10 < 10 ^ ?l" using 1(1) [OF False pos] by auto
    have "?l \<noteq> 0" by (metis ih(2) less_one pos not_gr_zero power_0)
    then have "10 ^ ?l = 10 * (10 ^ (?l - 1) :: nat)" by (metis power_minus_mult mult.commute not_gr_zero)
    with ih have "10 * 10 ^ (?l - 1) \<le> n \<and> n < 10 * (10 * 10 ^ (?l - 1))" by (intro div_10_bounds) auto
    with len \<open>10 ^ ?l = _\<close> show ?thesis by simp
  qed
qed

lemma int_digits_bounds:
  assumes "n \<noteq> 0"
  shows "0 < int_digits n \<and> 10 ^ (int_digits n - 1) \<le> \<bar>n\<bar> \<and> \<bar>n\<bar> < 10 ^ int_digits n"
proof -
  let ?l = "int_digits n"
  have l: "?l = length (dec_digits (nat \<bar>n\<bar>))" using assms by (simp add: int_digits_def)
  have "10 ^ (?l - 1) \<le> nat \<bar>n\<bar>" "nat \<bar>n\<bar> < 10 ^ ?l" using dec_digits_bounds [of "nat \<bar>n\<bar>"] assms by (auto simp: l)
  then have *: "int (10 ^ (?l - 1)) \<le> \<bar>n\<bar>" "\<bar>n\<bar> < int (10 ^ ?l)" by (simp_all add: zless_nat_eq_int_zless le_nat_iff)
  have "?l \<noteq> 0" using * assms by (cases ?l) auto
  with * show ?thesis by simp
qed

lemma int_digits_le:
  assumes "\<bar>n\<bar> < 10 ^ k"
  shows "int_digits n \<le> k"
proof (rule ccontr)
  assume "\<not> int_digits n \<le> k"
  then have "n \<noteq> 0" "k \<le> int_digits n - 1" by (auto simp: int_digits_def)
  then have "(10::int) ^ k \<le> 10 ^ (int_digits n - 1)" by (intro power_increasing) auto
  with int_digits_bounds [OF \<open>n \<noteq> 0\<close>] assms show False by linarith
qed

lemma decimal_int_exact:
  assumes "\<bar>p\<bar> < 10 ^ 28"
  shows "decimal_int p = p"
  using int_digits_le [of "\<bar>p\<bar>" 28] assms by (simp add: decimal_int_def decimal_round_def Let_def)

lemma decimal_round_half_even:
  assumes den: "0 < den" and p: "\<bar>p\<bar> < 10 ^ 27"
  shows "(case decimal_round p den of (m, s) \<Rightarrow> round_half_even m s) = round_half_even p den"
proof -
  let ?q = "\<bar>p\<bar> div den" and ?n = "int_digits (\<bar>p\<bar> div den)"
  let ?s = "(10::int) ^ (28 - ?n)"
  have q0: "0 \<le> ?q" using den by (simp add: pos_imp_zdiv_nonneg_iff)
  have "?q \<le> \<bar>p\<bar>" using den by (metis abs_ge_zero div_by_1 int_one_le_iff_zero_less zdiv_mono2 zero_less_one)
  then have n: "?n \<le> 27" using p q0 by (intro int_digits_le) simp
  have even: "even ?s" using n by simp
  have d: "decimal_round p den = (round_half_even (p * ?s) den, ?s)" using n by (simp add: decimal_round_def Let_def)
  show ?thesis
  proof (cases "den < ?s")
    case True
    with d show ?thesis using double_rounding [OF den _ even] by simp
  next
    case False
    have "?q = 0"
    proof (rule ccontr)
      assume "?q \<noteq> 0"
      from int_digits_bounds [OF this] q0 have pos: "0 < ?n" and "10 ^ (?n - 1) \<le> ?q" by auto
      then have "10 ^ (?n - 1) * den \<le> ?q * den" using den by (intro mult_right_mono) auto
      also have "\<dots> \<le> \<bar>p\<bar>" using den by (metis div_mult_mod_eq abs_ge_zero le_add_same_cancel1 pos_mod_sign)
      finally have small: "10 ^ (?n - 1) * den < 10 ^ 27" using p by linarith
      have "(10::int) ^ 27 = 10 ^ (?n - 1) * ?s" using pos n by (simp flip: power_add)
      with small have "10 ^ (?n - 1) * den < 10 ^ (?n - 1) * ?s" by simp
      then have "den < ?s" by (simp only: mult_less_cancel_left) auto
      with False show False by simp
    qed
    then have s: "?s = 10 ^ 28" by (simp add: int_digits_def)
    with False have big: "10 ^ 28 \<le> den" by simp
    have zero: "round_half_even p den = 0" using den p big by (intro round_half_even_small) auto
    let ?m = "round_half_even (p * ?s) den"
    have "2 * \<bar>?m * den\<bar> \<le> den + 2 * \<bar>p * ?s\<bar>" using near_abs [OF round_half_even_near [OF den, of "p * ?s"]] by linarith
    also have "\<bar>p * ?s\<bar> \<le> 10 ^ 27 * den" using p big s by (simp add: abs_mult mult_mono)
    finally have "\<bar>?m\<bar> * den < (10 ^ 27 + 1) * den" using den by (simp add: abs_mult algebra_simps)
    then have "\<bar>?m\<bar> < 10 ^ 27 + 1" using den by (simp only: mult_less_cancel_right)
    then have "round_half_even ?m ?s = 0" unfolding s by (intro round_half_even_small) auto
    with d zero show ?thesis by simp
  qed
qed

lemma round_half_even_digits:
  assumes "\<bar>p\<bar> < 10 ^ 27" and "0 < den"
  shows "int_digits (round_half_even p den) \<le> 28"
proof -
  let ?v = "round_half_even p den"
  have "\<bar>?v * den\<bar> \<le> \<bar>p\<bar> + den" using near_abs [OF round_half_even_near [OF assms(2), of p]] assms(2) by linarith
  also have "\<dots> \<le> 10 ^ 27 * den + den" using assms(1) mult_left_mono [of 1 den "10 ^ 27"] assms(2) by simp
  finally have "\<bar>?v\<bar> * den \<le> (10 ^ 27 + 1) * den" using assms(2) by (simp add: abs_mult algebra_simps)
  then have "\<bar>?v\<bar> \<le> 10 ^ 27 + 1" using assms(2) by (simp only: mult_le_cancel_right)
  then show ?thesis by (intro int_digits_le) simp
qed

text \<open>Cn. The margin is rounded as documented: for amounts below ten to the twenty-third the two roundings of the decimal arithmetic give the
  quotient in basis points, rounded half to even, and nothing raises. It lies within half a basis point of the exact value.\<close>

theorem basis_points_rounded:
  assumes "\<bar>numerator\<bar> < 10 ^ 23" and "0 < denominator"
  shows "basis_points numerator denominator = Inr (round_half_even (numerator * 10000) denominator) \<and>
         2 * \<bar>round_half_even (numerator * 10000) denominator * denominator - numerator * 10000\<bar> \<le> denominator"
proof -
  let ?p = "numerator * 10000" and ?v = "round_half_even (numerator * 10000) denominator"
  have p: "\<bar>?p\<bar> < 10 ^ 27" using assms(1) by simp
  have near: "2 * \<bar>?v * denominator - ?p\<bar> \<le> denominator" using round_half_even_near assms(2) by blast
  have digits: "int_digits ?v \<le> 28" using p assms(2) by (rule round_half_even_digits)
  have "decimal_int ?p = ?p" using p by (intro decimal_int_exact) simp
  then show ?thesis
    using decimal_round_half_even [OF assms(2) p] digits near assms(2)
    by (auto simp: basis_points_def Let_def split: prod.splits)
qed

lemma basis_points_rounded_witness: "basis_points 12345 67890 = Inr 1818"
proof -
  have "round_half_even (12345 * 10000) 67890 = 1818" by (simp add: round_half_even_def Let_def)
  with basis_points_rounded [of 12345 67890] show ?thesis by simp
qed

section \<open>Adding up\<close>

lemma get0_add_to [simp]: "get0 (add_to m k a) k' = get0 m k' + (if k' = k then a else 0)"
  by (simp add: get0_def add_to_def)

lemma keys_dict_set: "set (map fst (dict_set d k v)) = insert k (set (map fst d))"
  by (induction d k v rule: dict_set.induct) auto

lemma distinct_dict_set: "distinct (map fst d) \<Longrightarrow> distinct (map fst (dict_set d k v))"
proof (induction d k v rule: dict_set.induct)
  case (2 k' v' d k v)
  then show ?case using keys_dict_set [of d k v] by auto
qed simp

lemma keys_add_to [simp]: "set (map fst (add_to m k a)) = insert k (set (map fst m))"
  by (simp only: add_to_def keys_dict_set)

lemma distinct_add_to [simp]: "distinct (map fst m) \<Longrightarrow> distinct (map fst (add_to m k a))"
  by (simp add: add_to_def distinct_dict_set)

lemma get0_outside: "k \<notin> set (map fst m) \<Longrightarrow> get0 m k = 0"
  by (simp add: get0_def map_of_eq_None_iff [THEN iffD2])

lemma sum_get0: "distinct (map fst m) \<Longrightarrow> (\<Sum>k\<in>set (map fst m). get0 m k) = sum_list (map snd m)"
proof (induction m)
  case (Cons p m)
  have "get0 (p # m) k = get0 m k" if k: "k \<in> set (map fst m)" for k
  proof -
    have "fst p \<noteq> k" using Cons.prems k by auto
    then show ?thesis by (simp add: get0_def)
  qed
  then have "(\<Sum>k\<in>set (map fst m). get0 (p # m) k) = (\<Sum>k\<in>set (map fst m). get0 m k)" by (rule sum.cong [OF refl])
  with Cons show ?case by (simp add: get0_def)
qed simp

text \<open>The amounts of the transactions a predicate selects, and what the fold makes of them.\<close>

definition amount_of :: "(dict \<Rightarrow> bool) \<Rightarrow> dict list \<Rightarrow> int" where
  "amount_of sel txs = sum_list (map tx_amount (filter sel txs))"

definition month_of :: "dict \<Rightarrow> str" where
  "month_of d = take 7 (tx_text d ''date'')"

definition totals_ok :: "totals \<Rightarrow> dict list \<Rightarrow> bool" where
  "totals_ok t txs \<longleftrightarrow>
     total_income t = amount_of (is_type ''income'') txs \<and> total_expenses t = amount_of (is_type ''expense'') txs \<and>
     distinct (map fst (by_category t)) \<and> distinct (map fst (monthly_income t)) \<and> distinct (map fst (monthly_expenses t)) \<and>
     (\<forall>m. get0 (monthly_income t) m = amount_of (\<lambda>d. is_type ''income'' d \<and> month_of d = m) txs) \<and>
     (\<forall>m. get0 (monthly_expenses t) m = amount_of (\<lambda>d. is_type ''expense'' d \<and> month_of d = m) txs) \<and>
     (\<forall>c. get0 (by_category t) c = amount_of (\<lambda>d. is_type ''expense'' d \<and> tx_text d ''category'' = c) txs) \<and>
     sum_list (map snd (monthly_income t)) = total_income t \<and> sum_list (map snd (monthly_expenses t)) = total_expenses t \<and>
     sum_list (map snd (by_category t)) = total_expenses t"

lemma amount_of_snoc: "amount_of sel (txs @ [d]) = amount_of sel txs + (if sel d then tx_amount d else 0)"
  by (simp add: amount_of_def)

lemma is_type_excl: "is_type ''income'' d \<Longrightarrow> \<not> is_type ''expense'' d"
  by (simp add: is_type_def)

lemma sum_add_to:
  assumes "distinct (map fst m)"
  shows "sum_list (map snd (add_to m k a)) = sum_list (map snd m) + a"
proof -
  let ?K = "insert k (set (map fst m))"
  have fin: "finite ?K" by simp
  have "sum_list (map snd (add_to m k a)) = (\<Sum>k'\<in>?K. get0 (add_to m k a) k')"
    using sum_get0 [OF distinct_add_to [OF assms], of k a] by (simp only: keys_add_to)
  also have "\<dots> = (\<Sum>k'\<in>?K. get0 m k') + a" by (simp add: sum.distrib)
  also have "(\<Sum>k'\<in>?K. get0 m k') = (\<Sum>k'\<in>set (map fst m). get0 m k')"
    by (cases "k \<in> set (map fst m)") (simp_all add: insert_absorb get0_outside)
  also have "\<dots> = sum_list (map snd m)" using assms by (rule sum_get0)
  finally show ?thesis by simp
qed

lemma add_tx_ok:
  assumes "totals_ok t txs"
  shows "totals_ok (add_tx t d) (txs @ [d])"
  using assms is_type_excl [of d]
  by (auto simp: totals_ok_def add_tx_def Let_def amount_of_snoc sum_add_to month_of_def simp del: map_map)

lemma totals_of_ok: "totals_ok (totals_of txs) txs"
proof (induction txs rule: rev_induct)
  case Nil
  then show ?case by (simp add: totals_of_def totals_ok_def no_totals_def amount_of_def get0_def)
next
  case (snoc d txs)
  then show ?case using add_tx_ok by (simp add: totals_of_def)
qed

lemma all_months_set: "set (all_months t) = set (map fst (monthly_income t)) \<union> set (map fst (monthly_expenses t))" "distinct (all_months t)"
  by (auto simp: all_months_def)

lemma sum_months:
  assumes "totals_ok t txs"
  shows "sum_list (map (get0 (monthly_income t)) (all_months t)) = total_income t"
    and "sum_list (map (get0 (monthly_expenses t)) (all_months t)) = total_expenses t"
proof -
  have *: "sum_list (map (get0 m) (all_months t)) = sum_list (map snd m)"
    if "distinct (map fst m)" "set (map fst m) \<subseteq> set (all_months t)" for m
  proof -
    have "sum_list (map (get0 m) (all_months t)) = (\<Sum>k\<in>set (all_months t). get0 m k)"
      using all_months_set(2) by (rule sum_list_distinct_conv_sum_set)
    also have "\<dots> = (\<Sum>k\<in>set (map fst m). get0 m k)"
      using that(2) by (intro sum.mono_neutral_right) (auto intro: get0_outside)
    finally show ?thesis using sum_get0 that(1) by simp
  qed
  show "sum_list (map (get0 (monthly_income t)) (all_months t)) = total_income t"
    and "sum_list (map (get0 (monthly_expenses t)) (all_months t)) = total_expenses t"
    using assms * [of "monthly_income t"] * [of "monthly_expenses t"] all_months_set(1) [of t] by (auto simp: totals_ok_def)
qed

section \<open>What is reported\<close>

definition report_of :: "dict \<Rightarrow> dict" where
  "report_of env = (case dget env ''result'' of PDict r \<Rightarrow> (case dget r ''report'' of PDict d \<Rightarrow> d | _ \<Rightarrow> []) | _ \<Rightarrow> [])"

definition int_at :: "dict \<Rightarrow> str \<Rightarrow> int" where
  "int_at d k = (case dget d k of PInt i \<Rightarrow> i | _ \<Rightarrow> 0)"

text \<open>The sum of a column of a list of rows, and of the values of an object.\<close>

definition column :: "pyval \<Rightarrow> str \<Rightarrow> int" where
  "column v k = (case v of PList rows \<Rightarrow> sum_list (map (\<lambda>r. case r of PDict d \<Rightarrow> int_at d k | _ \<Rightarrow> 0) rows) | _ \<Rightarrow> 0)"

definition value_sum :: "pyval \<Rightarrow> int" where
  "value_sum v = (case v of PDict d \<Rightarrow> sum_list (map (\<lambda>(k, x). case x of PInt i \<Rightarrow> i | _ \<Rightarrow> 0) d) | _ \<Rightarrow> 0)"

lemma dget_strip: "k \<notin> set BANNED_RESPONSE_KEYS \<Longrightarrow> dget (strip_dict d) k = strip_banned (dget d k)"
  by (simp add: dget_def map_of_strip_dict split: option.splits)

lemma amount_of_members:
  "finite B \<Longrightarrow> (\<Sum>b\<in>B. amount_of (\<lambda>d. P d \<and> f d = b) txs) = amount_of (\<lambda>d. P d \<and> f d \<in> B) txs"
proof (induction txs)
  case (Cons d txs)
  have "(\<Sum>b\<in>B. amount_of (\<lambda>d. P d \<and> f d = b) (d # txs)) =
        (\<Sum>b\<in>B. (if P d \<and> f d = b then tx_amount d else 0) + amount_of (\<lambda>d. P d \<and> f d = b) txs)"
    by (rule sum.cong) (simp_all add: amount_of_def)
  also have "\<dots> = (if P d \<and> f d \<in> B then tx_amount d else 0) + amount_of (\<lambda>d. P d \<and> f d \<in> B) txs"
    using Cons by (cases "P d") (simp_all add: sum.distrib)
  finally show ?case by (simp add: amount_of_def)
qed (simp add: amount_of_def)

text \<open>The breakdown that reaches the caller has lost the categories named like a banned key.\<close>

lemma breakdown_sum:
  assumes ok: "totals_ok t txs"
  shows "value_sum (strip_banned (PDict (map (\<lambda>(k, a). (k, PInt a)) (sort_items True (by_category t))))) =
         total_expenses t - amount_of (\<lambda>d. is_type ''expense'' d \<and> tx_text d ''category'' \<in> set BANNED_RESPONSE_KEYS) txs"
proof -
  let ?B = "set BANNED_RESPONSE_KEYS" and ?m = "by_category t" and ?keep = "\<lambda>(k, _). k \<notin> set BANNED_RESPONSE_KEYS"
  have dist: "distinct (map fst ?m)" using ok by (simp add: totals_ok_def)
  have "strip_banned (PDict (map (\<lambda>(k, a). (k, PInt a)) (sort_items True ?m))) =
        PDict (map (\<lambda>(k, a). (k, PInt a)) (filter ?keep (sort_items True ?m)))"
    by (simp add: filter_map comp_def case_prod_unfold)
  then have "value_sum (strip_banned (PDict (map (\<lambda>(k, a). (k, PInt a)) (sort_items True ?m)))) =
        sum_list (map snd (filter ?keep (sort_items True ?m)))"
    by (simp add: value_sum_def comp_def case_prod_beta)
  also have "\<dots> = sum_list (map snd (filter ?keep ?m))"
    by (simp add: sort_items_def flip: sum_mset_sum_list)
  also have "\<dots> = sum_list (map snd ?m) - sum_list (map snd (filter (\<lambda>(k, _). k \<in> ?B) ?m))"
  proof -
    have "sum_list (map snd (filter ?keep m)) = sum_list (map snd m) - sum_list (map snd (filter (\<lambda>(k, _). k \<in> ?B) m))"
      for m :: "(str \<times> int) list"
      by (induction m) auto
    then show ?thesis .
  qed
  also have "sum_list (map snd (filter (\<lambda>(k, _). k \<in> ?B) ?m)) = (\<Sum>k\<in>set (map fst ?m) \<inter> ?B. get0 ?m k)"
  proof -
    let ?f = "filter (\<lambda>(k, _). k \<in> ?B) ?m"
    have keys: "set (map fst ?f) = set (map fst ?m) \<inter> ?B" by force
    have df: "distinct (map fst ?f)" using dist by (simp add: distinct_map_filter)
    have "map_of (filter (\<lambda>(k, _). k \<in> ?B) m) k = map_of m k" if "k \<in> ?B" for k and m :: "(str \<times> int) list"
      using that by (induction m) (auto split: if_splits)
    then have "(\<Sum>k\<in>set (map fst ?f). get0 ?f k) = (\<Sum>k\<in>set (map fst ?m) \<inter> ?B. get0 ?m k)"
      unfolding keys by (intro sum.cong) (auto simp: get0_def)
    then show ?thesis using sum_get0 [OF df] by simp
  qed
  also have "\<dots> = (\<Sum>k\<in>?B. get0 ?m k)"
    by (intro sum.mono_neutral_left) (auto intro: get0_outside)
  also have "\<dots> = amount_of (\<lambda>d. is_type ''expense'' d \<and> tx_text d ''category'' \<in> ?B) txs"
    using ok amount_of_members [of ?B "is_type ''expense''" "\<lambda>d. tx_text d ''category''" txs] by (simp add: totals_ok_def)
  finally show ?thesis using ok by (simp add: totals_ok_def)
qed

lemma monthly_rows:
  assumes "totals_ok t txs"
  shows "column (strip_banned (PList (map (month_row t) (all_months t)))) ''income_minor'' = total_income t"
    and "column (strip_banned (PList (map (month_row t) (all_months t)))) ''expenses_minor'' = total_expenses t"
    and "column (strip_banned (PList (map (month_row t) (all_months t)))) ''net_minor'' = total_income t - total_expenses t"
proof -
  have "banned_free (PList (map (month_row t) (all_months t)))"
    by (simp add: list_all_iff month_row_def BANNED_RESPONSE_KEYS_def)
  then have *: "strip_banned (PList (map (month_row t) (all_months t))) = PList (map (month_row t) (all_months t))"
    by (rule banned_free_strip)
  show "column (strip_banned (PList (map (month_row t) (all_months t)))) ''income_minor'' = total_income t"
    and "column (strip_banned (PList (map (month_row t) (all_months t)))) ''expenses_minor'' = total_expenses t"
    and "column (strip_banned (PList (map (month_row t) (all_months t)))) ''net_minor'' = total_income t - total_expenses t"
    using sum_months [OF assms] unfolding *
    by (simp_all add: column_def month_row_def int_at_def dget_def comp_def sum_list_subtractf)
qed

lemma check_Nil: "check ok field rule v = [] \<longleftrightarrow> ok"
  by (simp add: check_def)

lemma valid_txs:
  assumes "all_tx_violations currency vs = Inr []"
  shows "vs = map PDict (dict_items vs)"
    and "d \<in> set (dict_items vs) \<Longrightarrow> dget d ''amount_minor'' = PInt (tx_amount d) \<and> 0 \<le> tx_amount d \<and> dget d ''currency'' = currency"
proof -
  from assms obtain ws where ws: "mapE (\<lambda>(i, tx). tx_violations currency i tx) (enumerate 0 vs) = Inr ws" "concat ws = []"
    by (auto simp: all_tx_violations_def bindE_Inr)
  have each: "\<exists>i. tx_violations currency i v = Inr []" if "v \<in> set vs" for v
  proof -
    from that obtain i where i: "i < length vs" "vs ! i = v" by (auto simp: in_set_conv_nth)
    from mapE_Inr [OF ws(1)] i have *: "tx_violations currency i v = Inr (ws ! i)" "i < length ws"
      by (auto simp: list_all2_conv_all_nth nth_enumerate_eq)
    with ws(2) have "ws ! i = []" by simp
    with * show ?thesis by auto
  qed
  have dict: "\<exists>d. v = PDict d \<and> amount_ok (dget d ''amount_minor'') \<and> dget d ''currency'' = currency" if "v \<in> set vs" for v
    using each [OF that] by (cases v) (auto simp: tx_violations_def Let_def bindE_Inr check_Nil split: if_splits)
  show "vs = map PDict (dict_items vs)"
    unfolding dict_items_def map_map by (rule map_idI [symmetric]) (use dict in fastforce)
  show "dget d ''amount_minor'' = PInt (tx_amount d) \<and> 0 \<le> tx_amount d \<and> dget d ''currency'' = currency" if "d \<in> set (dict_items vs)"
  proof -
    from that obtain v where v: "v \<in> set vs" "d = (case v of PDict d \<Rightarrow> d | _ \<Rightarrow> [])" by (auto simp: dict_items_def)
    from dict [OF v(1)] v(2) have "amount_ok (dget d ''amount_minor'')" "dget d ''currency'' = currency" by auto
    then show ?thesis by (cases "dget d ''amount_minor''") (auto simp: amount_ok_def tx_amount_def)
  qed
qed

lemma failure_not_ok: "failure rid tool code message detail hint = Inr env \<Longrightarrow> dget env ''ok'' = PBool False"
  by (auto simp: failure_Inr dget_strip BANNED_RESPONSE_KEYS_def)

lemma success_report:
  assumes "success rid tool mode (PDict [(''report'', PDict rep)]) evidence key dup = Inr env"
  shows "report_of env = strip_dict rep"
proof -
  from assms obtain ev where env: "env = strip_dict
       [(''ok'', PBool True), (''tool'', PStr tool), (''contract_version'', PStr CONTRACT_VERSION),
        (''request_id'', PStr rid), (''mode'', PStr mode), (''idempotency_key'', opt_val PStr key),
        (''duplicate'', PBool dup), (''result'', PDict [(''report'', PDict rep)]), (''evidence'', PDict ev)]"
    by (auto simp: success_def call_Inr)
  have "dget env ''result'' = strip_banned (PDict [(''report'', PDict rep)])"
    unfolding env by (subst dget_strip) (simp_all add: BANNED_RESPONSE_KEYS_def dget_def)
  also have "\<dots> = PDict [(''report'', PDict (strip_dict rep))]"
    by (simp only: strip_banned_PDict strip_dict_def) (simp add: BANNED_RESPONSE_KEYS_def strip_banned_PDict [unfolded strip_dict_def BANNED_RESPONSE_KEYS_def])
  finally show ?thesis by (simp add: report_of_def dget_def)
qed

lemma report_ok_cases:
  assumes "finance_generate_finance_report sha256 rid now1 now2 args = Inr env" and "dget env ''ok'' = PBool True"
  obtains vs where "dget args ''transactions'' = PList vs" and "all_tx_violations (dget args ''currency'') vs = Inr []"
    and "report_envelope sha256 rid now1 now2 (dget args ''currency'') (dget args ''period'') (dget args ''source'') vs = Inr env"
proof -
  let ?r = "report_or_refusal sha256 rid now1 now2 (dget args ''transactions'') (dget args ''currency'') (dget args ''period'') (dget args ''source'')"
  have "?r = Inr env"
    using assms by (auto simp: finance_generate_finance_report_def from_exception_def Let_def split: sum.splits dest: failure_not_ok)
  then obtain us where us: "report_violations (dget args ''transactions'') (dget args ''currency'') (dget args ''period'') (dget args ''source'') = Inr us"
    and rest: "us = []" 
      "bindE (all_tx_violations (dget args ''currency'') (case dget args ''transactions'' of PList l \<Rightarrow> l | _ \<Rightarrow> [])) (\<lambda>vs.
        if vs \<noteq> [] then raisingE wrong_class (validation_failed rid ''finance_generate_finance_report'' vs ''Input violated the tool contract.'')
        else report_envelope sha256 rid now1 now2 (dget args ''currency'') (dget args ''period'') (dget args ''source'')
               (case dget args ''transactions'' of PList l \<Rightarrow> l | _ \<Rightarrow> [])) = Inr env"
    using assms(2)
    by (auto simp: report_or_refusal_def Let_def bindE_Inr raisingE_Inr validation_failed_def split: if_splits dest: failure_not_ok)
  from us rest(1) obtain vs where vs: "dget args ''transactions'' = PList vs"
    by (auto simp: report_violations_def bindE_Inr check_def split: pyval.splits if_splits)
  show thesis
    using that [of vs] rest(2) assms(2) vs
    by (auto simp: bindE_Inr raisingE_Inr validation_failed_def split: if_splits dest: failure_not_ok)
qed

text \<open>C23. A report that is \<open>ok\<close> adds up. Every transaction was an object with a non-negative integer amount in the report's currency; the totals
  are the sums of the incomes and of the expenses, transfers excluded, the net their difference, and the months' incomes, expenses and nets
  sum to the totals. The breakdown by category sums to the expenses but for the categories named like a key the envelope bans, which it drops.\<close>

theorem finance_report_adds_up:
  assumes "finance_generate_finance_report sha256 rid now1 now2 args = Inr env" and "dget env ''ok'' = PBool True"
  shows "\<exists>txs. dget args ''transactions'' = PList (map PDict txs) \<and>
     (\<forall>d\<in>set txs. dget d ''amount_minor'' = PInt (tx_amount d) \<and> 0 \<le> tx_amount d \<and> dget d ''currency'' = dget args ''currency'') \<and>
     (let income = amount_of (is_type ''income'') txs; expenses = amount_of (is_type ''expense'') txs; r = report_of env;
          dropped = amount_of (\<lambda>d. is_type ''expense'' d \<and> tx_text d ''category'' \<in> set BANNED_RESPONSE_KEYS) txs in
      dget r ''total_income_minor'' = PInt income \<and> dget r ''total_expenses_minor'' = PInt expenses \<and>
      dget r ''net_profit_minor'' = PInt (income - expenses) \<and>
      column (dget r ''monthly_breakdown'') ''income_minor'' = income \<and> column (dget r ''monthly_breakdown'') ''expenses_minor'' = expenses \<and>
      column (dget r ''monthly_breakdown'') ''net_minor'' = income - expenses \<and>
      value_sum (dget r ''expense_breakdown_minor'') = expenses - dropped \<and> dget r ''transaction_count'' = PInt (int (length txs)))"
proof -
  from report_ok_cases [OF assms] obtain vs where vs: "dget args ''transactions'' = PList vs"
    and valid: "all_tx_violations (dget args ''currency'') vs = Inr []"
    and env: "report_envelope sha256 rid now1 now2 (dget args ''currency'') (dget args ''period'') (dget args ''source'') vs = Inr env"
    by metis
  define txs t where "txs = dict_items vs" and t: "t = totals_of txs"
  have ok: "totals_ok t txs" unfolding t by (rule totals_of_ok)
  then have tot: "total_income t = amount_of (is_type ''income'') txs" "total_expenses t = amount_of (is_type ''expense'') txs"
    by (simp_all add: totals_ok_def)
  from env obtain margin more where
    body: "report_of env = strip_dict
        ([(''period'', dget args ''period''), (''currency'', dget args ''currency''), (''source'', dget args ''source''),
          (''total_income_minor'', PInt (total_income t)), (''total_expenses_minor'', PInt (total_expenses t)),
          (''net_profit_minor'', PInt (total_income t - total_expenses t)), (''profit_margin_bp'', PInt margin),
          (''expense_breakdown_minor'', PDict (map (\<lambda>(k, a). (k, PInt a)) (sort_items True (by_category t)))),
          (''monthly_breakdown'', PList (map (month_row t) (all_months t))),
          (''top_expenses'', PList (top_expenses t)), (''transaction_count'', PInt (int (length txs)))] @ more)"
    by (auto simp: report_envelope_def report_body_def Let_def bindE_Inr raisingE_Inr t txs_def dest!: success_report)
  have "dget (report_of env) ''total_income_minor'' = PInt (total_income t)"
    "dget (report_of env) ''total_expenses_minor'' = PInt (total_expenses t)"
    "dget (report_of env) ''net_profit_minor'' = PInt (total_income t - total_expenses t)"
    "dget (report_of env) ''expense_breakdown_minor'' = strip_banned (PDict (map (\<lambda>(k, a). (k, PInt a)) (sort_items True (by_category t))))"
    "dget (report_of env) ''monthly_breakdown'' = strip_banned (PList (map (month_row t) (all_months t)))"
    "dget (report_of env) ''transaction_count'' = PInt (int (length txs))"
    unfolding body
    by (subst dget_strip, simp add: BANNED_RESPONSE_KEYS_def, simp add: dget_def del: strip_banned.simps(1,2))+
  then show ?thesis
    using vs valid_txs [OF valid] monthly_rows [OF ok] breakdown_sum [OF ok] tot
    by (intro exI [of _ txs]) (simp add: txs_def Let_def del: strip_banned.simps(1,2))
qed

text \<open>A report of two expenses, one of them in a category named \<open>note\<close>: the answer is \<open>ok\<close>, the expenses are 50, and the breakdown sums to
  30. The checksum covers the breakdown that was not sent.\<close>

definition sample_tx :: "str \<Rightarrow> int \<Rightarrow> dict" where
  "sample_tx cat amount =
     [(''date'', PStr ''2026-01-05''), (''description'', PStr ''d''), (''amount_minor'', PInt amount), (''type'', PStr ''expense''),
      (''currency'', PStr ''USD''), (''category'', PStr cat)]"

definition sample_txs :: "dict list" where
  "sample_txs = [sample_tx ''rent'' 30, sample_tx ''note'' 20]"

definition sample_args :: dict where
  "sample_args = [(''transactions'', PList (map PDict sample_txs)), (''currency'', PStr ''USD''), (''period'', PStr ''2026-01''),
                  (''source'', PStr ''caller_supplied'')]"

lemma success_read_only:
  assumes "ev \<noteq> []"
  obtains env where "success rid tool ''READ_ONLY'' (PDict res) (PDict ev) None False = Inr env" and "dget env ''ok'' = PBool True"
proof
  let ?env = "strip_dict
       [(''ok'', PBool True), (''tool'', PStr tool), (''contract_version'', PStr CONTRACT_VERSION),
        (''request_id'', PStr rid), (''mode'', PStr ''READ_ONLY''), (''idempotency_key'', opt_val PStr None),
        (''duplicate'', PBool False), (''result'', PDict res), (''evidence'', PDict ev)]"
  show "success rid tool ''READ_ONLY'' (PDict res) (PDict ev) None False = Inr ?env"
    using assms by (simp add: success_def MODES_def)
  show "dget ?env ''ok'' = PBool True"
    by (subst dget_strip) (simp_all add: BANNED_RESPONSE_KEYS_def dget_def)
qed

lemma sample_amounts:
  "amount_of (is_type ''income'') sample_txs = 0" "amount_of (is_type ''expense'') sample_txs = 50"
  "amount_of (\<lambda>d. is_type ''expense'' d \<and> tx_text d ''category'' \<in> set BANNED_RESPONSE_KEYS) sample_txs = 20"
  by (simp_all add: amount_of_def sample_txs_def sample_tx_def is_type_def tx_amount_def tx_text_def dget_def BANNED_RESPONSE_KEYS_def)

lemma sample_report_ok:
  obtains env where "finance_generate_finance_report sha256 rid now1 now2 sample_args = Inr env" and "dget env ''ok'' = PBool True"
proof -
  have args: "report_violations (dget sample_args ''transactions'') (dget sample_args ''currency'') (dget sample_args ''period'')
      (dget sample_args ''source'') = Inr []" "all_tx_violations (dget sample_args ''currency'') (map PDict sample_txs) = Inr []"
    "truthy (dget sample_args ''source'')"
    by code_simp+
  have tx: "dget sample_args ''transactions'' = PList (map PDict sample_txs)" by (simp add: sample_args_def dget_def)
  have items: "dict_items (map PDict sample_txs) = sample_txs" by (simp add: dict_items_def comp_def)
  have "total_income (totals_of sample_txs) = 0"
    using totals_of_ok [of sample_txs] sample_amounts by (simp add: totals_ok_def)
  then obtain body where body: "report_body (dget sample_args ''currency'') (dget sample_args ''period'') (dget sample_args ''source'') sample_txs = Inr body"
    by (simp add: report_body_def Let_def basis_points_def)
  have "read_evidence now2 src fp n c None None \<noteq> []" for src fp n c
    by (simp add: read_evidence_def Let_def)
  then obtain env where env: "success rid ''finance_generate_finance_report'' ''READ_ONLY''
      (PDict [(''report'', PDict (body @ [(''generated_at'', PStr now1), (''result_checksum'', PStr (sha256_hex sha256 (PDict body)))]))])
      (PDict (read_evidence now2 (py_str (dget sample_args ''source''))
         (sha256_hex sha256 (PStr (canonical_json (PDict [(''transactions'', PList (map PDict sample_txs)), (''currency'', dget sample_args ''currency''),
            (''period'', dget sample_args ''period'')]))))
         (int (length sample_txs)) (sha256_hex sha256 (PDict body)) None None)) None False = Inr env" and ok: "dget env ''ok'' = PBool True"
    by (rule success_read_only)
  have "report_envelope sha256 rid now1 now2 (dget sample_args ''currency'') (dget sample_args ''period'') (dget sample_args ''source'')
      (map PDict sample_txs) = Inr env"
    using env args(3) by (simp add: report_envelope_def items body Let_def)
  with args tx have "finance_generate_finance_report sha256 rid now1 now2 sample_args = Inr env"
    by (simp add: finance_generate_finance_report_def report_or_refusal_def Let_def)
  with ok that show thesis by blast
qed

lemma finance_report_adds_up_witness:
  "\<exists>env. finance_generate_finance_report (\<lambda>_. ''h'') ''r'' ''t1'' ''t2'' sample_args = Inr env \<and> dget env ''ok'' = PBool True \<and>
     dget (report_of env) ''total_expenses_minor'' = PInt 50 \<and> value_sum (dget (report_of env) ''expense_breakdown_minor'') = 30"
proof -
  obtain env where env: "finance_generate_finance_report (\<lambda>_. ''h'') ''r'' ''t1'' ''t2'' sample_args = Inr env" and ok: "dget env ''ok'' = PBool True"
    by (rule sample_report_ok)
  from finance_report_adds_up [OF env ok] obtain txs where "dget sample_args ''transactions'' = PList (map PDict txs)"
    and sums: "dget (report_of env) ''total_expenses_minor'' = PInt (amount_of (is_type ''expense'') txs)"
      "value_sum (dget (report_of env) ''expense_breakdown_minor'') = amount_of (is_type ''expense'') txs -
         amount_of (\<lambda>d. is_type ''expense'' d \<and> tx_text d ''category'' \<in> set BANNED_RESPONSE_KEYS) txs"
    unfolding Let_def by blast
  then have "map PDict txs = map PDict sample_txs" by (simp add: sample_args_def dget_def)
  then have "txs = sample_txs" by (simp add: inj_map_eq_map inj_def)
  with sums env ok show ?thesis by (simp add: sample_amounts)
qed

text \<open>A source that is an array is answered as a retryable failure of an upstream, not as a violation of the contract.\<close>

lemma unhashable_source_retryable:
  "map_option (\<lambda>env. map (\<lambda>k. (case dget env ''error'' of PDict err \<Rightarrow> dget err k | _ \<Rightarrow> PNone)) [''code'', ''retryable''])
     (case finance_generate_finance_report (\<lambda>_. ''h'') ''r'' ''t1'' ''t2'' [(''source'', PList [])] of Inr env \<Rightarrow> Some env | Inl _ \<Rightarrow> None)
   = Some [PStr ''upstream_timeout'', PBool True]"
  by code_simp

section \<open>The tools that refuse\<close>

definition BUDGET_STORE_KEYS :: "str list" where
  "BUDGET_STORE_KEYS = [''GENESIS_JOB_DATABASE_URL'', ''DATABASE_URL'']"

definition quarantined :: "str \<Rightarrow> str \<Rightarrow> str \<Rightarrow> (str \<times> pyval) list \<Rightarrow> str \<Rightarrow> py_exc + dict" where
  "quarantined rid tool message extra ref =
     not_implemented rid tool message
       (Some ([(''mode'', PStr ''APPROVAL_REQUIRED''), (''verdict'', PStr ''QUARANTINE'')] @ extra @ [(''contract_ref'', PStr ref)]))"

definition unwired :: "str \<Rightarrow> str \<Rightarrow> str \<Rightarrow> py_exc + dict" where
  "unwired rid tool message =
     provider_unconfigured rid tool BUDGET_STORE_KEYS message (Some [(''mode'', PStr ''READ_ONLY''), (''verdict'', PStr ''QUARANTINE'')])"

definition finance_sync_bank_fees :: "str \<Rightarrow> py_exc + dict" where
  "finance_sync_bank_fees rid =
     quarantined rid ''finance_sync_bank_fees''
       (''Recording bank fees to the general ledger is not implemented. It requires a credentialed Xero Accounting API integration '' @
        ''(ManualJournals + BankTransactions), a bank_statement_line_id to reconcile against, post-write readback evidence and a live '' @
        ''idempotency store. No ledger entry was created.'') [] ''FINANCE-TOOL-CONTRACTS.md 3.1 finance_sync_bank_fees''"

definition finance_import_x402_transactions :: "str \<Rightarrow> py_exc + dict" where
  "finance_import_x402_transactions rid =
     quarantined rid ''finance_import_x402_transactions''
       (''Importing x402 ledger entries is not implemented. It requires a real ledger table with a unique index on (entity_id, external_txn_id), a '' @
        ''caller-supplied batch checksum the tool recomputes, and post-insert readback evidence. No rows were inserted and no row count is reported.'')
       [(''rows_inserted'', PInt 0)] ''FINANCE-TOOL-CONTRACTS.md 3.1 finance_import_x402_transactions''"

definition finance_get_budget_metrics :: "str \<Rightarrow> py_exc + dict" where
  "finance_get_budget_metrics rid =
     unwired rid ''finance_get_budget_metrics''
       (''No budget store is wired for the finance agent. Budget figures are unavailable; none are invented. Absence of a limit is not headroom.'')"

definition finance_get_audit_log :: "str \<Rightarrow> py_exc + dict" where
  "finance_get_audit_log rid =
     unwired rid ''finance_get_audit_log''
       (''No audit store is wired for the finance agent. No entries can be returned; an empty log must not be inferred.'')"

definition finance_get_alerts :: "str \<Rightarrow> py_exc + dict" where
  "finance_get_alerts rid =
     unwired rid ''finance_get_alerts''
       (''No alert engine is wired for the finance agent. No alerts can be returned; '' @ [char_of (39::nat)] @ ''no alerts raised'' @
        [char_of (39::nat)] @ '' must not be inferred.'')"

lemma refusals_not_ok:
  "quarantined rid tool message extra ref = Inr env \<Longrightarrow> dget env ''ok'' = PBool False"
  "unwired rid tool text = Inr env \<Longrightarrow> dget env ''ok'' = PBool False"
  by (auto simp: quarantined_def unwired_def not_implemented_def provider_unconfigured_def Let_def dest: failure_not_ok)

end
