(* ===== verification/Billing.thy ===== *)
theory Billing
  imports Finance
begin

text \<open>
  The revenue report of the billing agent (\<^verbatim>\<open>tools/billing_tool.py\<close>): subscriptions are validated, yearly amounts are spread over twelve
  months by largest remainder, and the active ones are summed to the monthly and the annual recurring revenue. The helpers the module
  repeats from \<^verbatim>\<open>tools/finance_tool.py\<close> are those of theory \<open>Finance\<close>.
\<close>

section \<open>Allocation\<close>

definition allocate :: "int \<Rightarrow> int \<Rightarrow> py_exc + int list" where
  "allocate amount parts =
     guardE (0 < parts) ValueError
       (let base = amount div parts; remainder = amount mod parts in
        Inr (replicate (nat remainder) (base + 1) @ replicate (nat (parts - remainder)) base))"

definition divide_half_even :: "int \<Rightarrow> int \<Rightarrow> str + int" where
  "divide_half_even numerator denominator =
     (if denominator = 0 then Inr 0
      else
        let (m, scale) = decimal_round (numerator * sgn denominator) \<bar>denominator\<bar>; value = round_half_even m scale in
        if 28 < int_digits value then Inl ''InvalidOperation'' else Inr value)"

section \<open>Validation\<close>

definition SUB_STATUSES :: "str list" where
  "SUB_STATUSES = [''active'', ''cancelled'', ''trial'']"

definition SUB_INTERVALS :: "str list" where
  "SUB_INTERVALS = [''month'', ''year'']"

definition revops_violations :: "pyval \<Rightarrow> pyval \<Rightarrow> pyval \<Rightarrow> pyval list" where
  "revops_violations subscriptions currency period =
     check (case subscriptions of PList _ \<Rightarrow> True | _ \<Rightarrow> False) ''subscriptions'' ''required_list'' subscriptions @
     check (valid_currency currency) ''currency'' ''required_iso4217_uppercase_3'' currency @
     check (case period of PStr s \<Rightarrow> s \<noteq> [] | _ \<Rightarrow> False) ''period'' ''required_non_empty_str'' period"

definition sub_violations :: "pyval \<Rightarrow> nat \<Rightarrow> pyval \<Rightarrow> str + pyval list" where
  "sub_violations currency idx sub =
     (let at = ''subscriptions['' @ show_int (int idx) @ '']'' in
      case sub of
        PDict d \<Rightarrow>
          bindE (in_names (dget d ''status'') SUB_STATUSES) (\<lambda>known_status.
          bindE (in_names (dget d ''interval'') SUB_INTERVALS) (\<lambda>known_interval. Inr
            (check (str_between 1 128 (dget d ''plan'')) (at @ ''.plan'') ''str_1_128'' (dget d ''plan'') @
             check (amount_ok (dget d ''amount_minor'')) (at @ ''.amount_minor'') ''int_minor_units_gte_0'' (dget d ''amount_minor'') @
             check known_status (at @ ''.status'') (''enum_'' @ py_repr (PList (map PStr SUB_STATUSES))) (dget d ''status'') @
             check known_interval (at @ ''.interval'') (''enum_'' @ py_repr (PList (map PStr SUB_INTERVALS))) (dget d ''interval'') @
             (if \<not> valid_currency (dget d ''currency'')
              then [violation (at @ ''.currency'') ''required_iso4217_uppercase_3'' (py_type_name (dget d ''currency''))]
              else if dget d ''currency'' \<noteq> currency then [violation (at @ ''.currency'') ''must_equal_report_currency'' ''str''] else []))))
      | _ \<Rightarrow> Inr [violation at ''must_be_object'' (py_type_name sub)])"

definition all_sub_violations :: "pyval \<Rightarrow> pyval list \<Rightarrow> str + pyval list" where
  "all_sub_violations currency subs =
     bindE (mapE (\<lambda>(i, s). sub_violations currency i s) (enumerate 0 subs)) (\<lambda>vs. Inr (concat vs))"

section \<open>Recurring revenue\<close>

record revops =
  mrr :: int
  arr :: int
  active_count :: int
  trial_count :: int
  churned_count :: int
  plan_groups :: "(str \<times> int \<times> int) list"

definition no_revops :: revops where
  "no_revops = \<lparr>mrr = 0, arr = 0, active_count = 0, trial_count = 0, churned_count = 0, plan_groups = []\<rparr>"

definition yearly :: "dict \<Rightarrow> bool" where
  "yearly d \<longleftrightarrow> dget d ''interval'' = PStr ''year''"

text \<open>\<open>_allocate(amount_minor, 12)[0]\<close> for a yearly amount; twelve is positive, so nothing raises.\<close>

definition monthly_amount :: "dict \<Rightarrow> int" where
  "monthly_amount d =
     (if yearly d then (case allocate (tx_amount d) 12 of Inr (m # _) \<Rightarrow> m | _ \<Rightarrow> 0) else tx_amount d)"

definition annual_amount :: "dict \<Rightarrow> int" where
  "annual_amount d = (if yearly d then tx_amount d else tx_amount d * 12)"

definition has_status :: "str \<Rightarrow> dict \<Rightarrow> bool" where
  "has_status s d \<longleftrightarrow> dget d ''status'' = PStr s"

definition group_of :: "(str \<times> int \<times> int) list \<Rightarrow> str \<Rightarrow> int \<times> int" where
  "group_of g plan = (case map_of g plan of Some x \<Rightarrow> x | None \<Rightarrow> (0, 0))"

definition add_sub :: "revops \<Rightarrow> dict \<Rightarrow> revops" where
  "add_sub t d =
     (let plan = tx_text d ''plan''; (n, m) = group_of (plan_groups t) plan in
      if has_status ''active'' d then
        t\<lparr>active_count := active_count t + 1, mrr := mrr t + monthly_amount d, arr := arr t + annual_amount d,
          plan_groups := dict_set (plan_groups t) plan (n + 1, m + monthly_amount d)\<rparr>
      else
        let t' = t\<lparr>plan_groups := dict_set (plan_groups t) plan (n + 1, m)\<rparr> in
        if has_status ''trial'' d then t'\<lparr>trial_count := trial_count t + 1\<rparr>
        else if has_status ''cancelled'' d then t'\<lparr>churned_count := churned_count t + 1\<rparr>
        else t')"

definition revops_of :: "dict list \<Rightarrow> revops" where
  "revops_of subs = foldl add_sub no_revops subs"

section \<open>The report\<close>

definition revops_body :: "pyval \<Rightarrow> pyval \<Rightarrow> dict list \<Rightarrow> str + dict" where
  "revops_body currency period subs =
     (let t = revops_of subs in
      bindE (basis_points (churned_count t) (active_count t + churned_count t)) (\<lambda>churn.
      bindE (divide_half_even (mrr t) (active_count t)) (\<lambda>arpa. Inr
        [(''period'', period), (''currency'', currency), (''source'', PStr ''caller_supplied''), (''mrr_minor'', PInt (mrr t)),
         (''arr_minor'', PInt (arr t)), (''active_subscriptions'', PInt (active_count t)), (''trial_subscriptions'', PInt (trial_count t)),
         (''churned_subscriptions'', PInt (churned_count t)), (''churn_rate_bp'', PInt churn),
         (''plan_breakdown'', PDict (map (\<lambda>(plan, n, m). (plan, PDict [(''count'', PInt n), (''mrr_minor'', PInt m)])) (sort_items True (plan_groups t)))),
         (''arpa_minor'', PInt arpa), (''subscription_count'', PInt (int (length subs)))])))"

definition revops_envelope :: "(str \<Rightarrow> str) \<Rightarrow> str \<Rightarrow> str \<Rightarrow> str \<Rightarrow> pyval \<Rightarrow> pyval \<Rightarrow> pyval list \<Rightarrow> str + dict" where
  "revops_envelope sha256 rid now1 now2 currency period subs =
     bindE (revops_body currency period (dict_items subs)) (\<lambda>body.
     let checksum = sha256_hex sha256 (PDict body);
         report = body @ [(''generated_at'', PStr now1), (''result_checksum'', PStr checksum)] in
     raisingE wrong_class
       (success rid ''billing_generate_revops_report'' ''READ_ONLY'' (PDict [(''report'', PDict report)])
         (PDict (read_evidence now2 ''caller_supplied''
            (sha256_hex sha256 (PStr (canonical_json (PDict [(''subscriptions'', PList subs), (''currency'', currency), (''period'', period)]))))
            (int (length subs)) checksum None None))
         None False))"

definition revops_or_refusal :: "(str \<Rightarrow> str) \<Rightarrow> str \<Rightarrow> str \<Rightarrow> str \<Rightarrow> pyval \<Rightarrow> pyval \<Rightarrow> pyval \<Rightarrow> str + dict" where
  "revops_or_refusal sha256 rid now1 now2 subscriptions currency period =
     (let refuse = (\<lambda>vs. raisingE wrong_class
            (validation_failed rid ''billing_generate_revops_report'' vs ''Input violated the tool contract.''));
          vs = revops_violations subscriptions currency period in
      if vs \<noteq> [] then refuse vs
      else let subs = (case subscriptions of PList l \<Rightarrow> l | _ \<Rightarrow> []) in
      bindE (all_sub_violations currency subs) (\<lambda>vs.
      if vs \<noteq> [] then refuse vs else revops_envelope sha256 rid now1 now2 currency period subs))"

definition billing_generate_revops_report :: "(str \<Rightarrow> str) \<Rightarrow> str \<Rightarrow> str \<Rightarrow> str \<Rightarrow> dict \<Rightarrow> py_exc + dict" where
  "billing_generate_revops_report sha256 rid now1 now2 args =
     (case revops_or_refusal sha256 rid now1 now2 (dget args ''subscriptions'') (dget args ''currency'') (dget args ''period'') of
        Inr env \<Rightarrow> Inr env
      | Inl cls \<Rightarrow> from_exception rid ''billing_generate_revops_report'' cls ''upstream_timeout'' None None (Some 2000))"

section \<open>What is reported\<close>

text \<open>The parts of an allocation sum to the total and differ by at most one.\<close>

lemma allocate_exact:
  assumes "allocate amount parts = Inr xs"
  shows "sum_list xs = amount \<and> int (length xs) = parts \<and> (\<forall>x\<in>set xs. x = amount div parts \<or> x = amount div parts + 1)"
proof -
  let ?b = "amount div parts" and ?r = "amount mod parts"
  from assms have p: "0 < parts" and xs: "xs = replicate (nat ?r) (?b + 1) @ replicate (nat (parts - ?r)) ?b"
    by (auto simp: allocate_def guardE_Inr Let_def)
  have r: "0 \<le> ?r" "?r < parts" using p by simp_all
  have "sum_list xs = ?r * (?b + 1) + (parts - ?r) * ?b" using r by (simp add: xs sum_list_replicate)
  also have "\<dots> = parts * ?b + ?r" by (simp add: algebra_simps)
  also have "\<dots> = amount" by simp
  finally show ?thesis using r by (auto simp: xs)
qed

lemma monthly_yearly:
  assumes "yearly d" and "0 \<le> tx_amount d"
  shows "annual_amount d \<le> 12 * monthly_amount d \<and> 12 * monthly_amount d \<le> annual_amount d + 11 \<and>
         (12 * monthly_amount d = annual_amount d \<longleftrightarrow> 12 dvd tx_amount d)"
proof -
  let ?a = "tx_amount d"
  have a: "?a = 12 * (?a div 12) + ?a mod 12" "0 \<le> ?a mod 12" "?a mod 12 < 12" by simp_all
  have "monthly_amount d = (if ?a mod 12 = 0 then ?a div 12 else ?a div 12 + 1)"
  proof (cases "?a mod 12 = 0")
    case True
    then show ?thesis using assms(1) by (simp add: monthly_amount_def allocate_def Let_def numeral_eq_Suc)
  next
    case False
    then obtain n where "nat (?a mod 12) = Suc n" using a(2) by (metis nat_0_iff not0_implies_Suc order_antisym)
    then show ?thesis using assms(1) False by (simp add: monthly_amount_def allocate_def Let_def)
  qed
  moreover have "annual_amount d = ?a" using assms(1) by (simp add: annual_amount_def)
  moreover have "12 dvd ?a \<longleftrightarrow> ?a mod 12 = 0" by (rule dvd_eq_mod_eq_0)
  ultimately have m: "monthly_amount d = (if ?a mod 12 = 0 then ?a div 12 else ?a div 12 + 1)" "annual_amount d = ?a"
    "12 dvd ?a \<longleftrightarrow> ?a mod 12 = 0" by blast+
  show ?thesis
  proof (cases "?a mod 12 = 0")
    case True
    have "monthly_amount d = ?a div 12" using m(1) by (simp only: True if_True simp_thms)
    then have "12 * monthly_amount d = ?a" using True a(1) by linarith
    then show ?thesis using True m(2,3) by simp
  next
    case False
    then have "0 < ?a mod 12" using a(2) by linarith
    moreover have "12 * monthly_amount d = 12 * (?a div 12) + 12" using False m(1) by (simp only: if_False distrib_left mult_1_right)
    ultimately have "?a \<le> 12 * monthly_amount d" "12 * monthly_amount d \<le> ?a + 11" "12 * monthly_amount d \<noteq> ?a" using a by linarith+
    then show ?thesis using False m(2,3) by metis
  qed
qed

lemma monthly_bounds:
  assumes "0 \<le> tx_amount d"
  shows "annual_amount d \<le> 12 * monthly_amount d \<and> 12 * monthly_amount d \<le> annual_amount d + (if yearly d then 11 else 0)"
  using monthly_yearly [OF _ assms] by (cases "yearly d") (auto simp: monthly_amount_def annual_amount_def)

definition actives :: "dict list \<Rightarrow> dict list" where
  "actives subs = filter (has_status ''active'') subs"

definition how_many :: "(dict \<Rightarrow> bool) \<Rightarrow> dict list \<Rightarrow> int" where
  "how_many sel subs = int (length (filter sel subs))"

lemma revops_of_sums:
  "mrr (revops_of subs) = sum_list (map monthly_amount (actives subs)) \<and>
   arr (revops_of subs) = sum_list (map annual_amount (actives subs)) \<and>
   active_count (revops_of subs) = how_many (has_status ''active'') subs \<and>
   trial_count (revops_of subs) = how_many (has_status ''trial'') subs \<and>
   churned_count (revops_of subs) = how_many (has_status ''cancelled'') subs"
proof (induction subs rule: rev_induct)
  case Nil
  then show ?case by (simp add: revops_of_def no_revops_def actives_def how_many_def)
next
  case (snoc d subs)
  have step: "revops_of (subs @ [d]) = add_sub (revops_of subs) d" by (simp add: revops_of_def)
  have excl: "has_status ''active'' d \<Longrightarrow> \<not> has_status ''trial'' d" "has_status ''active'' d \<Longrightarrow> \<not> has_status ''cancelled'' d"
    "has_status ''trial'' d \<Longrightarrow> \<not> has_status ''cancelled'' d"
    by (simp_all add: has_status_def)
  show ?case unfolding step using snoc excl by (auto simp: add_sub_def Let_def actives_def how_many_def split: prod.splits)
qed

lemma valid_subs:
  assumes "all_sub_violations currency vs = Inr []"
  shows "vs = map PDict (dict_items vs)"
    and "d \<in> set (dict_items vs) \<Longrightarrow> 0 \<le> tx_amount d \<and> dget d ''currency'' = currency \<and>
           (has_status ''active'' d \<or> has_status ''trial'' d \<or> has_status ''cancelled'' d)"
proof -
  from assms obtain ws where ws: "mapE (\<lambda>(i, s). sub_violations currency i s) (enumerate 0 vs) = Inr ws" "concat ws = []"
    by (auto simp: all_sub_violations_def bindE_Inr)
  have each: "\<exists>i. sub_violations currency i v = Inr []" if "v \<in> set vs" for v
  proof -
    from that obtain i where i: "i < length vs" "vs ! i = v" by (auto simp: in_set_conv_nth)
    from mapE_Inr [OF ws(1)] i have *: "sub_violations currency i v = Inr (ws ! i)" "i < length ws"
      by (auto simp: list_all2_conv_all_nth nth_enumerate_eq)
    with ws(2) have "ws ! i = []" by simp
    with * show ?thesis by auto
  qed
  have status: "in_names v SUB_STATUSES = Inr True \<Longrightarrow> \<exists>s. v = PStr s \<and> s \<in> set SUB_STATUSES" for v
    by (cases v) (auto simp: in_names_def)
  have dict: "\<exists>d. v = PDict d \<and> amount_ok (dget d ''amount_minor'') \<and> dget d ''currency'' = currency \<and>
      in_names (dget d ''status'') SUB_STATUSES = Inr True" if "v \<in> set vs" for v
    using each [OF that] by (cases v) (auto simp: sub_violations_def Let_def bindE_Inr check_Nil split: if_splits)
  show "vs = map PDict (dict_items vs)"
    unfolding dict_items_def map_map by (rule map_idI [symmetric]) (use dict in fastforce)
  show "0 \<le> tx_amount d \<and> dget d ''currency'' = currency \<and> (has_status ''active'' d \<or> has_status ''trial'' d \<or> has_status ''cancelled'' d)"
    if "d \<in> set (dict_items vs)"
  proof -
    from that obtain v where v: "v \<in> set vs" "d = (case v of PDict d \<Rightarrow> d | _ \<Rightarrow> [])" by (auto simp: dict_items_def)
    from dict [OF v(1)] v(2) have "amount_ok (dget d ''amount_minor'')" "dget d ''currency'' = currency"
      "in_names (dget d ''status'') SUB_STATUSES = Inr True" by auto
    with status show ?thesis
      by (cases "dget d ''amount_minor''") (auto simp: amount_ok_def tx_amount_def has_status_def SUB_STATUSES_def)
  qed
qed

lemma validation_not_ok: "validation_failed rid tool vs message = Inr env \<Longrightarrow> dget env ''ok'' = PBool False"
  by (auto simp: validation_failed_def dest: failure_not_ok)

lemma revops_ok_cases:
  assumes "billing_generate_revops_report sha256 rid now1 now2 args = Inr env" and "dget env ''ok'' = PBool True"
  obtains vs where "dget args ''subscriptions'' = PList vs" and "all_sub_violations (dget args ''currency'') vs = Inr []"
    and "revops_envelope sha256 rid now1 now2 (dget args ''currency'') (dget args ''period'') vs = Inr env"
proof -
  let ?r = "revops_or_refusal sha256 rid now1 now2 (dget args ''subscriptions'') (dget args ''currency'') (dget args ''period'')"
  have "?r = Inr env"
    using assms by (auto simp: billing_generate_revops_report_def from_exception_def Let_def split: sum.splits dest: failure_not_ok)
  then have none: "revops_violations (dget args ''subscriptions'') (dget args ''currency'') (dget args ''period'') = []"
    and rest: "bindE (all_sub_violations (dget args ''currency'') (case dget args ''subscriptions'' of PList l \<Rightarrow> l | _ \<Rightarrow> [])) (\<lambda>vs.
        if vs \<noteq> [] then raisingE wrong_class (validation_failed rid ''billing_generate_revops_report'' vs ''Input violated the tool contract.'')
        else revops_envelope sha256 rid now1 now2 (dget args ''currency'') (dget args ''period'')
               (case dget args ''subscriptions'' of PList l \<Rightarrow> l | _ \<Rightarrow> [])) = Inr env"
    using assms(2) by (auto simp: revops_or_refusal_def Let_def raisingE_Inr split: if_splits dest: validation_not_ok)
  from none obtain vs where vs: "dget args ''subscriptions'' = PList vs"
    by (cases "dget args ''subscriptions''") (auto simp: revops_violations_def check_Nil)
  show thesis
    using that [of vs] rest assms(2) vs
    by (auto simp: bindE_Inr raisingE_Inr split: if_splits dest: validation_not_ok)
qed

text \<open>C31. A revenue report that is \<open>ok\<close> was computed from subscriptions that are objects in the report's currency with non-negative amounts
  and a known status, each of which it counts once. The annual revenue is the sum over the active ones; the monthly revenue takes the first,
  that is the largest, part of each yearly amount, so twelve times it is never below the annual revenue and exceeds it by up to eleven units per yearly
  subscription, although the documentation says that twelve months sum to the year.\<close>

theorem revops_report_sound:
  assumes "billing_generate_revops_report sha256 rid now1 now2 args = Inr env" and "dget env ''ok'' = PBool True"
  shows "\<exists>subs monthly annual. dget args ''subscriptions'' = PList (map PDict subs) \<and>
     (\<forall>d\<in>set subs. 0 \<le> tx_amount d \<and> dget d ''currency'' = dget args ''currency'') \<and>
     monthly = sum_list (map monthly_amount (actives subs)) \<and> annual = sum_list (map annual_amount (actives subs)) \<and>
     dget (report_of env) ''mrr_minor'' = PInt monthly \<and> dget (report_of env) ''arr_minor'' = PInt annual \<and>
     dget (report_of env) ''active_subscriptions'' = PInt (how_many (has_status ''active'') subs) \<and>
     dget (report_of env) ''trial_subscriptions'' = PInt (how_many (has_status ''trial'') subs) \<and>
     dget (report_of env) ''churned_subscriptions'' = PInt (how_many (has_status ''cancelled'') subs) \<and>
     how_many (has_status ''active'') subs + how_many (has_status ''trial'') subs + how_many (has_status ''cancelled'') subs = int (length subs) \<and>
     annual \<le> 12 * monthly \<and> 12 * monthly \<le> annual + 11 * how_many yearly (actives subs)"
proof -
  from revops_ok_cases [OF assms] obtain vs where vs: "dget args ''subscriptions'' = PList vs"
    and valid: "all_sub_violations (dget args ''currency'') vs = Inr []"
    and env: "revops_envelope sha256 rid now1 now2 (dget args ''currency'') (dget args ''period'') vs = Inr env"
    by metis
  define subs where "subs = dict_items vs"
  let ?t = "revops_of subs"
  have args: "dget args ''subscriptions'' = PList (map PDict subs)" using valid_subs(1) [OF valid] vs by (simp add: subs_def)
  have each: "0 \<le> tx_amount d \<and> dget d ''currency'' = dget args ''currency'' \<and>
      (has_status ''active'' d \<or> has_status ''trial'' d \<or> has_status ''cancelled'' d)" if "d \<in> set subs" for d
    using valid_subs(2) [OF valid] that by (simp add: subs_def)
  from env obtain churn arpa more where
    body: "report_of env = strip_dict
        ([(''period'', dget args ''period''), (''currency'', dget args ''currency''), (''source'', PStr ''caller_supplied''),
          (''mrr_minor'', PInt (mrr ?t)), (''arr_minor'', PInt (arr ?t)), (''active_subscriptions'', PInt (active_count ?t)),
          (''trial_subscriptions'', PInt (trial_count ?t)), (''churned_subscriptions'', PInt (churned_count ?t)), (''churn_rate_bp'', PInt churn),
          (''plan_breakdown'', PDict (map (\<lambda>(plan, n, m). (plan, PDict [(''count'', PInt n), (''mrr_minor'', PInt m)])) (sort_items True (plan_groups ?t)))),
          (''arpa_minor'', PInt arpa), (''subscription_count'', PInt (int (length subs)))] @ more)"
    by (auto simp: revops_envelope_def revops_body_def Let_def bindE_Inr raisingE_Inr subs_def dest!: success_report)
  have fields: "dget (report_of env) ''mrr_minor'' = PInt (mrr ?t)" "dget (report_of env) ''arr_minor'' = PInt (arr ?t)"
    "dget (report_of env) ''active_subscriptions'' = PInt (active_count ?t)" "dget (report_of env) ''trial_subscriptions'' = PInt (trial_count ?t)"
    "dget (report_of env) ''churned_subscriptions'' = PInt (churned_count ?t)"
    unfolding body
    by (subst dget_strip, simp add: BANNED_RESPONSE_KEYS_def, simp add: dget_def del: strip_banned.simps(1,2))+
  have act: "0 \<le> tx_amount d" if "d \<in> set (actives subs)" for d using that each by (simp add: actives_def)
  have sums: "sum_list (map annual_amount ds) \<le> 12 * sum_list (map monthly_amount ds) \<and>
      12 * sum_list (map monthly_amount ds) \<le> sum_list (map annual_amount ds) + 11 * how_many yearly ds"
    if "\<And>d. d \<in> set ds \<Longrightarrow> 0 \<le> tx_amount d" for ds
    using that
  proof (induction ds)
    case (Cons d ds)
    have "0 \<le> tx_amount d" using Cons.prems by simp
    from monthly_bounds [OF this] Cons show ?case by (auto simp: how_many_def split: if_splits)
  qed (simp add: how_many_def)
  have count: "how_many (has_status ''active'') ds + how_many (has_status ''trial'') ds + how_many (has_status ''cancelled'') ds = int (length ds)"
    if "\<And>d. d \<in> set ds \<Longrightarrow> has_status ''active'' d \<or> has_status ''trial'' d \<or> has_status ''cancelled'' d" for ds
    using that by (induction ds) (auto simp: how_many_def has_status_def)
  show ?thesis
    using args each fields revops_of_sums [of subs] sums [OF act] count [of subs] by (intro exI [of _ subs]) simp
qed

text \<open>One yearly subscription of 13 units: the monthly revenue is 2, twelve of which are 24.\<close>

definition sample_sub :: dict where
  "sample_sub = [(''plan'', PStr ''pro''), (''amount_minor'', PInt 13), (''status'', PStr ''active''), (''interval'', PStr ''year''), (''currency'', PStr ''USD'')]"

definition sample_sub_args :: dict where
  "sample_sub_args = [(''subscriptions'', PList [PDict sample_sub]), (''currency'', PStr ''USD''), (''period'', PStr ''2026'')]"

lemma divide_half_even_rounded:
  assumes "\<bar>n\<bar> < 10 ^ 27" and "0 < d"
  shows "divide_half_even n d = Inr (round_half_even n d)"
  using decimal_round_half_even [OF assms(2,1)] round_half_even_digits [OF assms] assms(2)
  by (auto simp: divide_half_even_def Let_def split: prod.splits)

lemma sample_revops_ok:
  obtains env where "billing_generate_revops_report sha256 rid now1 now2 sample_sub_args = Inr env" and "dget env ''ok'' = PBool True"
proof -
  have args: "revops_violations (dget sample_sub_args ''subscriptions'') (dget sample_sub_args ''currency'') (dget sample_sub_args ''period'') = []"
    "all_sub_violations (dget sample_sub_args ''currency'') [PDict sample_sub] = Inr []"
    by code_simp+
  have tx: "dget sample_sub_args ''subscriptions'' = PList [PDict sample_sub]" by (simp add: sample_sub_args_def dget_def)
  have "revops_of [sample_sub] = no_revops\<lparr>mrr := 2, arr := 13, active_count := 1, plan_groups := [(''pro'', 1, 2)]\<rparr>"
    by code_simp
  then have t: "mrr (revops_of [sample_sub]) = 2" "active_count (revops_of [sample_sub]) = 1" "churned_count (revops_of [sample_sub]) = 0"
    by (simp_all add: no_revops_def)
  have "divide_half_even 2 1 = Inr 2" by (simp add: divide_half_even_rounded)
  moreover have "\<exists>b. basis_points 0 1 = Inr b" using basis_points_rounded [of 0 1] by auto
  ultimately obtain body where
    body: "revops_body (dget sample_sub_args ''currency'') (dget sample_sub_args ''period'') [sample_sub] = Inr body"
    using t by (auto simp: revops_body_def Let_def)
  have "read_evidence now2 src fp n c None None \<noteq> []" for src fp n c
    by (simp add: read_evidence_def Let_def)
  then obtain env where env: "success rid ''billing_generate_revops_report'' ''READ_ONLY''
      (PDict [(''report'', PDict (body @ [(''generated_at'', PStr now1), (''result_checksum'', PStr (sha256_hex sha256 (PDict body)))]))])
      (PDict (read_evidence now2 ''caller_supplied''
         (sha256_hex sha256 (PStr (canonical_json (PDict [(''subscriptions'', PList [PDict sample_sub]), (''currency'', dget sample_sub_args ''currency''),
            (''period'', dget sample_sub_args ''period'')]))))
         1 (sha256_hex sha256 (PDict body)) None None)) None False = Inr env" and ok: "dget env ''ok'' = PBool True"
    by (rule success_read_only)
  have "revops_envelope sha256 rid now1 now2 (dget sample_sub_args ''currency'') (dget sample_sub_args ''period'') [PDict sample_sub] = Inr env"
    using env by (simp add: revops_envelope_def dict_items_def body Let_def)
  with args tx have "billing_generate_revops_report sha256 rid now1 now2 sample_sub_args = Inr env"
    by (simp add: billing_generate_revops_report_def revops_or_refusal_def Let_def)
  with ok that show thesis by blast
qed

lemma revops_report_sound_witness:
  "\<exists>env. billing_generate_revops_report (\<lambda>_. ''h'') ''r'' ''t1'' ''t2'' sample_sub_args = Inr env \<and> dget env ''ok'' = PBool True \<and>
     dget (report_of env) ''mrr_minor'' = PInt 2 \<and> dget (report_of env) ''arr_minor'' = PInt 13"
proof -
  obtain env where env: "billing_generate_revops_report (\<lambda>_. ''h'') ''r'' ''t1'' ''t2'' sample_sub_args = Inr env" and ok: "dget env ''ok'' = PBool True"
    by (rule sample_revops_ok)
  from revops_report_sound [OF env ok] obtain subs where "dget sample_sub_args ''subscriptions'' = PList (map PDict subs)"
    and fields: "dget (report_of env) ''mrr_minor'' = PInt (sum_list (map monthly_amount (actives subs)))"
      "dget (report_of env) ''arr_minor'' = PInt (sum_list (map annual_amount (actives subs)))"
    by blast
  then have "subs = [sample_sub]" by (auto simp: sample_sub_args_def dget_def)
  moreover have "map monthly_amount (actives [sample_sub]) = [2]" "map annual_amount (actives [sample_sub]) = [13]" by code_simp+
  ultimately show ?thesis using fields env ok by simp
qed

section \<open>The tools that refuse\<close>

definition billing_import_ar_ledger :: "str \<Rightarrow> py_exc + dict" where
  "billing_import_ar_ledger rid =
     quarantined rid ''billing_import_ar_ledger''
       (''Importing an accounts-receivable ledger is not implemented. It requires named provider credentials, a real destination table, a '' @
        ''caller-asserted expected_record_count checked against the actual fetched count, and post-write readback evidence. No rows were '' @
        ''imported and no row count is reported.'') [(''rows_inserted'', PInt 0)] ''FINANCE-TOOL-CONTRACTS.md 3.2 billing_import_ar_ledger''"

definition billing_deploy_plan_change :: "str \<Rightarrow> py_exc + dict" where
  "billing_deploy_plan_change rid =
     quarantined rid ''billing_deploy_plan_change''
       (''Changing a customer'' @ [char_of (39::nat)] @ ''s billing plan is not implemented. It requires a named provider chosen before build (not at '' @
        ''call time), an explicit subscription_id, a current_plan_id optimistic-concurrency guard, proration semantics verified against the '' @
        ''provider'' @ [char_of (39::nat)] @ ''s documented behaviour, readback evidence and a per-call human authorization. No subscription was modified.'')
       [] ''FINANCE-TOOL-CONTRACTS.md 3.2 billing_deploy_plan_change''"

definition billing_get_budget_metrics :: "str \<Rightarrow> py_exc + dict" where
  "billing_get_budget_metrics rid =
     unwired rid ''billing_get_budget_metrics''
       (''No budget store is wired for the billing agent. Budget figures are unavailable; none are invented. Absence of a limit is not headroom.'')"

definition billing_get_audit_log :: "str \<Rightarrow> py_exc + dict" where
  "billing_get_audit_log rid =
     unwired rid ''billing_get_audit_log''
       (''No audit store is wired for the billing agent. No entries can be returned; an empty log must not be inferred.'')"

definition billing_get_alerts :: "str \<Rightarrow> py_exc + dict" where
  "billing_get_alerts rid =
     unwired rid ''billing_get_alerts''
       (''No alert engine is wired for the billing agent. No alerts can be returned; '' @ [char_of (39::nat)] @ ''no alerts raised'' @
        [char_of (39::nat)] @ '' must not be inferred.'')"

end
