(* ===== verification/Sandbox.thy ===== *)
theory Sandbox
  imports Gateway Job_Resources
begin

text \<open>
  Where an agent's commands run and its files go: the sandbox of a job (\<^verbatim>\<open>runtime/sandbox_manager.py\<close>), the tools \<open>workspace_shell\<close>,
  \<open>run_code\<close>, \<open>file_write\<close> and \<open>code_format\<close> that are to be confined by it, and the sandbox routes of \<^verbatim>\<open>main.py\<close>.

  The host is a record: its environment, path resolution, the outcome of making a directory, of the probe of \<^verbatim>\<open>bwrap\<close> and of a child process,
  whose output is its text after decoding. What the program does to the host is a list of effects, so a theorem can speak of every process
  that is started; its environment is \<open>None\<close> when it inherits the gateway's. \<^verbatim>\<open>_set_rlimits\<close> is never called and has no model; log lines are left out.
\<close>

section \<open>Searching text\<close>

text \<open>\<open>re.search\<close>: the pattern, as a test of what a text begins with, holds at some position.\<close>

fun search_at :: "(str \<Rightarrow> bool) \<Rightarrow> str \<Rightarrow> bool" where
  "search_at at [] \<longleftrightarrow> at []"
| "search_at at (c # cs) \<longleftrightarrow> at (c # cs) \<or> search_at at cs"

text \<open>\<open>\b\<close> after a word character.\<close>

definition at_word_end :: "str \<Rightarrow> bool" where
  "at_word_end s \<longleftrightarrow> (case s of [] \<Rightarrow> True | c # _ \<Rightarrow> \<not> word_char c)"

definition at_any :: "str list \<Rightarrow> str \<Rightarrow> bool" where
  "at_any words s \<longleftrightarrow> list_ex (startswith s) words"

lemma search_at_iff: "search_at at s \<longleftrightarrow> (\<exists>u v. s = u @ v \<and> at v)"
proof (induction s)
  case (Cons c s)
  have "(\<exists>u v. c # s = u @ v \<and> at v) \<longleftrightarrow> at (c # s) \<or> (\<exists>u v. s = u @ v \<and> at v)"
    by (metis Cons_eq_append_conv append_Nil)
  with Cons show ?case by simp
qed simp

section \<open>Static guards\<close>

definition BLOCKED_PREFIXES :: "str list" where
  "BLOCKED_PREFIXES =
     [''rm -rf /'', ''rm -rf ~'', ''dd '', ''mkfs'', ''fdisk'', ''shutdown'', ''reboot'', ''halt'', ''kill -9 1'', ''pkill'', ''killall'',
      '':(){ :|:& };:'', ''> /dev/sda'', ''chmod 777 /'', ''chown root'', ''mount '', ''umount '', ''insmod'', ''modprobe'']"

definition SHELL_INTERPRETERS :: "str list" where
  "SHELL_INTERPRETERS = [''bash'', ''sh'', ''zsh'', ''python3'', ''python'', ''perl'', ''ruby'', ''node'']"

definition pipe_to_shell_at :: "str \<Rightarrow> bool" where
  "pipe_to_shell_at s \<longleftrightarrow>
     (case s of [] \<Rightarrow> False
      | c # cs \<Rightarrow> c = CHR ''|'' \<and>
          (let r = dropWhile is_space cs in list_ex (\<lambda>w. startswith r w \<and> at_word_end (drop (length w) r)) SHELL_INTERPRETERS))"

definition SENSITIVE_TOKENS :: "str list" where
  "SENSITIVE_TOKENS =
     [''/etc/passwd'', ''/etc/shadow'', ''/etc/'', ''/root/'', ''/home/'', ''/proc/'', ''/sys/'', ''/var/data'', ''../'', ''..'' @ [char_of (92::nat)],
      ''~/'', ''id_rsa'', ''.aws'', ''.ssh'', ''/dev/sd'']"

definition sensitive_at :: "str \<Rightarrow> bool" where
  "sensitive_at s \<longleftrightarrow> at_any SENSITIVE_TOKENS s \<or> (startswith s ''.env'' \<and> at_word_end (drop 4 s))"

definition guard_command :: "str \<Rightarrow> str option" where
  "guard_command command =
     (let s = strip command; low = lower s in
      if s = [] then Some ''empty_command''
      else (case find (\<lambda>p. str_in (lower p) low) BLOCKED_PREFIXES of
              Some p \<Rightarrow> Some (''blocked_command:'' @ strip p)
            | None \<Rightarrow>
                if search_at pipe_to_shell_at low then Some ''pipe_to_shell_blocked''
                else if search_at sensitive_at (lower s) then Some ''sensitive_path_blocked''
                else None))"

definition SECRET_VALUE_PREFIXES :: "str list" where
  "SECRET_VALUE_PREFIXES = [''sk_live'', ''sk_test'', ''ghp_'', ''glpat-'', ''xoxp-'', ''xoxb-'']"

definition secret_value_at :: "str \<Rightarrow> bool" where
  "secret_value_at s \<longleftrightarrow>
     at_any SECRET_VALUE_PREFIXES s \<or>
     (startswith s ''akia'' \<and> 20 \<le> length s \<and> list_all alnum (take 16 (drop 4 s)))"

definition REDACT_PATTERNS :: "str list" where
  "REDACT_PATTERNS =
     [''token'', ''secret'', ''key'', ''password'', ''api_key'', ''apikey'', ''bearer'', ''auth'', ''private'', ''credential'', ''pwd'']"

definition looks_secret :: "str \<Rightarrow> str \<Rightarrow> bool" where
  "looks_secret k v \<longleftrightarrow> search_at (at_any REDACT_PATTERNS) (lower k) \<or> search_at secret_value_at (lower v)"

section \<open>The host\<close>

datatype child =
    Not_Started str str
  | Exited int str str
  | Lost str str
  | Overran "(str \<times> str) option"

datatype host_effect =
    Made_Dir str
  | Probed "str list"
  | Started "str list" "(str \<times> str) list option"
  | Waited int
  | Killed_Group
  | Killed_Child
  | Removed_Tree str
  | Removed_File str
  | Wrote_File str str

record host =
  h_workspace_root :: str
  h_max_timeout :: int
  h_allow_network :: bool
  h_posix :: bool
  h_environ :: env
  h_which :: "str \<Rightarrow> str option"
  h_resolve :: "str \<Rightarrow> py_exc + str"
  h_mkdir :: "str \<Rightarrow> py_exc option"
  h_write :: "str \<Rightarrow> py_exc option"
  h_probe :: "str list \<Rightarrow> int option"
  h_child :: "str list \<Rightarrow> int \<Rightarrow> child"
  h_killpg_ok :: bool
  h_elapsed :: str

text \<open>The module's state: the outcome of the probe once it is known, the workspace registry, and what was done to the host.\<close>

record sbox =
  bwrap_ok :: "bool option"
  registry :: workspaces
  effects :: "host_effect list"

type_synonym 'a run = "sbox \<Rightarrow> (py_exc + 'a) \<times> sbox"

definition ret :: "'a \<Rightarrow> 'a run" where
  "ret x st = (Inr x, st)"

definition lift_exc :: "py_exc + 'a \<Rightarrow> 'a run" where
  "lift_exc m st = (m, st)"

definition bindR :: "'a run \<Rightarrow> ('a \<Rightarrow> 'b run) \<Rightarrow> 'b run" where
  "bindR m f st = (case m st of (Inl e, st') \<Rightarrow> (Inl e, st') | (Inr x, st') \<Rightarrow> f x st')"

definition done_to :: "host_effect list \<Rightarrow> sbox \<Rightarrow> sbox" where
  "done_to es st = st\<lparr>effects := effects st @ es\<rparr>"

definition did :: "host_effect list \<Rightarrow> unit run" where
  "did es st = (Inr (), done_to es st)"

definition mkdir :: "host \<Rightarrow> str \<Rightarrow> unit run" where
  "mkdir h p st = (case h_mkdir h p of Some e \<Rightarrow> (Inl e, st) | None \<Rightarrow> (Inr (), done_to [Made_Dir p] st))"

text \<open>\<open>a / b\<close> and \<open>p.relative_to(root).as_posix()\<close> of paths in their normal form; \<open>None\<close> is \<open>ValueError\<close>.\<close>

definition path_join :: "str \<Rightarrow> str \<Rightarrow> str" where
  "path_join a b =
     (if startswith b ''/'' then b else if b = [] then a else if endswith a ''/'' then a @ b else a @ ''/'' @ b)"

definition relative_to :: "str \<Rightarrow> str \<Rightarrow> str option" where
  "relative_to p root =
     (if p = root then Some ''.''
      else let r = (if endswith root ''/'' then root else root @ ''/'') in
           if startswith p r then Some (drop (length r) p) else None)"

section \<open>Isolation\<close>

definition probe_argv :: "str \<Rightarrow> str list" where
  "probe_argv path =
     [path, ''--unshare-all'', ''--ro-bind'', ''/usr'', ''/usr'', ''--ro-bind'', ''/bin'', ''/bin'', ''--ro-bind'', ''/lib'', ''/lib'', ''/bin/true'']"

definition bwrap_works :: "host \<Rightarrow> sbox \<Rightarrow> bool \<times> sbox" where
  "bwrap_works h st =
     (case bwrap_ok st of
        Some b \<Rightarrow> (b, st)
      | None \<Rightarrow>
          (case h_which h ''bwrap'' of
             None \<Rightarrow> (False, st\<lparr>bwrap_ok := Some False\<rparr>)
           | Some path \<Rightarrow>
               if path = [] \<or> \<not> h_posix h then (False, st\<lparr>bwrap_ok := Some False\<rparr>)
               else let b = (h_probe h (probe_argv path) = Some 0) in
                    (b, done_to [Probed (probe_argv path)] (st\<lparr>bwrap_ok := Some b\<rparr>))))"

definition isolation_mode :: "host \<Rightarrow> sbox \<Rightarrow> str \<times> sbox" where
  "isolation_mode h st = (case bwrap_works h st of (b, st') \<Rightarrow> (if b then ''bwrap'' else ''unavailable'', st'))"

text \<open>An answer that ends with the isolation in effect.\<close>

definition with_isolation :: "host \<Rightarrow> (str \<Rightarrow> dict) \<Rightarrow> dict run" where
  "with_isolation h answer st = (case isolation_mode h st of (mode, st') \<Rightarrow> (Inr (answer mode), st'))"

definition job_dir_of :: "host \<Rightarrow> str \<Rightarrow> workspaces \<Rightarrow> str" where
  "job_dir_of h job_id reg =
     (case get_workspace job_id reg of Some ws \<Rightarrow> wsp_path ws | None \<Rightarrow> path_join (h_workspace_root h) job_id)"

section \<open>The environment of a command\<close>

text \<open>The source iterates over a set; the order below is one of its orders, and the order of variables has no effect.\<close>

definition SAFE_ENV_PASSTHROUGH :: "str list" where
  "SAFE_ENV_PASSTHROUGH = [''PATH'', ''LANG'', ''LC_ALL'', ''LC_CTYPE'', ''TERM'']"

definition safe_env :: "host \<Rightarrow> str \<Rightarrow> (str \<times> str) list" where
  "safe_env h ws =
     (let env = foldl (\<lambda>env k. case h_environ h k of Some v \<Rightarrow> if v = [] then env else dict_set env k v | None \<Rightarrow> env) [] SAFE_ENV_PASSTHROUGH;
          env = (if map_of env ''PATH'' = None then dict_set env ''PATH'' ''/usr/local/bin:/usr/bin:/bin'' else env) in
      dict_set (dict_set env ''HOME'' ws) ''TMPDIR'' (path_join ws ''.tmp''))"

definition merge_extra_env :: "(str \<times> str) list \<Rightarrow> pyval \<Rightarrow> py_exc + (str \<times> str) list" where
  "merge_extra_env env extra =
     (if \<not> truthy extra then Inr env
      else (case extra of
              PDict d \<Rightarrow> Inr (foldl (\<lambda>env (k, v). if looks_secret k (py_str v) then env else dict_set env k (py_str v)) env d)
            | _ \<Rightarrow> Inl AttributeError))"

section \<open>The command line of the sandbox\<close>

definition bwrap_mounts :: "str list" where
  "bwrap_mounts =
     [''--unshare-user'', ''--unshare-pid'', ''--unshare-ipc'', ''--unshare-uts'', ''--unshare-cgroup'', ''--die-with-parent'',
      ''--ro-bind'', ''/usr'', ''/usr'', ''--ro-bind-try'', ''/bin'', ''/bin'', ''--ro-bind-try'', ''/sbin'', ''/sbin'',
      ''--ro-bind-try'', ''/lib'', ''/lib'', ''--ro-bind-try'', ''/lib64'', ''/lib64'',
      ''--ro-bind-try'', ''/etc/ssl'', ''/etc/ssl'', ''--ro-bind-try'', ''/etc/resolv.conf'', ''/etc/resolv.conf'',
      ''--proc'', ''/proc'', ''--dev'', ''/dev'', ''--tmpfs'', ''/tmp'']"

definition sandbox_rel :: "host \<Rightarrow> str \<Rightarrow> str \<Rightarrow> py_exc + str" where
  "sandbox_rel h root run_cwd =
     (case h_resolve h run_cwd of
        Inl ValueError \<Rightarrow> Inr ''.''
      | Inl e \<Rightarrow> Inl e
      | Inr p \<Rightarrow> Inr (case relative_to p root of Some rel \<Rightarrow> rel | None \<Rightarrow> ''.''))"

definition build_bwrap_argv :: "host \<Rightarrow> str \<Rightarrow> str \<Rightarrow> (str \<times> str) list \<Rightarrow> str \<Rightarrow> py_exc + str list" where
  "build_bwrap_argv h ws run_cwd env command =
     (let bwrap = (case h_which h ''bwrap'' of Some p \<Rightarrow> if p = [] then ''bwrap'' else p | None \<Rightarrow> ''bwrap'') in
      bindE (h_resolve h ws) (\<lambda>root.
      bindE (sandbox_rel h root run_cwd) (\<lambda>rel.
      let chdir = (if rel = ''.'' \<or> rel = [] then ''/workspace'' else ''/workspace/'' @ rel);
          sb_env = dict_set (dict_set env ''HOME'' ''/workspace'') ''TMPDIR'' ''/tmp'' in
      Inr (bwrap # (if h_allow_network h then [] else [''--unshare-net'']) @ bwrap_mounts @
           [''--bind'', root, ''/workspace'', ''--chdir'', chdir, ''--clearenv''] @
           concat (map (\<lambda>(k, v). [''--setenv'', k, v]) sb_env) @ [''/bin/sh'', ''-c'', command]))))"

section \<open>Running a command\<close>

definition MAX_OUTPUT_BYTES :: nat where
  "MAX_OUTPUT_BYTES = 64 * 1024"

definition kill_tree :: "host \<Rightarrow> host_effect list" where
  "kill_tree h = (if h_posix h then if h_killpg_ok h then [Killed_Group] else [Killed_Child] else [Killed_Child])"

definition blank_command :: "pyval \<Rightarrow> py_exc + bool" where
  "blank_command command =
     (if \<not> truthy command then Inr True else case command of PStr s \<Rightarrow> Inr (strip s = []) | _ \<Rightarrow> Inl AttributeError)"

definition int_arg :: "pyval \<Rightarrow> py_exc + int" where
  "int_arg v =
     (case v of
        PNone \<Rightarrow> Inl TypeError | PList _ \<Rightarrow> Inl TypeError | PDict _ \<Rightarrow> Inl TypeError
      | _ \<Rightarrow> optE ValueError (py_int_of v))"

definition resolved_cwd :: "host \<Rightarrow> str \<Rightarrow> pyval \<Rightarrow> py_exc + str" where
  "resolved_cwd h ws cwd =
     (if \<not> truthy cwd then h_resolve h ws
      else case cwd of PStr c \<Rightarrow> h_resolve h (path_join ws c) | _ \<Rightarrow> Inl TypeError)"

text \<open>\<open>run_cwd.relative_to(workspace.resolve())\<close> inside \<open>try\<close>: \<open>Inr False\<close> is the \<open>ValueError\<close> that is caught.\<close>

definition cwd_confined :: "host \<Rightarrow> str \<Rightarrow> str \<Rightarrow> py_exc + bool" where
  "cwd_confined h ws run_cwd =
     (case h_resolve h ws of
        Inl ValueError \<Rightarrow> Inr False
      | Inl e \<Rightarrow> Inl e
      | Inr root \<Rightarrow> Inr (relative_to run_cwd root \<noteq> None))"

definition clamp_timeout :: "host \<Rightarrow> int \<Rightarrow> int" where
  "clamp_timeout h t = min (max 1 t) (h_max_timeout h)"

definition cut_output :: "str \<Rightarrow> pyval" where
  "cut_output s = PStr (take MAX_OUTPUT_BYTES s)"

definition too_long :: "str \<Rightarrow> bool" where
  "too_long s \<longleftrightarrow> MAX_OUTPUT_BYTES < length s"

definition child_answer :: "host \<Rightarrow> str \<Rightarrow> int \<Rightarrow> child \<Rightarrow> dict run" where
  "child_answer h cwd clamped c =
     (case c of
        Not_Started typ msg \<Rightarrow>
          with_isolation h (\<lambda>mode. [(''ok'', PBool False), (''error'', PStr ''spawn_failed''), (''type'', PStr typ), (''message'', PStr msg),
                                    (''isolation'', PStr mode)])
      | Lost typ msg \<Rightarrow>
          bindR (did (kill_tree h)) (\<lambda>_.
          with_isolation h (\<lambda>mode. [(''ok'', PBool False), (''error'', PStr typ), (''message'', PStr msg), (''isolation'', PStr mode)]))
      | Overran rest \<Rightarrow>
          (case (case rest of None \<Rightarrow> ([], []) | Some p \<Rightarrow> p) of (out, err) \<Rightarrow>
          bindR (did (kill_tree h)) (\<lambda>_.
          with_isolation h (\<lambda>mode. [(''ok'', PBool False), (''error'', PStr ''timeout''), (''timeout_seconds'', PInt clamped),
                                    (''isolation'', PStr mode), (''stdout'', cut_output out), (''stderr'', cut_output err)])))
      | Exited code out err \<Rightarrow>
          with_isolation h (\<lambda>mode. [(''ok'', PBool (code = 0)), (''exit_code'', PInt code), (''stdout'', cut_output out),
                                    (''stderr'', cut_output err), (''truncated'', PBool (too_long out \<or> too_long err)), (''cwd'', PStr cwd),
                                    (''isolation'', PStr mode), (''elapsed_s'', PFloat (h_elapsed h))]))"

definition dispatch_command :: "host \<Rightarrow> str \<Rightarrow> str \<Rightarrow> (str \<times> str) list \<Rightarrow> int \<Rightarrow> str \<Rightarrow> dict run" where
  "dispatch_command h ws run_cwd env clamped command st =
     (case bwrap_works h st of
        (False, st') \<Rightarrow>
          (Inr [(''ok'', PBool False), (''error'', PStr ''secure_sandbox_unavailable''), (''isolation'', PStr ''unavailable''),
                (''message'', PStr ''shell execution requires a functional bwrap boundary'')], st')
      | (True, st') \<Rightarrow>
          bindR (lift_exc (build_bwrap_argv h ws run_cwd env command)) (\<lambda>argv.
          bindR (did (Started argv (Some []) # (case h_child h argv clamped of Not_Started _ _ \<Rightarrow> [] | _ \<Rightarrow> [Waited clamped]))) (\<lambda>_.
          child_answer h run_cwd clamped (h_child h argv clamped))) st')"

definition run_in_workspace :: "host \<Rightarrow> str \<Rightarrow> str \<Rightarrow> pyval \<Rightarrow> pyval \<Rightarrow> pyval \<Rightarrow> dict run" where
  "run_in_workspace h base command timeout_s env cwd =
     (let ws = path_join base ''workspace'' in
      bindR (mkdir h ws) (\<lambda>_.
      bindR (mkdir h (path_join base ''.tmp'')) (\<lambda>_.
      bindR (lift_exc (resolved_cwd h ws cwd)) (\<lambda>run_cwd.
      bindR (lift_exc (cwd_confined h ws run_cwd)) (\<lambda>inside.
      if \<not> inside then
        ret [(''ok'', PBool False), (''error'', PStr ''path_escape_blocked''),
             (''message'', PStr (''cwd '' @ py_repr cwd @ '' escapes the workspace''))]
      else
      bindR (mkdir h run_cwd) (\<lambda>_.
      bindR (lift_exc (int_arg timeout_s)) (\<lambda>t.
      bindR (lift_exc (merge_extra_env (safe_env h ws) env)) (\<lambda>run_env.
      dispatch_command h ws run_cwd run_env (clamp_timeout h t) command))))))))"

definition run_in_sandbox :: "host \<Rightarrow> str \<Rightarrow> pyval \<Rightarrow> pyval \<Rightarrow> pyval \<Rightarrow> pyval \<Rightarrow> str option \<Rightarrow> dict run" where
  "run_in_sandbox h job_id command timeout_s env cwd job_dir st =
     bindR (lift_exc (blank_command command)) (\<lambda>blank.
     if blank then ret [(''ok'', PBool False), (''error'', PStr ''empty_command'')]
     else case guard_command (str_or_empty command) of
       Some reason \<Rightarrow>
         with_isolation h (\<lambda>mode. [(''ok'', PBool False), (''error'', PStr ''command_blocked''), (''reason'', PStr reason),
                                   (''isolation'', PStr mode)])
     | None \<Rightarrow>
         run_in_workspace h (case job_dir of Some d \<Rightarrow> d | None \<Rightarrow> job_dir_of h job_id (registry st)) (str_or_empty command) timeout_s env cwd) st"

section \<open>Lifecycle\<close>

definition dict_update :: "dict \<Rightarrow> dict \<Rightarrow> dict" where
  "dict_update d e = foldl (\<lambda>d (k, v). dict_set d k v) d e"

definition workspace_dict :: "(int \<Rightarrow> str) \<Rightarrow> workspace \<Rightarrow> dict" where
  "workspace_dict show_time ws =
     [(''job_id'', PStr (wsp_job_id ws)), (''session_id'', PStr (wsp_session_id ws)), (''path'', PStr (wsp_path ws)),
      (''status'', PStr (wsp_status ws)), (''created_at'', PFloat (show_time (wsp_created_at ws))),
      (''updated_at'', PFloat (show_time (wsp_updated_at ws)))]"

text \<open>\<open>create_workspace\<close> and \<open>set_workspace_status\<close> inside \<open>try\<close>, or else the bare directory.\<close>

definition provision_workspace :: "host \<Rightarrow> int \<Rightarrow> str \<Rightarrow> str \<Rightarrow> str option \<Rightarrow> str run" where
  "provision_workspace h now fresh job_id session_id st =
     (let dir = path_join (h_workspace_root h) job_id; made = (if map_of (registry st) job_id = None then [Made_Dir dir] else []) in
      case create_workspace (path_join (h_workspace_root h)) (h_mkdir h dir = None) now fresh job_id session_id (registry st) of
        Inl _ \<Rightarrow> bindR (mkdir h dir) (\<lambda>_. ret dir) st
      | Inr (ws, reg) \<Rightarrow>
          (case set_workspace_status now job_id ''ACTIVE'' reg of
             Inl _ \<Rightarrow> bindR (mkdir h dir) (\<lambda>_. ret dir) (done_to made (st\<lparr>registry := reg\<rparr>))
           | Inr reg' \<Rightarrow> (Inr (wsp_path ws), done_to made (st\<lparr>registry := reg'\<rparr>))))"

definition create_sandbox :: "host \<Rightarrow> (int \<Rightarrow> str) \<Rightarrow> int \<Rightarrow> str \<Rightarrow> str \<Rightarrow> str option \<Rightarrow> dict run" where
  "create_sandbox h show_time now fresh job_id session_id =
     bindR (provision_workspace h now fresh job_id session_id) (\<lambda>dir.
     bindR (mkdir h (path_join dir ''workspace'')) (\<lambda>_.
     bindR (mkdir h (path_join dir ''.tmp'')) (\<lambda>_.
     with_isolation h (\<lambda>mode.
       [(''ok'', PBool True), (''job_id'', PStr job_id), (''session_id'', opt_val_str session_id), (''workspace_root'', PStr dir),
        (''isolation'', PStr mode), (''created_at'', PFloat (show_time now))]))))"

definition sandbox_status :: "host \<Rightarrow> (int \<Rightarrow> str) \<Rightarrow> str \<Rightarrow> dict run" where
  "sandbox_status h show_time job_id st =
     (case isolation_mode h st of (mode, st1) \<Rightarrow>
      case bwrap_works h st1 of (works, st2) \<Rightarrow>
        let base = [(''job_id'', PStr job_id), (''isolation'', PStr mode), (''bwrap_available'', PBool works)] in
        (Inr (case get_workspace job_id (registry st2) of
                Some ws \<Rightarrow> dict_set (dict_update base (workspace_dict show_time ws)) ''exists'' (PBool True)
              | None \<Rightarrow> dict_set base ''exists'' (PBool False)), st2))"

text \<open>\<open>cleanup\<close> is \<^verbatim>\<open>GENESIS_WORKSPACE_CLEANUP_ENABLED\<close>; \<open>rmtree\<close> ignores errors.\<close>

definition destroy_sandbox :: "bool \<Rightarrow> int \<Rightarrow> str \<Rightarrow> pyval \<Rightarrow> dict run" where
  "destroy_sandbox cleanup now job_id policy st =
     (case get_workspace job_id (registry st) of
        None \<Rightarrow> (Inr [(''ok'', PBool False), (''error'', PStr ''sandbox_not_found''), (''job_id'', PStr job_id)], st)
      | Some ws \<Rightarrow>
          if policy = PStr ''purge'' then
            (case cleanup_workspace cleanup (\<lambda>_. None) now job_id (registry st) of
               (res, reg) \<Rightarrow>
                 (Inr (dict_update [(''ok'', PBool (truthy (dget res ''ok''))), (''job_id'', PStr job_id), (''policy'', policy)] res),
                  done_to (if cleanup then [Removed_Tree (wsp_path ws)] else []) (st\<lparr>registry := reg\<rparr>)))
          else
            (case set_workspace_status now job_id ''UPLOADED'' (registry st) of
               Inl _ \<Rightarrow> (Inr [(''ok'', PBool False), (''error'', PStr ''ValueError''), (''job_id'', PStr job_id)], st)
             | Inr reg \<Rightarrow>
                 (Inr [(''ok'', PBool True), (''job_id'', PStr job_id), (''policy'', policy), (''status'', PStr ''UPLOADED'')],
                  st\<lparr>registry := reg\<rparr>)))"

section \<open>Tools\<close>

text \<open>The keyword arguments of a tool are what the model sent; \<open>job_dir\<close> is added by the runtime.\<close>

definition path_name :: "str \<Rightarrow> str" where
  "path_name p = last (path_parts p)"

definition workspace_shell :: "host \<Rightarrow> dict \<Rightarrow> str option \<Rightarrow> dict run" where
  "workspace_shell h args job_dir =
     bindR (lift_exc (optE TypeError (map_of args ''command''))) (\<lambda>command.
     case job_dir of
       None \<Rightarrow>
         ret [(''ok'', PBool False), (''error'', PStr ''no_job_dir''),
              (''message'', PStr ''workspace_shell requires a job context (_job_dir). Use this tool only within an active job.'')]
     | Some d \<Rightarrow>
         run_in_sandbox h (path_name d) command (dget_default args ''timeout'' (PInt 30)) (dget args ''env_extra'') (dget args ''cwd'') (Some d))"

definition parent_dir :: "str \<Rightarrow> str" where
  "parent_dir p = (let ps = butlast (path_parts p) in if ps = [] then ''.'' else if ps = [[]] then ''/'' else join ''/'' ps)"

definition file_write :: "host \<Rightarrow> str \<Rightarrow> str \<Rightarrow> str option \<Rightarrow> dict run" where
  "file_write h path content job_dir =
     (case job_dir of
        None \<Rightarrow> ret [(''ok'', PBool False), (''error'', PStr ''no_job_dir'')]
      | Some d \<Rightarrow>
          bindR (lift_exc (h_resolve h (path_join d path))) (\<lambda>safe_path.
          bindR (lift_exc (h_resolve h d)) (\<lambda>root.
          if \<not> startswith safe_path root then ret [(''ok'', PBool False), (''error'', PStr ''path_escape_attempt'')]
          else
          bindR (mkdir h (parent_dir safe_path)) (\<lambda>_.
          bindR (lift_exc (case h_write h safe_path of Some e \<Rightarrow> Inl e | None \<Rightarrow> Inr ())) (\<lambda>_.
          bindR (did [Wrote_File safe_path content]) (\<lambda>_.
          ret [(''ok'', PBool True), (''path'', PStr safe_path), (''size'', PInt (int (length content)))]))))))"

text \<open>\<open>run_code\<close> with arguments of the types its schema names. \<open>python\<close> is \<^verbatim>\<open>sys.executable\<close>, \<open>tmp\<close> the temporary file, which can
  be made.\<close>

definition run_code_result :: "int \<Rightarrow> child \<Rightarrow> dict" where
  "run_code_result limit c =
     (case c of
        Exited code out err \<Rightarrow>
          [(''ok'', PBool (code = 0)), (''stdout'', PStr out), (''stderr'', PStr err), (''exit_code'', PInt code)]
      | Overran _ \<Rightarrow> [(''ok'', PBool False), (''error'', PStr ''timeout''), (''timeout_seconds'', PInt limit)]
      | Not_Started typ msg \<Rightarrow> [(''ok'', PBool False), (''error'', PStr typ), (''message'', PStr msg)]
      | Lost typ msg \<Rightarrow> [(''ok'', PBool False), (''error'', PStr typ), (''message'', PStr msg)])"

definition run_code :: "host \<Rightarrow> str \<Rightarrow> str \<Rightarrow> str \<Rightarrow> str \<Rightarrow> int \<Rightarrow> dict run" where
  "run_code h python tmp code language timeout =
     (if language \<noteq> ''python'' then
        ret [(''ok'', PBool False), (''error'', PStr ''unsupported_language''),
             (''message'', PStr (''Language '' @ [char_of (39::nat)] @ language @ [char_of (39::nat)] @ '' is not supported. Only '' @
                [char_of (39::nat)] @ ''python'' @ [char_of (39::nat)] @ '' is currently available.''))]
      else if 10000 < length code then
        ret [(''ok'', PBool False), (''error'', PStr ''code_too_long''),
             (''message'', PStr (''Code exceeds maximum length of 10000 characters ('' @ show_int (int (length code)) @ '' given).''))]
      else
        let limit = min timeout 30; argv = [python, tmp]; c = h_child h argv limit in
        bindR (did [Wrote_File tmp code,
                    Started argv (Some [(''PATH'', case h_environ h ''PATH'' of Some p \<Rightarrow> p | None \<Rightarrow> ''/usr/local/bin:/usr/bin:/bin'')])])
          (\<lambda>_.
        bindR (did ((case c of Not_Started _ _ \<Rightarrow> [] | _ \<Rightarrow> [Waited limit]) @ (case c of Overran _ \<Rightarrow> [Killed_Child] | Lost _ _ \<Rightarrow> [Killed_Child] | _ \<Rightarrow> [])))
          (\<lambda>_.
        bindR (did [Removed_File tmp]) (\<lambda>_. ret (run_code_result limit c)))))"

definition PRETTIER_PARSERS :: "(str \<times> str) list" where
  "PRETTIER_PARSERS = [(''javascript'', ''babel''), (''typescript'', ''typescript''), (''json'', ''json''), (''yaml'', ''yaml'')]"

text \<open>A formatter is fed \<open>content\<close> on its standard input; the outcome of \<open>argv\<close> on it is an argument.\<close>

definition run_formatter :: "host \<Rightarrow> (str list \<Rightarrow> str \<Rightarrow> py_exc + int \<times> str \<times> str) \<Rightarrow> str \<Rightarrow> str list \<Rightarrow> str \<Rightarrow> dict run" where
  "run_formatter h filter_of name argv content =
     (if truthy (opt_val_str (h_which h name)) then
        bindR (did [Started argv None]) (\<lambda>_.
        bindR (lift_exc (filter_of argv content)) (\<lambda>(code, out, err).
        ret (if code \<noteq> 0 then
               [(''ok'', PBool False), (''error'', PStr ''format_failed''), (''stderr'', PStr (take 500 err)), (''content'', PStr content)]
             else [(''ok'', PBool True), (''content'', PStr out)])))
      else ret [(''ok'', PBool False), (''error'', PStr (name @ ''_not_installed'')), (''content'', PStr content)])"

definition code_format :: "host \<Rightarrow> (str list \<Rightarrow> str \<Rightarrow> py_exc + int \<times> str \<times> str) \<Rightarrow> str \<Rightarrow> str \<Rightarrow> dict run" where
  "code_format h filter_of content language =
     (if language = ''python'' then run_formatter h filter_of ''black'' [''black'', ''-''] content
      else (case map_of PRETTIER_PARSERS language of
              Some parser \<Rightarrow> run_formatter h filter_of ''prettier'' [''prettier'', ''--parser'', parser] content
            | None \<Rightarrow> ret [(''ok'', PBool False), (''error'', PStr ''unsupported_language''), (''language'', PStr language)]))"

section \<open>The sandbox routes\<close>

definition health_sandbox :: "host \<Rightarrow> sbox \<Rightarrow> dict \<times> sbox" where
  "health_sandbox h st =
     (case isolation_mode h st of (mode, st1) \<Rightarrow>
      case bwrap_works h st1 of (works, st2) \<Rightarrow>
        ([(''ok'', PBool True), (''isolation'', PStr mode), (''bwrap_available'', PBool works), (''network_allowed'', PBool (h_allow_network h)),
          (''note'', PStr (''bwrap = real kernel isolation; process = hardened process sandbox + static guards (install bubblewrap / Docker deploy for '' @
                         ''full filesystem namespace isolation).''))], st2))"

text \<open>\<open>exc_text\<close> is \<open>str(exc)\<close>.\<close>

definition as_500 :: "(py_exc \<Rightarrow> str) \<Rightarrow> str \<Rightarrow> (py_exc + 'a) \<times> sbox \<Rightarrow> (gw_exc + 'a) \<times> sbox" where
  "as_500 exc_text what r = (raisingE (\<lambda>e. http 500 (what @ exc_text e)) (fst r), snd r)"

definition get_job_sandbox ::
  "auth_ops \<Rightarrow> (int \<Rightarrow> str) \<Rightarrow> (int \<Rightarrow> str) \<Rightarrow> (py_exc \<Rightarrow> str) \<Rightarrow> bool \<Rightarrow> int \<Rightarrow> headers \<Rightarrow> str \<Rightarrow> job_db \<Rightarrow> host \<Rightarrow> sbox \<Rightarrow> (gw_exc + dict) \<times> sbox" where
  "get_job_sandbox ao isoformat show_time exc_text store_ok now hs job_id db h st =
     (case bindE (verify_continuation_principal ao now hs) (\<lambda>p. authorize_job_read isoformat store_ok p job_id ''job.read'' db) of
        Inl e \<Rightarrow> (Inl e, st)
      | Inr _ \<Rightarrow>
          (case get_workspace job_id (registry st) of
             None \<Rightarrow>
               (Inl (http 404 (''No sandbox registered for job_id='' @ repr_str job_id @ ''. Job may not exist or predates hardening.'')), st)
           | Some _ \<Rightarrow> as_500 exc_text ''sandbox_read_failed: '' (sandbox_status h show_time job_id st)))"

definition create_job_sandbox ::
  "env \<Rightarrow> (int \<Rightarrow> str) \<Rightarrow> (py_exc \<Rightarrow> str) \<Rightarrow> int \<Rightarrow> str \<Rightarrow> headers \<Rightarrow> str \<Rightarrow> dict \<Rightarrow> host \<Rightarrow> sbox \<Rightarrow> (gw_exc + dict) \<times> sbox" where
  "create_job_sandbox e show_time exc_text now fresh hs job_id body h st =
     (case verify_gateway_key e hs of
        Inl err \<Rightarrow> (Inl err, st)
      | Inr _ \<Rightarrow>
          (case dget body ''session_id'' of
             PNone \<Rightarrow> as_500 exc_text ''sandbox_create_failed: '' (create_sandbox h show_time now fresh job_id None st)
           | PStr s \<Rightarrow> as_500 exc_text ''sandbox_create_failed: '' (create_sandbox h show_time now fresh job_id (Some s) st)
           | _ \<Rightarrow> (Inl Ill_Typed, st)))"

definition destroy_job_sandbox ::
  "env \<Rightarrow> (py_exc \<Rightarrow> str) \<Rightarrow> bool \<Rightarrow> int \<Rightarrow> headers \<Rightarrow> str \<Rightarrow> dict \<Rightarrow> sbox \<Rightarrow> (gw_exc + dict) \<times> sbox" where
  "destroy_job_sandbox e exc_text cleanup now hs job_id body st =
     (case verify_gateway_key e hs of
        Inl err \<Rightarrow> (Inl err, st)
      | Inr _ \<Rightarrow>
          (case as_500 exc_text ''sandbox_destroy_failed: '' (destroy_sandbox cleanup now job_id (dget_default body ''cleanup_policy'' (PStr ''retain_debug'')) st) of
             (Inr result, st') \<Rightarrow>
               (if \<not> truthy (dget result ''ok'') \<and> dget result ''error'' = PStr ''sandbox_not_found''
                then Inl (HTTPException 404 (PDict result)) else Inr result, st')
           | (Inl err, st') \<Rightarrow> (Inl err, st')))"

section \<open>What a run does to the host\<close>

text \<open>The probe's outcome is remembered; it is only ever that of a probe that succeeded on this host.\<close>

definition bwrap_usable :: "host \<Rightarrow> bool" where
  "bwrap_usable h \<longleftrightarrow> (\<exists>path. h_which h ''bwrap'' = Some path \<and> path \<noteq> [] \<and> h_posix h \<and> h_probe h (probe_argv path) = Some 0)"

definition probe_sound :: "host \<Rightarrow> sbox \<Rightarrow> bool" where
  "probe_sound h st \<longleftrightarrow> (bwrap_ok st = Some True \<longrightarrow> bwrap_usable h)"

text \<open>\<open>only h P m\<close>: whatever \<open>m\<close> does to the host satisfies \<open>P\<close>, and the remembered probe stays sound.\<close>

definition only :: "host \<Rightarrow> (host_effect \<Rightarrow> bool) \<Rightarrow> 'a run \<Rightarrow> bool" where
  "only h P m \<longleftrightarrow>
     (\<forall>st r st'. m st = (r, st') \<longrightarrow> probe_sound h st \<longrightarrow>
        probe_sound h st' \<and> (\<exists>es. effects st' = effects st @ es \<and> list_all P es))"

named_theorems only_intro

lemma onlyI:
  "(\<And>st r st'. m st = (r, st') \<Longrightarrow> probe_sound h st \<Longrightarrow>
      probe_sound h st' \<and> (\<exists>es. effects st' = effects st @ es \<and> list_all P es)) \<Longrightarrow> only h P m"
  by (simp add: only_def)

lemma onlyD:
  assumes "only h P m" and "m st = (r, st')" and "probe_sound h st"
  obtains es where "probe_sound h st'" and "effects st' = effects st @ es" and "list_all P es"
  using assms unfolding only_def by blast

lemma only_ret [only_intro]: "only h P (ret x)"
  by (simp add: only_def ret_def)

lemma only_lift [only_intro]: "only h P (lift_exc m)"
  by (simp add: only_def lift_exc_def)

lemma only_did [only_intro]: "list_all P es \<Longrightarrow> only h P (did es)"
  by (auto simp: only_def did_def done_to_def probe_sound_def)

lemma only_mkdir [only_intro]: "P (Made_Dir p) \<Longrightarrow> only h P (mkdir h p)"
  by (auto simp: only_def mkdir_def done_to_def probe_sound_def split: option.splits)

lemma only_bind:
  assumes "only h P m" and "\<And>x st st'. m st = (Inr x, st') \<Longrightarrow> probe_sound h st \<Longrightarrow> only h P (f x)"
  shows "only h P (bindR m f)"
proof (rule onlyI)
  fix st r st'
  assume run: "bindR m f st = (r, st')" and st: "probe_sound h st"
  obtain q st1 where m: "m st = (q, st1)" by (cases "m st")
  from assms(1) m st obtain es where es: "probe_sound h st1" "effects st1 = effects st @ es" "list_all P es"
    by (rule onlyD)
  show "probe_sound h st' \<and> (\<exists>es. effects st' = effects st @ es \<and> list_all P es)"
  proof (cases q)
    case (Inl e)
    with run m es show ?thesis by (auto simp: bindR_def)
  next
    case (Inr x)
    with run m have "f x st1 = (r, st')" by (simp add: bindR_def)
    moreover have "only h P (f x)" using assms(2) m st Inr by blast
    ultimately obtain fs where "probe_sound h st'" "effects st' = effects st1 @ fs" "list_all P fs"
      using es(1) by (metis onlyD)
    with es show ?thesis by auto
  qed
qed

lemma only_bind_lift: "(\<And>x. m = Inr x \<Longrightarrow> only h P (f x)) \<Longrightarrow> only h P (bindR (lift_exc m) f)"
  by (rule only_bind) (auto simp: lift_exc_def only_def)

lemma only_seq: "only h P m \<Longrightarrow> (\<And>x. only h P (f x)) \<Longrightarrow> only h P (bindR m f)"
  by (rule only_bind)

lemma bwrap_works_sound:
  assumes "bwrap_works h st = (b, st')" and "probe_sound h st" and "\<And>path. h_which h ''bwrap'' = Some path \<Longrightarrow> P (Probed (probe_argv path))"
  shows "probe_sound h st' \<and> (\<exists>es. effects st' = effects st @ es \<and> list_all P es) \<and> (b \<longrightarrow> bwrap_usable h) \<and> bwrap_ok st' = Some b"
  using assms by (auto simp: bwrap_works_def probe_sound_def bwrap_usable_def done_to_def Let_def split: option.splits if_splits)

lemma only_isolation [only_intro]: "(\<And>path. h_which h ''bwrap'' = Some path \<Longrightarrow> P (Probed (probe_argv path))) \<Longrightarrow> only h P (with_isolation h answer)"
proof (rule onlyI)
  fix st r st'
  assume P: "\<And>path. h_which h ''bwrap'' = Some path \<Longrightarrow> P (Probed (probe_argv path))" and run: "with_isolation h answer st = (r, st')" and st: "probe_sound h st"
  obtain b st1 where w: "bwrap_works h st = (b, st1)" by (cases "bwrap_works h st")
  with run have "st' = st1" by (simp add: with_isolation_def isolation_mode_def)
  with bwrap_works_sound [where P = P, OF w st P] show "probe_sound h st' \<and> (\<exists>es. effects st' = effects st @ es \<and> list_all P es)" by simp
qed

section \<open>Reading the sandbox's command line\<close>

text \<open>The options \<^verbatim>\<open>bwrap\<close> documents, with the number of arguments each takes; the first word that is none starts the command.\<close>

definition BWRAP_OPTIONS :: "(str \<times> nat) list" where
  "BWRAP_OPTIONS =
     [(''--unshare-net'', 0), (''--unshare-user'', 0), (''--unshare-pid'', 0), (''--unshare-ipc'', 0), (''--unshare-uts'', 0),
      (''--unshare-cgroup'', 0), (''--die-with-parent'', 0), (''--clearenv'', 0), (''--proc'', 1), (''--dev'', 1), (''--tmpfs'', 1),
      (''--chdir'', 1), (''--ro-bind'', 2), (''--ro-bind-try'', 2), (''--bind'', 2), (''--setenv'', 2)]"

fun bwrap_parse :: "str list \<Rightarrow> (str \<times> str list) list \<times> str list" where
  "bwrap_parse [] = ([], [])"
| "bwrap_parse (w # ws) =
     (case map_of BWRAP_OPTIONS w of
        None \<Rightarrow> ([], w # ws)
      | Some n \<Rightarrow> (case bwrap_parse (drop n ws) of (os, rest) \<Rightarrow> ((w, take n ws) # os, rest)))"

lemma bwrap_parse_options:
  "list_all (\<lambda>(w, args). map_of BWRAP_OPTIONS w = Some (length args)) os \<Longrightarrow>
   bwrap_parse (concat (map (\<lambda>(w, args). w # args) os) @ rest) = (os @ fst (bwrap_parse rest), snd (bwrap_parse rest))"
  by (induction os) (auto split: prod.splits)

text \<open>The options of a run, in the order of its command line.\<close>

definition sandbox_options :: "bool \<Rightarrow> str \<Rightarrow> str \<Rightarrow> (str \<times> str) list \<Rightarrow> (str \<times> str list) list" where
  "sandbox_options net root chdir env =
     (if net then [] else [(''--unshare-net'', [])]) @
     [(''--unshare-user'', []), (''--unshare-pid'', []), (''--unshare-ipc'', []), (''--unshare-uts'', []), (''--unshare-cgroup'', []),
      (''--die-with-parent'', []), (''--ro-bind'', [''/usr'', ''/usr'']), (''--ro-bind-try'', [''/bin'', ''/bin'']),
      (''--ro-bind-try'', [''/sbin'', ''/sbin'']), (''--ro-bind-try'', [''/lib'', ''/lib'']), (''--ro-bind-try'', [''/lib64'', ''/lib64'']),
      (''--ro-bind-try'', [''/etc/ssl'', ''/etc/ssl'']), (''--ro-bind-try'', [''/etc/resolv.conf'', ''/etc/resolv.conf'']),
      (''--proc'', [''/proc'']), (''--dev'', [''/dev'']), (''--tmpfs'', [''/tmp'']), (''--bind'', [root, ''/workspace'']),
      (''--chdir'', [chdir]), (''--clearenv'', [])] @
     map (\<lambda>(k, v). (''--setenv'', [k, v])) env"

lemma build_bwrap_argv_parse:
  assumes "build_bwrap_argv h ws run_cwd env command = Inr argv"
  obtains root chdir rest where "h_resolve h ws = Inr root" and "startswith chdir ''/workspace''"
    and "argv = (case h_which h ''bwrap'' of Some p \<Rightarrow> if p = [] then ''bwrap'' else p | None \<Rightarrow> ''bwrap'') # rest"
    and "bwrap_parse rest =
           (sandbox_options (h_allow_network h) root chdir (dict_set (dict_set env ''HOME'' ''/workspace'') ''TMPDIR'' ''/tmp''),
            [''/bin/sh'', ''-c'', command])"
proof -
  from assms obtain root rel where root: "h_resolve h ws = Inr root"
    and argv: "argv = (case h_which h ''bwrap'' of Some p \<Rightarrow> if p = [] then ''bwrap'' else p | None \<Rightarrow> ''bwrap'') #
      (if h_allow_network h then [] else [''--unshare-net'']) @ bwrap_mounts @
      [''--bind'', root, ''/workspace'', ''--chdir'', if rel = ''.'' \<or> rel = [] then ''/workspace'' else ''/workspace/'' @ rel, ''--clearenv''] @
      concat (map (\<lambda>(k, v). [''--setenv'', k, v]) (dict_set (dict_set env ''HOME'' ''/workspace'') ''TMPDIR'' ''/tmp'')) @
      [''/bin/sh'', ''-c'', command]"
    by (auto simp: build_bwrap_argv_def Let_def call_Inr)
  define chdir where "chdir = (if rel = ''.'' \<or> rel = [] then ''/workspace'' else ''/workspace/'' @ rel)"
  let ?env = "dict_set (dict_set env ''HOME'' ''/workspace'') ''TMPDIR'' ''/tmp''"
  let ?os = "sandbox_options (h_allow_network h) root chdir ?env"
  have env: "concat (map (\<lambda>(k, v). [''--setenv'', k, v]) e) = concat (map ((\<lambda>(w, args). w # args) \<circ> (\<lambda>(k, v). (''--setenv'', [k, v]))) e)"
    for e :: "(str \<times> str) list"
    by (rule arg_cong [where f = concat]) auto
  have tl: "tl argv = concat (map (\<lambda>(w, args). w # args) ?os) @ [''/bin/sh'', ''-c'', command]"
    unfolding argv chdir_def [symmetric] by (simp add: sandbox_options_def bwrap_mounts_def env)
  have "list_all (\<lambda>(w, args). map_of BWRAP_OPTIONS w = Some (length args)) ?os"
    by (auto simp: sandbox_options_def BWRAP_OPTIONS_def list_all_iff)
  from bwrap_parse_options [OF this, of "[''/bin/sh'', ''-c'', command]"]
  have "bwrap_parse (tl argv) = (?os, [''/bin/sh'', ''-c'', command])"
    by (simp add: tl BWRAP_OPTIONS_def)
  moreover have "startswith chdir ''/workspace''" by (auto simp: chdir_def startswith_def)
  moreover have "argv = (case h_which h ''bwrap'' of Some p \<Rightarrow> if p = [] then ''bwrap'' else p | None \<Rightarrow> ''bwrap'') # tl argv"
    by (simp add: argv)
  ultimately show thesis using root that by blast
qed

section \<open>Confinement of commands\<close>

text \<open>The variables a command may see: the home and temporary directory of the sandbox; one the gateway itself has, if it is on the list that
  is passed through, or the default path; and one the caller gave that looks like no secret.\<close>

definition variable_allowed :: "host \<Rightarrow> pyval \<Rightarrow> str \<Rightarrow> str \<Rightarrow> bool" where
  "variable_allowed h extra k v \<longleftrightarrow>
     (k, v) \<in> set [(''HOME'', ''/workspace''), (''TMPDIR'', ''/tmp'')] \<or>
     (k \<notin> set [''HOME'', ''TMPDIR''] \<and>
      (k \<in> set SAFE_ENV_PASSTHROUGH \<and> h_environ h k = Some v \<or> (k, v) = (''PATH'', ''/usr/local/bin:/usr/bin:/bin'') \<or>
       (\<exists>d w. extra = PDict d \<and> (k, w) \<in> set d \<and> v = py_str w \<and> \<not> looks_secret k v)))"

text \<open>A process a run may start: behind the probe and the guards, the \<^verbatim>\<open>bwrap\<close> that was probed with the command, in its own namespaces, with
  one writable mount, which is the job's workspace, and with the allowed variables only.\<close>

definition options_confined :: "host \<Rightarrow> pyval \<Rightarrow> str \<Rightarrow> (str \<times> str list) list \<Rightarrow> bool" where
  "options_confined h extra root os \<longleftrightarrow>
     set [''--unshare-user'', ''--unshare-pid'', ''--unshare-ipc'', ''--unshare-uts'', ''--unshare-cgroup'', ''--die-with-parent'',
          ''--clearenv''] \<subseteq> fst ` set os \<and>
     (''--unshare-net'' \<in> fst ` set os \<longleftrightarrow> \<not> h_allow_network h) \<and>
     (\<forall>args. (''--bind'', args) \<in> set os \<longrightarrow> args = [root, ''/workspace'']) \<and>
     (\<forall>args. (''--ro-bind'', args) \<in> set os \<or> (''--ro-bind-try'', args) \<in> set os \<longrightarrow>
        hd args \<in> set [''/usr'', ''/bin'', ''/sbin'', ''/lib'', ''/lib64'', ''/etc/ssl'', ''/etc/resolv.conf'']) \<and>
     (\<forall>k v. (''--setenv'', [k, v]) \<in> set os \<longrightarrow> variable_allowed h extra k v)"

definition confined :: "host \<Rightarrow> str \<Rightarrow> pyval \<Rightarrow> str \<Rightarrow> str list \<Rightarrow> bool" where
  "confined h base extra command argv \<longleftrightarrow>
     bwrap_usable h \<and> guard_command command = None \<and>
     (\<exists>program rest root os. argv = program # rest \<and> h_which h ''bwrap'' = Some program \<and>
        h_resolve h (path_join base ''workspace'') = Inr root \<and>
        bwrap_parse rest = (os, [''/bin/sh'', ''-c'', command]) \<and> options_confined h extra root os)"

text \<open>The directories a run may make: the workspace, the temporary directory beside it, and what lies inside the workspace.\<close>

definition dir_allowed :: "host \<Rightarrow> str \<Rightarrow> str \<Rightarrow> bool" where
  "dir_allowed h base p \<longleftrightarrow>
     p \<in> set [path_join base ''workspace'', path_join base ''.tmp''] \<or>
     (\<exists>root. h_resolve h (path_join base ''workspace'') = Inr root \<and> relative_to p root \<noteq> None)"

fun effect_allowed :: "host \<Rightarrow> str \<Rightarrow> pyval \<Rightarrow> str \<Rightarrow> host_effect \<Rightarrow> bool" where
  "effect_allowed h base extra command (Started argv env) \<longleftrightarrow> env = Some [] \<and> confined h base extra command argv"
| "effect_allowed h base extra command (Probed argv) \<longleftrightarrow> (\<exists>program. h_which h ''bwrap'' = Some program \<and> argv = probe_argv program)"
| "effect_allowed h base extra command (Made_Dir p) \<longleftrightarrow> dir_allowed h base p"
| "effect_allowed h base extra command (Waited t) \<longleftrightarrow> t \<le> h_max_timeout h"
| "effect_allowed h base extra command Killed_Group \<longleftrightarrow> True"
| "effect_allowed h base extra command Killed_Child \<longleftrightarrow> True"
| "effect_allowed h base extra command _ \<longleftrightarrow> False"

lemma dict_set_member: "p \<in> set (dict_set d k v) \<Longrightarrow> p \<in> set d \<or> p = (k, v)"
  by (induction d k v rule: dict_set.induct) (auto split: if_splits)

lemma foldl_dict_set_member:
  "p \<in> set (foldl (\<lambda>env (k, v). if bad k v then env else dict_set env k (txt v)) env d) \<Longrightarrow>
   p \<in> set env \<or> (\<exists>k v. (k, v) \<in> set d \<and> \<not> bad k v \<and> p = (k, txt v))"
proof (induction d arbitrary: env)
  case (Cons kv d)
  obtain k v where [simp]: "kv = (k, v)" by (cases kv)
  show ?case using Cons.IH [of "if bad k v then env else dict_set env k (txt v)"] Cons.prems
    by (auto split: if_splits dest: dict_set_member)
qed simp

lemma dict_set_distinct: "distinct (map fst d) \<Longrightarrow> distinct (map fst (dict_set d k v))"
proof -
  have "fst ` set (dict_set d k v) = insert k (fst ` set d)" for d :: "('a \<times> 'b) list"
    by (induction d k v rule: dict_set.induct) auto
  then show "distinct (map fst d) \<Longrightarrow> ?thesis" by (induction d k v rule: dict_set.induct) auto
qed

lemma dict_set_replaces: "distinct (map fst d) \<Longrightarrow> p \<in> set (dict_set d k v) \<Longrightarrow> p = (k, v) \<or> (fst p \<noteq> k \<and> p \<in> set d)"
  by (induction d k v rule: dict_set.induct) (force split: if_splits)+

lemma foldl_dict_set_distinct:
  "distinct (map fst env) \<Longrightarrow> distinct (map fst (foldl (\<lambda>env (k, v). if bad k v then env else dict_set env k (txt v)) env d))"
  by (induction d arbitrary: env) (auto simp: dict_set_distinct)

text \<open>What the gateway's own environment contributes.\<close>

lemma safe_env_spec:
  "distinct (map fst (safe_env h ws)) \<and>
   ((k, v) \<in> set (safe_env h ws) \<longrightarrow>
      k \<in> set [''HOME'', ''TMPDIR''] \<or> (k \<in> set SAFE_ENV_PASSTHROUGH \<and> h_environ h k = Some v) \<or>
      (k, v) = (''PATH'', ''/usr/local/bin:/usr/bin:/bin''))"
proof -
  let ?take = "\<lambda>env k. case h_environ h k of Some v \<Rightarrow> if v = [] then env else dict_set env k v | None \<Rightarrow> env"
  let ?ok = "\<lambda>env ks. distinct (map fst env) \<and> (\<forall>(k, v)\<in>set env. k \<in> set ks \<and> h_environ h k = Some v)"
  have step: "?ok env (ks @ [k]) \<and> ?ok (?take env k) (ks @ [k])" if "?ok env ks" for env ks k
    using that by (auto simp: dict_set_distinct split: option.splits dest!: dict_set_member)
  have "?ok (foldl ?take env ks) (ls @ ks)" if "?ok env ls" for env ls ks
    using that
  proof (induction ks arbitrary: env ls)
    case (Cons k ks)
    from Cons.IH [OF conjunct2 [OF step [OF Cons.prems, of k]]] show ?case by simp
  qed simp
  from this [of "[]" "[]" SAFE_ENV_PASSTHROUGH] have own: "?ok (foldl ?take [] SAFE_ENV_PASSTHROUGH) SAFE_ENV_PASSTHROUGH" by simp
  then show ?thesis
    unfolding safe_env_def Let_def by (auto simp: dict_set_distinct split: if_splits dest!: dict_set_member)
qed

lemma merge_extra_env_spec:
  assumes "merge_extra_env env extra = Inr env'" and "distinct (map fst env)"
  shows "distinct (map fst env') \<and>
    ((k, v) \<in> set env' \<longrightarrow> (k, v) \<in> set env \<or> (\<exists>d w. extra = PDict d \<and> (k, w) \<in> set d \<and> v = py_str w \<and> \<not> looks_secret k v))"
  using assms foldl_dict_set_distinct [OF assms(2), of "\<lambda>k v. looks_secret k (py_str v)" py_str]
    foldl_dict_set_member [of "(k, v)" "\<lambda>k v. looks_secret k (py_str v)" py_str env]
  by (cases extra) (auto simp: merge_extra_env_def split: if_splits)

lemma run_env_allowed:
  assumes "merge_extra_env (safe_env h ws) extra = Inr env"
    and "(k, v) \<in> set (dict_set (dict_set env ''HOME'' ''/workspace'') ''TMPDIR'' ''/tmp'')"
  shows "variable_allowed h extra k v"
proof -
  note own = safe_env_spec [of h ws k v]
  note merged = merge_extra_env_spec [OF assms(1) conjunct1 [OF own], of k v]
  have keys: "distinct (map fst env)" using merged by (rule conjunct1)
  from dict_set_replaces [OF dict_set_distinct [OF keys] assms(2)] dict_set_replaces [OF keys, of "(k, v)" "''HOME''" "''/workspace''"]
  have "(k, v) \<in> set [(''HOME'', ''/workspace''), (''TMPDIR'', ''/tmp'')] \<or> (k \<notin> set [''HOME'', ''TMPDIR''] \<and> (k, v) \<in> set env)"
    unfolding fst_conv list.set by blast
  then show ?thesis
  proof
    assume "k \<notin> set [''HOME'', ''TMPDIR''] \<and> (k, v) \<in> set env"
    with merged own show ?thesis unfolding variable_allowed_def by blast
  qed (simp add: variable_allowed_def)
qed

lemma sandbox_options_confined:
  assumes "\<And>k v. (k, v) \<in> set env \<Longrightarrow> variable_allowed h extra k v"
  shows "options_confined h extra root (sandbox_options (h_allow_network h) root chdir env)"
proof -
  let ?os = "sandbox_options (h_allow_network h) root chdir env"
  have setenv: "(''--setenv'', [k, v]) \<in> set ?os \<Longrightarrow> (k, v) \<in> set env" for k v
    by (cases "h_allow_network h") (auto simp: sandbox_options_def)
  have binds: "(''--bind'', args) \<in> set ?os \<Longrightarrow> args = [root, ''/workspace'']"
    "(''--ro-bind'', args) \<in> set ?os \<or> (''--ro-bind-try'', args) \<in> set ?os \<Longrightarrow>
       hd args \<in> set [''/usr'', ''/bin'', ''/sbin'', ''/lib'', ''/lib64'', ''/etc/ssl'', ''/etc/resolv.conf'']" for args
    by (cases "h_allow_network h"; auto simp: sandbox_options_def)+
  have spaces: "set [''--unshare-user'', ''--unshare-pid'', ''--unshare-ipc'', ''--unshare-uts'', ''--unshare-cgroup'', ''--die-with-parent'',
          ''--clearenv''] \<subseteq> fst ` set ?os"
    by (simp add: sandbox_options_def)
  have netns: "''--unshare-net'' \<in> fst ` set ?os \<longleftrightarrow> \<not> h_allow_network h"
    by (cases "h_allow_network h") (auto simp: sandbox_options_def)
  show ?thesis unfolding options_confined_def using spaces netns binds assms [OF setenv] by blast
qed

lemma dispatch_only:
  assumes env: "merge_extra_env (safe_env h (path_join base ''workspace'')) extra = Inr env"
    and guard: "guard_command command = None" and t: "clamped \<le> h_max_timeout h"
  shows "only h (effect_allowed h base extra command) (dispatch_command h (path_join base ''workspace'') run_cwd env clamped command)"
proof (rule onlyI)
  let ?ws = "path_join base ''workspace''" and ?P = "effect_allowed h base extra command"
  fix st r st'
  assume run: "dispatch_command h ?ws run_cwd env clamped command st = (r, st')" and st: "probe_sound h st"
  obtain b st1 where w: "bwrap_works h st = (b, st1)" by (cases "bwrap_works h st")
  have s1: "probe_sound h st1 \<and> (\<exists>es. effects st1 = effects st @ es \<and> list_all ?P es) \<and> (b \<longrightarrow> bwrap_usable h)"
    using bwrap_works_sound [where P = ?P, OF w st] by simp
  show "probe_sound h st' \<and> (\<exists>es. effects st' = effects st @ es \<and> list_all ?P es)"
  proof (cases b)
    case False
    with run w s1 show ?thesis by (auto simp: dispatch_command_def)
  next
    case True
    let ?rest = "\<lambda>argv. bindR (did (Started argv (Some []) # (case h_child h argv clamped of Not_Started _ _ \<Rightarrow> [] | _ \<Rightarrow> [Waited clamped])))
      (\<lambda>_. child_answer h run_cwd clamped (h_child h argv clamped))"
    have conf: "confined h base extra command argv" if argv: "build_bwrap_argv h ?ws run_cwd env command = Inr argv" for argv
    proof -
      let ?env = "dict_set (dict_set env ''HOME'' ''/workspace'') ''TMPDIR'' ''/tmp''"
      from argv obtain root chdir rest where "h_resolve h ?ws = Inr root"
        and "argv = (case h_which h ''bwrap'' of Some p \<Rightarrow> if p = [] then ''bwrap'' else p | None \<Rightarrow> ''bwrap'') # rest"
        and "bwrap_parse rest = (sandbox_options (h_allow_network h) root chdir ?env, [''/bin/sh'', ''-c'', command])"
        by (rule build_bwrap_argv_parse)
      moreover have "options_confined h extra root (sandbox_options (h_allow_network h) root chdir ?env)"
        using run_env_allowed [OF env] by (rule sandbox_options_confined)
      moreover from True s1 obtain program where "h_which h ''bwrap'' = Some program" "program \<noteq> []" by (auto simp: bwrap_usable_def split: option.splits)
      ultimately show ?thesis unfolding confined_def using True s1 guard by auto
    qed
    have child: "only h ?P (child_answer h run_cwd clamped c)" for c
      by (cases c) (auto simp: child_answer_def kill_tree_def split: prod.split intro!: only_intro only_seq)
    have "only h ?P (?rest argv)" if "build_bwrap_argv h ?ws run_cwd env command = Inr argv" for argv
      by (rule only_seq [OF only_did child]) (use t conf [OF that] in \<open>auto split: child.split\<close>)
    then have all: "only h ?P (bindR (lift_exc (build_bwrap_argv h ?ws run_cwd env command)) ?rest)" by (rule only_bind_lift)
    have st1: "bindR (lift_exc (build_bwrap_argv h ?ws run_cwd env command)) ?rest st1 = (r, st')"
      using run w True by (simp add: dispatch_command_def)
    from onlyD [OF all st1] s1 obtain fs where "probe_sound h st'" "effects st' = effects st1 @ fs" "list_all ?P fs" by blast
    with s1 show ?thesis by auto
  qed
qed

lemma cwd_confined_allowed: "cwd_confined h (path_join base ''workspace'') p = Inr True \<Longrightarrow> dir_allowed h base p"
  by (auto simp: cwd_confined_def dir_allowed_def split: sum.splits py_exc.splits)

lemma run_in_workspace_only:
  assumes "guard_command command = None"
  shows "only h (effect_allowed h base env command) (run_in_workspace h base command timeout_s env cwd)"
proof -
  let ?ws = "path_join base ''workspace''" and ?P = "effect_allowed h base env command"
  have own: "dir_allowed h base ?ws" "dir_allowed h base (path_join base ''.tmp'')" by (simp_all add: dir_allowed_def)
  have go: "only h ?P (bindR (mkdir h run_cwd) (\<lambda>_. bindR (lift_exc (int_arg timeout_s)) (\<lambda>t.
      bindR (lift_exc (merge_extra_env (safe_env h ?ws) env)) (\<lambda>run_env. dispatch_command h ?ws run_cwd run_env (clamp_timeout h t) command))))"
    if "cwd_confined h ?ws run_cwd = Inr True" for run_cwd
    using cwd_confined_allowed [OF that]
    by (intro only_seq [OF only_mkdir] only_seq [OF only_lift] only_bind_lift [OF dispatch_only [OF _ assms]]) (simp_all add: clamp_timeout_def)
  show ?thesis
    unfolding run_in_workspace_def Let_def
  proof (rule only_seq [OF only_mkdir only_seq [OF only_mkdir only_bind_lift]])
    fix run_cwd
    show "only h ?P (bindR (lift_exc (cwd_confined h ?ws run_cwd)) (\<lambda>inside.
      if \<not> inside then
        ret [(''ok'', PBool False), (''error'', PStr ''path_escape_blocked''),
             (''message'', PStr (''cwd '' @ py_repr cwd @ '' escapes the workspace''))]
      else
        bindR (mkdir h run_cwd) (\<lambda>_. bindR (lift_exc (int_arg timeout_s)) (\<lambda>t.
          bindR (lift_exc (merge_extra_env (safe_env h ?ws) env)) (\<lambda>run_env. dispatch_command h ?ws run_cwd run_env (clamp_timeout h t) command)))))"
      by (rule only_bind_lift) (auto intro: only_ret go)
  qed (use own in simp_all)
qed

text \<open>C6. Whatever command, timeout, environment and directory it is called with, a run in the sandbox touches the host only as allowed. It makes
  directories inside the job's workspace and its temporary one; probes the \<^verbatim>\<open>bwrap\<close> that was found with the fixed command line of the probe; waits
  no longer than the limit; kills what it started; and starts no process but that same \<^verbatim>\<open>bwrap\<close>, after its probe succeeded, with the command it was
  given, which the guards let through, in its own namespaces (the network's unless the operator allows it), with the workspace as the only writable
  mount, and with no variables but its home, its temporary directory, the gateway's own few, and those the caller gave that look like no secret.\<close>

theorem sandbox_run_confined:
  assumes "run_in_sandbox h job_id command timeout_s env cwd job_dir st = (r, st')" and "probe_sound h st"
    and "base = (case job_dir of Some d \<Rightarrow> d | None \<Rightarrow> job_dir_of h job_id (registry st))"
  shows "probe_sound h st' \<and>
         (\<exists>es. effects st' = effects st @ es \<and> list_all (effect_allowed h base env (str_or_empty command)) es \<and>
               (es \<noteq> [] \<longrightarrow> (\<exists>c. command = PStr c)))"
proof (cases "blank_command command")
  case (Inl e)
  with assms show ?thesis by (simp add: run_in_sandbox_def bindR_def lift_exc_def)
next
  case (Inr blank)
  show ?thesis
  proof (cases blank)
    case True
    with assms Inr show ?thesis by (simp add: run_in_sandbox_def bindR_def lift_exc_def ret_def)
  next
    case False
    with Inr obtain c where c: "command = PStr c" by (cases command) (auto simp: blank_command_def split: if_splits)
    let ?m = "case guard_command (str_or_empty command) of
       Some reason \<Rightarrow>
         with_isolation h (\<lambda>mode. [(''ok'', PBool False), (''error'', PStr ''command_blocked''), (''reason'', PStr reason),
                                   (''isolation'', PStr mode)])
     | None \<Rightarrow> run_in_workspace h base (str_or_empty command) timeout_s env cwd"
    have m: "?m st = (r, st')"
      using assms Inr False by (simp add: run_in_sandbox_def bindR_def lift_exc_def split: option.splits)
    have "only h (effect_allowed h base env (str_or_empty command)) ?m"
      by (cases "guard_command (str_or_empty command)") (simp_all add: run_in_workspace_only only_isolation)
    from onlyD [OF this m assms(2)] c show ?thesis by blast
  qed
qed

text \<open>A host with a working \<^verbatim>\<open>bwrap\<close> whose children print their command line's length and exit.\<close>

definition sample_host :: host where
  "sample_host = \<lparr>h_workspace_root = ''/tmp/jobs'', h_max_timeout = 120, h_allow_network = False, h_posix = True,
     h_environ = (\<lambda>k. if k = ''PATH'' then Some ''/bin'' else None), h_which = (\<lambda>_. Some ''/usr/bin/bwrap''),
     h_resolve = Inr, h_mkdir = (\<lambda>_. None), h_write = (\<lambda>_. None), h_probe = (\<lambda>_. Some 0),
     h_child = (\<lambda>argv _. Exited 0 (show_int (int (length argv))) []), h_killpg_ok = True, h_elapsed = ''0.1''\<rparr>"

definition fresh_sbox :: sbox where
  "fresh_sbox = \<lparr>bwrap_ok = None, registry = [], effects = []\<rparr>"

definition sample_run :: "(py_exc + dict) \<times> sbox" where
  "sample_run = run_in_sandbox sample_host ''7'' (PStr ''ls'') (PInt 600) (PDict [(''API_KEY'', PStr ''x''), (''A'', PStr ''b'')]) PNone None fresh_sbox"

lemma sample_run_starts: "\<exists>argv. Started argv (Some []) \<in> set (effects (snd sample_run))"
proof -
  let ?extra = "PDict [(''API_KEY'', PStr ''x''), (''A'', PStr ''b'')]" and ?ws = "''/tmp/jobs/7/workspace''"
  have paths: "job_dir_of sample_host ''7'' (registry fresh_sbox) = ''/tmp/jobs/7''" "path_join ''/tmp/jobs/7'' ''workspace'' = ?ws"
    "path_join ''/tmp/jobs/7'' ''.tmp'' = ''/tmp/jobs/7/.tmp''" by code_simp+
  have checks: "blank_command (PStr ''ls'') = Inr False" "guard_command ''ls'' = None" "str_or_empty (PStr ''ls'') = ''ls''"
    "cwd_confined sample_host ?ws ?ws = Inr True" "resolved_cwd sample_host ?ws PNone = Inr ?ws" "int_arg (PInt 600) = Inr 600" by code_simp+
  obtain run_env where env: "merge_extra_env (safe_env sample_host ?ws) ?extra = Inr run_env" by (simp add: merge_extra_env_def)
  obtain argv where argv: "build_bwrap_argv sample_host ?ws ?ws run_env ''ls'' = Inr argv"
    by (simp add: build_bwrap_argv_def sample_host_def sandbox_rel_def Let_def)
  have mk: "mkdir sample_host p st = (Inr (), done_to [Made_Dir p] st)" for p st by (simp add: mkdir_def sample_host_def)
  have works: "bwrap_works sample_host (done_to es fresh_sbox) = (True, done_to (es @ [Probed (probe_argv ''/usr/bin/bwrap'')]) (fresh_sbox\<lparr>bwrap_ok := Some True\<rparr>))" for es
    by (simp add: bwrap_works_def done_to_def fresh_sbox_def sample_host_def)
  have keep: "x \<in> set (effects st) \<Longrightarrow> x \<in> set (effects (snd (child_answer sample_host cwd t (Exited 0 out err) st)))" for x st cwd t out err
    by (auto simp: child_answer_def with_isolation_def isolation_mode_def bwrap_works_def done_to_def Let_def split: option.splits if_splits)
  have child: "h_child sample_host argv t = Exited 0 (show_int (int (length argv))) []" for t by (simp add: sample_host_def)
  have "Started argv (Some []) \<in> set (effects (snd sample_run))"
    unfolding sample_run_def run_in_sandbox_def
    by (simp add: paths checks bindR_def lift_exc_def run_in_workspace_def mk Let_def env dispatch_command_def)
       (simp add: done_to_def works [unfolded done_to_def] argv child did_def bindR_def lift_exc_def keep [unfolded done_to_def])
  then show ?thesis ..
qed

lemma sandbox_run_confined_witness:
  "\<exists>es argv. effects (snd sample_run) = effects fresh_sbox @ es \<and>
     list_all (effect_allowed sample_host ''/tmp/jobs/7'' (PDict [(''API_KEY'', PStr ''x''), (''A'', PStr ''b'')]) ''ls'') es \<and>
     Started argv (Some []) \<in> set es \<and> confined sample_host ''/tmp/jobs/7'' (PDict [(''API_KEY'', PStr ''x''), (''A'', PStr ''b'')]) ''ls'' argv"
proof -
  let ?extra = "PDict [(''API_KEY'', PStr ''x''), (''A'', PStr ''b'')]"
  have base: "''/tmp/jobs/7'' = (case None of Some d \<Rightarrow> d | None \<Rightarrow> job_dir_of sample_host ''7'' (registry fresh_sbox))"
    by code_simp
  have "probe_sound sample_host fresh_sbox" by (simp add: probe_sound_def fresh_sbox_def)
  from sandbox_run_confined [OF _ this base, of "PStr ''ls''" "PInt 600" ?extra PNone "fst sample_run" "snd sample_run"]
  obtain es where es: "effects (snd sample_run) = effects fresh_sbox @ es" "list_all (effect_allowed sample_host ''/tmp/jobs/7'' ?extra ''ls'') es"
    by (auto simp: sample_run_def)
  obtain argv where argv: "Started argv (Some []) \<in> set es" using sample_run_starts by (auto simp: es(1) fresh_sbox_def)
  with es(2) have "effect_allowed sample_host ''/tmp/jobs/7'' ?extra ''ls'' (Started argv (Some []))" unfolding list_all_iff by blast
  with es argv show ?thesis by auto
qed

text \<open>The command line of that run, evaluated: the timeout is cut to the limit, which is 120 where the tool's schema says 60, and the
  variable that looks like a key is dropped.\<close>

lemma sample_run_argv:
  "clamp_timeout sample_host 600 = 120"
  "map_option (drop 39) (case bindE (merge_extra_env (safe_env sample_host ''/j/workspace'') (PDict [(''API_KEY'', PStr ''x''), (''A'', PStr ''b'')]))
       (\<lambda>env. build_bwrap_argv sample_host ''/j/workspace'' ''/j/workspace/out'' env ''ls'') of Inr argv \<Rightarrow> Some argv | Inl _ \<Rightarrow> None) =
     Some [''/workspace/out'', ''--clearenv'', ''--setenv'', ''PATH'', ''/bin'', ''--setenv'', ''HOME'', ''/workspace'', ''--setenv'', ''TMPDIR'', ''/tmp'',
           ''--setenv'', ''A'', ''b'', ''/bin/sh'', ''-c'', ''ls'']"
  by code_simp+

section \<open>What is answered\<close>

lemma bindR_Inr: "bindR m f st = (Inr y, st') \<longleftrightarrow> (\<exists>x st1. m st = (Inr x, st1) \<and> f x st1 = (Inr y, st'))"
  by (cases "m st") (auto simp: bindR_def split: sum.splits)

lemma with_isolation_Inr: "with_isolation h answer st = (Inr d, st') \<longleftrightarrow> (\<exists>mode. isolation_mode h st = (mode, st') \<and> d = answer mode)"
  by (cases "isolation_mode h st") (auto simp: with_isolation_def)

lemma bwrap_known: "bwrap_ok st = Some b \<Longrightarrow> bwrap_works h st = (b, st)"
  by (simp add: bwrap_works_def)

lemma bwrap_works_known: "bwrap_works h st = (b, st') \<Longrightarrow> bwrap_ok st' = Some b"
  by (auto simp: bwrap_works_def done_to_def Let_def split: option.splits if_splits)

text \<open>An answer that is \<open>ok\<close> is that of a process that was started under \<^verbatim>\<open>bwrap\<close> and exited with 0.\<close>

lemma dispatch_ok:
  assumes "dispatch_command h ws run_cwd env clamped command st = (Inr d, st')" and "truthy (dget d ''ok'')"
  shows "\<exists>argv out err. Started argv (Some []) \<in> set (effects st') \<and> h_child h argv clamped = Exited 0 out err \<and>
           dget d ''stdout'' = cut_output out \<and> dget d ''stderr'' = cut_output err \<and> dget d ''isolation'' = PStr ''bwrap''"
proof -
  obtain b st1 where w: "bwrap_works h st = (b, st1)" by (cases "bwrap_works h st")
  with assms have b: "b" by (cases b) (auto simp: dispatch_command_def dget_def)
  from bwrap_works_known [OF w] b have known: "bwrap_ok st1 = Some True" by simp
  from assms(1) w b obtain argv where
    run: "bindR (did (Started argv (Some []) # (case h_child h argv clamped of Not_Started _ _ \<Rightarrow> [] | _ \<Rightarrow> [Waited clamped])))
            (\<lambda>_. child_answer h run_cwd clamped (h_child h argv clamped)) st1 = (Inr d, st')"
    by (auto simp: dispatch_command_def bindR_Inr lift_exc_def)
  then obtain es where st2: "child_answer h run_cwd clamped (h_child h argv clamped) (done_to (Started argv (Some []) # es) st1) = (Inr d, st')"
    by (auto simp: bindR_def did_def)
  have works: "bwrap_works h (done_to es st1) = (True, done_to es st1)" for es
    by (rule bwrap_known) (simp add: known done_to_def)
  show ?thesis
  proof (cases "h_child h argv clamped")
    case (Exited code out err)
    with st2 works assms(2) show ?thesis
      by (auto simp: child_answer_def with_isolation_def isolation_mode_def dget_def done_to_def)
  qed (use st2 assms(2) in \<open>auto simp: child_answer_def with_isolation_Inr bindR_Inr dget_def split: prod.splits\<close>)
qed

lemma sandbox_ok:
  assumes "run_in_sandbox h job_id command timeout_s env cwd job_dir st = (Inr d, st')" and "truthy (dget d ''ok'')"
  shows "\<exists>argv t out err. Started argv (Some []) \<in> set (effects st') \<and> h_child h argv (clamp_timeout h t) = Exited 0 out err \<and>
           dget d ''stdout'' = cut_output out \<and> dget d ''stderr'' = cut_output err \<and> dget d ''isolation'' = PStr ''bwrap''"
proof -
  have neg: "\<not> truthy (dget [(''ok'', PBool False), (''error'', e)] ''ok'')" "\<not> truthy (dget ((''ok'', PBool False) # rest) ''ok'')" for e rest
    by (simp_all add: dget_def)
  from assms obtain base c st1 where run: "run_in_workspace h base c timeout_s env cwd st1 = (Inr d, st')"
    by (auto simp: run_in_sandbox_def bindR_Inr lift_exc_def ret_def with_isolation_def neg split: if_splits option.splits prod.splits)
  then obtain run_cwd renv t st2 where "dispatch_command h (path_join base ''workspace'') run_cwd renv (clamp_timeout h t) c st2 = (Inr d, st')"
    using assms(2) by (auto simp: run_in_workspace_def Let_def bindR_Inr lift_exc_def ret_def neg split: if_splits)
  from dispatch_ok [OF this assms(2)] show ?thesis by blast
qed

section \<open>Tools outside the sandbox\<close>

text \<open>Although its schema speaks of an isolated subprocess with no network access, \<open>run_code\<close> starts every Python text of at most 10000
  characters as a plain child of the gateway: no guard reads the text, no probe is asked, and the command line is not a confined one.\<close>

theorem run_code_unconfined:
  assumes "length code \<le> 10000"
  shows "\<exists>env. Started [python, tmp] (Some env) \<in> set (effects (snd (run_code h python tmp code ''python'' timeout st))) \<and>
               Wrote_File tmp code \<in> set (effects (snd (run_code h python tmp code ''python'' timeout st))) \<and>
               bwrap_ok (snd (run_code h python tmp code ''python'' timeout st)) = bwrap_ok st \<and>
               (\<forall>base extra command. \<not> confined h base extra command [python, tmp])"
proof -
  have parse: "snd (bwrap_parse [tmp]) \<in> {[], [tmp]}" by (auto split: option.splits)
  have "\<not> confined h base extra command [python, tmp]" for base extra command
  proof
    assume "confined h base extra command [python, tmp]"
    then obtain os where "bwrap_parse [tmp] = (os, [''/bin/sh'', ''-c'', command])" unfolding confined_def by auto
    with parse show False by (metis insertE list.distinct(1) list.inject singletonD snd_conv)
  qed
  then show ?thesis using assms by (auto simp: run_code_def Let_def bindR_def did_def done_to_def ret_def)
qed

lemma run_code_unconfined_witness:
  "\<exists>env. Started [''python3'', ''/tmp/a.py''] (Some env) \<in> set (effects (snd (run_code sample_host ''python3'' ''/tmp/a.py'' ''import socket'' ''python'' 5 fresh_sbox)))"
  using run_code_unconfined [of "''import socket''" "''python3''" "''/tmp/a.py''" sample_host 5 fresh_sbox] by auto

text \<open>The check of \<open>file_write\<close> compares text: a path that resolves to the root followed by anything, a sibling of the job's directory whose
  name only begins like it included, is written. \<open>assert_inside_workspace\<close> refuses it.\<close>

lemma file_write_accepts:
  assumes "h_resolve h (path_join d path) = Inr (root @ s)" and "h_resolve h d = Inr root"
    and "h_mkdir h (parent_dir (root @ s)) = None" and "h_write h (root @ s) = None"
  shows "Wrote_File (root @ s) content \<in> set (effects (snd (file_write h path content (Some d) st)))"
  using assms by (simp add: file_write_def bindR_def lift_exc_def mkdir_def did_def done_to_def ret_def)

lemma file_write_only:
  assumes "file_write h path content (Some d) st = (r, st')" and "h_resolve h d = Inr root"
  shows "effects st' = effects st \<or>
         (\<exists>p. startswith p root \<and> h_resolve h (path_join d path) = Inr p \<and>
              (effects st' = effects st @ [Made_Dir (parent_dir p)] \<or> effects st' = effects st @ [Made_Dir (parent_dir p), Wrote_File p content]))"
  using assms
  by (auto simp: file_write_def bindR_def lift_exc_def mkdir_def did_def done_to_def ret_def split: sum.splits if_splits option.splits prod.splits)

text \<open>The purge of a sandbox removes the directory that was registered for its id. An id is joined to the root as it is, so that a sandbox
  provisioned under the id \<^verbatim>\<open>..\<close> is purged with everything beside the root.\<close>

lemma destroy_purges:
  assumes "get_workspace job_id (registry st) = Some ws"
  shows "effects (snd (destroy_sandbox True now job_id (PStr ''purge'') st)) = effects st @ [Removed_Tree (wsp_path ws)]"
  using assms by (simp add: destroy_sandbox_def done_to_def cleanup_workspace_def get_workspace_def)

lemma purge_beside_root:
  "last (effects (snd (destroy_sandbox True 9 ''..'' (PStr ''purge'') (snd (create_sandbox sample_host show_int 8 ''u'' ''..'' None fresh_sbox))))) =
   Removed_Tree ''/tmp/jobs/..''"
  by code_simp

text \<open>The registry stays well formed under the lifecycle operations.\<close>

lemma provision_workspaces_ok:
  "provision_workspace h now fresh job_id session_id st = (r, st') \<Longrightarrow> workspaces_ok (registry st) \<Longrightarrow> workspaces_ok (registry st')"
  by (auto simp: provision_workspace_def Let_def bindR_def mkdir_def ret_def done_to_def split: sum.splits prod.splits option.splits)
     (metis create_workspace_ok(1) set_workspace_status_ok(1))+

lemma cleanup_registry_ok: "cleanup_workspace on rm now job reg = (res, reg') \<Longrightarrow> workspaces_ok reg \<Longrightarrow> workspaces_ok reg'"
  using cleanup_workspace_ok [of reg on rm now job] by simp

lemma destroy_workspaces_ok:
  "destroy_sandbox cleanup now job_id policy st = (r, st') \<Longrightarrow> workspaces_ok (registry st) \<Longrightarrow> workspaces_ok (registry st')"
  by (auto simp: destroy_sandbox_def done_to_def split: sum.splits prod.splits option.splits if_splits
      intro: cleanup_registry_ok set_workspace_status_ok(1))

text \<open>The documentation of \<open>run_in_sandbox\<close> says that it never raises; an argument of a wrong type makes it raise.\<close>

lemma run_in_sandbox_raises:
  "fst (run_in_sandbox sample_host ''7'' (PInt 1) (PInt 5) PNone PNone None fresh_sbox) = Inl AttributeError"
  "fst (run_in_sandbox sample_host ''7'' (PStr ''ls'') (PStr ''soon'') PNone PNone None fresh_sbox) = Inl ValueError"
  "fst (run_in_sandbox sample_host ''7'' (PStr ''ls'') (PInt 5) (PStr ''x'') PNone None fresh_sbox) = Inl AttributeError"
  by code_simp+

text \<open>Provisioning and tearing down a sandbox over the routes need the gateway key.\<close>

lemma sandbox_routes_gated:
  "create_job_sandbox e show_time exc_text now fresh hs job_id body h st = (r, st') \<Longrightarrow> st' \<noteq> st \<Longrightarrow> verify_gateway_key e hs = Inr ()"
  "destroy_job_sandbox e exc_text cleanup now hs job_id body st = (r, st') \<Longrightarrow> st' \<noteq> st \<Longrightarrow> verify_gateway_key e hs = Inr ()"
  by (auto simp: create_job_sandbox_def destroy_job_sandbox_def split: sum.splits)

end
