(* ===== verification/Artifacts.thy ===== *)
theory Artifacts
  imports Sandbox Durable_Store
begin

text \<open>
  The files a job leaves behind: \<^verbatim>\<open>artifact_store.py\<close>, which puts them into a bucket or on the local disk, the routes of \<^verbatim>\<open>main.py\<close> that
  list and serve them, and the events of a job (\<^verbatim>\<open>runtime/observability.py\<close>) with the routes that read them, the session and the trace.

  The bucket and the local directory are association lists from keys and from real paths to contents. The cloud client, the MIME table, the
  digest of a file, \<open>Path.resolve\<close> and the outcome of a copy are arguments; an error of connecting counts as one of the call. The
  configured directory is in \<open>pathlib\<close>'s normal form.
\<close>

section \<open>The store\<close>

text \<open>\<open>ClientError\<close> and \<open>BotoCoreError\<close>, with their text, are caught; every other exception leaves the module.\<close>

datatype s3_error = Boto_Error str | Other_Error py_exc

record s3_client =
  s3_put :: "str \<Rightarrow> str \<Rightarrow> s3_error option"
  s3_presign :: "str \<Rightarrow> int \<Rightarrow> s3_error + str"
  s3_objects :: "(str \<times> str) list \<Rightarrow> str \<Rightarrow> s3_error + (str \<times> int) list"

record artifact_env =
  ae_boto :: bool
  ae_env :: env
  ae_ttl :: int
  ae_s3 :: s3_client
  ae_mime :: "str \<Rightarrow> str option"
  ae_sha256 :: "str \<Rightarrow> str option"
  ae_copy :: "str \<Rightarrow> py_exc option"
  ae_resolve :: "str \<Rightarrow> str"

record storage =
  st_bucket :: "(str \<times> str) list"
  st_local :: "(str \<times> str) list"

definition env_or :: "env \<Rightarrow> str \<Rightarrow> str \<Rightarrow> str" where
  "env_or e name dflt = (case e name of Some v \<Rightarrow> v | None \<Rightarrow> dflt)"

definition S3_BUCKET :: "artifact_env \<Rightarrow> str" where
  "S3_BUCKET a = env_or (ae_env a) ''GENESIS_S3_BUCKET'' ''swarmsync-genesis-artifacts''"

definition LOCAL_DIR :: "artifact_env \<Rightarrow> str" where
  "LOCAL_DIR a = env_or (ae_env a) ''GENESIS_LOCAL_ARTIFACT_DIR'' ''/var/data/genesis-artifacts''"

text \<open>The lifetime of a signed URL, read when the module is imported.\<close>

definition SIGNED_URL_TTL_S :: "env \<Rightarrow> py_exc + int" where
  "SIGNED_URL_TTL_S e = optE ValueError (py_int (env_or e ''GENESIS_SIGNED_URL_TTL_SECONDS'' (show_int (7 * 24 * 3600))))"

definition s3_available :: "artifact_env \<Rightarrow> bool" where
  "s3_available a \<longleftrightarrow>
     ae_boto a \<and> opt_header (ae_env a ''AWS_ACCESS_KEY_ID'') \<noteq> [] \<and> opt_header (ae_env a ''AWS_SECRET_ACCESS_KEY'') \<noteq> []"

text \<open>What the client is made with; an S3-compatible store has its endpoint in the environment.\<close>

definition s3_client_args :: "env \<Rightarrow> dict" where
  "s3_client_args e =
     [(''aws_access_key_id'', opt_val_str (e ''AWS_ACCESS_KEY_ID'')), (''aws_secret_access_key'', opt_val_str (e ''AWS_SECRET_ACCESS_KEY'')),
      (''region_name'', PStr (env_or e ''AWS_REGION'' ''us-east-1''))] @
     (if opt_header (e ''GENESIS_S3_ENDPOINT'') \<noteq> [] then [(''endpoint_url'', PStr (opt_header (e ''GENESIS_S3_ENDPOINT'')))] else [])"

definition guess_mime :: "artifact_env \<Rightarrow> str \<Rightarrow> str \<Rightarrow> str" where
  "guess_mime a name fallback = (case ae_mime a name of Some m \<Rightarrow> if m \<noteq> [] then m else fallback | None \<Rightarrow> fallback)"

section \<open>Uploads\<close>

definition file_meta :: "artifact_env \<Rightarrow> str \<Rightarrow> str \<Rightarrow> str \<Rightarrow> dict" where
  "file_meta a name mime content =
     [(''filename'', PStr name), (''mime_type'', PStr mime), (''size_bytes'', PInt (int (length content))),
      (''sha256'', opt_val_str (ae_sha256 a content))]"

definition gateway_path :: "str \<Rightarrow> str \<Rightarrow> str" where
  "gateway_path job name = ''/artifacts/'' @ job @ ''/'' @ name"

definition local_path :: "artifact_env \<Rightarrow> str \<Rightarrow> str \<Rightarrow> str" where
  "local_path a job name = path_join (path_join (LOCAL_DIR a) job) name"

definition upload_local :: "artifact_env \<Rightarrow> str \<Rightarrow> str \<Rightarrow> str \<Rightarrow> str \<Rightarrow> storage \<Rightarrow> (py_exc + dict) \<times> storage" where
  "upload_local a job name mime content st =
     (let dest = local_path a job name in
      case ae_copy a dest of
        Some e \<Rightarrow> (Inl e, st)
      | None \<Rightarrow>
          (Inr ([(''ok'', PBool True), (''backend'', PStr ''local''), (''uri'', PStr (''file://'' @ dest)),
                 (''signed_url'', PStr (gateway_path job name)), (''expires_in_seconds'', PNone)] @ file_meta a name mime content),
           st\<lparr>st_local := dict_set (st_local st) (ae_resolve a dest) content\<rparr>))"

text \<open>The file on disk is its path with its content, \<open>None\<close> when it does not exist.\<close>

definition upload_file ::
  "artifact_env \<Rightarrow> str \<Rightarrow> str \<Rightarrow> str option \<Rightarrow> str option \<Rightarrow> str \<Rightarrow> storage \<Rightarrow> (py_exc + dict) \<times> storage" where
  "upload_file a job path file object_name content_type st =
     (case file of
        None \<Rightarrow> (Inr [(''ok'', PBool False), (''error'', PStr ''local_file_missing''), (''path'', PStr path)], st)
      | Some content \<Rightarrow>
          let name = (if opt_header object_name \<noteq> [] then opt_header object_name else last (path_parts path));
              key = job @ ''/'' @ name; mime = guess_mime a name content_type in
          if s3_available a then
            (case s3_put (ae_s3 a) key mime of
               Some (Boto_Error _) \<Rightarrow> upload_local a job name mime content st
             | Some (Other_Error e) \<Rightarrow> (Inl e, st)
             | None \<Rightarrow>
                 let st = st\<lparr>st_bucket := dict_set (st_bucket st) key content\<rparr> in
                 (case s3_presign (ae_s3 a) key (ae_ttl a) of
                    Inl (Boto_Error _) \<Rightarrow> upload_local a job name mime content st
                  | Inl (Other_Error e) \<Rightarrow> (Inl e, st)
                  | Inr url \<Rightarrow>
                      (Inr ([(''ok'', PBool True), (''backend'', PStr ''s3''), (''uri'', PStr (''s3://'' @ S3_BUCKET a @ ''/'' @ key)),
                             (''signed_url'', PStr url), (''expires_in_seconds'', PInt (ae_ttl a))] @ file_meta a name mime content), st)))
          else upload_local a job name mime content st)"

definition EXCLUDE_TOP :: "str list" where
  "EXCLUDE_TOP = [''logs'', ''conduit'', ''__pycache__'', ''.git'']"

definition excluded :: "str \<Rightarrow> bool" where
  "excluded rel \<longleftrightarrow> fst (split_first (CHR ''/'') rel) \<in> set EXCLUDE_TOP"

text \<open>The columns \<open>artifact_record\<close> writes beside the path and the name.\<close>

definition artifact_columns :: "str option \<Rightarrow> str option \<Rightarrow> dict \<Rightarrow> dict" where
  "artifact_columns session slug r =
     [(''sessionId'', opt_val_str session), (''agentSlug'', opt_val_str slug), (''mimeType'', dget r ''mime_type''),
      (''sizeBytes'', dget r ''size_bytes''), (''sha256'', dget r ''sha256''), (''storageBackend'', dget r ''backend''), (''uri'', dget r ''uri''),
      (''signedUrl'', dget r ''signed_url'')]"

definition record_upload :: "str \<Rightarrow> str option \<Rightarrow> str option \<Rightarrow> str \<Rightarrow> dict \<Rightarrow> durable_state \<Rightarrow> durable_state" where
  "record_upload job session slug rel r du =
     (if truthy (dget r ''ok'')
      then artifact_record job rel (py_str (dget_default r ''filename'' (PStr rel))) (artifact_columns session slug r) du else du)"

text \<open>\<open>files\<close> are the files \<open>rglob\<close> finds under the directory, with their paths relative to it.\<close>

fun upload_files ::
  "artifact_env \<Rightarrow> str \<Rightarrow> str \<Rightarrow> str option \<Rightarrow> str option \<Rightarrow> (str \<times> str) list \<Rightarrow> storage \<Rightarrow> durable_state \<Rightarrow>
   (py_exc + dict list) \<times> storage \<times> durable_state" where
  "upload_files a job dir session slug [] st du = (Inr [], st, du)"
| "upload_files a job dir session slug ((rel, content) # files) st du =
     (if excluded rel then upload_files a job dir session slug files st du
      else
        case upload_file a job (path_join dir rel) (Some content) (Some rel) ''application/octet-stream'' st of
          (Inl e, st1) \<Rightarrow> (Inl e, st1, du)
        | (Inr r, st1) \<Rightarrow>
            (case upload_files a job dir session slug files st1 (record_upload job session slug rel r du) of
               (Inl e, st2, du2) \<Rightarrow> (Inl e, st2, du2)
             | (Inr rs, st2, du2) \<Rightarrow> (Inr (r # rs), st2, du2)))"

definition upload_dir ::
  "artifact_env \<Rightarrow> str \<Rightarrow> str \<Rightarrow> (str \<times> str) list option \<Rightarrow> str option \<Rightarrow> str option \<Rightarrow> storage \<Rightarrow> durable_state \<Rightarrow>
   (py_exc + dict) \<times> storage \<times> durable_state" where
  "upload_dir a job dir listing session slug st du =
     (case listing of
        None \<Rightarrow> (Inr [(''ok'', PBool False), (''error'', PStr ''dir_missing''), (''path'', PStr dir)], st, du)
      | Some files \<Rightarrow>
          (case upload_files a job dir session slug files st du of
             (Inl e, st1, du1) \<Rightarrow> (Inl e, st1, du1)
           | (Inr rs, st1, du1) \<Rightarrow>
               (bindE (case rs of [] \<Rightarrow> Inr (PStr ''none'') | r # _ \<Rightarrow> getitem r ''backend'') (\<lambda>backend.
                Inr [(''ok'', PBool True), (''files'', PList (map PDict rs)), (''backend'', backend)]), st1, du1)))"

section \<open>Listing\<close>

definition s3_failed :: "str \<Rightarrow> dict" where
  "s3_failed msg = [(''ok'', PBool False), (''error'', PStr ''s3_error''), (''message'', PStr msg)]"

definition get_signed_url :: "artifact_env \<Rightarrow> str \<Rightarrow> str \<Rightarrow> py_exc + dict" where
  "get_signed_url a job name =
     (if s3_available a then
        (case s3_presign (ae_s3 a) (job @ ''/'' @ name) (ae_ttl a) of
           Inr url \<Rightarrow> Inr [(''ok'', PBool True), (''signed_url'', PStr url), (''expires_in_seconds'', PInt (ae_ttl a))]
         | Inl (Boto_Error msg) \<Rightarrow> Inr (s3_failed msg)
         | Inl (Other_Error e) \<Rightarrow> Inl e)
      else Inr [(''ok'', PBool True), (''signed_url'', PStr (gateway_path job name)), (''expires_in_seconds'', PNone)])"

text \<open>\<open>key.split("/", 1)[1]\<close>; a key without a slash raises \<open>IndexError\<close>, the keys under a prefix that ends with one have it.\<close>

definition object_item :: "str \<times> int \<Rightarrow> py_exc + pyval" where
  "object_item kn =
     bindE (optE (RuntimeError ''IndexError'') (snd (split_first (CHR ''/'') (fst kn)))) (\<lambda>name.
     Inr (PDict [(''name'', PStr name), (''size'', PInt (snd kn))]))"

definition local_items :: "artifact_env \<Rightarrow> str \<Rightarrow> storage \<Rightarrow> pyval list" where
  "local_items a job st =
     (let root = ae_resolve a (path_join (LOCAL_DIR a) job) in
      concat (map (\<lambda>(p, content). case relative_to p root of
                     Some rel \<Rightarrow> (if p = root then [] else [PDict [(''name'', PStr rel), (''size'', PInt (int (length content)))]])
                   | None \<Rightarrow> [])
        (st_local st)))"

definition list_artifacts :: "artifact_env \<Rightarrow> str \<Rightarrow> storage \<Rightarrow> py_exc + dict" where
  "list_artifacts a job st =
     (if s3_available a then
        (case s3_objects (ae_s3 a) (st_bucket st) (job @ ''/'') of
           Inl (Boto_Error msg) \<Rightarrow> Inr (s3_failed msg)
         | Inl (Other_Error e) \<Rightarrow> Inl e
         | Inr objs \<Rightarrow> bindE (mapE object_item objs) (\<lambda>items.
             Inr [(''ok'', PBool True), (''backend'', PStr ''s3''), (''items'', PList items)]))
      else Inr [(''ok'', PBool True), (''backend'', PStr ''local''), (''items'', PList (local_items a job st))])"

section \<open>The routes of artifacts\<close>

text \<open>A row of the durable table beside a fresh link; \<open>isoformat\<close> prints its time.\<close>

definition artifact_entry :: "(int \<Rightarrow> str) \<Rightarrow> artifact_row \<Rightarrow> str \<Rightarrow> dict \<Rightarrow> dict" where
  "artifact_entry isoformat r name fresh =
     (let d = af_details r in
      [(''name'', PStr name), (''filename'', PStr (af_filename r)), (''size_bytes'', dget d ''sizeBytes''), (''sha256'', dget d ''sha256''),
       (''mime_type'', dget d ''mimeType''), (''backend'', dget d ''storageBackend''), (''uri'', dget d ''uri''),
       (''signed_url'', py_or (dget fresh ''signed_url'') (dget d ''signedUrl'')), (''expires_in_seconds'', dget fresh ''expires_in_seconds''),
       (''non_durable'', PBool (dget d ''storageBackend'' = PStr ''local'')), (''created_at'', PStr (isoformat (af_created_at r)))])"

definition row_name :: "artifact_row \<Rightarrow> str" where
  "row_name r = (if af_path r \<noteq> [] then af_path r else af_filename r)"

definition durable_listing :: "artifact_env \<Rightarrow> (int \<Rightarrow> str) \<Rightarrow> str \<Rightarrow> artifact_row list \<Rightarrow> py_exc + dict" where
  "durable_listing a isoformat job rows =
     bindE (mapE (\<lambda>r. bindE (get_signed_url a job (row_name r)) (\<lambda>fresh. Inr (PDict (artifact_entry isoformat r (row_name r) fresh)))) rows) (\<lambda>es.
     Inr [(''job_id'', PStr job), (''backend'', case rows of r # _ \<Rightarrow> dget (af_details r) ''storageBackend'' | [] \<Rightarrow> PNone), (''artifacts'', PList es),
          (''count'', PInt (int (length es))), (''source'', PStr ''durable'')])"

definition listed_entry :: "artifact_env \<Rightarrow> str \<Rightarrow> pyval \<Rightarrow> pyval \<Rightarrow> py_exc + pyval" where
  "listed_entry a job backend item =
     (let d = (case item of PDict d \<Rightarrow> d | _ \<Rightarrow> []); name = py_str (dget_default d ''name'' (PStr [])) in
      bindE (get_signed_url a job name) (\<lambda>url. Inr (PDict
        [(''name'', PStr name), (''size_bytes'', dget_default d ''size'' (PInt 0)), (''signed_url'', dget url ''signed_url''),
         (''expires_in_seconds'', dget url ''expires_in_seconds''), (''backend'', backend), (''non_durable'', PBool (backend = PStr ''local''))])))"

definition items_of :: "dict \<Rightarrow> pyval list" where
  "items_of listing = (case dget listing ''items'' of PList items \<Rightarrow> items | _ \<Rightarrow> [])"

definition live_listing :: "artifact_env \<Rightarrow> str \<Rightarrow> storage \<Rightarrow> gw_exc + dict" where
  "live_listing a job st =
     bindE (raisingE Gw_Python (list_artifacts a job st)) (\<lambda>result.
     guardE (truthy (dget result ''ok'')) (HTTPException 404 (dget_default result ''error'' (PStr ''artifacts_not_found'')))
    (bindE (raisingE Gw_Python (mapE (listed_entry a job (dget result ''backend'')) (items_of result))) (\<lambda>es.
     Inr [(''job_id'', PStr job), (''backend'', dget result ''backend''), (''artifacts'', PList es), (''count'', PInt (int (length es)))])))"

definition get_job_artifacts ::
  "auth_ops \<Rightarrow> (int \<Rightarrow> str) \<Rightarrow> bool \<Rightarrow> int \<Rightarrow> headers \<Rightarrow> str \<Rightarrow> job_db \<Rightarrow> artifact_env \<Rightarrow> (str \<times> str) option \<Rightarrow> storage \<Rightarrow> durable_state \<Rightarrow>
   (gw_exc + dict) \<times> durable_state" where
  "get_job_artifacts ao isoformat store_ok now h job db a err st du =
     (case bindE (verify_continuation_principal ao now h) (\<lambda>p.
           guardE store_ok (http 503 ''job_store unavailable'') (require_owned_job isoformat p (get_job job db) ''artifact.read'')) of
        Inl e \<Rightarrow> (Inl e, du)
      | Inr _ \<Rightarrow>
          (case artifacts_by_job job err du of
             ([], du') \<Rightarrow> (live_listing a job st, du')
           | (rows, du') \<Rightarrow> (raisingE Gw_Python (durable_listing a isoformat job rows), du')))"

definition refreshed_item :: "artifact_env \<Rightarrow> str \<Rightarrow> pyval \<Rightarrow> py_exc + pyval" where
  "refreshed_item a job item =
     (case item of
        PDict d \<Rightarrow>
          bindE (getitem d ''name'') (\<lambda>name.
          bindE (get_signed_url a job (py_str name)) (\<lambda>info.
          if truthy (dget info ''ok'')
          then bindE (getitem info ''signed_url'') (\<lambda>url.
               Inr (PDict (dict_set (dict_set d ''signed_url'' url) ''expires_in_seconds'' (dget info ''expires_in_seconds''))))
          else Inr (PDict d)))
      | _ \<Rightarrow> Inl TypeError)"

definition job_artifacts :: "env \<Rightarrow> headers \<Rightarrow> str \<Rightarrow> artifact_env \<Rightarrow> storage \<Rightarrow> gw_exc + dict" where
  "job_artifacts e h job a st =
     bindE (verify_gateway_key e h) (\<lambda>_.
     bindE (raisingE Gw_Python (list_artifacts a job st)) (\<lambda>listing.
     guardE (truthy (dget listing ''ok'')) (HTTPException 500 (dget_default listing ''error'' (PStr ''unknown'')))
    (bindE (raisingE Gw_Python (mapE (refreshed_item a job) (items_of listing))) (\<lambda>items.
     Inr [(''job_id'', PStr job), (''backend'', dget listing ''backend''), (''items'', PList items)]))))"

text \<open>The content of the file that is sent.\<close>

definition serve_artifact :: "env \<Rightarrow> headers \<Rightarrow> str \<Rightarrow> str \<Rightarrow> artifact_env \<Rightarrow> storage \<Rightarrow> gw_exc + str" where
  "serve_artifact e h job name a st =
     bindE (verify_gateway_key e h) (\<lambda>_.
     let real = ae_resolve a (local_path a job name) in
     guardE (relative_to real (ae_resolve a (LOCAL_DIR a)) \<noteq> None) (http 400 ''invalid path'')
    (optE (http 404 ''artifact not found'') (map_of (st_local st) real)))"

section \<open>Events, sessions and traces\<close>

text \<open>The event file of a job, line by line.\<close>

type_synonym event_files = "(str \<times> str list) list"

definition events_path :: "env \<Rightarrow> str \<Rightarrow> str" where
  "events_path e job = path_join (path_join (path_join (env_or e ''GENESIS_WORKSPACE_ROOT'' ''/tmp/jobs'') job) ''logs'') ''events.jsonl''"

definition event_of :: "str \<Rightarrow> str \<Rightarrow> str \<Rightarrow> dict \<Rightarrow> dict" where
  "event_of ts job typ data =
     foldl (\<lambda>d (k, v). dict_set d k v) [(''ts'', PFloat ts), (''job_id'', PStr job), (''event_type'', PStr typ)] data"

text \<open>\<open>writable\<close> says whether the file could be opened for appending. A session id that is no text is not modelled.\<close>

definition emit_event :: "env \<Rightarrow> bool \<Rightarrow> str \<Rightarrow> str \<Rightarrow> str \<Rightarrow> dict \<Rightarrow> event_files \<Rightarrow> durable_state \<Rightarrow> event_files \<times> durable_state" where
  "emit_event e writable ts job typ data files du =
     (let path = events_path e job; old = (case map_of files path of Some ls \<Rightarrow> ls | None \<Rightarrow> []) in
      (if writable then dict_set files path (old @ [plain_json (PDict (event_of ts job typ data))]) else files,
       event_insert job typ (Some data) (case dget data ''session_id'' of PStr s \<Rightarrow> Some s | _ \<Rightarrow> None) du))"

text \<open>\<open>readable\<close> is how many lines the file yields before reading it raises, if it does.\<close>

definition get_events ::
  "env \<Rightarrow> (str \<Rightarrow> pyval option) \<Rightarrow> nat option \<Rightarrow> (int \<Rightarrow> str) \<Rightarrow> (str \<times> str) option \<Rightarrow> str \<Rightarrow> event_files \<Rightarrow> durable_state \<Rightarrow> pyval list \<times> durable_state" where
  "get_events e loads readable isoformat err job files du =
     (case events_get isoformat job err du of
        (ev # evs, du') \<Rightarrow> (map PDict (ev # evs), du')
      | ([], du') \<Rightarrow>
          (case map_of files (events_path e job) of
             None \<Rightarrow> ([], du')
           | Some ls \<Rightarrow>
               (List.map_filter (\<lambda>l. if strip l = [] then None else loads (strip l)) (case readable of None \<Rightarrow> ls | Some n \<Rightarrow> take n ls), du')))"

definition get_job_events ::
  "auth_ops \<Rightarrow> (int \<Rightarrow> str) \<Rightarrow> bool \<Rightarrow> int \<Rightarrow> headers \<Rightarrow> str \<Rightarrow> job_db \<Rightarrow> nat option \<Rightarrow> (str \<times> str) option \<Rightarrow> event_files \<Rightarrow> durable_state \<Rightarrow>
   (gw_exc + dict) \<times> durable_state" where
  "get_job_events ao isoformat store_ok now h job db readable err files du =
     (case bindE (verify_continuation_principal ao now h) (\<lambda>p. authorize_job_read isoformat store_ok p job ''job.read'' db) of
        Inl e \<Rightarrow> (Inl e, du)
      | Inr _ \<Rightarrow>
          (case get_events (ao_env ao) (ao_loads ao) readable isoformat err job files du of
             (evs, du') \<Rightarrow> (Inr [(''job_id'', PStr job), (''events'', PList evs), (''count'', PInt (int (length evs)))], du')))"

text \<open>Rows as dictionaries, without the bookkeeping columns \<open>createdAt\<close> and \<open>updatedAt\<close> of a session.\<close>

definition opt_time :: "(int \<Rightarrow> str) \<Rightarrow> int option \<Rightarrow> pyval" where
  "opt_time isoformat t = (case t of None \<Rightarrow> PNone | Some i \<Rightarrow> PStr (isoformat i))"

definition session_dict :: "(int \<Rightarrow> str) \<Rightarrow> session_row \<Rightarrow> dict" where
  "session_dict isoformat s =
     [(''id'', PStr (se_id s)), (''jobId'', PStr (se_job_id s)), (''parentJobId'', opt_val_str (se_parent_job_id s)),
      (''parentSessionId'', opt_val_str (se_parent_session_id s)), (''agentSlug'', PStr (se_agent_slug s)), (''status'', PStr (se_status s)),
      (''workspaceRoot'', opt_val_str (se_workspace_root s)), (''artifactUris'', PList (map PStr (se_artifact_uris s))),
      (''traceJson'', case se_trace s of None \<Rightarrow> PNone | Some t \<Rightarrow> t), (''error'', opt_val_str (se_error s)),
      (''startedAt'', PStr (isoformat (se_started_at s))), (''finishedAt'', opt_time isoformat (se_finished_at s))]"

definition relationship_dict :: "(int \<Rightarrow> str) \<Rightarrow> relationship_row \<Rightarrow> dict" where
  "relationship_dict isoformat r =
     [(''id'', PStr (re_id r)), (''parentJobId'', PStr (re_parent_job_id r)), (''childJobId'', PStr (re_child_job_id r)),
      (''parentSessionId'', opt_val_str (re_parent_session_id r)), (''childSessionId'', opt_val_str (re_child_session_id r)),
      (''parentAgentSlug'', opt_val_str (re_parent_agent_slug r)), (''childAgentSlug'', opt_val_str (re_child_agent_slug r)),
      (''delegationStatus'', PStr (re_status r)), (''createdAt'', PStr (isoformat (re_created_at r)))]"

text \<open>The error of each read, by table and key.\<close>

type_synonym read_errors = "str \<Rightarrow> str \<Rightarrow> (str \<times> str) option"

definition get_session ::
  "env \<Rightarrow> (int \<Rightarrow> str) \<Rightarrow> headers \<Rightarrow> str \<Rightarrow> read_errors \<Rightarrow> durable_state \<Rightarrow> (gw_exc + dict) \<times> durable_state" where
  "get_session e isoformat h sid err du =
     (case verify_gateway_key e h of
        Inl ex \<Rightarrow> (Inl ex, du)
      | Inr _ \<Rightarrow>
          (case session_get sid (err ''sessions'' sid) du of
             (None, du1) \<Rightarrow> (Inl (http 404 (''session not found: '' @ sid)), du1)
           | (Some s, du1) \<Rightarrow>
               (case (if se_job_id s \<noteq> [] then relationships_by_parent (se_job_id s) (err ''relationships'' (se_job_id s)) du1 else ([], du1)) of
                  (rels, du2) \<Rightarrow>
                    (let children = filter (\<lambda>r. re_parent_session_id r = Some sid \<or> re_parent_session_id r = None) rels in
                     (Inr [(''session'', PDict (session_dict isoformat s)), (''children'', PList (map (PDict \<circ> relationship_dict isoformat) children)),
                           (''child_count'', PInt (int (length children)))], du2)))))"

definition job_or_none :: "(int \<Rightarrow> str) \<Rightarrow> bool \<Rightarrow> str \<Rightarrow> job_db \<Rightarrow> pyval" where
  "job_or_none isoformat store_ok job db =
     (if store_ok then (case get_job job db of Some j \<Rightarrow> PDict (job_dict isoformat j) | None \<Rightarrow> PNone) else PNone)"

fun trace_children ::
  "(int \<Rightarrow> str) \<Rightarrow> bool \<Rightarrow> job_db \<Rightarrow> read_errors \<Rightarrow> relationship_row list \<Rightarrow> durable_state \<Rightarrow> pyval list \<times> durable_state" where
  "trace_children isoformat store_ok db err [] du = ([], du)"
| "trace_children isoformat store_ok db err (r # rs) du =
     (let child = re_child_job_id r in
      case (if child \<noteq> [] then sessions_by_job child (err ''sessions'' child) du else ([], du)) of
        (ss, du1) \<Rightarrow>
          (case trace_children isoformat store_ok db err rs du1 of
             (cs, du2) \<Rightarrow>
               (PDict [(''relationship'', PDict (relationship_dict isoformat r)),
                       (''child_job'', if child \<noteq> [] then job_or_none isoformat store_ok child db else PNone),
                       (''child_sessions'', PList (map (PDict \<circ> session_dict isoformat) ss))] # cs, du2)))"

definition get_job_trace ::
  "auth_ops \<Rightarrow> (int \<Rightarrow> str) \<Rightarrow> bool \<Rightarrow> int \<Rightarrow> headers \<Rightarrow> str \<Rightarrow> job_db \<Rightarrow> nat option \<Rightarrow> read_errors \<Rightarrow> event_files \<Rightarrow> durable_state \<Rightarrow>
   (gw_exc + dict) \<times> durable_state" where
  "get_job_trace ao isoformat store_ok now h job db readable err files du =
     (case bindE (verify_continuation_principal ao now h) (\<lambda>p. authorize_job_read isoformat store_ok p job ''job.read'' db) of
        Inl e \<Rightarrow> (Inl e, du)
      | Inr _ \<Rightarrow>
          (case sessions_by_job job (err ''sessions'' job) du of (ss, du1) \<Rightarrow>
           case relationships_by_parent job (err ''relationships'' job) du1 of (rels, du2) \<Rightarrow>
           case get_events (ao_env ao) (ao_loads ao) readable isoformat (err ''events'' job) job files du2 of (evs, du3) \<Rightarrow>
           case trace_children isoformat store_ok db err rels du3 of (cs, du4) \<Rightarrow>
             (if job_or_none isoformat store_ok job db = PNone \<and> ss = [] \<and> rels = [] \<and> evs = []
              then Inl (http 404 (''no trace found for job: '' @ job))
              else Inr [(''job_id'', PStr job), (''job'', job_or_none isoformat store_ok job db), (''sessions'', PList (map (PDict \<circ> session_dict isoformat) ss)),
                        (''events'', PList evs), (''event_count'', PInt (int (length evs))), (''children'', PList cs),
                        (''child_count'', PInt (int (length cs)))], du4)))"

section \<open>What an upload leaves\<close>

text \<open>A storage that does what it is asked: the client neither fails to put nor to sign, or the disk takes every copy.\<close>

definition reliable :: "artifact_env \<Rightarrow> bool" where
  "reliable a \<longleftrightarrow>
     (if s3_available a then (\<forall>key mime. s3_put (ae_s3 a) key mime = None) \<and> (\<forall>key. \<exists>url. s3_presign (ae_s3 a) key (ae_ttl a) = Inr url)
      else (\<forall>dest. ae_copy a dest = None))"

definition place :: "artifact_env \<Rightarrow> str \<Rightarrow> str \<times> str \<Rightarrow> storage \<Rightarrow> storage" where
  "place a job f st =
     (if s3_available a then st\<lparr>st_bucket := dict_set (st_bucket st) (job @ ''/'' @ fst f) (snd f)\<rparr>
      else st\<lparr>st_local := dict_set (st_local st) (ae_resolve a (local_path a job (fst f))) (snd f)\<rparr>)"

definition stored :: "artifact_env \<Rightarrow> str \<Rightarrow> str \<Rightarrow> storage \<Rightarrow> str option" where
  "stored a job rel st =
     (if s3_available a then map_of (st_bucket st) (job @ ''/'' @ rel) else map_of (st_local st) (ae_resolve a (local_path a job rel)))"

definition upload_result :: "artifact_env \<Rightarrow> str \<Rightarrow> str \<times> str \<Rightarrow> dict" where
  "upload_result a job f =
     (if s3_available a
      then [(''ok'', PBool True), (''backend'', PStr ''s3''), (''uri'', PStr (''s3://'' @ S3_BUCKET a @ ''/'' @ job @ ''/'' @ fst f)),
            (''signed_url'', PStr (projr (s3_presign (ae_s3 a) (job @ ''/'' @ fst f) (ae_ttl a)))), (''expires_in_seconds'', PInt (ae_ttl a))]
      else [(''ok'', PBool True), (''backend'', PStr ''local''), (''uri'', PStr (''file://'' @ local_path a job (fst f))),
            (''signed_url'', PStr (gateway_path job (fst f))), (''expires_in_seconds'', PNone)])
     @ file_meta a (fst f) (guess_mime a (fst f) ''application/octet-stream'') (snd f)"

definition kept :: "(str \<times> str) list \<Rightarrow> (str \<times> str) list" where
  "kept files = filter (\<lambda>f. \<not> excluded (fst f)) files"

definition artifact_write :: "artifact_env \<Rightarrow> str \<Rightarrow> str option \<Rightarrow> str option \<Rightarrow> str \<times> str \<Rightarrow> durable_write" where
  "artifact_write a job session slug f =
     Artifact_Record job (fst f) (fst f) (artifact_columns session slug (upload_result a job f))"

lemma upload_file_reliable:
  assumes "reliable a" and "rel \<noteq> []"
  shows "upload_file a job path (Some c) (Some rel) ''application/octet-stream'' st = (Inr (upload_result a job (rel, c)), place a job (rel, c) st)"
proof (cases "s3_available a")
  case True
  then obtain url where "s3_presign (ae_s3 a) (job @ ''/'' @ rel) (ae_ttl a) = Inr url" using assms(1) unfolding reliable_def by metis
  then show ?thesis using True assms by (simp add: upload_file_def reliable_def upload_result_def place_def opt_header_def Let_def)
next
  case False
  then show ?thesis
    using assms by (simp add: upload_file_def reliable_def upload_result_def place_def upload_local_def opt_header_def Let_def)
qed

lemma upload_result_fields:
  "dget (upload_result a job f) ''ok'' = PBool True"
  "dget (upload_result a job f) ''filename'' = PStr (fst f)"
  "dget_default (upload_result a job f) ''filename'' v = PStr (fst f)"
  "dget (upload_result a job f) ''size_bytes'' = PInt (int (length (snd f)))"
  "dget (upload_result a job f) ''sha256'' = opt_val_str (ae_sha256 a (snd f))"
  "getitem (upload_result a job f) ''backend'' = Inr (PStr (if s3_available a then ''s3'' else ''local''))"
  by (simp_all add: upload_result_def file_meta_def dget_def dget_default_def getitem_def)

lemma record_upload_result:
  "record_upload job session slug rel (upload_result a job (rel, c)) du = submit_write (artifact_write a job session slug (rel, c)) du"
  by (simp add: record_upload_def upload_result_fields artifact_record_def artifact_write_def)

lemma upload_files_reliable:
  assumes "reliable a" and "[] \<notin> fst ` set files"
  shows "upload_files a job dir session slug files st du =
    (Inr (map (upload_result a job) (kept files)), fold (place a job) (kept files) st,
     fold (\<lambda>f. submit_write (artifact_write a job session slug f)) (kept files) du)"
  using assms(2)
  by (induction files arbitrary: st du) (auto simp: kept_def upload_file_reliable [OF assms(1)] record_upload_result)

lemma upload_dir_reliable:
  assumes "reliable a" and "[] \<notin> fst ` set files"
  shows "\<exists>backend. upload_dir a job dir (Some files) session slug st du =
    (Inr [(''ok'', PBool True), (''files'', PList (map (PDict \<circ> upload_result a job) (kept files))), (''backend'', backend)],
     fold (place a job) (kept files) st, fold (\<lambda>f. submit_write (artifact_write a job session slug f)) (kept files) du)"
  by (cases "kept files") (simp_all add: upload_dir_def upload_files_reliable [OF assms] upload_result_fields)

text \<open>Files with different names are kept apart.\<close>

definition kept_apart :: "artifact_env \<Rightarrow> str \<Rightarrow> (str \<times> str) list \<Rightarrow> bool" where
  "kept_apart a job files \<longleftrightarrow>
     distinct (map fst files) \<and> (\<not> s3_available a \<longrightarrow> inj_on (\<lambda>rel. ae_resolve a (local_path a job rel)) (fst ` set files))"

lemma stored_place: "stored a job rel (place a job (rel, c) st) = Some c"
  by (simp add: stored_def place_def)

lemma stored_place_other:
  assumes "kept_apart a job files" and "f \<in> set files" and "rel \<in> fst ` set files" and "fst f \<noteq> rel"
  shows "stored a job rel (place a job f st) = stored a job rel st"
proof -
  have "ae_resolve a (local_path a job (fst f)) \<noteq> ae_resolve a (local_path a job rel)" if "\<not> s3_available a"
  proof
    assume "ae_resolve a (local_path a job (fst f)) = ae_resolve a (local_path a job rel)"
    moreover have "inj_on (\<lambda>rel. ae_resolve a (local_path a job rel)) (fst ` set files)" using assms(1) that by (simp add: kept_apart_def)
    ultimately show False using assms(2-4) by (auto dest: inj_onD)
  qed
  with assms(4) show ?thesis by (auto simp: stored_def place_def)
qed

lemma stored_fold_other:
  assumes "kept_apart a job files" and "set fs \<subseteq> set files" and "rel \<in> fst ` set files" and "rel \<notin> fst ` set fs"
  shows "stored a job rel (fold (place a job) fs st) = stored a job rel st"
  using assms(2,4) by (induction fs arbitrary: st) (auto simp: stored_place_other [OF assms(1) _ assms(3)])

lemma stored_fold:
  assumes "kept_apart a job files" and "(rel, c) \<in> set (kept files)"
  shows "stored a job rel (fold (place a job) (kept files) st) = Some c"
proof -
  from assms(2) obtain us vs where split: "kept files = us @ (rel, c) # vs" by (auto simp: in_set_conv_decomp)
  have "distinct (map fst (kept files))" using assms(1) by (auto simp: kept_apart_def kept_def distinct_map_filter)
  then have out: "rel \<notin> fst ` set vs" by (simp add: split)
  have "set (kept files) \<subseteq> set files" by (auto simp: kept_def)
  moreover have "(rel, c) \<in> set (kept files)" "set vs \<subseteq> set (kept files)" by (auto simp: split)
  ultimately have sub: "set vs \<subseteq> set files" "rel \<in> fst ` set files" by force+
  show ?thesis unfolding split fold_append fold.simps comp_apply
    by (subst stored_fold_other [OF assms(1) sub(1,2) out]) (rule stored_place)
qed

section \<open>What reaches the owner\<close>

text \<open>The background thread works the queue off, every write committing.\<close>

definition work_off :: "(int \<times> str) list \<Rightarrow> durable_state \<Rightarrow> durable_state" where
  "work_off commits du = foldl (\<lambda>du (now, gid). worker_step (Committed now gid) du) du commits"

lemma submit_all:
  "takes_writes du \<Longrightarrow> fold (\<lambda>f. submit_write (w f)) fs du = du\<lparr>du_queue := du_queue du @ map w fs\<rparr>"
proof (induction fs arbitrary: du)
  case (Cons f fs)
  have "submit_write (w f) du = du\<lparr>du_queue := du_queue du @ [w f]\<rparr>" using Cons.prems by (simp add: submit_write_eq)
  moreover have "takes_writes (du\<lparr>du_queue := du_queue du @ [w f]\<rparr>)" using Cons.prems by (simp add: takes_writes_def enabled_def)
  ultimately show ?case using Cons.IH by simp
qed simp

lemma artifacts_persist: "r \<in> set (dt_artifacts t) \<Longrightarrow> r \<in> set (dt_artifacts (run_write now gid w t))"
  by (cases w) auto

lemma work_off_simps [simp]:
  "work_off [] du = du"
  "work_off (c # commits) du = work_off commits (worker_step (Committed (fst c) (snd c)) du)"
  by (simp_all add: work_off_def case_prod_unfold)

lemma commit_persist:
  "r \<in> set (dt_artifacts (du_tables du)) \<Longrightarrow> r \<in> set (dt_artifacts (du_tables (worker_step (Committed now gid) du)))"
  by (cases "du_queue du") (simp_all add: worker_step_def artifacts_persist)

lemma work_off_persist: "r \<in> set (dt_artifacts (du_tables du)) \<Longrightarrow> r \<in> set (dt_artifacts (du_tables (work_off commits du)))"
  by (induction commits arbitrary: du) (simp_all add: commit_persist)

lemma commit_enabled: "enabled (worker_step (Committed now gid) du) = enabled du"
  by (cases "du_queue du") (simp_all add: worker_step_def enabled_def)

lemma work_off_enabled: "enabled (work_off commits du) = enabled du"
  by (induction commits arbitrary: du) (simp_all add: commit_enabled)

lemma work_off_artifact:
  assumes "Artifact_Record job path fn d \<in> set (du_queue du)" and "length commits = length (du_queue du)"
  shows "\<exists>r\<in>set (dt_artifacts (du_tables (work_off commits du))). af_job_id r = job \<and> af_path r = path \<and> af_filename r = fn \<and> af_details r = d"
  using assms
proof (induction commits arbitrary: du)
  case (Cons c commits)
  obtain now gid where c: "c = (now, gid)" by (cases c)
  obtain w q where q: "du_queue du = w # q" using Cons.prems by (cases "du_queue du") auto
  let ?du = "du\<lparr>du_queue := q, du_tables := run_write now gid w (du_tables du)\<rparr>"
  have step: "work_off (c # commits) du = work_off commits ?du" by (simp add: worker_step_def c q)
  show ?case
  proof (cases "w = Artifact_Record job path fn d")
    case True
    let ?r = "\<lparr>af_id = gid, af_job_id = job, af_path = path, af_filename = fn, af_details = d, af_created_at = now\<rparr>"
    have "?r \<in> set (dt_artifacts (du_tables ?du))" by (simp add: True)
    from work_off_persist [OF this, of commits] show ?thesis unfolding step by (intro bexI [of _ ?r]) auto
  next
    case False
    then show ?thesis unfolding step using Cons.prems q by (intro Cons.IH) auto
  qed
qed simp

lemma artifacts_by_job_read:
  "enabled du \<Longrightarrow> artifacts_by_job job None du = (sort_key af_created_at (filter (\<lambda>r. af_job_id r = job) (dt_artifacts (du_tables du))), du)"
  by (simp add: artifacts_by_job_def read_table_def)

definition link :: "artifact_env \<Rightarrow> str \<Rightarrow> str \<Rightarrow> str" where
  "link a job name =
     (if s3_available a then projr (s3_presign (ae_s3 a) (job @ ''/'' @ name) (ae_ttl a)) else gateway_path job name)"

lemma reliable_url:
  assumes "reliable a"
  shows "\<exists>fresh. get_signed_url a job name = Inr fresh \<and> dget fresh ''signed_url'' = PStr (link a job name)"
proof (cases "s3_available a")
  case True
  then obtain url where "s3_presign (ae_s3 a) (job @ ''/'' @ name) (ae_ttl a) = Inr url" using assms unfolding reliable_def by metis
  with True show ?thesis by (simp add: get_signed_url_def link_def dget_def)
qed (simp add: get_signed_url_def link_def dget_def)

lemma upload_result_url: "dget (upload_result a job f) ''signed_url'' = PStr (link a job (fst f))"
  by (simp add: upload_result_def link_def dget_def)

lemma artifact_columns_fields:
  "dget (artifact_columns session slug r) ''sizeBytes'' = dget r ''size_bytes''"
  "dget (artifact_columns session slug r) ''sha256'' = dget r ''sha256''"
  "dget (artifact_columns session slug r) ''signedUrl'' = dget r ''signed_url''"
  by (simp_all add: artifact_columns_def dget_def)

lemma artifact_entry_fields:
  "dget (artifact_entry isoformat r name fresh) ''name'' = PStr name"
  "dget (artifact_entry isoformat r name fresh) ''size_bytes'' = dget (af_details r) ''sizeBytes''"
  "dget (artifact_entry isoformat r name fresh) ''sha256'' = dget (af_details r) ''sha256''"
  "dget (artifact_entry isoformat r name fresh) ''signed_url'' = py_or (dget fresh ''signed_url'') (dget (af_details r) ''signedUrl'')"
  by (simp_all add: artifact_entry_def Let_def dget_def)

lemma mapE_all: "(\<And>x. x \<in> set xs \<Longrightarrow> f x = Inr (g x)) \<Longrightarrow> mapE f xs = Inr (map g xs)"
  by (induction xs) auto

lemma durable_listing_reliable:
  assumes "reliable a"
  shows "\<exists>g d. durable_listing a isoformat job rows = Inr d \<and> dget d ''artifacts'' = PList (map (\<lambda>r. PDict (artifact_entry isoformat r (row_name r) (g r))) rows) \<and>
     (\<forall>r. get_signed_url a job (row_name r) = Inr (g r))"
proof -
  define g where "g r = projr (get_signed_url a job (row_name r))" for r
  have g: "get_signed_url a job (row_name r) = Inr (g r)" for r using reliable_url [OF assms, of job "row_name r"] by (auto simp: g_def)
  have "mapE (\<lambda>r. bindE (get_signed_url a job (row_name r)) (\<lambda>fresh. Inr (PDict (artifact_entry isoformat r (row_name r) fresh)))) rows =
      Inr (map (\<lambda>r. PDict (artifact_entry isoformat r (row_name r) (g r))) rows)"
    by (rule mapE_all) (simp add: g)
  then show ?thesis using g by (intro exI [of _ g]) (simp add: durable_listing_def dget_def)
qed

text \<open>C25. What a job leaves reaches its owner. When the storage is reliable and the durable store takes writes, every file of the uploaded directory outside the excluded
  top directories is stored with its content; and once the queue is worked off, the listing its owner asks for has an entry with its name, its size, the
  digest of its content, and a link that was made for it: the presigned one of its key, or the gateway's path, under which \<open>serve_artifact\<close> returns the content.\<close>

theorem artifacts_reach_owner:
  assumes "reliable a" and "[] \<notin> fst ` set files" and "kept_apart a job files" and "takes_writes du"
    and up: "upload_dir a job dir (Some files) session slug st du = (res, st', du')"
    and work: "length commits = length (du_queue du')"
    and art: "(rel, c) \<in> set files" "\<not> excluded rel"
    and who: "verify_continuation_principal ao now h = Inr p" "require_owned_job isoformat p (get_job job db) ''artifact.read'' = Inr j"
  shows "\<exists>d du'' es e url. get_job_artifacts ao isoformat True now h job db a None st' (work_off commits du') = (Inr d, du'') \<and>
     dget d ''artifacts'' = PList es \<and> PDict e \<in> set es \<and> dget e ''name'' = PStr rel \<and> dget e ''size_bytes'' = PInt (int (length c)) \<and>
     dget e ''sha256'' = opt_val_str (ae_sha256 a c) \<and> dget e ''signed_url'' = PStr url \<and> stored a job rel st' = Some c \<and>
     (if s3_available a then s3_presign (ae_s3 a) (job @ ''/'' @ rel) (ae_ttl a) = Inr url
      else url = gateway_path job rel \<and>
           (\<forall>env hs. verify_gateway_key env hs = Inr () \<longrightarrow> relative_to (ae_resolve a (local_path a job rel)) (ae_resolve a (LOCAL_DIR a)) \<noteq> None \<longrightarrow>
              serve_artifact env hs job rel a st' = Inr c))"
proof -
  have k: "(rel, c) \<in> set (kept files)" using art by (simp add: kept_def)
  from upload_dir_reliable [OF assms(1,2), of job dir session slug st du] up
  have st': "st' = fold (place a job) (kept files) st"
    and du': "du' = fold (\<lambda>f. submit_write (artifact_write a job session slug f)) (kept files) du" by auto
  have stored: "stored a job rel st' = Some c" unfolding st' using stored_fold assms(3) k by blast
  have du'_eq: "du' = du\<lparr>du_queue := du_queue du @ map (artifact_write a job session slug) (kept files)\<rparr>"
    unfolding du' using assms(4) by (rule submit_all)
  have "artifact_write a job session slug (rel, c) \<in> set (du_queue du')" using k by (simp add: du'_eq)
  then obtain r where r: "r \<in> set (dt_artifacts (du_tables (work_off commits du')))" "af_job_id r = job" "af_path r = rel"
    "af_details r = artifact_columns session slug (upload_result a job (rel, c))"
    using work_off_artifact [OF _ work] unfolding artifact_write_def fst_conv by blast
  have "enabled du'" using assms(4) by (simp add: du'_eq takes_writes_def enabled_def)
  then have on: "enabled (work_off commits du')" by (simp only: work_off_enabled)
  define rows where "rows = sort_key af_created_at (filter (\<lambda>r. af_job_id r = job) (dt_artifacts (du_tables (work_off commits du'))))"
  have r_in: "r \<in> set rows" using r(1,2) by (simp add: rows_def)
  have rel0: "rel \<noteq> []" using art(1) assms(2) by force
  then have name: "row_name r = rel" by (simp add: row_name_def r(3))
  obtain g d where d: "durable_listing a isoformat job rows = Inr d"
    "dget d ''artifacts'' = PList (map (\<lambda>r. PDict (artifact_entry isoformat r (row_name r) (g r))) rows)"
    "get_signed_url a job (row_name r) = Inr (g r)"
    using durable_listing_reliable [OF assms(1), of isoformat job rows] by blast
  let ?e = "artifact_entry isoformat r rel (g r)"
  have listing: "get_job_artifacts ao isoformat True now h job db a None st' (work_off commits du') = (Inr d, work_off commits du')"
    using who d(1) r_in artifacts_by_job_read [OF on, of job]
    by (cases rows) (auto simp: get_job_artifacts_def rows_def [symmetric])
  have e_in: "PDict ?e \<in> set (map (\<lambda>r. PDict (artifact_entry isoformat r (row_name r) (g r))) rows)"
    using r_in name by force
  obtain fresh where "get_signed_url a job rel = Inr fresh" "dget fresh ''signed_url'' = PStr (link a job rel)"
    using reliable_url [OF assms(1)] by blast
  then have url: "dget (g r) ''signed_url'' = PStr (link a job rel)" using d(3) name by simp
  have e: "dget ?e ''name'' = PStr rel" "dget ?e ''size_bytes'' = PInt (int (length c))" "dget ?e ''sha256'' = opt_val_str (ae_sha256 a c)"
    "dget ?e ''signed_url'' = PStr (link a job rel)"
    by (simp_all add: artifact_entry_fields r(4) artifact_columns_fields upload_result_fields upload_result_url url py_or_def)
  have link: "if s3_available a then s3_presign (ae_s3 a) (job @ ''/'' @ rel) (ae_ttl a) = Inr (link a job rel) else link a job rel = gateway_path job rel"
  proof (cases "s3_available a")
    case True
    then obtain u where "s3_presign (ae_s3 a) (job @ ''/'' @ rel) (ae_ttl a) = Inr u" using assms(1) unfolding reliable_def by metis
    with True show ?thesis by (simp add: link_def)
  qed (simp add: link_def)
  have served: "serve_artifact env hs job rel a st' = Inr c"
    if "\<not> s3_available a" "verify_gateway_key env hs = Inr ()" "relative_to (ae_resolve a (local_path a job rel)) (ae_resolve a (LOCAL_DIR a)) \<noteq> None"
    for env hs
    using that stored by (simp add: serve_artifact_def Let_def stored_def)
  show ?thesis
    using listing d(2) e_in e link stored served
    by (intro exI [of _ d] exI [of _ "work_off commits du'"] exI [of _ "map (\<lambda>r. PDict (artifact_entry isoformat r (row_name r) (g r))) rows"]
          exI [of _ ?e] exI [of _ "link a job rel"] conjI) (auto simp del: set_map split: if_splits)
qed

text \<open>One file of one byte, beside a log that is left out, on the local disk; the job has no owner and is read with the gateway key.\<close>

definition disk_env :: artifact_env where
  "disk_env =
     \<lparr>ae_boto = False, ae_env = (\<lambda>_. None), ae_ttl = 604800,
      ae_s3 = \<lparr>s3_put = (\<lambda>_ _. None), s3_presign = (\<lambda>k _. Inr (''https://s3/'' @ k)), s3_objects = (\<lambda>_ _. Inr [])\<rparr>,
      ae_mime = (\<lambda>_. None), ae_sha256 = Some, ae_copy = (\<lambda>_. None), ae_resolve = (\<lambda>p. p)\<rparr>"

definition sample_files :: "(str \<times> str) list" where
  "sample_files = [(''logs/events.jsonl'', ''e''), (''out/a.txt'', ''x'')]"

definition no_storage :: storage where
  "no_storage = \<lparr>st_bucket = [], st_local = []\<rparr>"

lemma disk_env_simps [simp]: "\<not> s3_available disk_env" "ae_resolve disk_env p = p" "ae_copy disk_env p = None" "LOCAL_DIR disk_env = ''/var/data/genesis-artifacts''"
  by (simp_all add: disk_env_def s3_available_def LOCAL_DIR_def env_or_def)

lemma artifacts_reach_owner_witness:
  "\<exists>d du'' es e. get_job_artifacts gw_ops (\<lambda>_. []) True 7 key_headers ''j'' unowned_db disk_env None
       \<lparr>st_bucket = [], st_local = [(''/var/data/genesis-artifacts/j/out/a.txt'', ''x'')]\<rparr> (work_off [(9, ''g'')]
         (fold (\<lambda>f. submit_write (artifact_write disk_env ''j'' None None f)) (kept sample_files) empty_durable)) = (Inr d, du'') \<and>
     dget d ''artifacts'' = PList es \<and> PDict e \<in> set es \<and> dget e ''sha256'' = PStr ''x'' \<and>
     dget e ''signed_url'' = PStr ''/artifacts/j/out/a.txt''"
proof -
  let ?du = "fold (\<lambda>f. submit_write (artifact_write disk_env ''j'' None None f)) (kept sample_files) empty_durable"
  have kept: "kept sample_files = [(''out/a.txt'', ''x'')]" by code_simp
  have rel: "reliable disk_env" by (simp add: reliable_def)
  have names: "[] \<notin> fst ` set sample_files" by (simp add: sample_files_def)
  have path: "local_path disk_env ''j'' ''out/a.txt'' = ''/var/data/genesis-artifacts/j/out/a.txt''"
    "local_path disk_env ''j'' ''logs/events.jsonl'' = ''/var/data/genesis-artifacts/j/logs/events.jsonl''"
    by (simp_all add: local_path_def path_join_def startswith_def endswith_def)
  have apart: "kept_apart disk_env ''j'' sample_files" by (simp add: kept_apart_def sample_files_def path inj_on_def)
  have on: "takes_writes empty_durable" by (simp add: takes_writes_def enabled_def empty_durable_def)
  have place: "fold (place disk_env ''j'') (kept sample_files) no_storage = \<lparr>st_bucket = [], st_local = [(''/var/data/genesis-artifacts/j/out/a.txt'', ''x'')]\<rparr>"
    by (simp add: kept place_def path no_storage_def)
  obtain backend where up: "upload_dir disk_env ''j'' ''/w'' (Some sample_files) None None no_storage empty_durable =
      (Inr [(''ok'', PBool True), (''files'', PList (map (PDict \<circ> upload_result disk_env ''j'') (kept sample_files))), (''backend'', backend)],
       \<lparr>st_bucket = [], st_local = [(''/var/data/genesis-artifacts/j/out/a.txt'', ''x'')]\<rparr>, ?du)"
    using upload_dir_reliable [OF rel names, of "''j''" "''/w''" None None no_storage empty_durable] unfolding place by blast
  have len: "length [(9::int, ''g'')] = length (du_queue ?du)" by (simp only: submit_all [OF on] kept) (simp add: empty_durable_def)
  have "case verify_continuation_principal gw_ops 7 key_headers of Inl _ \<Rightarrow> False
      | Inr p \<Rightarrow> (case require_owned_job (\<lambda>_. []) p (get_job ''j'' unowned_db) ''artifact.read'' of Inl _ \<Rightarrow> False | Inr _ \<Rightarrow> True)" by code_simp
  then obtain p j where who: "verify_continuation_principal gw_ops 7 key_headers = Inr p"
    "require_owned_job (\<lambda>_. []) p (get_job ''j'' unowned_db) ''artifact.read'' = Inr j"
    by (auto split: sum.splits)
  have f: "(''out/a.txt'', ''x'') \<in> set sample_files" "\<not> excluded ''out/a.txt''" using kept by (auto simp: kept_def sample_files_def split: if_splits)
  have "ae_sha256 disk_env ''x'' = Some ''x''" by (simp add: disk_env_def)
  then show ?thesis
    using artifacts_reach_owner [OF rel names apart on up len f who]
    by (auto simp: gateway_path_def opt_val_str_def)
qed

text \<open>When the upload to the bucket fails, the file is kept on the local disk, but every later listing asks the bucket: the live listing does not have
  it, and the durable one gives the presigned link of a key that is not there instead of the local link in the row.\<close>

definition failing_env :: artifact_env where
  "failing_env =
     disk_env\<lparr>ae_boto := True, ae_env := [''AWS_ACCESS_KEY_ID'' \<mapsto> ''a'', ''AWS_SECRET_ACCESS_KEY'' \<mapsto> ''s''],
       ae_s3 := (ae_s3 disk_env)\<lparr>s3_put := (\<lambda>_ _. Some (Boto_Error ''down''))\<rparr>\<rparr>"

lemma fallback_not_listed:
  "case upload_file failing_env ''j'' ''/w/a'' (Some ''x'') (Some ''a'') ''text/plain'' no_storage of
     (Inr r, st) \<Rightarrow>
       dget r ''signed_url'' = PStr ''/artifacts/j/a'' \<and> st_bucket st = [] \<and> map_of (st_local st) ''/var/data/genesis-artifacts/j/a'' = Some ''x'' \<and>
       list_artifacts failing_env ''j'' st = Inr [(''ok'', PBool True), (''backend'', PStr ''s3''), (''items'', PList [])] \<and>
       get_signed_url failing_env ''j'' ''a'' =
         Inr [(''ok'', PBool True), (''signed_url'', PStr ''https://s3/j/a''), (''expires_in_seconds'', PInt 604800)]
   | (Inl _, _) \<Rightarrow> False"
  by code_simp

section \<open>Who sees what\<close>

lemma artifacts_by_job_rows:
  "artifacts_by_job job err du = (rows, du') \<Longrightarrow> r \<in> set rows \<Longrightarrow> r \<in> set (dt_artifacts (du_tables du)) \<and> af_job_id r = job"
  by (auto simp: artifacts_by_job_def read_table_def split: if_splits option.splits)

lemma mapE_set: "mapE f xs = Inr ys \<Longrightarrow> y \<in> set ys \<Longrightarrow> \<exists>x\<in>set xs. f x = Inr y"
  by (induction xs arbitrary: ys) (auto simp: bindE_Inr)

text \<open>What the client lists are keys under the prefix.\<close>

definition lists_prefix :: "artifact_env \<Rightarrow> bool" where
  "lists_prefix a \<longleftrightarrow> (\<forall>bucket pre objs. s3_objects (ae_s3 a) bucket pre = Inr objs \<longrightarrow> (\<forall>(k, n)\<in>set objs. startswith k pre \<and> k \<in> fst ` set bucket))"

text \<open>Where an entry of a listing comes from: a key under the job's prefix or a file under its directory, or a row of the job.\<close>

definition stored_name :: "artifact_env \<Rightarrow> str \<Rightarrow> storage \<Rightarrow> str \<Rightarrow> bool" where
  "stored_name a job st name \<longleftrightarrow>
     (if s3_available a
      then \<exists>k\<in>fst ` set (st_bucket st). startswith k (job @ ''/'') \<and> snd (split_first (CHR ''/'') k) = Some name
      else \<exists>p\<in>fst ` set (st_local st). relative_to p (ae_resolve a (path_join (LOCAL_DIR a) job)) = Some name)"

definition comes_from :: "artifact_env \<Rightarrow> str \<Rightarrow> storage \<Rightarrow> durable_state \<Rightarrow> dict \<Rightarrow> bool" where
  "comes_from a job st du e \<longleftrightarrow>
     (\<exists>r\<in>set (dt_artifacts (du_tables du)). af_job_id r = job \<and> dget e ''name'' = PStr (row_name r) \<and> dget e ''sha256'' = dget (af_details r) ''sha256'') \<or>
     (\<exists>name. dget e ''name'' = PStr name \<and> stored_name a job st name)"

lemma dget_Cons: "dget ((k, v) # d) k' = (if k = k' then v else dget d k')"
  by (simp add: dget_def)

lemma listed_entry_name:
  assumes "listed_entry a job backend (PDict [(''name'', PStr name), (''size'', n)]) = Inr e"
  shows "\<exists>e'. e = PDict e' \<and> dget e' ''name'' = PStr name"
  using assms by (auto simp: listed_entry_def Let_def bindE_Inr dget_Cons dget_default_def)

lemma local_items_source:
  assumes "item \<in> set (local_items a job st)"
  shows "\<exists>p name n. p \<in> fst ` set (st_local st) \<and> relative_to p (ae_resolve a (path_join (LOCAL_DIR a) job)) = Some name \<and>
    item = PDict [(''name'', PStr name), (''size'', PInt n)]"
  using assms by (force simp: local_items_def Let_def split: option.splits if_splits)

lemma object_item_source:
  "object_item kn = Inr item \<Longrightarrow> \<exists>name. snd (split_first (CHR ''/'') (fst kn)) = Some name \<and> item = PDict [(''name'', PStr name), (''size'', PInt (snd kn))]"
  by (auto simp: object_item_def bindE_Inr optE_Inr)

lemma list_artifacts_source:
  assumes "list_artifacts a job st = Inr result" and "truthy (dget result ''ok'')" and "lists_prefix a" and "item \<in> set (items_of result)"
  shows "\<exists>name n. item = PDict [(''name'', PStr name), (''size'', PInt n)] \<and> stored_name a job st name"
proof (cases "s3_available a")
  case True
  with assms(1,2) obtain objs items where objs: "s3_objects (ae_s3 a) (st_bucket st) (job @ ''/'') = Inr objs"
    and items: "mapE object_item objs = Inr items" "items_of result = items"
    by (auto simp: list_artifacts_def s3_failed_def bindE_Inr items_of_def dget_Cons split: sum.splits s3_error.splits)
  from mapE_set [OF items(1)] assms(4) items(2) obtain kn where kn: "kn \<in> set objs" "object_item kn = Inr item" by blast
  from object_item_source [OF kn(2)] obtain name where name: "snd (split_first (CHR ''/'') (fst kn)) = Some name"
    "item = PDict [(''name'', PStr name), (''size'', PInt (snd kn))]" by blast
  have "startswith (fst kn) (job @ ''/'')" "fst kn \<in> fst ` set (st_bucket st)"
    using assms(3) objs kn(1) by (cases kn, force simp: lists_prefix_def)+
  with True name(1) have "stored_name a job st name" unfolding stored_name_def by (simp only: if_True) blast
  with name(2) show ?thesis by blast
next
  case False
  with assms(1) have "items_of result = local_items a job st" by (auto simp: list_artifacts_def items_of_def dget_Cons)
  with assms(4) False show ?thesis using local_items_source unfolding stored_name_def by metis
qed

text \<open>A list of values that are all entries is a list of objects.\<close>

lemma entries_list:
  assumes "\<And>e. e \<in> set es \<Longrightarrow> \<exists>e'. e = PDict e' \<and> P e'"
  shows "\<exists>ds. es = map PDict ds \<and> (\<forall>e\<in>set ds. P e)"
proof -
  from assms obtain f where f: "\<forall>e\<in>set es. e = PDict (f e) \<and> P (f e)" by metis
  then have "es = map PDict (map f es)" by (simp add: map_idI [symmetric])
  with f show ?thesis by (intro exI [of _ "map f es"]) auto
qed

lemma live_listing_source:
  assumes "live_listing a job st = Inr d" and "lists_prefix a"
  shows "\<exists>es. dget d ''artifacts'' = PList (map PDict es) \<and> (\<forall>e\<in>set es. comes_from a job st du e)"
proof -
  from assms(1) obtain result es where result: "list_artifacts a job st = Inr result" "truthy (dget result ''ok'')"
    and es: "mapE (listed_entry a job (dget result ''backend'')) (items_of result) = Inr es" and d: "dget d ''artifacts'' = PList es"
    by (auto simp: live_listing_def call_Inr dget_Cons)
  have "\<exists>e'. e = PDict e' \<and> comes_from a job st du e'" if e: "e \<in> set es" for e
  proof -
    from mapE_set [OF es e] obtain item where item: "item \<in> set (items_of result)" "listed_entry a job (dget result ''backend'') item = Inr e" by blast
    from list_artifacts_source [OF result assms(2) item(1)] obtain name n where
      name: "item = PDict [(''name'', PStr name), (''size'', PInt n)]" "stored_name a job st name" by blast
    with item(2) show ?thesis using listed_entry_name unfolding comes_from_def by blast
  qed
  with d show ?thesis using entries_list [of es] by metis
qed

lemma job_artifacts_source:
  assumes "job_artifacts e h job a st = Inr d" and "lists_prefix a"
  shows "verify_gateway_key e h = Inr () \<and>
    (\<exists>es. dget d ''items'' = PList (map PDict es) \<and> (\<forall>e\<in>set es. \<exists>name. dget e ''name'' = PStr name \<and> stored_name a job st name))"
proof -
  from assms(1) obtain result es where key: "verify_gateway_key e h = Inr ()"
    and result: "list_artifacts a job st = Inr result" "truthy (dget result ''ok'')"
    and es: "mapE (refreshed_item a job) (items_of result) = Inr es" and d: "dget d ''items'' = PList es"
    by (auto simp: job_artifacts_def call_Inr dget_Cons)
  have "\<exists>e'. e = PDict e' \<and> (\<exists>name. dget e' ''name'' = PStr name \<and> stored_name a job st name)" if e: "e \<in> set es" for e
  proof -
    from mapE_set [OF es e] obtain item where item: "item \<in> set (items_of result)" "refreshed_item a job item = Inr e" by blast
    from list_artifacts_source [OF result assms(2) item(1)] obtain name n where
      name: "item = PDict [(''name'', PStr name), (''size'', PInt n)]" "stored_name a job st name" by blast
    from item(2) name(1) have "\<exists>e'. e = PDict e' \<and> dget e' ''name'' = PStr name"
      by (auto simp: refreshed_item_def bindE_Inr dget_def split: if_splits)
    with name(2) show ?thesis by blast
  qed
  with key d show ?thesis using entries_list [of es "\<lambda>e'. \<exists>name. dget e' ''name'' = PStr name \<and> stored_name a job st name"] by metis
qed

lemma durable_listing_source:
  assumes "durable_listing a isoformat job rows = Inr d" and "\<forall>r\<in>set rows. r \<in> set (dt_artifacts (du_tables du)) \<and> af_job_id r = job"
  shows "\<exists>es. dget d ''artifacts'' = PList (map PDict es) \<and> (\<forall>e\<in>set es. comes_from a job st du e)"
proof -
  from assms(1) obtain es where
    es: "mapE (\<lambda>r. bindE (get_signed_url a job (row_name r)) (\<lambda>fresh. Inr (PDict (artifact_entry isoformat r (row_name r) fresh)))) rows = Inr es"
    and d: "dget d ''artifacts'' = PList es"
    by (auto simp: durable_listing_def bindE_Inr dget_Cons)
  have "\<exists>e'. e = PDict e' \<and> comes_from a job st du e'" if "e \<in> set es" for e
  proof -
    from mapE_set [OF es that] obtain r fresh where r: "r \<in> set rows" "e = PDict (artifact_entry isoformat r (row_name r) fresh)"
      by (auto simp: bindE_Inr)
    then have "comes_from a job st du (artifact_entry isoformat r (row_name r) fresh)"
      using assms(2) unfolding comes_from_def by (intro disjI1 bexI [of _ r]) (simp_all add: artifact_entry_fields)
    with r(2) show ?thesis by blast
  qed
  with d show ?thesis using entries_list [of es] by metis
qed


text \<open>The owner's listing of a file on the disk; and a name with a parent step reaches the file of another job.\<close>

definition two_jobs :: storage where
  "two_jobs = \<lparr>st_bucket = [], st_local = [(''/var/data/genesis-artifacts/j/a'', ''x''), (''/var/data/genesis-artifacts/k/b'', ''y'')]\<rparr>"

definition dots_env :: artifact_env where
  "dots_env = disk_env\<lparr>ae_resolve := (\<lambda>p. if p = ''/var/data/genesis-artifacts/j/../k/b'' then ''/var/data/genesis-artifacts/k/b'' else p)\<rparr>"


section \<open>Events\<close>

text \<open>What was emitted is read back in order: from the durable store once it has the job's events, from the file before. A line is one event, and
  the event's own data may overwrite its time, its job and its type.\<close>

definition emit_all :: "env \<Rightarrow> str \<Rightarrow> (str \<times> str \<times> dict) list \<Rightarrow> event_files \<Rightarrow> durable_state \<Rightarrow> event_files \<times> durable_state" where
  "emit_all e job evs files du = foldl (\<lambda>(files, du) (ts, ty, data). emit_event e True ts job ty data files du) (files, du) evs"

lemma dropWhile_plain: "l \<noteq> [] \<Longrightarrow> \<not> P (hd l) \<Longrightarrow> dropWhile P l = l"
  by (cases l) simp_all

lemma strip_plain:
  assumes "l \<noteq> []" and "\<not> is_space (hd l)" and "\<not> is_space (last l)"
  shows "strip l = l"
proof -
  have "dropWhile is_space (rev l) = rev l" using assms by (intro dropWhile_plain) (simp_all add: hd_rev)
  then show ?thesis using assms by (simp add: strip_def dropWhile_plain)
qed

lemma plain_json_dict_strip: "strip (plain_json (PDict d)) = plain_json (PDict d)"
  by (rule strip_plain) (simp_all add: plain_json_def is_space_def)

definition file_lines :: "env \<Rightarrow> str \<Rightarrow> event_files \<Rightarrow> str list" where
  "file_lines e job files = (case map_of files (events_path e job) of Some ls \<Rightarrow> ls | None \<Rightarrow> [])"

lemma emit_all_lines:
  "file_lines e job (fst (emit_all e job evs files du)) =
     file_lines e job files @ map (\<lambda>(ts, ty, data). plain_json (PDict (event_of ts job ty data))) evs"
proof (induction evs arbitrary: files du)
  case (Cons ev evs)
  obtain ts ty data where ev: "ev = (ts, ty, data)" by (cases ev) auto
  obtain files1 du1 where step: "emit_event e True ts job ty data files du = (files1, du1)" by fastforce
  then have "file_lines e job files1 = file_lines e job files @ [plain_json (PDict (event_of ts job ty data))]"
    by (auto simp: emit_event_def file_lines_def Let_def split: option.splits)
  then show ?case using Cons.IH [of files1 du1] by (simp add: emit_all_def ev step)
qed (simp add: emit_all_def)

lemma events_read_back:
  assumes fresh: "map_of files (events_path e job) = None"
    and loads: "\<And>ts ty data. (ts, ty, data) \<in> set evs \<Longrightarrow>
      loads (plain_json (PDict (event_of ts job ty data))) = Some (PDict (event_of ts job ty data))"
    and off: "\<not> enabled du'"
  shows "get_events e loads None isoformat err job (fst (emit_all e job evs files du)) du' =
    (map (\<lambda>(ts, ty, data). PDict (event_of ts job ty data)) evs, du')"
proof -
  let ?fs = "fst (emit_all e job evs files du)" and ?lines = "map (\<lambda>(ts, ty, data). plain_json (PDict (event_of ts job ty data))) evs"
  have lines: "file_lines e job ?fs = ?lines" using emit_all_lines [of e job evs files du] fresh by (simp add: file_lines_def)
  have none: "plain_json (PDict d) \<noteq> []" for d by (simp add: plain_json_def)
  have parsed: "List.map_filter (\<lambda>l. if strip l = [] then None else loads (strip l)) ?lines = map (\<lambda>(ts, ty, data). PDict (event_of ts job ty data)) evs"
    using loads by (induction evs) (auto simp: plain_json_dict_strip none List.map_filter_simps)
  show ?thesis
  proof (cases "map_of ?fs (events_path e job)")
    case None
    with lines have "evs = []" by (simp add: file_lines_def)
    with None show ?thesis using off by (simp add: get_events_def events_get_def read_table_def)
  next
    case (Some ls)
    with lines have "ls = ?lines" by (simp add: file_lines_def)
    with Some parsed show ?thesis using off by (simp add: get_events_def events_get_def read_table_def)
  qed
qed

lemma event_fields_overwritten:
  "dget (event_of ''1.5'' ''j'' ''tool.called'' [(''job_id'', PStr ''k'')]) ''job_id'' = PStr ''k''"
  by code_simp

lemma get_job_events_authorized:
  assumes "fst (get_job_events ao isoformat store_ok now h job db readable err files du) = Inr d"
  shows "\<exists>p. verify_continuation_principal ao now h = Inr p \<and>
    (auth_method p = ''legacy_gateway'' \<or> (\<exists>j. get_job job db = Some j \<and> has_scope p ''job.read'' \<and> owned_by p j))"
  using assms owns_job_True
  by (auto simp: get_job_events_def call_Inr authorize_job_read_def require_owned_job_Inr split: sum.splits if_splits prod.splits)


end
