(* ===== verification/Base64.thy ===== *)
theory Base64
  imports Prelude
begin

text \<open>
  What \<^verbatim>\<open>proof_bridge.py\<close> uses of Python's \<open>base64\<close>: the URL-safe encoder with its padding removed, and the lenient decoders, which skip every
  character outside the alphabet and stop at a complete padding. Bytes are characters below 256. The round trip of the two is proved here.

  An exception is its class name with its text.
\<close>

section \<open>The encoder\<close>

definition byte :: "char \<Rightarrow> nat" where
  "byte c = of_char c"

text \<open>The character of a six-bit value in the URL-safe alphabet.\<close>

definition b64_char :: "nat \<Rightarrow> char" where
  "b64_char n =
     (if n < 26 then char_of (65 + n) else if n < 52 then char_of (71 + n) else if n < 62 then char_of (n - 4)
      else if n = 62 then CHR ''-'' else CHR ''_'')"

fun urlsafe_b64encode :: "str \<Rightarrow> str" where
  "urlsafe_b64encode [] = []"
| "urlsafe_b64encode [a] = [b64_char (byte a div 4), b64_char (byte a mod 4 * 16)] @ ''==''"
| "urlsafe_b64encode [a, b] =
     [b64_char (byte a div 4), b64_char (byte a mod 4 * 16 + byte b div 16), b64_char (byte b mod 16 * 4)] @ ''=''"
| "urlsafe_b64encode (a # b # c # s) =
     [b64_char (byte a div 4), b64_char (byte a mod 4 * 16 + byte b div 16), b64_char (byte b mod 16 * 4 + byte c div 64), b64_char (byte c mod 64)] @
     urlsafe_b64encode s"

definition b64url :: "str \<Rightarrow> str" where
  "b64url data = rev (dropWhile (\<lambda>c. c = CHR ''='') (rev (urlsafe_b64encode data)))"

section \<open>The decoder\<close>

text \<open>The value of a character of the standard alphabet; after \<open>urlsafe_b64decode\<close>'s translation the URL-safe ones count as well.\<close>

definition sextet :: "bool \<Rightarrow> char \<Rightarrow> nat option" where
  "sextet urlsafe c =
     (let n = byte c in
      if 65 \<le> n \<and> n \<le> 90 then Some (n - 65)
      else if 97 \<le> n \<and> n \<le> 122 then Some (n - 71)
      else if 48 \<le> n \<and> n \<le> 57 then Some (n + 4)
      else if n = 43 \<or> (urlsafe \<and> n = 45) then Some 62
      else if n = 47 \<or> (urlsafe \<and> n = 95) then Some 63
      else None)"

text \<open>\<open>binascii.a2b_base64\<close>: the position in the group of four, the padding seen since the last character of the alphabet, the bits left over, and the bytes written.\<close>

fun a2b :: "bool \<Rightarrow> nat \<Rightarrow> nat \<Rightarrow> nat \<Rightarrow> str \<Rightarrow> str \<Rightarrow> (str \<times> str) + str" where
  "a2b u pos pads left out [] =
     (if pos = 0 then Inr (rev out)
      else if pos = 1 then
        Inl (''Error'', ''Invalid base64-encoded string: number of data characters ('' @ show_int (int (length out div 3 * 4 + 1)) @
                        '') cannot be 1 more than a multiple of 4'')
      else Inl (''Error'', ''Incorrect padding''))"
| "a2b u pos pads left out (c # s) =
     (if c = CHR ''='' then
        (if 2 \<le> pos \<and> 4 \<le> pos + Suc pads then Inr (rev out)
         else a2b u pos (if 2 \<le> pos then Suc pads else pads) left out s)
      else
        case sextet u c of
          None \<Rightarrow> a2b u pos pads left out s
        | Some v \<Rightarrow>
            if pos = 0 then a2b u 1 0 v out s
            else if pos = 1 then a2b u 2 0 (v mod 16) (char_of (left * 4 + v div 16) # out) s
            else if pos = 2 then a2b u 3 0 (v mod 4) (char_of (left * 16 + v div 4) # out) s
            else a2b u 0 0 0 (char_of (left * 64 + v) # out) s)"

definition b64decode_with :: "bool \<Rightarrow> str \<Rightarrow> (str \<times> str) + str" where
  "b64decode_with u s =
     guardE (is_ascii s) (''ValueError'', ''string argument should contain only ASCII characters'') (a2b u 0 0 0 [] s)"

definition urlsafe_b64decode :: "str \<Rightarrow> (str \<times> str) + str" where
  "urlsafe_b64decode = b64decode_with True"

definition b64decode :: "str \<Rightarrow> (str \<times> str) + str" where
  "b64decode = b64decode_with False"

text \<open>\<open>"=" * (-len(s) % 4)\<close>.\<close>

definition padding :: "str \<Rightarrow> str" where
  "padding s = replicate (nat ((- int (length s)) mod 4)) (CHR ''='')"

section \<open>Round trip\<close>

lemma byte_less [simp]: "byte c < 256"
  by (simp add: byte_def)

lemma char_of_byte [simp]: "char_of (byte c) = c"
  by (simp add: byte_def)

lemma byte_char_of [simp]: "n < 256 \<Longrightarrow> byte (char_of n) = n"
  by (simp add: byte_def)

lemma byte_b64_char:
  "n < 64 \<Longrightarrow> byte (b64_char n) = (if n < 26 then 65 + n else if n < 52 then 71 + n else if n < 62 then n - 4 else if n = 62 then 45 else 95)"
  by (simp add: b64_char_def) (simp add: byte_def)

lemma b64_char_sextet [simp]: "n < 64 \<Longrightarrow> sextet True (b64_char n) = Some n"
  by (auto simp: sextet_def byte_b64_char Let_def)

lemma b64_char_plain [simp]:
  assumes "n < 64"
  shows "b64_char n \<noteq> CHR ''=''" and "b64_char n \<noteq> CHR ''.''" and "byte (b64_char n) < 128"
proof -
  have "byte (CHR ''='') = 61" "byte (CHR ''.'') = 46" by (simp_all add: byte_def)
  moreover have "byte (b64_char n) \<noteq> 61" "byte (b64_char n) \<noteq> 46" "byte (b64_char n) < 128" using assms by (auto simp: byte_b64_char)
  ultimately show "b64_char n \<noteq> CHR ''=''" "b64_char n \<noteq> CHR ''.''" "byte (b64_char n) < 128" by metis+
qed

lemma byte_parts [simp]: "byte a div 4 < 64" "byte a div 16 < 16" "byte a div 64 < 4"
  using byte_less [of a] by (auto intro: less_mult_imp_div_less)

lemma byte_parts_mod [simp]:
  "byte a div 16 mod 16 = byte a div 16" "byte a div 64 mod 4 = byte a div 64" "byte a div 16 div 16 = 0" "byte a div 64 div 4 = 0"
  by simp_all

lemma sextets_less [simp]:
  "byte a mod 4 * 16 < 64" "byte a mod 4 * 16 + byte b div 16 < 64" "byte b mod 16 * 4 < 64" "byte b mod 16 * 4 + byte c div 64 < 64"
proof -
  have "byte a mod 4 < 4" "byte b mod 16 < 16" by simp_all
  then show "byte a mod 4 * 16 < 64" "byte a mod 4 * 16 + byte b div 16 < 64" "byte b mod 16 * 4 < 64" "byte b mod 16 * 4 + byte c div 64 < 64"
    using byte_parts(2) [of b] byte_parts(3) [of c] by linarith+
qed

text \<open>The encoded characters without the padding.\<close>

fun core :: "str \<Rightarrow> str" where
  "core [] = []"
| "core [a] = [b64_char (byte a div 4), b64_char (byte a mod 4 * 16)]"
| "core [a, b] = [b64_char (byte a div 4), b64_char (byte a mod 4 * 16 + byte b div 16), b64_char (byte b mod 16 * 4)]"
| "core (a # b # c # s) =
     [b64_char (byte a div 4), b64_char (byte a mod 4 * 16 + byte b div 16), b64_char (byte b mod 16 * 4 + byte c div 64), b64_char (byte c mod 64)] @ core s"

fun pads_of :: "str \<Rightarrow> nat" where
  "pads_of [] = 0"
| "pads_of [a] = 2"
| "pads_of [a, b] = 1"
| "pads_of (a # b # c # s) = pads_of s"

lemma encode_core: "urlsafe_b64encode s = core s @ replicate (pads_of s) (CHR ''='')"
  by (induction s rule: core.induct) (simp_all add: numeral_2_eq_2)

lemma core_chars: "c \<in> set (core s) \<Longrightarrow> c \<noteq> CHR ''='' \<and> c \<noteq> CHR ''.'' \<and> byte c < 128"
  by (induction s rule: core.induct) auto

lemma b64url_core: "b64url s = core s"
proof -
  have "dropWhile (\<lambda>c. c = CHR ''='') (replicate n (CHR ''='') @ xs) = dropWhile (\<lambda>c. c = CHR ''='') xs" for n xs
    by (induction n) simp_all
  moreover have "dropWhile (\<lambda>c. c = CHR ''='') (rev (core s)) = rev (core s)"
    using core_chars [of _ s] by (cases "rev (core s)") (auto simp: rev_eq_Cons_iff dest: arg_cong [where f = set])
  ultimately show ?thesis by (simp add: b64url_def encode_core)
qed

lemma core_length: "(length (core s) + pads_of s) mod 4 = 0 \<and> pads_of s < 4"
  by (induction s rule: core.induct) (simp_all add: mod_simps, presburger?)

lemma padding_core: "padding (core s) = replicate (pads_of s) (CHR ''='')"
proof -
  have "(- int (length (core s))) mod 4 = int (pads_of s)" using core_length [of s] by presburger
  then show ?thesis by (simp add: padding_def)
qed

lemma a2b_core: "a2b True 0 0 0 out (core s @ replicate (pads_of s) (CHR ''='')) = Inr (rev out @ s)"
  by (induction s arbitrary: out rule: core.induct) (simp_all add: numeral_2_eq_2)

lemma core_ascii: "is_ascii (core s @ replicate n (CHR ''=''))"
  using core_chars [of _ s] by (auto simp: is_ascii_def list_all_iff byte_def)

text \<open>Padding restored, the decoder returns the bytes that were encoded; an encoded text has no dot.\<close>

theorem b64url_roundtrip: "urlsafe_b64decode (b64url s @ padding (b64url s)) = Inr s"
  using a2b_core [of "[]" s] core_ascii by (simp add: urlsafe_b64decode_def b64decode_with_def b64url_core padding_core)

lemma b64url_no_dot: "CHR ''.'' \<notin> set (b64url s)"
  using core_chars [of _ s] by (auto simp: b64url_core)

lemma b64url_Nil [simp]: "b64url s = [] \<longleftrightarrow> s = []"
  by (simp add: b64url_core) (cases s rule: core.cases; simp)


end
