(* ===== verification/Proofs.thy ===== *)
theory Proofs
  imports Artifacts Base64
begin

text \<open>
  Proof bundles, \<^verbatim>\<open>proof_bridge.py\<close>: the signed wrapper around a proof, its verification, the pipeline at the end of a job with the table it writes,
  and the route of \<^verbatim>\<open>main.py\<close> that verifies a stored proof.

  Ed25519, SHA-256, the JSON parser, the clock, the fresh ids and the browser bridge are arguments; JSON printing and Base64 are computed. An
  exception of a library is its class name with its text.
\<close>

section \<open>Signing and verifying\<close>

type_synonym exc_text = "str \<times> str"

text \<open>A private key is what it signs with, a public key the signatures it accepts; either raises on bytes that are no key. \<open>InvalidSignature\<close> is \<open>False\<close>.\<close>

record crypto =
  cr_ok :: bool
  cr_private :: "str \<Rightarrow> exc_text + (str \<Rightarrow> str)"
  cr_public :: "str \<Rightarrow> exc_text + (str \<Rightarrow> str \<Rightarrow> bool)"
  cr_sha256 :: "str \<Rightarrow> str"
  cr_loads :: "str \<Rightarrow> exc_text + pyval"

definition gateway_signing_key :: "crypto \<Rightarrow> env \<Rightarrow> (str \<Rightarrow> str) option" where
  "gateway_signing_key cr e =
     (let b64 = opt_header (e ''GENESIS_GATEWAY_PRIVKEY_B64'') in
      if \<not> cr_ok cr \<or> b64 = [] then None
      else (case bindE (b64decode b64) (cr_private cr) of Inl _ \<Rightarrow> None | Inr sign \<Rightarrow> Some sign))"

definition compact_json :: "pyval \<Rightarrow> str" where
  "compact_json = json_dumps True False '','' '':''"

definition jwt_header :: "str \<Rightarrow> str" where
  "jwt_header alg = b64url (compact_json (PDict [(''alg'', PStr alg), (''typ'', PStr ''JWT'')]))"

definition jwt_body :: "dict \<Rightarrow> str" where
  "jwt_body payload = b64url (canonical_json (PDict payload))"

definition build_vcap_wrapper_jwt :: "crypto \<Rightarrow> env \<Rightarrow> dict \<Rightarrow> str" where
  "build_vcap_wrapper_jwt cr e payload =
     (case gateway_signing_key cr e of
        None \<Rightarrow> jwt_header ''none'' @ ''.'' @ jwt_body payload @ ''.''
      | Some sign \<Rightarrow>
          let signing_input = jwt_header ''EdDSA'' @ ''.'' @ jwt_body payload in signing_input @ ''.'' @ b64url (sign signing_input))"

text \<open>\<open>token.split(".")\<close>.\<close>

fun dot_parts :: "str \<Rightarrow> str list" where
  "dot_parts [] = [[]]"
| "dot_parts (c # cs) =
     (if c = CHR ''.'' then [] # dot_parts cs else (case dot_parts cs of p # ps \<Rightarrow> (c # p) # ps | [] \<Rightarrow> [[c]]))"

definition jwt_error :: "str \<Rightarrow> dict \<Rightarrow> dict" where
  "jwt_error err extra = [(''ok'', PBool False), (''error'', PStr err)] @ extra"

definition check_signature :: "crypto \<Rightarrow> str \<Rightarrow> str \<Rightarrow> str \<Rightarrow> exc_text + bool" where
  "check_signature cr pubkey signing_input s_b64 =
     bindE (b64decode pubkey) (\<lambda>raw.
     bindE (cr_public cr raw) (\<lambda>accepts.
     bindE (urlsafe_b64decode (s_b64 @ padding s_b64)) (\<lambda>sig.
     Inr (accepts sig signing_input))))"

definition verify_vcap_wrapper_jwt :: "crypto \<Rightarrow> env \<Rightarrow> str \<Rightarrow> str option \<Rightarrow> dict" where
  "verify_vcap_wrapper_jwt cr e token pubkey_b64 =
     (if \<not> cr_ok cr then jwt_error ''crypto_unavailable'' []
      else
        case dot_parts token of
          [h_b64, p_b64, s_b64] \<Rightarrow>
            (case bindE (urlsafe_b64decode (p_b64 @ padding p_b64)) (cr_loads cr) of
               Inl (_, msg) \<Rightarrow> jwt_error ''payload_decode_failed'' [(''message'', PStr msg)]
             | Inr payload \<Rightarrow>
                 if s_b64 = [] then
                   [(''ok'', PBool True), (''verified'', PBool False), (''payload'', payload), (''note'', PStr ''unsigned token'')]
                 else
                   let pubkey = (if opt_header pubkey_b64 \<noteq> [] then opt_header pubkey_b64 else env_or e ''GENESIS_GATEWAY_PUBKEY_B64'' []) in
                   if pubkey = [] then jwt_error ''no_verifier_pubkey'' [(''payload'', payload)]
                   else
                     case check_signature cr pubkey (h_b64 @ ''.'' @ p_b64) s_b64 of
                       Inr True \<Rightarrow> [(''ok'', PBool True), (''verified'', PBool True), (''payload'', payload)]
                     | Inr False \<Rightarrow> jwt_error ''signature_invalid'' [(''payload'', payload)]
                     | Inl (cls, msg) \<Rightarrow> jwt_error cls [(''message'', PStr msg), (''payload'', payload)])
        | _ \<Rightarrow> jwt_error ''invalid_jwt_shape'' [])"

section \<open>The table of proofs\<close>

record proof_row =
  pf_id :: str
  pf_job_id :: str
  pf_agent_slug :: str
  pf_buyer_client_id :: "str option"
  pf_buyer_wallet_id :: "str option"
  pf_bundle_uri :: pyval
  pf_bundle_signed_url :: pyval
  pf_session_id :: pyval
  pf_public_key :: pyval
  pf_input_hash :: str
  pf_output_hash :: str
  pf_jwt :: str
  pf_duration :: str
  pf_created_at :: int

text \<open>The database: whether the driver is there, and what connecting, the insertion and the update of the job raise. No migration of the
  repository adds the column the update sets.\<close>

record proof_db =
  pd_driver :: bool
  pd_fails :: bool
  pd_link_fails :: bool
  pd_rows :: "proof_row list"

text \<open>\<open>INSERT ... ON CONFLICT ("jobId") DO UPDATE\<close> of the address and the wrapper, returning the id of the row.\<close>

definition upsert_proof :: "proof_row \<Rightarrow> proof_row list \<Rightarrow> str \<times> proof_row list" where
  "upsert_proof r rows =
     (case find (\<lambda>q. pf_job_id q = pf_job_id r) rows of
        None \<Rightarrow> (pf_id r, rows @ [r])
      | Some q \<Rightarrow>
          (pf_id q, map (\<lambda>q. if pf_job_id q = pf_job_id r then q\<lparr>pf_bundle_uri := pf_bundle_uri r, pf_jwt := pf_jwt r\<rparr> else q) rows))"

definition persist_proof :: "env \<Rightarrow> proof_row \<Rightarrow> proof_db \<Rightarrow> str option \<times> proof_db" where
  "persist_proof e r db =
     (if \<not> pd_driver db \<or> opt_header (e ''DATABASE_URL'') = [] \<or> pd_fails db then (None, db)
      else
        case upsert_proof r (pd_rows db) of
          (i, rows) \<Rightarrow>
            (if pf_job_id r \<noteq> [] \<and> pd_link_fails db then None else Some i, db\<lparr>pd_rows := rows\<rparr>))"

section \<open>The pipeline at the end of a job\<close>

datatype export = Export_Raised exc_text | Exported pyval

text \<open>The attributes of the bridge the pipeline reads, \<open>None\<close> when it has no such attribute; reading them raises nothing.\<close>

record bridge =
  br_export :: export
  br__session_id :: "pyval option"
  br_session_id :: "pyval option"
  br_identity_key :: "pyval option"
  br_public_key :: "pyval option"

definition attr_or :: "pyval option \<Rightarrow> pyval \<Rightarrow> pyval" where
  "attr_or v dflt = (case v of Some x \<Rightarrow> x | None \<Rightarrow> dflt)"

definition bridge_session :: "bridge \<Rightarrow> pyval" where
  "bridge_session b = py_or (attr_or (br__session_id b) PNone) (attr_or (br_session_id b) (PStr ''unknown''))"

definition bridge_pubkey :: "bridge \<Rightarrow> pyval" where
  "bridge_pubkey b =
     (let k = py_or (attr_or (br_identity_key b) (PStr [])) (PStr []) in
      if truthy k then k else py_or (attr_or (br_public_key b) (PStr [])) (PStr []))"

text \<open>The path of the exported bundle, from the answer of the export and the files that exist after it; \<open>norm\<close> is \<open>str(Path(text))\<close>.\<close>

definition exported_path :: "(py_exc \<Rightarrow> exc_text) \<Rightarrow> (str \<Rightarrow> str) \<Rightarrow> (str \<Rightarrow> str option) \<Rightarrow> str \<Rightarrow> export \<Rightarrow> dict + str" where
  "exported_path describe norm files proof_path ex =
     (let raised = (\<lambda>(cls, msg). jwt_error ''proof_export_failed'' [(''type'', PStr cls), (''message'', PStr msg)]);
          found = (\<lambda>p. if files p \<noteq> None then Inr p
                        else if files proof_path \<noteq> None then Inr proof_path
                        else Inl (jwt_error ''proof_export_no_file'' [(''expected'', PStr proof_path)])) in
      case ex of
        Export_Raised exc \<Rightarrow> Inl (raised exc)
      | Exported (PDict d) \<Rightarrow>
          if \<not> truthy (dget_default d ''success'' (PBool True)) \<and> truthy (dget d ''error'')
          then Inl (jwt_error ''proof_export_failed'' [(''message'', PStr (py_str (dget d ''error'')))])
          else (case py_or (dget d ''path'') (py_or (dget d ''output_path'') (PStr proof_path)) of
                  PStr cand \<Rightarrow> found (norm cand)
                | _ \<Rightarrow> Inl (raised (describe TypeError)))
      | Exported _ \<Rightarrow> found proof_path)"

record proof_job =
  pj_job_id :: str
  pj_agent_slug :: str
  pj_job_dir :: str
  pj_input :: dict
  pj_output :: dict
  pj_buyer_client_id :: "str option"
  pj_buyer_wallet_id :: "str option"

text \<open>What a run of the pipeline draws from outside: the clock, the two ids, the printed durations, and what creating the directory raises.\<close>

record proof_inputs =
  pi_now :: int
  pi_jti :: str
  pi_row_id :: str
  pi_duration :: str
  pi_rounded :: str
  pi_mkdir :: "py_exc option"

definition hash_of :: "crypto \<Rightarrow> dict \<Rightarrow> str" where
  "hash_of cr d = cr_sha256 cr (canonical_json (PDict d))"

definition wrapper_payload :: "crypto \<Rightarrow> proof_job \<Rightarrow> proof_inputs \<Rightarrow> bridge \<Rightarrow> pyval \<Rightarrow> dict" where
  "wrapper_payload cr j i b uri =
     [(''iat'', PInt (pi_now i)), (''jti'', PStr (pi_jti i)), (''agent_slug'', PStr (pj_agent_slug j)), (''job_id'', PStr (pj_job_id j)),
      (''proof_bundle_uri'', uri), (''input_hash'', PStr (hash_of cr (pj_input j))), (''output_hash'', PStr (hash_of cr (pj_output j))),
      (''conduit_pubkey'', bridge_pubkey b), (''conduit_session_id'', bridge_session b), (''duration_s'', PFloat (pi_rounded i))]"

definition stored_row :: "crypto \<Rightarrow> proof_job \<Rightarrow> proof_inputs \<Rightarrow> bridge \<Rightarrow> dict \<Rightarrow> str \<Rightarrow> proof_row" where
  "stored_row cr j i b upload jwt =
     \<lparr>pf_id = pi_row_id i, pf_job_id = pj_job_id j, pf_agent_slug = pj_agent_slug j, pf_buyer_client_id = pj_buyer_client_id j,
      pf_buyer_wallet_id = pj_buyer_wallet_id j, pf_bundle_uri = dget_default upload ''uri'' (PStr []),
      pf_bundle_signed_url = dget_default upload ''signed_url'' (PStr []), pf_session_id = bridge_session b, pf_public_key = bridge_pubkey b,
      pf_input_hash = hash_of cr (pj_input j), pf_output_hash = hash_of cr (pj_output j), pf_jwt = jwt, pf_duration = pi_duration i,
      pf_created_at = pi_now i\<rparr>"

definition proof_result :: "str option \<Rightarrow> dict \<Rightarrow> str \<Rightarrow> str \<Rightarrow> str \<Rightarrow> dict" where
  "proof_result proof_id upload jwt input_hash output_hash =
     [(''ok'', PBool True), (''proof_id'', opt_val_str proof_id), (''proof_bundle_uri'', dget upload ''uri''), (''signed_url'', dget upload ''signed_url''),
      (''vcap_wrapper_jwt'', PStr jwt), (''input_hash'', PStr input_hash), (''output_hash'', PStr output_hash)]"

definition pipeline_exception :: "(py_exc \<Rightarrow> exc_text) \<Rightarrow> py_exc \<Rightarrow> dict" where
  "pipeline_exception describe exc =
     (case describe exc of (cls, msg) \<Rightarrow> jwt_error ''proof_pipeline_exception'' [(''type'', PStr cls), (''message'', PStr msg)])"

text \<open>\<open>files\<close> are the files on disk after the export; \<open>describe\<close> gives the class and the text of an exception.\<close>

definition generate_proof_for_job ::
  "crypto \<Rightarrow> env \<Rightarrow> artifact_env \<Rightarrow> (py_exc \<Rightarrow> exc_text) \<Rightarrow> (str \<Rightarrow> str) \<Rightarrow> (str \<Rightarrow> str option) \<Rightarrow> proof_inputs \<Rightarrow> bridge option \<Rightarrow> proof_job \<Rightarrow>
   storage \<Rightarrow> proof_db \<Rightarrow> dict \<times> storage \<times> proof_db" where
  "generate_proof_for_job cr e a describe norm files i br j st db =
     (let proof_dir = path_join (pj_job_dir j) ''proof''; proof_path = path_join proof_dir ''proof.tar.gz'' in
      case pi_mkdir i of
        Some exc \<Rightarrow> (pipeline_exception describe exc, st, db)
      | None \<Rightarrow>
      case br of
        None \<Rightarrow> (jwt_error ''no_bridge'' [(''message'', PStr ''ConduitBridge required for proof export'')], st, db)
      | Some b \<Rightarrow>
      case exported_path describe norm files proof_path (br_export b) of
        Inl err \<Rightarrow> (err, st, db)
      | Inr path \<Rightarrow>
      case upload_file a (pj_job_id j) path (files path) (Some ''proof.tar.gz'') ''application/gzip'' st of
        (Inl exc, st1) \<Rightarrow> (pipeline_exception describe exc, st1, db)
      | (Inr upload, st1) \<Rightarrow>
          let uri = dget_default upload ''uri'' (PStr (''file://'' @ path));
              jwt = build_vcap_wrapper_jwt cr e (wrapper_payload cr j i b uri) in
          (case persist_proof e (stored_row cr j i b upload jwt) db of
             (proof_id, db1) \<Rightarrow>
               (proof_result proof_id upload jwt (hash_of cr (pj_input j)) (hash_of cr (pj_output j)), st1, db1)))"

section \<open>The route\<close>

text \<open>\<open>bridge_ok\<close> says whether \<open>proof_bridge\<close> could be imported; \<open>failed\<close> is the text of an exception of the database.\<close>

definition verify_proof ::
  "crypto \<Rightarrow> env \<Rightarrow> (int \<Rightarrow> str) \<Rightarrow> bool \<Rightarrow> headers \<Rightarrow> str \<Rightarrow> str option \<Rightarrow> proof_db \<Rightarrow> gw_exc + dict" where
  "verify_proof cr e isoformat bridge_ok h proof_id failed db =
     bindE (verify_gateway_key e h) (\<lambda>_.
     guardE bridge_ok (http 503 ''proof_bridge unavailable'')
    (guardE (pd_driver db) (http 503 ''psycopg unavailable'')
    (guardE (opt_header (e ''DATABASE_URL'') \<noteq> []) (http 503 ''DATABASE_URL not configured'')
    (case failed of
       Some msg \<Rightarrow> Inl (http 500 (''database error: '' @ msg))
     | None \<Rightarrow>
         bindE (optE (http 404 ''proof not found'') (find (\<lambda>r. pf_id r = proof_id) (pd_rows db))) (\<lambda>r. Inr
           [(''proof_id'', PStr proof_id), (''job_id'', PStr (pf_job_id r)), (''agent_slug'', PStr (pf_agent_slug r)),
            (''created_at'', PStr (isoformat (pf_created_at r))), (''verification'', PDict (verify_vcap_wrapper_jwt cr e (pf_jwt r) None)),
            (''proof_bundle_uri'', pf_bundle_uri r), (''proof_bundle_signed_url'', pf_bundle_signed_url r), (''input_hash'', PStr (pf_input_hash r)),
            (''output_hash'', PStr (pf_output_hash r)), (''conduit_session_id'', pf_session_id r)])))))"

section \<open>Wrappers\<close>

lemma dot_parts_plain: "CHR ''.'' \<notin> set a \<Longrightarrow> dot_parts a = [a]"
  by (induction a) auto

lemma dot_parts_nonempty [simp]: "dot_parts s \<noteq> []"
  by (induction s) (auto split: list.splits)

lemma dot_parts_append: "CHR ''.'' \<notin> set a \<Longrightarrow> dot_parts (a @ CHR ''.'' # s) = a # dot_parts s"
  by (induction a) auto

lemma dot_parts_inv: "dot_parts s = ps \<Longrightarrow> s = join ''.'' ps \<and> (\<forall>p\<in>set ps. CHR ''.'' \<notin> set p)"
proof (induction s arbitrary: ps)
  case (Cons c s)
  obtain q qs where q: "dot_parts s = q # qs" by (cases "dot_parts s") auto
  from Cons.IH [OF q] have s: "s = join ''.'' (q # qs)" "\<forall>p\<in>set (q # qs). CHR ''.'' \<notin> set p" by auto
  show ?case
  proof (cases "c = CHR ''.''")
    case True
    with Cons.prems q have "ps = [] # q # qs" by simp
    with s True show ?thesis by simp
  next
    case False
    with Cons.prems q have "ps = (c # q) # qs" by simp
    with s False show ?thesis by (cases qs) auto
  qed
qed auto

lemma header_no_dot: "CHR ''.'' \<notin> set (jwt_header alg)"
  by (simp add: jwt_header_def b64url_no_dot)

lemma body_no_dot: "CHR ''.'' \<notin> set (jwt_body payload)"
  by (simp add: jwt_body_def b64url_no_dot)

lemma body_decodes: "urlsafe_b64decode (jwt_body payload @ padding (jwt_body payload)) = Inr (canonical_json (PDict payload))"
  by (simp add: jwt_body_def b64url_roundtrip)

definition signing_input :: "dict \<Rightarrow> str" where
  "signing_input payload = jwt_header ''EdDSA'' @ ''.'' @ jwt_body payload"

lemma verify_parts:
  assumes "cr_ok cr" and "CHR ''.'' \<notin> set h" and "CHR ''.'' \<notin> set s"
    and "cr_loads cr (canonical_json (PDict payload)) = Inr v"
  shows "verify_vcap_wrapper_jwt cr e (h @ ''.'' @ jwt_body payload @ ''.'' @ s) pk =
    (if s = [] then [(''ok'', PBool True), (''verified'', PBool False), (''payload'', v), (''note'', PStr ''unsigned token'')]
     else
       let pubkey = (if opt_header pk \<noteq> [] then opt_header pk else env_or e ''GENESIS_GATEWAY_PUBKEY_B64'' []) in
       if pubkey = [] then jwt_error ''no_verifier_pubkey'' [(''payload'', v)]
       else
         case check_signature cr pubkey (h @ ''.'' @ jwt_body payload) s of
           Inr True \<Rightarrow> [(''ok'', PBool True), (''verified'', PBool True), (''payload'', v)]
         | Inr False \<Rightarrow> jwt_error ''signature_invalid'' [(''payload'', v)]
         | Inl (cls, msg) \<Rightarrow> jwt_error cls [(''message'', PStr msg), (''payload'', v)])"
proof -
  have "dot_parts (h @ ''.'' @ jwt_body payload @ ''.'' @ s) = [h, jwt_body payload, s]"
    using assms(2,3) body_no_dot by (simp add: dot_parts_append dot_parts_plain)
  then show ?thesis using assms(1,4) by (simp add: verify_vcap_wrapper_jwt_def body_decodes Let_def)
qed

text \<open>The public key the verifier is given accepts what the gateway's private key signs; signatures are not empty.\<close>

definition keys_match :: "crypto \<Rightarrow> env \<Rightarrow> (str \<Rightarrow> str) \<Rightarrow> bool" where
  "keys_match cr e sign \<longleftrightarrow>
     cr_ok cr \<and> gateway_signing_key cr e = Some sign \<and> (\<forall>m. sign m \<noteq> []) \<and>
     (\<exists>pk raw accepts. e ''GENESIS_GATEWAY_PUBKEY_B64'' = Some pk \<and> pk \<noteq> [] \<and> b64decode pk = Inr raw \<and> cr_public cr raw = Inr accepts \<and>
        (\<forall>m. accepts (sign m) m))"

lemma check_signature_own:
  assumes "keys_match cr e sign"
  shows "check_signature cr (env_or e ''GENESIS_GATEWAY_PUBKEY_B64'' []) m (b64url (sign m)) = Inr True"
  using assms b64url_roundtrip [of "sign m"] by (auto simp: keys_match_def check_signature_def env_or_def)

lemma own_wrapper_verifies:
  assumes match: "keys_match cr e sign" and loads: "cr_loads cr (canonical_json (PDict payload)) = Inr v"
  shows "verify_vcap_wrapper_jwt cr e (build_vcap_wrapper_jwt cr e payload) None = [(''ok'', PBool True), (''verified'', PBool True), (''payload'', v)]"
proof -
  have ok: "cr_ok cr" using match by (simp add: keys_match_def)
  let ?m = "signing_input payload" and ?pk = "env_or e ''GENESIS_GATEWAY_PUBKEY_B64'' []"
  have built: "build_vcap_wrapper_jwt cr e payload = jwt_header ''EdDSA'' @ ''.'' @ jwt_body payload @ ''.'' @ b64url (sign ?m)"
    using match by (simp add: build_vcap_wrapper_jwt_def keys_match_def signing_input_def Let_def)
  have "?pk \<noteq> []" "sign ?m \<noteq> []" using match by (auto simp: keys_match_def env_or_def)
  moreover have "check_signature cr ?pk (jwt_header ''EdDSA'' @ ''.'' @ jwt_body payload) (b64url (sign ?m)) = Inr True"
    using check_signature_own [OF match, of ?m] by (simp add: signing_input_def)
  ultimately show "verify_vcap_wrapper_jwt cr e (build_vcap_wrapper_jwt cr e payload) None = [(''ok'', PBool True), (''verified'', PBool True), (''payload'', v)]"
    unfolding built using verify_parts [OF ok header_no_dot [of "''EdDSA''"] b64url_no_dot [of "sign ?m"] loads, of e None]
    by (simp add: opt_header_def)
qed

text \<open>C28. A wrapper the gateway signs verifies, and the verifier reads the payload that was wrapped: through the sorted compact JSON, its URL-safe Base64 without
  padding, the signature over header and body, and back. Without a signing key the wrapper is still answered with \<open>ok\<close>, but not as verified.\<close>

theorem wrapper_roundtrip:
  assumes "cr_ok cr" and "cr_loads cr (canonical_json (PDict payload)) = Inr v"
  shows "(gateway_signing_key cr e = None \<longrightarrow>
       verify_vcap_wrapper_jwt cr e (build_vcap_wrapper_jwt cr e payload) None =
         [(''ok'', PBool True), (''verified'', PBool False), (''payload'', v), (''note'', PStr ''unsigned token'')]) \<and>
    (\<forall>sign. keys_match cr e sign \<longrightarrow>
       verify_vcap_wrapper_jwt cr e (build_vcap_wrapper_jwt cr e payload) None = [(''ok'', PBool True), (''verified'', PBool True), (''payload'', v)])"
proof (intro conjI allI impI)
  assume "gateway_signing_key cr e = None"
  then show "verify_vcap_wrapper_jwt cr e (build_vcap_wrapper_jwt cr e payload) None =
      [(''ok'', PBool True), (''verified'', PBool False), (''payload'', v), (''note'', PStr ''unsigned token'')]"
    using verify_parts [OF assms(1) header_no_dot [of "''none''"] _ assms(2), of "[]" e None] by (simp add: build_vcap_wrapper_jwt_def)
next
  fix sign
  assume "keys_match cr e sign"
  then show "verify_vcap_wrapper_jwt cr e (build_vcap_wrapper_jwt cr e payload) None = [(''ok'', PBool True), (''verified'', PBool True), (''payload'', v)]"
    using assms(2) by (rule own_wrapper_verifies)
qed

text \<open>What the verifier answers once it has a payload.\<close>

definition signature_answer :: "crypto \<Rightarrow> str \<Rightarrow> str \<Rightarrow> str \<Rightarrow> pyval \<Rightarrow> dict" where
  "signature_answer cr key signed_text s v =
      (if s = [] then [(''ok'', PBool True), (''verified'', PBool False), (''payload'', v), (''note'', PStr ''unsigned token'')]
       else if key = [] then jwt_error ''no_verifier_pubkey'' [(''payload'', v)]
       else case check_signature cr key signed_text s of
              Inr True \<Rightarrow> [(''ok'', PBool True), (''verified'', PBool True), (''payload'', v)]
            | Inr False \<Rightarrow> jwt_error ''signature_invalid'' [(''payload'', v)]
            | Inl (cls, msg) \<Rightarrow> jwt_error cls [(''message'', PStr msg), (''payload'', v)])"

lemma not_verified:
  "dget (jwt_error err [(''payload'', v)]) ''verified'' \<noteq> PBool True" "dget (jwt_error err [(''message'', m)]) ''verified'' \<noteq> PBool True"
  "dget (jwt_error err [(''message'', m), (''payload'', v)]) ''verified'' \<noteq> PBool True" "dget (jwt_error err []) ''verified'' \<noteq> PBool True"
  "dget [(''ok'', PBool True), (''verified'', PBool False), (''payload'', v), (''note'', PStr ''unsigned token'')] ''verified'' \<noteq> PBool True"
  by (simp_all add: jwt_error_def dget_Cons)

lemma verified_parsed:
  assumes "dget (verify_vcap_wrapper_jwt cr e token None) ''verified'' = PBool True"
  obtains h b s v where "dot_parts token = [h, b, s]" and "bindE (urlsafe_b64decode (b @ padding b)) (cr_loads cr) = Inr v"
    and "verify_vcap_wrapper_jwt cr e token None = signature_answer cr (env_or e ''GENESIS_GATEWAY_PUBKEY_B64'' []) (h @ ''.'' @ b) s v"
proof -
  have ok: "cr_ok cr"
  proof (rule ccontr)
    assume "\<not> cr_ok cr"
    then have "verify_vcap_wrapper_jwt cr e token None = jwt_error ''crypto_unavailable'' []" by (simp add: verify_vcap_wrapper_jwt_def)
    with assms not_verified(4) show False by simp
  qed
  obtain h b s where parts: "dot_parts token = [h, b, s]"
  proof (rule ccontr)
    assume no_parts: "\<not> thesis"
    with that have none: "\<forall>h b s. dot_parts token \<noteq> [h, b, s]" by blast
    have "verify_vcap_wrapper_jwt cr e token None = jwt_error ''invalid_jwt_shape'' []"
      unfolding verify_vcap_wrapper_jwt_def using ok none by (simp split: list.split)
    with assms not_verified(4) show False by simp
  qed
  obtain v where v: "bindE (urlsafe_b64decode (b @ padding b)) (cr_loads cr) = Inr v"
  proof (cases "bindE (urlsafe_b64decode (b @ padding b)) (cr_loads cr)")
    case (Inl err)
    then show thesis using assms not_verified ok parts by (cases err) (simp add: verify_vcap_wrapper_jwt_def)
  qed
  have "verify_vcap_wrapper_jwt cr e token None = signature_answer cr (env_or e ''GENESIS_GATEWAY_PUBKEY_B64'' []) (h @ ''.'' @ b) s v"
    unfolding verify_vcap_wrapper_jwt_def signature_answer_def
    by (simp only: ok parts v list.case sum.case if_True if_False Let_def simp_thms opt_header_def option.case not_True_eq_False)
  with parts v show thesis by (rule that)
qed

lemma signature_answer_verified:
  assumes "dget (signature_answer cr key m s v) ''verified'' = PBool True"
  shows "s \<noteq> [] \<and> check_signature cr key m s = Inr True \<and> signature_answer cr key m s v = [(''ok'', PBool True), (''verified'', PBool True), (''payload'', v)]"
proof -
  have s: "s \<noteq> []"
  proof
    assume "s = []"
    then have "signature_answer cr key m s v = [(''ok'', PBool True), (''verified'', PBool False), (''payload'', v), (''note'', PStr ''unsigned token'')]"
      by (simp only: signature_answer_def if_True simp_thms)
    with assms not_verified(5) show False by metis
  qed
  have key: "key \<noteq> []"
  proof
    assume "key = []"
    with s have "signature_answer cr key m s v = jwt_error ''no_verifier_pubkey'' [(''payload'', v)]"
      by (simp only: signature_answer_def if_True if_False simp_thms)
    with assms not_verified(1) show False by metis
  qed
  have "check_signature cr key m s = Inr True"
  proof (cases "check_signature cr key m s")
    case (Inl err)
    then show ?thesis using assms s key not_verified(3) by (cases err) (simp add: signature_answer_def)
  next
    case (Inr r)
    then show ?thesis using assms s key not_verified(1) by (cases r) (simp_all add: signature_answer_def)
  qed
  with s key show ?thesis by (simp add: signature_answer_def)
qed

text \<open>Under the verifier's key only wrappers the gateway built verify.\<close>

definition only_signed :: "crypto \<Rightarrow> env \<Rightarrow> dict set \<Rightarrow> bool" where
  "only_signed cr e ours \<longleftrightarrow>
     (\<forall>raw accepts sg m. b64decode (env_or e ''GENESIS_GATEWAY_PUBKEY_B64'' []) = Inr raw \<longrightarrow> cr_public cr raw = Inr accepts \<longrightarrow> accepts sg m \<longrightarrow>
        m \<in> signing_input ` ours)"

text \<open>C24. A wrapper that is reported as verified carries a payload the gateway signed, when nobody else can sign under the verifier's key: the header,
  the body and the rest of the text cannot be exchanged. A wrapper without a signature is never reported as verified, whatever its payload.\<close>

theorem wrapper_authentic:
  assumes "dget (verify_vcap_wrapper_jwt cr e token None) ''verified'' = PBool True"
    and only_gateway: "only_signed cr e ours"
  shows "\<exists>payload\<in>ours. \<exists>v s. cr_loads cr (canonical_json (PDict payload)) = Inr v \<and> s \<noteq> [] \<and> token = signing_input payload @ ''.'' @ s \<and>
    verify_vcap_wrapper_jwt cr e token None = [(''ok'', PBool True), (''verified'', PBool True), (''payload'', v)]"
proof -
  from verified_parsed [OF assms(1)] obtain h b s v where parts: "dot_parts token = [h, b, s]"
    and v: "bindE (urlsafe_b64decode (b @ padding b)) (cr_loads cr) = Inr v"
    and eq: "verify_vcap_wrapper_jwt cr e token None = signature_answer cr (env_or e ''GENESIS_GATEWAY_PUBKEY_B64'' []) (h @ ''.'' @ b) s v" .
  from signature_answer_verified [OF assms(1) [unfolded eq]] have s: "s \<noteq> []"
    and sig: "check_signature cr (env_or e ''GENESIS_GATEWAY_PUBKEY_B64'' []) (h @ ''.'' @ b) s = Inr True"
    and result: "verify_vcap_wrapper_jwt cr e token None = [(''ok'', PBool True), (''verified'', PBool True), (''payload'', v)]"
    unfolding eq by blast+
  from sig obtain raw accepts sg where "b64decode (env_or e ''GENESIS_GATEWAY_PUBKEY_B64'' []) = Inr raw" "cr_public cr raw = Inr accepts" "accepts sg (h @ ''.'' @ b)"
    by (auto simp: check_signature_def bindE_Inr)
  with only_gateway [unfolded only_signed_def] obtain payload where p: "payload \<in> ours" "h @ ''.'' @ b = signing_input payload" by blast
  from dot_parts_inv [OF parts] have dots: "CHR ''.'' \<notin> set h" "CHR ''.'' \<notin> set b" "token = h @ ''.'' @ b @ ''.'' @ s" by auto
  have "dot_parts (h @ ''.'' @ b) = [h, b]" "dot_parts (signing_input payload) = [jwt_header ''EdDSA'', jwt_body payload]"
    using dots header_no_dot body_no_dot by (simp_all add: dot_parts_append dot_parts_plain signing_input_def)
  with p(2) have "b = jwt_body payload" by simp
  with v have "cr_loads cr (canonical_json (PDict payload)) = Inr v" by (simp add: body_decodes)
  moreover have "token = signing_input payload @ ''.'' @ s" using dots(3) by (simp flip: p(2))
  ultimately show ?thesis using p(1) s result by blast
qed

section \<open>From the job to the route\<close>

definition proofs_ok :: "proof_row list \<Rightarrow> bool" where
  "proofs_ok rows \<longleftrightarrow> distinct (map pf_id rows) \<and> distinct (map pf_job_id rows)"

lemma find_key: "distinct (map k rows) \<Longrightarrow> r \<in> set rows \<Longrightarrow> find (\<lambda>x. k x = k r) rows = Some r"
  by (induction rows) auto

lemma find_key_None: "find (\<lambda>x. k x = y) rows = None \<longleftrightarrow> y \<notin> k ` set rows"
  by (force simp: find_None_iff)

lemma find_key_Some: "find (\<lambda>x. k x = y) rows = Some r \<Longrightarrow> r \<in> set rows \<and> k r = y"
  by (auto simp: find_Some_iff)

text \<open>The insertion keeps the keys of the table, and the row that is returned has the new wrapper; its other columns are those of the first proof of
  the job.\<close>

lemma upsert_proof_ok:
  assumes "proofs_ok rows" and "pf_id r \<notin> pf_id ` set rows" and "upsert_proof r rows = (i, rows')"
  shows "proofs_ok rows' \<and> (\<exists>r'. find (\<lambda>q. pf_id q = i) rows' = Some r' \<and> pf_job_id r' = pf_job_id r \<and> pf_jwt r' = pf_jwt r \<and>
     (case find (\<lambda>q. pf_job_id q = pf_job_id r) rows of
        None \<Rightarrow> r' = r
      | Some q \<Rightarrow> r' = q\<lparr>pf_bundle_uri := pf_bundle_uri r, pf_jwt := pf_jwt r\<rparr>))"
proof (cases "find (\<lambda>q. pf_job_id q = pf_job_id r) rows")
  case None
  with assms(3) have new: "i = pf_id r" "rows' = rows @ [r]" by (simp_all add: upsert_proof_def)
  have "pf_job_id r \<notin> pf_job_id ` set rows" using None by (simp only: find_key_None not_False_eq_True)
  with assms(1,2) have ok: "proofs_ok rows'" by (simp add: proofs_ok_def new)
  have "find (\<lambda>q. pf_id q = pf_id r) rows' = Some r"
    using ok by (intro find_key) (simp_all add: proofs_ok_def new)
  with None ok new show ?thesis by auto
next
  case (Some q)
  let ?f = "\<lambda>q. if pf_job_id q = pf_job_id r then q\<lparr>pf_bundle_uri := pf_bundle_uri r, pf_jwt := pf_jwt r\<rparr> else q"
  from Some assms(3) have new: "i = pf_id q" "rows' = map ?f rows" by (simp_all add: upsert_proof_def)
  have keys: "map pf_id (map ?f rows) = map pf_id rows" "map pf_job_id (map ?f rows) = map pf_job_id rows" by simp_all
  with assms(1) have ok: "proofs_ok rows'" unfolding new proofs_ok_def by (simp only:)
  have q: "q \<in> set rows" "pf_job_id q = pf_job_id r" using find_key_Some [OF Some] by simp_all
  have "?f q \<in> set rows'" unfolding new set_map using q(1) by (rule imageI)
  then have "find (\<lambda>x. pf_id x = pf_id (?f q)) rows' = Some (?f q)" using ok by (intro find_key) (simp_all add: proofs_ok_def)
  with Some ok new q show ?thesis by simp
qed

lemma jwt_error_not_ok [simp]: "dget (jwt_error err extra) ''ok'' = PBool False"
  by (simp add: jwt_error_def dget_Cons)

lemma exported_path_error: "exported_path describe norm files p ex = Inl d \<Longrightarrow> dget d ''ok'' = PBool False"
  by (auto simp: exported_path_def Let_def split: export.splits pyval.splits if_splits prod.splits)

definition wrapper_of :: "crypto \<Rightarrow> proof_job \<Rightarrow> proof_inputs \<Rightarrow> bridge \<Rightarrow> str \<Rightarrow> dict \<Rightarrow> dict" where
  "wrapper_of cr j i b path upload = wrapper_payload cr j i b (dget_default upload ''uri'' (PStr (''file://'' @ path)))"

lemma generate_proof_ok:
  assumes "generate_proof_for_job cr e a describe norm files i br j st db = (res, st1, db1)" and "dget res ''ok'' = PBool True"
  obtains b path upload pid where "br = Some b"
    and "persist_proof e (stored_row cr j i b upload (build_vcap_wrapper_jwt cr e (wrapper_of cr j i b path upload))) db = (pid, db1)"
    and "res = proof_result pid upload (build_vcap_wrapper_jwt cr e (wrapper_of cr j i b path upload)) (hash_of cr (pj_input j)) (hash_of cr (pj_output j))"
proof -
  let ?p = "path_join (path_join (pj_job_dir j) ''proof'') ''proof.tar.gz''"
  have m: "pi_mkdir i = None"
    using assms by (cases "pi_mkdir i") (auto simp: generate_proof_for_job_def Let_def pipeline_exception_def split: prod.splits)
  obtain b where b: "br = Some b" using assms m by (cases br) (auto simp: generate_proof_for_job_def Let_def)
  obtain path where path: "exported_path describe norm files ?p (br_export b) = Inr path"
    using assms m b exported_path_error [of describe norm files ?p "br_export b"]
    by (cases "exported_path describe norm files ?p (br_export b)") (auto simp: generate_proof_for_job_def Let_def)
  obtain r st2 where up: "upload_file a (pj_job_id j) path (files path) (Some ''proof.tar.gz'') ''application/gzip'' st = (r, st2)" by fastforce
  obtain upload where r: "r = Inr upload"
    using assms m b path up by (cases r) (auto simp: generate_proof_for_job_def Let_def pipeline_exception_def split: prod.splits)
  obtain pid db2 where p: "persist_proof e (stored_row cr j i b upload (build_vcap_wrapper_jwt cr e (wrapper_of cr j i b path upload))) db = (pid, db2)"
    by fastforce
  have "generate_proof_for_job cr e a describe norm files i br j st db =
    (proof_result pid upload (build_vcap_wrapper_jwt cr e (wrapper_of cr j i b path upload)) (hash_of cr (pj_input j)) (hash_of cr (pj_output j)), st2, db2)"
    using m b path up r p by (simp add: generate_proof_for_job_def Let_def wrapper_of_def)
  with assms(1) p that [OF b, of upload path pid] show thesis by simp
qed

lemma persist_proof_Some:
  assumes "persist_proof e r db = (Some i, db1)"
  shows "pd_driver db1 \<and> opt_header (e ''DATABASE_URL'') \<noteq> [] \<and> upsert_proof r (pd_rows db) = (i, pd_rows db1)"
  using assms by (auto simp: persist_proof_def split: if_splits prod.splits)

text \<open>C27. A stored proof verifies at the route. When the pipeline returns an id, the route finds the row under it and the wrapper in it verifies to a payload with the
  digests of this run's input and output. The digests the route shows beside it are those of the first proof of the job: a second proof of the
  same job replaces the wrapper and leaves the old digests in the row.\<close>

theorem stored_proof_verifies:
  assumes run: "generate_proof_for_job cr e a describe norm files i br j st db = (res, st1, db1)"
    and "dget res ''ok'' = PBool True" and "dget res ''proof_id'' = PStr pid"
    and "keys_match cr e sign" and "proofs_ok (pd_rows db)" and "pi_row_id i \<notin> pf_id ` set (pd_rows db)"
    and "verify_gateway_key e h = Inr ()"
  shows "\<exists>d payload. verify_proof cr e isoformat True h pid None db1 = Inr d \<and> proofs_ok (pd_rows db1) \<and>
     dget payload ''input_hash'' = PStr (hash_of cr (pj_input j)) \<and> dget payload ''output_hash'' = PStr (hash_of cr (pj_output j)) \<and>
     dget payload ''job_id'' = PStr (pj_job_id j) \<and>
     (\<forall>v. cr_loads cr (canonical_json (PDict payload)) = Inr v \<longrightarrow>
        dget d ''verification'' = PDict [(''ok'', PBool True), (''verified'', PBool True), (''payload'', v)]) \<and>
     dget d ''job_id'' = PStr (pj_job_id j) \<and>
     (case find (\<lambda>r. pf_job_id r = pj_job_id j) (pd_rows db) of
        None \<Rightarrow> dget d ''input_hash'' = PStr (hash_of cr (pj_input j)) \<and> dget d ''output_hash'' = PStr (hash_of cr (pj_output j))
      | Some r \<Rightarrow> dget d ''input_hash'' = PStr (pf_input_hash r) \<and> dget d ''output_hash'' = PStr (pf_output_hash r))"
proof -
  from generate_proof_ok [OF assms(1,2)] obtain b path upload i' where
    persist: "persist_proof e (stored_row cr j i b upload (build_vcap_wrapper_jwt cr e (wrapper_of cr j i b path upload))) db = (i', db1)"
    and res: "res = proof_result i' upload (build_vcap_wrapper_jwt cr e (wrapper_of cr j i b path upload)) (hash_of cr (pj_input j)) (hash_of cr (pj_output j))"
    by metis
  let ?payload = "wrapper_of cr j i b path upload"
  let ?row = "stored_row cr j i b upload (build_vcap_wrapper_jwt cr e ?payload)"
  have "i' = Some pid" using assms(3) by (cases i') (simp_all add: res proof_result_def opt_val_str_def dget_Cons)
  with persist_proof_Some [of e ?row db pid db1] persist
  have up: "upsert_proof ?row (pd_rows db) = (pid, pd_rows db1)" and on: "pd_driver db1" "opt_header (e ''DATABASE_URL'') \<noteq> []" by auto
  have row: "pf_id ?row = pi_row_id i" "pf_job_id ?row = pj_job_id j" "pf_jwt ?row = build_vcap_wrapper_jwt cr e ?payload"
    "pf_input_hash ?row = hash_of cr (pj_input j)" "pf_output_hash ?row = hash_of cr (pj_output j)"
    by (simp_all add: stored_row_def)
  from upsert_proof_ok [OF assms(5) _ up] assms(6) row obtain r' where r': "proofs_ok (pd_rows db1)" "find (\<lambda>q. pf_id q = pid) (pd_rows db1) = Some r'"
    "pf_job_id r' = pj_job_id j" "pf_jwt r' = build_vcap_wrapper_jwt cr e ?payload"
    "case find (\<lambda>q. pf_job_id q = pj_job_id j) (pd_rows db) of None \<Rightarrow> r' = ?row
     | Some q \<Rightarrow> r' = q\<lparr>pf_bundle_uri := pf_bundle_uri ?row, pf_jwt := pf_jwt ?row\<rparr>"
    by auto
  have ok: "cr_ok cr" using assms(4) by (simp add: keys_match_def)
  have verified: "verify_vcap_wrapper_jwt cr e (pf_jwt r') None = [(''ok'', PBool True), (''verified'', PBool True), (''payload'', v)]"
    if "cr_loads cr (canonical_json (PDict ?payload)) = Inr v" for v
    using own_wrapper_verifies [OF assms(4) that] r'(4) by simp
  have payload: "dget ?payload ''input_hash'' = PStr (hash_of cr (pj_input j))" "dget ?payload ''output_hash'' = PStr (hash_of cr (pj_output j))"
    "dget ?payload ''job_id'' = PStr (pj_job_id j)" by (simp_all add: wrapper_of_def wrapper_payload_def dget_Cons)
  obtain d where d: "verify_proof cr e isoformat True h pid None db1 = Inr d"
    and shown: "dget d ''verification'' = PDict (verify_vcap_wrapper_jwt cr e (pf_jwt r') None)" "dget d ''job_id'' = PStr (pf_job_id r')"
      "dget d ''input_hash'' = PStr (pf_input_hash r')" "dget d ''output_hash'' = PStr (pf_output_hash r')"
    using assms(7) on r'(2) by (simp add: verify_proof_def dget_Cons)
  have "case find (\<lambda>r. pf_job_id r = pj_job_id j) (pd_rows db) of
        None \<Rightarrow> pf_input_hash r' = hash_of cr (pj_input j) \<and> pf_output_hash r' = hash_of cr (pj_output j)
      | Some r \<Rightarrow> pf_input_hash r' = pf_input_hash r \<and> pf_output_hash r' = pf_output_hash r"
    using r'(5) row(4,5) by (simp split: option.splits)
  then show ?thesis
    using d shown verified payload r'(1,3) by (intro exI [of _ d] exI [of _ ?payload]) (simp split: option.splits)
qed

section \<open>Concrete runs\<close>

definition sample_payload :: dict where
  "sample_payload = [(''job_id'', PStr ''j'')]"

definition sample_crypto :: crypto where
  "sample_crypto =
     \<lparr>cr_ok = True, cr_private = (\<lambda>_. Inr (\<lambda>m. ''s'')), cr_public = (\<lambda>_. Inr (\<lambda>sg m. sg = ''s'')), cr_sha256 = (\<lambda>s. ''h'' @ s),
      cr_loads = (\<lambda>s. if s = canonical_json (PDict sample_payload) then Inr (PDict sample_payload) else Inl (''JSONDecodeError'', ''Expecting value''))\<rparr>"

definition proof_env :: env where
  "proof_env = [''GENESIS_GATEWAY_PRIVKEY_B64'' \<mapsto> ''AA=='', ''GENESIS_GATEWAY_PUBKEY_B64'' \<mapsto> ''AA=='', ''DATABASE_URL'' \<mapsto> ''d'', ''GATEWAY_API_KEY'' \<mapsto> ''k'']"

lemma sample_key_decodes: "b64decode ''AA=='' = Inr [char_of (0::nat)]"
  by code_simp

lemma sample_keys_match: "keys_match sample_crypto proof_env (\<lambda>m. ''s'')"
  by (simp add: keys_match_def gateway_signing_key_def sample_crypto_def proof_env_def opt_header_def sample_key_decodes)

lemma wrapper_roundtrip_witness:
  "verify_vcap_wrapper_jwt sample_crypto proof_env (build_vcap_wrapper_jwt sample_crypto proof_env sample_payload) None =
     [(''ok'', PBool True), (''verified'', PBool True), (''payload'', PDict sample_payload)]"
proof -
  have "cr_ok sample_crypto" "cr_loads sample_crypto (canonical_json (PDict sample_payload)) = Inr (PDict sample_payload)" by (simp_all add: sample_crypto_def)
  from wrapper_roundtrip [OF this, of proof_env] sample_keys_match show ?thesis by blast
qed

text \<open>A key under which only the wrapper of the sample payload verifies.\<close>

definition narrow_crypto :: crypto where
  "narrow_crypto = sample_crypto\<lparr>cr_public := (\<lambda>_. Inr (\<lambda>sg m. sg = ''s'' \<and> m = signing_input sample_payload))\<rparr>"

lemma narrow_verifies:
  "dget (verify_vcap_wrapper_jwt narrow_crypto proof_env (signing_input sample_payload @ ''.'' @ b64url ''s'') None) ''verified'' = PBool True"
proof -
  have ok: "cr_ok narrow_crypto" "cr_loads narrow_crypto (canonical_json (PDict sample_payload)) = Inr (PDict sample_payload)"
    by (simp_all add: narrow_crypto_def sample_crypto_def)
  have pk: "env_or proof_env ''GENESIS_GATEWAY_PUBKEY_B64'' [] = ''AA==''" by (simp add: env_or_def proof_env_def)
  have "check_signature narrow_crypto ''AA=='' (jwt_header ''EdDSA'' @ ''.'' @ jwt_body sample_payload) (b64url ''s'') = Inr True"
    using b64url_roundtrip [of "''s''"] by (simp add: check_signature_def sample_key_decodes narrow_crypto_def signing_input_def)
  then show ?thesis
    using verify_parts [OF ok(1) header_no_dot [of "''EdDSA''"] b64url_no_dot [of "''s''"] ok(2), of proof_env None] pk
    by (simp add: signing_input_def opt_header_def dget_Cons)
qed

lemma wrapper_authentic_witness:
  "\<exists>v s. signing_input sample_payload @ ''.'' @ b64url ''s'' = signing_input sample_payload @ ''.'' @ s \<and> s \<noteq> [] \<and>
     verify_vcap_wrapper_jwt narrow_crypto proof_env (signing_input sample_payload @ ''.'' @ b64url ''s'') None =
       [(''ok'', PBool True), (''verified'', PBool True), (''payload'', v)]"
proof -
  have only: "only_signed narrow_crypto proof_env {sample_payload}" by (auto simp: only_signed_def narrow_crypto_def)
  from wrapper_authentic [OF narrow_verifies only] obtain payload v s where p: "payload \<in> {sample_payload}" and s: "s \<noteq> []"
    "signing_input sample_payload @ ''.'' @ b64url ''s'' = signing_input payload @ ''.'' @ s"
    "verify_vcap_wrapper_jwt narrow_crypto proof_env (signing_input sample_payload @ ''.'' @ b64url ''s'') None =
       [(''ok'', PBool True), (''verified'', PBool True), (''payload'', v)]"
    by (elim bexE exE conjE)
  from p have "payload = sample_payload" by (rule singletonD)
  with s show ?thesis by (intro exI [of _ v] exI [of _ s]) (simp only: simp_thms)
qed

text \<open>A second proof of job \<open>j\<close>: the wrapper in the row carries the digest of the new input, the route shows the old one beside it.\<close>

definition sample_bridge :: bridge where
  "sample_bridge =
     \<lparr>br_export = Exported (PDict [(''success'', PBool True), (''path'', PStr ''/w/proof/p.tar.gz'')]), br__session_id = Some (PStr ''sess''), br_session_id = None,
      br_identity_key = Some (PStr ''pub''), br_public_key = None\<rparr>"

definition sample_job :: proof_job where
  "sample_job =
     \<lparr>pj_job_id = ''j'', pj_agent_slug = ''a'', pj_job_dir = ''/w'', pj_input = [(''task'', PStr ''new'')], pj_output = [], pj_buyer_client_id = None,
      pj_buyer_wallet_id = None\<rparr>"

definition sample_inputs :: proof_inputs where
  "sample_inputs = \<lparr>pi_now = 7, pi_jti = ''p1'', pi_row_id = ''p2'', pi_duration = ''1.25'', pi_rounded = ''1.25'', pi_mkdir = None\<rparr>"

definition first_proof :: proof_row where
  "first_proof =
     \<lparr>pf_id = ''p0'', pf_job_id = ''j'', pf_agent_slug = ''a'', pf_buyer_client_id = None, pf_buyer_wallet_id = None, pf_bundle_uri = PStr ''u'',
      pf_bundle_signed_url = PStr ''u'', pf_session_id = PStr ''sess'', pf_public_key = PStr ''pub'', pf_input_hash = ''old'', pf_output_hash = ''old'',
      pf_jwt = ''t'', pf_duration = ''1.0'', pf_created_at = 3\<rparr>"

definition one_proof :: proof_db where
  "one_proof = \<lparr>pd_driver = True, pd_fails = False, pd_link_fails = False, pd_rows = [first_proof]\<rparr>"

definition second_run :: "dict \<times> storage \<times> proof_db" where
  "second_run =
     generate_proof_for_job sample_crypto proof_env disk_env (\<lambda>_. ([], [])) (\<lambda>p. p) (\<lambda>p. if p = ''/w/proof/p.tar.gz'' then Some ''z'' else None) sample_inputs
       (Some sample_bridge) sample_job no_storage one_proof"

lemma second_run_ok: "dget (fst second_run) ''ok'' = PBool True" "dget (fst second_run) ''proof_id'' = PStr ''p0''"
  by (simp_all add: second_run_def generate_proof_for_job_def sample_inputs_def sample_bridge_def sample_job_def exported_path_def dget_default_def py_or_def
      upload_file_def upload_local_def opt_header_def persist_proof_def one_proof_def proof_env_def upsert_proof_def stored_row_def first_proof_def
      proof_result_def dget_Cons opt_val_str_def Let_def)

lemma stored_proof_verifies_witness:
  "\<exists>d payload. verify_proof sample_crypto proof_env (\<lambda>_. []) True key_headers ''p0'' None (snd (snd second_run)) = Inr d \<and>
     dget payload ''input_hash'' = PStr (hash_of sample_crypto [(''task'', PStr ''new'')]) \<and> dget d ''input_hash'' = PStr ''old''"
proof -
  have run: "generate_proof_for_job sample_crypto proof_env disk_env (\<lambda>_. ([], [])) (\<lambda>p. p) (\<lambda>p. if p = ''/w/proof/p.tar.gz'' then Some ''z'' else None)
      sample_inputs (Some sample_bridge) sample_job no_storage one_proof = (fst second_run, fst (snd second_run), snd (snd second_run))"
    by (simp add: second_run_def)
  have key: "verify_gateway_key proof_env key_headers = Inr ()" by code_simp
  have ok: "proofs_ok (pd_rows one_proof)" "pi_row_id sample_inputs \<notin> pf_id ` set (pd_rows one_proof)"
    by (simp_all add: proofs_ok_def one_proof_def first_proof_def sample_inputs_def)
  have found: "find (\<lambda>r. pf_job_id r = pj_job_id sample_job) (pd_rows one_proof) = Some first_proof"
    by (simp add: one_proof_def first_proof_def sample_job_def)
  have "pj_input sample_job = [(''task'', PStr ''new'')]" "pf_input_hash first_proof = ''old''" by (simp_all add: sample_job_def first_proof_def)
  then show ?thesis
    using stored_proof_verifies [OF run second_run_ok sample_keys_match ok key, of "\<lambda>_. []"] unfolding found option.case by metis
qed

end
