(* ===== verification/Xero_Tool.thy ===== *)
theory Xero_Tool
  imports Sandbox Agent_Runtime
begin

text \<open>
  Writing to Xero: the tool \<open>xero_scoped_invoke\<close> (\<^verbatim>\<open>tools/xero_scoped_tool.py\<close>) over the scope gate, called by the agent loop, and the
  proofs of FinanceOS (\<^verbatim>\<open>accounting/financeos_proofs_client.py\<close>, \<^verbatim>\<open>tools/financeos_proofs_tool.py\<close>).

  The arguments of a tool have the types of its signature. \<open>urlparse\<close> (\<open>None\<close> is its \<open>ValueError\<close>), the JSON parser and the answers of the
  two services are arguments; a call returns with the requests it sent. The ledger is the file the tool keeps in the job's directory.
\<close>

section \<open>The ledger of executed operations\<close>

definition IDEMPOTENCY_FILE :: str where
  "IDEMPOTENCY_FILE = ''xero_scoped_idempotency.json''"

datatype ledger = Absent | Unreadable | Undecodable | Ledger_Text str

datatype tool_exc = Python py_exc | JSONDecodeError | UnicodeDecodeError | Transport str str

definition idempotency_key :: "str \<Rightarrow> str \<Rightarrow> str \<Rightarrow> str" where
  "idempotency_key verify_id operation slug = slug @ '':'' @ operation @ '':'' @ verify_id"

fun check_idempotency :: "(str \<Rightarrow> pyval option) \<Rightarrow> ledger option \<Rightarrow> str \<Rightarrow> tool_exc + bool" where
  "check_idempotency loads (Some Undecodable) key = Inl UnicodeDecodeError"
| "check_idempotency loads (Some (Ledger_Text t)) key =
     Inr (case loads t of Some (PDict d) \<Rightarrow> map_of d key \<noteq> None | _ \<Rightarrow> False)"
| "check_idempotency loads _ key = Inr False"

definition ledger_text :: "dict \<Rightarrow> str" where
  "ledger_text d = json_dumps True True '', '' '': '' (PDict d)"

text \<open>\<open>writable\<close> says whether the file can be written; the \<open>OSError\<close> is swallowed.\<close>

definition write_ledger :: "bool \<Rightarrow> ledger \<Rightarrow> dict \<Rightarrow> str \<Rightarrow> ledger" where
  "write_ledger writable l d key = (if writable then Ledger_Text (ledger_text (dict_set d key (PBool True))) else l)"

fun record_idempotency :: "(str \<Rightarrow> pyval option) \<Rightarrow> bool \<Rightarrow> ledger option \<Rightarrow> str \<Rightarrow> tool_exc + ledger option" where
  "record_idempotency loads writable None key = Inr None"
| "record_idempotency loads writable (Some Absent) key = Inr (Some (write_ledger writable Absent [] key))"
| "record_idempotency loads writable (Some Unreadable) key = Inr (Some Unreadable)"
| "record_idempotency loads writable (Some Undecodable) key = Inl UnicodeDecodeError"
| "record_idempotency loads writable (Some (Ledger_Text t)) key =
     (case loads t of
        None \<Rightarrow> Inl JSONDecodeError
      | Some (PDict d) \<Rightarrow> Inr (Some (write_ledger writable (Ledger_Text t) d key))
      | Some _ \<Rightarrow> Inr (Some (write_ledger writable (Ledger_Text t) [] key)))"

section \<open>The gate in front of the bridge\<close>

definition trusted_agent_slug :: "dict \<Rightarrow> str \<Rightarrow> str" where
  "trusted_agent_slug kw agent_slug =
     (case dget kw ''_parent_agent_slug'' of
        PStr p \<Rightarrow> if strip p \<noteq> [] then strip p else
          (case dget kw ''_agent_slug'' of PStr a \<Rightarrow> if strip a \<noteq> [] then strip a else strip agent_slug | _ \<Rightarrow> strip agent_slug)
      | _ \<Rightarrow> (case dget kw ''_agent_slug'' of PStr a \<Rightarrow> if strip a \<noteq> [] then strip a else strip agent_slug | _ \<Rightarrow> strip agent_slug))"

text \<open>\<open>[A-Za-z0-9][A-Za-z0-9._:-]{7,127}\<close> on the whole text.\<close>

definition verify_id_wellformed :: "str \<Rightarrow> bool" where
  "verify_id_wellformed s \<longleftrightarrow>
     (case s of
        [] \<Rightarrow> False
      | c # cs \<Rightarrow> alnum c \<and> 7 \<le> length cs \<and> length cs \<le> 127 \<and> list_all (\<lambda>x. alnum x \<or> x \<in> set ''._:-'') cs)"

definition validate_verify_api_run_id :: "pyval \<Rightarrow> bool \<times> str" where
  "validate_verify_api_run_id v =
     (let raw = strip (py_str (py_or v (PStr []))) in
      if raw = [] then (False, ''empty'')
      else if \<not> verify_id_wellformed raw then (False, ''invalid_format'')
      else (True, raw))"

record url_parts =
  up_scheme :: str
  up_netloc :: str
  up_username :: "str option"
  up_password :: "str option"

definition set_text :: "str option \<Rightarrow> bool" where
  "set_text t \<longleftrightarrow> t \<noteq> None \<and> t \<noteq> Some []"

definition allowed_bridge_url :: "(str \<Rightarrow> url_parts option) \<Rightarrow> str \<Rightarrow> tool_exc + bool" where
  "allowed_bridge_url urlparse url =
     (if url = [] then Inr False
      else bindE (optE (Python ValueError) (urlparse url)) (\<lambda>parsed.
        Inr (up_scheme parsed \<in> set [''http'', ''https''] \<and> up_netloc parsed \<noteq> [] \<and>
             \<not> (set_text (up_username parsed) \<or> set_text (up_password parsed)))))"

definition dispatch_allowed_operations :: "dict \<Rightarrow> str list option" where
  "dispatch_allowed_operations kw =
     (case dget kw ''_allowed_xero_operations'' of
        PList raw \<Rightarrow> Some (List.map_filter (\<lambda>v. case v of PStr s \<Rightarrow> if s \<noteq> [] then Some s else None | _ \<Rightarrow> None) raw)
      | _ \<Rightarrow> None)"

record xero_args =
  xa_operation :: str
  xa_payload :: pyval
  xa_entity_key :: pyval
  xa_verify_api_run_id :: pyval
  xa_agent_slug :: str

datatype bridge_answer = Answered int str | Not_Answered str str

record bridge_request =
  br_url :: str
  br_headers :: "(str \<times> str) list"
  br_body :: dict

text \<open>The module's configuration, the scope map's file, and the world of a call.\<close>

record xero_ops =
  xo_bridge_url :: str
  xo_bridge_token :: str
  xo_scope_map :: "pyval option"
  xo_urlparse :: "str \<Rightarrow> url_parts option"
  xo_loads :: "str \<Rightarrow> pyval option"
  xo_bridge :: "bridge_request \<Rightarrow> bridge_answer"
  xo_writable :: bool

datatype gate_stop = Refused dict | Raises tool_exc

definition refused :: "str \<Rightarrow> (str \<times> pyval) list \<Rightarrow> gate_stop" where
  "refused err entries = Refused ([(''ok'', PBool False), (''error'', PStr err)] @ entries)"

text \<open>Everything before the first effect: the slug the operation runs under and the id of its verification.\<close>

definition xero_gate :: "xero_ops \<Rightarrow> xero_args \<Rightarrow> dict \<Rightarrow> ledger option \<Rightarrow> gate_stop + str \<times> str" where
  "xero_gate ops a kw dir =
     (let slug = trusted_agent_slug kw (xa_agent_slug a); op = xa_operation a in
      guardE (slug \<noteq> []) (refused ''agent_slug_required'' [(''reason'', PStr ''runtime agent slug missing'')])
     (guardE (strip (xa_agent_slug a) = [] \<or> strip (xa_agent_slug a) = slug)
        (refused ''agent_slug_mismatch''
           [(''reason'', PStr ''model-supplied agent_slug does not match runtime specialist''), (''trusted_slug'', PStr slug)])
     (case validate_verify_api_run_id (xa_verify_api_run_id a) of (ok_id, verify_id) \<Rightarrow>
      guardE ok_id (refused ''verify_api_required'' [(''reason'', PStr (''verify_api_run_id '' @ verify_id))])
     (bindE (raisingE Raises (check_idempotency (xo_loads ops) dir (idempotency_key verify_id op slug))) (\<lambda>dup.
      guardE (\<not> dup)
        (refused ''duplicate_verify_api_run''
           [(''reason'', PStr ''this verify_api_run_id already executed for this operation in this job''), (''operation'', PStr op)])
     (guardE (case dispatch_allowed_operations kw of None \<Rightarrow> True | Some l \<Rightarrow> op \<in> set l)
        (refused ''dispatch_scope_denied''
           [(''reason'', PStr ''operation not in Cato-injected allowed_xero_operations''), (''operation'', PStr op)])
     (bindE (raisingE (Raises \<circ> Python) (operation_allowed (xo_scope_map ops) slug op)) (\<lambda>(allowed, reason).
      guardE allowed (refused ''scope_forbidden'' [(''reason'', PStr reason), (''operation'', PStr op)])
        (Inr (slug, verify_id))))))))))"

section \<open>The invocation\<close>

definition execution_realm :: "dict \<Rightarrow> pyval" where
  "execution_realm kw = py_or (py_or (dget kw ''_execution_realm'') (dget kw ''execution_realm'')) (PStr ''demo_mcp'')"

definition dry_run_result :: "xero_args \<Rightarrow> dict \<Rightarrow> str \<Rightarrow> str \<Rightarrow> dict" where
  "dry_run_result a kw slug verify_id =
     [(''ok'', PBool True), (''dry_run'', PBool True), (''simulated'', PBool True), (''operation'', PStr (xa_operation a)),
      (''entity_key'', xa_entity_key a), (''executor'', PStr slug), (''execution_realm'', execution_realm kw),
      (''verify_api_run_id'', PStr verify_id),
      (''receipt'', PDict [(''xero_resource_id'', PStr (''dry-run:'' @ xa_operation a @ '':'' @ take 8 verify_id)),
                           (''read_back_pending'', PBool True), (''simulated'', PBool True)])]"

definition bridge_request_of :: "xero_ops \<Rightarrow> xero_args \<Rightarrow> dict \<Rightarrow> str \<Rightarrow> str \<Rightarrow> bridge_request" where
  "bridge_request_of ops a kw slug verify_id =
     \<lparr>br_url = xo_bridge_url ops,
      br_headers = [(''Content-Type'', ''application/json'')] @
        (if xo_bridge_token ops \<noteq> [] then [(''Authorization'', ''Bearer '' @ xo_bridge_token ops)] else []),
      br_body = [(''operation'', PStr (xa_operation a)), (''entity_key'', xa_entity_key a), (''payload'', py_or (xa_payload a) (PDict [])),
                 (''agent_slug'', PStr slug), (''verify_api_run_id'', PStr verify_id), (''execution_realm'', execution_realm kw),
                 (''scope_map_version'', dget kw ''_scope_map_version'')]\<rparr>"

definition bridge_data :: "(str \<Rightarrow> pyval option) \<Rightarrow> str \<Rightarrow> pyval" where
  "bridge_data loads body =
     (if body = [] then PDict [] else case loads body of Some v \<Rightarrow> v | None \<Rightarrow> PDict [(''raw'', PStr body)])"

definition posted_result :: "xero_args \<Rightarrow> dict \<Rightarrow> str \<Rightarrow> str \<Rightarrow> pyval \<Rightarrow> dict" where
  "posted_result a kw slug verify_id data =
     [(''ok'', PBool True), (''dry_run'', PBool False), (''operation'', PStr (xa_operation a)), (''executor'', PStr slug),
      (''execution_realm'', execution_realm kw), (''verify_api_run_id'', PStr verify_id), (''bridge_response'', data)]"

type_synonym xero_outcome = "(tool_exc + dict) \<times> bridge_request list \<times> ledger option"

definition xero_recorded :: "xero_ops \<Rightarrow> str \<Rightarrow> dict \<Rightarrow> bridge_request list \<Rightarrow> ledger option \<Rightarrow> xero_outcome" where
  "xero_recorded ops key result posts dir =
     (case record_idempotency (xo_loads ops) (xo_writable ops) dir key of
        Inl e \<Rightarrow> (Inl e, posts, dir)
      | Inr dir' \<Rightarrow> (Inr result, posts, dir'))"

definition xero_post :: "xero_ops \<Rightarrow> xero_args \<Rightarrow> dict \<Rightarrow> str \<Rightarrow> str \<Rightarrow> ledger option \<Rightarrow> xero_outcome" where
  "xero_post ops a kw slug verify_id dir =
     (let rq = bridge_request_of ops a kw slug verify_id in
      case xo_bridge ops rq of
        Not_Answered cls msg \<Rightarrow> (Inl (Transport cls msg), [rq], dir)
      | Answered status body \<Rightarrow>
          let data = bridge_data (xo_loads ops) body in
          if 400 \<le> status then
            (Inr [(''ok'', PBool False), (''error'', PStr ''xero_bridge_error''), (''status'', PInt status), (''body'', data)], [rq], dir)
          else xero_recorded ops (idempotency_key verify_id (xa_operation a) slug) (posted_result a kw slug verify_id data) [rq] dir)"

definition xero_scoped_invoke :: "xero_ops \<Rightarrow> xero_args \<Rightarrow> dict \<Rightarrow> ledger option \<Rightarrow> xero_outcome" where
  "xero_scoped_invoke ops a kw dir =
     (case xero_gate ops a kw dir of
        Inl (Refused d) \<Rightarrow> (Inr d, [], dir)
      | Inl (Raises e) \<Rightarrow> (Inl e, [], dir)
      | Inr (slug, verify_id) \<Rightarrow>
          if xo_bridge_url ops = [] then
            xero_recorded ops (idempotency_key verify_id (xa_operation a) slug) (dry_run_result a kw slug verify_id) [] dir
          else
            (case allowed_bridge_url (xo_urlparse ops) (xo_bridge_url ops) of
               Inl e \<Rightarrow> (Inl e, [], dir)
             | Inr False \<Rightarrow>
                 (Inr [(''ok'', PBool False), (''error'', PStr ''xero_bridge_url_invalid''),
                       (''reason'', PStr ''XERO_MCP_BRIDGE_URL must be http(s) with no embedded credentials'')], [], dir)
             | Inr True \<Rightarrow> xero_post ops a kw slug verify_id dir))"

text \<open>\<open>await tool(**args, **ctx)\<close> in the loop: a keyword given by the model and by the runtime is a \<open>TypeError\<close>. \<open>extra\<close> are the model's
  arguments beside the ones of the signature.\<close>

definition CONTEXT_KEYS :: "str list" where
  "CONTEXT_KEYS =
     [''_bridge'', ''_job_dir'', ''_runtime'', ''_parent_job_id'', ''_session_id'', ''_parent_agent_slug'', ''_agent_slug'',
      ''_allowed_xero_operations'', ''_scope_map_version'', ''_execution_realm'', ''_delegation_chain'', ''_delegation_depth'',
      ''_remaining_token_budget'', ''_remaining_cost_budget_cents'']"

definition context_kwargs :: "tool_ctx \<Rightarrow> dict" where
  "context_kwargs cx =
     [(''_parent_agent_slug'', PStr (cx_agent_slug cx)), (''_agent_slug'', PStr (cx_agent_slug cx)),
      (''_allowed_xero_operations'', cx_allowed_xero_operations cx), (''_scope_map_version'', cx_scope_map_version cx),
      (''_execution_realm'', cx_execution_realm cx)]"

definition run_xero_tool :: "xero_ops \<Rightarrow> tool_ctx \<Rightarrow> xero_args \<Rightarrow> dict \<Rightarrow> ledger option \<Rightarrow> xero_outcome" where
  "run_xero_tool ops cx a extra dir =
     (if list_ex (\<lambda>k. map_of extra k \<noteq> None) CONTEXT_KEYS then (Inl (Python TypeError), [], dir)
      else xero_scoped_invoke ops a (extra @ context_kwargs cx) dir)"

section \<open>Nothing reaches the bridge but what the gate lets through\<close>

lemma xero_gate_Inr:
  "xero_gate ops a kw dir = Inr (slug, verify_id) \<longleftrightarrow>
     slug = trusted_agent_slug kw (xa_agent_slug a) \<and> slug \<noteq> [] \<and> (strip (xa_agent_slug a) = [] \<or> strip (xa_agent_slug a) = slug) \<and>
     validate_verify_api_run_id (xa_verify_api_run_id a) = (True, verify_id) \<and>
     check_idempotency (xo_loads ops) dir (idempotency_key verify_id (xa_operation a) slug) = Inr False \<and>
     (case dispatch_allowed_operations kw of None \<Rightarrow> True | Some l \<Rightarrow> xa_operation a \<in> set l) \<and>
     (\<exists>reason. operation_allowed (xo_scope_map ops) slug (xa_operation a) = Inr (True, reason))"
  by (auto simp: xero_gate_def Let_def guardE_Inr bindE_Inr raisingE_Inr split: prod.splits)

lemma validate_Inr: "validate_verify_api_run_id v = (True, i) \<Longrightarrow> verify_id_wellformed i"
  by (auto simp: validate_verify_api_run_id_def Let_def split: if_splits)

lemma xero_recorded_posts: "fst (snd (xero_recorded ops key result posts dir)) = posts"
  by (simp add: xero_recorded_def split: sum.split)

lemma xero_post_posts: "fst (snd (xero_post ops a kw slug verify_id dir)) = [bridge_request_of ops a kw slug verify_id]"
  by (simp add: xero_post_def Let_def xero_recorded_posts split: bridge_answer.split)

lemma invoke_posts:
  assumes "xero_scoped_invoke ops a kw dir = (r, posts, dir')" and "posts \<noteq> []"
  obtains slug verify_id where "xero_gate ops a kw dir = Inr (slug, verify_id)"
    and "allowed_bridge_url (xo_urlparse ops) (xo_bridge_url ops) = Inr True"
    and "posts = [bridge_request_of ops a kw slug verify_id]"
    and "xero_post ops a kw slug verify_id dir = (r, posts, dir')"
proof -
  have posts: "posts = fst (snd (xero_scoped_invoke ops a kw dir))" by (simp add: assms(1))
  show thesis
  proof (cases "xero_gate ops a kw dir")
    case (Inl st)
    with assms(2) posts show thesis by (cases st) (simp_all add: xero_scoped_invoke_def)
  next
    case (Inr sv)
    obtain slug verify_id where sv: "sv = (slug, verify_id)" by (cases sv)
    have "xo_bridge_url ops \<noteq> []" using assms(2) posts Inr sv by (auto simp: xero_scoped_invoke_def xero_recorded_posts)
    moreover from this have "allowed_bridge_url (xo_urlparse ops) (xo_bridge_url ops) = Inr True"
      using assms(2) posts Inr sv by (auto simp: xero_scoped_invoke_def split: sum.splits bool.splits)
    moreover from this calculation have "xero_post ops a kw slug verify_id dir = (r, posts, dir')"
      using assms(1) Inr sv by (simp add: xero_scoped_invoke_def)
    moreover from this have "posts = [bridge_request_of ops a kw slug verify_id]"
      using xero_post_posts [of ops a kw slug verify_id dir] by simp
    ultimately show thesis using that Inr sv by blast
  qed
qed

lemma runtime_slug: "strip (cx_agent_slug cx) \<noteq> [] \<Longrightarrow> \<forall>k\<in>set CONTEXT_KEYS. map_of extra k = None \<Longrightarrow>
    trusted_agent_slug (extra @ context_kwargs cx) s = strip (cx_agent_slug cx)"
  by (simp add: trusted_agent_slug_def dget_def context_kwargs_def CONTEXT_KEYS_def map_add_def)

lemma runtime_allowlist: "\<forall>k\<in>set CONTEXT_KEYS. map_of extra k = None \<Longrightarrow>
    dispatch_allowed_operations (extra @ context_kwargs cx) =
      (case cx_allowed_xero_operations cx of
         PList raw \<Rightarrow> Some (List.map_filter (\<lambda>v. case v of PStr s \<Rightarrow> if s \<noteq> [] then Some s else None | _ \<Rightarrow> None) raw)
       | _ \<Rightarrow> None)"
  by (simp add: dispatch_allowed_operations_def dget_def context_kwargs_def CONTEXT_KEYS_def map_add_def)

lemma run_tool_invokes:
  assumes "run_xero_tool ops cx a extra dir = (r, posts, dir')" and "posts \<noteq> []"
  shows "\<forall>k\<in>set CONTEXT_KEYS. map_of extra k = None" and "xero_scoped_invoke ops a (extra @ context_kwargs cx) dir = (r, posts, dir')"
  using assms by (auto simp: run_xero_tool_def list_ex_iff split: if_splits)

text \<open>C7. What the agent loop sends to the Xero bridge, whatever arguments the model chose: at most one request, to the configured
  address and never one with credentials in it, under the slug of the running agent, for the operation the model named, which the scope map
  allows to this agent, and, where it writes one of the documents that have owners, the agent is an owner whose writes are not forbidden.
  It is on the list of operations of the job, where there is a list, and was not recorded as executed under this id before.\<close>

theorem xero_post_authorized:
  assumes "run_xero_tool ops cx a extra dir = (r, posts, dir')" and "rq \<in> set posts" and "strip (cx_agent_slug cx) \<noteq> []"
  shows "posts = [rq] \<and> br_url rq = xo_bridge_url ops \<and>
    (\<exists>parsed. xo_urlparse ops (br_url rq) = Some parsed \<and> \<not> set_text (up_username parsed) \<and> \<not> set_text (up_password parsed)) \<and>
    dget (br_body rq) ''agent_slug'' = PStr (strip (cx_agent_slug cx)) \<and> dget (br_body rq) ''operation'' = PStr (xa_operation a) \<and>
    (\<exists>reason. operation_allowed (xo_scope_map ops) (strip (cx_agent_slug cx)) (xa_operation a) = Inr (True, reason)) \<and>
    (\<forall>owners. map_of OPERATION_PRIMARY_AGENTS (xa_operation a) = Some owners \<longrightarrow>
       strip (cx_agent_slug cx) \<in> set owners \<and> writes_forbidden (xo_scope_map ops) (strip (cx_agent_slug cx)) = Inr False) \<and>
    (\<forall>l. cx_allowed_xero_operations cx = PList l \<longrightarrow> PStr (xa_operation a) \<in> set l) \<and>
    (\<exists>i. dget (br_body rq) ''verify_api_run_id'' = PStr i \<and> verify_id_wellformed i \<and>
       check_idempotency (xo_loads ops) dir (idempotency_key i (xa_operation a) (strip (cx_agent_slug cx))) = Inr False)"
proof -
  let ?slug = "strip (cx_agent_slug cx)" and ?kw = "extra @ context_kwargs cx"
  have "posts \<noteq> []" using assms(2) by auto
  note free = run_tool_invokes(1) [OF assms(1) this] and invoked = run_tool_invokes(2) [OF assms(1) this]
  from invoke_posts [OF invoked \<open>posts \<noteq> []\<close>] obtain slug i where gate: "xero_gate ops a ?kw dir = Inr (slug, i)"
    and url: "allowed_bridge_url (xo_urlparse ops) (xo_bridge_url ops) = Inr True" and posts: "posts = [bridge_request_of ops a ?kw slug i]"
    by blast
  have slug: "slug = ?slug" using gate runtime_slug [OF assms(3) free] by (simp add: xero_gate_Inr)
  have rq: "rq = bridge_request_of ops a ?kw ?slug i" "posts = [rq]" using posts assms(2) slug by auto
  have allowed: "\<exists>reason. operation_allowed (xo_scope_map ops) ?slug (xa_operation a) = Inr (True, reason)"
    using gate unfolding slug xero_gate_Inr by blast
  then have owned: "?slug \<in> set owners \<and> writes_forbidden (xo_scope_map ops) ?slug = Inr False"
    if "map_of OPERATION_PRIMARY_AGENTS (xa_operation a) = Some owners" for owners
    using xero_write_owned [OF that] by blast
  have listed: "PStr (xa_operation a) \<in> set l" if "cx_allowed_xero_operations cx = PList l" for l
    using gate that free by (auto simp: xero_gate_Inr runtime_allowlist map_filter_def split: pyval.splits if_splits)
  have parsed: "\<exists>parsed. xo_urlparse ops (br_url rq) = Some parsed \<and> \<not> set_text (up_username parsed) \<and> \<not> set_text (up_password parsed)"
    using url by (auto simp: rq(1) bridge_request_of_def allowed_bridge_url_def bindE_Inr optE_Inr split: if_splits)
  have id: "verify_id_wellformed i" "check_idempotency (xo_loads ops) dir (idempotency_key i (xa_operation a) ?slug) = Inr False"
    using gate slug by (auto simp: xero_gate_Inr dest: validate_Inr)
  have body: "br_url rq = xo_bridge_url ops" "dget (br_body rq) ''agent_slug'' = PStr ?slug"
    "dget (br_body rq) ''operation'' = PStr (xa_operation a)" "dget (br_body rq) ''verify_api_run_id'' = PStr i"
    by (simp_all add: rq(1) bridge_request_of_def dget_def)
  show ?thesis using rq(2) body parsed allowed owned listed id by blast
qed

definition sample_ops :: xero_ops where
  "sample_ops = \<lparr>xo_bridge_url = ''http://b'', xo_bridge_token = ''t'', xo_scope_map = Some sample_scope_map,
     xo_urlparse = (\<lambda>_. Some \<lparr>up_scheme = ''http'', up_netloc = ''b'', up_username = None, up_password = None\<rparr>),
     xo_loads = (\<lambda>t. Some (PDict (if t = ''{}'' then [] else [(''genesis-e4l-ap:create_draft_bill:verify-test-001'', PBool True)]))),
     xo_bridge = (\<lambda>_. Answered 200 ''''), xo_writable = True\<rparr>"

definition sample_cx :: tool_ctx where
  "sample_cx = \<lparr>cx_parent_job_id = ''j'', cx_session_id = ''s'', cx_agent_slug = ''genesis-e4l-ap'',
     cx_allowed_xero_operations = PList [PStr ''create_draft_bill''], cx_scope_map_version = PNone, cx_execution_realm = PNone,
     cx_delegation_chain = [], cx_delegation_depth = 0, cx_remaining_token_budget = 0, cx_remaining_cost_budget_cents = 0\<rparr>"

definition sample_bill :: xero_args where
  "sample_bill = \<lparr>xa_operation = ''create_draft_bill'', xa_payload = PNone, xa_entity_key = PStr ''ibe'',
     xa_verify_api_run_id = PStr ''verify-test-001'', xa_agent_slug = []\<rparr>"

lemma sample_bill_posts:
  "run_xero_tool sample_ops sample_cx sample_bill [] (Some Absent) =
     (let rq = bridge_request_of sample_ops sample_bill (context_kwargs sample_cx) ''genesis-e4l-ap'' ''verify-test-001'' in
      (Inr (posted_result sample_bill (context_kwargs sample_cx) ''genesis-e4l-ap'' ''verify-test-001'' (PDict [])), [rq],
       Some (Ledger_Text (ledger_text [(''genesis-e4l-ap:create_draft_bill:verify-test-001'', PBool True)]))))"
  by (code_simp)

theorem xero_post_authorized_witness:
  "(let rq = bridge_request_of sample_ops sample_bill (context_kwargs sample_cx) ''genesis-e4l-ap'' ''verify-test-001'' in
    br_url rq = ''http://b'' \<and> dget (br_body rq) ''operation'' = PStr ''create_draft_bill'') \<and>
   writes_forbidden (Some sample_scope_map) ''genesis-e4l-ap'' = Inr False"
proof -
  have slug: "strip (cx_agent_slug sample_cx) = ''genesis-e4l-ap''" by code_simp
  have owners: "map_of OPERATION_PRIMARY_AGENTS (xa_operation sample_bill) = Some [''genesis-e4l-ap'']" by code_simp
  show ?thesis
    using xero_post_authorized [OF sample_bill_posts [unfolded Let_def], of "bridge_request_of _ _ _ _ _"] slug owners
    by (simp add: sample_ops_def sample_bill_def)
qed

section \<open>An operation is executed once under an id\<close>

text \<open>The ledger in the directory of a job is a JSON object with the key.\<close>

fun records :: "(str \<Rightarrow> pyval option) \<Rightarrow> str \<Rightarrow> ledger option \<Rightarrow> bool" where
  "records loads key (Some (Ledger_Text t)) = (case loads t of Some (PDict d) \<Rightarrow> map_of d key \<noteq> None | _ \<Rightarrow> False)"
| "records loads key _ = False"

text \<open>\<open>json.loads\<close> of what \<open>json.dumps\<close> prints has the keys that were printed, for an object that was read, or an empty one, with a key of
  \<open>K\<close> added.\<close>

definition reads_back :: "(str \<Rightarrow> pyval option) \<Rightarrow> str set \<Rightarrow> bool" where
  "reads_back loads K \<longleftrightarrow>
     (\<forall>k\<in>K. \<forall>d. d = [] \<or> (\<exists>t. loads t = Some (PDict d)) \<longrightarrow>
       (\<exists>d'. loads (ledger_text (dict_set d k (PBool True))) = Some (PDict d') \<and> fst ` set d' = insert k (fst ` set d)))"

lemma records_checked: "records loads key dir \<Longrightarrow> check_idempotency loads dir key = Inr True"
  by (induction loads key dir rule: records.induct) (auto split: option.splits pyval.splits)

lemma record_keeps:
  assumes "records loads key dir" and "reads_back loads K" and "k \<in> K"
    and "record_idempotency loads writable dir k = Inr dir'"
  shows "records loads key dir'"
proof -
  obtain t d where t: "dir = Some (Ledger_Text t)" "loads t = Some (PDict d)" "key \<in> fst ` set d"
    using assms(1) by (induction loads key dir rule: records.induct) (auto simp: map_of_eq_None_iff split: option.splits pyval.splits)
  then obtain d' where "loads (ledger_text (dict_set d k (PBool True))) = Some (PDict d')" "fst ` set d' = insert k (fst ` set d)"
    using assms(2,3) t(2) unfolding reads_back_def by blast
  moreover have "dir' = Some (if writable then Ledger_Text (ledger_text (dict_set d k (PBool True))) else Ledger_Text t)"
    using t assms(4) by (auto simp: write_ledger_def)
  ultimately show ?thesis using t by (simp add: map_of_eq_None_iff)
qed

lemma record_adds:
  assumes "reads_back loads K" and "key \<in> K" and "l \<noteq> Unreadable" and "record_idempotency loads True (Some l) key = Inr dir'"
  shows "records loads key dir'"
proof -
  have written: "records loads key (Some (Ledger_Text (ledger_text (dict_set d key (PBool True)))))"
    if "d = [] \<or> (\<exists>t. loads t = Some (PDict d))" for d
  proof -
    obtain d' where "loads (ledger_text (dict_set d key (PBool True))) = Some (PDict d')" "fst ` set d' = insert key (fst ` set d)"
      using assms(1,2) \<open>d = [] \<or> _\<close> unfolding reads_back_def by blast
    then show ?thesis by (simp add: map_of_eq_None_iff)
  qed
  obtain d where "d = [] \<or> (\<exists>t. loads t = Some (PDict d))"
    and "dir' = Some (Ledger_Text (ledger_text (dict_set d key (PBool True))))"
    using assms(3,4) that [of "[]"] that by (cases l) (auto simp: write_ledger_def split: option.splits pyval.splits)
  then show ?thesis using written by blast
qed

text \<open>What happens in the directory of a job, one after the other: a call of the tool, with the configuration, the bridge and the file system
  it meets, or another tool leaving something else in the place of the ledger.\<close>

datatype ledger_event = Xero_Call xero_ops xero_args dict | Ledger_Set ledger

fun run_ledger_events ::
  "(str \<Rightarrow> pyval option) \<Rightarrow> tool_ctx \<Rightarrow> ledger_event list \<Rightarrow> ledger option \<Rightarrow> (xero_args \<times> (tool_exc + dict) \<times> bridge_request list) list" where
  "run_ledger_events loads cx [] dir = []"
| "run_ledger_events loads cx (Xero_Call ops a extra # events) dir =
     (case run_xero_tool (ops\<lparr>xo_loads := loads\<rparr>) cx a extra dir of
        (r, posts, dir') \<Rightarrow> (a, r, posts) # run_ledger_events loads cx events dir')"
| "run_ledger_events loads cx (Ledger_Set l # events) dir = run_ledger_events loads cx events (Some l)"

definition call_key :: "tool_ctx \<Rightarrow> xero_args \<Rightarrow> str" where
  "call_key cx a = idempotency_key (snd (validate_verify_api_run_id (xa_verify_api_run_id a))) (xa_operation a) (strip (cx_agent_slug cx))"

definition executed :: "tool_exc + dict \<Rightarrow> bool" where
  "executed r \<longleftrightarrow> (case r of Inr d \<Rightarrow> dget d ''ok'' = PBool True | Inl _ \<Rightarrow> False)"

lemma refusal_not_executed: "xero_gate ops a kw dir = Inl (Refused d) \<Longrightarrow> dget d ''ok'' = PBool False"
  by (auto simp: xero_gate_def Let_def guardE_Inl bindE_Inl guardE_Inr bindE_Inr raisingE_def refused_def dget_def split: prod.splits sum.splits)

lemma invoke_executed:
  assumes "xero_scoped_invoke ops a kw dir = (r, posts, dir')" and "\<not> executed r"
  shows "dir' = dir"
  using assms
  by (auto simp: xero_scoped_invoke_def xero_post_def xero_recorded_def executed_def dry_run_result_def posted_result_def dget_def Let_def
      split: sum.splits gate_stop.splits prod.splits if_splits bool.splits bridge_answer.splits)

lemma invoke_gate:
  assumes "xero_scoped_invoke ops a kw dir = (r, posts, dir')" and "executed r"
  obtains slug verify_id where "xero_gate ops a kw dir = Inr (slug, verify_id)"
    and "record_idempotency (xo_loads ops) (xo_writable ops) dir (idempotency_key verify_id (xa_operation a) slug) = Inr dir'"
proof (cases "xero_gate ops a kw dir")
  case (Inl st)
  with assms show thesis
    by (cases st) (auto simp: xero_scoped_invoke_def executed_def dest: refusal_not_executed)
next
  case (Inr sv)
  then show thesis using assms that
    by (cases sv) (auto simp: xero_scoped_invoke_def xero_post_def xero_recorded_def executed_def dget_def Let_def
        split: sum.splits if_splits bool.splits bridge_answer.splits)
qed

lemma gate_key:
  assumes "\<forall>k\<in>set CONTEXT_KEYS. map_of extra k = None" and "strip (cx_agent_slug cx) \<noteq> []"
    and "xero_gate ops a (extra @ context_kwargs cx) dir = Inr (slug, i)"
  shows "idempotency_key i (xa_operation a) slug = call_key cx a"
    and "check_idempotency (xo_loads ops) dir (call_key cx a) = Inr False"
  using assms(3) runtime_slug [OF assms(2,1)] by (auto simp: xero_gate_Inr call_key_def)

text \<open>One call: the ledger keeps what it has and stops a call with its key; a call that executes and can record adds its key.\<close>

lemma run_xero_tool_step:
  assumes run: "run_xero_tool ops cx a extra dir = (r, posts, dir')" and slug: "strip (cx_agent_slug cx) \<noteq> []"
    and loads: "reads_back (xo_loads ops) K" and key: "call_key cx a \<in> K"
  shows "records (xo_loads ops) (call_key cx a) dir \<Longrightarrow> posts = [] \<and> \<not> executed r"
    and "records (xo_loads ops) k dir \<Longrightarrow> records (xo_loads ops) k dir'"
    and "executed r \<Longrightarrow> xo_writable ops \<Longrightarrow> dir = Some l \<Longrightarrow> l \<noteq> Unreadable \<Longrightarrow> records (xo_loads ops) (call_key cx a) dir'"
proof -
  let ?kw = "extra @ context_kwargs cx" and ?key = "call_key cx a"
  have "(records (xo_loads ops) ?key dir \<longrightarrow> posts = [] \<and> \<not> executed r) \<and>
      (if executed r then record_idempotency (xo_loads ops) (xo_writable ops) dir ?key = Inr dir' else dir' = dir)"
  proof (cases "\<forall>k\<in>set CONTEXT_KEYS. map_of extra k = None")
    case False
    then have "r = Inl (Python TypeError)" "posts = []" "dir' = dir" using run by (auto simp: run_xero_tool_def list_ex_iff)
    then show ?thesis by (simp add: executed_def)
  next
    case True
    then have "\<not> list_ex (\<lambda>k. map_of extra k \<noteq> None) CONTEXT_KEYS" by (auto simp: list_ex_iff)
    with run have invoked: "xero_scoped_invoke ops a ?kw dir = (r, posts, dir')" by (simp add: run_xero_tool_def)
    have posted: "\<not> records (xo_loads ops) ?key dir" if "posts \<noteq> []"
      using invoke_posts [OF invoked that] gate_key(2) [OF True slug] records_checked [of "xo_loads ops" ?key dir] by (metis Inr_inject)
    show ?thesis
    proof (cases "executed r")
      case False
      with invoke_executed [OF invoked] posted show ?thesis by auto
    next
      case ex: True
      obtain slug' i where gate: "xero_gate ops a ?kw dir = Inr (slug', i)"
        and rec: "record_idempotency (xo_loads ops) (xo_writable ops) dir (idempotency_key i (xa_operation a) slug') = Inr dir'"
        by (rule invoke_gate [OF invoked ex])
      have "\<not> records (xo_loads ops) ?key dir"
        using gate_key(2) [OF True slug gate] records_checked [of "xo_loads ops" ?key dir] by auto
      with rec gate_key(1) [OF True slug gate] ex show ?thesis by simp
    qed
  qed
  then show "records (xo_loads ops) ?key dir \<Longrightarrow> posts = [] \<and> \<not> executed r"
    and "records (xo_loads ops) k dir \<Longrightarrow> records (xo_loads ops) k dir'"
    and "executed r \<Longrightarrow> xo_writable ops \<Longrightarrow> dir = Some l \<Longrightarrow> l \<noteq> Unreadable \<Longrightarrow> records (xo_loads ops) ?key dir'"
    using record_keeps [OF _ loads key] record_adds [OF loads key] by (auto split: if_splits)
qed

lemma recorded_key_refused:
  assumes "strip (cx_agent_slug cx) \<noteq> []" and "reads_back loads K" and "\<forall>ops a extra. Xero_Call ops a extra \<in> set events \<longrightarrow> call_key cx a \<in> K"
    and "\<forall>l. Ledger_Set l \<in> set events \<longrightarrow> records loads key (Some l)" and "records loads key dir"
  shows "\<forall>(a, r, posts)\<in>set (run_ledger_events loads cx events dir). call_key cx a = key \<longrightarrow> posts = [] \<and> \<not> executed r"
  using assms(3-5)
proof (induction events arbitrary: dir)
  case (Cons e events)
  show ?case
  proof (cases e)
    case (Xero_Call ops a extra)
    obtain r posts dir' where run: "run_xero_tool (ops\<lparr>xo_loads := loads\<rparr>) cx a extra dir = (r, posts, dir')"
      by (cases "run_xero_tool (ops\<lparr>xo_loads := loads\<rparr>) cx a extra dir")
    have key: "call_key cx a \<in> K" using Cons.prems(1) Xero_Call by auto
    note step = run_xero_tool_step [OF run assms(1) _ key]
    have kept: "records loads key dir'" using step(2) [of key] assms(2) Cons.prems(3) by simp
    have "call_key cx a = key \<Longrightarrow> posts = [] \<and> \<not> executed r" using step(1) assms(2) Cons.prems(3) by simp
    moreover have "\<forall>(a, r, posts)\<in>set (run_ledger_events loads cx events dir'). call_key cx a = key \<longrightarrow> posts = [] \<and> \<not> executed r"
      using Cons.prems(1,2) kept by (intro Cons.IH) auto
    ultimately show ?thesis by (simp add: Xero_Call run)
  next
    case (Ledger_Set l)
    then show ?thesis using Cons.IH [of "Some l"] Cons.prems by auto
  qed
qed simp


lemma sample_reads_back: "reads_back (xo_loads sample_ops) {''genesis-e4l-ap:create_draft_bill:verify-test-001''}"
proof -
  have "ledger_text [(''genesis-e4l-ap:create_draft_bill:verify-test-001'', PBool True)] \<noteq> ''{}''" by code_simp
  then show ?thesis by (auto simp: reads_back_def sample_ops_def split: if_splits)
qed

definition sample_text :: str where
  "sample_text = ledger_text [(''genesis-e4l-ap:create_draft_bill:verify-test-001'', PBool True)]"


section \<open>What the tool does not ask for\<close>

text \<open>The id of the verification is looked at for its form only: whatever passes with one id passes with every other well-formed text that the
  ledger does not hold, without a verification having run.\<close>

lemma verify_id_unchecked:
  assumes "xero_gate ops a kw dir = Inr (slug, i)" and "validate_verify_api_run_id v = (True, i')"
    and "check_idempotency (xo_loads ops) dir (idempotency_key i' (xa_operation a) slug) = Inr False"
  shows "xero_gate ops (a\<lparr>xa_verify_api_run_id := v\<rparr>) kw dir = Inr (slug, i')"
  using assms by (auto simp: xero_gate_Inr split: option.splits)

text \<open>When the submission names no realm, the model chooses it.\<close>

lemma realm_by_model:
  assumes "cx_execution_realm cx = PNone" and "\<forall>k\<in>set CONTEXT_KEYS. map_of extra k = None" and "map_of extra ''execution_realm'' = Some (PStr realm)"
    and "realm \<noteq> []"
  shows "execution_realm (extra @ context_kwargs cx) = PStr realm"
  using assms by (simp add: execution_realm_def dget_def context_kwargs_def CONTEXT_KEYS_def map_add_def py_or_def)

text \<open>A list of operations that is not an array restricts nothing.\<close>

lemma allowlist_not_an_array:
  "\<forall>k\<in>set CONTEXT_KEYS. map_of extra k = None \<Longrightarrow> cx_allowed_xero_operations cx = PStr s \<Longrightarrow>
   dispatch_allowed_operations (extra @ context_kwargs cx) = None"
  by (simp add: runtime_allowlist)

text \<open>The ledger lies where the agent's own \<open>file_write\<close> writes: with it the agent empties the ledger, and a bill that was posted is posted
  again under the same id.\<close>

lemma ledger_written_by_agent:
  assumes "h_resolve h (path_join d IDEMPOTENCY_FILE) = Inr (path_join d IDEMPOTENCY_FILE)" and "h_resolve h d = Inr d"
    and "startswith (path_join d IDEMPOTENCY_FILE) d" and "h_write h (path_join d IDEMPOTENCY_FILE) = None"
    and "h_mkdir h (parent_dir (path_join d IDEMPOTENCY_FILE)) = None"
  shows "\<exists>result. file_write h IDEMPOTENCY_FILE ''{}'' (Some d) = 
      bindR (did [Made_Dir (parent_dir (path_join d IDEMPOTENCY_FILE)), Wrote_File (path_join d IDEMPOTENCY_FILE) ''{}'']) (\<lambda>_. ret result)"
    and "fst (snd (run_xero_tool sample_ops sample_cx sample_bill [] (Some (Ledger_Text ''{}'')))) =
         fst (snd (run_xero_tool sample_ops sample_cx sample_bill [] (Some Absent)))"
  subgoal using assms by (auto simp: file_write_def bindR_def lift_exc_def ret_def fun_eq_iff mkdir_def did_def done_to_def)
  subgoal by code_simp
  done

text \<open>After a post that the bridge accepted, a ledger that is not JSON makes the call raise, and the ledger keeps nothing of it.\<close>

lemma post_not_recorded:
  "run_xero_tool (sample_ops\<lparr>xo_loads := \<lambda>_. None\<rparr>) sample_cx sample_bill [] (Some (Ledger_Text ''x'')) =
     (Inl JSONDecodeError, [bridge_request_of sample_ops sample_bill (context_kwargs sample_cx) ''genesis-e4l-ap'' ''verify-test-001''],
      Some (Ledger_Text ''x''))"
  by code_simp

section \<open>The proofs of FinanceOS\<close>

text \<open>A request with its answer: a status and the text of the body, an \<open>aiohttp.ClientError\<close>, or another exception.\<close>

datatype service_answer = Service_Answered int str | Client_Error str | Service_Raised str str

record service_request =
  sr_method :: str
  sr_url :: str
  sr_headers :: "(str \<times> str) list"
  sr_body :: "dict option"

record proofs_ops =
  po_env :: env
  po_urlparse :: "str \<Rightarrow> url_parts option"
  po_loads :: "str \<Rightarrow> pyval option"
  po_service :: "service_request \<Rightarrow> service_answer"

type_synonym proofs_outcome = "(tool_exc + dict) \<times> service_request list"

definition rstrip_slashes :: "str \<Rightarrow> str" where
  "rstrip_slashes s = rev (dropWhile (\<lambda>c. c = CHR ''/'') (rev s))"

definition proofs_base_url :: "proofs_ops \<Rightarrow> str" where
  "proofs_base_url ops = rstrip_slashes (strip (opt_header (po_env ops ''FINANCEOS_API_BASE_URL'')))"

definition service_token :: "proofs_ops \<Rightarrow> str" where
  "service_token ops = strip (opt_header (po_env ops ''INTERNAL_PROOFS_SERVICE_TOKEN''))"

definition allowed_base_url :: "proofs_ops \<Rightarrow> str \<Rightarrow> tool_exc + bool" where
  "allowed_base_url ops url =
     bindE (optE (Python ValueError) (po_urlparse ops url)) (\<lambda>parsed.
     Inr (up_scheme parsed \<in> set [''http'', ''https''] \<and> up_netloc parsed \<noteq> []))"

definition financeos_proofs_configured :: "proofs_ops \<Rightarrow> tool_exc + bool" where
  "financeos_proofs_configured ops =
     (if proofs_base_url ops \<noteq> [] \<and> 32 \<le> length (service_token ops) then allowed_base_url ops (proofs_base_url ops) else Inr False)"

definition proofs_headers :: "proofs_ops \<Rightarrow> (str \<times> str) list" where
  "proofs_headers ops =
     [(''Authorization'', ''Bearer '' @ service_token ops), (''Content-Type'', ''application/json''), (''Accept'', ''application/json'')]"

definition read_json_body :: "proofs_ops \<Rightarrow> str \<Rightarrow> dict" where
  "read_json_body ops body =
     (if body = [] then []
      else case po_loads ops body of
        Some (PDict d) \<Rightarrow> d
      | Some v \<Rightarrow> [(''data'', v)]
      | None \<Rightarrow> [(''raw'', PStr body)])"

definition transport_error :: "str \<Rightarrow> dict" where
  "transport_error msg = [(''ok'', PBool False), (''error'', PStr ''financeos_transport_error''), (''reason'', PStr msg)]"

definition post_answer :: "proofs_ops \<Rightarrow> int \<Rightarrow> str \<Rightarrow> dict" where
  "post_answer ops status body =
     (let data = read_json_body ops body in
      if status = 200 \<or> status = 201 then dict_update [(''ok'', PBool True), (''status'', PInt status)] data
      else if status = 422 then dict_update [(''ok'', PBool False), (''status'', PInt status), (''blocked'', PBool True)] data
      else dict_update [(''ok'', PBool False), (''status'', PInt status)] data)"

definition proofs_post :: "proofs_ops \<Rightarrow> str \<Rightarrow> dict \<Rightarrow> proofs_outcome" where
  "proofs_post ops path body =
     (let rq = \<lparr>sr_method = ''POST'', sr_url = proofs_base_url ops @ path, sr_headers = proofs_headers ops, sr_body = Some body\<rparr> in
      (case po_service ops rq of
         Service_Answered status txt \<Rightarrow> Inr (post_answer ops status txt)
       | Client_Error msg \<Rightarrow> Inr (transport_error msg)
       | Service_Raised cls msg \<Rightarrow> Inl (Transport cls msg), [rq]))"

definition proofs_get :: "proofs_ops \<Rightarrow> str \<Rightarrow> proofs_outcome" where
  "proofs_get ops path =
     (let rq = \<lparr>sr_method = ''GET'', sr_url = proofs_base_url ops @ path, sr_headers = proofs_headers ops, sr_body = None\<rparr> in
      (case po_service ops rq of
         Service_Answered status txt \<Rightarrow>
           Inr (dict_update [(''ok'', PBool (status = 200)), (''status'', PInt status)] (read_json_body ops txt))
       | Client_Error msg \<Rightarrow> Inr (transport_error msg)
       | Service_Raised cls msg \<Rightarrow> Inl (Transport cls msg), [rq]))"

definition not_configured :: "dict" where
  "not_configured = [(''ok'', PBool False), (''error'', PStr ''financeos_proofs_not_configured'')]"

definition not_configured_reason :: "dict" where
  "not_configured_reason = not_configured @ [(''reason'', PStr ''set FINANCEOS_API_BASE_URL and INTERNAL_PROOFS_SERVICE_TOKEN (>=32 chars)'')]"

definition when_configured :: "proofs_ops \<Rightarrow> dict \<Rightarrow> proofs_outcome \<Rightarrow> proofs_outcome" where
  "when_configured ops answer k =
     (case financeos_proofs_configured ops of Inl e \<Rightarrow> (Inl e, []) | Inr False \<Rightarrow> (Inr answer, []) | Inr True \<Rightarrow> k)"

text \<open>\<open>if value: body[key] = value\<close>; the tools pass \<open>value or None\<close>.\<close>

definition given :: "str \<Rightarrow> str \<Rightarrow> dict" where
  "given key value = (if value \<noteq> [] then [(key, PStr value)] else [])"

definition post_invoice_proof :: "proofs_ops \<Rightarrow> str \<Rightarrow> str \<Rightarrow> str \<Rightarrow> proofs_outcome" where
  "post_invoice_proof ops document_id source_channel intent_id =
     when_configured ops not_configured_reason
       (proofs_post ops ''/internal/proofs/invoice''
          ([(''document_id'', PStr document_id)] @ given ''source_channel'' source_channel @ given ''intent_id'' intent_id))"

record verify_args =
  va_entity_id :: str
  va_operation :: str
  va_agent_slug :: str
  va_intent_id :: str
  va_intent_type :: str
  va_boundary_type :: str
  va_remediation_reason :: str
  va_phoenix_trace_id :: str

definition post_verify_api :: "proofs_ops \<Rightarrow> verify_args \<Rightarrow> str \<Rightarrow> proofs_outcome" where
  "post_verify_api ops a slug =
     when_configured ops not_configured_reason
       (proofs_post ops ''/internal/proofs/verify''
          ([(''entity_id'', PStr (va_entity_id a)), (''agent_slug'', PStr slug), (''boundary_type'', PStr (va_boundary_type a))] @
           given ''operation'' (va_operation a) @ given ''intent_id'' (va_intent_id a) @ given ''intent_type'' (va_intent_type a) @
           given ''remediation_reason'' (va_remediation_reason a) @ given ''phoenix_trace_id'' (va_phoenix_trace_id a)))"

definition get_invoice_proof_run :: "proofs_ops \<Rightarrow> str \<Rightarrow> proofs_outcome" where
  "get_invoice_proof_run ops run_id = when_configured ops not_configured (proofs_get ops (''/internal/proofs/invoice/'' @ run_id))"

definition get_verify_api_run :: "proofs_ops \<Rightarrow> str \<Rightarrow> proofs_outcome" where
  "get_verify_api_run ops run_id = when_configured ops not_configured (proofs_get ops (''/internal/proofs/verify/'' @ run_id))"

text \<open>The tools: what they make of the answer.\<close>

definition passed :: "dict \<Rightarrow> bool" where
  "passed result \<longleftrightarrow> dget result ''verdict'' = PStr ''PASS'' \<and> \<not> truthy (dget result ''blocked'')"

definition when_answered :: "(dict \<Rightarrow> dict) \<Rightarrow> proofs_outcome \<Rightarrow> proofs_outcome" where
  "when_answered report out =
     (case out of
        (Inr result, rqs) \<Rightarrow> (Inr (if \<not> truthy (dget result ''ok'') then result else report result), rqs)
      | (Inl e, rqs) \<Rightarrow> (Inl e, rqs))"

definition invoice_report :: "dict \<Rightarrow> dict" where
  "invoice_report result =
     [(''ok'', PBool (passed result)), (''invoice_proof_run_id'', dget result ''run_id''), (''verdict'', dget result ''verdict''),
      (''blocked'', PBool (truthy (dget result ''blocked''))), (''missing_fields'', dget_default result ''missing_fields'' (PList [])),
      (''reason_codes'', dget_default result ''reason_codes'' (PList []))]"

definition financeos_invoice_proof :: "proofs_ops \<Rightarrow> str \<Rightarrow> str \<Rightarrow> str \<Rightarrow> proofs_outcome" where
  "financeos_invoice_proof ops document_id source_channel intent_id =
     when_answered invoice_report (post_invoice_proof ops document_id source_channel intent_id)"

definition verify_report :: "dict \<Rightarrow> dict" where
  "verify_report result =
     [(''ok'', PBool (passed result)), (''verify_api_run_id'', dget result ''run_id''), (''verdict'', dget result ''verdict''),
      (''blocked'', PBool (truthy (dget result ''blocked''))), (''blocking_reason'', dget result ''blocking_reason''),
      (''allowed_tools'', dget_default result ''allowed_tools'' (PList []))]"

definition financeos_verify_api :: "proofs_ops \<Rightarrow> dict \<Rightarrow> verify_args \<Rightarrow> proofs_outcome" where
  "financeos_verify_api ops kw a =
     (let slug = trusted_agent_slug kw (va_agent_slug a) in
      if slug = [] then (Inr [(''ok'', PBool False), (''error'', PStr ''agent_slug_required'')], [])
      else when_answered verify_report (post_verify_api ops a slug))"

definition run_verify_tool :: "proofs_ops \<Rightarrow> tool_ctx \<Rightarrow> verify_args \<Rightarrow> dict \<Rightarrow> proofs_outcome" where
  "run_verify_tool ops cx a extra =
     (if list_ex (\<lambda>k. map_of extra k \<noteq> None) CONTEXT_KEYS then (Inl (Python TypeError), [])
      else financeos_verify_api ops (extra @ context_kwargs cx) a)"

lemma map_of_dict_update: "map_of (dict_update d e) k = (case map_of (rev e) k of Some v \<Rightarrow> Some v | None \<Rightarrow> map_of d k)"
  unfolding dict_update_def by (induction e arbitrary: d) (auto simp: map_add_def split: option.splits)

lemma dget_dict_update:
  assumes "distinct (map fst e)"
  shows "dget (dict_update d e) k = (if map_of e k = None then dget d k else dget e k)"
proof -
  have "map_of (rev e) k = Some v \<longleftrightarrow> map_of e k = Some v" for v
    using assms by (simp add: map_of_eq_Some_iff rev_map [symmetric])
  then have "map_of (rev e) k = map_of e k" by (cases "map_of e k") (auto simp flip: not_None_eq)
  then show ?thesis by (simp add: dget_def map_of_dict_update split: option.split)
qed

definition distinct_keys :: "(str \<Rightarrow> pyval option) \<Rightarrow> bool" where
  "distinct_keys loads \<longleftrightarrow> (\<forall>t d. loads t = Some (PDict d) \<longrightarrow> distinct (map fst d))"

lemma when_configured_answer:
  assumes "when_configured ops answer k = (Inr d, rqs)" and "rqs \<noteq> []"
  shows "k = (Inr d, rqs)" and "32 \<le> length (service_token ops)"
  using assms by (auto simp: when_configured_def financeos_proofs_configured_def split: sum.splits bool.splits if_splits)

lemma post_answer_fields:
  assumes "distinct_keys (po_loads ops)" and "truthy (dget (post_answer ops status reply) ''ok'')" and "passed (post_answer ops status reply)"
  obtains data where "po_loads ops reply = Some (PDict data)" and "dget data ''verdict'' = PStr ''PASS''" and "\<not> truthy (dget data ''blocked'')"
    and "status \<in> {200, 201} \<or> truthy (dget data ''ok'')" and "dget (post_answer ops status reply) ''run_id'' = dget data ''run_id''"
proof -
  let ?data = "read_json_body ops reply"
  have loaded: "po_loads ops reply = Some (PDict ?data)" if "dget ?data ''verdict'' = PStr ''PASS''"
    using that by (auto simp: read_json_body_def dget_def split: if_splits option.splits pyval.splits)
  have distinct: "distinct (map fst ?data)"
    using assms(1) by (auto simp: read_json_body_def distinct_keys_def split: option.splits pyval.splits)
  note fields = dget_dict_update [OF distinct, unfolded dget_def]
  have verdict: "dget ?data ''verdict'' = PStr ''PASS''"
    using assms(3) by (auto simp: passed_def post_answer_def Let_def fields dget_def split: if_splits)
  have "\<not> truthy (dget ?data ''blocked'')"
    using assms(3) by (auto simp: passed_def post_answer_def Let_def fields dget_def split: if_splits option.splits)
  moreover have "status \<in> {200, 201} \<or> truthy (dget ?data ''ok'')"
    using assms(2) by (auto simp: post_answer_def Let_def fields dget_def split: if_splits option.splits)
  moreover have "dget (post_answer ops status reply) ''run_id'' = dget ?data ''run_id''"
    by (auto simp: post_answer_def Let_def fields dget_def split: option.split)
  ultimately show thesis using that loaded verdict by blast
qed

lemma when_answered_ok:
  assumes "when_answered report out = (Inr d, rqs)" and "truthy (dget d ''ok'')"
  obtains result where "out = (Inr result, rqs)" and "d = report result"
  using assms by (auto simp: when_answered_def split: prod.splits sum.splits if_splits)

lemma when_answered_result_ok:
  assumes "when_answered report (Inr result, rqs) = (Inr d, rqs)" and "truthy (dget d ''ok'')"
  shows "truthy (dget result ''ok'')"
  using assms by (auto simp: when_answered_def split: if_splits)

text \<open>C9. When the agent's VerifyAPI tool reports success, FinanceOS was asked once, under the service token, for the agent that is running, and
  answered with a JSON object whose verdict is PASS and which is not blocked, and the id the agent gets is the one of that answer. The status of the
  answer was a success or the object itself claimed one.\<close>

theorem verification_pass_answered:
  assumes "run_verify_tool ops cx a extra = (Inr d, rqs)" and "truthy (dget d ''ok'')"
    and "strip (cx_agent_slug cx) \<noteq> []" and "distinct_keys (po_loads ops)"
  shows "\<exists>rq status reply data. rqs = [rq] \<and> sr_url rq = proofs_base_url ops @ ''/internal/proofs/verify'' \<and>
    map_of (sr_headers rq) ''Authorization'' = Some (''Bearer '' @ service_token ops) \<and> 32 \<le> length (service_token ops) \<and>
    (\<exists>body. sr_body rq = Some body \<and> dget body ''agent_slug'' = PStr (strip (cx_agent_slug cx)) \<and> dget body ''entity_id'' = PStr (va_entity_id a)) \<and>
    po_service ops rq = Service_Answered status reply \<and> po_loads ops reply = Some (PDict data) \<and>
    dget data ''verdict'' = PStr ''PASS'' \<and> \<not> truthy (dget data ''blocked'') \<and> (status \<in> {200, 201} \<or> truthy (dget data ''ok'')) \<and>
    dget d ''verify_api_run_id'' = dget data ''run_id''"
proof -
  let ?slug = "strip (cx_agent_slug cx)"
  have free: "\<forall>k\<in>set CONTEXT_KEYS. map_of extra k = None" and run: "financeos_verify_api ops (extra @ context_kwargs cx) a = (Inr d, rqs)"
    using assms(1) by (auto simp: run_verify_tool_def list_ex_iff split: if_splits)
  with runtime_slug [OF assms(3) free, of "va_agent_slug a"] assms(3)
  have asked: "when_answered verify_report (post_verify_api ops a ?slug) = (Inr d, rqs)" by (simp add: financeos_verify_api_def)
  from when_answered_ok [OF this assms(2)] obtain result where post: "post_verify_api ops a ?slug = (Inr result, rqs)" and d: "d = verify_report result" .
  have ok: "truthy (dget result ''ok'')" by (rule when_answered_result_ok [OF asked [unfolded post] assms(2)])
  have pass: "passed result" using assms(2) by (simp add: d verify_report_def dget_def)
  have "rqs \<noteq> []"
    using post pass
    by (auto simp: post_verify_api_def when_configured_def not_configured_reason_def not_configured_def passed_def dget_def proofs_post_def Let_def
        split: sum.splits bool.splits)
  note sent = when_configured_answer [OF post [unfolded post_verify_api_def] this]
  from sent(1) obtain rq where rq: "rqs = [rq]" "sr_url rq = proofs_base_url ops @ ''/internal/proofs/verify''" "sr_headers rq = proofs_headers ops"
    "sr_body rq = Some ([(''entity_id'', PStr (va_entity_id a)), (''agent_slug'', PStr ?slug), (''boundary_type'', PStr (va_boundary_type a))] @
           given ''operation'' (va_operation a) @ given ''intent_id'' (va_intent_id a) @ given ''intent_type'' (va_intent_type a) @
           given ''remediation_reason'' (va_remediation_reason a) @ given ''phoenix_trace_id'' (va_phoenix_trace_id a))"
    and answer: "(case po_service ops rq of Service_Answered status reply \<Rightarrow> Inr (post_answer ops status reply)
       | Client_Error msg \<Rightarrow> Inr (transport_error msg) | Service_Raised cls msg \<Rightarrow> Inl (Transport cls msg)) = Inr result"
    by (auto simp: proofs_post_def Let_def)
  from answer pass obtain status reply where answered: "po_service ops rq = Service_Answered status reply" "result = post_answer ops status reply"
    by (cases "po_service ops rq") (auto simp: passed_def transport_error_def dget_def)
  obtain data where "po_loads ops reply = Some (PDict data)" "dget data ''verdict'' = PStr ''PASS''" "\<not> truthy (dget data ''blocked'')"
    "status \<in> {200, 201} \<or> truthy (dget data ''ok'')" "dget d ''verify_api_run_id'' = dget data ''run_id''"
    using post_answer_fields [OF assms(4), of status reply] ok pass by (auto simp: answered(2) d verify_report_def dget_def)
  then show ?thesis using rq sent(2) answered(1) by (auto simp: proofs_headers_def dget_def)
qed

text \<open>The body of an answer overrides the fields the client derives from its status, so an answer with status 500 passes when it says so.\<close>

definition sample_proofs :: "int \<Rightarrow> proofs_ops" where
  "sample_proofs status =
     \<lparr>po_env = [''FINANCEOS_API_BASE_URL'' \<mapsto> ''http://f/'', ''INTERNAL_PROOFS_SERVICE_TOKEN'' \<mapsto> replicate 32 CHR ''t''],
      po_urlparse = (\<lambda>_. Some \<lparr>up_scheme = ''http'', up_netloc = ''f'', up_username = None, up_password = None\<rparr>),
      po_loads = (\<lambda>_. Some (PDict [(''ok'', PBool True), (''verdict'', PStr ''PASS''), (''run_id'', PStr ''run-00001'')])),
      po_service = (\<lambda>_. Service_Answered status ''body'')\<rparr>"

definition sample_verify :: verify_args where
  "sample_verify = \<lparr>va_entity_id = ''e'', va_operation = ''create_draft_bill'', va_agent_slug = [], va_intent_id = [], va_intent_type = [],
     va_boundary_type = ''agent_scope_map'', va_remediation_reason = [], va_phoenix_trace_id = []\<rparr>"

definition sample_verified :: "int \<Rightarrow> dict option" where
  "sample_verified status = (case run_verify_tool (sample_proofs status) sample_cx sample_verify [] of (Inr d, _) \<Rightarrow> Some d | _ \<Rightarrow> None)"

lemma failed_answer_passes:
  "sample_verified status =
     Some (verify_report [(''ok'', PBool True), (''status'', PInt status), (''verdict'', PStr ''PASS''), (''run_id'', PStr ''run-00001'')])"
  if "status = 500 \<or> status = 200"
  using that by (elim disjE; simp only:) (code_simp+)

theorem verification_pass_answered_witness:
  "\<exists>rq status reply. po_service (sample_proofs 200) rq = Service_Answered status reply \<and> sr_url rq = ''http://f/internal/proofs/verify'' \<and>
     (\<exists>body. sr_body rq = Some body \<and> dget body ''agent_slug'' = PStr ''genesis-e4l-ap'')"
proof -
  obtain d rqs where run: "run_verify_tool (sample_proofs 200) sample_cx sample_verify [] = (Inr d, rqs)"
    and d: "d = verify_report [(''ok'', PBool True), (''status'', PInt 200), (''verdict'', PStr ''PASS''), (''run_id'', PStr ''run-00001'')]"
    using failed_answer_passes [of 200] by (auto simp: sample_verified_def split: prod.splits sum.splits)
  have facts: "strip (cx_agent_slug sample_cx) = ''genesis-e4l-ap''" "proofs_base_url (sample_proofs 200) = ''http://f''" by code_simp+
  have "truthy (dget d ''ok'')" "distinct_keys (po_loads (sample_proofs 200))"
    by (simp_all add: d verify_report_def passed_def dget_def distinct_keys_def sample_proofs_def)
  from verification_pass_answered [OF run this(1) _ this(2)] show ?thesis by (auto simp: facts)
qed

end
