(* ===== verification/Money_Tools.thy ===== *)
theory Money_Tools
  imports Billing Tool_Policy
begin

text \<open>
  The other tools of the money domain: \<^verbatim>\<open>tools/pricing_tool.py\<close>, \<^verbatim>\<open>tools/commerce_tool.py\<close> and \<^verbatim>\<open>tools/domain_tool.py\<close>, and what holds of
  every tool the five money modules register.

  The registrar's answer, the environment, the clock, request ids and SHA-256 are arguments. Arguments of the tools are the dictionary the model
  sent; in the list of domains, arrays are not compared with each other.
\<close>

section \<open>Pricing and commerce\<close>

definition no_store :: "str \<Rightarrow> str \<Rightarrow> str" where
  "no_store what rest = ''No '' @ what @ '' is wired for the '' @ rest"

definition budget_text :: "str \<Rightarrow> str" where
  "budget_text agent = no_store ''budget store'' (agent @ '' agent. Budget figures are unavailable; none are invented. Absence of a limit is not headroom.'')"

definition audit_text :: "str \<Rightarrow> str" where
  "audit_text agent = no_store ''audit store'' (agent @ '' agent. No entries can be returned; an empty log must not be inferred.'')"

definition alerts_text :: "str \<Rightarrow> str" where
  "alerts_text agent = no_store ''alert engine'' (agent @ '' agent. No alerts can be returned; '' @ [char_of (39::nat)] @ ''no alerts raised'' @
     [char_of (39::nat)] @ '' must not be inferred.'')"

definition pricing_run_elasticity_experiment :: "str \<Rightarrow> py_exc + dict" where
  "pricing_run_elasticity_experiment rid =
     quarantined rid ''pricing_run_elasticity_experiment''
       (''Live price-elasticity experiments are not implemented. This tool would change what real customers are charged and requires a named '' @
        ''channel provider, price readback evidence and a per-call human authorization, none of which exist.'') []
       ''FINANCE-TOOL-CONTRACTS.md 3.4 pricing_run_elasticity_experiment''"

definition pricing_deploy_pricing_update :: "str \<Rightarrow> py_exc + dict" where
  "pricing_deploy_pricing_update rid =
     quarantined rid ''pricing_deploy_pricing_update''
       (''Pushing a price change is not implemented. It requires a named channel provider (never resolved at call time from a free-text '' @
        ''channel string), price readback evidence, an enforced max_change_bp and a per-call human authorization.'') []
       ''FINANCE-TOOL-CONTRACTS.md 3.4 pricing_deploy_pricing_update''"

definition pricing_generate_pricing_report :: "str \<Rightarrow> py_exc + dict" where
  "pricing_generate_pricing_report rid = prohibited_refusal rid ''pricing_generate_pricing_report'' ''C'' None"

definition pricing_get_budget_metrics :: "str \<Rightarrow> py_exc + dict" where
  "pricing_get_budget_metrics rid = unwired rid ''pricing_get_budget_metrics'' (budget_text ''pricing'')"

definition pricing_get_audit_log :: "str \<Rightarrow> py_exc + dict" where
  "pricing_get_audit_log rid = unwired rid ''pricing_get_audit_log'' (audit_text ''pricing'')"

definition pricing_get_alerts :: "str \<Rightarrow> py_exc + dict" where
  "pricing_get_alerts rid = unwired rid ''pricing_get_alerts'' (alerts_text ''pricing'')"

definition commerce_configure_tax_engine :: "str \<Rightarrow> py_exc + dict" where
  "commerce_configure_tax_engine rid =
     quarantined rid ''commerce_configure_tax_engine''
       (''Configuring a tax engine is not implemented. It determines the tax on every future invoice and requires a named provider, an '' @
        ''accountant-approved rule set and readback evidence. No tax configuration was created or changed.'')
       [(''requires_human_signoff'', PStr ''qualified accountant must approve the rule set'')]
       ''FINANCE-TOOL-CONTRACTS.md 3.3 commerce_configure_tax_engine''"

definition commerce_get_budget_metrics :: "str \<Rightarrow> py_exc + dict" where
  "commerce_get_budget_metrics rid = unwired rid ''commerce_get_budget_metrics'' (budget_text ''commerce'')"

definition commerce_get_audit_log :: "str \<Rightarrow> py_exc + dict" where
  "commerce_get_audit_log rid = unwired rid ''commerce_get_audit_log'' (audit_text ''commerce'')"

definition commerce_get_alerts :: "str \<Rightarrow> py_exc + dict" where
  "commerce_get_alerts rid = unwired rid ''commerce_get_alerts'' (alerts_text ''commerce'')"

section \<open>Domain candidates\<close>

text \<open>\<open>c.isalnum()\<close> on the code points below 256.\<close>

definition isalnum :: "char \<Rightarrow> bool" where
  "isalnum c \<longleftrightarrow> word_char c \<and> c \<noteq> CHR ''_''"

record candidate =
  cd_domain :: str
  cd_score :: int
  cd_tld :: str
  cd_length :: nat
  cd_brandable :: bool

definition NAME_PREFIXES :: "str list" where
  "NAME_PREFIXES = [[], ''get'', ''my'', ''the'', ''use'']"

definition NAME_SUFFIXES :: "str list" where
  "NAME_SUFFIXES = [[], ''hq'', ''io'', ''app'', ''ai'', ''co'']"

definition TLDS :: "str list" where
  "TLDS = [''.com'', ''.io'', ''.ai'', ''.co'', ''.dev'', ''.app'']"

definition candidate_of :: "str \<Rightarrow> str \<times> str \<times> str \<Rightarrow> candidate" where
  "candidate_of cleaned = (\<lambda>(p, s, tld).
     let root = p @ cleaned @ s in
     \<lparr>cd_domain = root @ tld,
      cd_score = 100 - int (length root) - (if CHR ''-'' \<in> set root then 10 else 0) + (if tld = ''.com'' \<or> tld = ''.io'' then 5 else 0),
      cd_tld = tld, cd_length = length root, cd_brandable = (p = [] \<and> s = [])\<rparr>)"

definition add_candidate :: "str \<Rightarrow> candidate list \<Rightarrow> str \<times> str \<times> str \<Rightarrow> candidate list" where
  "add_candidate cleaned cs x =
     (let c = candidate_of cleaned x in if cd_domain c \<in> set (map cd_domain cs) then cs else cs @ [c])"

definition all_candidates :: "str \<Rightarrow> candidate list" where
  "all_candidates cleaned = foldl (add_candidate cleaned) [] (List.product NAME_PREFIXES (List.product NAME_SUFFIXES TLDS))"

definition top_candidates :: "int \<Rightarrow> str \<Rightarrow> candidate list" where
  "top_candidates wanted cleaned = take (nat (max 1 wanted)) (sort_key (\<lambda>c. - cd_score c) (all_candidates cleaned))"

definition candidate_dict :: "candidate \<Rightarrow> pyval" where
  "candidate_dict c =
     PDict [(''domain'', PStr (cd_domain c)), (''score'', PInt (cd_score c)), (''tld'', PStr (cd_tld c)), (''length'', PInt (int (cd_length c))),
            (''memorable'', PBool (cd_length c \<le> 12)), (''brandable'', PBool (cd_brandable c))]"

text \<open>The class of the exception of \<open>int(value)\<close>.\<close>

definition int_failure :: "pyval \<Rightarrow> str" where
  "int_failure v =
     (case v of PStr _ \<Rightarrow> ''ValueError'' | PFloat r \<Rightarrow> if r = ''inf'' \<or> r = ''-inf'' then ''OverflowError'' else ''ValueError'' | _ \<Rightarrow> ''TypeError'')"

definition or_raised :: "str \<Rightarrow> str \<Rightarrow> str + dict \<Rightarrow> py_exc + dict" where
  "or_raised rid tool m =
     (case m of Inr env \<Rightarrow> Inr env | Inl cls \<Rightarrow> from_exception rid tool cls ''upstream_timeout'' None None (Some 2000))"

definition candidates_answer :: "(str \<Rightarrow> str) \<Rightarrow> str \<Rightarrow> str \<Rightarrow> dict \<Rightarrow> str + dict" where
  "candidates_answer sha256 rid now args =
     (let tool = ''domain_generate_candidates''; theme = dget args ''theme'' in
      bindE (case py_or (py_or theme (dget args ''business_name'')) (PStr []) of PStr s \<Rightarrow> Inr s | _ \<Rightarrow> Inl ''AttributeError'') (\<lambda>txt.
      let root_theme = lower (strip txt); cleaned = filter isalnum root_theme in
      if root_theme = [] then
        raisingE wrong_class (validation_failed rid tool [violation ''theme'' ''theme_or_business_name_required'' (py_type_name theme)]
          (''Provide '' @ repr_str ''theme'' @ '' or '' @ repr_str ''business_name'' @ ''.''))
      else if cleaned = [] then
        raisingE wrong_class (validation_failed rid tool [violation ''theme'' ''must_contain_alphanumeric'' ''str'']
          ''Theme/business_name had no alphanumeric characters.'')
      else
        let wanted = dget_default args ''count'' (PInt 10) in
        bindE (optE (int_failure wanted) (py_int_of wanted)) (\<lambda>n.
        let top = top_candidates n cleaned;
            result = PDict [(''theme'', PStr root_theme), (''count'', PInt (int (length top))), (''candidates'', PList (map candidate_dict top))] in
        raisingE wrong_class (success rid tool ''READ_ONLY'' result
          (PDict (read_evidence now ''caller_supplied''
             (sha256_hex sha256 (PStr (canonical_json (PDict [(''theme'', PStr root_theme), (''count'', PInt n)]))))
             (int (length top)) (sha256_hex sha256 (PStr (canonical_json result))) None None)) None False))))"

definition domain_generate_candidates :: "(str \<Rightarrow> str) \<Rightarrow> str \<Rightarrow> str \<Rightarrow> dict \<Rightarrow> py_exc + dict" where
  "domain_generate_candidates sha256 rid now args =
     or_raised rid ''domain_generate_candidates'' (candidates_answer sha256 rid now args)"

section \<open>The registrar\<close>

text \<open>A lookup at the registrar: the status and the parsed body, \<open>None\<close> when it is no JSON, or the class of what the client raised.\<close>

datatype registrar_answer = Registrar_Answered int "pyval option" | Registrar_Raised str

record registrar =
  rg_httpx :: "str option"
  rg_lookup :: "str \<times> str \<Rightarrow> pyval \<Rightarrow> registrar_answer"

definition indeterminate :: "str \<Rightarrow> (str \<times> pyval) list \<Rightarrow> str \<Rightarrow> py_exc + dict" where
  "indeterminate rid status message =
     failure rid ''domain_check_availability'' ''upstream_timeout'' message
       (Some ([(''provider'', PStr ''namecom'')] @ status @ [(''state'', PStr ''indeterminate'')])) (Some 2000)"

text \<open>\<open>sorted(values)\<close> of texts or of numbers.\<close>

definition scaled :: "nat \<Rightarrow> pyval \<Rightarrow> int" where
  "scaled places v = (case number_of v of Some (m, k) \<Rightarrow> m * 10 ^ (places - k) | None \<Rightarrow> 0)"

definition max_places :: "pyval list \<Rightarrow> nat" where
  "max_places vs = foldl (\<lambda>n v. case number_of v of Some (_, k) \<Rightarrow> max n k | None \<Rightarrow> n) 0 vs"

definition sorted_values :: "pyval list \<Rightarrow> str + pyval list" where
  "sorted_values vs =
     (if list_all (\<lambda>v. case v of PStr _ \<Rightarrow> True | _ \<Rightarrow> False) vs then Inr (map PStr (sort (map py_str vs)))
      else if list_all (\<lambda>v. number_of v \<noteq> None) vs then Inr (sort_key (scaled (max_places vs)) vs)
      else if length vs \<le> 1 then Inr vs else Inl ''TypeError'')"

definition availability_envelope :: "(str \<Rightarrow> str) \<Rightarrow> str \<Rightarrow> str \<Rightarrow> pyval list \<Rightarrow> int \<Rightarrow> pyval option \<Rightarrow> str + dict" where
  "availability_envelope sha256 rid now names status body =
     (if status \<noteq> 200 \<and> status \<noteq> 201 then
        raisingE wrong_class (indeterminate rid [(''status_code'', PInt status)] ''Name.com did not return a usable availability response.'')
      else
        bindE (optE ''JSONDecodeError'' body) (\<lambda>v.
        bindE (as_dict ''AttributeError'' v) (\<lambda>data.
        case dget data ''results'' of
          PList results \<Rightarrow>
            bindE (sorted_values names) (\<lambda>ordered.
            raisingE wrong_class
              (success rid ''domain_check_availability'' ''READ_ONLY''
                 (PDict [(''results'', PList results), (''count'', PInt (int (length results)))])
                 (PDict (read_evidence now ''namecom'' (sha256_hex sha256 (PStr (canonical_json (PDict [(''domainNames'', PList ordered)]))))
                    (int (length results)) (sha256_hex sha256 (PStr (canonical_json (PList results)))) None (Some False))) None False))
        | _ \<Rightarrow> raisingE wrong_class (indeterminate rid [] ''Name.com returned a malformed availability body.''))))"

definition domain_check_availability :: "(str \<Rightarrow> str) \<Rightarrow> str \<Rightarrow> str \<Rightarrow> env \<Rightarrow> registrar \<Rightarrow> dict \<Rightarrow> py_exc + dict" where
  "domain_check_availability sha256 rid now e rg args =
     (let tool = ''domain_check_availability''; domains = dget args ''domains'';
          username = (case e ''NAMECOM_USERNAME'' of Some u \<Rightarrow> u | None \<Rightarrow> []); token = (case e ''NAMECOM_TOKEN'' of Some t \<Rightarrow> t | None \<Rightarrow> []) in
      case py_or domains (PList []) of
        PList (d # ds) \<Rightarrow>
          if 50 < length (d # ds) then
            validation_failed rid tool [violation ''domains'' ''max_50_elements'' ''list''] ''Input violated the tool contract.''
          else if username = [] \<or> token = [] then
            provider_unconfigured rid tool [''NAMECOM_USERNAME'', ''NAMECOM_TOKEN'']
              ''Name.com credentials are not configured, so availability is unknown. No availability result is invented.''
              (Some [(''mode'', PStr ''READ_ONLY'')])
          else
            (case rg_httpx rg of
               Some cls \<Rightarrow>
                 provider_unconfigured rid tool [''httpx'']
                   ''The httpx HTTP client is not installed in this deployment, so the Name.com lookup cannot be performed.''
                   (Some [(''mode'', PStr ''READ_ONLY''), (''exception_type'', PStr cls)])
             | None \<Rightarrow>
                 (case (case rg_lookup rg (username, token) (PDict [(''domainNames'', PList (d # ds))]) of
                          Registrar_Answered status body \<Rightarrow> availability_envelope sha256 rid now (d # ds) status body
                        | Registrar_Raised cls \<Rightarrow> Inl cls) of
                    Inr env \<Rightarrow> Inr env
                  | Inl cls \<Rightarrow>
                      from_exception rid tool cls ''upstream_timeout'' (Some ''The Name.com availability lookup did not complete.'')
                        (Some [(''provider'', PStr ''namecom''), (''state'', PStr ''indeterminate'')]) (Some 2000)))
      | _ \<Rightarrow>
          validation_failed rid tool [violation ''domains'' ''required_non_empty_list_1_50'' (py_type_name domains)]
            (''Provide '' @ repr_str ''domains'' @ '' (non-empty list of strings, 1-50 elements).''))"

definition domain_configure_dns :: "str \<Rightarrow> py_exc + dict" where
  "domain_configure_dns rid =
     not_implemented rid ''domain_configure_dns''
       (''DNS configuration is not implemented. It requires a credentialed registrar/DNS provider and post-write readback of the zone. No DNS '' @
        ''record was created or changed.'')
       (Some [(''mode'', PStr ''APPROVAL_REQUIRED''), (''records_written'', PInt 0)])"

definition domain_get_cost_summary :: "str \<Rightarrow> py_exc + dict" where
  "domain_get_cost_summary rid =
     unwired rid ''domain_get_cost_summary''
       ''No domain registry store is wired. Domain cost figures are unavailable; a zero cost and an empty domain list are not inferred.''"

section \<open>The tools the money modules register\<close>

record money_env =
  mn_sha256 :: "str \<Rightarrow> str"
  mn_rid :: str
  mn_now1 :: str
  mn_now2 :: str
  mn_env :: env
  mn_registrar :: registrar

definition MONEY_TOOLS :: "money_env \<Rightarrow> (str \<times> (dict \<Rightarrow> py_exc + dict)) list" where
  "MONEY_TOOLS m = (let rid = mn_rid m in
     [(''finance_sync_bank_fees'', \<lambda>_. finance_sync_bank_fees rid),
      (''finance_generate_finance_report'', finance_generate_finance_report (mn_sha256 m) rid (mn_now1 m) (mn_now2 m)),
      (''finance_import_x402_transactions'', \<lambda>_. finance_import_x402_transactions rid),
      (''finance_get_budget_metrics'', \<lambda>_. finance_get_budget_metrics rid), (''finance_get_audit_log'', \<lambda>_. finance_get_audit_log rid),
      (''finance_get_alerts'', \<lambda>_. finance_get_alerts rid),
      (''billing_import_ar_ledger'', \<lambda>_. billing_import_ar_ledger rid), (''billing_deploy_plan_change'', \<lambda>_. billing_deploy_plan_change rid),
      (''billing_generate_revops_report'', billing_generate_revops_report (mn_sha256 m) rid (mn_now1 m) (mn_now2 m)),
      (''billing_get_budget_metrics'', \<lambda>_. billing_get_budget_metrics rid), (''billing_get_audit_log'', \<lambda>_. billing_get_audit_log rid),
      (''billing_get_alerts'', \<lambda>_. billing_get_alerts rid),
      (''pricing_run_elasticity_experiment'', \<lambda>_. pricing_run_elasticity_experiment rid),
      (''pricing_deploy_pricing_update'', \<lambda>_. pricing_deploy_pricing_update rid),
      (''pricing_get_budget_metrics'', \<lambda>_. pricing_get_budget_metrics rid), (''pricing_get_audit_log'', \<lambda>_. pricing_get_audit_log rid),
      (''pricing_get_alerts'', \<lambda>_. pricing_get_alerts rid),
      (''commerce_configure_tax_engine'', \<lambda>_. commerce_configure_tax_engine rid), (''commerce_get_budget_metrics'', \<lambda>_. commerce_get_budget_metrics rid),
      (''commerce_get_audit_log'', \<lambda>_. commerce_get_audit_log rid), (''commerce_get_alerts'', \<lambda>_. commerce_get_alerts rid),
      (''domain_generate_candidates'', domain_generate_candidates (mn_sha256 m) rid (mn_now1 m)),
      (''domain_check_availability'', domain_check_availability (mn_sha256 m) rid (mn_now1 m) (mn_env m) (mn_registrar m)),
      (''domain_configure_dns'', \<lambda>_. domain_configure_dns rid), (''domain_get_cost_summary'', \<lambda>_. domain_get_cost_summary rid)])"

section \<open>Every answer is a truthful envelope\<close>

definition answers :: "py_exc + dict \<Rightarrow> bool" where
  "answers r \<longleftrightarrow> (\<exists>env. r = Inr env \<and> truthful env)"

definition refuses :: "py_exc + dict \<Rightarrow> bool" where
  "refuses r \<longleftrightarrow> (\<exists>env. r = Inr env \<and> truthful env \<and> dget env ''ok'' = PBool False)"

lemma refuses_answers: "refuses r \<Longrightarrow> answers r"
  by (auto simp: refuses_def answers_def)

lemma failure_refuses: "code \<in> set ERROR_CODES \<Longrightarrow> refuses (failure rid tool code message detail hint)"
proof -
  assume "code \<in> set ERROR_CODES"
  then obtain retryable where "map_of RETRYABLE_BY_CODE code = Some retryable" by (auto simp: ERROR_CODES_def dest!: weak_map_of_SomeI)
  then obtain env where "failure rid tool code message detail hint = Inr env" by (auto simp: failure_Inr)
  with failure_truthful [OF this] failure_not_ok [OF this] show ?thesis by (simp add: refuses_def)
qed

lemma builders_refuse [simp]:
  "refuses (not_implemented rid tool message detail)"
  "refuses (provider_unconfigured rid tool keys message detail)"
  "refuses (validation_failed rid tool vs message)"
  "refuses (quarantined rid tool message extra ref)"
  "refuses (unwired rid tool message)"
  "refuses (indeterminate rid status message)"
  "refuses (prohibited_refusal rid tool grp slug)"
  "refuses (from_exception rid tool cls ''upstream_timeout'' text detail hint)"
  by (simp_all add: not_implemented_def provider_unconfigured_def validation_failed_def quarantined_def unwired_def indeterminate_def
      prohibited_refusal_def from_exception_def failure_refuses ERROR_CODES_def RETRYABLE_BY_CODE_def Let_def)

lemma success_answers: "success rid tool mode result evidence key dup = Inr env \<Longrightarrow> truthful env"
  using success_truthful by blast

lemma refuses_truthful: "refuses r \<Longrightarrow> r = Inr env \<Longrightarrow> truthful env"
  by (simp add: refuses_def)

lemma or_exception_answers:
  assumes "\<And>env. m = Inr env \<Longrightarrow> truthful env"
  shows "answers (case m of Inr env \<Rightarrow> Inr env | Inl cls \<Rightarrow> from_exception rid tool cls ''upstream_timeout'' text detail hint)"
  using assms refuses_answers [OF builders_refuse(8)] by (auto simp: answers_def split: sum.split)

lemmas envelope_cases = success_answers refuses_truthful [OF builders_refuse(3)] refuses_truthful [OF builders_refuse(6)]

lemma finance_report_answers: "answers (finance_generate_finance_report sha256 rid now1 now2 args)"
  unfolding finance_generate_finance_report_def
  by (rule or_exception_answers)
    (auto simp: report_or_refusal_def report_envelope_def Let_def bindE_Inr raisingE_Inr split: if_splits dest: envelope_cases)

lemma revops_report_answers: "answers (billing_generate_revops_report sha256 rid now1 now2 args)"
  unfolding billing_generate_revops_report_def
  by (rule or_exception_answers)
    (auto simp: revops_or_refusal_def revops_envelope_def Let_def bindE_Inr raisingE_Inr split: if_splits dest: envelope_cases)

lemma candidates_answers: "answers (domain_generate_candidates sha256 rid now args)"
  unfolding domain_generate_candidates_def or_raised_def
  by (rule or_exception_answers)
    (auto simp: candidates_answer_def Let_def bindE_Inr raisingE_Inr split: if_splits pyval.splits dest: envelope_cases)

lemma availability_truthful: "availability_envelope sha256 rid now names status body = Inr env \<Longrightarrow> truthful env"
proof (cases "status \<noteq> 200 \<and> status \<noteq> 201")
  case True
  assume "availability_envelope sha256 rid now names status body = Inr env"
  with True show ?thesis by (simp add: availability_envelope_def raisingE_Inr envelope_cases)
next
  case False
  assume "availability_envelope sha256 rid now names status body = Inr env"
  with False obtain data where "(case dget data ''results'' of
          PList results \<Rightarrow>
            bindE (sorted_values names) (\<lambda>ordered.
            raisingE wrong_class
              (success rid ''domain_check_availability'' ''READ_ONLY''
                 (PDict [(''results'', PList results), (''count'', PInt (int (length results)))])
                 (PDict (read_evidence now ''namecom'' (sha256_hex sha256 (PStr (canonical_json (PDict [(''domainNames'', PList ordered)]))))
                    (int (length results)) (sha256_hex sha256 (PStr (canonical_json (PList results)))) None (Some False))) None False))
        | _ \<Rightarrow> raisingE wrong_class (indeterminate rid [] ''Name.com returned a malformed availability body.'')) = Inr env"
    unfolding availability_envelope_def by (auto simp only: bindE_Inr if_False split: if_splits)
  then show ?thesis by (cases "dget data ''results''") (auto simp only: pyval.case bindE_Inr raisingE_Inr dest: envelope_cases)
qed

lemma availability_answers: "answers (domain_check_availability sha256 rid now e rg args)"
proof -
  have looked: "answers (case (case a of Registrar_Answered status body \<Rightarrow> availability_envelope sha256 rid now names status body | Registrar_Raised cls \<Rightarrow> Inl cls) of
        Inr env \<Rightarrow> Inr env | Inl cls \<Rightarrow> from_exception rid tool cls ''upstream_timeout'' msg detail hint)" for a names tool msg detail hint
    by (rule or_exception_answers) (cases a; simp add: availability_truthful)
  show ?thesis
    unfolding domain_check_availability_def Let_def
    by (simp add: looked refuses_answers split: pyval.split list.split option.split)
qed

lemma domain_refusals: "refuses (domain_configure_dns rid)" "refuses (domain_get_cost_summary rid)"
  by (simp_all add: domain_configure_dns_def domain_get_cost_summary_def)

lemma store_refusals:
  "refuses (finance_get_budget_metrics rid)" "refuses (finance_get_audit_log rid)" "refuses (finance_get_alerts rid)"
  "refuses (billing_get_budget_metrics rid)" "refuses (billing_get_audit_log rid)" "refuses (billing_get_alerts rid)"
  "refuses (pricing_get_budget_metrics rid)" "refuses (pricing_get_audit_log rid)" "refuses (pricing_get_alerts rid)"
  "refuses (commerce_get_budget_metrics rid)" "refuses (commerce_get_audit_log rid)" "refuses (commerce_get_alerts rid)"
  by (simp_all add: finance_get_budget_metrics_def finance_get_audit_log_def finance_get_alerts_def
      billing_get_budget_metrics_def billing_get_audit_log_def billing_get_alerts_def pricing_get_budget_metrics_def pricing_get_audit_log_def
      pricing_get_alerts_def commerce_get_budget_metrics_def commerce_get_audit_log_def commerce_get_alerts_def)

lemma write_refusals:
  "refuses (finance_sync_bank_fees rid)" "refuses (finance_import_x402_transactions rid)" "refuses (billing_import_ar_ledger rid)"
  "refuses (billing_deploy_plan_change rid)" "refuses (pricing_run_elasticity_experiment rid)" "refuses (pricing_deploy_pricing_update rid)"
  "refuses (commerce_configure_tax_engine rid)"
  by (simp_all add: finance_sync_bank_fees_def finance_import_x402_transactions_def billing_import_ar_ledger_def billing_deploy_plan_change_def
      pricing_run_elasticity_experiment_def pricing_deploy_pricing_update_def commerce_configure_tax_engine_def)

definition REPORTING_TOOLS :: "str set" where
  "REPORTING_TOOLS = {''finance_generate_finance_report'', ''billing_generate_revops_report'', ''domain_generate_candidates'', ''domain_check_availability''}"

lemma money_tool_names: "\<exists>names. names = map fst (MONEY_TOOLS m) \<and>
    list_all (\<lambda>name. get_tool_risk_by_name name \<noteq> Prohibited \<and> (name \<in> REPORTING_TOOLS \<longrightarrow> get_tool_risk_by_name name = Read_Only)) names"
  unfolding MONEY_TOOLS_def Let_def REPORTING_TOOLS_def list.map fst_conv
  by (rule exI, rule conjI, rule refl) code_simp

text \<open>C30. What the tools of the five money modules answer, whatever the model sends and whatever the registrar says: none of them is prohibited, every answer is
  a truthful envelope and none raises, and a tool whose risk class is not read-only, those that would move money, change prices or taxes or write to DNS
  among them, never reports success. Of the read-only ones only four can.\<close>

theorem money_tools_refuse:
  "list_all (\<lambda>(name, tool).
     get_tool_risk_by_name name \<noteq> Prohibited \<and> answers (tool args) \<and>
     (if get_tool_risk_by_name name = Read_Only \<and> name \<in> REPORTING_TOOLS then True else refuses (tool args))) (MONEY_TOOLS m)"
proof -
  have "list_all (\<lambda>(name, tool). answers (tool args) \<and> (if name \<in> REPORTING_TOOLS then True else refuses (tool args))) (MONEY_TOOLS m)"
    by (simp add: MONEY_TOOLS_def Let_def REPORTING_TOOLS_def finance_report_answers revops_report_answers candidates_answers availability_answers
        domain_refusals store_refusals write_refusals refuses_answers)
  moreover from money_tool_names have "list_all (\<lambda>name. get_tool_risk_by_name name \<noteq> Prohibited \<and>
      (name \<in> REPORTING_TOOLS \<longrightarrow> get_tool_risk_by_name name = Read_Only)) (map fst (MONEY_TOOLS m))" by blast
  ultimately show ?thesis by (simp add: list_all_iff) (auto; fastforce)
qed

section \<open>The ranking of domain candidates\<close>

lemma add_candidate_distinct: "distinct (map cd_domain cs) \<Longrightarrow> distinct (map cd_domain (add_candidate cleaned cs x))"
  by (simp add: add_candidate_def Let_def)

lemma all_candidates_distinct: "distinct (map cd_domain (all_candidates cleaned))"
proof -
  have "distinct (map cd_domain (foldl (add_candidate cleaned) cs xs))" if "distinct (map cd_domain cs)" for cs xs
    using that by (induction xs arbitrary: cs) (simp_all add: add_candidate_distinct)
  then show ?thesis by (simp add: all_candidates_def)
qed

lemma distinct_sort_key: "distinct (map f xs) \<Longrightarrow> distinct (map f (sort_key g xs))"
  by (simp add: distinct_map)

text \<open>The candidates come in descending order of their scores, without repetition and as many as were asked for, at least one, as far as there are
  any; none that was left out scores better than one that is there.\<close>

lemma candidates_ranked:
  "sorted_wrt (\<lambda>a b. cd_score b \<le> cd_score a) (top_candidates n cleaned)"
  "distinct (map cd_domain (top_candidates n cleaned))"
  "length (top_candidates n cleaned) = min (nat (max 1 n)) (length (all_candidates cleaned))"
  "a \<in> set (top_candidates n cleaned) \<Longrightarrow> b \<in> set (all_candidates cleaned) - set (top_candidates n cleaned) \<Longrightarrow> cd_score b \<le> cd_score a"
proof -
  let ?s = "sort_key (\<lambda>c. - cd_score c) (all_candidates cleaned)" and ?k = "nat (max 1 n)"
  have sorted: "sorted_wrt (\<lambda>a b. cd_score b \<le> cd_score a) ?s"
    using sorted_sort_key [of "\<lambda>c. - cd_score c" "all_candidates cleaned"] by (simp add: sorted_map)
  then have split: "sorted_wrt (\<lambda>a b. cd_score b \<le> cd_score a) (take ?k ?s @ drop ?k ?s)" by simp
  then show "sorted_wrt (\<lambda>a b. cd_score b \<le> cd_score a) (top_candidates n cleaned)" by (simp only: sorted_wrt_append top_candidates_def)
  show "distinct (map cd_domain (top_candidates n cleaned))"
    unfolding top_candidates_def take_map [symmetric] by (rule distinct_take [OF distinct_sort_key [OF all_candidates_distinct]])
  show "length (top_candidates n cleaned) = min ?k (length (all_candidates cleaned))" by (simp add: top_candidates_def min.commute)
  have "set (all_candidates cleaned) = set (take ?k ?s @ drop ?k ?s)" by simp
  then show "cd_score b \<le> cd_score a"
    if "a \<in> set (top_candidates n cleaned)" "b \<in> set (all_candidates cleaned) - set (top_candidates n cleaned)"
    using that split by (auto simp only: sorted_wrt_append top_candidates_def set_append)
qed

end
