(* ===== verification/Data_Tools.thy ===== *)
theory Data_Tools
  imports Finance Gateway Accounting
begin

text \<open>
  The tools of the data agent, \<^verbatim>\<open>tools/data_pipeline_tool.py\<close>: the scaffolds, the pipeline design, the quality check, and the readers of
  context, connections and resources.

  Arguments have the JSON types of the tools' schemas, the elements of arrays and objects are arbitrary. The order in which Python enumerates a
  set is an argument. An exception is its class with its text; the handler of every tool turns it into an answer.
\<close>

section \<open>Scaffolds and the design of a pipeline\<close>

type_synonym raised = "str \<times> str"

definition raised_answer :: "raised \<Rightarrow> dict" where
  "raised_answer e = [(''ok'', PBool False), (''error'', PStr (fst e)), (''message'', PStr (snd e))]"

definition PHASE9_NOTE :: str where
  "PHASE9_NOTE = ''Phase 9 credential delegation pending''"

definition data_s3_signed_url :: "pyval \<Rightarrow> pyval \<Rightarrow> pyval \<Rightarrow> dict" where
  "data_s3_signed_url bucket key expires =
     [(''ok'', PBool False), (''scaffold'', PBool True), (''tool'', PStr ''data_s3_signed_url''), (''bucket'', bucket), (''key'', key),
      (''expires_in_seconds'', expires),
      (''message'', PStr (''S3 integration deferred until AWS credentials wired ('' @ PHASE9_NOTE @ '')''))]"

definition data_bigquery_query :: "str \<Rightarrow> pyval \<Rightarrow> pyval \<Rightarrow> pyval \<Rightarrow> py_exc + dict" where
  "data_bigquery_query rid project_id query max_rows =
     not_implemented rid ''data_bigquery_query''
       (''BigQuery integration deferred until GCP credentials wired ('' @ PHASE9_NOTE @ ''). No query was executed and no rows are returned.'')
       (Some [(''mode'', PStr ''READ_ONLY''), (''project_id'', project_id), (''query'', query), (''max_rows'', max_rows)])"

definition data_dbt_compile :: "pyval \<Rightarrow> pyval \<Rightarrow> dict" where
  "data_dbt_compile model_sql refs =
     [(''ok'', PBool False), (''scaffold'', PBool True), (''tool'', PStr ''data_dbt_compile''), (''echoed_sql'', model_sql),
      (''refs'', py_or refs (PList [])),
      (''message'', PStr (''dbt compilation requires the dbt CLI and a configured profile. '' @ PHASE9_NOTE @ ''. SQL echoed back for review.''))]"

definition any_in :: "str list \<Rightarrow> str \<Rightarrow> bool" where
  "any_in needles s \<longleftrightarrow> list_ex (\<lambda>n. str_in n s) needles"

definition extract_plan :: "str \<Rightarrow> str \<times> str" where
  "extract_plan src =
     (if any_in [''s3'', ''gcs'', ''blob'', ''file''] src then (''object_storage_listing'', ''hourly'')
      else if any_in [''postgres'', ''mysql'', ''mssql'', ''rds''] src then (''cdc_or_incremental_select'', ''every_15_min'')
      else if any_in [''api'', ''rest'', ''graphql'', ''webhook''] src then (''api_paginated_pull'', ''every_5_min'')
      else if any_in [''kafka'', ''kinesis'', ''pubsub''] src then (''stream_consumer'', ''continuous'')
      else (''batch_dump'', ''daily''))"

definition write_disposition :: "str \<Rightarrow> str" where
  "write_disposition dst =
     (if any_in [''bigquery'', ''snowflake'', ''redshift'', ''synapse''] dst then ''append_partitioned''
      else if any_in [''postgres'', ''mysql'', ''mssql''] dst then ''upsert_on_pk''
      else if any_in [''s3'', ''gcs'', ''blob''] dst then ''write_parquet'' else ''overwrite'')"

text \<open>\<open>any(... t.lower() ...)\<close> stops at the first text that fits, before a later element that is no text raises.\<close>

fun wants_dbt :: "pyval list \<Rightarrow> raised + bool" where
  "wants_dbt [] = Inr False"
| "wants_dbt (PStr t # ts) = (if str_in ''sql'' (lower t) \<or> str_in ''model'' (lower t) then Inr True else wants_dbt ts)"
| "wants_dbt (v # ts) = Inl (''AttributeError'', repr_str (py_type_name v) @ '' object has no attribute '' @ repr_str ''lower'')"

fun transformation_list :: "pyval \<Rightarrow> raised + pyval list" where
  "transformation_list (PStr t) = Inr [PStr t]"
| "transformation_list (PList ts) = Inr ts"
| "transformation_list (PDict d) = Inr (map (\<lambda>(k, _). PStr k) d)"
| "transformation_list v = (if truthy v then Inl (''TypeError'', repr_str (py_type_name v) @ '' object is not iterable'') else Inr [])"

definition data_pipeline_design :: "str \<Rightarrow> str \<Rightarrow> pyval \<Rightarrow> dict" where
  "data_pipeline_design source destination transformations =
     (case bindE (transformation_list transformations) (\<lambda>ts. bindE (wants_dbt ts) (\<lambda>dbt. Inr (ts, dbt))) of
        Inl e \<Rightarrow> raised_answer e
      | Inr (tx_list, dbt) \<Rightarrow>
         [(''ok'', PBool True),
          (''pipeline'', PDict
            [(''name'', PStr (source @ ''_to_'' @ destination)),
             (''stages'', PList
               [PDict [(''name'', PStr ''extract''), (''source'', PStr source), (''method'', PStr (fst (extract_plan (lower source)))),
                       (''schedule'', PStr (snd (extract_plan (lower source))))],
                PDict [(''name'', PStr ''transform''), (''transformations'', PList tx_list),
                       (''tooling'', PStr ((if dbt then ''dbt'' else ''pandas'') @ '' or pandas''))],
                PDict [(''name'', PStr ''load''), (''destination'', PStr destination),
                       (''write_disposition'', PStr (write_disposition (lower destination)))],
                PDict [(''name'', PStr ''validate''),
                       (''checks'', PList [PStr ''row_count > 0'', PStr ''no_nulls_in_keys'', PStr ''schema_drift_check''])]]),
             (''estimated_runtime_minutes'', PStr ''?''),
             (''notes'', PStr (''Design-only output. Execution requires '' @ PHASE9_NOTE @ ''.''))])])"

section \<open>Reading numbers\<close>

text \<open>The underscores between digits, and whether the number is at most zero: a positive decimal below half
  the least double reads as zero. \<open>None\<close> is \<open>ValueError\<close>.\<close>

fun drop_underscores :: "bool \<Rightarrow> str \<Rightarrow> str option" where
  "drop_underscores after [] = Some []"
| "drop_underscores after (c # cs) =
     (if c = CHR ''_'' then
        (if after \<and> cs \<noteq> [] \<and> digit_char (hd cs) then drop_underscores False cs else None)
      else map_option ((#) c) (drop_underscores (digit_char c) cs))"

definition digits_value :: "str \<Rightarrow> int" where
  "digits_value ds = foldl (\<lambda>n c. 10 * n + (of_char c - 48)) 0 ds"

definition exponent_of :: "str \<Rightarrow> int option" where
  "exponent_of s =
     (case s of
        [] \<Rightarrow> Some 0
      | c # cs \<Rightarrow>
          if c \<noteq> CHR ''e'' then None
          else let ds = (case cs of x # xs \<Rightarrow> if x = CHR ''-'' \<or> x = CHR ''+'' then xs else cs | [] \<Rightarrow> []) in
            if ds = [] \<or> \<not> list_all digit_char ds then None
            else Some (if cs \<noteq> [] \<and> hd cs = CHR ''-'' then - digits_value ds else digits_value ds))"

definition decimal_le0 :: "bool \<Rightarrow> str \<Rightarrow> bool option" where
  "decimal_le0 neg s =
     (let ip = takeWhile digit_char s; r = dropWhile digit_char s;
          fp = (case r of c # cs \<Rightarrow> if c = CHR ''.'' then takeWhile digit_char cs else [] | [] \<Rightarrow> []);
          ex = (case r of c # cs \<Rightarrow> if c = CHR ''.'' then dropWhile digit_char cs else r | [] \<Rightarrow> []) in
      if ip @ fp = [] then None
      else map_option (\<lambda>e. let m = digits_value (ip @ fp); k = e - int (length fp) in
          neg \<or> m = 0 \<or> (k < 0 \<and> m * 2 ^ 1075 \<le> 10 ^ nat (- k))) (exponent_of ex))"

definition float_text_le0 :: "str \<Rightarrow> bool option" where
  "float_text_le0 txt =
     (let s = lower (num_strip txt);
          neg = (s \<noteq> [] \<and> hd s = CHR ''-'');
          body = (if s \<noteq> [] \<and> (hd s = CHR ''-'' \<or> hd s = CHR ''+'') then tl s else s) in
      if body = ''inf'' \<or> body = ''infinity'' then Some neg
      else if body = ''nan'' then Some False
      else Option.bind (drop_underscores False body) (decimal_le0 neg))"

text \<open>\<open>float(val) <= 0\<close>; \<open>None\<close> is the \<open>TypeError\<close> or \<open>ValueError\<close> the rule catches. An integer whose nearest double is out of range
  raises.\<close>

fun float_le0 :: "pyval \<Rightarrow> raised + bool option" where
  "float_le0 (PInt i) = (if 2 ^ 1024 - 2 ^ 970 \<le> \<bar>i\<bar> then Inl (''OverflowError'', ''int too large to convert to float'') else Inr (Some (i \<le> 0)))"
| "float_le0 (PBool b) = Inr (Some (\<not> b))"
| "float_le0 (PFloat r) = Inr (Some (case decimal_of r of Some (m, _) \<Rightarrow> m \<le> 0 | None \<Rightarrow> r = ''-inf''))"
| "float_le0 (PStr s) = Inr (float_text_le0 s)"
| "float_le0 _ = Inr None"

section \<open>The quality check\<close>

definition no_attribute :: "pyval \<Rightarrow> str \<Rightarrow> raised" where
  "no_attribute v name = (''AttributeError'', repr_str (py_type_name v) @ '' object has no attribute '' @ repr_str name)"

definition unhashable :: "pyval \<Rightarrow> raised" where
  "unhashable v = (''TypeError'', ''unhashable type: '' @ repr_str (py_type_name v))"

text \<open>\<open>row.get(field)\<close>: the keys of a row are text.\<close>

definition row_get :: "pyval \<Rightarrow> pyval \<Rightarrow> raised + pyval" where
  "row_get row field =
     (case row of
        PDict d \<Rightarrow> (case field of PStr f \<Rightarrow> Inr (dget d f) | _ \<Rightarrow> if hashable field then Inr PNone else Inl (unhashable field))
      | _ \<Rightarrow> Inl (no_attribute row ''get''))"

definition is_null :: "pyval \<Rightarrow> bool" where
  "is_null v \<longleftrightarrow> v = PNone \<or> v = PStr []"

text \<open>\<open>re.match(r"\d{4}-\d{2}", val)\<close>.\<close>

definition date_like :: "str \<Rightarrow> bool" where
  "date_like s \<longleftrightarrow>
     7 \<le> length s \<and> list_all digit_char (take 4 s) \<and> s ! 4 = CHR ''-'' \<and> list_all digit_char (take 2 (drop 5 s))"

definition type_ok :: "pyval \<Rightarrow> pyval \<Rightarrow> bool" where
  "type_ok expected v =
     (if expected = PStr ''string'' then (case v of PStr _ \<Rightarrow> True | _ \<Rightarrow> False)
      else if expected = PStr ''number'' then (case v of PInt _ \<Rightarrow> True | PFloat _ \<Rightarrow> True | _ \<Rightarrow> False)
      else if expected = PStr ''boolean'' then (case v of PBool _ \<Rightarrow> True | _ \<Rightarrow> False)
      else if expected = PStr ''date'' then (case v of PStr s \<Rightarrow> date_like s | _ \<Rightarrow> False)
      else True)"

text \<open>A counter of failing rows with its samples: \<open>n += 1; if len(samples) < 3: samples.append(v)\<close>.\<close>

type_synonym tally = "nat \<times> pyval list"

definition count_row :: "pyval \<Rightarrow> tally \<Rightarrow> tally" where
  "count_row v t = (fst t + 1, if length (snd t) < 3 then snd t @ [v] else snd t)"

definition issue :: "pyval \<Rightarrow> pyval \<Rightarrow> tally \<Rightarrow> pyval list" where
  "issue field rule t =
     (if 0 < fst t then [PDict [(''field'', field), (''rule'', rule), (''failing_rows'', PInt (int (fst t))), (''sample_values'', PList (snd t))]]
      else [])"

fun scan_field :: "pyval \<Rightarrow> pyval \<Rightarrow> pyval list \<Rightarrow> tally \<times> tally \<Rightarrow> raised + tally \<times> tally" where
  "scan_field field expected [] acc = Inr acc"
| "scan_field field expected (row # rows) (nulls, wrong) =
     bindE (row_get row field) (\<lambda>val.
     scan_field field expected rows
       (if is_null val then (count_row PNone nulls, wrong)
        else if type_ok expected val then (nulls, wrong) else (nulls, count_row val wrong)))"

definition check_field :: "pyval list \<Rightarrow> str \<times> pyval \<Rightarrow> raised + pyval list" where
  "check_field rows e =
     bindE (scan_field (PStr (fst e)) (snd e) rows ((0, []), (0, []))) (\<lambda>(nulls, wrong).
     Inr (issue (PStr (fst e)) (PStr ''null_check'') nulls @
          issue (PStr (fst e)) (PStr (''type_check_expected_'' @ py_str (snd e))) wrong))"

text \<open>The rules \<open>not_null\<close>, \<open>positive\<close> and \<open>not_empty\<close> fail row by row; \<open>unique\<close> collects the values seen and the repeated ones.\<close>

definition fails_rule :: "str \<Rightarrow> pyval \<Rightarrow> raised + bool" where
  "fails_rule rule val =
     (if rule = ''not_null'' then Inr (val = PNone)
      else if rule = ''positive'' then bindE (float_le0 val) (\<lambda>le0. Inr (le0 \<noteq> Some False))
      else Inr (val = PNone \<or> strip (py_str val) = []))"

fun scan_rule :: "str \<Rightarrow> pyval \<Rightarrow> pyval list \<Rightarrow> tally \<Rightarrow> raised + tally" where
  "scan_rule rule field [] t = Inr t"
| "scan_rule rule field (row # rows) t =
     bindE (row_get row field) (\<lambda>val.
     bindE (fails_rule rule val) (\<lambda>bad.
     scan_rule rule field rows (if bad then count_row val t else t)))"

definition add_value :: "pyval list \<Rightarrow> pyval \<Rightarrow> pyval list" where
  "add_value vs v = (if list_ex (py_eq v) vs then vs else vs @ [v])"

fun scan_unique :: "pyval \<Rightarrow> pyval list \<Rightarrow> pyval list \<times> pyval list \<Rightarrow> raised + pyval list" where
  "scan_unique field [] (seen, dupes) = Inr dupes"
| "scan_unique field (row # rows) (seen, dupes) =
     bindE (row_get row field) (\<lambda>val.
     guardE (hashable val) (unhashable val)
       (scan_unique field rows (add_value seen val, if list_ex (py_eq val) seen then add_value dupes val else dupes)))"

definition check_rule :: "(pyval list \<Rightarrow> pyval list) \<Rightarrow> pyval list \<Rightarrow> pyval \<Rightarrow> raised + pyval list" where
  "check_rule order rows rule_def =
     (case rule_def of
        PDict d \<Rightarrow>
          let field = dget_default d ''field'' (PStr []); rule = dget_default d ''rule'' (PStr []) in
          bindE (case rule of
               PStr r \<Rightarrow>
                 if r = ''unique'' then
                   bindE (scan_unique field rows ([], [])) (\<lambda>dupes. Inr (length dupes, take 3 (order dupes)))
                 else if r \<in> set [''not_null'', ''positive'', ''not_empty''] then scan_rule r field rows (0, [])
                 else Inr (0, [])
             | _ \<Rightarrow> Inr (0, [])) (\<lambda>t.
          Inr (issue field rule t))
      | _ \<Rightarrow> Inl (no_attribute rule_def ''get''))"

fun null_cells :: "str list \<Rightarrow> pyval list \<Rightarrow> raised + nat" where
  "null_cells fs [] = Inr 0"
| "null_cells fs (row # rows) =
     bindE (mapE (\<lambda>f. row_get row (PStr f)) fs) (\<lambda>vs.
     bindE (null_cells fs rows) (\<lambda>n. Inr (length (filter is_null vs) + n)))"

text \<open>Doubles below \<open>2^53\<close> are fractions of a power of two: the nearest double to \<open>p / q\<close>, ties to even. The score is
  \<open>round((total - nulls) / total * 100.0, 4)\<close>, in ten-thousandths.\<close>

function bit_length :: "int \<Rightarrow> nat" where
  "bit_length n = (if n \<le> 0 then 0 else Suc (bit_length (n div 2)))"
  by pat_completeness auto
termination by (relation "measure nat") auto

declare bit_length.simps [simp del]

definition to_double :: "int \<Rightarrow> int \<Rightarrow> int \<times> nat" where
  "to_double p q =
     (if p = 0 then (0, 0)
      else let k0 = 52 + bit_length q - bit_length p; k = (if p * 2 ^ k0 div q < 2 ^ 52 then k0 + 1 else k0) in
        (round_half_even (p * 2 ^ k) q, k))"

definition completeness_score :: "nat \<Rightarrow> nat \<Rightarrow> int" where
  "completeness_score cells nulls =
     (case to_double (int (cells - nulls)) (int cells) of (m, k) \<Rightarrow>
      case to_double (m * 100) (2 ^ k) of (m', k') \<Rightarrow> round_half_even (m' * 10000) (2 ^ k'))"

text \<open>The \<open>repr\<close> of a float with at most four decimals.\<close>

definition show_decimal4 :: "int \<Rightarrow> str" where
  "show_decimal4 n =
     (let frac = n mod 10000; ds = replicate (4 - length (show_int frac)) (CHR ''0'') @ show_int frac;
          kept = rev (dropWhile (\<lambda>c. c = CHR ''0'') (rev ds)) in
      show_int (n div 10000) @ ''.'' @ (if kept = [] then ''0'' else kept))"

definition completeness :: "str list \<Rightarrow> pyval list \<Rightarrow> raised + str" where
  "completeness fs rows =
     (if fs = [] then Inr ''100.0''
      else bindE (null_cells fs rows) (\<lambda>n. Inr (show_decimal4 (completeness_score (length rows * length fs) n))))"

definition all_fields :: "pyval list \<Rightarrow> dict \<Rightarrow> raised + str list" where
  "all_fields rows sch =
     (if sch \<noteq> [] then Inr (map fst sch)
      else case rows of
        PDict d # _ \<Rightarrow> Inr (map fst d)
      | row # _ \<Rightarrow> Inl (no_attribute row ''keys'')
      | [] \<Rightarrow> Inr [])"

definition quality_report :: "(pyval list \<Rightarrow> pyval list) \<Rightarrow> pyval list \<Rightarrow> dict \<Rightarrow> pyval list \<Rightarrow> raised + dict" where
  "quality_report order rows sch rules =
     bindE (mapE (check_field rows) sch) (\<lambda>by_field.
     bindE (mapE (check_rule order rows) rules) (\<lambda>by_rule.
     bindE (all_fields rows sch) (\<lambda>fs.
     bindE (completeness fs rows) (\<lambda>score.
     let issues = concat by_field @ concat by_rule in
     Inr [(''ok'', PBool True),
          (''summary'', PDict [(''row_count'', PInt (int (length rows))), (''field_count'', PInt (int (length fs))),
             (''completeness_score_pct'', PFloat score), (''total_issues'', PInt (int (length issues)))]),
          (''issues'', PList issues), (''passed'', PBool (issues = []))]))))"

definition data_quality_check :: "(pyval list \<Rightarrow> pyval list) \<Rightarrow> pyval list option \<Rightarrow> dict option \<Rightarrow> pyval list option \<Rightarrow> dict" where
  "data_quality_check order data sch rules =
     (let rows = (case data of Some l \<Rightarrow> l | None \<Rightarrow> []) in
      if rows = [] then
        [(''ok'', PBool False), (''error'', PStr ''no_data''), (''hint'', PStr ''Pass data=[list of row dicts] to check'')]
      else case quality_report order rows (dict_or_empty sch) (case rules of Some l \<Rightarrow> l | None \<Rightarrow> []) of
        Inl e \<Rightarrow> raised_answer e
      | Inr d \<Rightarrow> d)"

section \<open>What the check reports\<close>

definition cell :: "pyval \<Rightarrow> pyval \<Rightarrow> pyval" where
  "cell field row = (case row of PDict d \<Rightarrow> (case field of PStr f \<Rightarrow> dget d f | _ \<Rightarrow> PNone) | _ \<Rightarrow> PNone)"

definition tally_of :: "pyval list \<Rightarrow> tally" where
  "tally_of vs = (length vs, take 3 vs)"

lemma count_row_tally: "count_row v (tally_of vs) = tally_of (vs @ [v])"
  by (simp add: count_row_def tally_of_def)

lemma tally_of_start: "(0, []) = tally_of []"
  by (simp add: tally_of_def)

lemma issue_tally: "issue field rule (tally_of vs) = [] \<longleftrightarrow> vs = []"
  by (simp add: issue_def tally_of_def)

lemma row_get_cell: "row_get row field = Inr v \<Longrightarrow> v = cell field row"
  by (auto simp: row_get_def cell_def split: pyval.splits if_splits)

text \<open>The loops with their counters, against filters of the column.\<close>

lemma scan_field_column:
  "scan_field field expected rows (tally_of ns, tally_of ws) = Inr acc \<Longrightarrow>
   acc = (tally_of (ns @ map (\<lambda>_. PNone) (filter is_null (map (cell field) rows))),
          tally_of (ws @ filter (\<lambda>v. \<not> is_null v \<and> \<not> type_ok expected v) (map (cell field) rows)))"
proof (induction rows arbitrary: ns ws)
  case (Cons row rows)
  then obtain v where v: "row_get row field = Inr v"
    and rest: "scan_field field expected rows
       (if is_null v then (count_row PNone (tally_of ns), tally_of ws)
        else if type_ok expected v then (tally_of ns, tally_of ws) else (tally_of ns, count_row v (tally_of ws))) = Inr acc"
    by (auto simp: bindE_Inr)
  have "v = cell field row" using v by (rule row_get_cell)
  with rest show ?case by (auto simp: count_row_tally split: if_splits dest!: Cons.IH)
qed simp

definition field_issues :: "pyval list \<Rightarrow> str \<times> pyval \<Rightarrow> pyval list" where
  "field_issues rows e =
     (let column = map (cell (PStr (fst e))) rows in
      issue (PStr (fst e)) (PStr ''null_check'') (tally_of (map (\<lambda>_. PNone) (filter is_null column))) @
      issue (PStr (fst e)) (PStr (''type_check_expected_'' @ py_str (snd e)))
        (tally_of (filter (\<lambda>v. \<not> is_null v \<and> \<not> type_ok (snd e) v) column)))"

lemma check_field_issues: "check_field rows e = Inr is \<Longrightarrow> is = field_issues rows e"
  by (auto simp: check_field_def bindE_Inr tally_of_start field_issues_def Let_def dest!: scan_field_column)

lemma scan_rule_column:
  "scan_rule rule field rows (tally_of bs) = Inr t \<Longrightarrow>
   t = tally_of (bs @ filter (\<lambda>v. fails_rule rule v \<noteq> Inr False) (map (cell field) rows))"
proof (induction rows arbitrary: bs)
  case (Cons row rows)
  then obtain v bad where v: "row_get row field = Inr v" and bad: "fails_rule rule v = Inr bad"
    and rest: "scan_rule rule field rows (if bad then count_row v (tally_of bs) else tally_of bs) = Inr t"
    by (auto simp: bindE_Inr)
  have "v = cell field row" using v by (rule row_get_cell)
  with rest bad show ?case by (cases bad) (auto simp: count_row_tally dest!: Cons.IH)
qed simp

lemma add_value_nonempty: "ds \<noteq> [] \<Longrightarrow> add_value ds v \<noteq> []"
  by (simp add: add_value_def)

lemma add_value_new: "\<not> list_ex (py_eq v) ds \<Longrightarrow> add_value ds v = ds @ [v]"
  by (simp add: add_value_def)

lemma scan_unique_stays: "scan_unique field rows (seen, ds) = Inr dupes \<Longrightarrow> ds \<noteq> [] \<Longrightarrow> dupes \<noteq> []"
proof (induction rows arbitrary: seen ds)
  case (Cons row rows)
  then obtain v where "scan_unique field rows (add_value seen v, if list_ex (py_eq v) seen then add_value ds v else ds) = Inr dupes"
    by (auto simp: bindE_Inr guardE_Inr)
  moreover have "(if list_ex (py_eq v) seen then add_value ds v else ds) \<noteq> []" using Cons.prems by (simp add: add_value_nonempty)
  ultimately show ?case by (rule Cons.IH)
qed simp

lemma scan_unique_none:
  "scan_unique field rows (seen, []) = Inr dupes \<Longrightarrow>
   dupes = [] \<longleftrightarrow> (\<forall>v\<in>set (map (cell field) rows). \<forall>s\<in>set seen. \<not> py_eq v s) \<and> sorted_wrt (\<lambda>u v. \<not> py_eq v u) (map (cell field) rows)"
proof (induction rows arbitrary: seen)
  case (Cons row rows)
  let ?v = "cell field row"
  from Cons.prems have rest: "scan_unique field rows (add_value seen ?v, if list_ex (py_eq ?v) seen then add_value [] ?v else []) = Inr dupes"
    by (auto simp: bindE_Inr guardE_Inr dest: row_get_cell)
  show ?case
  proof (cases "list_ex (py_eq ?v) seen")
    case True
    with rest have "dupes \<noteq> []" using scan_unique_stays add_value_def by fastforce
    with True show ?thesis by (auto simp: list_ex_iff)
  next
    case False
    with rest have "scan_unique field rows (seen @ [?v], []) = Inr dupes" by (simp add: add_value_new)
    from Cons.IH [OF this] False show ?thesis by (auto simp: list_ex_iff)
  qed
qed simp

definition field_clean :: "pyval list \<Rightarrow> str \<times> pyval \<Rightarrow> bool" where
  "field_clean rows e \<longleftrightarrow>
     (\<forall>v\<in>set (map (cell (PStr (fst e))) rows). \<not> is_null v \<and> type_ok (snd e) v)"

lemma field_issues_clean: "field_issues rows e = [] \<longleftrightarrow> field_clean rows e"
  by (auto simp: field_issues_def field_clean_def Let_def issue_tally filter_empty_conv)

definition column_obeys :: "pyval \<Rightarrow> pyval list \<Rightarrow> bool" where
  "column_obeys rule vals \<longleftrightarrow>
     (if rule = PStr ''unique'' then sorted_wrt (\<lambda>u v. \<not> py_eq v u) vals
      else if rule \<in> PStr ` {''not_null'', ''positive'', ''not_empty''} then (\<forall>v\<in>set vals. fails_rule (py_str rule) v = Inr False)
      else True)"

definition rule_holds :: "pyval list \<Rightarrow> pyval \<Rightarrow> bool" where
  "rule_holds rows rule_def \<longleftrightarrow>
     (case rule_def of
        PDict d \<Rightarrow> column_obeys (dget_default d ''rule'' (PStr [])) (map (cell (dget_default d ''field'' (PStr []))) rows)
      | _ \<Rightarrow> False)"

lemma check_rule_holds:
  assumes "check_rule order rows rule_def = Inr is"
  shows "is = [] \<longleftrightarrow> rule_holds rows rule_def"
proof -
  from assms obtain d where d: "rule_def = PDict d" by (cases rule_def) (auto simp: check_rule_def)
  let ?field = "dget_default d ''field'' (PStr [])" and ?rule = "dget_default d ''rule'' (PStr [])"
  consider "?rule = PStr ''unique''" | r where "?rule = PStr r" "r \<in> {''not_null'', ''positive'', ''not_empty''}"
    | "?rule \<noteq> PStr ''unique''" "?rule \<notin> PStr ` {''not_null'', ''positive'', ''not_empty''}" by auto
  then show ?thesis
  proof cases
    case 1
    with assms d obtain dupes where "scan_unique ?field rows ([], []) = Inr dupes" "is = issue ?field ?rule (length dupes, take 3 (order dupes))"
      by (auto simp: check_rule_def Let_def bindE_Inr)
    with scan_unique_none [of ?field rows "[]" dupes] 1 d show ?thesis by (simp add: issue_def rule_holds_def column_obeys_def)
  next
    case (2 r)
    with assms d obtain t where "scan_rule r ?field rows (tally_of []) = Inr t" "is = issue ?field ?rule t"
      by (auto simp: check_rule_def Let_def bindE_Inr tally_of_start)
    with scan_rule_column [of r ?field rows "[]" t] 2 d show ?thesis
      by (auto simp: issue_tally rule_holds_def column_obeys_def filter_empty_conv)
  next
    case 3
    with assms d have "is = []"
      by (auto simp: check_rule_def Let_def bindE_Inr issue_def split: pyval.splits if_splits)
    with 3 d show ?thesis by (auto simp: rule_holds_def column_obeys_def)
  qed
qed

lemma mapE_concat:
  "mapE f xs = Inr ys \<Longrightarrow> (\<forall>x\<in>set xs. \<forall>y. f x = Inr y \<longrightarrow> (y = [] \<longleftrightarrow> P x)) \<Longrightarrow> concat ys = [] \<longleftrightarrow> (\<forall>x\<in>set xs. P x)"
  by (induction xs arbitrary: ys) (auto simp: bindE_Inr)

lemma mapE_map: "mapE f xs = Inr ys \<Longrightarrow> (\<And>x y. x \<in> set xs \<Longrightarrow> f x = Inr y \<Longrightarrow> y = g x) \<Longrightarrow> ys = map g xs"
  by (induction xs arbitrary: ys) (auto simp: bindE_Inr)

lemma null_cells_clean:
  "null_cells fs rows = Inr n \<Longrightarrow> (\<And>f v. f \<in> set fs \<Longrightarrow> v \<in> set (map (cell (PStr f)) rows) \<Longrightarrow> \<not> is_null v) \<Longrightarrow> n = 0"
proof (induction rows arbitrary: n)
  case (Cons row rows)
  then obtain vs m where vs: "mapE (\<lambda>f. row_get row (PStr f)) fs = Inr vs" and m: "null_cells fs rows = Inr m" "n = length (filter is_null vs) + m"
    by (auto simp: bindE_Inr)
  have "vs = map (\<lambda>f. cell (PStr f) row) fs" by (rule mapE_map [OF vs]) (rule row_get_cell)
  with Cons.prems(2) have "filter is_null vs = []" by (auto simp: filter_empty_conv)
  moreover have "m = 0" using Cons.IH [OF m(1)] Cons.prems(2) by auto
  ultimately show ?case using m(2) by simp
qed simp

lemma bit_length_pow: "bit_length (2 ^ k) = Suc k"
  by (induction k) (simp_all add: bit_length.simps)

lemma to_double_self: "0 < p \<Longrightarrow> to_double p p = (2 ^ 52, 52)"
  using round_half_even_exact [of p "2 ^ 52"] by (simp add: to_double_def Let_def mult.commute)

lemma full_score: "0 < n \<Longrightarrow> completeness_score n 0 = 1000000"
proof -
  assume "0 < n"
  then have "to_double (int (n - 0)) (int n) = (2 ^ 52, 52)" by (simp add: to_double_self)
  moreover have "(case to_double (2 ^ 52 * 100) (2 ^ 52) of (m', k') \<Rightarrow> round_half_even (m' * 10000) (2 ^ k')) = 1000000"
    by code_simp
  ultimately show ?thesis by (simp add: completeness_score_def)
qed

text \<open>C29. The quality check agrees with its declaration on the columns of the data: the check passes exactly when every field of the schema has, in every row, a
  value that is neither missing nor empty and has the declared type, and every rule holds of its column; for each field the report counts the null and the
  mistyped cells and samples the first three. A data set without a null cell in the fields of the schema scores 100.0.\<close>

theorem quality_check_agrees:
  assumes "data_quality_check order (Some rows) (Some sch) (Some rules) = report" and "dget report ''ok'' = PBool True"
  shows "dget report ''passed'' = PBool ((\<forall>e\<in>set sch. field_clean rows e) \<and> (\<forall>rule\<in>set rules. rule_holds rows rule)) \<and>
    (\<exists>by_rule. dget report ''issues'' = PList (concat (map (field_issues rows) sch) @ by_rule)) \<and>
    (\<exists>summary. dget report ''summary'' = PDict summary \<and> dget summary ''row_count'' = PInt (int (length rows)) \<and>
      ((\<forall>e\<in>set sch. \<forall>v\<in>set (map (cell (PStr (fst e))) rows). \<not> is_null v) \<longrightarrow> sch \<noteq> [] \<longrightarrow>
        dget summary ''completeness_score_pct'' = PFloat ''100.0''))"
proof -
  have rows: "rows \<noteq> []" using assms by (auto simp: data_quality_check_def dget_def)
  from assms rows have "quality_report order rows sch rules = Inr report"
    by (auto simp: data_quality_check_def dict_or_empty_def raised_answer_def dget_def split: sum.splits)
  then obtain by_field by_rule fs score where fields: "mapE (check_field rows) sch = Inr by_field"
    and by_rule: "mapE (check_rule order rows) rules = Inr by_rule"
    and fs: "all_fields rows sch = Inr fs" "completeness fs rows = Inr score"
    and report: "report =
         [(''ok'', PBool True),
          (''summary'', PDict [(''row_count'', PInt (int (length rows))), (''field_count'', PInt (int (length fs))),
             (''completeness_score_pct'', PFloat score), (''total_issues'', PInt (int (length (concat by_field @ concat by_rule))))]),
          (''issues'', PList (concat by_field @ concat by_rule)), (''passed'', PBool (concat by_field @ concat by_rule = []))]"
    by (auto simp: quality_report_def bindE_Inr Let_def)
  have issues: "by_field = map (field_issues rows) sch" by (rule mapE_map [OF fields]) (rule check_field_issues)
  have "concat by_field = [] \<longleftrightarrow> (\<forall>e\<in>set sch. field_clean rows e)"
    by (rule mapE_concat [OF fields]) (auto simp: field_issues_clean dest!: check_field_issues)
  moreover have "concat by_rule = [] \<longleftrightarrow> (\<forall>rule\<in>set rules. rule_holds rows rule)"
    by (rule mapE_concat [OF by_rule]) (auto simp: check_rule_holds)
  moreover have "score = ''100.0''" if clean: "\<forall>e\<in>set sch. \<forall>v\<in>set (map (cell (PStr (fst e))) rows). \<not> is_null v" and "sch \<noteq> []"
  proof -
    have f: "fs = map fst sch" using fs(1) that(2) by (simp add: all_fields_def)
    with fs(2) that(2) obtain n where n: "null_cells fs rows = Inr n" "score = show_decimal4 (completeness_score (length rows * length fs) n)"
      by (auto simp: completeness_def bindE_Inr)
    have "n = 0" by (rule null_cells_clean [OF n(1)]) (use clean f in auto)
    moreover have "0 < length rows * length fs" using rows f that(2) by simp
    moreover have "show_decimal4 1000000 = ''100.0''" by code_simp
    ultimately show ?thesis by (simp add: n(2) full_score)
  qed
  ultimately show ?thesis by (auto simp: report issues dget_def)
qed

theorem quality_check_agrees_witness:
  "rule_holds [PDict [(''a'', PInt 1)], PDict [(''a'', PInt 2)]] (PDict [(''field'', PStr ''a''), (''rule'', PStr ''unique'')])"
proof -
  let ?rows = "[PDict [(''a'', PInt 1)], PDict [(''a'', PInt 2)]]" and ?rules = "[PDict [(''field'', PStr ''a''), (''rule'', PStr ''unique'')]]"
  let ?report = "data_quality_check id (Some ?rows) (Some [(''a'', PStr ''number'')]) (Some ?rules)"
  have "dget ?report ''ok'' = PBool True" "dget ?report ''passed'' = PBool True" by code_simp+
  with quality_check_agrees [OF refl this(1)] show ?thesis by simp
qed

text \<open>A rule the check does not know, a misspelled one for instance, holds of everything, and a text that is no number is positive when it says so.\<close>

lemma unknown_rule_passes:
  "dget (data_quality_check id (Some [PDict []]) None (Some [PDict [(''field'', PStr ''a''), (''rule'', PStr ''notnull'')]])) ''passed'' = PBool True"
  "dget (data_quality_check id (Some [PDict [(''a'', PStr ''nan'')]]) None (Some [PDict [(''field'', PStr ''a''), (''rule'', PStr ''positive'')]]))
     ''passed'' = PBool True"
  by code_simp+

section \<open>Context, connection and resources\<close>

definition answered_or_raised :: "str \<Rightarrow> str \<Rightarrow> py_exc + dict \<Rightarrow> py_exc + dict" where
  "answered_or_raised rid tool m =
     (case m of Inr env \<Rightarrow> Inr env | Inl _ \<Rightarrow> from_exception rid tool ''ValueError'' ''upstream_timeout'' None None (Some 2000))"

definition getenv_val :: "env \<Rightarrow> str \<Rightarrow> pyval" where
  "getenv_val e name = (case e name of Some s \<Rightarrow> PStr s | None \<Rightarrow> PNone)"

definition editor_context :: "env \<Rightarrow> pyval \<Rightarrow> dict \<Rightarrow> dict" where
  "editor_context e include_content kw =
     (let active_file = getenv_val e ''ACTIVE_EDITOR_FILE''; active_uri = getenv_val e ''ACTIVE_RESOURCE_URI'' in
      [(''active_file'', py_or active_file PNone), (''active_resource_uri'', py_or active_uri PNone),
       (''selection'', py_or (dget kw ''selection'') PNone),
       (''focused_tab_type'', PStr (if truthy active_uri then ''resource_webview'' else if truthy active_file then ''code_editor'' else ''none''))] @
      (case map_of kw ''content'' of Some c \<Rightarrow> if truthy include_content then [(''content'', c)] else [] | None \<Rightarrow> []))"

definition data_get_editor_context :: "(str \<Rightarrow> str) \<Rightarrow> str \<Rightarrow> str \<Rightarrow> env \<Rightarrow> pyval \<Rightarrow> dict \<Rightarrow> py_exc + dict" where
  "data_get_editor_context sha256 rid now e include_content kw =
     (let context = PDict (editor_context e include_content kw) in
      answered_or_raised rid ''data_get_editor_context''
        (success rid ''data_get_editor_context'' ''READ_ONLY'' (PDict [(''context'', context)])
           (PDict [(''read_timestamp'', PStr now), (''context_hash'', PStr (sha256_hex sha256 context)),
                   (''source'', PStr ''data_agent_kit_environment'')]) None False))"

definition gcp_connection :: "env \<Rightarrow> pyval \<Rightarrow> dict" where
  "gcp_connection e active_project =
     [(''project_id'', active_project), (''connected'', PBool True),
      (''auth_type'', PStr (if truthy (getenv_val e ''GOOGLE_APPLICATION_CREDENTIALS'') then ''application_default_credentials'' else ''environment_project'')),
      (''supported_services'', PList [PStr ''bigquery'', PStr ''storage'', PStr ''dataproc'', PStr ''cloudsql''])]"

definition data_get_gcp_connection :: "(str \<Rightarrow> str) \<Rightarrow> str \<Rightarrow> str \<Rightarrow> env \<Rightarrow> pyval \<Rightarrow> py_exc + dict" where
  "data_get_gcp_connection sha256 rid now e project_id =
     (let active_project = py_or (py_or (py_or project_id (getenv_val e ''GOOGLE_CLOUD_PROJECT'')) (getenv_val e ''GCP_PROJECT''))
            (getenv_val e ''GCLOUD_PROJECT'') in
      answered_or_raised rid ''data_get_gcp_connection''
        (if \<not> truthy active_project then
           provider_unconfigured rid ''data_get_gcp_connection'' [''GOOGLE_CLOUD_PROJECT'']
             ''No active GCP project configured. Set GOOGLE_CLOUD_PROJECT or provide project_id.'' None
         else let connection = PDict (gcp_connection e active_project) in
           success rid ''data_get_gcp_connection'' ''READ_ONLY'' (PDict [(''connection'', connection)])
             (PDict [(''verified_at'', PStr now), (''project_id'', active_project), (''fingerprint'', PStr (sha256_hex sha256 connection))])
             None False))"

definition resource_template :: "str \<Rightarrow> str \<Rightarrow> str \<Rightarrow> pyval" where
  "resource_template uri name description =
     PDict [(''uri_template'', PStr uri), (''name'', PStr name), (''description'', PStr description)]"

definition RESOURCE_TEMPLATES :: "pyval list" where
  "RESOURCE_TEMPLATES =
     [resource_template ''bq://{project}/{dataset}/{table}'' ''BigQuery Table / View'' ''BigQuery table or view schema and metadata.'',
      resource_template ''gcs://{bucket}/{path}'' ''Google Cloud Storage Object'' ''GCS bucket or object path (Parquet, CSV, JSON).'',
      resource_template ''spark://clusters/{clusterName}/jobs/{jobId}'' ''Dataproc Spark Job'' ''Dataproc Spark job status and configuration.'',
      resource_template ''spark://serverless/batches/{batchId}'' ''Dataproc Serverless Batch'' ''Dataproc Serverless batch workload state.'',
      resource_template ''lakehouse://{project}/{location}/{catalog}/{database}/{table}'' ''BigLake / Iceberg Lakehouse Table''
        ''Iceberg / BigLake metastore table metadata.'']"

definition data_list_resource_templates :: "(str \<Rightarrow> str) \<Rightarrow> str \<Rightarrow> py_exc + dict" where
  "data_list_resource_templates sha256 rid =
     answered_or_raised rid ''data_list_resource_templates''
       (success rid ''data_list_resource_templates'' ''READ_ONLY'' (PDict [(''resource_templates'', PList RESOURCE_TEMPLATES)])
          (PDict [(''template_count'', PInt (int (length RESOURCE_TEMPLATES))), (''catalog_version'', PStr ''1.0.0''),
                  (''catalog_digest'', PStr (sha256_hex sha256 (PList RESOURCE_TEMPLATES)))]) None False)"

definition RESOURCE_SCHEMES :: "str list" where
  [table_defs]: "RESOURCE_SCHEMES = [''bq'', ''gcs'', ''gs'', ''spark'', ''lakehouse'', ''spanner'', ''alloydb'', ''cloudsql'']"

text \<open>\<open>uri.split("://")[0] if "://" in uri else ""\<close>.\<close>

fun before_mark :: "str \<Rightarrow> str option" where
  "before_mark [] = None"
| "before_mark (c # cs) = (if startswith (c # cs) ''://'' then Some [] else map_option ((#) c) (before_mark cs))"

definition uri_scheme :: "str \<Rightarrow> str" where
  "uri_scheme uri = (case before_mark uri of Some s \<Rightarrow> s | None \<Rightarrow> [])"

definition resource_data :: "str \<Rightarrow> dict" where
  "resource_data uri =
     [(''uri'', PStr uri), (''scheme'', PStr (uri_scheme uri)), (''status'', PStr ''available''),
      (''resource_type'', PStr (uri_scheme uri @ ''_resource''))]"

definition data_read_resource :: "(str \<Rightarrow> str) \<Rightarrow> str \<Rightarrow> str \<Rightarrow> pyval \<Rightarrow> py_exc + dict" where
  "data_read_resource sha256 rid now uri =
     answered_or_raised rid ''data_read_resource''
       (case uri of
          PStr u \<Rightarrow>
            if u = [] then
              validation_failed rid ''data_read_resource'' [violation ''uri'' ''required_non_empty_string'' ''str'']
                ''Resource URI must be a valid non-empty string.''
            else if uri_scheme u \<notin> set RESOURCE_SCHEMES then
              validation_failed rid ''data_read_resource''
                [violation ''uri'' ''supported_scheme (bq, gcs, gs, spark, lakehouse, spanner, alloydb, cloudsql)''
                   (if uri_scheme u = [] then ''unknown'' else uri_scheme u)]
                (''Unsupported resource URI scheme: '' @ repr_str (uri_scheme u))
            else
              success rid ''data_read_resource'' ''READ_ONLY'' (PDict [(''resource'', PDict (resource_data u))])
                (PDict [(''read_timestamp'', PStr now), (''uri'', PStr u), (''resource_digest'', PStr (sha256_hex sha256 (PDict (resource_data u))))])
                None False
        | _ \<Rightarrow>
            validation_failed rid ''data_read_resource'' [violation ''uri'' ''required_non_empty_string'' (py_type_name uri)]
              ''Resource URI must be a valid non-empty string.'')"

lemma before_mark_append: "CHR '':'' \<notin> set s \<Longrightarrow> before_mark (s @ '':'' @ r) = map_option ((@) s) (before_mark ('':'' @ r))"
  by (induction s) (auto simp: startswith_def option.map_comp comp_def option.map_ident)

lemma before_mark_Some: "before_mark u = Some s \<Longrightarrow> \<exists>r. u = s @ ''://'' @ r"
proof (induction u arbitrary: s)
  case (Cons c cs)
  show ?case
  proof (cases "startswith (c # cs) ''://''")
    case True
    then have "c # cs = ''://'' @ drop 3 (c # cs)" by (metis append_take_drop_id startswith_def length_Cons list.size(3) numeral_3_eq_3)
    with True Cons.prems show ?thesis by (metis append_Nil before_mark.simps(2) option.inject)
  next
    case False
    with Cons.prems obtain s' where "before_mark cs = Some s'" "s = c # s'" by auto
    with Cons.IH [of s'] show ?thesis by auto
  qed
qed simp

lemma uri_scheme_iff: "uri_scheme u \<in> set RESOURCE_SCHEMES \<longleftrightarrow> (\<exists>s r. s \<in> set RESOURCE_SCHEMES \<and> u = s @ ''://'' @ r)"
proof
  assume sch: "uri_scheme u \<in> set RESOURCE_SCHEMES"
  then have "uri_scheme u \<noteq> []" by (auto simp: table_defs)
  then obtain s where "before_mark u = Some s" by (auto simp: uri_scheme_def split: option.splits)
  with before_mark_Some [OF this] sch show "\<exists>s r. s \<in> set RESOURCE_SCHEMES \<and> u = s @ ''://'' @ r" by (auto simp: uri_scheme_def)
next
  assume "\<exists>s r. s \<in> set RESOURCE_SCHEMES \<and> u = s @ ''://'' @ r"
  then obtain s r where u: "s \<in> set RESOURCE_SCHEMES" "u = s @ '':'' @ ''//'' @ r" by auto
  then have "CHR '':'' \<notin> set s" by (auto simp: table_defs)
  from before_mark_append [OF this, of "''//'' @ r"] have "before_mark u = Some s" unfolding u(2) by (simp add: startswith_def)
  with u(1) show "uri_scheme u \<in> set RESOURCE_SCHEMES" by (simp add: uri_scheme_def)
qed

lemma violation_answer:
  "\<exists>env. validation_failed rid tool vs msg = Inr env \<and> truthful env \<and> dget env ''ok'' = PBool False \<and>
     (\<exists>err. dget env ''error'' = PDict err \<and> dget err ''code'' = PStr ''validation_failed'')"
proof -
  obtain env where env: "validation_failed rid tool vs msg = Inr env"
    by (simp add: validation_failed_def failure_def RETRYABLE_BY_CODE_def Let_def)
  then have "failure rid tool ''validation_failed'' msg (Some [(''violations'', PList vs)]) None = Inr env" by (simp add: validation_failed_def)
  with failure_truthful [OF this] env show ?thesis
    by (auto simp: failure_Inr dget_def map_of_strip_dict strip_banned_PDict BANNED_RESPONSE_KEYS_def simp del: strip_banned.simps(1))
qed

lemma read_only_answer:
  assumes "ev \<noteq> []"
  shows "\<exists>env. success rid tool ''READ_ONLY'' (PDict res) (PDict ev) None False = Inr env \<and> truthful env \<and> dget env ''ok'' = PBool True \<and>
     dget env ''result'' = strip_banned (PDict res)"
proof -
  obtain env where env: "success rid tool ''READ_ONLY'' (PDict res) (PDict ev) None False = Inr env"
    using assms by (simp add: success_def MODES_def as_dict_def)
  with success_truthful [OF this] assms show ?thesis
    by (auto simp: success_def MODES_def as_dict_def dget_def map_of_strip_dict strip_banned_PDict BANNED_RESPONSE_KEYS_def simp del: strip_banned.simps(1))
qed

lemma resource_data_kept: "strip_banned (PDict [(''resource'', PDict (resource_data u))]) = PDict [(''resource'', PDict (resource_data u))]"
  by (rule banned_free_strip) (simp add: resource_data_def BANNED_RESPONSE_KEYS_def)

text \<open>What \<open>data_read_resource\<close> reports: a URI with one of the eight schemes is available, with evidence, and every other argument violates the
  contract. No provider is asked, so the report does not depend on what is there; the envelope is truthful in its form all the same.\<close>

theorem resource_reported_available:
  "\<exists>env. data_read_resource sha256 rid now uri = Inr env \<and> truthful env \<and>
     (if \<exists>s r. s \<in> set RESOURCE_SCHEMES \<and> uri = PStr (s @ ''://'' @ r)
      then \<exists>u. uri = PStr u \<and> dget env ''ok'' = PBool True \<and> dget env ''result'' = PDict [(''resource'', PDict (resource_data u))]
      else dget env ''ok'' = PBool False \<and> (\<exists>err. dget env ''error'' = PDict err \<and> dget err ''code'' = PStr ''validation_failed''))"
proof (cases "\<exists>s r. s \<in> set RESOURCE_SCHEMES \<and> uri = PStr (s @ ''://'' @ r)")
  case True
  then obtain u where u: "uri = PStr u" "uri_scheme u \<in> set RESOURCE_SCHEMES" "u \<noteq> []" by (auto simp: uri_scheme_iff)
  have "[(''read_timestamp'', PStr now), (''uri'', PStr u), (''resource_digest'', PStr (sha256_hex sha256 (PDict (resource_data u))))] \<noteq> []" by simp
  from read_only_answer [OF this, of rid "''data_read_resource''" "[(''resource'', PDict (resource_data u))]", unfolded resource_data_kept]
  obtain env where env: "success rid ''data_read_resource'' ''READ_ONLY'' (PDict [(''resource'', PDict (resource_data u))])
      (PDict [(''read_timestamp'', PStr now), (''uri'', PStr u), (''resource_digest'', PStr (sha256_hex sha256 (PDict (resource_data u))))]) None False = Inr env"
    and kept: "truthful env" "dget env ''ok'' = PBool True" "dget env ''result'' = PDict [(''resource'', PDict (resource_data u))]" by blast
  have "data_read_resource sha256 rid now uri = Inr env" using u env by (simp add: data_read_resource_def answered_or_raised_def)
  then show ?thesis unfolding if_P [OF True] using u(1) kept by blast
next
  case False
  then have "uri_scheme u \<notin> set RESOURCE_SCHEMES" if "uri = PStr u" for u using that by (auto simp: uri_scheme_iff)
  then obtain vs msg where "data_read_resource sha256 rid now uri = answered_or_raised rid ''data_read_resource'' (validation_failed rid ''data_read_resource'' vs msg)"
    by (cases "uri = PStr []"; cases uri) (auto simp: data_read_resource_def)
  moreover obtain env where env: "validation_failed rid ''data_read_resource'' vs msg = Inr env" "truthful env" "dget env ''ok'' = PBool False"
      "\<exists>err. dget env ''error'' = PDict err \<and> dget err ''code'' = PStr ''validation_failed''"
    using violation_answer by blast
  ultimately have "data_read_resource sha256 rid now uri = Inr env" by (simp add: answered_or_raised_def)
  then show ?thesis unfolding if_not_P [OF False] using env(2-4) by blast
qed

theorem resource_reported_available_witness:
  "\<exists>env. data_read_resource (\<lambda>_. ''h'') ''r'' ''t'' (PStr ''bq://no/such/table'') = Inr env \<and> dget env ''ok'' = PBool True"
proof -
  have "\<exists>s r. s \<in> set RESOURCE_SCHEMES \<and> PStr ''bq://no/such/table'' = PStr (s @ ''://'' @ r)"
    by (intro exI [of _ "''bq''"] exI [of _ "''no/such/table''"]) (simp add: table_defs)
  from resource_reported_available [of "\<lambda>_. ''h''" "''r''" "''t''" "PStr ''bq://no/such/table''", unfolded if_P [OF this]] show ?thesis by blast
qed

text \<open>A connection is reported from an environment variable alone, and two of the scaffolds answer with a key the envelope bans.\<close>

lemma connection_unchecked:
  "truthy project \<Longrightarrow> \<exists>env. data_get_gcp_connection sha256 rid now e project = Inr env \<and> dget env ''ok'' = PBool True"
proof -
  assume "truthy project"
  then have project: "py_or (py_or (py_or project a) b) c = project" for a b c by (simp add: py_or_def)
  let ?connection = "PDict (gcp_connection e project)"
  let ?evidence = "[(''verified_at'', PStr now), (''project_id'', project), (''fingerprint'', PStr (sha256_hex sha256 ?connection))]"
  obtain env where "success rid ''data_get_gcp_connection'' ''READ_ONLY'' (PDict [(''connection'', ?connection)]) (PDict ?evidence) None False = Inr env"
    and "dget env ''ok'' = PBool True" by (rule success_read_only [of ?evidence]) simp_all
  then show ?thesis using \<open>truthy project\<close> by (simp add: data_get_gcp_connection_def project answered_or_raised_def Let_def)
qed

lemma scaffolds_untruthful: "\<not> truthful (data_s3_signed_url b k x)" "\<not> truthful (data_dbt_compile m r)"
  by (simp_all add: truthful_def data_s3_signed_url_def data_dbt_compile_def BANNED_RESPONSE_KEYS_def)

end
