(* ===== verification/Hr_Tools.thy ===== *)
theory Hr_Tools
  imports Data_Tools
begin

text \<open>
  The tools of the people agent, \<^verbatim>\<open>tools/hr_tool.py\<close>: three scaffolds and the document templates.

  The templates have neither doubled braces nor conversions, so a placeholder is what stands between a brace and the next closing one.
\<close>

section \<open>Scaffolds\<close>

definition OAUTH_NOTE :: str where
  "OAUTH_NOTE = ''Phase 9 OAuth integration pending''"

definition hr_scaffold :: "str \<Rightarrow> str \<Rightarrow> pyval \<Rightarrow> pyval \<Rightarrow> dict" where
  "hr_scaffold tool system query scope =
     [(''ok'', PBool False), (''scaffold'', PBool True), (''tool'', PStr tool), (''query'', query), (''scope'', scope),
      (''message'', PStr (OAUTH_NOTE @ '' with '' @ system))]"

definition hr_greenhouse_query :: "pyval \<Rightarrow> pyval \<Rightarrow> dict" where
  "hr_greenhouse_query = hr_scaffold ''hr_greenhouse_query'' ''Greenhouse''"

definition hr_lever_query :: "pyval \<Rightarrow> pyval \<Rightarrow> dict" where
  "hr_lever_query = hr_scaffold ''hr_lever_query'' ''Lever''"

definition hr_bamboohr_query :: "pyval \<Rightarrow> pyval \<Rightarrow> dict" where
  "hr_bamboohr_query = hr_scaffold ''hr_bamboohr_query'' ''BambooHR''"

section \<open>Templates\<close>

definition template_text :: "str list \<Rightarrow> str" where
  "template_text ls = concat (map (\<lambda>l. l @ [char_of (10::nat)]) ls)"

definition TEMPLATES :: "(str \<times> str) list" where
  "TEMPLATES =
   [(''offer_letter'', template_text
     [''# Offer Letter'',
      [],
      ''Dear {candidate_name},'',
      [],
      ''We are pleased to offer you the position of {role} at {company_name}, starting on {start_date}.'',
      [],
      ''## Compensation'',
      ''- Base salary: ${salary}'',
      ''- Equity: {equity}'',
      ''- Benefits: {benefits}'',
      [],
      ''## Reporting'',
      ''You will report to {manager_name}. Your primary work location will be {location}.'',
      [],
      ''## Acceptance'',
      ''Please sign below to accept this offer. This offer expires on {offer_expiry}.'',
      [],
      ''Sincerely,'',
      ''{signatory}'',
      ''{signatory_title}'']),
    (''policy_update'', template_text
     [''# Policy Update: {policy_name}'',
      [],
      ''Effective: {effective_date}'',
      [],
      ''## Summary'',
      ''{summary}'',
      [],
      ''## Details'',
      ''{details}'',
      [],
      ''## Action Required'',
      ''{action}'',
      [],
      ''## Questions'',
      ''Contact {contact_name} ({contact_email}) with any questions.'']),
    (''onboarding_checklist'', template_text
     [''# Onboarding Checklist: {employee_name}'',
      [],
      ''Start date: {start_date}'',
      ''Role: {role}'',
      ''Manager: {manager_name}'',
      [],
      ''## Day 1'',
      ''- [ ] Welcome email sent'',
      ''- [ ] Laptop and equipment delivered'',
      ''- [ ] Accounts provisioned (email, Slack, {tools})'',
      ''- [ ] Office tour / virtual intro'',
      ''- [ ] Buddy assigned: {buddy_name}'',
      [],
      ''## Week 1'',
      ''- [ ] HR paperwork completed'',
      ''- [ ] Benefits enrollment'',
      ''- [ ] Manager 1:1 scheduled'',
      ''- [ ] Team intro meeting'',
      ''- [ ] Read team docs / runbooks'',
      [],
      ''## Week 2-4'',
      ''- [ ] First project assigned'',
      ''- [ ] Training milestones: {training_milestones}'',
      ''- [ ] 30-day check-in scheduled'',
      [],
      ''## Day 90'',
      ''- [ ] 90-day review'',
      ''- [ ] Goals for next quarter set'']),
    (''termination_letter'', template_text
     [''# Termination Letter'',
      [],
      ''Date: {date}'',
      [],
      ''Dear {employee_name},'',
      [],
      ''This letter confirms the termination of your employment with {company_name}, effective {termination_date}.'',
      [],
      ''## Reason'',
      ''{reason}'',
      [],
      ''## Final Pay'',
      ''Your final paycheck will include:'',
      ''- Outstanding wages through {termination_date}'',
      ''- Accrued but unused PTO: {pto_balance}'',
      ''- {additional_pay}'',
      [],
      ''## Benefits'',
      ''{benefits_continuation}'',
      [],
      ''## Return of Property'',
      ''Please return all company property ({property_list}) by {return_date}.'',
      [],
      ''## Confidentiality'',
      ''You remain bound by the confidentiality and non-disclosure obligations in your employment agreement.'',
      [],
      ''If you have any questions, contact {hr_contact}.'',
      [],
      ''Sincerely,'',
      ''{signatory}'',
      ''{signatory_title}''])]"

lemma split_first_rest_shorter: "split_first d cs = (a, Some r) \<Longrightarrow> length r < length cs"
  by (induction cs arbitrary: a) (auto split: if_splits prod.splits)

text \<open>\<open>Formatter.parse\<close>: literal text, each piece followed by the name of a placeholder or by nothing. The templates have no doubled
  braces, conversions or format specifications, and those are left out.\<close>

function parse_format :: "str \<Rightarrow> str \<Rightarrow> raised + (str \<times> str option) list" where
  "parse_format acc [] = Inr (if acc = [] then [] else [(rev acc, None)])"
| "parse_format acc (c # cs) =
     (if c = CHR ''{'' then
        (case split_first (CHR ''}'') cs of
           (name, Some rest) \<Rightarrow> bindE (parse_format [] rest) (\<lambda>segs. Inr ((rev acc, Some name) # segs))
         | (_, None) \<Rightarrow> Inl (''ValueError'', ''expected '' @ repr_str ''}'' @ '' before end of string''))
      else if c = CHR ''}'' then Inl (''ValueError'', ''Single '' @ repr_str ''}'' @ '' encountered in format string'')
      else parse_format (c # acc) cs)"
  by pat_completeness auto
termination
  by (relation "measure (\<lambda>(acc, s). length s)") (auto simp: less_Suc_eq dest: split_first_rest_shorter [OF sym])

definition placeholder_names :: "(str \<times> str option) list \<Rightarrow> str list" where
  "placeholder_names segs = sort (remdups (List.map_filter (\<lambda>(_, f). case f of Some n \<Rightarrow> if n \<noteq> [] then Some n else None | None \<Rightarrow> None) segs))"

text \<open>\<open>template.format_map(_SafeDict(ctx))\<close>.\<close>

definition filled :: "dict \<Rightarrow> str \<Rightarrow> str" where
  "filled ctx name = (case map_of ctx name of Some v \<Rightarrow> py_str v | None \<Rightarrow> ''{'' @ name @ ''}'')"

definition render :: "dict \<Rightarrow> (str \<times> str option) list \<Rightarrow> str" where
  "render ctx segs = concat (map (\<lambda>(l, f). l @ (case f of Some n \<Rightarrow> filled ctx n | None \<Rightarrow> [])) segs)"

definition hr_template_generate :: "str \<Rightarrow> dict option \<Rightarrow> dict" where
  "hr_template_generate template_type context =
     (case map_of TEMPLATES template_type of
        None \<Rightarrow>
          [(''ok'', PBool False), (''error'', PStr ''unknown_template_type''), (''template_type'', PStr template_type),
           (''available'', PList (map (PStr \<circ> fst) TEMPLATES))]
      | Some template \<Rightarrow>
          let ctx = dict_or_empty context in
          (case parse_format [] template of
             Inl e \<Rightarrow> raised_answer e
           | Inr segs \<Rightarrow>
               let names = placeholder_names segs in
               [(''ok'', PBool True), (''template_type'', PStr template_type), (''rendered'', PStr (render ctx segs)),
                (''placeholders'', PList (map PStr names)),
                (''missing_placeholders'', PList (map PStr (filter (\<lambda>n. map_of ctx n = None) names))),
                (''notes'', PStr ''Fill in any remaining {placeholders} before sending.'')]))"

section \<open>Rendering\<close>

lemma split_first_parts: "split_first d s = (a, Some r) \<Longrightarrow> s = a @ d # r"
  by (induction s arbitrary: a) (auto split: if_splits prod.splits)

text \<open>Without values the template comes back.\<close>

lemma render_empty: "parse_format acc s = Inr segs \<Longrightarrow> render [] segs = rev acc @ s"
proof (induction acc s arbitrary: segs rule: parse_format.induct)
  case (2 acc c cs)
  show ?case
  proof (cases "c = CHR ''{''")
    case True
    with "2.prems" obtain name rest segs' where sp: "split_first (CHR ''}'') cs = (name, Some rest)"
      and rest: "parse_format [] rest = Inr segs'" and segs: "segs = (rev acc, Some name) # segs'"
      by (auto simp: bindE_Inr split: prod.splits option.splits)
    have "render [] segs' = rest" using "2.IH"(1) [OF True sp [symmetric] refl rest] by simp
    then show ?thesis using split_first_parts [OF sp] True by (simp add: segs render_def filled_def)
  next
    case False
    with "2.prems" have "c \<noteq> CHR ''}''" "parse_format (c # acc) cs = Inr segs" by (auto split: if_splits)
    with "2.IH"(2) [OF False] show ?thesis by simp
  qed
qed (auto simp: render_def split: if_splits)

lemma parse_literals: "parse_format acc s = Inr segs \<Longrightarrow> CHR ''{'' \<notin> set acc \<Longrightarrow> (l, f) \<in> set segs \<Longrightarrow> CHR ''{'' \<notin> set l"
proof (induction acc s arbitrary: segs rule: parse_format.induct)
  case (2 acc c cs)
  show ?case
  proof (cases "c = CHR ''{''")
    case True
    with "2.prems" obtain name rest segs' where sp: "split_first (CHR ''}'') cs = (name, Some rest)"
      and rest: "parse_format [] rest = Inr segs'" and segs: "segs = (rev acc, Some name) # segs'"
      by (auto simp: bindE_Inr split: prod.splits option.splits)
    with "2.IH"(1) [OF True sp [symmetric] refl rest] "2.prems" show ?thesis by auto
  next
    case False
    with "2.prems" have "c \<noteq> CHR ''}''" "parse_format (c # acc) cs = Inr segs" by (auto split: if_splits)
    with "2.IH"(2) [OF False] "2.prems" False show ?thesis by simp
  qed
qed (auto split: if_splits)

text \<open>The templates parse, and none has a placeholder without a name.\<close>

lemma templates_parse:
  "list_all (\<lambda>(_, t). case parse_format [] t of Inr segs \<Rightarrow> list_all (\<lambda>(_, f). f \<noteq> Some []) segs | Inl _ \<Rightarrow> False) TEMPLATES"
  by code_simp

lemma template_parses:
  assumes "map_of TEMPLATES t = Some template"
  obtains segs where "parse_format [] template = Inr segs" and "list_all (\<lambda>(_, f). f \<noteq> Some []) segs"
  using map_of_table_all [OF assms templates_parse] by (auto split: sum.splits)

lemma placeholder_names_set: "set (placeholder_names segs) = {n. \<exists>l. (l, Some n) \<in> set segs \<and> n \<noteq> []}"
  by (induction segs) (auto simp: placeholder_names_def map_filter_def split: option.splits if_splits)

text \<open>Without a context a document is its template; with one that leaves no placeholder missing and whose values contain no opening brace, no
  placeholder is left in it.\<close>

lemma hr_document_untouched:
  assumes "map_of TEMPLATES t = Some template"
  shows "dget (hr_template_generate t None) ''rendered'' = PStr template"
proof -
  obtain segs where "parse_format [] template = Inr segs" by (rule template_parses [OF assms])
  with render_empty [OF this] assms show ?thesis by (simp add: hr_template_generate_def dict_or_empty_def dget_def Let_def)
qed

lemma hr_document_complete:
  assumes "map_of TEMPLATES t = Some template" and "dget (hr_template_generate t (Some ctx)) ''missing_placeholders'' = PList []"
    and plain: "\<And>n v. map_of ctx n = Some v \<Longrightarrow> CHR ''{'' \<notin> set (py_str v)"
  shows "\<exists>doc. dget (hr_template_generate t (Some ctx)) ''rendered'' = PStr doc \<and> CHR ''{'' \<notin> set doc"
proof -
  obtain segs where segs: "parse_format [] template = Inr segs" "list_all (\<lambda>(_, f). f \<noteq> Some []) segs" by (rule template_parses [OF assms(1)])
  then have doc: "hr_template_generate t (Some ctx) =
      [(''ok'', PBool True), (''template_type'', PStr t), (''rendered'', PStr (render ctx segs)),
       (''placeholders'', PList (map PStr (placeholder_names segs))),
       (''missing_placeholders'', PList (map PStr (filter (\<lambda>n. map_of ctx n = None) (placeholder_names segs)))),
       (''notes'', PStr ''Fill in any remaining {placeholders} before sending.'')]"
    using assms(1) by (simp add: hr_template_generate_def dict_or_empty_def Let_def)
  with assms(2) have given: "map_of ctx n \<noteq> None" if "n \<in> set (placeholder_names segs)" for n
    using that by (auto simp: dget_def filter_empty_conv)
  have "CHR ''{'' \<notin> set (l @ (case f of Some n \<Rightarrow> filled ctx n | None \<Rightarrow> []))" if seg: "(l, f) \<in> set segs" for l f
  proof -
    have "CHR ''{'' \<notin> set l" using parse_literals [OF segs(1) _ seg] by simp
    moreover have "CHR ''{'' \<notin> set (filled ctx n)" if "f = Some n" for n
    proof -
      have "n \<in> set (placeholder_names segs)" using seg segs(2) that by (auto simp: placeholder_names_set list_all_iff)
      from given [OF this] show ?thesis using plain by (auto simp: filled_def)
    qed
    ultimately show ?thesis by (cases f) simp_all
  qed
  then have "CHR ''{'' \<notin> set (render ctx segs)" by (fastforce simp: render_def)
  then show ?thesis by (simp add: doc dget_def)
qed

end
