(* ===== verification/Spec2Isabelle.thy ===== *)
theory Spec2Isabelle
  imports Action_Grants Worker Audit_Log Runtime_Safety Bundles Anchors Migrations Delegation Gateway Retrieval Anthropic_Wire Execution Verify_Routes Negotiation Billing Proofs Xero_Tool Money_Tools Hr_Tools
begin

text \<open>
  Verification library of the Genesis agent gateway.

  \<^bold>\<open>The program.\<close> Genesis is an HTTP gateway (\<^verbatim>\<open>main.py\<close>) in front of a set of language-model agents. A request is authenticated
  (\<^verbatim>\<open>runtime/request_auth.py\<close>) and becomes a row of a job table (\<^verbatim>\<open>job_store.py\<close>) in Postgres (\<^verbatim>\<open>runtime/pg_store.py\<close>,
  schema kept by \<^verbatim>\<open>migrations/runner.py\<close>). A worker (\<^verbatim>\<open>worker.py\<close>) claims the job and runs the agent loop (\<^verbatim>\<open>agent_runtime.py\<close>), which
  loads the agent's bundle (\<^verbatim>\<open>bundle_loader.py\<close>), calls a model (\<^verbatim>\<open>runtime/anthropic_wire.py\<close>) and dispatches tools under a policy
  (\<^verbatim>\<open>runtime/tool_policy.py\<close>). Deployment tools need a single-use grant (\<^verbatim>\<open>runtime/action_grants.py\<close>), every call is written to a hash chain
  (\<^verbatim>\<open>audit.py\<close>) whose days are anchored by Merkle roots (\<^verbatim>\<open>anchor_logger.py\<close>), an agent may delegate to another one
  (\<^verbatim>\<open>tools/genesis_call_tool.py\<close>), and sessions and relationships are written behind the caller's back by a queue (\<^verbatim>\<open>durable_store.py\<close>).
  Money moves only through the contained escrow client (\<^verbatim>\<open>escrow_guard.py\<close>, \<^verbatim>\<open>escrow_client.py\<close>).

  \<^bold>\<open>How it is modelled.\<close> Python values are the datatype \<open>pyval\<close>, a dictionary an association list, text a list of code points below 256. A call
  that may raise returns a sum whose left side is the exception; state is passed and returned. The clock, random ids, cryptography, JSON and
  URL parsing, the network and what a database transaction finds are arguments of the functions that use them. Names follow the source.

  \<^bold>\<open>Theories.\<close>
  \<^item> \<open>Prelude\<close>: text, values, JSON printing, Python conversions, the exception combinators \<open>bindE\<close>, \<open>guardE\<close>, \<open>raisingE\<close>, \<open>optE\<close>.
  \<^item> \<open>Tool_Policy\<close>: risk classes, grant and prohibition tables, the policy decision and the boot assertion on the prohibition manifest.
  \<^item> \<open>Pg_Store\<close>: backend selection, connection slots, the transaction bracket, advisory-lock keys.
  \<^item> \<open>Single_Use\<close>: the locale \<open>single_use\<close> of stores in which a key can be spent once; the nonce store of \<open>Request_Auth\<close> and the grant store
    of \<open>Action_Grants\<close> are its interpretations.
  \<^item> \<open>Request_Auth\<close>: AP2 envelopes, continuation tokens, ownership of rows.
  \<^item> \<open>Action_Grants\<close>: issue and consumption of deployment grants.
  \<^item> \<open>Job_Store\<close>: the job and event tables, as functions, as the step relation \<open>job_step\<close> of whole calls, and as the relation \<open>overlapping\<close> in which the
    read and the write of a status update are steps of their own that other calls come between.
  \<^item> \<open>Envelope\<close>, \<open>Escrow\<close>: the truthful-failure envelope (\<^verbatim>\<open>tools/_envelope.py\<close>) and the escrow client with its containment.
  \<^item> \<open>Worker\<close>: one tick of the worker, the processing of a job on every path, callbacks.
  \<^item> \<open>Hash_Chain\<close>, \<open>Audit_Log\<close>, \<open>Anchors\<close>: the locale of hash chains, the audit log over it, the daily Merkle anchors.
  \<^item> \<open>Accounting\<close>, \<open>Bundles\<close>: the accounting specialists and their routing (\<^verbatim>\<open>accounting/\<close>), bundles and the tool registry (\<^verbatim>\<open>tools/__init__.py\<close>).
  \<^item> \<open>Agent_Runtime\<close>, \<open>Runtime_Safety\<close>: the agent loop, and what holds of all its runs; the locale \<open>loop_invariant\<close> carries an invariant through
    the loop and is interpreted for the lawfulness of executions and for the evidence of success.
  \<^item> \<open>Delegation\<close>: one agent calling another, over the job tables, the durable store and the spending ledger.
  \<^item> \<open>Durable_Store\<close>: the queue of writes with its single worker, until the executor is shut down.
  \<^item> \<open>Migrations\<close>: the SQL scanner, reconciliation and application of migrations.
  \<^item> \<open>Anthropic_Wire\<close>: translation between the two chat formats and the model calls.
  \<^item> \<open>Gateway\<close>: authentication dependencies, boot assertions and job routes of \<^verbatim>\<open>main.py\<close>.
  \<^item> \<open>Job_Resources\<close>, \<open>Execution\<close>: workspaces and the session vault (\<^verbatim>\<open>runtime/workspace_manager.py\<close>, \<^verbatim>\<open>conduit_sessions.py\<close>), and over
    them one invocation of an agent (\<^verbatim>\<open>_execute_agent_inner\<close>, \<^verbatim>\<open>accounting/runtime_context.py\<close>) with its budgets and its durable session.
  \<^item> \<open>Sandbox\<close>: commands and files of a job (\<^verbatim>\<open>runtime/sandbox_manager.py\<close>, \<^verbatim>\<open>tools/workspace_shell_tool.py\<close>, \<^verbatim>\<open>tools/sandbox_tool.py\<close>,
    \<^verbatim>\<open>tools/file_write_tool.py\<close>, \<^verbatim>\<open>tools/code_format_tool.py\<close>) as effects on a host, with a logic (\<open>only\<close>) of what a run may do to it.
  \<^item> \<open>Run_Route\<close>, \<open>Negotiation\<close>: the run route of \<^verbatim>\<open>main.py\<close> with its escrow and the persona fallback over the model router, the negotiation.
  \<^item> \<open>Verification\<close>, \<open>Verify_Routes\<close>: the verifier of deliverables (\<^verbatim>\<open>conduit_verifier.py\<close>), the verification routes of \<^verbatim>\<open>main.py\<close> and the
    step relation \<open>verify_step\<close> of their job tables.
  \<^item> \<open>Retrieval\<close>: the retrieval route with its two backends (\<^verbatim>\<open>retrieval_route.py\<close>), permission filter and choice among duplicates
    (\<^verbatim>\<open>knowledge_backbone.py\<close>).
  \<^item> \<open>Finance\<close>, \<open>Billing\<close>: the two reporting tools of the money domain (\<^verbatim>\<open>tools/finance_tool.py\<close>, \<^verbatim>\<open>tools/billing_tool.py\<close>), their
    validation, integer sums, decimal rounding and allocation, and the envelope the report is sent in.
  \<^item> \<open>Artifacts\<close>: the files a job leaves (\<^verbatim>\<open>artifact_store.py\<close>) with the routes that list and serve them, and the events, sessions and
    traces of a job (\<^verbatim>\<open>runtime/observability.py\<close>), over the durable store.
  \<^item> \<open>Base64\<close>, \<open>Proofs\<close>: Python's Base64 with its round trip, and the signed proofs of finished jobs (\<^verbatim>\<open>proof_bridge.py\<close>) up to the route
    that verifies them.
  \<^item> \<open>Xero_Tool\<close>: posting to Xero through the scope gate with its ledger (\<^verbatim>\<open>tools/xero_scoped_tool.py\<close>) as the loop calls it, and the
    proofs of FinanceOS (\<^verbatim>\<open>accounting/financeos_proofs_client.py\<close>, \<^verbatim>\<open>tools/financeos_proofs_tool.py\<close>).
  \<^item> \<open>Data_Tools\<close>: the tools of the data agent (\<^verbatim>\<open>tools/data_pipeline_tool.py\<close>), with the quality check, its loops and its score in doubles.
  \<^item> \<open>Money_Tools\<close>: the pricing, commerce and domain tools, and the table of what the five money modules register.
  \<^item> \<open>Hr_Tools\<close>: the people tools (\<^verbatim>\<open>tools/hr_tool.py\<close>), with the templates and the format strings they are filled through.

  \<^bold>\<open>What is shown.\<close> Identity: accepted envelopes are signed, fresh, in scope and not accepted twice, but for a replay in the second in which they
  expire; tokens are authentic; only the owner reads a job, and the owner can. Authority: the policy decision is spelled out for every agent
  and tool; in every run of the loop an executed tool went through the steps its class asks for; grants are bound and spent once; delegation
  stays one level deep. Jobs: the event log accounts for the status of every row however calls overlap, and has no gap unless two calls
  raced for the row or its id was given twice; calls one after the other leave terminal statuses alone, a job is claimed once, every run of the
  worker ends it. Money: no escrow request leaves outside the marketplace profile, and a tick of the worker names only escrows of the rows it
  claimed. Evidence: the audit chain of every session verifies and detects deletion and, where texts have no colon, tampering; a match of
  an anchored day vouches for the contents of its rows if the anchored store is the one whose chains are verified; a successful run carries evidence,
  envelopes are truthful. Storage: transactions are atomic, migrations refine the replay of a prefix of the directory, durable writes refine their
  submission order. Model calls: every history of the loop translates into a conversation in which each turn answers the calls of the one before,
  and a call sends at most three requests. Retrieval: a query is let in only as signed, and answered from rows its principal may read, one
  per document. Runs: every effect of the run route lies behind its checks, an escrow it reserves is closed or handed on, the session of an
  invocation records how it ended. Verification: a verdict means what it says, in the proof and in the reports, and a polled job has the fields
  of its status. Commands: the sandbox starts only the probe of its container and commands confined in it. Reports: what the money tools
  report adds up, rounding included, the quality check agrees with its declaration, and no money tool that is not read-only ever succeeds.
  Accounting: nothing is posted to Xero but what the scope map and the job allow the running agent, and not again under an id its ledger
  holds; a verification passes only as FinanceOS answered. Outputs: uploaded files reach their owner; the agents' listing is the owner's
  alone, the operators' listing and the files are open to every holder of the gateway key; a proof that verifies was signed for the payload it
  shows. Some theorems state behaviour the source does not intend: a denied tool is executed, the parameters of a submission and the input of
  a run are unsigned, a raising runtime is answered by the persona, a lost callback reverses a verdict, the verifier's browser goes to private
  addresses, \<open>run_code\<close> runs outside the sandbox, the id of a verification is never looked up, and a resource nobody asked for is available.

  \<^bold>\<open>Bounds.\<close> The loop runs by the number of turns left, which is \<open>MAX_TURNS\<close> at the start as in the source; a model of the router by its attempts left;
  redirects by the opener's limit; callbacks, model fallbacks and
  migrations recurse over finite lists. Every other loop is structural or has a termination proof, so no fuel is used elsewhere.

  \<^bold>\<open>Not modelled.\<close> The persona table, which is prompt text, and the demo and health routes of \<^verbatim>\<open>main.py\<close>; the browser bridge, and the page of the
  verifier's browser, which is an argument; the queries of the two retrieval stores; tracing and log files; the tools but those named above, which
  the loop takes as an argument; the evaluation harness, scripts and tests. Concurrency
  is modelled where the code relies on it: as interleaved reads and writes of the job store, steps of the durable queue and of the verification tables; requests are otherwise
  served one at a time. Code points of 256 and more, and floating-point arithmetic beyond printing, comparison and
  the score of the quality check, are left out.

  \<^bold>\<open>What is left.\<close> The rubrics and the client of the evaluation harness, whose prompts are not Latin text; the tools that are thin clients of other
  services; the capability cards and the personas, which are data.
\<close>

end
